(* ===== verification/Prelude.thy ===== *)
theory Prelude
  imports Main "HOL-Library.Word" "HOL-Library.Monad_Syntax"
begin

text \<open>
  Shared vocabulary of the development: the C integer types of the drivers as
  machine words, the Linux error numbers they return, the collections of facts
  the component proofs draw on, and generic lemmas on lists, options and words.

  A C function that can run into undefined behaviour (an access outside an
  object, a NULL dereference) or that may spin for ever has a result of type
  \<open>'a option\<close>; \<open>None\<close> is that outcome.  Functions of the kernel and of
  the hardware, whose code is not part of the repository, are arguments of the
  definitions that use them.
\<close>

unbundle bit_operations_syntax

section \<open>Fact collections\<close>

named_theorems regs \<open>values of register offsets and bit masks\<close>
named_theorems mmio \<open>what the register access operations do to the access log\<close>

section \<open>Integer types\<close>

type_synonym u8 = "8 word"
type_synonym u16 = "16 word"
type_synonym u32 = "32 word"
type_synonym u64 = "64 word"

definition BIT :: "nat \<Rightarrow> u32" where
  "BIT n = push_bit n 1"

lemma BIT_numeral [simp]: "BIT (numeral k) = 2 ^ numeral k"
  by (simp add: BIT_def)

lemma BIT_0 [simp]: "BIT 0 = 1"
  by (simp add: BIT_def)

lemma BIT_Suc_0 [simp]: "BIT (Suc 0) = 2"
  by (simp add: BIT_def)

lemma bit_BIT: "bit (BIT n) k \<longleftrightarrow> k = n \<and> n < 32"
  by (auto simp: BIT_def bit_simps)

lemma and_BIT_eq_0: 
  assumes "n < 32"
  shows "(v :: u32) AND BIT n = 0 \<longleftrightarrow> \<not> bit v n"
proof
  assume "v AND BIT n = 0"
  then have "bit (v AND BIT n) n = bit (0 :: u32) n" by simp
  with assms show "\<not> bit v n" by (simp add: bit_and_iff bit_BIT)
next
  assume "\<not> bit v n"
  then show "v AND BIT n = 0" by (intro bit_word_eqI) (auto simp: bit_and_iff bit_BIT)
qed

section \<open>Linux error numbers\<close>

text \<open>The values of the kernel's user-visible error numbers (asm-generic/errno).\<close>

abbreviation (input) ENOENT :: int where "ENOENT \<equiv> 2"
abbreviation (input) EIO :: int where "EIO \<equiv> 5"
abbreviation (input) EAGAIN :: int where "EAGAIN \<equiv> 11"
abbreviation (input) ENOMEM :: int where "ENOMEM \<equiv> 12"
abbreviation (input) EFAULT :: int where "EFAULT \<equiv> 14"
abbreviation (input) EBUSY :: int where "EBUSY \<equiv> 16"
abbreviation (input) ENODEV :: int where "ENODEV \<equiv> 19"
abbreviation (input) EINVAL :: int where "EINVAL \<equiv> 22"
abbreviation (input) ENOTTY :: int where "ENOTTY \<equiv> 25"
abbreviation (input) EAFNOSUPPORT :: int where "EAFNOSUPPORT \<equiv> 97"
abbreviation (input) ETIMEDOUT :: int where "ETIMEDOUT \<equiv> 110"

section \<open>Generic lemmas\<close>

lemma bind_Some_iff: "Option.bind m f = Some y \<longleftrightarrow> (\<exists>x. m = Some x \<and> f x = Some y)"
  by (cases m) auto

lemma upt_append_Suc: "i \<le> j \<Longrightarrow> [i..<Suc j] = [i..<j] @ [j]"
  by simp

lemma ucast_u8_or: "(ucast (a OR b :: u32) :: u8) = ucast a OR ucast b"
  by (rule bit_word_eqI) (simp add: bit_simps)

lemma ucast_u8_and: "(ucast (a AND b :: u32) :: u8) = ucast a AND ucast b"
  by (rule bit_word_eqI) (simp add: bit_simps)

lemma ucast_u8_up_down [simp]: "(ucast (ucast (b :: u8) :: u32) :: u8) = b"
  by (rule bit_word_eqI) (simp add: bit_simps)

lemma and_u8_max [simp]: "(b :: u8) AND 255 = b"
proof -
  have "(255 :: u8) = - 1" by simp
  then show ?thesis by (simp only: bit.conj_one_right)
qed

lemma unat_sub_1: "(w :: 'a::len word) \<noteq> 0 \<Longrightarrow> unat (w - 1) = unat w - 1"
  by (simp add: unat_minus_one)

lemma unat_measure_dec: "(w :: 'a::len word) \<noteq> 0 \<Longrightarrow> unat (w - 1) < unat w"
  by (simp add: unat_minus_one unat_gt_0)

lemma unat_Suc_pred: "(w :: 'a::len word) \<noteq> 0 \<Longrightarrow> unat w = Suc (unat (w - 1))"
  by (simp add: unat_minus_one unat_gt_0)

lemma take_update_snoc:
  "n < length xs \<Longrightarrow> take (Suc n) (xs[n := v]) = take n xs @ [v]"
  by (simp add: take_Suc_conv_app_nth)

lemma unat_ucast_u64: "unat (ucast (x :: u32) :: u64) = unat x"
  by transfer (simp add: take_bit_eq_mod)

lemma unat_u32_less: "unat (x :: u32) < 2 ^ 32"
  using unsigned_less [of x] by simp

lemma uint_u32_bounds: "0 \<le> uint (a :: u32)" "uint a < 4294967296"
  using unsigned_less [of a] by simp_all

lemma u32_window:
  assumes "(a :: u32) \<le> a + s"
  shows "a \<le> x \<and> x < a + s \<longleftrightarrow> x - a < s"
proof -
  note b = uint_u32_bounds [of a] uint_u32_bounds [of s] uint_u32_bounds [of x]
  have m: "(uint a + uint s) mod 4294967296 = uint a + uint s"
  proof (rule ccontr)
    assume "\<not> ?thesis"
    then have "4294967296 \<le> uint a + uint s" using b by (smt (verit) mod_pos_pos_trivial)
    then have "(uint a + uint s) mod 4294967296 = uint a + uint s - 4294967296"
      using b by (smt (verit) mod_pos_pos_trivial minus_mod_self2)
    moreover have "uint a \<le> (uint a + uint s) mod 4294967296"
      using assms by (simp add: word_le_def uint_word_ariths)
    ultimately show False using b by linarith
  qed
  have d: "(uint x - uint a) mod 4294967296 =
      (if uint a \<le> uint x then uint x - uint a else uint x - uint a + 4294967296)"
  proof (cases "uint a \<le> uint x")
    case True
    moreover have "uint x - uint a < 4294967296" using b by linarith
    ultimately show ?thesis by (subst mod_pos_pos_trivial) auto
  next
    case False
    have "(uint x - uint a) mod 4294967296 = (uint x - uint a + 4294967296) mod 4294967296" by simp
    also have "\<dots> = uint x - uint a + 4294967296" using False b by (intro mod_pos_pos_trivial; linarith)
    finally show ?thesis using False by simp
  qed
  have n: "uint a + uint s < 4294967296"
    using m pos_mod_bound [of 4294967296 "uint a + uint s"] by simp
  have "(uint a \<le> uint x \<and> uint x < uint a + uint s) =
      ((if uint a \<le> uint x then uint x - uint a else uint x - uint a + 4294967296) < uint s)"
  proof (cases "uint a \<le> uint x")
    case True
    then show ?thesis by auto
  next
    case False
    then have "\<not> uint x - uint a + 4294967296 < uint s" using b n by linarith
    with False show ?thesis by simp
  qed
  then show ?thesis
    by (simp add: word_le_def word_less_def uint_word_ariths m d)
qed

lemma unat_word_of_int_u32: "0 \<le> x \<Longrightarrow> x < 4294967296 \<Longrightarrow> unat (word_of_int x :: u32) = nat x"
  by (simp add: unsigned_of_int take_bit_int_eq_self)

lemma ucast_u8_masked: "(ucast (x AND 0xFF :: u32) :: u8) = ucast x"
proof -
  have m: "(0xFF :: u32) = mask 8" by (simp add: mask_eq_exp_minus_1)
  show ?thesis unfolding m by (rule bit_word_eqI) (simp add: bit_simps)
qed

lemma unat_drop_bit_u32: "unat (drop_bit k (a :: u32)) = unat a div 2 ^ k"
  by (simp only: unsigned_drop_bit_eq) (simp add: drop_bit_eq_div take_bit_nat_eq_self unat_u32_less [simplified])

lemma unat_byte_of: "unat (ucast (drop_bit k (a :: u32) AND 0xFF) :: u8) = unat a div 2 ^ k mod 256"
  by (simp only: ucast_u8_masked unsigned_ucast_eq unat_drop_bit_u32) (simp add: take_bit_eq_mod)

lemma three_bytes:
  "(n :: nat) div 2 ^ 16 mod 256 * 65536 + n div 2 ^ 8 mod 256 * 256 + n div 2 ^ 0 mod 256 = n mod 16777216"
  using div_mult_mod_eq [of n 256] mod_mult2_eq [of n 256 65536] mod_mult2_eq [of "n div 256" 256 256]
  by (simp add: div_mult2_eq [symmetric])

end
