(* ===== verification/Mmio.thy ===== *)
theory Mmio
  imports Prelude
begin

text \<open>
  Memory-mapped registers.  The hardware behind a register is not part of the
  repository, so it is a parameter: a \<open>device\<close> maps the log of all accesses made
  so far and a location to the word a read of that location returns.  Any
  reaction of the hardware to earlier reads and writes is such a function, and a
  theorem that holds for every device holds for every hardware.  The location
  type is a type variable: an offset from a mapped base, or a mapped pointer.

  The kernel's \<open>readl\<close>/\<open>writel\<close> append to the log.  Busy-wait loops come in two
  kinds: an unbounded spin (\<open>spin_until\<close>, \<open>None\<close> when it never ends) and the
  bounded poll of linux/iopoll.h (\<open>read_poll_timeout\<close>), where the number of
  reads the deadline allows is chosen by the clock and is again a parameter.
\<close>

section \<open>Access log and device\<close>

datatype 'l access = Rd 'l u32 | Wr 'l u32

type_synonym 'l log = "'l access list"
type_synonym 'l device = "'l log \<Rightarrow> 'l \<Rightarrow> u32"
type_synonym 'l clock = "'l log \<Rightarrow> nat"

definition readl :: "'l device \<Rightarrow> 'l \<Rightarrow> 'l log \<Rightarrow> u32 \<times> 'l log" where
  "readl d a h = (d h a, h @ [Rd a (d h a)])"

definition writel :: "u32 \<Rightarrow> 'l \<Rightarrow> 'l log \<Rightarrow> 'l log" where
  "writel v a h = h @ [Wr a v]"

lemma readl_fst [mmio, simp]: "fst (readl d a h) = d h a"
  by (simp add: readl_def)

lemma readl_snd [mmio, simp]: "snd (readl d a h) = h @ [Rd a (d h a)]"
  by (simp add: readl_def)

text \<open>The part of a log one location sees: the words written to it, in order.\<close>

fun written :: "'l \<Rightarrow> 'l log \<Rightarrow> u32 list" where
  "written a [] = []"
| "written a (Rd b v # h) = written a h"
| "written a (Wr b v # h) = (if b = a then v # written a h else written a h)"

lemma written_append [mmio, simp]: "written a (h @ k) = written a h @ written a k"
  by (induction h rule: written.induct [of _ a]) auto

text \<open>The words read from one location, in order.\<close>

fun reads_of :: "'l \<Rightarrow> 'l log \<Rightarrow> u32 list" where
  "reads_of a [] = []"
| "reads_of a (Rd b v # h) = (if b = a then v # reads_of a h else reads_of a h)"
| "reads_of a (Wr b v # h) = reads_of a h"

lemma reads_of_append [mmio, simp]: "reads_of a (h @ k) = reads_of a h @ reads_of a k"
  by (induction h rule: reads_of.induct [of _ a]) auto

fun loc_of :: "'l access \<Rightarrow> 'l" where
  "loc_of (Rd a v) = a"
| "loc_of (Wr a v) = a"

definition locs :: "'l log \<Rightarrow> 'l set" where
  "locs h = loc_of ` set h"

lemma locs_append [simp]: "locs (h @ k) = locs h \<union> locs k"
  by (auto simp: locs_def)

lemma locs_Nil [simp]: "locs [] = {}"
  by (simp add: locs_def)

lemma locs_Cons [simp]: "locs (x # h) = insert (loc_of x) (locs h)"
  by (simp add: locs_def)

lemma written_not_loc: "a \<notin> locs h \<Longrightarrow> written a h = []"
  by (induction h rule: written.induct [of _ a]) auto

lemma reads_not_loc: "a \<notin> locs h \<Longrightarrow> reads_of a h = []"
  by (induction h rule: reads_of.induct [of _ a]) auto

text \<open>The accesses a run adds to a log.\<close>

definition extends :: "'l log \<Rightarrow> 'l log \<Rightarrow> bool" where
  "extends h h' \<longleftrightarrow> (\<exists>k. h' = h @ k)"

lemma extends_refl [simp, intro]: "extends h h"
  by (simp add: extends_def)

lemma extends_snoc [simp, intro]: "extends h (h @ k)"
  by (auto simp: extends_def)

lemma extends_trans: "extends a b \<Longrightarrow> extends b c \<Longrightarrow> extends a c"
  by (auto simp: extends_def)

section \<open>Unbounded spin\<close>

text \<open>\<open>while (!p(readl(a)));\<close> returning the last word read.\<close>

partial_function (option) spin_until ::
  "'l device \<Rightarrow> 'l \<Rightarrow> (u32 \<Rightarrow> bool) \<Rightarrow> 'l log \<Rightarrow> (u32 \<times> 'l log) option" where
  "spin_until d a p h =
     (if p (d h a) then Some (readl d a h)
      else spin_until d a p (h @ [Rd a (d h a)]))"

declare spin_until.simps [code]

fun spin :: "'l device \<Rightarrow> 'l \<Rightarrow> nat \<Rightarrow> 'l log \<Rightarrow> 'l log" where
  "spin d a 0 h = h"
| "spin d a (Suc n) h = spin d a n (h @ [Rd a (d h a)])"

lemma spin_extends: "\<exists>k. spin d a n h = h @ k \<and> locs k \<subseteq> {a} \<and> (\<forall>b. written b k = [])"
proof (induction n arbitrary: h)
  case 0
  then show ?case by simp
next
  case (Suc n)
  obtain k where "spin d a n (h @ [Rd a (d h a)]) = (h @ [Rd a (d h a)]) @ k"
    and "locs k \<subseteq> {a}" and "\<forall>b. written b k = []"
    using Suc.IH by blast
  then show ?case by (intro exI [of _ "Rd a (d h a) # k"]) auto
qed

lemma spin_until_Some:
  assumes "spin_until d a p h = Some (v, h')"
  shows "p v \<and> (\<exists>k. h' = h @ k \<and> locs k = {a} \<and> (\<forall>b. written b k = []))"
proof -
  have "\<And>r. spin_until d a p h = Some r \<Longrightarrow>
      p (fst r) \<and> (\<exists>k. snd r = h @ k \<and> locs k = {a} \<and> (\<forall>b. written b k = []))"
  proof (rule spin_until.raw_induct [where P = "\<lambda>d a p h r. p (fst r) \<and>
        (\<exists>k. snd r = h @ k \<and> locs k = {a} \<and> (\<forall>b. written b k = []))"])
    fix f :: "'a device \<Rightarrow> 'a \<Rightarrow> (u32 \<Rightarrow> bool) \<Rightarrow> 'a log \<Rightarrow> (u32 \<times> 'a log) option"
    fix d a p h r
    assume IH: "\<And>d a p h r. f d a p h = Some r \<Longrightarrow>
        p (fst r) \<and> (\<exists>k. snd r = h @ k \<and> locs k = {a} \<and> (\<forall>b. written b k = []))"
      and eq: "(if p (d h a) then Some (readl d a h) else f d a p (h @ [Rd a (d h a)])) = Some r"
    show "p (fst r) \<and> (\<exists>k. snd r = h @ k \<and> locs k = {a} \<and> (\<forall>b. written b k = []))"
    proof (cases "p (d h a)")
      case True
      with eq show ?thesis by auto
    next
      case False
      with eq obtain k where "p (fst r)" "snd r = (h @ [Rd a (d h a)]) @ k" "locs k = {a}"
        "\<forall>b. written b k = []"
        using IH by (metis (full_types))
      then show ?thesis by (auto intro!: exI [of _ "Rd a (d h a) # k"])
    qed
  qed
  then show ?thesis using assms by fastforce
qed

text \<open>The loop returns exactly when some later read satisfies the exit condition.\<close>

lemma spin_until_returns:
  "p (d (spin d a n h) a) \<Longrightarrow> \<exists>r. spin_until d a p h = Some r"
proof (induction n arbitrary: h)
  case 0
  then show ?case by (simp add: spin_until.simps)
next
  case (Suc n)
  show ?case
  proof (cases "p (d h a)")
    case True
    then show ?thesis by (simp add: spin_until.simps)
  next
    case False
    from Suc.prems have "p (d (spin d a n (h @ [Rd a (d h a)])) a)" by simp
    from Suc.IH [OF this] False show ?thesis by (subst spin_until.simps) simp
  qed
qed

lemma spin_until_now: "p (d h a) \<Longrightarrow> spin_until d a p h = Some (d h a, h @ [Rd a (d h a)])"
  by (simp add: spin_until.simps readl_def)

lemma spin_until_hangs:
  assumes "\<And>n. \<not> p (d (spin d a n h) a)"
  shows "spin_until d a p h = None"
proof -
  have "\<And>r. spin_until d a p h = Some r \<Longrightarrow> \<exists>n. p (d (spin d a n h) a)"
  proof (rule spin_until.raw_induct [where P = "\<lambda>d a p h r. \<exists>n. p (d (spin d a n h) a)"])
    fix f :: "'a device \<Rightarrow> 'a \<Rightarrow> (u32 \<Rightarrow> bool) \<Rightarrow> 'a log \<Rightarrow> (u32 \<times> 'a log) option"
    fix d a p h r
    assume IH: "\<And>d a p h r. f d a p h = Some r \<Longrightarrow> \<exists>n. p (d (spin d a n h) a)"
      and eq: "(if p (d h a) then Some (readl d a h) else f d a p (h @ [Rd a (d h a)])) = Some r"
    show "\<exists>n. p (d (spin d a n h) a)"
    proof (cases "p (d h a)")
      case True
      then show ?thesis by (intro exI [of _ 0]) simp
    next
      case False
      with eq IH obtain n where "p (d (spin d a n (h @ [Rd a (d h a)])) a)" by fastforce
      then show ?thesis by (intro exI [of _ "Suc n"]) simp
    qed
  qed
  with assms show ?thesis by (cases "spin_until d a p h") auto
qed

section \<open>Bounded poll\<close>

text \<open>
  \<open>readl_poll_timeout(a, v, cond, sleep, timeout)\<close>: read until the condition holds;
  when the deadline has passed, read once more and stop.  The result is 0 when the
  last word read satisfies the condition and \<open>-ETIMEDOUT\<close> otherwise.  \<open>n\<close> is the
  number of reads made before the deadline check fails.
\<close>

fun poll_reads :: "'l device \<Rightarrow> 'l \<Rightarrow> (u32 \<Rightarrow> bool) \<Rightarrow> nat \<Rightarrow> 'l log \<Rightarrow> u32 \<times> 'l log" where
  "poll_reads d a p 0 h = readl d a h"
| "poll_reads d a p (Suc n) h =
     (if p (d h a) then readl d a h else poll_reads d a p n (h @ [Rd a (d h a)]))"

definition read_poll_timeout ::
  "'l device \<Rightarrow> 'l clock \<Rightarrow> 'l \<Rightarrow> (u32 \<Rightarrow> bool) \<Rightarrow> 'l log \<Rightarrow> int \<times> 'l log" where
  "read_poll_timeout d c a p h =
     (let (v, h') = poll_reads d a p (Suc (c h)) h in (if p v then 0 else - ETIMEDOUT, h'))"

lemma poll_reads_log:
  "\<exists>v k. poll_reads d a p n h = (v, h @ k) \<and> locs k = {a} \<and> (\<forall>b. written b k = [])"
proof (induction n arbitrary: h)
  case 0
  then show ?case by (simp add: readl_def)
next
  case (Suc n)
  show ?case
  proof (cases "p (d h a)")
    case True
    then show ?thesis by (simp add: readl_def)
  next
    case False
    obtain v k where "poll_reads d a p n (h @ [Rd a (d h a)]) = (v, (h @ [Rd a (d h a)]) @ k)"
      and "locs k = {a}" and "\<forall>b. written b k = []"
      using Suc.IH by blast
    with False show ?thesis
      by (intro exI [of _ v] exI [of _ "Rd a (d h a) # k"]) auto
  qed
qed

lemma read_poll_timeout_log:
  "read_poll_timeout d c a p h = (r, h') \<Longrightarrow>
     (r = 0 \<or> r = - ETIMEDOUT) \<and> (\<exists>k. h' = h @ k \<and> locs k = {a} \<and> (\<forall>b. written b k = []))"
  using poll_reads_log [of d a p "Suc (c h)" h]
  by (auto simp del: poll_reads.simps simp: read_poll_timeout_def split: if_splits)

lemma read_poll_timeout_written [simp]:
  "written b (snd (read_poll_timeout d c a p h)) = written b h"
  using read_poll_timeout_log [of d c a p h "fst (read_poll_timeout d c a p h)"]
  by (metis append_Nil2 prod.collapse written_append)

lemma read_poll_timeout_reads [simp]:
  "b \<noteq> a \<Longrightarrow> reads_of b (snd (read_poll_timeout d c a p h)) = reads_of b h"
  using read_poll_timeout_log [of d c a p h "fst (read_poll_timeout d c a p h)"]
  by (metis append_Nil2 prod.collapse reads_not_loc reads_of_append singletonD)

lemma read_poll_timeout_ret: "fst (read_poll_timeout d c a p h) \<in> {0, - ETIMEDOUT}"
  by (simp add: read_poll_timeout_def split_beta)

lemma read_poll_timeout_ready:
  "p (d h a) \<Longrightarrow> read_poll_timeout d c a p h = (0, h @ [Rd a (d h a)])"
  by (simp add: read_poll_timeout_def readl_def)

end
