(* ===== verification/EfxI2c_Regs.thy ===== *)
theory EfxI2c_Regs
  imports Mmio
begin

text \<open>
  Register offsets and bit fields of the Efinix I2C controller, as
  kernel_modules/i2c/src/i2c.c defines them (one definition per macro), the
  driver's message and device structures, and the register-level helpers that
  every other operation of the driver goes through.
\<close>

section \<open>Registers\<close>

definition EFX_I2C_TX_DATA :: u32 where [regs]: "EFX_I2C_TX_DATA = 0x00"
definition EFX_I2C_TX_ACK :: u32 where [regs]: "EFX_I2C_TX_ACK = 0x04"
definition EFX_I2C_RX_DATA :: u32 where [regs]: "EFX_I2C_RX_DATA = 0x08"
definition EFX_I2C_RX_ACK :: u32 where [regs]: "EFX_I2C_RX_ACK = 0x0c"
definition EFX_I2C_IRQ :: u32 where [regs]: "EFX_I2C_IRQ = 0x20"
definition EFX_I2C_IRQ_CLR :: u32 where [regs]: "EFX_I2C_IRQ_CLR = 0x24"
definition EFX_I2C_SAMPLING_CLOCK_DIV :: u32 where [regs]: "EFX_I2C_SAMPLING_CLOCK_DIV = 0x28"
definition EFX_I2C_TIMEOUT :: u32 where [regs]: "EFX_I2C_TIMEOUT = 0x2c"
definition EFX_I2C_TSU_DATA :: u32 where [regs]: "EFX_I2C_TSU_DATA = 0x30"
definition EFX_I2C_MASTER_STATUS :: u32 where [regs]: "EFX_I2C_MASTER_STATUS = 0x40"
definition EFX_I2C_TLOW :: u32 where [regs]: "EFX_I2C_TLOW = 0x50"
definition EFX_I2C_THIGH :: u32 where [regs]: "EFX_I2C_THIGH = 0x54"
definition EFX_I2C_TBUF :: u32 where [regs]: "EFX_I2C_TBUF = 0x58"
definition EFX_I2C_HIT_CONTEXT :: u32 where [regs]: "EFX_I2C_HIT_CONTEXT = 0x80"
definition EFX_I2C_FILTERING_STATUS :: u32 where [regs]: "EFX_I2C_FILTERING_STATUS = 0x84"
definition EFX_I2C_FILTERING_CONFIG0 :: u32 where [regs]: "EFX_I2C_FILTERING_CONFIG0 = 0x88"
definition EFX_I2C_FILTERING_CONFIG1 :: u32 where [regs]: "EFX_I2C_FILTERING_CONFIG1 = 0x8c"
definition EFX_I2C_TX_DATA_VALUE :: u32 where [regs]: "EFX_I2C_TX_DATA_VALUE = BIT 7"
definition EFX_I2C_TX_DATA_VALID :: u32 where [regs]: "EFX_I2C_TX_DATA_VALID = BIT 8"
definition EFX_I2C_TX_DATA_ENABLE :: u32 where [regs]: "EFX_I2C_TX_DATA_ENABLE = BIT 9"
definition EFX_I2C_TX_DATA_REPEAT :: u32 where [regs]: "EFX_I2C_TX_DATA_REPEAT = BIT 10"
definition EFX_I2C_TX_DATA_DISABLE_DATA_CONFLICT :: u32 where [regs]: "EFX_I2C_TX_DATA_DISABLE_DATA_CONFLICT = BIT 11"
definition EFX_I2C_TX_ACK_VALUE :: u32 where [regs]: "EFX_I2C_TX_ACK_VALUE = BIT 0"
definition EFX_I2C_TX_ACK_VALID :: u32 where [regs]: "EFX_I2C_TX_ACK_VALID = BIT 8"
definition EFX_I2C_TX_ACK_ENABLE :: u32 where [regs]: "EFX_I2C_TX_ACK_ENABLE = BIT 9"
definition EFX_I2C_TX_ACK_REPEAT :: u32 where [regs]: "EFX_I2C_TX_ACK_REPEAT = BIT 10"
definition EFX_I2C_TX_ACK_DISABLE_DATA_CONFLICT :: u32 where [regs]: "EFX_I2C_TX_ACK_DISABLE_DATA_CONFLICT = BIT 11"
definition EFX_I2C_RX_DATA_VALUE :: u32 where [regs]: "EFX_I2C_RX_DATA_VALUE = BIT 7"
definition EFX_I2C_RX_DATA_VALID :: u32 where [regs]: "EFX_I2C_RX_DATA_VALID = BIT 8"
definition EFX_I2C_RX_DATA_LISTEN :: u32 where [regs]: "EFX_I2C_RX_DATA_LISTEN = BIT 9"
definition EFX_I2C_RX_ACK_VALUE :: u32 where [regs]: "EFX_I2C_RX_ACK_VALUE = BIT 0"
definition EFX_I2C_RX_ACK_VALID :: u32 where [regs]: "EFX_I2C_RX_ACK_VALID = BIT 8"
definition EFX_I2C_RX_ACK_LISTEN :: u32 where [regs]: "EFX_I2C_RX_ACK_LISTEN = BIT 9"
definition EFX_I2C_IRQ_RX_DATA_ENABLE :: u32 where [regs]: "EFX_I2C_IRQ_RX_DATA_ENABLE = BIT 0"
definition EFX_I2C_IRQ_RX_ACK_ENABLE :: u32 where [regs]: "EFX_I2C_IRQ_RX_ACK_ENABLE = BIT 1"
definition EFX_I2C_IRQ_TX_DATA_ENABLE :: u32 where [regs]: "EFX_I2C_IRQ_TX_DATA_ENABLE = BIT 2"
definition EFX_I2C_IRQ_TX_ACK_ENABLE :: u32 where [regs]: "EFX_I2C_IRQ_TX_ACK_ENABLE = BIT 3"
definition EFX_I2C_IRQ_START_IRQ_ENABLE :: u32 where [regs]: "EFX_I2C_IRQ_START_IRQ_ENABLE = BIT 4"
definition EFX_I2C_IRQ_RESTART_IRQ_ENABLE :: u32 where [regs]: "EFX_I2C_IRQ_RESTART_IRQ_ENABLE = BIT 5"
definition EFX_I2C_IRQ_END_IRQ_ENABLE :: u32 where [regs]: "EFX_I2C_IRQ_END_IRQ_ENABLE = BIT 6"
definition EFX_I2C_IRQ_DROP_ENABLE :: u32 where [regs]: "EFX_I2C_IRQ_DROP_ENABLE = BIT 7"
definition EFX_I2C_IRQ_CLK_GEN_BUSY_ENABLE :: u32 where [regs]: "EFX_I2C_IRQ_CLK_GEN_BUSY_ENABLE = BIT 16"
definition EFX_I2C_IRQ_FILTER_ENABLE :: u32 where [regs]: "EFX_I2C_IRQ_FILTER_ENABLE = BIT 17"
definition EFX_I2C_IRQ_CLR_START :: u32 where [regs]: "EFX_I2C_IRQ_CLR_START = BIT 4"
definition EFX_I2C_IRQ_CLR_RESTART :: u32 where [regs]: "EFX_I2C_IRQ_CLR_RESTART = BIT 5"
definition EFX_I2C_IRQ_CLR_END :: u32 where [regs]: "EFX_I2C_IRQ_CLR_END = BIT 6"
definition EFX_I2C_IRQ_CLR_DROP :: u32 where [regs]: "EFX_I2C_IRQ_CLR_DROP = BIT 7"
definition EFX_I2C_IRQ_CLR_CLK_GEN_BUSY :: u32 where [regs]: "EFX_I2C_IRQ_CLR_CLK_GEN_BUSY = BIT 16"
definition EFX_I2C_IRQ_CLR_FILTER :: u32 where [regs]: "EFX_I2C_IRQ_CLR_FILTER = BIT 17"
definition EFX_I2C_MASTER_STATUS_BUSY :: u32 where [regs]: "EFX_I2C_MASTER_STATUS_BUSY = BIT 0"
definition EFX_I2C_MASTER_STATUS_START :: u32 where [regs]: "EFX_I2C_MASTER_STATUS_START = BIT 4"
definition EFX_I2C_MASTER_STATUS_STOP :: u32 where [regs]: "EFX_I2C_MASTER_STATUS_STOP = BIT 5"
definition EFX_I2C_MASTER_STATUS_DROP :: u32 where [regs]: "EFX_I2C_MASTER_STATUS_DROP = BIT 6"
definition EFX_I2C_FILTERING_CONFIG0_ENABLE :: u32 where [regs]: "EFX_I2C_FILTERING_CONFIG0_ENABLE = BIT 15"
definition EFX_I2C_READ_MASK :: u32 where [regs]: "EFX_I2C_READ_MASK = 0xff"
definition NACK :: u32 where [regs]: "NACK = 1"
definition ACK :: u32 where [regs]: "ACK = 0"

section \<open>Register-level helpers\<close>

definition efx_i2c_set_bits :: "u32 device \<Rightarrow> u32 \<Rightarrow> u32 \<Rightarrow> u32 log \<Rightarrow> u32 log" where
  "efx_i2c_set_bits d reg msk h = (let (v, h) = readl d reg h in writel (v OR msk) reg h)"

definition efx_i2c_clr_bits :: "u32 device \<Rightarrow> u32 \<Rightarrow> u32 \<Rightarrow> u32 log \<Rightarrow> u32 log" where
  "efx_i2c_clr_bits d reg msk h = (let (v, h) = readl d reg h in writel (v AND NOT msk) reg h)"

definition efx_i2c_disable_interrupt :: "u32 device \<Rightarrow> u32 \<Rightarrow> u32 log \<Rightarrow> u32 log" where
  "efx_i2c_disable_interrupt d value h = efx_i2c_clr_bits d EFX_I2C_IRQ value h"

definition efx_i2c_enable_interrupt :: "u32 device \<Rightarrow> u32 \<Rightarrow> u32 log \<Rightarrow> u32 log" where
  "efx_i2c_enable_interrupt d value h =
     (let (v, h) = readl d EFX_I2C_IRQ h in writel (value OR v) EFX_I2C_IRQ h)"

definition efx_i2c_clear_irq_flag :: "u32 \<Rightarrow> u32 log \<Rightarrow> u32 log" where
  "efx_i2c_clear_irq_flag value h = writel value EFX_I2C_IRQ_CLR h"

definition tx_data_word :: "u8 \<Rightarrow> u32" where
  "tx_data_word byte =
     ucast byte OR EFX_I2C_TX_DATA_ENABLE OR EFX_I2C_TX_DATA_VALID
       OR EFX_I2C_TX_DATA_DISABLE_DATA_CONFLICT"

definition efx_i2c_write_byte :: "u8 \<Rightarrow> u32 log \<Rightarrow> u32 log" where
  "efx_i2c_write_byte byte h = writel (tx_data_word byte) EFX_I2C_TX_DATA h"

text \<open>\<open>byte |= ...\<close> is an assignment to a \<open>u8\<close>: the 32-bit result is cut to 8 bits.\<close>

definition efx_i2c_tx_byte_repeat :: "u8 \<Rightarrow> u32 log \<Rightarrow> u32 log" where
  "efx_i2c_tx_byte_repeat byte h =
     (let byte = (ucast ((ucast byte :: u32) OR
                   (EFX_I2C_TX_DATA_REPEAT OR EFX_I2C_TX_DATA_DISABLE_DATA_CONFLICT)) :: u8)
      in efx_i2c_write_byte byte h)"

definition efx_i2c_tx_ack :: "u32 log \<Rightarrow> u32 log" where
  "efx_i2c_tx_ack h = writel (EFX_I2C_TX_ACK_VALID OR EFX_I2C_TX_ACK_ENABLE) EFX_I2C_TX_ACK h"

definition efx_i2c_tx_nack :: "u32 log \<Rightarrow> u32 log" where
  "efx_i2c_tx_nack h =
     writel (0x1 OR EFX_I2C_TX_ACK_VALID OR EFX_I2C_TX_ACK_ENABLE) EFX_I2C_TX_ACK h"

definition efx_i2c_tx_nack_repeat :: "u32 log \<Rightarrow> u32 log" where
  "efx_i2c_tx_nack_repeat h =
     writel (0x1 OR EFX_I2C_TX_ACK_VALID OR EFX_I2C_TX_ACK_ENABLE
             OR EFX_I2C_TX_DATA_DISABLE_DATA_CONFLICT OR EFX_I2C_TX_DATA_REPEAT) EFX_I2C_TX_ACK h"

section \<open>What the helpers add to the log\<close>

lemmas efx_reg_ops =
  efx_i2c_set_bits_def efx_i2c_clr_bits_def efx_i2c_disable_interrupt_def
  efx_i2c_enable_interrupt_def efx_i2c_clear_irq_flag_def efx_i2c_write_byte_def
  efx_i2c_tx_ack_def efx_i2c_tx_nack_def writel_def readl_def

lemma tx_data_word_byte [simp]: "(ucast (tx_data_word b) :: u8) = b"
proof -
  have w: "tx_data_word b = ucast b OR 0xB00" by (simp add: tx_data_word_def regs or.assoc)
  have z: "(ucast (0xB00 :: u32) :: u8) = 0" by simp
  show ?thesis unfolding w ucast_u8_or z by simp
qed

lemma tx_data_word_inj: "tx_data_word a = tx_data_word b \<longleftrightarrow> a = b"
  by (metis tx_data_word_byte)

end
