(* ===== verification/EfxI2c_Master.thy ===== *)
theory EfxI2c_Master
  imports EfxI2c_Regs
begin

text \<open>
  The bus-master half of kernel_modules/i2c/src/i2c.c: bus timing, start, byte
  write, byte read, message transfer and the \<open>master_xfer\<close> entry point.  The state
  is the access log of the controller's registers; a transfer also carries the
  driver's \<open>struct efx_i2c_msg\<close> (whose \<open>buf\<close> pointer is an index into the message
  buffer) and the buffer itself.  An access outside the buffer is \<open>None\<close>.

  Parameters: the controller \<open>d\<close>, the clock \<open>c\<close> of the bounded polls, the kernel's
  \<open>i2c_8bit_addr_from_msg\<close> (\<open>addr_byte\<close>) and the indeterminate initial value of the
  local variable \<open>ret\<close> (\<open>junk\<close>).
\<close>

section \<open>Data\<close>

text \<open>\<open>struct i2c_msg\<close> of the kernel; \<open>mg_buf\<close> is what its pointer points to.\<close>

record i2c_msg =
  mg_addr :: u16
  mg_flags :: u16
  mg_len :: u16
  mg_buf :: "u8 list"

definition I2C_M_RD :: u16 where [regs]: "I2C_M_RD = 1"

record efx_i2c_msg =
  em_addr :: u8
  em_count :: u16
  em_buf :: nat
  em_flags :: u16

record efx_i2c_spec =
  speed :: u32
  tsu_data :: u32
  tbuf :: u32
  thigh :: u32
  tlow :: u32
  timeout :: u32

definition I2C_MODE_STANDARD :: u8 where [regs]: "I2C_MODE_STANDARD = 0"
definition I2C_MODE_FAST :: u8 where [regs]: "I2C_MODE_FAST = 1"
definition I2C_MODE_FAST_PLUS :: u8 where [regs]: "I2C_MODE_FAST_PLUS = 2"

section \<open>Bus timing\<close>

definition efx_i2c_specs :: "efx_i2c_spec list" where
  "efx_i2c_specs =
    [\<lparr>speed = 100000, tsu_data = 2000000, tbuf = 200000, thigh = 200000,
      tlow = 200000, timeout = 1000\<rparr>,
     \<lparr>speed = 400000, tsu_data = 2000000, tbuf = 666667, thigh = 1000000,
      tlow = 666667, timeout = 1000\<rparr>,
     \<lparr>speed = 1000000, tsu_data = 20000000, tbuf = 1666667, thigh = 2500000,
      tlow = 1666667, timeout = 1000\<rparr>]"

definition efx_i2c_spec_of_mode :: "u8 \<Rightarrow> efx_i2c_spec" where
  "efx_i2c_spec_of_mode m =
     (if m = I2C_MODE_STANDARD then efx_i2c_specs ! unat I2C_MODE_STANDARD
      else if m = I2C_MODE_FAST then efx_i2c_specs ! unat I2C_MODE_FAST
      else if m = I2C_MODE_FAST_PLUS then efx_i2c_specs ! unat I2C_MODE_FAST_PLUS
      else efx_i2c_specs ! unat I2C_MODE_STANDARD)"

definition efx_i2c_hw_config ::
  "u32 \<Rightarrow> u32 \<Rightarrow> u32 \<Rightarrow> u8 \<Rightarrow> u32 log \<Rightarrow> int \<times> u32 log" where
  "efx_i2c_hw_config clk_rate peripheral_clk sampling_clk_div m h =
     (if clk_rate \<le> 0 then (- ENODEV, h)
      else let spec = efx_i2c_spec_of_mode m;
               r_tsu_data = peripheral_clk div tsu_data spec;
               r_thigh = peripheral_clk div thigh spec;
               r_tlow = peripheral_clk div tlow spec;
               r_tbuf = peripheral_clk div tbuf spec;
               r_timeout = peripheral_clk div timeout spec;
               h = writel sampling_clk_div EFX_I2C_SAMPLING_CLOCK_DIV h;
               h = writel r_timeout EFX_I2C_TIMEOUT h;
               h = writel r_tsu_data EFX_I2C_TSU_DATA h;
               h = writel r_tlow EFX_I2C_TLOW h;
               h = writel r_thigh EFX_I2C_THIGH h;
               h = writel r_tbuf EFX_I2C_TBUF h
           in (0, h))"

section \<open>Bytes and acknowledge\<close>

definition efx_i2c_terminate_xfer :: "u32 device \<Rightarrow> u32 log \<Rightarrow> u32 log" where
  "efx_i2c_terminate_xfer d h =
     efx_i2c_set_bits d EFX_I2C_MASTER_STATUS EFX_I2C_MASTER_STATUS_STOP h"

definition efx_i2c_rx_ack :: "u32 device \<Rightarrow> u32 log \<Rightarrow> int \<times> u32 log" where
  "efx_i2c_rx_ack d h =
     (let (v, h) = readl d EFX_I2C_RX_ACK h in (if v AND 0xFF = 0 then 0 else - EIO, h))"

definition efx_i2c_rx_nack :: "u32 device \<Rightarrow> u32 log \<Rightarrow> int \<times> u32 log" where
  "efx_i2c_rx_nack d h =
     (let (v, h) = readl d EFX_I2C_RX_ACK h in (if v AND 0xFF \<noteq> 0 then 0 else - EIO, h))"

definition efx_i2c_tx_ack_wait ::
  "u32 device \<Rightarrow> u32 clock \<Rightarrow> u32 \<Rightarrow> u32 log \<Rightarrow> int \<times> u32 log" where
  "efx_i2c_tx_ack_wait d c flag h =
     (let h = efx_i2c_set_bits d EFX_I2C_TX_ACK
                (EFX_I2C_TX_ACK_ENABLE OR EFX_I2C_TX_ACK_VALID OR flag) h
      in read_poll_timeout d c EFX_I2C_TX_ACK (\<lambda>status. status AND EFX_I2C_TX_ACK_VALID = 0) h)"

definition efx_i2c_start_bit :: "u32 device \<Rightarrow> u32 log \<Rightarrow> u32 log" where
  "efx_i2c_start_bit d h =
     efx_i2c_set_bits d EFX_I2C_MASTER_STATUS EFX_I2C_MASTER_STATUS_START h"

definition efx_i2c_master_busy :: "u32 device \<Rightarrow> u32 log \<Rightarrow> bool \<times> u32 log" where
  "efx_i2c_master_busy d h =
     (let (v, h) = readl d EFX_I2C_MASTER_STATUS h
      in (v AND EFX_I2C_MASTER_STATUS_BUSY \<noteq> 0, h))"

definition efx_i2c_master_write ::
  "u32 device \<Rightarrow> u32 clock \<Rightarrow> u8 \<Rightarrow> u32 log \<Rightarrow> int \<times> u32 log" where
  "efx_i2c_master_write d c byte h =
     (let h = efx_i2c_write_byte byte h;
          (ret, h) = efx_i2c_tx_ack_wait d c NACK h
      in if ret \<noteq> 0 then (ret, h) else (0, h))"

definition efx_i2c_start ::
  "u32 device \<Rightarrow> u32 clock \<Rightarrow> u8 \<Rightarrow> u32 log \<Rightarrow> int \<times> u32 log" where
  "efx_i2c_start d c adr h =
     (let h = efx_i2c_start_bit d h;
          (ret, h) = efx_i2c_master_write d c adr h
      in if ret \<noteq> 0 then (ret, h)
         else let (ret, h) = efx_i2c_rx_ack d h
              in if ret \<noteq> 0 then (ret, h) else (0, h))"

definition efx_i2c_master_read ::
  "u32 device \<Rightarrow> u32 clock \<Rightarrow> efx_i2c_msg \<Rightarrow> u8 list \<Rightarrow> u32 log
     \<Rightarrow> (int \<times> u8 list \<times> u32 log) option" where
  "efx_i2c_master_read d c m mem h =
     (let h = efx_i2c_write_byte (ucast EFX_I2C_READ_MASK) h;
          (ret, h) = (if em_count m = 1 then efx_i2c_tx_ack_wait d c NACK h
                      else efx_i2c_tx_ack_wait d c ACK h)
      in if ret < 0 then Some (ret, mem, h)
         else let (v, h) = readl d EFX_I2C_RX_DATA h
              in if em_buf m < length mem
                 then Some (0, mem[em_buf m := ucast (v AND 0xff)], h) else None)"

section \<open>Messages\<close>

text \<open>
  The body of the \<open>while (i2c_msg->count)\<close> loop up to its pointer update:
  \<open>Some (ret, mem, h)\<close> where a non-zero \<open>ret\<close> is the jump to \<open>i2c_terminate\<close>.
\<close>

definition efx_i2c_xfer_byte ::
  "u32 device \<Rightarrow> u32 clock \<Rightarrow> efx_i2c_msg \<Rightarrow> u8 list \<Rightarrow> u32 log
     \<Rightarrow> (int \<times> u8 list \<times> u32 log) option" where
  "efx_i2c_xfer_byte d c m mem h =
     (if em_flags m AND I2C_M_RD \<noteq> 0 then efx_i2c_master_read d c m mem h
      else if em_buf m < length mem then
        (let (ret, h) = efx_i2c_master_write d c (mem ! em_buf m) h
         in if ret \<noteq> 0 then Some (ret, mem, h)
            else let (ret, h) = efx_i2c_rx_ack d h in Some (ret, mem, h))
      else None)"

function efx_i2c_xfer_loop ::
  "u32 device \<Rightarrow> u32 clock \<Rightarrow> efx_i2c_msg \<Rightarrow> u8 list \<Rightarrow> int \<Rightarrow> u32 log
     \<Rightarrow> (int \<times> efx_i2c_msg \<times> u8 list \<times> u32 log) option" where
  "efx_i2c_xfer_loop d c m mem ret h =
     (if em_count m = 0 then Some (ret, m, mem, h)
      else case efx_i2c_xfer_byte d c m mem h of
             None \<Rightarrow> None
           | Some (ret, mem, h) \<Rightarrow>
               (if ret \<noteq> 0 then Some (ret, m, mem, h)
                else efx_i2c_xfer_loop d c
                       (m\<lparr>em_buf := em_buf m + 1, em_count := em_count m - 1\<rparr>) mem ret h))"
  by pat_completeness auto
termination
  by (relation "measure (\<lambda>(d, c, m, mem, ret, h). unat (em_count m))")
    (auto simp: unat_measure_dec)

declare efx_i2c_xfer_loop.simps [simp del]

text \<open>
  \<open>ret = 0\<close> after the loop is falling out of it; a non-zero value is the jump to
  \<open>i2c_terminate\<close>, because every jump there inside the loop and before it is taken on
  a non-zero \<open>ret\<close>.  The one jump with \<open>ret\<close> as it stands is the normal end of the
  last message, when the bus is still busy.
\<close>

definition efx_i2c_xfer_msg ::
  "u32 device \<Rightarrow> u32 clock \<Rightarrow> (i2c_msg \<Rightarrow> u8) \<Rightarrow> i2c_msg \<Rightarrow> int \<Rightarrow> bool \<Rightarrow> bool \<Rightarrow> int \<Rightarrow> u32 log
     \<Rightarrow> (int \<times> u8 list \<times> u32 log) option" where
  "efx_i2c_xfer_msg d c addr_byte msg num is_first is_last junk h =
     (let m = \<lparr>em_addr = addr_byte msg, em_count = mg_len msg, em_buf = 0, em_flags = mg_flags msg\<rparr>;
          mem = mg_buf msg;
          terminate = (\<lambda>ret mem h. Some (ret, mem, efx_i2c_terminate_xfer d h));
          (busy, h) = (if is_first then efx_i2c_master_busy d h else (False, h))
      in if is_first \<and> busy then Some (- EBUSY, mem, h)
         else let (ret, h) = (if is_first then efx_i2c_start d c (em_addr m) h else (junk, h))
              in if is_first \<and> ret \<noteq> 0 then terminate ret mem h
                 else let (ret, h) = (if num > 1 \<and> \<not> is_first
                                      then efx_i2c_start d c (em_addr m) h else (ret, h))
                      in if num > 1 \<and> \<not> is_first \<and> ret \<noteq> 0 then terminate ret mem h
                         else case efx_i2c_xfer_loop d c m mem ret h of
                                None \<Rightarrow> None
                              | Some (ret, m', mem, h) \<Rightarrow>
                                  (if em_count m' \<noteq> 0 then terminate ret mem h
                                   else if is_last then
                                     (let (busy, h) = efx_i2c_master_busy d h
                                      in if busy then terminate ret mem h
                                         else Some (- EIO, mem, h))
                                   else Some (0, mem, h)))"

text \<open>The loop of \<open>efx_i2c_xfer\<close> over the messages not yet sent; \<open>i\<close> is their first index.\<close>

fun efx_i2c_xfer_from ::
  "u32 device \<Rightarrow> u32 clock \<Rightarrow> (i2c_msg \<Rightarrow> u8) \<Rightarrow> int \<Rightarrow> i2c_msg list \<Rightarrow> int \<Rightarrow> int \<Rightarrow> int \<Rightarrow> u32 log
     \<Rightarrow> (int \<times> u8 list list \<times> u32 log) option" where
  "efx_i2c_xfer_from d c addr_byte i [] num junk ret h = Some (ret, [], h)"
| "efx_i2c_xfer_from d c addr_byte i (msg # msgs) num junk ret h =
     (case efx_i2c_xfer_msg d c addr_byte msg num (i = 0) (i = num - 1) junk h of
        None \<Rightarrow> None
      | Some (ret, mem, h) \<Rightarrow>
          (if ret \<noteq> 0 then Some (ret, mem # map mg_buf msgs, h)
           else case efx_i2c_xfer_from d c addr_byte (i + 1) msgs num junk ret h of
                  None \<Rightarrow> None
                | Some (ret, mems, h) \<Rightarrow> Some (ret, mem # mems, h)))"

definition efx_i2c_xfer ::
  "u32 device \<Rightarrow> u32 clock \<Rightarrow> (i2c_msg \<Rightarrow> u8) \<Rightarrow> i2c_msg list \<Rightarrow> int \<Rightarrow> u32 log
     \<Rightarrow> (int \<times> u8 list list \<times> u32 log) option" where
  "efx_i2c_xfer d c addr_byte msgs junk h =
     (case efx_i2c_xfer_from d c addr_byte 0 msgs (int (length msgs)) junk junk h of
        None \<Rightarrow> None
      | Some (ret, mems, h) \<Rightarrow>
          Some (if ret < 0 then ret else int (length msgs), mems, h))"

end
