(* ===== verification/EfxI2c_MasterProps.thy ===== *)
theory EfxI2c_MasterProps
  imports EfxI2c_Master
begin

text \<open>
  What the bus-master half of the I2C driver does, for every controller: the bytes
  it puts on the wire, the bytes it stores, when it returns, and how it leaves the bus.
\<close>

section \<open>Effect of the operations on the registers\<close>

lemma set_bits_written [mmio]:
  "written a (efx_i2c_set_bits d reg m h) = written a h @ (if a = reg then [d h reg OR m] else [])"
  by (simp add: efx_i2c_set_bits_def readl_def writel_def)

lemma set_bits_reads [mmio]:
  "reads_of a (efx_i2c_set_bits d reg m h) = reads_of a h @ (if a = reg then [d h reg] else [])"
  by (simp add: efx_i2c_set_bits_def readl_def writel_def)

lemma write_byte_written [mmio]:
  "written a (efx_i2c_write_byte b h) = written a h @ (if a = EFX_I2C_TX_DATA then [tx_data_word b] else [])"
  by (simp add: efx_i2c_write_byte_def writel_def)

lemma write_byte_reads [mmio]: "reads_of a (efx_i2c_write_byte b h) = reads_of a h"
  by (simp add: efx_i2c_write_byte_def writel_def)

lemma rx_ack_written [mmio]: "written a (snd (efx_i2c_rx_ack d h)) = written a h"
  by (simp add: efx_i2c_rx_ack_def readl_def)

lemma rx_ack_reads [mmio]:
  "a \<noteq> EFX_I2C_RX_ACK \<Longrightarrow> reads_of a (snd (efx_i2c_rx_ack d h)) = reads_of a h"
  by (simp add: efx_i2c_rx_ack_def readl_def)

lemma rx_ack_ret: "fst (efx_i2c_rx_ack d h) \<in> {0, - EIO}"
  by (simp add: efx_i2c_rx_ack_def readl_def)

lemma tx_ack_wait_written [mmio]:
  "a \<noteq> EFX_I2C_TX_ACK \<Longrightarrow> written a (snd (efx_i2c_tx_ack_wait d c f h)) = written a h"
  by (simp add: efx_i2c_tx_ack_wait_def mmio)

lemma tx_ack_wait_reads [mmio]:
  "a \<noteq> EFX_I2C_TX_ACK \<Longrightarrow> reads_of a (snd (efx_i2c_tx_ack_wait d c f h)) = reads_of a h"
  by (simp add: efx_i2c_tx_ack_wait_def mmio)

lemma tx_ack_wait_ret: "fst (efx_i2c_tx_ack_wait d c f h) \<in> {0, - ETIMEDOUT}"
  using read_poll_timeout_ret by (simp add: efx_i2c_tx_ack_wait_def)

lemma master_write_eq:
  "efx_i2c_master_write d c b h = efx_i2c_tx_ack_wait d c NACK (efx_i2c_write_byte b h)"
  by (simp add: efx_i2c_master_write_def split_beta prod_eq_iff Let_def)

lemma start_ret: "fst (efx_i2c_start d c b h) \<in> {0, - ETIMEDOUT, - EIO}"
  using tx_ack_wait_ret [of d c NACK] rx_ack_ret [of d]
  by (auto simp: efx_i2c_start_def master_write_eq split_beta Let_def)

lemma start_written [mmio]:
  "written EFX_I2C_TX_DATA (snd (efx_i2c_start d c b h)) = written EFX_I2C_TX_DATA h @ [tx_data_word b]"
  by (simp add: efx_i2c_start_def master_write_eq efx_i2c_start_bit_def split_beta Let_def mmio regs)

lemma start_reads [mmio]:
  "reads_of EFX_I2C_RX_DATA (snd (efx_i2c_start d c b h)) = reads_of EFX_I2C_RX_DATA h"
  by (simp add: efx_i2c_start_def master_write_eq efx_i2c_start_bit_def split_beta Let_def mmio regs)

lemma master_busy_written [mmio]: "written a (snd (efx_i2c_master_busy d h)) = written a h"
  by (simp add: efx_i2c_master_busy_def readl_def)

lemma master_busy_reads [mmio]:
  "a \<noteq> EFX_I2C_MASTER_STATUS \<Longrightarrow> reads_of a (snd (efx_i2c_master_busy d h)) = reads_of a h"
  by (simp add: efx_i2c_master_busy_def readl_def)

lemma terminate_written [mmio]:
  "a \<noteq> EFX_I2C_MASTER_STATUS \<Longrightarrow> written a (efx_i2c_terminate_xfer d h) = written a h"
  by (simp add: efx_i2c_terminate_xfer_def mmio)

lemma terminate_reads [mmio]:
  "a \<noteq> EFX_I2C_MASTER_STATUS \<Longrightarrow> reads_of a (efx_i2c_terminate_xfer d h) = reads_of a h"
  by (simp add: efx_i2c_terminate_xfer_def mmio)

section \<open>One byte, and the loop over the bytes of a message\<close>

definition is_read :: "u16 \<Rightarrow> bool" where
  "is_read flags \<longleftrightarrow> flags AND I2C_M_RD \<noteq> 0"

text \<open>The byte the master puts on the wire for position \<open>i\<close> of the buffer: a read clocks out 0xFF.\<close>

definition out_byte :: "u16 \<Rightarrow> u8 list \<Rightarrow> nat \<Rightarrow> u8" where
  "out_byte flags mem i = (if is_read flags then 0xFF else mem ! i)"

definition rx_bytes :: "u32 list \<Rightarrow> u8 list" where
  "rx_bytes vs = map (\<lambda>v. ucast (v AND 0xff)) vs"

lemma xfer_byte_cases:
  assumes "em_buf m < length mem"
  obtains r mem' h' where "efx_i2c_xfer_byte d c m mem h = Some (r, mem', h')"
    and "r \<in> {0, - ETIMEDOUT, - EIO}"
    and "length mem' = length mem"
    and "written EFX_I2C_TX_DATA h' =
           written EFX_I2C_TX_DATA h @ [tx_data_word (out_byte (em_flags m) mem (em_buf m))]"
    and "\<not> is_read (em_flags m) \<Longrightarrow> mem' = mem \<and> reads_of EFX_I2C_RX_DATA h' = reads_of EFX_I2C_RX_DATA h"
    and "r = 0 \<Longrightarrow> is_read (em_flags m) \<Longrightarrow> \<exists>v. mem' = mem[em_buf m := ucast (v AND 0xff)]
           \<and> reads_of EFX_I2C_RX_DATA h' = reads_of EFX_I2C_RX_DATA h @ [v]"
proof (cases "is_read (em_flags m)")
  case True
  let ?h1 = "efx_i2c_write_byte (ucast EFX_I2C_READ_MASK) h"
  let ?w = "efx_i2c_tx_ack_wait d c (if em_count m = 1 then NACK else ACK) ?h1"
  have "efx_i2c_xfer_byte d c m mem h =
     (if fst ?w < 0 then Some (fst ?w, mem, snd ?w)
      else Some (0, mem[em_buf m := ucast (d (snd ?w) EFX_I2C_RX_DATA AND 0xff)],
                 snd ?w @ [Rd EFX_I2C_RX_DATA (d (snd ?w) EFX_I2C_RX_DATA)]))"
    using True assms
    by (auto simp: efx_i2c_xfer_byte_def is_read_def efx_i2c_master_read_def split_beta Let_def readl_def)
  moreover have "written EFX_I2C_TX_DATA (snd ?w) = written EFX_I2C_TX_DATA h @ [tx_data_word 0xFF]"
    by (simp add: mmio regs)
  moreover have "reads_of EFX_I2C_RX_DATA (snd ?w) = reads_of EFX_I2C_RX_DATA h"
    by (simp add: mmio regs)
  moreover have "fst ?w \<in> {0, - ETIMEDOUT}" by (rule tx_ack_wait_ret)
  ultimately show ?thesis
    using that True by (cases "fst ?w < 0") (auto simp: out_byte_def regs)
next
  case False
  let ?w = "efx_i2c_master_write d c (mem ! em_buf m) h"
  have w: "written EFX_I2C_TX_DATA (snd ?w) = written EFX_I2C_TX_DATA h @ [tx_data_word (mem ! em_buf m)]"
    "reads_of EFX_I2C_RX_DATA (snd ?w) = reads_of EFX_I2C_RX_DATA h"
    by (simp_all add: master_write_eq mmio regs)
  have "reads_of EFX_I2C_RX_DATA (snd (efx_i2c_rx_ack d (snd ?w))) = reads_of EFX_I2C_RX_DATA h"
    using w by (simp add: mmio regs)
  moreover have "fst ?w \<in> {0, - ETIMEDOUT}" using tx_ack_wait_ret by (simp add: master_write_eq)
  ultimately show ?thesis
    using that assms w False rx_ack_ret [of d "snd ?w"]
    by (cases "fst ?w = 0") (auto simp: efx_i2c_xfer_byte_def is_read_def out_byte_def split_beta Let_def mmio)
qed

lemma map_upt_front:
  "map f [a ..< Suc (a + n)] = f a # map f [Suc a ..< Suc (a + n)]"
  by (simp add: upt_conv_Cons del: upt_Suc)

text \<open>
  What the loop leaves behind: \<open>n\<close> bytes were put on the wire; the loop was left early
  with an error exactly when the count is not down to zero; a completed read has
  filled the buffer with the \<open>n\<close> words read from the receive register.
\<close>

definition loop_post ::
  "efx_i2c_msg \<Rightarrow> u8 list \<Rightarrow> int \<Rightarrow> u32 log \<Rightarrow> int \<Rightarrow> efx_i2c_msg \<Rightarrow> u8 list \<Rightarrow> u32 log \<Rightarrow> nat \<Rightarrow> u32 list \<Rightarrow> bool" where
  "loop_post m mem ret h ret' m' mem' h' n vs \<longleftrightarrow>
     length mem' = length mem \<and> n \<le> unat (em_count m) \<and>
     written EFX_I2C_TX_DATA h' = written EFX_I2C_TX_DATA h @
       map (\<lambda>i. tx_data_word (out_byte (em_flags m) mem i)) [em_buf m ..< em_buf m + n] \<and>
     (\<not> is_read (em_flags m) \<longrightarrow> mem' = mem \<and> reads_of EFX_I2C_RX_DATA h' = reads_of EFX_I2C_RX_DATA h) \<and>
     (em_count m' \<noteq> 0 \<longrightarrow> ret' \<in> {- ETIMEDOUT, - EIO}) \<and>
     (em_count m' = 0 \<longrightarrow>
        ret' = (if em_count m = 0 then ret else 0) \<and> n = unat (em_count m) \<and>
        (is_read (em_flags m) \<longrightarrow> length vs = n \<and>
           reads_of EFX_I2C_RX_DATA h' = reads_of EFX_I2C_RX_DATA h @ vs \<and>
           mem' = take (em_buf m) mem @ rx_bytes vs @ drop (em_buf m + n) mem))"

lemma out_byte_cong:
  "is_read f \<or> mem' = mem \<Longrightarrow> out_byte f mem' = out_byte f mem"
  by (auto simp: out_byte_def fun_eq_iff)

lemma xfer_loop_total:
  "em_buf m + unat (em_count m) \<le> length mem \<Longrightarrow>
     \<exists>ret' m' mem' h' n vs. efx_i2c_xfer_loop d c m mem ret h = Some (ret', m', mem', h')
       \<and> loop_post m mem ret h ret' m' mem' h' n vs"
proof (induction d c m mem ret h rule: efx_i2c_xfer_loop.induct)
  case (1 d c m mem ret h)
  show ?case
  proof (cases "em_count m = 0")
    case True
    then have "efx_i2c_xfer_loop d c m mem ret h = Some (ret, m, mem, h)"
      by (simp add: efx_i2c_xfer_loop.simps [of d c m mem ret h])
    moreover have "loop_post m mem ret h ret m mem h 0 []"
      using True by (simp add: loop_post_def rx_bytes_def)
    ultimately show ?thesis by blast
  next
    case False
    then have cnt: "unat (em_count m) = Suc (unat (em_count m - 1))" by (rule unat_Suc_pred)
    with "1.prems" have len: "em_buf m < length mem" by simp
    let ?m1 = "m\<lparr>em_buf := em_buf m + 1, em_count := em_count m - 1\<rparr>"
    obtain r mem1 h1 where byte: "efx_i2c_xfer_byte d c m mem h = Some (r, mem1, h1)"
      and r: "r \<in> {0, - ETIMEDOUT, - EIO}" and l1: "length mem1 = length mem"
      and w: "written EFX_I2C_TX_DATA h1 =
           written EFX_I2C_TX_DATA h @ [tx_data_word (out_byte (em_flags m) mem (em_buf m))]"
      and nr: "\<not> is_read (em_flags m) \<Longrightarrow> mem1 = mem \<and> reads_of EFX_I2C_RX_DATA h1 = reads_of EFX_I2C_RX_DATA h"
      and rd: "r = 0 \<Longrightarrow> is_read (em_flags m) \<Longrightarrow> \<exists>v. mem1 = mem[em_buf m := ucast (v AND 0xff)]
           \<and> reads_of EFX_I2C_RX_DATA h1 = reads_of EFX_I2C_RX_DATA h @ [v]"
      using xfer_byte_cases [OF len] by metis
    show ?thesis
    proof (cases "r = 0")
      case False
      have "efx_i2c_xfer_loop d c m mem ret h = Some (r, m, mem1, h1)"
        using False \<open>em_count m \<noteq> 0\<close> byte by (simp add: efx_i2c_xfer_loop.simps [of d c m mem ret h])
      moreover have "loop_post m mem ret h r m mem1 h1 1 []"
        using False \<open>em_count m \<noteq> 0\<close> r l1 w nr cnt by (auto simp: loop_post_def)
      ultimately show ?thesis by blast
    next
      case True
      have step: "efx_i2c_xfer_loop d c m mem ret h = efx_i2c_xfer_loop d c ?m1 mem1 0 h1"
        using True \<open>em_count m \<noteq> 0\<close> byte by (simp add: efx_i2c_xfer_loop.simps [of d c m mem ret h])
      have "em_buf ?m1 + unat (em_count ?m1) \<le> length mem1" using "1.prems" cnt l1 by simp
      with "1.IH" [OF \<open>em_count m \<noteq> 0\<close> byte _ _ _ ] True
      obtain ret' m' mem' h' n vs where
        run: "efx_i2c_xfer_loop d c ?m1 mem1 0 h1 = Some (ret', m', mem', h')"
        and post: "loop_post ?m1 mem1 0 h1 ret' m' mem' h' n vs"
        by fastforce
      have ob: "out_byte (em_flags m) mem1 = out_byte (em_flags m) mem"
        using nr by (intro out_byte_cong) blast
      obtain v where v: "is_read (em_flags m) \<Longrightarrow> mem1 = mem[em_buf m := ucast (v AND 0xff)]
           \<and> reads_of EFX_I2C_RX_DATA h1 = reads_of EFX_I2C_RX_DATA h @ [v]"
        using rd True by blast
      have "loop_post m mem ret h ret' m' mem' h' (Suc n) (v # vs)"
        using post False cnt w nr l1 len v unfolding loop_post_def ob
        by (auto simp: map_upt_front ob rx_bytes_def take_update_snoc simp del: upt_Suc)
      with run step show ?thesis by metis
    qed
  qed
qed

section \<open>One message\<close>

definition msg_bytes :: "(i2c_msg \<Rightarrow> u8) \<Rightarrow> i2c_msg \<Rightarrow> u8 list" where
  "msg_bytes addr_byte msg = addr_byte msg #
     (if is_read (mg_flags msg) then replicate (unat (mg_len msg)) 0xFF
      else take (unat (mg_len msg)) (mg_buf msg))"

definition well_formed_msg :: "i2c_msg \<Rightarrow> bool" where
  "well_formed_msg msg \<longleftrightarrow> unat (mg_len msg) \<le> length (mg_buf msg)"

definition stop_sent :: "u32 log \<Rightarrow> bool" where
  "stop_sent h \<longleftrightarrow> (\<exists>k v. h = k @ [Wr EFX_I2C_MASTER_STATUS (v OR EFX_I2C_MASTER_STATUS_STOP)])"

definition seen_busy :: "bool \<Rightarrow> u32 log \<Rightarrow> bool" where
  "seen_busy b h \<longleftrightarrow> (\<exists>k v. h = k @ [Rd EFX_I2C_MASTER_STATUS v] \<and>
     b = (v AND EFX_I2C_MASTER_STATUS_BUSY \<noteq> 0))"

lemma terminate_stop_sent [simp]: "stop_sent (efx_i2c_terminate_xfer d h)"
  by (auto simp: stop_sent_def efx_i2c_terminate_xfer_def efx_i2c_set_bits_def readl_def writel_def)

lemma master_busy_seen [simp]:
  "seen_busy (fst (efx_i2c_master_busy d h)) (snd (efx_i2c_master_busy d h))"
  by (auto simp: seen_busy_def efx_i2c_master_busy_def readl_def)

definition msg_post ::
  "(i2c_msg \<Rightarrow> u8) \<Rightarrow> i2c_msg \<Rightarrow> bool \<Rightarrow> u32 log \<Rightarrow> int \<Rightarrow> u8 list \<Rightarrow> u32 log \<Rightarrow> nat \<Rightarrow> u32 list \<Rightarrow> bool" where
  "msg_post addr_byte msg is_last h ret mem h' n vs \<longleftrightarrow>
     length mem = length (mg_buf msg) \<and>
     written EFX_I2C_TX_DATA h' =
       written EFX_I2C_TX_DATA h @ map tx_data_word (take n (msg_bytes addr_byte msg)) \<and>
     (\<not> is_read (mg_flags msg) \<longrightarrow> mem = mg_buf msg) \<and>
     (ret = 0 \<longrightarrow> n = length (msg_bytes addr_byte msg) \<and>
        reads_of EFX_I2C_RX_DATA h' = reads_of EFX_I2C_RX_DATA h @ vs \<and>
        (if is_read (mg_flags msg)
         then length vs = unat (mg_len msg) \<and> mem = rx_bytes vs @ drop (unat (mg_len msg)) (mg_buf msg)
         else vs = []) \<and>
        (is_last \<longrightarrow> stop_sent h')) \<and>
     (ret \<noteq> 0 \<longrightarrow>
        ret = - EBUSY \<and> n = 0 \<and> (\<forall>a. written a h' = written a h) \<and> seen_busy True h' \<or>
        ret = - EIO \<and> is_last \<and> n = length (msg_bytes addr_byte msg) \<and> seen_busy False h' \<or>
        (ret = - ETIMEDOUT \<or> ret = - EIO) \<and> stop_sent h')"

lemma take_replicate_upt:
  "n \<le> k \<Longrightarrow> map (\<lambda>i. x) [0..<n] = take n (replicate k x)"
  by (simp add: map_replicate_trivial map_replicate_const)

lemma out_bytes_take:
  "n \<le> unat (mg_len msg) \<Longrightarrow> well_formed_msg msg \<Longrightarrow>
     map (out_byte (mg_flags msg) (mg_buf msg)) [0..<n] = take n (tl (msg_bytes addr_byte msg))"
  by (auto simp: out_byte_def msg_bytes_def well_formed_msg_def fun_eq_iff map_replicate_const
      intro!: nth_equalityI)

lemma msg_bytes_length: "well_formed_msg msg \<Longrightarrow> length (msg_bytes addr_byte msg) = Suc (unat (mg_len msg))"
  by (simp add: msg_bytes_def well_formed_msg_def)

text \<open>The part of \<open>efx_i2c_xfer_msg\<close> behind a successful start.\<close>

definition after_start ::
  "u32 device \<Rightarrow> u32 clock \<Rightarrow> efx_i2c_msg \<Rightarrow> u8 list \<Rightarrow> bool \<Rightarrow> int \<Rightarrow> u32 log
    \<Rightarrow> (int \<times> u8 list \<times> u32 log) option" where
  "after_start d c m mem is_last ret h =
     (case efx_i2c_xfer_loop d c m mem ret h of
        None \<Rightarrow> None
      | Some (ret, m', mem, h) \<Rightarrow>
          (if em_count m' \<noteq> 0 then Some (ret, mem, efx_i2c_terminate_xfer d h)
           else if is_last then
             (let (busy, h) = efx_i2c_master_busy d h
              in if busy then Some (ret, mem, efx_i2c_terminate_xfer d h)
                 else Some (- EIO, mem, h))
           else Some (0, mem, h)))"

lemma after_start_post:
  assumes wf: "well_formed_msg msg" 
    and m: "m = \<lparr>em_addr = addr_byte msg, em_count = mg_len msg, em_buf = 0, em_flags = mg_flags msg\<rparr>"
    and tx: "written EFX_I2C_TX_DATA h = written EFX_I2C_TX_DATA h0 @ [tx_data_word (addr_byte msg)]"
    and rx: "reads_of EFX_I2C_RX_DATA h = reads_of EFX_I2C_RX_DATA h0"
  shows "\<exists>ret mem h' n vs. after_start d c m (mg_buf msg) is_last 0 h = Some (ret, mem, h')
           \<and> msg_post addr_byte msg is_last h0 ret mem h' n vs"
proof -
  have "em_buf m + unat (em_count m) \<le> length (mg_buf msg)"
    using wf m by (simp add: well_formed_msg_def)
  from xfer_loop_total [OF this, of d c 0 h] obtain r m' mem h' n vs where
    run: "efx_i2c_xfer_loop d c m (mg_buf msg) 0 h = Some (r, m', mem, h')"
    and post: "loop_post m (mg_buf msg) 0 h r m' mem h' n vs"
    by blast
  have n: "n \<le> unat (mg_len msg)" and l: "length mem = length (mg_buf msg)"
    and nr: "\<not> is_read (mg_flags msg) \<Longrightarrow> mem = mg_buf msg \<and> reads_of EFX_I2C_RX_DATA h' = reads_of EFX_I2C_RX_DATA h"
    and bad: "em_count m' \<noteq> 0 \<Longrightarrow> r = - ETIMEDOUT \<or> r = - EIO"
    and ok: "em_count m' = 0 \<Longrightarrow> r = 0 \<and> n = unat (mg_len msg)"
    and rd: "em_count m' = 0 \<Longrightarrow> is_read (mg_flags msg) \<Longrightarrow> length vs = n \<and>
           reads_of EFX_I2C_RX_DATA h' = reads_of EFX_I2C_RX_DATA h @ vs \<and>
           mem = rx_bytes vs @ drop n (mg_buf msg)"
    using post m by (auto simp: loop_post_def split: if_splits)
  let ?vs = "if is_read (mg_flags msg) then vs else []"
  have w: "written EFX_I2C_TX_DATA h' = written EFX_I2C_TX_DATA h0 @
      map tx_data_word (take (Suc n) (msg_bytes addr_byte msg))"
  proof -
    have "written EFX_I2C_TX_DATA h' = written EFX_I2C_TX_DATA h @
      map tx_data_word (map (out_byte (mg_flags msg) (mg_buf msg)) [0..<n])"
      using post m by (simp add: loop_post_def)
    then show ?thesis unfolding out_bytes_take [OF n wf, of addr_byte] tx by (simp add: msg_bytes_def)
  qed
  consider (bad) "em_count m' \<noteq> 0" | (more) "em_count m' = 0" "\<not> is_last"
    | (busy) "em_count m' = 0" "is_last" "fst (efx_i2c_master_busy d h')"
    | (idle) "em_count m' = 0" "is_last" "\<not> fst (efx_i2c_master_busy d h')" by blast
  then show ?thesis
  proof cases
    case bad
    have "after_start d c m (mg_buf msg) is_last 0 h = Some (r, mem, efx_i2c_terminate_xfer d h')"
      using run bad by (simp add: after_start_def)
    moreover have "msg_post addr_byte msg is_last h0 r mem (efx_i2c_terminate_xfer d h') (Suc n) ?vs"
      using w l nr \<open>em_count m' \<noteq> 0 \<Longrightarrow> r = - ETIMEDOUT \<or> r = - EIO\<close> [OF bad]
      by (auto simp: msg_post_def mmio regs)
    ultimately show ?thesis by blast
  next
    case more
    have "after_start d c m (mg_buf msg) is_last 0 h = Some (0, mem, h')"
      using run more by (simp add: after_start_def)
    moreover have "msg_post addr_byte msg is_last h0 0 mem h' (Suc n) ?vs"
      using w l nr ok rd rx more wf by (auto simp: msg_post_def msg_bytes_length)
    ultimately show ?thesis by blast
  next
    case busy
    have "after_start d c m (mg_buf msg) is_last 0 h =
       Some (0, mem, efx_i2c_terminate_xfer d (snd (efx_i2c_master_busy d h')))"
      using run busy ok by (simp add: after_start_def split_beta)
    moreover have "msg_post addr_byte msg is_last h0 0 mem
       (efx_i2c_terminate_xfer d (snd (efx_i2c_master_busy d h'))) (Suc n) ?vs"
      using w l nr ok rd rx busy wf by (auto simp: msg_post_def msg_bytes_length mmio regs)
    ultimately show ?thesis by blast
  next
    case idle
    have "after_start d c m (mg_buf msg) is_last 0 h =
       Some (- EIO, mem, snd (efx_i2c_master_busy d h'))"
      using run idle ok by (simp add: after_start_def split_beta)
    moreover have "msg_post addr_byte msg is_last h0 (- EIO) mem
       (snd (efx_i2c_master_busy d h')) (Suc n) ?vs"
      using w l nr ok rx idle wf master_busy_seen [of d h']
      by (auto simp: msg_post_def msg_bytes_length mmio)
    ultimately show ?thesis by blast
  qed
qed

lemma data_not_status [simp]:
  "EFX_I2C_TX_DATA \<noteq> EFX_I2C_MASTER_STATUS" "EFX_I2C_MASTER_STATUS \<noteq> EFX_I2C_TX_DATA"
  "EFX_I2C_RX_DATA \<noteq> EFX_I2C_MASTER_STATUS" "EFX_I2C_MASTER_STATUS \<noteq> EFX_I2C_RX_DATA"
  by (simp_all add: regs)

lemma xfer_msg_start:
  assumes "\<not> is_first \<Longrightarrow> num > 1"
  shows "efx_i2c_xfer_msg d c addr_byte msg num is_first is_last junk h =
    (let m = \<lparr>em_addr = addr_byte msg, em_count = mg_len msg, em_buf = 0, em_flags = mg_flags msg\<rparr>;
         b = efx_i2c_master_busy d h;
         h0 = (if is_first then snd b else h);
         s = efx_i2c_start d c (addr_byte msg) h0
     in if is_first \<and> fst b then Some (- EBUSY, mg_buf msg, snd b)
        else if fst s \<noteq> 0 then Some (fst s, mg_buf msg, efx_i2c_terminate_xfer d (snd s))
        else after_start d c m (mg_buf msg) is_last 0 (snd s))"
  using assms
  by (cases is_first) (simp_all add: efx_i2c_xfer_msg_def after_start_def split_beta Let_def
      cong: option.case_cong)

lemma xfer_msg_post:
  assumes wf: "well_formed_msg msg" and "\<not> is_first \<Longrightarrow> num > 1"
  shows "\<exists>ret mem h' n vs. efx_i2c_xfer_msg d c addr_byte msg num is_first is_last junk h = Some (ret, mem, h')
           \<and> msg_post addr_byte msg is_last h ret mem h' n vs"
proof -
  let ?m = "\<lparr>em_addr = addr_byte msg, em_count = mg_len msg, em_buf = 0, em_flags = mg_flags msg\<rparr>"
  let ?b = "efx_i2c_master_busy d h"
  define h0 where "h0 = (if is_first then snd ?b else h)"
  let ?s = "efx_i2c_start d c (addr_byte msg) h0"
  have h0: "written a h0 = written a h" 
    "reads_of EFX_I2C_RX_DATA h0 = reads_of EFX_I2C_RX_DATA h" for a
    by (simp_all add: h0_def mmio regs)
  have eq: "efx_i2c_xfer_msg d c addr_byte msg num is_first is_last junk h =
     (if is_first \<and> fst ?b then Some (- EBUSY, mg_buf msg, snd ?b)
      else if fst ?s \<noteq> 0 then Some (fst ?s, mg_buf msg, efx_i2c_terminate_xfer d (snd ?s))
      else after_start d c ?m (mg_buf msg) is_last 0 (snd ?s))"
    by (rule trans [OF xfer_msg_start [OF assms(2)]]) (simp_all add: h0_def Let_def)
  consider (busy) "is_first" "fst ?b" | (fail) "\<not> (is_first \<and> fst ?b)" "fst ?s \<noteq> 0"
    | (ok) "\<not> (is_first \<and> fst ?b)" "fst ?s = 0" by blast
  then show ?thesis
  proof cases
    case busy
    have "msg_post addr_byte msg is_last h (- EBUSY) (mg_buf msg) (snd ?b) 0 []"
      using busy master_busy_seen [of d h] by (auto simp: msg_post_def mmio)
    with eq busy show ?thesis by auto
  next
    case fail
    have "msg_post addr_byte msg is_last h (fst ?s) (mg_buf msg) (efx_i2c_terminate_xfer d (snd ?s)) 1 []"
      using fail start_ret [of d c "addr_byte msg" h0]
      by (auto simp: msg_post_def msg_bytes_def mmio h0)
    with eq fail show ?thesis by auto
  next
    case ok
    have "\<exists>ret mem h' n vs. after_start d c ?m (mg_buf msg) is_last 0 (snd ?s) = Some (ret, mem, h')
           \<and> msg_post addr_byte msg is_last h ret mem h' n vs"
      by (rule after_start_post [OF wf refl]) (simp_all add: start_written start_reads h0)
    with ok eq show ?thesis by auto
  qed
qed

section \<open>A combined transfer\<close>

definition xfer_bytes :: "(i2c_msg \<Rightarrow> u8) \<Rightarrow> i2c_msg list \<Rightarrow> u8 list" where
  "xfer_bytes addr_byte msgs = concat (map (msg_bytes addr_byte) msgs)"

text \<open>The buffers after a transfer whose receive words were \<open>vs\<close>.\<close>

fun filled :: "i2c_msg list \<Rightarrow> u32 list \<Rightarrow> u8 list list" where
  "filled [] vs = []"
| "filled (msg # msgs) vs =
     (let len = unat (mg_len msg) in
      if is_read (mg_flags msg)
      then (rx_bytes (take len vs) @ drop len (mg_buf msg)) # filled msgs (drop len vs)
      else mg_buf msg # filled msgs vs)"

fun rx_total :: "i2c_msg list \<Rightarrow> nat" where
  "rx_total [] = 0"
| "rx_total (msg # msgs) = (if is_read (mg_flags msg) then unat (mg_len msg) else 0) + rx_total msgs"

definition xfer_post ::
  "(i2c_msg \<Rightarrow> u8) \<Rightarrow> i2c_msg list \<Rightarrow> u32 log \<Rightarrow> int \<Rightarrow> u8 list list \<Rightarrow> u32 log \<Rightarrow> nat \<Rightarrow> u32 list \<Rightarrow> bool" where
  "xfer_post addr_byte msgs h ret mems h' n vs \<longleftrightarrow>
     map length mems = map (length \<circ> mg_buf) msgs \<and>
     written EFX_I2C_TX_DATA h' =
       written EFX_I2C_TX_DATA h @ map tx_data_word (take n (xfer_bytes addr_byte msgs)) \<and>
     (\<forall>i < length msgs. \<not> is_read (mg_flags (msgs ! i)) \<longrightarrow> mems ! i = mg_buf (msgs ! i)) \<and>
     (ret = 0 \<longrightarrow> n = length (xfer_bytes addr_byte msgs) \<and> stop_sent h' \<and>
        reads_of EFX_I2C_RX_DATA h' = reads_of EFX_I2C_RX_DATA h @ vs \<and>
        length vs = rx_total msgs \<and> mems = filled msgs vs) \<and>
     (ret \<noteq> 0 \<longrightarrow>
        ret = - EBUSY \<and> seen_busy True h' \<or>
        ret = - EIO \<and> n = length (xfer_bytes addr_byte msgs) \<and> seen_busy False h' \<or>
        (ret = - ETIMEDOUT \<or> ret = - EIO) \<and> stop_sent h')"

lemma xfer_from_post:
  assumes "msgs \<noteq> []" and "\<forall>m \<in> set msgs. well_formed_msg m" and "i \<ge> 0"
    and "i + int (length msgs) = num"
  shows "\<exists>ret' mems h' n vs. efx_i2c_xfer_from d c addr_byte i msgs num junk ret h = Some (ret', mems, h')
           \<and> xfer_post addr_byte msgs h ret' mems h' n vs"
  using assms
proof (induction msgs arbitrary: i ret h)
  case Nil
  then show ?case by simp
next
  case (Cons msg msgs)
  have wf: "well_formed_msg msg" using Cons.prems by simp
  have first: "\<not> i = 0 \<Longrightarrow> num > 1" using Cons.prems by simp
  have "\<exists>r mem h1 n vs.
      efx_i2c_xfer_msg d c addr_byte msg num (i = 0) (i = num - 1) junk h = Some (r, mem, h1)
      \<and> msg_post addr_byte msg (i = num - 1) h r mem h1 n vs"
    using first by (rule xfer_msg_post [OF wf])
  then obtain r mem h1 n vs where
    run: "efx_i2c_xfer_msg d c addr_byte msg num (i = 0) (i = num - 1) junk h = Some (r, mem, h1)"
    and post: "msg_post addr_byte msg (i = num - 1) h r mem h1 n vs" by blast
  have last: "i = num - 1 \<longleftrightarrow> msgs = []" using Cons.prems by auto
  have len: "n \<le> length (msg_bytes addr_byte msg) \<or> 
     take n (msg_bytes addr_byte msg) = take (length (msg_bytes addr_byte msg)) (msg_bytes addr_byte msg)" by auto
  let ?n = "min n (length (msg_bytes addr_byte msg))"
  show ?case
  proof (cases "r = 0")
    case False
    have "xfer_post addr_byte (msg # msgs) h r (mem # map mg_buf msgs) h1 ?n vs"
      using False post last
      by (auto simp: xfer_post_def msg_post_def xfer_bytes_def nth_Cons min_def split: nat.splits)
    with run False show ?thesis by auto
  next
    case True
    show ?thesis
    proof (cases "msgs = []")
      case True
      have "xfer_post addr_byte [msg] h 0 [mem] h1 n vs"
        using \<open>r = 0\<close> post last True
        by (auto simp: xfer_post_def msg_post_def xfer_bytes_def Let_def split: if_splits)
      with run \<open>r = 0\<close> True show ?thesis by auto
    next
      case False
      obtain r2 mems h2 n2 ws where
        run2: "efx_i2c_xfer_from d c addr_byte (i + 1) msgs num junk r h1 = Some (r2, mems, h2)"
        and post2: "xfer_post addr_byte msgs h1 r2 mems h2 n2 ws"
        using Cons.IH [OF False, of "i + 1" r h1] Cons.prems by auto
      have "xfer_post addr_byte (msg # msgs) h r2 (mem # mems) h2 (n + n2) (vs @ ws)"
        using True post post2
        by (auto simp: xfer_post_def msg_post_def xfer_bytes_def Let_def nth_Cons split: nat.splits if_splits)
      with run run2 True show ?thesis by auto
    qed
  qed
qed

section \<open>Properties\<close>

lemma xfer_post_of:
  assumes "msgs \<noteq> []" and "\<forall>m \<in> set msgs. well_formed_msg m"
  shows "\<exists>ret mems h' n vs. 
    efx_i2c_xfer d c addr_byte msgs junk h =
      Some (if ret < 0 then ret else int (length msgs), mems, h')
    \<and> (ret < 0 \<or> ret = 0) \<and> xfer_post addr_byte msgs h ret mems h' n vs"
proof -
  obtain ret mems h' n vs where
    run: "efx_i2c_xfer_from d c addr_byte 0 msgs (int (length msgs)) junk junk h = Some (ret, mems, h')"
    and post: "xfer_post addr_byte msgs h ret mems h' n vs"
    using xfer_from_post [OF assms, of 0 "int (length msgs)" d c addr_byte junk junk h] by auto
  have "ret < 0 \<or> ret = 0" using post by (auto simp: xfer_post_def)
  with run post show ?thesis by (auto simp: efx_i2c_xfer_def)
qed


text \<open>
  C4: A transfer that reports success has sent every address and data byte of every
  message in order (0xFF for each byte read), has requested STOP as its last register
  access, and has filled each read buffer with the low bytes of the words read from
  the receive register, in order, leaving the rest of the buffers as they were.
\<close>

theorem efx_i2c_xfer_success:
  assumes "msgs \<noteq> []" and "\<forall>m \<in> set msgs. well_formed_msg m"
    and "efx_i2c_xfer d c addr_byte msgs junk h = Some (ret, mems, h')" and "ret \<ge> 0"
  shows "ret = int (length msgs) \<and> stop_sent h' \<and>
    written EFX_I2C_TX_DATA h' =
      written EFX_I2C_TX_DATA h @ map tx_data_word (xfer_bytes addr_byte msgs) \<and>
    (\<exists>vs. reads_of EFX_I2C_RX_DATA h' = reads_of EFX_I2C_RX_DATA h @ vs \<and>
       length vs = rx_total msgs \<and> mems = filled msgs vs)"
  using xfer_post_of [OF assms(1,2), of d c addr_byte junk h] assms(3,4)
  unfolding xfer_post_def by (auto split: if_splits)

definition demo_controller :: "u32 device" where
  "demo_controller h a =
     (if a = EFX_I2C_MASTER_STATUS then (if h = [] then 0 else EFX_I2C_MASTER_STATUS_BUSY)
      else if a = EFX_I2C_RX_DATA then 0x15A else 0)"

definition demo_msgs :: "i2c_msg list" where
  "demo_msgs =
    [\<lparr>mg_addr = 0x50, mg_flags = 0, mg_len = 2, mg_buf = [0x12, 0x34]\<rparr>,
     \<lparr>mg_addr = 0x50, mg_flags = 1, mg_len = 2, mg_buf = [0, 0, 7]\<rparr>]"

definition demo_addr :: "i2c_msg \<Rightarrow> u8" where
  "demo_addr m = ucast (push_bit 1 (mg_addr m) OR (mg_flags m AND I2C_M_RD))"

lemma demo_wf: "demo_msgs \<noteq> []" "\<forall>m \<in> set demo_msgs. well_formed_msg m"
  by (simp_all add: demo_msgs_def well_formed_msg_def)

lemma demo_xfer_ret:
  "Option.bind (efx_i2c_xfer demo_controller (\<lambda>_. 3) demo_addr demo_msgs 0 []) (\<lambda>(r, ms, h). Some (r, ms))
     = Some (2, [[0x12, 0x34], [0x5A, 0x5A, 7]])"
  by code_simp

lemma demo_xfer:
  "\<exists>h'. efx_i2c_xfer demo_controller (\<lambda>_. 3) demo_addr demo_msgs 0 [] =
     Some (2, [[0x12, 0x34], [0x5A, 0x5A, 7]], h')"
  using demo_xfer_ret by (auto simp: bind_Some_iff)


theorem efx_i2c_xfer_success_witness:
  "\<exists>h'. efx_i2c_xfer demo_controller (\<lambda>_. 3) demo_addr demo_msgs 0 [] =
       Some (2, [[0x12, 0x34], [0x5A, 0x5A, 7]], h')
     \<and> written EFX_I2C_TX_DATA h' = map tx_data_word [0xA0, 0x12, 0x34, 0xA1, 0xFF, 0xFF]
     \<and> stop_sent h'"
proof -
  obtain h' where run: "efx_i2c_xfer demo_controller (\<lambda>_. 3) demo_addr demo_msgs 0 [] =
       Some (2, [[0x12, 0x34], [0x5A, 0x5A, 7]], h')"
    using demo_xfer by blast
  have "xfer_bytes demo_addr demo_msgs = [0xA0, 0x12, 0x34, 0xA1, 0xFF, 0xFF]" by code_simp
  with efx_i2c_xfer_success [OF demo_wf run] run show ?thesis by simp
qed

end
