(* ===== verification/EfxI2c_Slave.thy ===== *)
theory EfxI2c_Slave
  imports EfxI2c_Regs
begin

text \<open>
  The bus-slave half of kernel_modules/i2c/src/i2c.c: the interrupt handler with its
  four-state machine, and registration of the slave back end.  The back end's callback
  behind the kernel's \<open>i2c_slave_event\<close> is the parameter \<open>cb\<close>: from the events delivered
  so far, the event and the byte handed in it gives the byte left behind the \<open>value\<close>
  pointer.  Delivering an event while no client is registered dereferences the NULL
  \<open>slave\<close> pointer: \<open>None\<close>.
\<close>

section \<open>State\<close>

datatype slave_state = IDLE | WRITE_ADDR | READ_DATA0 | WRITE_DATA0

datatype slave_event = READ_REQUESTED | WRITE_REQUESTED | READ_PROCESSED | WRITE_RECEIVED

record i2c_client =
  cl_addr :: u16
  cl_flags :: u16

record efx_slave =
  sl_client :: "i2c_client option"
  sl_state :: slave_state
  sl_events :: "(slave_event \<times> u8) list"
  sl_log :: "u32 log"

type_synonym slave_cb = "(slave_event \<times> u8) list \<Rightarrow> slave_event \<Rightarrow> u8 \<Rightarrow> u8"

definition I2C_CLIENT_TEN :: u16 where [regs]: "I2C_CLIENT_TEN = 0x10"

definition i2c_slave_event ::
  "slave_cb \<Rightarrow> slave_event \<Rightarrow> u8 \<Rightarrow> efx_slave \<Rightarrow> (u8 \<times> efx_slave) option" where
  "i2c_slave_event cb ev value s =
     (case sl_client s of
        None \<Rightarrow> None
      | Some _ \<Rightarrow>
          (let value = cb (sl_events s) ev value
           in Some (value, s\<lparr>sl_events := sl_events s @ [(ev, value)]\<rparr>)))"

abbreviation with_log :: "(u32 log \<Rightarrow> u32 log) \<Rightarrow> efx_slave \<Rightarrow> efx_slave" where
  "with_log f s \<equiv> s\<lparr>sl_log := f (sl_log s)\<rparr>"

section \<open>Interrupt handler\<close>

definition isr_idle :: "u32 device \<Rightarrow> slave_cb \<Rightarrow> efx_slave \<Rightarrow> efx_slave option" where
  "isr_idle d cb s =
     (let (hit, h) = readl d EFX_I2C_HIT_CONTEXT (sl_log s); s = s\<lparr>sl_log := h\<rparr>;
          value = 0; release = 0xFF
      in do {
        s \<leftarrow> (if hit = 0x1 then
               (let (filt, h) = readl d EFX_I2C_FILTERING_STATUS (sl_log s); s = s\<lparr>sl_log := h\<rparr>
                in if filt = 0x0 then do {
                     (value, s) \<leftarrow> i2c_slave_event cb WRITE_REQUESTED value s;
                     let s = with_log efx_i2c_tx_ack s;
                     let s = with_log (efx_i2c_write_byte release) s;
                     let s = with_log (efx_i2c_enable_interrupt d EFX_I2C_IRQ_TX_DATA_ENABLE) s;
                     Some (s\<lparr>sl_state := WRITE_ADDR\<rparr>)
                   } else do {
                     (value, s) \<leftarrow> i2c_slave_event cb READ_REQUESTED value s;
                     let s = with_log efx_i2c_tx_ack s;
                     let s = with_log (efx_i2c_write_byte value) s;
                     let s = with_log (efx_i2c_enable_interrupt d EFX_I2C_IRQ_TX_DATA_ENABLE) s;
                     Some (s\<lparr>sl_state := READ_DATA0\<rparr>)
                   })
             else Some ((with_log (efx_i2c_disable_interrupt d EFX_I2C_IRQ_TX_DATA_ENABLE) s)
                          \<lparr>sl_state := IDLE\<rparr>));
        Some (with_log (efx_i2c_clear_irq_flag EFX_I2C_IRQ_CLR_FILTER) s)
      })"

text \<open>The cases \<open>WRITE_ADDR\<close> and \<open>WRITE_DATA0\<close> have the same body.\<close>

definition isr_write :: "u32 device \<Rightarrow> slave_cb \<Rightarrow> efx_slave \<Rightarrow> efx_slave option" where
  "isr_write d cb s =
     (let s = with_log efx_i2c_tx_ack s;
          s = with_log (efx_i2c_write_byte 0xFF) s;
          (v, h) = readl d EFX_I2C_RX_DATA (sl_log s); s = s\<lparr>sl_log := h\<rparr>
      in do {
        (value, s) \<leftarrow> i2c_slave_event cb WRITE_RECEIVED (ucast (v AND 0xff)) s;
        Some (s\<lparr>sl_state := WRITE_DATA0\<rparr>)
      })"

definition isr_read :: "slave_cb \<Rightarrow> efx_slave \<Rightarrow> efx_slave option" where
  "isr_read cb s = do {
     (value, s) \<leftarrow> i2c_slave_event cb READ_PROCESSED 0 s;
     let s = with_log efx_i2c_tx_nack s;
     let s = with_log (efx_i2c_write_byte value) s;
     Some (s\<lparr>sl_state := READ_DATA0\<rparr>)
   }"

definition efx_i2c_interrupt_slave ::
  "u32 device \<Rightarrow> slave_cb \<Rightarrow> efx_slave \<Rightarrow> efx_slave option" where
  "efx_i2c_interrupt_slave d cb s =
     (let (irq_status, h) = readl d EFX_I2C_IRQ_CLR (sl_log s); s = s\<lparr>sl_log := h\<rparr>;
          s = (if irq_status AND EFX_I2C_IRQ_CLR_FILTER \<noteq> 0
               then with_log (efx_i2c_disable_interrupt d EFX_I2C_IRQ_TX_DATA_ENABLE)
                      (s\<lparr>sl_state := IDLE\<rparr>)
               else s)
      in case sl_state s of
           IDLE \<Rightarrow> isr_idle d cb s
         | WRITE_ADDR \<Rightarrow> isr_write d cb s
         | READ_DATA0 \<Rightarrow> isr_read cb s
         | WRITE_DATA0 \<Rightarrow> isr_write d cb s)"

section \<open>Registration\<close>

definition efx_i2c_reg_slave :: "u32 device \<Rightarrow> i2c_client \<Rightarrow> efx_slave \<Rightarrow> int \<times> efx_slave" where
  "efx_i2c_reg_slave d slave s =
     (if sl_client s \<noteq> None then (- EBUSY, s)
      else if cl_flags slave AND I2C_CLIENT_TEN \<noteq> 0 then (- EAFNOSUPPORT, s)
      else let s = s\<lparr>sl_client := Some slave\<rparr>;
               s = with_log (writel (ucast (cl_addr slave) OR EFX_I2C_FILTERING_CONFIG0_ENABLE)
                               EFX_I2C_FILTERING_CONFIG0) s;
               s = with_log (efx_i2c_enable_interrupt d EFX_I2C_IRQ_FILTER_ENABLE) s
           in (0, s))"

definition efx_i2c_unreg_slave :: "efx_slave \<Rightarrow> int \<times> efx_slave" where
  "efx_i2c_unreg_slave s = (0, s\<lparr>sl_client := None\<rparr>)"

section \<open>Runs\<close>

text \<open>The driver is started idle with no client; then interrupts and registrations interleave.\<close>

definition slave_init :: "u32 log \<Rightarrow> efx_slave" where
  "slave_init h = \<lparr>sl_client = None, sl_state = IDLE, sl_events = [], sl_log = h\<rparr>"

inductive slave_reach :: "u32 device \<Rightarrow> slave_cb \<Rightarrow> u32 log \<Rightarrow> efx_slave \<Rightarrow> bool"
  for d cb h0 where
  init: "slave_reach d cb h0 (slave_init h0)"
| irq: "slave_reach d cb h0 s \<Longrightarrow> efx_i2c_interrupt_slave d cb s = Some s' \<Longrightarrow>
    slave_reach d cb h0 s'"
| reg: "slave_reach d cb h0 s \<Longrightarrow> slave_reach d cb h0 (snd (efx_i2c_reg_slave d cl s))"
| unreg: "slave_reach d cb h0 s \<Longrightarrow> slave_reach d cb h0 (snd (efx_i2c_unreg_slave s))"

section \<open>Effect of one interrupt\<close>

definition deliver :: "slave_cb \<Rightarrow> slave_event \<Rightarrow> u8 \<Rightarrow> efx_slave \<Rightarrow> u8" where
  "deliver cb ev v s = cb (sl_events s) ev v"

lemma slave_event_simp [simp]:
  "i2c_slave_event cb ev v s = (if sl_client s = None then None
     else Some (deliver cb ev v s, s\<lparr>sl_events := sl_events s @ [(ev, deliver cb ev v s)]\<rparr>))"
  by (simp add: i2c_slave_event_def deliver_def Let_def split: option.split)

lemma deliver_log [simp]: "deliver cb ev v (s\<lparr>sl_log := h\<rparr>) = deliver cb ev v s"
  "deliver cb ev v (s\<lparr>sl_state := st\<rparr>) = deliver cb ev v s"
  by (simp_all add: deliver_def)

lemma isr_None:
  "efx_i2c_interrupt_slave d cb s = None \<Longrightarrow> sl_client s = None"
  by (auto simp: efx_i2c_interrupt_slave_def isr_idle_def isr_write_def isr_read_def Let_def split_beta
      split: slave_state.splits if_splits)

text \<open>What an interrupt that is served does, by the state after the filter check.\<close>

datatype isr_effect = Ignored | Event slave_event u8

definition isr_post :: "efx_slave \<Rightarrow> efx_slave \<Rightarrow> isr_effect \<Rightarrow> bool" where
  "isr_post s s' e \<longleftrightarrow> sl_client s' = sl_client s \<and>
     (case e of
        Ignored \<Rightarrow> sl_state s' = IDLE \<and> sl_events s' = sl_events s \<and>
          written EFX_I2C_TX_DATA (sl_log s') = written EFX_I2C_TX_DATA (sl_log s)
      | Event ev v \<Rightarrow> sl_client s \<noteq> None \<and> sl_events s' = sl_events s @ [(ev, v)] \<and>
          written EFX_I2C_TX_DATA (sl_log s') = written EFX_I2C_TX_DATA (sl_log s) @
            [tx_data_word (if ev \<in> {READ_REQUESTED, READ_PROCESSED} then v else 0xFF)] \<and>
          (case ev of
             WRITE_REQUESTED \<Rightarrow> sl_state s' = WRITE_ADDR
           | READ_REQUESTED \<Rightarrow> sl_state s' = READ_DATA0
           | WRITE_RECEIVED \<Rightarrow> sl_state s \<in> {WRITE_ADDR, WRITE_DATA0} \<and> sl_state s' = WRITE_DATA0
           | READ_PROCESSED \<Rightarrow> sl_state s = READ_DATA0 \<and> sl_state s' = READ_DATA0))"

lemma slave_tx_written [simp]:
  "written EFX_I2C_TX_DATA (efx_i2c_write_byte v h) = written EFX_I2C_TX_DATA h @ [tx_data_word v]"
  "written EFX_I2C_TX_DATA (efx_i2c_tx_ack h) = written EFX_I2C_TX_DATA h"
  "written EFX_I2C_TX_DATA (efx_i2c_tx_nack h) = written EFX_I2C_TX_DATA h"
  "written EFX_I2C_TX_DATA (efx_i2c_enable_interrupt d w h) = written EFX_I2C_TX_DATA h"
  "written EFX_I2C_TX_DATA (efx_i2c_disable_interrupt d w h) = written EFX_I2C_TX_DATA h"
  "written EFX_I2C_TX_DATA (efx_i2c_clear_irq_flag w h) = written EFX_I2C_TX_DATA h"
  "written EFX_I2C_TX_DATA (writel w EFX_I2C_FILTERING_CONFIG0 h) = written EFX_I2C_TX_DATA h"
  by (simp_all add: efx_reg_ops Let_def regs)

lemma isr_idle_post:
  assumes "isr_idle d cb s = Some s'"
  shows "\<exists>e. isr_post s s' e"
proof -
  have "isr_post s s' Ignored \<or> (\<exists>v. isr_post s s' (Event WRITE_REQUESTED v))
      \<or> (\<exists>v. isr_post s s' (Event READ_REQUESTED v))"
    using assms by (auto simp: isr_idle_def isr_post_def Let_def split_beta split: if_splits)
  then show ?thesis by blast
qed

lemma isr_write_post:
  assumes "isr_write d cb s = Some s'" and "sl_state s = WRITE_ADDR \<or> sl_state s = WRITE_DATA0"
  shows "\<exists>e. isr_post s s' e"
  using assms by (intro exI [of _ "Event WRITE_RECEIVED v" for v])
    (auto simp: isr_write_def isr_post_def Let_def split_beta split: if_splits)

lemma isr_read_post:
  assumes "isr_read cb s = Some s'" and "sl_state s = READ_DATA0"
  shows "\<exists>e. isr_post s s' e"
  using assms by (intro exI [of _ "Event READ_PROCESSED v" for v])
    (auto simp: isr_read_def isr_post_def Let_def split_beta split: if_splits)

lemma isr_post_filter:
  assumes "isr_post t s' e" and "sl_client t = sl_client s" "sl_events t = sl_events s"
    and "written EFX_I2C_TX_DATA (sl_log t) = written EFX_I2C_TX_DATA (sl_log s)"
    and "sl_state t = IDLE \<or> sl_state t = sl_state s"
  shows "isr_post s s' e"
  using assms by (auto simp: isr_post_def split: isr_effect.splits slave_event.splits)

lemma efx_i2c_isr_post:
  assumes "efx_i2c_interrupt_slave d cb s = Some s'"
  shows "\<exists>e. isr_post s s' e"
proof -
  define t where "t = (let (v, h) = readl d EFX_I2C_IRQ_CLR (sl_log s); s = s\<lparr>sl_log := h\<rparr>
     in if v AND EFX_I2C_IRQ_CLR_FILTER \<noteq> 0
        then with_log (efx_i2c_disable_interrupt d EFX_I2C_IRQ_TX_DATA_ENABLE) (s\<lparr>sl_state := IDLE\<rparr>)
        else s)"
  have t: "sl_client t = sl_client s" "sl_events t = sl_events s"
    "written EFX_I2C_TX_DATA (sl_log t) = written EFX_I2C_TX_DATA (sl_log s)"
    "sl_state t = IDLE \<or> sl_state t = sl_state s"
    by (simp_all add: t_def Let_def split_beta)
  have "(case sl_state t of IDLE \<Rightarrow> isr_idle d cb t | WRITE_ADDR \<Rightarrow> isr_write d cb t
         | READ_DATA0 \<Rightarrow> isr_read cb t | WRITE_DATA0 \<Rightarrow> isr_write d cb t) = Some s'"
    using assms unfolding efx_i2c_interrupt_slave_def t_def Let_def split_beta .
  then have "\<exists>e. isr_post t s' e"
    using isr_idle_post isr_write_post isr_read_post by (cases "sl_state t") auto
  then show ?thesis using isr_post_filter t by blast
qed

section \<open>Protocol towards the back end\<close>

text \<open>
  The order of events a slave back end relies on: a byte is received only inside a write
  transfer, and a processed read follows a read request of the same transfer.
\<close>

datatype transfer = NoTransfer | Writing | Reading

fun accepts :: "transfer \<Rightarrow> slave_event \<Rightarrow> transfer option" where
  "accepts t WRITE_REQUESTED = Some Writing"
| "accepts t READ_REQUESTED = Some Reading"
| "accepts t WRITE_RECEIVED = (if t = Writing then Some Writing else None)"
| "accepts t READ_PROCESSED = (if t = Reading then Some Reading else None)"

fun protocol :: "transfer \<Rightarrow> slave_event list \<Rightarrow> transfer option" where
  "protocol t [] = Some t"
| "protocol t (ev # evs) = Option.bind (accepts t ev) (\<lambda>t. protocol t evs)"

lemma protocol_snoc [simp]:
  "protocol t (evs @ [ev]) = Option.bind (protocol t evs) (\<lambda>t. accepts t ev)"
  by (induction t evs rule: protocol.induct) (auto split: bind_split)

text \<open>The byte the controller answers an event with: the back end's byte to a reading master,
  the released bus (0xFF) to a writing one.\<close>

fun reply :: "slave_event \<times> u8 \<Rightarrow> u32" where
  "reply (ev, v) = tx_data_word (if ev \<in> {READ_REQUESTED, READ_PROCESSED} then v else 0xFF)"

definition slave_inv :: "u32 log \<Rightarrow> efx_slave \<Rightarrow> bool" where
  "slave_inv h0 s \<longleftrightarrow>
     (\<exists>t. protocol NoTransfer (map fst (sl_events s)) = Some t \<and>
        (sl_state s \<in> {WRITE_ADDR, WRITE_DATA0} \<longrightarrow> t = Writing) \<and>
        (sl_state s = READ_DATA0 \<longrightarrow> t = Reading)) \<and>
     written EFX_I2C_TX_DATA (sl_log s) =
       written EFX_I2C_TX_DATA h0 @ map reply (sl_events s)"

lemma isr_post_inv:
  assumes "isr_post s s' e" and "slave_inv h0 s"
  shows "slave_inv h0 s'"
proof (cases e)
  case Ignored
  with assms show ?thesis by (auto simp: isr_post_def slave_inv_def)
next
  case (Event ev v)
  with assms show ?thesis
    by (cases ev) (auto simp: isr_post_def slave_inv_def)
qed

lemma reg_slave_inv: "slave_inv h0 s \<Longrightarrow> slave_inv h0 (snd (efx_i2c_reg_slave d cl s))"
  by (auto simp: efx_i2c_reg_slave_def slave_inv_def Let_def)

lemma unreg_slave_inv: "slave_inv h0 s \<Longrightarrow> slave_inv h0 (snd (efx_i2c_unreg_slave s))"
  by (simp add: efx_i2c_unreg_slave_def slave_inv_def)

text \<open>
  C19: In every run of interrupts and registrations, whatever the hardware and the
  back end do, the events delivered to the back end follow the slave protocol (bytes
  are received only within a write transfer and processed reads only within a read
  transfer), and the transmit register is given exactly one byte per event: the byte
  the back end supplied for a read and 0xFF for a write.
\<close>

theorem slave_protocol:
  assumes "slave_reach d cb h0 s"
  shows "protocol NoTransfer (map fst (sl_events s)) \<noteq> None \<and>
    written EFX_I2C_TX_DATA (sl_log s) =
      written EFX_I2C_TX_DATA h0 @ map reply (sl_events s)"
proof -
  have "slave_inv h0 s"
    using assms
  proof induction
    case init
    then show ?case by (simp add: slave_inv_def slave_init_def)
  next
    case (irq s s')
    then show ?case using efx_i2c_isr_post isr_post_inv by blast
  next
    case (reg s cl)
    then show ?case using reg_slave_inv by blast
  next
    case (unreg s)
    then show ?case using unreg_slave_inv by blast
  qed
  then show ?thesis by (auto simp: slave_inv_def)
qed

text \<open>
  While a client is registered the interrupt handler never dereferences a NULL
  client; after \<open>efx_i2c_unreg_slave\<close>, which leaves the filter interrupt enabled, an
  address hit does.
\<close>

theorem slave_irq_faults_iff:
  "efx_i2c_interrupt_slave d cb s = None \<longleftrightarrow>
     sl_client s = None \<and>
     (let irq = d (sl_log s) EFX_I2C_IRQ_CLR AND EFX_I2C_IRQ_CLR_FILTER \<noteq> 0;
          h = sl_log s @ [Rd EFX_I2C_IRQ_CLR (d (sl_log s) EFX_I2C_IRQ_CLR)];
          h' = (if irq then efx_i2c_disable_interrupt d EFX_I2C_IRQ_TX_DATA_ENABLE h else h)
      in if irq \<or> sl_state s = IDLE then d h' EFX_I2C_HIT_CONTEXT = 1 else True)"
  by (auto simp: efx_i2c_interrupt_slave_def isr_idle_def isr_write_def isr_read_def Let_def split_beta
      readl_def split: slave_state.splits if_splits)


text \<open>A back end answering 0x42, and a controller reporting a read hit on every interrupt.\<close>

definition demo_slave_device :: "u32 device" where
  "demo_slave_device h a =
     (if a = EFX_I2C_IRQ_CLR then (if length h < 5 then EFX_I2C_IRQ_CLR_FILTER else 0)
      else if a = EFX_I2C_HIT_CONTEXT \<or> a = EFX_I2C_FILTERING_STATUS then 1 else 0)"

definition demo_slave_cb :: slave_cb where
  "demo_slave_cb evs ev v = (if ev = READ_REQUESTED then 0x42 else 0x43)"

definition demo_slave_run :: "efx_slave option" where
  "demo_slave_run = do {
     let s = snd (efx_i2c_reg_slave demo_slave_device \<lparr>cl_addr = 0x64, cl_flags = 0\<rparr> (slave_init []));
     s \<leftarrow> efx_i2c_interrupt_slave demo_slave_device demo_slave_cb s;
     efx_i2c_interrupt_slave demo_slave_device demo_slave_cb s }"

lemma demo_slave_run:
  "Option.bind demo_slave_run (\<lambda>s. Some (sl_events s, sl_state s))
     = Some ([(READ_REQUESTED, 0x42), (READ_PROCESSED, 0x43)], READ_DATA0)"
  by code_simp

lemma demo_slave_reach:
  "demo_slave_run = Some s \<Longrightarrow> slave_reach demo_slave_device demo_slave_cb [] s"
  unfolding demo_slave_run_def Let_def bind_Some_iff
  by (elim exE conjE, rule slave_reach.irq, rule slave_reach.irq, rule slave_reach.reg,
      rule slave_reach.init, assumption+)

theorem slave_protocol_witness:
  "\<exists>s. demo_slave_run = Some s \<and> protocol NoTransfer [READ_REQUESTED, READ_PROCESSED] \<noteq> None
     \<and> written EFX_I2C_TX_DATA (sl_log s) = [tx_data_word 0x42, tx_data_word 0x43]"
proof -
  obtain s where s: "demo_slave_run = Some s"
    and ev: "sl_events s = [(READ_REQUESTED, 0x42), (READ_PROCESSED, 0x43)]"
    using demo_slave_run by (auto simp: bind_Some_iff)
  from slave_protocol [OF demo_slave_reach [OF s]] have
    "written EFX_I2C_TX_DATA (sl_log s) = [tx_data_word 0x42, tx_data_word 0x43]"
    by (simp add: ev)
  with s show ?thesis by (intro exI [of _ s]) simp
qed

end
