(* ===== verification/EfxI2c_Probe.thy ===== *)
theory EfxI2c_Probe
  imports EfxI2c_MasterProps EfxI2c_Slave
begin

text \<open>
  Bring-up of the I2C controller: \<open>efx_i2c_probe\<close> of kernel_modules/i2c/src/i2c.c.  The
  answers of the kernel (allocation, mapping, device tree, clock, interrupt and adapter
  registration) are the fields of a parameter record; a pointer that may be an error
  pointer is its error number, 0 when it is valid.
\<close>

record i2c_probe_env =
  pe_alloc :: bool
  pe_ioremap :: int
  pe_clock_frequency :: "int \<times> u32"
  pe_sampling :: "int \<times> u32"
  pe_clk :: int
  pe_clk_rate :: u32
  pe_request_irq :: int
  pe_add_adapter :: int

record efx_i2c_dev =
  dv_clk_rate :: u32
  dv_peripheral_clk :: u32
  dv_mode :: u8
  dv_sampling_clk_div :: u32

definition efx_i2c_mode_of :: "u32 \<Rightarrow> u8" where
  "efx_i2c_mode_of rate =
     (if rate = 400000 then I2C_MODE_FAST
      else if rate = 1000000 then I2C_MODE_FAST_PLUS
      else I2C_MODE_STANDARD)"

definition efx_i2c_probe :: "i2c_probe_env \<Rightarrow> int \<times> efx_i2c_dev \<times> u32 log" where
  "efx_i2c_probe e =
     (let dv = \<lparr>dv_clk_rate = 0, dv_peripheral_clk = 0, dv_mode = 0, dv_sampling_clk_div = 0\<rparr>
      in if \<not> pe_alloc e then (- ENOMEM, dv, [])
         else if pe_ioremap e \<noteq> 0 then (pe_ioremap e, dv, [])
         else let dv = dv\<lparr>dv_mode := I2C_MODE_STANDARD\<rparr>;
                  (ret, rate) = pe_clock_frequency e
              in if ret \<noteq> 0 then (ret, dv, [])
                 else let dv = dv\<lparr>dv_clk_rate := rate\<rparr>;
                          dv = dv\<lparr>dv_mode := efx_i2c_mode_of (dv_clk_rate dv)\<rparr>;
                          (ret, sdiv) = pe_sampling e;
                          dv = dv\<lparr>dv_sampling_clk_div := if ret \<noteq> 0 then 3 else sdiv\<rparr>
                      in if pe_clk e \<noteq> 0 then (pe_clk e, dv, [])
                         else let dv = dv\<lparr>dv_peripheral_clk := pe_clk_rate e\<rparr>
                              in if pe_request_irq e \<noteq> 0 then (pe_request_irq e, dv, [])
                                 else let (ret, h) = efx_i2c_hw_config (dv_clk_rate dv)
                                            (dv_peripheral_clk dv) (dv_sampling_clk_div dv) (dv_mode dv) []
                                      in if ret \<noteq> 0 then (ret, dv, h)
                                         else if pe_add_adapter e \<noteq> 0 then (pe_add_adapter e, dv, h)
                                         else (0, dv, h))"

section \<open>Bring-up\<close>

definition probe_inputs_ok :: "i2c_probe_env \<Rightarrow> bool" where
  "probe_inputs_ok e \<longleftrightarrow> pe_alloc e \<and> pe_ioremap e = 0 \<and> fst (pe_clock_frequency e) = 0 \<and>
     snd (pe_clock_frequency e) \<noteq> 0 \<and> pe_clk e = 0 \<and> pe_request_irq e = 0 \<and> pe_add_adapter e = 0"

text \<open>The timing words for a bus frequency and a peripheral clock.\<close>

definition timing_writes :: "u32 \<Rightarrow> u32 \<Rightarrow> u32 \<Rightarrow> u32 log" where
  "timing_writes rate pclk sdiv =
     (let t = (if rate = 400000 then (2000000, 666667, 1000000, 666667)
               else if rate = 1000000 then (20000000, 1666667, 2500000, 1666667)
               else (2000000, 200000, 200000, 200000));
          (tsu, buf, hi, lo) = t
      in [Wr 0x28 sdiv, Wr 0x2c (pclk div 1000), Wr 0x30 (pclk div tsu), Wr 0x50 (pclk div lo),
          Wr 0x54 (pclk div hi), Wr 0x58 (pclk div buf)])"

lemma hw_config_mode:
  "rate \<noteq> 0 \<Longrightarrow> efx_i2c_hw_config rate pclk sdiv (efx_i2c_mode_of rate) h =
     (0, h @ timing_writes rate pclk sdiv)"
  by (simp add: efx_i2c_hw_config_def efx_i2c_spec_of_mode_def efx_i2c_specs_def efx_i2c_mode_of_def
      timing_writes_def writel_def regs Let_def)

lemma hw_config_no_clock: "efx_i2c_hw_config 0 pclk sdiv m h = (- ENODEV, h)"
  by (simp add: efx_i2c_hw_config_def)

text \<open>
  Probing succeeds exactly when every resource is obtained and the device tree gives
  a non-zero bus frequency; then the controller has been programmed with the timing
  words of that frequency (standard timing for any rate other than 400 kHz and 1 MHz)
  and the default sampling divider 3 where the device tree names none.
\<close>

theorem efx_i2c_probe_programs_timing:
  "if probe_inputs_ok e
   then fst (efx_i2c_probe e) = 0 \<and> snd (snd (efx_i2c_probe e)) =
     timing_writes (snd (pe_clock_frequency e)) (pe_clk_rate e)
       (if fst (pe_sampling e) \<noteq> 0 then 3 else snd (pe_sampling e))
   else fst (efx_i2c_probe e) \<noteq> 0"
  by (cases "snd (pe_clock_frequency e) = 0")
    (auto simp: efx_i2c_probe_def probe_inputs_ok_def hw_config_mode hw_config_no_clock Let_def split_beta)

end
