(* ===== verification/RemoteProc.thy ===== *)
theory RemoteProc
  imports Prelude
begin

text \<open>
  The remote-processor driver of the TI375 SoC,
  kernel_modules/efinix_ti375_remoteproc/src/efinix_ti375_remoteproc.c: firmware start
  and stop through the SBI hart-state calls, the kick counters in shared memory, and
  the two ways of noticing an inbound kick (IPI doorbell, timer poll).

  The target is 32-bit: \<open>unsigned long\<close>, \<open>size_t\<close> and \<open>phys_addr_t\<close> are \<open>u32\<close>, a device
  address is \<open>u64\<close>.  The state's log records shared-memory accesses, SBI calls, scheduled
  work and virtqueue interrupts in order.  Parameters of the model are what answers from
  outside: a \<open>world\<close> with the contents of shared memory, the SBI firmware, and the kernel's
  \<open>sbi_err_map_linux_errno\<close>, each allowed to depend on everything done so far.
\<close>

section \<open>State and environment\<close>

definition SHM_RSC_OFF :: u32 where [regs]: "SHM_RSC_OFF = 0x0000"
definition SHM_KICK_R2L_OFF :: u32 where [regs]: "SHM_KICK_R2L_OFF = 0x0100"
definition SHM_KICK_L2R_OFF :: u32 where [regs]: "SHM_KICK_L2R_OFF = 0x0104"
definition SHM_REMOTE_READY_OFF :: u32 where [regs]: "SHM_REMOTE_READY_OFF = 0x0110"
definition SHM_LINUX_READY_OFF :: u32 where [regs]: "SHM_LINUX_READY_OFF = 0x0114"
definition SHM_LINUX_CTRL_OFF :: u32 where [regs]: "SHM_LINUX_CTRL_OFF = 0x0118"
definition SHM_VRING0_OFF :: u32 where [regs]: "SHM_VRING0_OFF = 0x2000"
definition SHM_VRING1_OFF :: u32 where [regs]: "SHM_VRING1_OFF = 0x4000"
definition SHM_VRING_SIZE :: u32 where [regs]: "SHM_VRING_SIZE = 0x2000"
definition REMOTE_READY_MAGIC :: u32 where [regs]: "REMOTE_READY_MAGIC = 0x524D4554"
definition CTRL_MSG_NONE :: u32 where [regs]: "CTRL_MSG_NONE = 0"
definition RSC_TABLE_BYTES :: nat where [regs]: "RSC_TABLE_BYTES = 88"

text \<open>The calls of the SBI specification the driver makes, and the hart states it tests.\<close>

datatype sbi_call =
    HartStatus u32
  | HartStart u32 u32
  | SendIpi u32 u32

record sbiret =
  sbi_error :: int
  sbi_value :: int

definition SBI_HSM_STATE_STARTED :: int where "SBI_HSM_STATE_STARTED = 0"
definition SBI_HSM_STATE_STOPPED :: int where "SBI_HSM_STATE_STOPPED = 1"

datatype rproc_event =
    ShmRd u32 u32
  | ShmWr u32 u32
  | Ecall sbi_call
  | CopyTable nat
  | ScheduleNotify
  | VqInterrupt nat
  | Carveout u32 u32 string

type_synonym rproc_log = "rproc_event list"

record world =
  w_shm :: "rproc_log \<Rightarrow> u32 \<Rightarrow> u32"
  w_sbi :: "rproc_log \<Rightarrow> sbi_call \<Rightarrow> sbiret"
  w_errmap :: "int \<Rightarrow> int"

record efinix_rproc =
  remote_hartid :: u32
  fw_pa :: u32
  fw_size :: u32
  shm_pa :: u32
  bootaddr :: u32
  hart_started :: bool
  poll_running :: bool
  last_r2l_seen :: u32
  ipi_active :: bool
  ipi_doorbells :: nat
  inbound_logged :: bool
  rsc_table :: bool
  rlog :: rproc_log

definition add_ev :: "rproc_event \<Rightarrow> efinix_rproc \<Rightarrow> efinix_rproc" where
  "add_ev ev p = p\<lparr>rlog := rlog p @ [ev]\<rparr>"

definition shm_readl :: "world \<Rightarrow> u32 \<Rightarrow> efinix_rproc \<Rightarrow> u32 \<times> efinix_rproc" where
  "shm_readl w off p = (let v = w_shm w (rlog p) off in (v, add_ev (ShmRd off v) p))"

definition shm_writel :: "u32 \<Rightarrow> u32 \<Rightarrow> efinix_rproc \<Rightarrow> efinix_rproc" where
  "shm_writel v off p = add_ev (ShmWr off v) p"

definition sbi_ecall :: "world \<Rightarrow> sbi_call \<Rightarrow> efinix_rproc \<Rightarrow> sbiret \<times> efinix_rproc" where
  "sbi_ecall w call p = (w_sbi w (rlog p) call, add_ev (Ecall call) p)"

section \<open>Harts and interrupts\<close>

text \<open>\<open>(int)r.value\<close>: the low 32 bits, signed.\<close>

definition efinix_rproc_hart_status :: "world \<Rightarrow> u32 \<Rightarrow> efinix_rproc \<Rightarrow> int \<times> efinix_rproc" where
  "efinix_rproc_hart_status w hartid p =
     (let (r, p) = sbi_ecall w (HartStatus hartid) p
      in if sbi_error r \<noteq> 0 then (w_errmap w (sbi_error r), p)
         else (sint (word_of_int (sbi_value r) :: u32), p))"

definition efinix_rproc_hart_start ::
  "world \<Rightarrow> u32 \<Rightarrow> u32 \<Rightarrow> efinix_rproc \<Rightarrow> int \<times> efinix_rproc" where
  "efinix_rproc_hart_start w hartid start_addr p =
     (let (state, p) = efinix_rproc_hart_status w hartid p
      in if state = SBI_HSM_STATE_STARTED then (0, p)
         else let (r, p) = sbi_ecall w (HartStart hartid start_addr) p
              in if sbi_error r \<noteq> 0 then (w_errmap w (sbi_error r), p) else (0, p))"

definition efinix_rproc_send_ipi :: "world \<Rightarrow> u32 \<Rightarrow> efinix_rproc \<Rightarrow> efinix_rproc" where
  "efinix_rproc_send_ipi w hartid p =
     (let hart_mask = push_bit (unat (hartid mod 32)) 1;
          hart_mask_base = hartid - (hartid mod 32)
      in snd (sbi_ecall w (SendIpi hart_mask hart_mask_base) p))"

definition efinix_rproc_notify_work_fn :: "efinix_rproc \<Rightarrow> efinix_rproc" where
  "efinix_rproc_notify_work_fn p = add_ev (VqInterrupt 1) (add_ev (VqInterrupt 0) p)"

section \<open>Inbound kicks\<close>

definition efinix_rproc_ipi_doorbell :: "world \<Rightarrow> efinix_rproc \<Rightarrow> efinix_rproc" where
  "efinix_rproc_ipi_doorbell w p =
     (if \<not> ipi_active p then p
      else let (now, p) = shm_readl w SHM_KICK_R2L_OFF p
           in if now \<noteq> last_r2l_seen p
              then add_ev ScheduleNotify
                     (p\<lparr>last_r2l_seen := now, ipi_doorbells := ipi_doorbells p + 1\<rparr>)
              else p)"

text \<open>The timer restarts itself on every tick.\<close>

definition efinix_rproc_poll_fn :: "world \<Rightarrow> efinix_rproc \<Rightarrow> efinix_rproc" where
  "efinix_rproc_poll_fn w p =
     (let (now, p) = shm_readl w SHM_KICK_R2L_OFF p
      in if now \<noteq> last_r2l_seen p
         then add_ev ScheduleNotify (p\<lparr>last_r2l_seen := now\<rparr>)
         else p)"

definition efinix_rproc_inbound_start :: "world \<Rightarrow> bool \<Rightarrow> efinix_rproc \<Rightarrow> efinix_rproc" where
  "efinix_rproc_inbound_start w use_ipi p =
     (let (now, p) = shm_readl w SHM_KICK_R2L_OFF p;
          p = p\<lparr>last_r2l_seen := now, inbound_logged := False\<rparr>
      in if use_ipi then p\<lparr>ipi_doorbells := 0, ipi_active := True\<rparr>
         else if poll_running p then p
         else p\<lparr>poll_running := True\<rparr>)"

definition efinix_rproc_inbound_stop :: "bool \<Rightarrow> efinix_rproc \<Rightarrow> efinix_rproc" where
  "efinix_rproc_inbound_stop use_ipi p =
     (if use_ipi then p\<lparr>ipi_active := False\<rparr>
      else if \<not> poll_running p then p
      else p\<lparr>poll_running := False\<rparr>)"

section \<open>Remoteproc operations\<close>

text \<open>\<open>mem_entry\<close> tells whether the kernel could allocate each of the two carveout entries.\<close>

definition efinix_rproc_prepare :: "bool \<times> bool \<Rightarrow> efinix_rproc \<Rightarrow> int \<times> efinix_rproc" where
  "efinix_rproc_prepare mem_entry p =
     (if \<not> fst mem_entry then (- ENOMEM, p)
      else let p = add_ev (Carveout (shm_pa p + SHM_VRING0_OFF) SHM_VRING_SIZE ''vdev0vring0'') p
           in if \<not> snd mem_entry then (- ENOMEM, p)
              else (0, add_ev (Carveout (shm_pa p + SHM_VRING1_OFF) SHM_VRING_SIZE ''vdev0vring1'') p))"

definition efinix_rproc_start :: "world \<Rightarrow> bool \<Rightarrow> efinix_rproc \<Rightarrow> int \<times> efinix_rproc" where
  "efinix_rproc_start w use_ipi p =
     (let p = efinix_rproc_inbound_start w use_ipi p
      in if hart_started p then (0, p)
         else let (ret, p) = efinix_rproc_hart_start w (remote_hartid p) (bootaddr p) p
              in if ret \<noteq> 0 then (ret, efinix_rproc_inbound_stop use_ipi p)
                 else (0, p\<lparr>hart_started := True\<rparr>))"

text \<open>
  \<open>readx_poll_timeout\<close> on the remote-ready flag: \<open>n\<close> reads may fail the condition before
  the deadline; then the flag is read one last time.
\<close>

fun poll_ready :: "world \<Rightarrow> nat \<Rightarrow> efinix_rproc \<Rightarrow> int \<times> efinix_rproc" where
  "poll_ready w 0 p =
     (let (magic, p) = shm_readl w SHM_REMOTE_READY_OFF p
      in (if magic = REMOTE_READY_MAGIC then 0 else - ETIMEDOUT, p))"
| "poll_ready w (Suc n) p =
     (let (magic, p) = shm_readl w SHM_REMOTE_READY_OFF p
      in if magic = REMOTE_READY_MAGIC then (0, p) else poll_ready w n p)"

definition efinix_rproc_parse_fw_shm ::
  "world \<Rightarrow> int \<Rightarrow> nat \<Rightarrow> bool \<Rightarrow> efinix_rproc \<Rightarrow> int \<times> efinix_rproc" where
  "efinix_rproc_parse_fw_shm w load n alloc p =
     (if load \<noteq> 0 then (load, p)
      else let p = shm_writel 0 SHM_REMOTE_READY_OFF p;
               p = shm_writel 0 SHM_KICK_R2L_OFF p;
               p = shm_writel 0 SHM_KICK_L2R_OFF p;
               p = shm_writel CTRL_MSG_NONE SHM_LINUX_CTRL_OFF p;
               (ret, p) = efinix_rproc_hart_start w (remote_hartid p) (bootaddr p) p
           in if ret \<noteq> 0 then (ret, p)
              else let p = p\<lparr>hart_started := True\<rparr>;
                       (ret, p) = poll_ready w (Suc n) p
                   in if ret \<noteq> 0 then (- ETIMEDOUT, p)
                      else if \<not> alloc then (- ENOMEM, p)
                      else (0, add_ev (CopyTable RSC_TABLE_BYTES) (p\<lparr>rsc_table := True\<rparr>)))"

fun stop_loop :: "world \<Rightarrow> nat \<Rightarrow> nat \<Rightarrow> efinix_rproc \<Rightarrow> int \<times> efinix_rproc" where
  "stop_loop w i 0 p = (-1, p)"
| "stop_loop w i (Suc n) p =
     (let (state, p) = efinix_rproc_hart_status w (remote_hartid p) p
      in if state = SBI_HSM_STATE_STOPPED then (0, p)
         else let p = (if i mod 20 = 19 then efinix_rproc_send_ipi w (remote_hartid p) p else p)
              in stop_loop w (Suc i) n p)"

definition efinix_rproc_stop :: "world \<Rightarrow> bool \<Rightarrow> efinix_rproc \<Rightarrow> int \<times> efinix_rproc" where
  "efinix_rproc_stop w use_ipi p =
     (let p = shm_writel 0xFF00FF00 SHM_LINUX_CTRL_OFF p;
          p = efinix_rproc_send_ipi w (remote_hartid p) p;
          (ret, p) = stop_loop w 0 200 p;
          p = efinix_rproc_inbound_stop use_ipi p;
          p = p\<lparr>hart_started := False\<rparr>;
          p = shm_writel CTRL_MSG_NONE SHM_LINUX_CTRL_OFF p
      in (ret, p))"

definition efinix_rproc_kick :: "world \<Rightarrow> efinix_rproc \<Rightarrow> efinix_rproc" where
  "efinix_rproc_kick w p =
     (let (v, p) = shm_readl w SHM_KICK_L2R_OFF p;
          p = shm_writel (v + 1) SHM_KICK_L2R_OFF p
      in efinix_rproc_send_ipi w (remote_hartid p) p)"

text \<open>The offset into the firmware mapping, or \<open>None\<close> for the NULL pointer.\<close>

definition efinix_rproc_da_to_va :: "efinix_rproc \<Rightarrow> u64 \<Rightarrow> u32 \<Rightarrow> u64 option" where
  "efinix_rproc_da_to_va p da len =
     (if da \<ge> ucast (fw_pa p) \<and> da + ucast len \<le> ucast (fw_pa p + fw_size p)
      then Some (da - ucast (fw_pa p)) else None)"

section \<open>Probe and remove\<close>

text \<open>
  What the probe holds at a point: the remoteproc object, the two mappings, the IPI hook
  and the registration with the remoteproc core.
\<close>

datatype rproc_resource = RprocObj | FwMap | ShmMap | IpiHook | Registered

record map_env =
  me_node :: bool
  me_address :: int
  me_start :: u32
  me_size :: u32
  me_ioremap :: bool

record rproc_probe_env =
  pr_alloc :: bool
  pr_hartid :: "int \<times> u32"
  pr_fw :: map_env
  pr_shm :: map_env
  pr_add :: int

definition efinix_rproc_map :: "map_env \<Rightarrow> int \<times> (u32 \<times> u32) option" where
  "efinix_rproc_map e =
     (if \<not> me_node e then (- ENODEV, None)
      else if me_address e \<noteq> 0 then (me_address e, None)
      else if \<not> me_ioremap e then (- ENOMEM, None)
      else (0, Some (me_start e, me_size e)))"

definition acquire :: "'r \<Rightarrow> 'r list \<Rightarrow> 'r list" where
  "acquire r held = r # held"

definition release :: "'r \<Rightarrow> 'r list \<Rightarrow> 'r list" where
  "release r held = remove1 r held"

definition priv_zero :: efinix_rproc where
  "priv_zero = \<lparr>remote_hartid = 0, fw_pa = 0, fw_size = 0, shm_pa = 0, bootaddr = 0,
     hart_started = False, poll_running = False, last_r2l_seen = 0, ipi_active = False,
     ipi_doorbells = 0, inbound_logged = False, rsc_table = False, rlog = []\<rparr>"

definition efinix_rproc_probe ::
  "rproc_probe_env \<Rightarrow> bool \<Rightarrow> int \<times> rproc_resource list \<times> efinix_rproc" where
  "efinix_rproc_probe e use_ipi =
     (let p = priv_zero; held = [];
          err_put = (\<lambda>ret held p. (ret, release RprocObj held, p));
          err_unmap_fw = (\<lambda>ret held p. err_put ret (release FwMap held) p);
          err_unmap_shm = (\<lambda>ret held p. err_unmap_fw ret
            (release ShmMap (if use_ipi then release IpiHook held else held)) p)
      in if \<not> pr_alloc e then (- ENOMEM, held, p)
         else let held = acquire RprocObj held;
                  (ret, hartid) = pr_hartid e
              in if ret \<noteq> 0 then err_put ret held p
                 else case efinix_rproc_map (pr_fw e) of
                        (ret, None) \<Rightarrow> err_put ret held p
                      | (ret, Some (pa, sz)) \<Rightarrow>
                          (let p = p\<lparr>remote_hartid := hartid, fw_pa := pa, fw_size := sz\<rparr>;
                               held = acquire FwMap held
                           in case efinix_rproc_map (pr_shm e) of
                                (ret, None) \<Rightarrow> err_unmap_fw ret held p
                              | (ret, Some (pa, sz)) \<Rightarrow>
                                  (let p = p\<lparr>shm_pa := pa\<rparr>;
                                       held = acquire ShmMap held;
                                       p = shm_writel 0 SHM_KICK_L2R_OFF p;
                                       p = shm_writel 0 SHM_KICK_R2L_OFF p;
                                       held = (if use_ipi then acquire IpiHook held else held)
                                   in if pr_add e \<noteq> 0 then err_unmap_shm (pr_add e) held p
                                      else (0, acquire Registered held, p))))"

definition efinix_rproc_remove ::
  "bool \<Rightarrow> rproc_resource list \<Rightarrow> efinix_rproc \<Rightarrow> rproc_resource list \<times> efinix_rproc" where
  "efinix_rproc_remove use_ipi held p =
     (let held = release Registered held;
          p = efinix_rproc_inbound_stop use_ipi p;
          held = (if use_ipi then release IpiHook held else held);
          held = release ShmMap held;
          held = release FwMap held;
          held = release RprocObj held
      in (held, p))"

section \<open>Probe unwinding\<close>

definition rproc_probe_ok :: "rproc_probe_env \<Rightarrow> bool" where
  "rproc_probe_ok e \<longleftrightarrow> pr_alloc e \<and> fst (pr_hartid e) = 0 \<and> fst (efinix_rproc_map (pr_fw e)) = 0
     \<and> fst (efinix_rproc_map (pr_shm e)) = 0 \<and> pr_add e = 0"

lemma rproc_map_cases:
  obtains (ok) "efinix_rproc_map e = (0, Some (me_start e, me_size e))"
  | (fail) r where "efinix_rproc_map e = (r, None)" "r \<noteq> 0"
  by (cases "me_node e"; cases "me_address e = 0"; cases "me_ioremap e")
    (auto simp: efinix_rproc_map_def)

text \<open>
  C15: A failed probe releases everything it had acquired; a successful one holds the
  remoteproc object, both mappings and the registration (and the IPI hook in IPI mode)
  and leaves both kick counters zero; removing the driver releases all of it.
\<close>

theorem efinix_rproc_probe_resources:
  "case efinix_rproc_probe e use_ipi of (ret, held, p) \<Rightarrow>
     (if rproc_probe_ok e
      then ret = 0 \<and> held = [Registered] @ (if use_ipi then [IpiHook] else []) @ [ShmMap, FwMap, RprocObj]
        \<and> rlog p = [ShmWr SHM_KICK_L2R_OFF 0, ShmWr SHM_KICK_R2L_OFF 0]
        \<and> fst (efinix_rproc_remove use_ipi held q) = []
      else ret \<noteq> 0 \<and> held = [])"
proof (cases rule: rproc_map_cases [of "pr_fw e"])
  case ok
  show ?thesis
    by (cases rule: rproc_map_cases [of "pr_shm e"])
      (auto simp: efinix_rproc_probe_def rproc_probe_ok_def ok acquire_def release_def Let_def split_beta
        shm_writel_def add_ev_def priv_zero_def efinix_rproc_remove_def)
next
  case (fail r)
  then show ?thesis
    by (auto simp: efinix_rproc_probe_def rproc_probe_ok_def acquire_def release_def Let_def split_beta)
qed

section \<open>Address translation\<close>

text \<open>
  For the firmware region and a device address below 2^32, the range of a firmware
  segment is translated exactly when it lies inside the region, and the offset stays
  inside the mapping.
\<close>

theorem efinix_rproc_da_to_va_in_region:
  assumes "unat (fw_pa p) + unat (fw_size p) < 2 ^ 32" and "unat da < 2 ^ 32"
  shows "efinix_rproc_da_to_va p da len =
    (if unat (fw_pa p) \<le> unat da \<and> unat da + unat len \<le> unat (fw_pa p) + unat (fw_size p)
     then Some (da - ucast (fw_pa p)) else None) \<and>
    (unat (fw_pa p) \<le> unat da \<longrightarrow> unat (da - ucast (fw_pa p)) = unat da - unat (fw_pa p))"
proof
  have e: "unat (ucast (fw_pa p + fw_size p) :: u64) = unat (fw_pa p) + unat (fw_size p)"
    using assms(1) by (simp add: unat_ucast_u64 unat_word_ariths)
  have s: "unat (da + ucast len) = unat da + unat len"
    using assms(2) unat_u32_less [of len] by (simp add: unat_word_ariths unat_ucast_u64)
  show "efinix_rproc_da_to_va p da len =
    (if unat (fw_pa p) \<le> unat da \<and> unat da + unat len \<le> unat (fw_pa p) + unat (fw_size p)
     then Some (da - ucast (fw_pa p)) else None)"
    unfolding efinix_rproc_da_to_va_def word_le_nat_alt e s by (simp add: unat_ucast_u64)
  show "unat (fw_pa p) \<le> unat da \<longrightarrow> unat (da - ucast (fw_pa p)) = unat da - unat (fw_pa p)"
    by (simp add: unat_sub word_le_nat_alt unat_ucast_u64)
qed

theorem efinix_rproc_da_to_va_in_region_witness:
  "efinix_rproc_da_to_va (priv_zero\<lparr>fw_pa := 0x1000, fw_size := 0x100\<rparr>) 0x1010 0xF0 = Some 0x10"
  using efinix_rproc_da_to_va_in_region [where p = "priv_zero\<lparr>fw_pa := 0x1000, fw_size := 0x100\<rparr>"
      and da = "0x1010" and len = "0xF0"]
  by simp

section \<open>What the calls add to the log\<close>

lemma add_ev_sel [simp]:
  "rlog (add_ev ev p) = rlog p @ [ev]" "hart_started (add_ev ev p) = hart_started p"
  "last_r2l_seen (add_ev ev p) = last_r2l_seen p" "ipi_active (add_ev ev p) = ipi_active p"
  "poll_running (add_ev ev p) = poll_running p" "remote_hartid (add_ev ev p) = remote_hartid p"
  "rsc_table (add_ev ev p) = rsc_table p" "bootaddr (add_ev ev p) = bootaddr p"
  by (simp_all add: add_ev_def)

lemma shm_access [simp]:
  "shm_readl w off p = (w_shm w (rlog p) off, add_ev (ShmRd off (w_shm w (rlog p) off)) p)"
  "shm_writel v off p = add_ev (ShmWr off v) p"
  "sbi_ecall w call p = (w_sbi w (rlog p) call, add_ev (Ecall call) p)"
  by (simp_all add: shm_readl_def shm_writel_def sbi_ecall_def Let_def)

definition add_evs :: "rproc_log \<Rightarrow> efinix_rproc \<Rightarrow> efinix_rproc" where
  "add_evs k p = p\<lparr>rlog := rlog p @ k\<rparr>"

lemma add_evs_simps [simp]:
  "add_ev ev p = add_evs [ev] p" "add_evs k (add_evs j p) = add_evs (j @ k) p" "add_evs [] p = p"
  "rlog (add_evs k p) = rlog p @ k" "remote_hartid (add_evs k p) = remote_hartid p"
  by (simp_all add: add_evs_def add_ev_def)

definition ipi_to :: "u32 \<Rightarrow> rproc_event" where
  "ipi_to hartid = Ecall (SendIpi (2 ^ unat (hartid mod 32)) (hartid - hartid mod 32))"

lemma send_ipi_eq: "efinix_rproc_send_ipi w hartid p = add_evs [ipi_to hartid] p"
  by (simp add: efinix_rproc_send_ipi_def ipi_to_def push_bit_of_1 del: add_ev_sel)

lemma hart_status_log [simp]:
  "snd (efinix_rproc_hart_status w hartid p) = add_evs [Ecall (HartStatus hartid)] p"
  by (simp add: efinix_rproc_hart_status_def)

section \<open>Kick\<close>

text \<open>
  A kick increments the Linux-to-remote counter, modulo 2^32, and only then rings the
  remote hart: the IPI call names a base and a mask whose single bit, added to the base,
  is the remote hart's id.
\<close>

theorem efinix_rproc_kick_rings_remote:
  "\<exists>v base. v = w_shm w (rlog p) SHM_KICK_L2R_OFF \<and>
     rlog (efinix_rproc_kick w p) = rlog p @
       [ShmRd SHM_KICK_L2R_OFF v, ShmWr SHM_KICK_L2R_OFF (v + 1),
        Ecall (SendIpi (2 ^ (unat (remote_hartid p) mod 32)) base)] \<and>
     unat base + unat (remote_hartid p) mod 32 = unat (remote_hartid p)"
proof -
  let ?h = "remote_hartid p"
  have m: "unat (?h mod 32) = unat ?h mod 32" by (simp add: unat_mod_distrib)
  have "unat (?h - ?h mod 32) = unat ?h - unat ?h mod 32"
    by (subst unat_sub) (simp_all add: word_le_nat_alt m)
  then show ?thesis
    by (intro exI [of _ "w_shm w (rlog p) SHM_KICK_L2R_OFF"] exI [of _ "?h - ?h mod 32"])
      (simp add: efinix_rproc_kick_def send_ipi_eq ipi_to_def m Let_def)
qed

section \<open>Stopping the remote\<close>

definition n_status :: "u32 \<Rightarrow> rproc_log \<Rightarrow> nat" where
  "n_status hartid k = length (filter (\<lambda>e. e = Ecall (HartStatus hartid)) k)"

definition n_ipi :: "u32 \<Rightarrow> rproc_log \<Rightarrow> nat" where
  "n_ipi hartid k = length (filter (\<lambda>e. e = ipi_to hartid) k)"

lemma n_simps [simp]:
  "n_status h [] = 0" "n_ipi h [] = 0"
  "n_status h (j @ k) = n_status h j + n_status h k" "n_ipi h (j @ k) = n_ipi h j + n_ipi h k"
  "n_status h (e # k) = (if e = Ecall (HartStatus h) then 1 else 0) + n_status h k"
  "n_ipi h (e # k) = (if e = ipi_to h then 1 else 0) + n_ipi h k"
  by (auto simp: n_status_def n_ipi_def)

lemma ipi_not_status [simp]: "ipi_to h \<noteq> Ecall (HartStatus h')" "Ecall (HartStatus h') \<noteq> ipi_to h"
  by (simp_all add: ipi_to_def)

text \<open>The hart states the status calls of a log extension answered.\<close>

fun answers :: "world \<Rightarrow> efinix_rproc \<Rightarrow> rproc_log \<Rightarrow> int list" where
  "answers w p [] = []"
| "answers w p (e # k) =
     (if e = Ecall (HartStatus (remote_hartid p))
      then [fst (efinix_rproc_hart_status w (remote_hartid p) p)] else [])
     @ answers w (add_evs [e] p) k"

lemma answers_append [simp]:
  "answers w p (j @ k) = answers w p j @ answers w (add_evs j p) k"
  by (induction w p j rule: answers.induct) auto

lemma answers_length: "length (answers w p k) = n_status (remote_hartid p) k"
  by (induction w p k rule: answers.induct) auto

lemma stop_loop_log:
  "\<exists>ret k. stop_loop w i n p = (ret, add_evs k p) \<and>
     set k \<subseteq> {Ecall (HartStatus (remote_hartid p)), ipi_to (remote_hartid p)} \<and>
     (ret = 0 \<and> (\<exists>as. answers w p k = as @ [SBI_HSM_STATE_STOPPED] \<and>
        SBI_HSM_STATE_STOPPED \<notin> set as \<and> length as < n) \<or>
      ret = - 1 \<and> SBI_HSM_STATE_STOPPED \<notin> set (answers w p k) \<and> length (answers w p k) = n \<and>
        n_ipi (remote_hartid p) k = length (filter (\<lambda>j. j mod 20 = 19) [i..<i + n]))"
proof (induction n arbitrary: i p)
  case 0
  then show ?case by (intro exI [of _ "-1"] exI [of _ "[]"]) simp
next
  case (Suc n)
  let ?h = "remote_hartid p"
  let ?st = "efinix_rproc_hart_status w ?h p"
  show ?case
  proof (cases "fst ?st = SBI_HSM_STATE_STOPPED")
    case True
    then show ?thesis
      by (intro exI [of _ 0] exI [of _ "[Ecall (HartStatus ?h)]"]) (simp add: split_beta)
  next
    case False
    define j where "j = Ecall (HartStatus ?h) # (if i mod 20 = 19 then [ipi_to ?h] else [])"
    have step: "stop_loop w i (Suc n) p = stop_loop w (Suc i) n (add_evs j p)"
      using False by (simp add: split_beta send_ipi_eq j_def)
    have up: "[i..<i + Suc n] = i # [Suc i..<Suc i + n]"
      by (simp add: upt_conv_Cons del: upt_Suc)
    from Suc.IH [of "Suc i" "add_evs j p"] obtain ret k where
      run: "stop_loop w (Suc i) n (add_evs j p) = (ret, add_evs k (add_evs j p))"
      and k: "set k \<subseteq> {Ecall (HartStatus ?h), ipi_to ?h}"
      and post: "ret = 0 \<and> (\<exists>as. answers w (add_evs j p) k = as @ [SBI_HSM_STATE_STOPPED] \<and>
        SBI_HSM_STATE_STOPPED \<notin> set as \<and> length as < n) \<or>
      ret = - 1 \<and> SBI_HSM_STATE_STOPPED \<notin> set (answers w (add_evs j p) k) \<and>
        length (answers w (add_evs j p) k) = n \<and>
        n_ipi ?h k = length (filter (\<lambda>j. j mod 20 = 19) [Suc i..<Suc i + n])"
      by auto
    have j: "answers w p (j @ k) = fst ?st # answers w (add_evs j p) k"
      by (simp add: j_def)
    show ?thesis
      unfolding up
      by (intro exI [of _ ret] exI [of _ "j @ k"], insert step run k post False, unfold j)
        (auto simp: j_def split: if_splits)
  qed
qed

text \<open>
  C31: Stopping always comes to an end: the stop word is published and the remote rung
  first, then at most 200 status calls are made (with the remote rung again after every
  twentieth); the result is 0 exactly when the last status call answered STOPPED and -1
  after 200 other answers.  In both cases the control word is cleared last, the hart is
  marked stopped and inbound kicks are off.
\<close>

theorem efinix_rproc_stop_bounded:
  "\<exists>ret k. fst (efinix_rproc_stop w use_ipi p) = ret \<and>
     rlog (snd (efinix_rproc_stop w use_ipi p)) = rlog p @
       [ShmWr SHM_LINUX_CTRL_OFF 0xFF00FF00, ipi_to (remote_hartid p)] @ k @
       [ShmWr SHM_LINUX_CTRL_OFF CTRL_MSG_NONE] \<and>
     set k \<subseteq> {Ecall (HartStatus (remote_hartid p)), ipi_to (remote_hartid p)} \<and>
     (let q = add_evs [ShmWr SHM_LINUX_CTRL_OFF 0xFF00FF00, ipi_to (remote_hartid p)] p in
      ret = 0 \<and> (\<exists>as. answers w q k = as @ [SBI_HSM_STATE_STOPPED] \<and>
        SBI_HSM_STATE_STOPPED \<notin> set as \<and> length as < 200) \<or>
      ret = - 1 \<and> SBI_HSM_STATE_STOPPED \<notin> set (answers w q k) \<and> length (answers w q k) = 200 \<and>
        n_ipi (remote_hartid p) k = 10) \<and>
     \<not> hart_started (snd (efinix_rproc_stop w use_ipi p)) \<and>
     (if use_ipi then \<not> ipi_active (snd (efinix_rproc_stop w use_ipi p))
      else \<not> poll_running (snd (efinix_rproc_stop w use_ipi p)))"
proof -
  let ?h = "remote_hartid p"
  let ?q = "add_evs [ShmWr SHM_LINUX_CTRL_OFF 0xFF00FF00, ipi_to ?h] p"
  have ten: "length (filter (\<lambda>j. j mod 20 = 19) [0..<0 + 200]) = (10 :: nat)" by code_simp
  obtain ret k where run: "stop_loop w 0 200 ?q = (ret, add_evs k ?q)"
    and k: "set k \<subseteq> {Ecall (HartStatus ?h), ipi_to ?h}"
    and post: "ret = 0 \<and> (\<exists>as. answers w ?q k = as @ [SBI_HSM_STATE_STOPPED] \<and>
        SBI_HSM_STATE_STOPPED \<notin> set as \<and> length as < 200) \<or>
      ret = - 1 \<and> SBI_HSM_STATE_STOPPED \<notin> set (answers w ?q k) \<and> length (answers w ?q k) = 200 \<and>
        n_ipi ?h k = 10"
    using stop_loop_log [of w 0 200 ?q] unfolding ten by auto
  have eq: "efinix_rproc_stop w use_ipi p =
    (ret, add_evs [ShmWr SHM_LINUX_CTRL_OFF CTRL_MSG_NONE]
       ((efinix_rproc_inbound_stop use_ipi (add_evs k ?q))\<lparr>hart_started := False\<rparr>))"
    using run by (simp add: efinix_rproc_stop_def send_ipi_eq Let_def)
  show ?thesis
    unfolding eq Let_def
    by (intro exI [of _ ret] exI [of _ k], insert k, intro conjI post)
      (auto simp: efinix_rproc_inbound_stop_def add_evs_def)
qed

section \<open>Noticing inbound kicks\<close>

text \<open>A handler activated once per element of a list, the counter values it reads, and how
  often they change.\<close>

fun run_all :: "('w \<Rightarrow> 's \<Rightarrow> 's) \<Rightarrow> 'w list \<Rightarrow> 's \<Rightarrow> 's" where
  "run_all f [] s = s"
| "run_all f (w # ws) s = run_all f ws (f w s)"

fun readings :: "('w \<Rightarrow> 's \<Rightarrow> 's) \<Rightarrow> ('w \<Rightarrow> 's \<Rightarrow> u32) \<Rightarrow> 'w list \<Rightarrow> 's \<Rightarrow> u32 list" where
  "readings f c [] s = []"
| "readings f c (w # ws) s = c w s # readings f c ws (f w s)"

fun changes :: "u32 \<Rightarrow> u32 list \<Rightarrow> nat" where
  "changes v [] = 0"
| "changes v (x # xs) = (if x = v then 0 else 1) + changes x xs"

lemma changes_pos: "x \<in> set xs \<Longrightarrow> x \<noteq> v \<Longrightarrow> 0 < changes v xs"
  by (induction xs arbitrary: v) auto

text \<open>
  The contract both notification paths share: a live handler compares the counter it
  reads with the last one it saw and notifies exactly on a change.
\<close>

locale inbound_notifier =
  fixes handle :: "'w \<Rightarrow> 's \<Rightarrow> 's"
    and counter :: "'w \<Rightarrow> 's \<Rightarrow> u32"
    and seen :: "'s \<Rightarrow> u32"
    and notified :: "'s \<Rightarrow> nat"
    and live :: "'s \<Rightarrow> bool"
  assumes handle_new: "live s \<Longrightarrow> counter w s \<noteq> seen s \<Longrightarrow>
      seen (handle w s) = counter w s \<and> notified (handle w s) = Suc (notified s)"
    and handle_same: "live s \<Longrightarrow> counter w s = seen s \<Longrightarrow>
      seen (handle w s) = seen s \<and> notified (handle w s) = notified s"
    and handle_live: "live (handle w s) = live s"
begin

lemma run_all_live: "live (run_all handle ws s) = live s"
  by (induction ws arbitrary: s) (simp_all add: handle_live)

lemma notified_changes:
  "live s \<Longrightarrow> notified (run_all handle ws s) = notified s + changes (seen s) (readings handle counter ws s)
     \<and> seen (run_all handle ws s) = last (seen s # readings handle counter ws s)"
proof (induction ws arbitrary: s)
  case Nil
  then show ?case by simp
next
  case (Cons w ws)
  have "live (handle w s)" using Cons.prems by (simp add: handle_live)
  note IH = Cons.IH [OF this]
  show ?case
  proof (cases "counter w s = seen s")
    case True
    with IH handle_same [OF Cons.prems True] show ?thesis by simp
  next
    case False
    with IH handle_new [OF Cons.prems False] show ?thesis by simp
  qed
qed

lemma no_lost_kick:
  assumes "live s" and "x \<in> set (readings handle counter ws s)" and "x \<noteq> seen s"
  shows "notified s < notified (run_all handle ws s)"
  using notified_changes [OF assms(1), of ws] changes_pos [OF assms(2,3)] by simp

end

definition n_notify :: "efinix_rproc \<Rightarrow> nat" where
  "n_notify p = length (filter (\<lambda>e. e = ScheduleNotify) (rlog p))"

definition r2l_counter :: "world \<Rightarrow> efinix_rproc \<Rightarrow> u32" where
  "r2l_counter w p = w_shm w (rlog p) SHM_KICK_R2L_OFF"

lemma rproc_update_sel [simp]:
  "rlog (p\<lparr>last_r2l_seen := v\<rparr>) = rlog p" "rlog (p\<lparr>ipi_doorbells := n\<rparr>) = rlog p"
  by simp_all

interpretation doorbell: inbound_notifier efinix_rproc_ipi_doorbell r2l_counter
  last_r2l_seen n_notify ipi_active
  by unfold_locales
    (auto simp: efinix_rproc_ipi_doorbell_def r2l_counter_def n_notify_def add_evs_def)

interpretation poller: inbound_notifier efinix_rproc_poll_fn r2l_counter
  last_r2l_seen n_notify "\<lambda>_. True"
  by unfold_locales
    (auto simp: efinix_rproc_poll_fn_def r2l_counter_def n_notify_def add_evs_def)

text \<open>
  C30: Over any sequence of doorbells while the IPI path is active, and over any sequence
  of timer ticks, the virtqueues are scheduled exactly once for every change of the
  remote's kick counter, and the last counter read is remembered: no kick that changes
  the counter goes unnoticed, and no unchanged counter raises an interrupt.
\<close>

theorem inbound_kicks_noticed:
  "(if ipi_active p
    then n_notify (run_all efinix_rproc_ipi_doorbell ws p) =
           n_notify p + changes (last_r2l_seen p) (readings efinix_rproc_ipi_doorbell r2l_counter ws p)
       \<and> last_r2l_seen (run_all efinix_rproc_ipi_doorbell ws p) = last (last_r2l_seen p # readings efinix_rproc_ipi_doorbell r2l_counter ws p)
    else run_all efinix_rproc_ipi_doorbell ws p = p) \<and>
   n_notify (run_all efinix_rproc_poll_fn ws p) =
     n_notify p + changes (last_r2l_seen p) (readings efinix_rproc_poll_fn r2l_counter ws p) \<and>
   last_r2l_seen (run_all efinix_rproc_poll_fn ws p) = last (last_r2l_seen p # readings efinix_rproc_poll_fn r2l_counter ws p)"
proof -
  have off: "run_all efinix_rproc_ipi_doorbell ws p = p" if "\<not> ipi_active p"
    using that by (induction ws) (simp_all add: efinix_rproc_ipi_doorbell_def)
  show ?thesis
    using doorbell.notified_changes [where s = p and ws = ws]
      poller.notified_changes [where s = p and ws = ws] off by simp
qed

section \<open>Loading firmware\<close>

fun awaits_magic :: "u32 list \<Rightarrow> bool" where
  "awaits_magic [] = False"
| "awaits_magic [v] = (v = REMOTE_READY_MAGIC)"
| "awaits_magic (v # vs) = (v \<noteq> REMOTE_READY_MAGIC \<and> awaits_magic vs)"

lemma poll_ready_log:
  "\<exists>r vs. poll_ready w n p = (r, add_evs (map (ShmRd SHM_REMOTE_READY_OFF) vs) p) \<and>
     length vs \<le> Suc n \<and>
     (r = 0 \<and> awaits_magic vs \<or> r = - ETIMEDOUT \<and> REMOTE_READY_MAGIC \<notin> set vs \<and> length vs = Suc n)"
proof (induction n arbitrary: p)
  case 0
  let ?v = "w_shm w (rlog p) SHM_REMOTE_READY_OFF"
  show ?case
    by (intro exI [of _ "if ?v = REMOTE_READY_MAGIC then 0 else - ETIMEDOUT"] exI [of _ "[?v]"])
      (simp add: Let_def)
next
  case (Suc n)
  let ?v = "w_shm w (rlog p) SHM_REMOTE_READY_OFF"
  show ?case
  proof (cases "?v = REMOTE_READY_MAGIC")
    case True
    then show ?thesis by (intro exI [of _ 0] exI [of _ "[?v]"]) (simp add: Let_def)
  next
    case False
    from Suc.IH [of "add_evs [ShmRd SHM_REMOTE_READY_OFF ?v] p"] obtain r vs where
      "poll_ready w n (add_evs [ShmRd SHM_REMOTE_READY_OFF ?v] p) =
         (r, add_evs (map (ShmRd SHM_REMOTE_READY_OFF) vs) (add_evs [ShmRd SHM_REMOTE_READY_OFF ?v] p))"
      and "length vs \<le> Suc n" and "r = 0 \<and> awaits_magic vs \<or>
        r = - ETIMEDOUT \<and> REMOTE_READY_MAGIC \<notin> set vs \<and> length vs = Suc n"
      by blast
    with False show ?thesis
      by (intro exI [of _ r] exI [of _ "?v # vs"]) (auto simp: Let_def neq_Nil_conv elim: awaits_magic.elims)
  qed
qed

lemma hart_start_log:
  "\<exists>r k. efinix_rproc_hart_start w hartid addr p = (r, add_evs k p) \<and>
     (k = [Ecall (HartStatus hartid)] \<and> r = 0 \<or>
      k = [Ecall (HartStatus hartid), Ecall (HartStart hartid addr)])"
  by (auto simp: efinix_rproc_hart_start_def split_beta Let_def)

definition cleared :: rproc_log where
  "cleared = [ShmWr SHM_REMOTE_READY_OFF 0, ShmWr SHM_KICK_R2L_OFF 0, ShmWr SHM_KICK_L2R_OFF 0,
     ShmWr SHM_LINUX_CTRL_OFF CTRL_MSG_NONE]"

lemma add_evs_sel [simp]:
  "bootaddr (add_evs k p) = bootaddr p" "hart_started (add_evs k p) = hart_started p"
  "rsc_table (add_evs k p) = rsc_table p"
  by (simp_all add: add_evs_def)

lemma add_evs_upd [simp]:
  "rsc_table (add_evs k (p\<lparr>hart_started := b\<rparr>)) = rsc_table p"
  by (simp add: add_evs_def)

end
