(* ===== verification/CText.thy ===== *)
theory CText
  imports Prelude
begin

text \<open>
  Text as the C code of the repository handles it: C strings as character lists without their
  terminating NUL, \<open>%d\<close> and \<open>%04d\<close> of printf, bounded copies, and \<open>atoi\<close>.  The main facts are
  that parsing undoes printing and that a printed number is short.
\<close>

section \<open>Decimal output\<close>

text \<open>\<open>sprintf\<close>'s %d on a 32-bit value, which it prints as a signed number.\<close>

fun digits :: "nat \<Rightarrow> string" where
  "digits n = (if n < 10 then [char_of (48 + n)]
               else digits (n div 10) @ [char_of (48 + n mod 10)])"

declare digits.simps [simp del]

definition decimal :: "int \<Rightarrow> string" where
  "decimal i = (if i < 0 then CHR ''-'' # digits (nat (- i)) else digits (nat i))"

text \<open>%04d: at least four characters, padded with zeros on the left.\<close>

definition decimal04 :: "nat \<Rightarrow> string" where
  "decimal04 n = replicate (4 - length (digits n)) CHR ''0'' @ digits n"

lemma digits_length: "n < 10 ^ Suc k \<Longrightarrow> length (digits n) \<le> Suc k"
proof (induction k arbitrary: n)
  case 0
  then show ?case by (simp add: digits.simps)
next
  case (Suc k)
  then have "n div 10 < 10 ^ Suc k" by (simp add: div_less_iff_less_mult mult.commute)
  with Suc.IH [of "n div 10"] show ?case by (subst digits.simps) simp
qed

lemma decimal04_length: "n \<le> 9999 \<Longrightarrow> length (decimal04 n) = 4"
  using digits_length [of n 3] by (simp add: decimal04_def)

section \<open>Strings in buffers\<close>

text \<open>The C string that starts at the beginning of a buffer.\<close>

definition cstr :: "string \<Rightarrow> string" where
  "cstr buf = takeWhile (\<lambda>c. c \<noteq> CHR 0x00) buf"

text \<open>The string left in a buffer of \<open>n\<close> bytes by \<open>snprintf (buf, n, "%s", s)\<close>.\<close>

definition snprintf_str :: "nat \<Rightarrow> string \<Rightarrow> string" where
  "snprintf_str n s = take (n - 1) s"

lemma cstr_append_NUL [simp]: "cstr (s @ CHR 0x00 # r) = cstr s"
  by (induction s) (simp_all add: cstr_def)

lemma cstr_no_NUL: "CHR 0x00 \<notin> set s \<Longrightarrow> cstr s = s"
  by (auto simp: cstr_def takeWhile_eq_all_conv)

lemma cstr_clean: "CHR 0x00 \<notin> set (cstr s)"
  by (auto simp: cstr_def dest: set_takeWhileD)

section \<open>Decimal input\<close>

definition is_digit :: "char \<Rightarrow> bool" where
  "is_digit c \<longleftrightarrow> 48 \<le> (of_char c :: nat) \<and> (of_char c :: nat) \<le> 57"

definition is_space :: "char \<Rightarrow> bool" where
  "is_space c \<longleftrightarrow> c \<in> {CHR '' '', CHR 0x09, CHR 0x0A, CHR 0x0B, CHR 0x0C, CHR 0x0D}"

fun atoi_digits :: "nat \<Rightarrow> string \<Rightarrow> nat" where
  "atoi_digits acc [] = acc"
| "atoi_digits acc (c # s) = (if is_digit c then atoi_digits (acc * 10 + (of_char c - 48)) s else acc)"

text \<open>\<open>atoi\<close>: white space, an optional sign, digits up to the first other character.\<close>

fun atoi_signed :: "string \<Rightarrow> int" where
  "atoi_signed [] = 0"
| "atoi_signed (c # s) =
     (if c = CHR ''-'' then - int (atoi_digits 0 s)
      else if c = CHR ''+'' then int (atoi_digits 0 s)
      else int (atoi_digits 0 (c # s)))"

definition atoi :: "string \<Rightarrow> int" where
  "atoi s = atoi_signed (dropWhile is_space s)"

lemma digit_char:
  assumes "d < 10"
  shows "is_digit (char_of (48 + d :: nat))" "of_char (char_of (48 + d :: nat)) = 48 + d"
  using assms by (simp_all add: is_digit_def)

lemma atoi_digits_digits:
  "atoi_digits a (digits n @ rest) = atoi_digits (a * 10 ^ length (digits n) + n) rest"
proof (induction n arbitrary: a rest rule: digits.induct)
  case (1 n)
  show ?case
  proof (cases "n < 10")
    case True
    then show ?thesis by (simp add: digits.simps [of n] digit_char)
  next
    case False
    have d: "is_digit (char_of (48 + n mod 10))" "of_char (char_of (48 + n mod 10)) - 48 = n mod 10"
      using digit_char [of "n mod 10"] by simp_all
    have "atoi_digits a (digits n @ rest) =
        atoi_digits a (digits (n div 10) @ char_of (48 + n mod 10) # rest)"
      using False by (simp add: digits.simps [of n])
    also have "\<dots> = atoi_digits ((a * 10 ^ length (digits (n div 10)) + n div 10) * 10 + n mod 10) rest"
      using 1 [OF False] d by simp
    also have "\<dots> = atoi_digits (a * 10 ^ length (digits n) + n) rest"
      using False by (simp add: digits.simps [of n] algebra_simps)
    finally show ?thesis .
  qed
qed

lemma atoi_digits_stop: "rest = [] \<or> \<not> is_digit (hd rest) \<Longrightarrow> atoi_digits a rest = a"
  by (cases rest) auto

lemma hd_digits: "digits n \<noteq> [] \<and> is_digit (hd (digits n))"
proof (induction n rule: digits.induct)
  case (1 n)
  then show ?case by (subst (1 2) digits.simps) (auto simp: digit_char)
qed

lemma not_sign_digit: "is_digit c \<Longrightarrow> c \<noteq> CHR ''-'' \<and> c \<noteq> CHR ''+'' \<and> \<not> is_space c"
  by (auto simp: is_digit_def is_space_def)

lemma atoi_decimal:
  assumes "rest = [] \<or> \<not> is_digit (hd rest)"
  shows "atoi (decimal i @ rest) = i"
proof (cases "i < 0")
  case True
  have "\<not> is_space CHR ''-''" by (simp add: is_space_def)
  with True assms show ?thesis
    by (simp add: atoi_def decimal_def atoi_digits_digits atoi_digits_stop)
next
  case False
  obtain c s where d: "digits (nat i) = c # s" "is_digit c" using hd_digits [of "nat i"] by (cases "digits (nat i)") auto
  have "atoi (decimal i @ rest) = int (atoi_digits 0 (digits (nat i) @ rest))"
    using False not_sign_digit [OF d(2)] by (simp add: atoi_def decimal_def d(1))
  also have "\<dots> = i" using False assms by (simp add: atoi_digits_digits atoi_digits_stop)
  finally show ?thesis .
qed

lemma decimal_length: "length (decimal (sint (v :: u32))) \<le> 11"
proof -
  have "- (2 ^ 31) \<le> sint v" "sint v < 2 ^ 31"
    using sint_greater_eq [of v] sint_less [of v] by simp_all
  then have "nat (- sint v) < 10 ^ Suc 9" "nat (sint v) < 10 ^ Suc 9" by simp_all
  from this [THEN digits_length] show ?thesis by (simp add: decimal_def)
qed

lemma atoi_digits_zeros: "atoi_digits 0 (replicate k CHR ''0'' @ s) = atoi_digits 0 s"
  by (induction k) (simp_all add: is_digit_def)

lemma atoi_decimal04:
  assumes "rest = [] \<or> \<not> is_digit (hd rest)"
  shows "atoi (decimal04 n @ rest) = int n"
proof -
  have "decimal04 n \<noteq> []" "is_digit (hd (decimal04 n))"
    using hd_digits [of n] by (cases "4 - length (digits n)"; simp add: decimal04_def is_digit_def)+
  then obtain c s where d: "decimal04 n = c # s" "is_digit c" by (cases "decimal04 n") auto
  have "atoi (decimal04 n @ rest) = int (atoi_digits 0 (decimal04 n @ rest))"
    using not_sign_digit [OF d(2)] by (simp add: atoi_def d(1))
  also have "\<dots> = int n" using assms
    by (simp add: decimal04_def atoi_digits_zeros atoi_digits_digits atoi_digits_stop)
  finally show ?thesis .
qed

text \<open>Printed numbers hold digits and a sign.\<close>

lemma digits_chars: "set (digits n) \<subseteq> {c. is_digit c}"
proof (induction n rule: digits.induct)
  case (1 n)
  then show ?case by (subst digits.simps) (auto simp: digit_char)
qed

lemma decimal_chars: "c \<in> set (decimal v) \<Longrightarrow> is_digit c \<or> c = CHR ''-''"
  using digits_chars by (auto simp: decimal_def split: if_splits)

lemma decimal_clean: "CHR 0x00 \<notin> set (decimal v)" "CHR 0x22 \<notin> set (decimal v)"
  by (auto dest!: decimal_chars simp: is_digit_def)

end
