(* ===== verification/CharDev.thy ===== *)
theory CharDev
  imports Mmio CText
begin

text \<open>
  The two character-device front ends: kernel_modules/apb3/src/apb3.c and
  kernel_modules/evsoc/src/evsoc_main.c.  Both keep a single-open flag, print a register
  as text on read and parse numbers, one per line, on write.  User memory is a list of
  characters; \<open>simple_strtol\<close> of the kernel is the parameter \<open>strtol\<close>; the on-stack
  line buffer has 32 bytes and a store outside it is \<open>None\<close>.
\<close>

section \<open>State and resources\<close>

record char_dev =
  is_open :: int
  module_refs :: int
  clog :: "u32 log"

definition CDEV_BUF :: nat where "CDEV_BUF = 32"

datatype pointer_result = Null | ErrPtr int | Valid

datatype cdev_resource = IoMap | Region | Class | Device | Cdev

record cdev_env =
  ce_region :: int
  ce_class :: pointer_result
  ce_device :: pointer_result
  ce_cdev_add :: int

definition take_if :: "bool \<Rightarrow> 'r \<Rightarrow> 'r list \<Rightarrow> 'r list" where
  "take_if b r held = (if b then r # held else held)"

definition give_back :: "'r \<Rightarrow> 'r list \<Rightarrow> 'r list" where
  "give_back r held = filter (\<lambda>x. x \<noteq> r) held"

section \<open>Text output\<close>

text \<open>
  Formatting into a 32-byte buffer, then the copy loop: the characters copied out, the
  count and the new file offset.
\<close>

definition sprintf_buf :: "string \<Rightarrow> u32 \<Rightarrow> string option" where
  "sprintf_buf prefix v =
     (let s = prefix @ decimal (sint v) in if length s < CDEV_BUF then Some s else None)"

function copy_out :: "string \<Rightarrow> nat \<Rightarrow> nat \<Rightarrow> int \<Rightarrow> string \<Rightarrow> (string \<times> nat \<times> int) option" where
  "copy_out msg nbytes bytes_read offset user =
     (if bytes_read < nbytes \<and> offset < int (length msg) then
        (if offset < 0 then None
         else copy_out msg nbytes (bytes_read + 1) (offset + 1) (user @ [msg ! nat offset]))
      else Some (user, bytes_read, offset))"
  by pat_completeness auto
termination
  by (relation "measure (\<lambda>(msg, nbytes, bytes_read, offset, user). nbytes - bytes_read)") auto

declare copy_out.simps [simp del]

section \<open>Line input\<close>

text \<open>
  The write loop over the characters not yet read.  \<open>line\<close> holds the first \<open>len_in\<close>
  characters of \<open>msg_in\<close>; the loop stores a character at \<open>len_in\<close> and a NUL behind it.
\<close>

fun write_loop ::
  "(string \<Rightarrow> u32) \<Rightarrow> u32 \<Rightarrow> string \<Rightarrow> string \<Rightarrow> int \<Rightarrow> u32 log \<Rightarrow> (int \<times> u32 log) option" where
  "write_loop strtol reg [] line offset h = Some (offset, h)"
| "write_loop strtol reg (ch # imsg) line offset h =
     (if length line + 1 < CDEV_BUF then
        (if ch = CHR 0x0A
         then let value = strtol line;
                  h = writel (0 OR value) reg h
              in write_loop strtol reg imsg [] (offset + 1) h
         else write_loop strtol reg imsg (line @ [ch]) (offset + 1) h)
      else None)"

section \<open>The APB3 device\<close>

definition apb3_read ::
  "u32 device \<Rightarrow> nat \<Rightarrow> int \<Rightarrow> char_dev \<Rightarrow> (string \<times> nat \<times> int \<times> char_dev) option" where
  "apb3_read d nbytes offset s =
     (let (randnum, h) = readl d 0 (clog s); s = s\<lparr>clog := h\<rparr> in do {
        msg_out \<leftarrow> sprintf_buf ''random number :'' randnum;
        (user, bytes_read, offset) \<leftarrow> copy_out msg_out nbytes 0 offset [];
        Some (user, bytes_read, offset, s)
      })"

definition apb3_write ::
  "(string \<Rightarrow> u32) \<Rightarrow> string \<Rightarrow> int \<Rightarrow> char_dev \<Rightarrow> (int \<times> int \<times> char_dev) option" where
  "apb3_write strtol imsg offset s = do {
     (offset, h) \<leftarrow> write_loop strtol 4 imsg [] offset (clog s);
     Some (0, offset, s\<lparr>clog := h\<rparr>)
   }"

definition apb3_open :: "char_dev \<Rightarrow> int \<times> char_dev" where
  "apb3_open s =
     (if is_open s = 1 then (- EBUSY, s)
      else (0, s\<lparr>is_open := 1, module_refs := module_refs s + 1\<rparr>))"

definition apb3_release :: "char_dev \<Rightarrow> int \<times> char_dev" where
  "apb3_release s =
     (if is_open s = 0 then (- EBUSY, s)
      else (0, s\<lparr>is_open := 0, module_refs := module_refs s - 1\<rparr>))"

definition apb3_init :: "cdev_env \<Rightarrow> int \<times> cdev_resource list" where
  "apb3_init e =
     (let held = take_if True IoMap [] in
      if ce_region e < 0 then (- EBUSY, held)
      else let held = take_if True Region held in
      if ce_class e = Null then (- EBUSY, give_back Region held)
      else let held = take_if (ce_class e = Valid) Class held in
      if ce_device e = Null then (- EBUSY, give_back Region (give_back Class held))
      else let held = take_if (ce_device e = Valid) Device held in
      if ce_cdev_add e = - 1
      then (- EBUSY, give_back Region (give_back Class (give_back Device held)))
      else (0, take_if (ce_cdev_add e = 0) Cdev held))"

definition apb3_exit :: "cdev_resource list \<Rightarrow> cdev_resource list" where
  "apb3_exit held = give_back Region (give_back Class (give_back Device (give_back Cdev held)))"

section \<open>The EVSOC device\<close>

definition evsoc_read ::
  "u32 device \<Rightarrow> nat \<Rightarrow> int \<Rightarrow> char_dev \<Rightarrow> (string \<times> nat \<times> int \<times> char_dev) option" where
  "evsoc_read d nbytes offset s =
     (let (randnum, h) = readl d 0 (clog s); s = s\<lparr>clog := h\<rparr> in do {
        msg_out \<leftarrow> sprintf_buf ''random number 1 :'' randnum;
        (user, bytes_read, offset) \<leftarrow> copy_out msg_out nbytes 0 offset [];
        Some (user, bytes_read, offset, s)
      })"

definition evsoc_write ::
  "(string \<Rightarrow> u32) \<Rightarrow> string \<Rightarrow> int \<Rightarrow> char_dev \<Rightarrow> (int \<times> int \<times> char_dev) option" where
  "evsoc_write strtol imsg offset s = do {
     (offset, h) \<leftarrow> write_loop strtol 4 imsg [] offset (clog s);
     Some (0, offset, s\<lparr>clog := h\<rparr>)
   }"

definition evsoc_open :: "char_dev \<Rightarrow> int \<times> char_dev" where
  "evsoc_open s =
     (if is_open s = 1 then (- EBUSY, s)
      else (0, s\<lparr>is_open := 1, module_refs := module_refs s + 1\<rparr>))"

definition evsoc_release :: "char_dev \<Rightarrow> int \<times> char_dev" where
  "evsoc_release s =
     (if is_open s = 0 then (- EBUSY, s)
      else (0, s\<lparr>is_open := 0, module_refs := module_refs s - 1\<rparr>))"

text \<open>Behind the registrations \<open>evsoc_init\<close> calls \<open>my_init\<close> and \<open>main_init\<close>, whose results it
  does not look at.\<close>

definition evsoc_init :: "cdev_env \<Rightarrow> int \<times> cdev_resource list" where
  "evsoc_init e =
     (let held = take_if True IoMap [] in
      if ce_region e < 0 then (- EBUSY, held)
      else let held = take_if True Region held in
      if ce_class e = Null then (- EBUSY, give_back Region held)
      else let held = take_if (ce_class e = Valid) Class held in
      if ce_device e = Null then (- EBUSY, give_back Region (give_back Class held))
      else let held = take_if (ce_device e = Valid) Device held in
      if ce_cdev_add e = - 1
      then (- EBUSY, give_back Region (give_back Class (give_back Device held)))
      else (0, take_if (ce_cdev_add e = 0) Cdev held))"

definition evsoc_exit :: "cdev_resource list \<Rightarrow> cdev_resource list" where
  "evsoc_exit held = give_back Region (give_back Class (give_back Device (give_back Cdev held)))"

text \<open>\<open>main_proc\<close> gives whether the command was carried out.\<close>

definition DEMO_MAGIC :: nat where "DEMO_MAGIC = 0x68"

definition evsoc_ioctl ::
  "(u32 \<Rightarrow> 'a \<Rightarrow> 's \<Rightarrow> (bool \<times> 's) option) \<Rightarrow> u32 \<Rightarrow> 'a \<Rightarrow> 's \<Rightarrow> (int \<times> 's) option" where
  "evsoc_ioctl main_proc cmd arg s =
     (if unat (drop_bit 8 cmd AND 0xFF) \<noteq> DEMO_MAGIC then Some (- ENOTTY, s)
      else do { (ok, s) \<leftarrow> main_proc cmd arg s; Some (if ok then 0 else - EFAULT, s) })"

section \<open>Reading\<close>

lemma copy_out_take:
  assumes "offset \<ge> 0" and "bytes_read \<le> nbytes"
  shows "copy_out msg nbytes bytes_read offset user =
     (let out = take (nbytes - bytes_read) (drop (nat offset) msg)
      in Some (user @ out, bytes_read + length out, offset + int (length out)))"
  using assms
proof (induction msg nbytes bytes_read offset user rule: copy_out.induct)
  case (1 msg nbytes bytes_read offset user)
  show ?case
  proof (cases "bytes_read < nbytes \<and> offset < int (length msg)")
    case False
    with "1.prems" show ?thesis
      by (subst copy_out.simps) (auto simp: Let_def)
  next
    case True
    with "1.prems" have "nat offset < length msg" and more: "nbytes - bytes_read = Suc (nbytes - (bytes_read + 1))"
      and off: "nat (offset + 1) = Suc (nat offset)"
      by auto
    then have d: "drop (nat offset) msg = msg ! nat offset # drop (Suc (nat offset)) msg"
      by (simp add: Cons_nth_drop_Suc)
    have "copy_out msg nbytes bytes_read offset user =
        copy_out msg nbytes (bytes_read + 1) (offset + 1) (user @ [msg ! nat offset])"
      using True "1.prems" by (subst copy_out.simps) simp
    then show ?thesis
      using "1.IH" True "1.prems" unfolding more d off by (auto simp: Let_def off)
  qed
qed

text \<open>
  Reading either device never overruns the 32-byte format buffer, whatever the
  register holds, and returns the part of the formatted text (prefix and signed decimal
  value) that starts at the file offset and fits in the user buffer, advancing the offset
  by its length.
\<close>

theorem cdev_read_text:
  "apb3_read d nbytes (int off) s =
     (let text = take nbytes (drop off (''random number :'' @ decimal (sint (d (clog s) 0))))
      in Some (text, length text, int (off + length text),
               s\<lparr>clog := clog s @ [Rd 0 (d (clog s) 0)]\<rparr>)) \<and>
   evsoc_read d nbytes (int off) s =
     (let text = take nbytes (drop off (''random number 1 :'' @ decimal (sint (d (clog s) 0))))
      in Some (text, length text, int (off + length text),
               s\<lparr>clog := clog s @ [Rd 0 (d (clog s) 0)]\<rparr>))"
  using decimal_length [of "d (clog s) 0"]
  by (auto simp: apb3_read_def evsoc_read_def sprintf_buf_def CDEV_BUF_def copy_out_take Let_def
      split_beta)

section \<open>Writing\<close>

text \<open>The complete lines of an input that continues \<open>line\<close>, and the unfinished rest.\<close>

fun split_lines :: "string \<Rightarrow> string \<Rightarrow> string list \<times> string" where
  "split_lines line [] = ([], line)"
| "split_lines line (ch # cs) =
     (if ch = CHR 0x0A then (let (ls, r) = split_lines [] cs in (line # ls, r))
      else split_lines (line @ [ch]) cs)"

definition lines_fit :: "string list \<times> string \<Rightarrow> bool" where
  "lines_fit lr \<longleftrightarrow> (\<forall>l \<in> set (fst lr). length l \<le> 30) \<and> length (snd lr) \<le> 31"

lemma lines_fit_Cons [simp]: "lines_fit (l # ls, r) \<longleftrightarrow> length l \<le> 30 \<and> lines_fit (ls, r)"
  by (auto simp: lines_fit_def)

lemma long_line_no_fit: "31 < length line \<Longrightarrow> \<not> lines_fit (split_lines line cs)"
  by (induction line cs rule: split_lines.induct) (auto simp: lines_fit_def split_beta)

lemma write_loop_lines:
  "length line \<le> 31 \<Longrightarrow> write_loop strtol reg imsg line offset h =
     (if lines_fit (split_lines line imsg)
      then Some (offset + int (length imsg), h @ map (\<lambda>l. Wr reg (strtol l)) (fst (split_lines line imsg)))
      else None)"
proof (induction strtol reg imsg line offset h rule: write_loop.induct)
  case (1 strtol reg line offset h)
  then show ?case by (simp add: lines_fit_def)
next
  case (2 strtol reg ch imsg line offset h)
  show ?case
  proof (cases "length line \<le> 30")
    case True
    with 2 show ?thesis
      by (cases "split_lines [] imsg") (auto simp: CDEV_BUF_def writel_def Let_def)
  next
    case False
    then have no: "\<not> lines_fit (split_lines (line @ [ch]) imsg)"
      by (intro long_line_no_fit) simp
    from False no show ?thesis
      by (cases "split_lines [] imsg") (simp add: CDEV_BUF_def)
  qed
qed

text \<open>
  A write stays inside the 32-byte line buffer exactly when every line is at most 30
  characters (31 for an unfinished last one); then the value of each complete line, and
  nothing else, is written to the register at offset 4 in order, the offset moves by the
  number of characters, and the call returns 0.
\<close>

theorem cdev_write_lines:
  "apb3_write strtol imsg offset s =
     (if lines_fit (split_lines [] imsg)
      then Some (0, offset + int (length imsg),
             s\<lparr>clog := clog s @ map (\<lambda>l. Wr 4 (strtol l)) (fst (split_lines [] imsg))\<rparr>)
      else None) \<and>
   evsoc_write strtol imsg offset s = apb3_write strtol imsg offset s"
  by (simp add: apb3_write_def evsoc_write_def write_loop_lines)

section \<open>Single open\<close>

datatype file_call = Open | Release

fun run_calls ::
  "('s \<Rightarrow> int \<times> 's) \<Rightarrow> ('s \<Rightarrow> int \<times> 's) \<Rightarrow> file_call list \<Rightarrow> 's \<Rightarrow> (file_call \<times> int) list \<times> 's" where
  "run_calls opn rel [] s = ([], s)"
| "run_calls opn rel (c # cs) s =
     (let (r, s) = (if c = Open then opn s else rel s);
          (rs, s) = run_calls opn rel cs s
      in ((c, r) # rs, s))"

text \<open>A well-nested answer list: while open, an open is refused; while closed, a release is.\<close>

fun exclusive :: "bool \<Rightarrow> (file_call \<times> int) list \<Rightarrow> bool" where
  "exclusive held [] = True"
| "exclusive held ((Open, r) # rs) =
     ((if held then r = - EBUSY else r = 0) \<and> exclusive True rs)"
| "exclusive held ((Release, r) # rs) =
     ((if held then r = 0 else r = - EBUSY) \<and> exclusive False rs)"

locale exclusive_device =
  fixes opn rel :: "'s \<Rightarrow> int \<times> 's"
    and held :: "'s \<Rightarrow> bool" and refs :: "'s \<Rightarrow> int" and ok :: "'s \<Rightarrow> bool"
  assumes opn_free: "ok s \<Longrightarrow> \<not> held s \<Longrightarrow> fst (opn s) = 0 \<and> held (snd (opn s)) \<and>
      refs (snd (opn s)) = refs s + 1 \<and> ok (snd (opn s))"
    and opn_busy: "ok s \<Longrightarrow> held s \<Longrightarrow> opn s = (- EBUSY, s)"
    and rel_held: "ok s \<Longrightarrow> held s \<Longrightarrow> fst (rel s) = 0 \<and> \<not> held (snd (rel s)) \<and>
      refs (snd (rel s)) = refs s - 1 \<and> ok (snd (rel s))"
    and rel_free: "ok s \<Longrightarrow> \<not> held s \<Longrightarrow> rel s = (- EBUSY, s)"
begin

lemma run_exclusive:
  "ok s \<Longrightarrow> exclusive (held s) (fst (run_calls opn rel cs s)) \<and>
     ok (snd (run_calls opn rel cs s)) \<and>
     refs (snd (run_calls opn rel cs s)) - of_bool (held (snd (run_calls opn rel cs s)))
       = refs s - of_bool (held s)"
proof (induction cs arbitrary: s)
  case Nil
  then show ?case by simp
next
  case (Cons c cs)
  show ?case
  proof (cases c)
    case Open
    show ?thesis
      using Cons.IH [of "snd (opn s)"] Cons.prems opn_free [of s] opn_busy [of s] Open
      by (cases "held s") (auto simp: split_beta Let_def)
  next
    case Release
    show ?thesis
      using Cons.IH [of "snd (rel s)"] Cons.prems rel_held [of s] rel_free [of s] Release
      by (cases "held s") (auto simp: split_beta Let_def)
  qed
qed

end

interpretation apb3: exclusive_device apb3_open apb3_release
  "\<lambda>s. is_open s = 1" module_refs "\<lambda>s. is_open s = 0 \<or> is_open s = 1"
  by unfold_locales (auto simp: apb3_open_def apb3_release_def)

interpretation evsoc: exclusive_device evsoc_open evsoc_release
  "\<lambda>s. is_open s = 1" module_refs "\<lambda>s. is_open s = 0 \<or> is_open s = 1"
  by unfold_locales (auto simp: evsoc_open_def evsoc_release_def)

definition closed_dev :: "u32 log \<Rightarrow> char_dev" where
  "closed_dev h = \<lparr>is_open = 0, module_refs = 0, clog = h\<rparr>"

text \<open>
  Over any sequence of open and release calls on a freshly loaded driver, at most one
  open is in force: every open while open and every release while closed is refused with
  -EBUSY, every other call succeeds, and the module's reference count is 1 while open and
  0 otherwise.  Both drivers have the property.
\<close>

theorem cdev_single_open:
  "exclusive False (fst (run_calls apb3_open apb3_release cs (closed_dev h))) \<and>
   module_refs (snd (run_calls apb3_open apb3_release cs (closed_dev h))) =
     of_bool (is_open (snd (run_calls apb3_open apb3_release cs (closed_dev h))) = 1) \<and>
   exclusive False (fst (run_calls evsoc_open evsoc_release cs (closed_dev h))) \<and>
   module_refs (snd (run_calls evsoc_open evsoc_release cs (closed_dev h))) =
     of_bool (is_open (snd (run_calls evsoc_open evsoc_release cs (closed_dev h))) = 1)"
  using apb3.run_exclusive [of "closed_dev h" cs] evsoc.run_exclusive [of "closed_dev h" cs]
  by (simp add: closed_dev_def)

section \<open>Loading\<close>

text \<open>
  A load that reports failure has given back the device number, class and device
  node it had made (the register mapping alone stays); a load reports success for every
  class or node that is not NULL and for every \<open>cdev_add\<close> result but -1, so it can succeed
  with the character device not registered.  Unloading gives back everything but the
  mapping.
\<close>

theorem cdev_init_unwinds:
  "(if ce_region e < 0 \<or> ce_class e = Null \<or> ce_device e = Null \<or> ce_cdev_add e = - 1
    then apb3_init e = (- EBUSY, [IoMap])
    else fst (apb3_init e) = 0 \<and>
      set (snd (apb3_init e)) = {IoMap, Region} \<union> {Class |_. ce_class e = Valid}
        \<union> {Device |_. ce_device e = Valid} \<union> {Cdev |_. ce_cdev_add e = 0}) \<and>
   apb3_exit (snd (apb3_init e)) = [IoMap] \<and>
   evsoc_init e = apb3_init e \<and> evsoc_exit (snd (evsoc_init e)) = [IoMap]"
  by (cases "ce_class e"; cases "ce_device e")
    (auto simp: apb3_init_def evsoc_init_def apb3_exit_def evsoc_exit_def take_if_def give_back_def Let_def)

end
