(* ===== verification/EvsocIo.thy ===== *)
theory EvsocIo
  imports Mmio
begin

text \<open>
  Physical addresses and register access of the edge-vision module:
  kernel_modules/evsoc/src/soc.h (the address map of the SoC), my_imp.c (the four
  peripheral windows, the decode macro \<open>my_addr_pt\<close> and the \<open>read_u32\<close>/\<open>write_u32\<close>
  family) and apb3_cam.h.  A register is a location of type \<open>iomem\<close>: a window and the
  offset in it, or \<open>NullIo\<close> for the pointer 0 the macro yields for an address in no
  window; an access at \<open>NullIo\<close> is a fault of the driver.
\<close>

section \<open>Address map\<close>

definition SYSTEM_PLIC_CTRL :: u32 where [regs]: "SYSTEM_PLIC_CTRL = 0xf8c00000"
definition SYSTEM_PLIC_CTRL_SIZE :: u32 where [regs]: "SYSTEM_PLIC_CTRL_SIZE = 0x400000"
definition SYSTEM_CLINT_CTRL :: u32 where [regs]: "SYSTEM_CLINT_CTRL = 0xf8b00000"
definition SYSTEM_CLINT_CTRL_SIZE :: u32 where [regs]: "SYSTEM_CLINT_CTRL_SIZE = 0x10000"
definition SYSTEM_CLINT_HZ :: u32 where [regs]: "SYSTEM_CLINT_HZ = 200000000"
definition SYSTEM_I2C_0_IO_CTRL_SIZE :: u32 where [regs]: "SYSTEM_I2C_0_IO_CTRL_SIZE = 0x100"
definition SYSTEM_I2C_0_IO_CTRL :: u32 where [regs]: "SYSTEM_I2C_0_IO_CTRL = 0xe8020000"
definition SYSTEM_I2C_1_IO_CTRL_SIZE :: u32 where [regs]: "SYSTEM_I2C_1_IO_CTRL_SIZE = 0x100"
definition SYSTEM_I2C_1_IO_CTRL :: u32 where [regs]: "SYSTEM_I2C_1_IO_CTRL = 0xe8021000"
definition IO_APB_SLAVE_0_INPUT_SIZE :: u32 where [regs]: "IO_APB_SLAVE_0_INPUT_SIZE = 65536"
definition IO_APB_SLAVE_0_INPUT :: u32 where [regs]: "IO_APB_SLAVE_0_INPUT = 0xe8100000"
definition SYSTEM_GPIO_0_IO_CTRL_SIZE :: u32 where [regs]: "SYSTEM_GPIO_0_IO_CTRL_SIZE = 0x100"
definition SYSTEM_GPIO_0_IO_CTRL :: u32 where [regs]: "SYSTEM_GPIO_0_IO_CTRL = 0xe8040000"
definition IO_APB_SLAVE_2_INPUT_SIZE :: u32 where [regs]: "IO_APB_SLAVE_2_INPUT_SIZE = 4096"
definition IO_APB_SLAVE_2_INPUT :: u32 where [regs]: "IO_APB_SLAVE_2_INPUT = 0xe8300000"
definition SYSTEM_SPI_0_IO_CTRL_SIZE :: u32 where [regs]: "SYSTEM_SPI_0_IO_CTRL_SIZE = 0x1000"
definition SYSTEM_SPI_0_IO_CTRL :: u32 where [regs]: "SYSTEM_SPI_0_IO_CTRL = 0xe8030000"
definition SYSTEM_UART_0_IO_CTRL_SIZE :: u32 where [regs]: "SYSTEM_UART_0_IO_CTRL_SIZE = 0x40"
definition SYSTEM_UART_0_IO_CTRL :: u32 where [regs]: "SYSTEM_UART_0_IO_CTRL = 0xe8010000"
definition IO_APB_SLAVE_1_INPUT_SIZE :: u32 where [regs]: "IO_APB_SLAVE_1_INPUT_SIZE = 4096"
definition IO_APB_SLAVE_1_INPUT :: u32 where [regs]: "IO_APB_SLAVE_1_INPUT = 0xe8200000"
definition SYSTEM_AXI_SLAVE_1_IO_CTRL :: u32 where [regs]: "SYSTEM_AXI_SLAVE_1_IO_CTRL = 0xe9000000"
definition SYSTEM_AXI_SLAVE_1_IO_CTRL_SIZE :: u32 where [regs]: "SYSTEM_AXI_SLAVE_1_IO_CTRL_SIZE = 0x10000"
definition SYSTEM_AXI_SLAVE_2_IO_CTRL :: u32 where [regs]: "SYSTEM_AXI_SLAVE_2_IO_CTRL = 0xe9100000"
definition SYSTEM_AXI_SLAVE_2_IO_CTRL_SIZE :: u32 where [regs]: "SYSTEM_AXI_SLAVE_2_IO_CTRL_SIZE = 0x10000"
definition SYSTEM_AXI_SLAVE_3_IO_CTRL :: u32 where [regs]: "SYSTEM_AXI_SLAVE_3_IO_CTRL = 0xe9200000"
definition SYSTEM_AXI_SLAVE_3_IO_CTRL_SIZE :: u32 where [regs]: "SYSTEM_AXI_SLAVE_3_IO_CTRL_SIZE = 0x10000"

text \<open>The build is for the hardened SoC (\<open>SYSTEM_HARD_RISCV_QC32\<close> is 1).\<close>

definition ADR_I2C_CTRL_MIPI :: u32 where [regs]: "ADR_I2C_CTRL_MIPI = SYSTEM_I2C_0_IO_CTRL"
definition ADR_EXAMPLE_APB_SLV :: u32 where [regs]: "ADR_EXAMPLE_APB_SLV = IO_APB_SLAVE_1_INPUT"
definition ADR_DMASG_BASE :: u32 where [regs]: "ADR_DMASG_BASE = IO_APB_SLAVE_0_INPUT"
definition ADR_EXAMPLE_AXI_SLV :: u32 where [regs]: "ADR_EXAMPLE_AXI_SLV = SYSTEM_AXI_SLAVE_3_IO_CTRL"

definition SZ_4K :: u32 where [regs]: "SZ_4K = 0x1000"
definition SZ_64K :: u32 where [regs]: "SZ_64K = 0x10000"

section \<open>Decode and access\<close>

datatype iomem = I2cIo u32 | ApbIo u32 | AxiIo u32 | DmaIo u32 | NullIo

type_synonym iolog = "iomem log"

definition my_addr_pt :: "u32 \<Rightarrow> iomem" where
  "my_addr_pt addr =
     (if addr \<ge> ADR_I2C_CTRL_MIPI \<and> addr < ADR_I2C_CTRL_MIPI + SZ_4K
      then I2cIo (addr - ADR_I2C_CTRL_MIPI)
      else if addr \<ge> ADR_EXAMPLE_APB_SLV \<and> addr < ADR_EXAMPLE_APB_SLV + SZ_64K
      then ApbIo (addr - ADR_EXAMPLE_APB_SLV)
      else if addr \<ge> ADR_EXAMPLE_AXI_SLV \<and> addr < ADR_EXAMPLE_AXI_SLV + SZ_64K
      then AxiIo (addr - ADR_EXAMPLE_AXI_SLV)
      else if addr \<ge> ADR_DMASG_BASE \<and> addr < ADR_DMASG_BASE + SZ_64K
      then DmaIo (addr - ADR_DMASG_BASE)
      else NullIo)"

definition read_u32 :: "iomem device \<Rightarrow> u32 \<Rightarrow> iolog \<Rightarrow> u32 \<times> iolog" where
  "read_u32 d address h = readl d (my_addr_pt address) h"

definition write_u32 :: "u32 \<Rightarrow> u32 \<Rightarrow> iolog \<Rightarrow> iolog" where
  "write_u32 data address h = writel data (my_addr_pt address) h"

definition write_u32_ad :: "u32 \<Rightarrow> u32 \<Rightarrow> iolog \<Rightarrow> iolog" where
  "write_u32_ad address data h = writel data (my_addr_pt address) h"

text \<open>The 16 and 8 bit accesses, which nothing calls, have a log of their own.\<close>

datatype narrow_access = Rd16 iomem u16 | Wr16 iomem u16 | Rd8 iomem u8 | Wr8 iomem u8

definition read_u16 :: "(narrow_access list \<Rightarrow> iomem \<Rightarrow> u16) \<Rightarrow> u32 \<Rightarrow> narrow_access list \<Rightarrow> u16 \<times> narrow_access list" where
  "read_u16 d address h = (let a = my_addr_pt address in (d h a, h @ [Rd16 a (d h a)]))"

definition write_u16 :: "u16 \<Rightarrow> u32 \<Rightarrow> narrow_access list \<Rightarrow> narrow_access list" where
  "write_u16 data address h = h @ [Wr16 (my_addr_pt address) data]"

definition read_u8 :: "(narrow_access list \<Rightarrow> iomem \<Rightarrow> u8) \<Rightarrow> u32 \<Rightarrow> narrow_access list \<Rightarrow> u8 \<times> narrow_access list" where
  "read_u8 d address h = (let a = my_addr_pt address in (d h a, h @ [Rd8 a (d h a)]))"

definition write_u8 :: "u8 \<Rightarrow> u32 \<Rightarrow> narrow_access list \<Rightarrow> narrow_access list" where
  "write_u8 data address h = h @ [Wr8 (my_addr_pt address) data]"

section \<open>The camera's APB registers\<close>

definition EXAMPLE_APB3_SLV :: u32 where [regs]: "EXAMPLE_APB3_SLV = IO_APB_SLAVE_1_INPUT"
definition EXAMPLE_APB3_SLV_REG0_OFFSET :: u32 where [regs]: "EXAMPLE_APB3_SLV_REG0_OFFSET = 0"
definition EXAMPLE_APB3_SLV_REG1_OFFSET :: u32 where [regs]: "EXAMPLE_APB3_SLV_REG1_OFFSET = 4"
definition EXAMPLE_APB3_SLV_REG2_OFFSET :: u32 where [regs]: "EXAMPLE_APB3_SLV_REG2_OFFSET = 8"
definition EXAMPLE_APB3_SLV_REG3_OFFSET :: u32 where [regs]: "EXAMPLE_APB3_SLV_REG3_OFFSET = 12"
definition EXAMPLE_APB3_SLV_REG4_OFFSET :: u32 where [regs]: "EXAMPLE_APB3_SLV_REG4_OFFSET = 16"
definition EXAMPLE_APB3_SLV_REG5_OFFSET :: u32 where [regs]: "EXAMPLE_APB3_SLV_REG5_OFFSET = 20"
definition EXAMPLE_APB3_SLV_REG6_OFFSET :: u32 where [regs]: "EXAMPLE_APB3_SLV_REG6_OFFSET = 24"
definition EXAMPLE_APB3_SLV_REG7_OFFSET :: u32 where [regs]: "EXAMPLE_APB3_SLV_REG7_OFFSET = 28"
definition EXAMPLE_APB3_SLV_REG8_OFFSET :: u32 where [regs]: "EXAMPLE_APB3_SLV_REG8_OFFSET = 32"
definition EXAMPLE_APB3_SLV_REG9_OFFSET :: u32 where [regs]: "EXAMPLE_APB3_SLV_REG9_OFFSET = 36"
definition EXAMPLE_APB3_SLV_REG10_OFFSET :: u32 where [regs]: "EXAMPLE_APB3_SLV_REG10_OFFSET = 40"
definition EXAMPLE_APB3_SLV_REG11_OFFSET :: u32 where [regs]: "EXAMPLE_APB3_SLV_REG11_OFFSET = 44"
definition EXAMPLE_APB3_SLV_REG12_OFFSET :: u32 where [regs]: "EXAMPLE_APB3_SLV_REG12_OFFSET = 48"
definition EXAMPLE_APB3_SLV_REG13_OFFSET :: u32 where [regs]: "EXAMPLE_APB3_SLV_REG13_OFFSET = 52"

definition EXAMPLE_APB3_REGW :: "u32 \<Rightarrow> u32 \<Rightarrow> u32 \<Rightarrow> iolog \<Rightarrow> iolog" where
  "EXAMPLE_APB3_REGW addr offset data h = write_u32 data (addr + offset) h"

definition EXAMPLE_APB3_REGR :: "iomem device \<Rightarrow> u32 \<Rightarrow> u32 \<Rightarrow> iolog \<Rightarrow> u32 \<times> iolog" where
  "EXAMPLE_APB3_REGR d addr offset h = read_u32 d (addr + offset) h"

definition example_register_read :: "iomem device \<Rightarrow> u16 \<Rightarrow> iolog \<Rightarrow> u32 \<times> iolog" where
  "example_register_read d reg h = EXAMPLE_APB3_REGR d EXAMPLE_APB3_SLV (ucast reg) h"

definition Set_RGBGain :: "u8 \<Rightarrow> u8 \<Rightarrow> u8 \<Rightarrow> u8 \<Rightarrow> iolog \<Rightarrow> iolog" where
  "Set_RGBGain ena R G B h =
     (let data = push_bit 12 (ucast (B AND 0x7)) OR push_bit 8 (ucast (G AND 0x7))
                   OR push_bit 4 (ucast (R AND 0x7)) OR ucast (ena AND 0x1)
      in EXAMPLE_APB3_REGW EXAMPLE_APB3_SLV EXAMPLE_APB3_SLV_REG0_OFFSET data h)"

definition Set_MipiRst :: "u8 \<Rightarrow> iolog \<Rightarrow> iolog" where
  "Set_MipiRst rst h =
     EXAMPLE_APB3_REGW EXAMPLE_APB3_SLV EXAMPLE_APB3_SLV_REG1_OFFSET (ucast (rst AND 0x01)) h"

section \<open>Properties of the decode\<close>

lemma in_window: "(a :: u32) \<le> a + s \<Longrightarrow> off < s \<and> x = a + off \<longleftrightarrow> (a \<le> x \<and> x < a + s) \<and> off = x - a"
  by (auto simp: u32_window)

lemma window_disjoint:
  "(a :: u32) + s \<le> b \<or> b + t \<le> a \<Longrightarrow> a \<le> x \<and> x < a + s \<Longrightarrow> \<not> (b \<le> x \<and> x < b + t)"
  by (meson leD le_less_trans less_le_trans)

text \<open>
  The decode of a register address is exact: an address is mapped to offset \<open>off\<close> of
  a window if and only if \<open>off\<close> is inside the window and the address is the window's base
  plus \<open>off\<close>, so the order in which the macro tests the windows is immaterial; every other
  address is mapped to the null pointer.
\<close>

theorem my_addr_pt_exact:
  "(my_addr_pt addr = I2cIo off \<longleftrightarrow> off < SZ_4K \<and> addr = ADR_I2C_CTRL_MIPI + off) \<and>
   (my_addr_pt addr = ApbIo off \<longleftrightarrow> off < SZ_64K \<and> addr = ADR_EXAMPLE_APB_SLV + off) \<and>
   (my_addr_pt addr = AxiIo off \<longleftrightarrow> off < SZ_64K \<and> addr = ADR_EXAMPLE_AXI_SLV + off) \<and>
   (my_addr_pt addr = DmaIo off \<longleftrightarrow> off < SZ_64K \<and> addr = ADR_DMASG_BASE + off) \<and>
   (my_addr_pt addr = NullIo \<longleftrightarrow>
      (\<nexists>k. k < SZ_4K \<and> addr = ADR_I2C_CTRL_MIPI + k) \<and>
      (\<nexists>k. k < SZ_64K \<and> (addr = ADR_EXAMPLE_APB_SLV + k \<or> addr = ADR_EXAMPLE_AXI_SLV + k
         \<or> addr = ADR_DMASG_BASE + k)))"
proof -
  let ?A = "ADR_I2C_CTRL_MIPI \<le> addr \<and> addr < ADR_I2C_CTRL_MIPI + SZ_4K"
  let ?B = "ADR_EXAMPLE_APB_SLV \<le> addr \<and> addr < ADR_EXAMPLE_APB_SLV + SZ_64K"
  let ?C = "ADR_EXAMPLE_AXI_SLV \<le> addr \<and> addr < ADR_EXAMPLE_AXI_SLV + SZ_64K"
  let ?D = "ADR_DMASG_BASE \<le> addr \<and> addr < ADR_DMASG_BASE + SZ_64K"
  have AB: "?A \<Longrightarrow> \<not> ?B" and AC: "?A \<Longrightarrow> \<not> ?C" and AD: "?A \<Longrightarrow> \<not> ?D"
    and BC: "?B \<Longrightarrow> \<not> ?C" and BD: "?B \<Longrightarrow> \<not> ?D" and CD: "?C \<Longrightarrow> \<not> ?D"
    by (erule window_disjoint [rotated], simp add: regs)+
  have A: "k < SZ_4K \<and> addr = ADR_I2C_CTRL_MIPI + k \<longleftrightarrow> ?A \<and> k = addr - ADR_I2C_CTRL_MIPI"
    and B: "k < SZ_64K \<and> addr = ADR_EXAMPLE_APB_SLV + k \<longleftrightarrow> ?B \<and> k = addr - ADR_EXAMPLE_APB_SLV"
    and C: "k < SZ_64K \<and> addr = ADR_EXAMPLE_AXI_SLV + k \<longleftrightarrow> ?C \<and> k = addr - ADR_EXAMPLE_AXI_SLV"
    and D: "k < SZ_64K \<and> addr = ADR_DMASG_BASE + k \<longleftrightarrow> ?D \<and> k = addr - ADR_DMASG_BASE" for k
    by (rule in_window, simp add: regs)+
  have eq: "my_addr_pt addr =
     (if ?A then I2cIo (addr - ADR_I2C_CTRL_MIPI) else if ?B then ApbIo (addr - ADR_EXAMPLE_APB_SLV)
      else if ?C then AxiIo (addr - ADR_EXAMPLE_AXI_SLV)
      else if ?D then DmaIo (addr - ADR_DMASG_BASE) else NullIo)"
    by (simp only: my_addr_pt_def)
  show ?thesis
    unfolding conj_disj_distribL ex_disj_distrib A B C D eq
    using AB AC AD BC BD CD by auto
qed

end
