(* ===== verification/Dmasg.thy ===== *)
theory Dmasg
  imports EvsocIo
begin

text \<open>
  The scatter-gather DMA controller as kernel_modules/evsoc/src/dmasg.h drives it (direct
  mode, linked lists, interrupts, status) with the channel numbers of dmasg_config.h.
  A boolean C argument that is only tested is a \<open>bool\<close>.
\<close>

section \<open>Registers\<close>

definition DMASG_CHANNEL_INPUT_ADDRESS :: u32 where [regs]: "DMASG_CHANNEL_INPUT_ADDRESS = 0x00"
definition DMASG_CHANNEL_INPUT_STREAM :: u32 where [regs]: "DMASG_CHANNEL_INPUT_STREAM = 0x08"
definition DMASG_CHANNEL_INPUT_CONFIG :: u32 where [regs]: "DMASG_CHANNEL_INPUT_CONFIG = 0x0C"
definition DMASG_CHANNEL_INPUT_CONFIG_MEMORY :: u32 where [regs]: "DMASG_CHANNEL_INPUT_CONFIG_MEMORY = BIT 12"
definition DMASG_CHANNEL_INPUT_CONFIG_STREAM :: u32 where [regs]: "DMASG_CHANNEL_INPUT_CONFIG_STREAM = 0"
definition DMASG_CHANNEL_INPUT_CONFIG_COMPLETION_ON_PACKET :: u32 where [regs]: "DMASG_CHANNEL_INPUT_CONFIG_COMPLETION_ON_PACKET = BIT 13"
definition DMASG_CHANNEL_INPUT_CONFIG_WAIT_ON_PACKET :: u32 where [regs]: "DMASG_CHANNEL_INPUT_CONFIG_WAIT_ON_PACKET = BIT 14"
definition DMASG_CHANNEL_OUTPUT_ADDRESS :: u32 where [regs]: "DMASG_CHANNEL_OUTPUT_ADDRESS = 0x10"
definition DMASG_CHANNEL_OUTPUT_STREAM :: u32 where [regs]: "DMASG_CHANNEL_OUTPUT_STREAM = 0x18"
definition DMASG_CHANNEL_OUTPUT_CONFIG :: u32 where [regs]: "DMASG_CHANNEL_OUTPUT_CONFIG = 0x1C"
definition DMASG_CHANNEL_OUTPUT_CONFIG_MEMORY :: u32 where [regs]: "DMASG_CHANNEL_OUTPUT_CONFIG_MEMORY = BIT 12"
definition DMASG_CHANNEL_OUTPUT_CONFIG_STREAM :: u32 where [regs]: "DMASG_CHANNEL_OUTPUT_CONFIG_STREAM = 0"
definition DMASG_CHANNEL_OUTPUT_CONFIG_LAST :: u32 where [regs]: "DMASG_CHANNEL_OUTPUT_CONFIG_LAST = BIT 13"
definition DMASG_CHANNEL_DIRECT_BYTES :: u32 where [regs]: "DMASG_CHANNEL_DIRECT_BYTES = 0x20"
definition DMASG_CHANNEL_STATUS :: u32 where [regs]: "DMASG_CHANNEL_STATUS = 0x2C"
definition DMASG_CHANNEL_STATUS_DIRECT_START :: u32 where [regs]: "DMASG_CHANNEL_STATUS_DIRECT_START = BIT 0"
definition DMASG_CHANNEL_STATUS_BUSY :: u32 where [regs]: "DMASG_CHANNEL_STATUS_BUSY = BIT 0"
definition DMASG_CHANNEL_STATUS_SELF_RESTART :: u32 where [regs]: "DMASG_CHANNEL_STATUS_SELF_RESTART = BIT 1"
definition DMASG_CHANNEL_STATUS_STOP :: u32 where [regs]: "DMASG_CHANNEL_STATUS_STOP = BIT 2"
definition DMASG_CHANNEL_STATUS_LINKED_LIST_START :: u32 where [regs]: "DMASG_CHANNEL_STATUS_LINKED_LIST_START = BIT 4"
definition DMASG_CHANNEL_FIFO :: u32 where [regs]: "DMASG_CHANNEL_FIFO = 0x40"
definition DMASG_CHANNEL_PRIORITY :: u32 where [regs]: "DMASG_CHANNEL_PRIORITY = 0x44"
definition DMASG_CHANNEL_INTERRUPT_ENABLE :: u32 where [regs]: "DMASG_CHANNEL_INTERRUPT_ENABLE = 0x50"
definition DMASG_CHANNEL_INTERRUPT_PENDING :: u32 where [regs]: "DMASG_CHANNEL_INTERRUPT_PENDING = 0x54"
definition DMASG_CHANNEL_PROGRESS_BYTES :: u32 where [regs]: "DMASG_CHANNEL_PROGRESS_BYTES = 0x60"
definition DMASG_CHANNEL_LINKED_LIST_HEAD :: u32 where [regs]: "DMASG_CHANNEL_LINKED_LIST_HEAD = 0x70"
definition DMASG_CHANNEL_INTERRUPT_DESCRIPTOR_COMPLETION_MASK :: u32 where [regs]: "DMASG_CHANNEL_INTERRUPT_DESCRIPTOR_COMPLETION_MASK = BIT 0"
definition DMASG_CHANNEL_INTERRUPT_CHANNEL_COMPLETION_MASK :: u32 where [regs]: "DMASG_CHANNEL_INTERRUPT_CHANNEL_COMPLETION_MASK = BIT 2"

definition DMASG_BASE :: u32 where [regs]: "DMASG_BASE = IO_APB_SLAVE_0_INPUT"
definition DMASG_CAM_S2MM_CHANNEL :: u32 where [regs]: "DMASG_CAM_S2MM_CHANNEL = 0"
definition DMASG_CAM_S2MM_PORT :: u32 where [regs]: "DMASG_CAM_S2MM_PORT = 0"
definition DMASG_DISPLAY_MM2S_CHANNEL :: u32 where [regs]: "DMASG_DISPLAY_MM2S_CHANNEL = 1"
definition DMASG_DISPLAY_MM2S_PORT :: u32 where [regs]: "DMASG_DISPLAY_MM2S_PORT = 0"
definition DMASG_HW_ACCEL_S2MM_CHANNEL :: u32 where [regs]: "DMASG_HW_ACCEL_S2MM_CHANNEL = 2"
definition DMASG_HW_ACCEL_S2MM_PORT :: u32 where [regs]: "DMASG_HW_ACCEL_S2MM_PORT = 0"
definition DMASG_HW_ACCEL_MM2S_CHANNEL :: u32 where [regs]: "DMASG_HW_ACCEL_MM2S_CHANNEL = 3"
definition DMASG_HW_ACCEL_MM2S_PORT :: u32 where [regs]: "DMASG_HW_ACCEL_MM2S_PORT = 0"

section \<open>Operations\<close>

definition dmasg_ca :: "u32 \<Rightarrow> u32 \<Rightarrow> u32" where
  "dmasg_ca base channel = base + channel * 0x80"

definition dmasg_input_memory :: "u32 \<Rightarrow> u32 \<Rightarrow> u32 \<Rightarrow> u32 \<Rightarrow> iolog \<Rightarrow> iolog" where
  "dmasg_input_memory base channel address byte_per_burst h =
     (let ca = dmasg_ca base channel;
          h = write_u32 address (ca + DMASG_CHANNEL_INPUT_ADDRESS) h
      in write_u32 (DMASG_CHANNEL_INPUT_CONFIG_MEMORY OR ((byte_per_burst - 1) AND 0xFFF))
           (ca + DMASG_CHANNEL_INPUT_CONFIG) h)"

definition dmasg_output_memory :: "u32 \<Rightarrow> u32 \<Rightarrow> u32 \<Rightarrow> u32 \<Rightarrow> iolog \<Rightarrow> iolog" where
  "dmasg_output_memory base channel address byte_per_burst h =
     (let ca = dmasg_ca base channel;
          h = write_u32 address (ca + DMASG_CHANNEL_OUTPUT_ADDRESS) h
      in write_u32 (DMASG_CHANNEL_OUTPUT_CONFIG_MEMORY OR ((byte_per_burst - 1) AND 0xFFF))
           (ca + DMASG_CHANNEL_OUTPUT_CONFIG) h)"

definition dmasg_input_stream :: "u32 \<Rightarrow> u32 \<Rightarrow> u32 \<Rightarrow> bool \<Rightarrow> bool \<Rightarrow> iolog \<Rightarrow> iolog" where
  "dmasg_input_stream base channel port wait_on_packet completion_on_packet h =
     (let ca = dmasg_ca base channel;
          h = write_u32 port (ca + DMASG_CHANNEL_INPUT_STREAM) h
      in write_u32 (DMASG_CHANNEL_INPUT_CONFIG_STREAM
           OR (if completion_on_packet then DMASG_CHANNEL_INPUT_CONFIG_COMPLETION_ON_PACKET else 0)
           OR (if wait_on_packet then DMASG_CHANNEL_INPUT_CONFIG_WAIT_ON_PACKET else 0))
           (ca + DMASG_CHANNEL_INPUT_CONFIG) h)"

definition dmasg_output_stream :: "u32 \<Rightarrow> u32 \<Rightarrow> u32 \<Rightarrow> u32 \<Rightarrow> u32 \<Rightarrow> bool \<Rightarrow> iolog \<Rightarrow> iolog" where
  "dmasg_output_stream base channel port source sink last_pkt h =
     (let ca = dmasg_ca base channel;
          h = write_u32 (port OR push_bit 8 source OR push_bit 16 sink)
                (ca + DMASG_CHANNEL_OUTPUT_STREAM) h
      in write_u32 (DMASG_CHANNEL_OUTPUT_CONFIG_STREAM
           OR (if last_pkt then DMASG_CHANNEL_OUTPUT_CONFIG_LAST else 0))
           (ca + DMASG_CHANNEL_OUTPUT_CONFIG) h)"

definition dmasg_direct_start :: "u32 \<Rightarrow> u32 \<Rightarrow> u32 \<Rightarrow> bool \<Rightarrow> iolog \<Rightarrow> iolog" where
  "dmasg_direct_start base channel bytes self_restart h =
     (let ca = dmasg_ca base channel;
          h = write_u32 (bytes - 1) (ca + DMASG_CHANNEL_DIRECT_BYTES) h
      in write_u32 (DMASG_CHANNEL_STATUS_DIRECT_START
           OR (if self_restart then DMASG_CHANNEL_STATUS_SELF_RESTART else 0))
           (ca + DMASG_CHANNEL_STATUS) h)"

definition dmasg_linked_list_start :: "u32 \<Rightarrow> u32 \<Rightarrow> u32 \<Rightarrow> iolog \<Rightarrow> iolog" where
  "dmasg_linked_list_start base channel head h =
     (let ca = dmasg_ca base channel;
          h = write_u32 head (ca + DMASG_CHANNEL_LINKED_LIST_HEAD) h
      in write_u32 DMASG_CHANNEL_STATUS_LINKED_LIST_START (ca + DMASG_CHANNEL_STATUS) h)"

definition dmasg_stop :: "u32 \<Rightarrow> u32 \<Rightarrow> iolog \<Rightarrow> iolog" where
  "dmasg_stop base channel h =
     write_u32 DMASG_CHANNEL_STATUS_STOP (dmasg_ca base channel + DMASG_CHANNEL_STATUS) h"

definition dmasg_interrupt_config :: "u32 \<Rightarrow> u32 \<Rightarrow> u32 \<Rightarrow> iolog \<Rightarrow> iolog" where
  "dmasg_interrupt_config base channel msk h =
     (let ca = dmasg_ca base channel;
          h = write_u32 0xFFFFFFFF (ca + DMASG_CHANNEL_INTERRUPT_PENDING) h
      in write_u32 msk (ca + DMASG_CHANNEL_INTERRUPT_ENABLE) h)"

definition dmasg_interrupt_pending_clear :: "u32 \<Rightarrow> u32 \<Rightarrow> u32 \<Rightarrow> iolog \<Rightarrow> iolog" where
  "dmasg_interrupt_pending_clear base channel msk h =
     write_u32 msk (dmasg_ca base channel + DMASG_CHANNEL_INTERRUPT_PENDING) h"

definition dmasg_busy :: "iomem device \<Rightarrow> u32 \<Rightarrow> u32 \<Rightarrow> iolog \<Rightarrow> u32 \<times> iolog" where
  "dmasg_busy d base channel h =
     (let (v, h) = read_u32 d (dmasg_ca base channel + DMASG_CHANNEL_STATUS) h
      in (v AND DMASG_CHANNEL_STATUS_BUSY, h))"

definition dmasg_buffer :: "u32 \<Rightarrow> u32 \<Rightarrow> u32 \<Rightarrow> u32 \<Rightarrow> iolog \<Rightarrow> iolog" where
  "dmasg_buffer base channel fifo_base fifo_bytes h =
     write_u32 (fifo_base OR push_bit 16 (fifo_bytes - 1))
       (dmasg_ca base channel + DMASG_CHANNEL_FIFO) h"

definition dmasg_priority :: "u32 \<Rightarrow> u32 \<Rightarrow> u32 \<Rightarrow> u32 \<Rightarrow> iolog \<Rightarrow> iolog" where
  "dmasg_priority base channel priority weight h =
     write_u32 (priority OR push_bit 8 weight) (dmasg_ca base channel + DMASG_CHANNEL_PRIORITY) h"

definition dmasg_progress_bytes :: "iomem device \<Rightarrow> u32 \<Rightarrow> u32 \<Rightarrow> iolog \<Rightarrow> u32 \<times> iolog" where
  "dmasg_progress_bytes d base channel h =
     read_u32 d (dmasg_ca base channel + DMASG_CHANNEL_PROGRESS_BYTES) h"

text \<open>\<open>while (dmasg_busy(base, channel));\<close>\<close>

definition dmasg_wait :: "iomem device \<Rightarrow> u32 \<Rightarrow> u32 \<Rightarrow> iolog \<Rightarrow> iolog option" where
  "dmasg_wait d base channel h =
     map_option snd (spin_until d (my_addr_pt (dmasg_ca base channel + DMASG_CHANNEL_STATUS))
       (\<lambda>v. v AND DMASG_CHANNEL_STATUS_BUSY = 0) h)"

section \<open>Transfers the controller has been told to make\<close>

text \<open>
  What a direct start launches is decided by the channel registers at that moment.  Replaying
  a log gives the list of direct transfers: channel, input and output side, and byte count
  (the register holds the count minus one).
\<close>

datatype dma_side = Memory u32 | StreamPort u32 | Unset

record dma_transfer =
  tr_channel :: u32
  tr_input :: dma_side
  tr_output :: dma_side
  tr_bytes :: u32

record dma_regs =
  rg_in :: dma_side
  rg_in_addr :: u32
  rg_in_port :: u32
  rg_out :: dma_side
  rg_out_addr :: u32
  rg_out_port :: u32
  rg_bytes :: u32

definition dma_regs0 :: dma_regs where
  "dma_regs0 = \<lparr>rg_in = Unset, rg_in_addr = 0, rg_in_port = 0, rg_out = Unset, rg_out_addr = 0,
     rg_out_port = 0, rg_bytes = 0\<rparr>"

text \<open>One register write of a channel, by offset in its block: the new registers, and whether
  it starts a direct transfer.\<close>

definition dma_reg_write :: "u32 \<Rightarrow> u32 \<Rightarrow> dma_regs \<Rightarrow> dma_regs \<times> bool" where
  "dma_reg_write off v r =
     (if off = 0x00 then (r\<lparr>rg_in_addr := v\<rparr>, False)
      else if off = 0x08 then (r\<lparr>rg_in_port := v\<rparr>, False)
      else if off = 0x0C then
        (r\<lparr>rg_in := if bit v 12 then Memory (rg_in_addr r) else StreamPort (rg_in_port r)\<rparr>, False)
      else if off = 0x10 then (r\<lparr>rg_out_addr := v\<rparr>, False)
      else if off = 0x18 then (r\<lparr>rg_out_port := v\<rparr>, False)
      else if off = 0x1C then
        (r\<lparr>rg_out := if bit v 12 then Memory (rg_out_addr r) else StreamPort (rg_out_port r)\<rparr>, False)
      else if off = 0x20 then (r\<lparr>rg_bytes := v\<rparr>, False)
      else if off = 0x2C then (r, bit v 0)
      else (r, False))"

fun dma_step :: "u32 \<Rightarrow> iomem access \<Rightarrow> dma_regs \<times> dma_transfer list \<Rightarrow> dma_regs \<times> dma_transfer list" where
  "dma_step c (Wr (DmaIo a) v) (r, ts) =
     (if a div 0x80 = c then
        (let (r', go) = dma_reg_write (a mod 0x80) v r
         in (r', ts @ (if go then [\<lparr>tr_channel = c, tr_input = rg_in r', tr_output = rg_out r',
                      tr_bytes = rg_bytes r' + 1\<rparr>] else [])))
      else (r, ts))"
| "dma_step c _ (r, ts) = (r, ts)"

definition dma_replay :: "u32 \<Rightarrow> iolog \<Rightarrow> dma_regs \<times> dma_transfer list \<Rightarrow> dma_regs \<times> dma_transfer list" where
  "dma_replay c h rt = fold (dma_step c) h rt"

text \<open>The direct transfers of one channel over a log that starts from reset.\<close>

definition transfers :: "u32 \<Rightarrow> iolog \<Rightarrow> dma_transfer list" where
  "transfers c h = snd (dma_replay c h (dma_regs0, []))"

lemma dma_replay_append [simp]: "dma_replay c (h @ k) rt = dma_replay c k (dma_replay c h rt)"
  by (simp add: dma_replay_def)

lemma dma_replay_Nil [simp]: "dma_replay c [] rt = rt"
  by (simp add: dma_replay_def)

lemma dma_replay_Cons [simp]: "dma_replay c (x # k) rt = dma_replay c k (dma_step c x rt)"
  by (simp add: dma_replay_def)

lemma dma_step_Rd [simp]: "dma_step c (Rd a v) rt = rt"
  by (cases rt) simp

lemma dma_step_other [simp]: "(\<And>off. a \<noteq> DmaIo off) \<Longrightarrow> dma_step c (Wr a v) rt = rt"
  by (cases rt; cases a) auto

lemmas dmasg_ops =
  dmasg_input_memory_def dmasg_output_memory_def dmasg_input_stream_def dmasg_output_stream_def
  dmasg_direct_start_def dmasg_linked_list_start_def dmasg_stop_def dmasg_interrupt_config_def
  dmasg_interrupt_pending_clear_def dmasg_buffer_def dmasg_priority_def dmasg_ca_def
  write_u32_def writel_def Let_def

section \<open>Where the operations write\<close>

lemma less_4_cases: "(c :: u32) < 4 \<Longrightarrow> c = 0 \<or> c = 1 \<or> c = 2 \<or> c = 3"
proof -
  assume "c < 4"
  then have "unat c < 4" by (simp add: word_less_nat_alt)
  then have "unat c = 0 \<or> unat c = 1 \<or> unat c = 2 \<or> unat c = 3" by linarith
  then show ?thesis by (auto simp: word_unat_eq_iff)
qed

text \<open>Every channel register of the controller decodes to the DMA window.\<close>

lemma channel_offset:
  assumes "c < 4" and "(off :: u32) < 0x80"
  shows "uint (c * 0x80 + off) = uint c * 128 + uint off"
proof -
  have "uint off < 128" using assms(2) by (simp add: word_less_def)
  then show ?thesis
    using less_4_cases [OF assms(1)] uint_u32_bounds [of off] by (auto simp: uint_word_ariths)
qed

lemma channel_register:
  assumes "c < 4" and "off < 0x80"
  shows "my_addr_pt (dmasg_ca DMASG_BASE c + off) = DmaIo (c * 0x80 + off)"
proof -
  have "uint c < 4" "uint off < 128" using assms by (simp_all add: word_less_def)
  then have "c * 0x80 + off < SZ_64K"
    by (simp add: word_less_def channel_offset [OF assms] regs)
  moreover have "dmasg_ca DMASG_BASE c + off = ADR_DMASG_BASE + (c * 0x80 + off)"
    by (simp add: dmasg_ca_def regs)
  ultimately show ?thesis using my_addr_pt_exact by blast
qed

lemma channel_block:
  assumes "c < 4" and "(off :: u32) < 0x80"
  shows "(c * 0x80 + off) div 0x80 = c" "(c * 0x80 + off) mod 0x80 = off"
proof -
  have "uint off < 128" using assms(2) by (simp add: word_less_def)
  then show "(c * 0x80 + off) div 0x80 = c" "(c * 0x80 + off) mod 0x80 = off"
    using uint_u32_bounds [of off]
    by (simp_all add: word_uint_eq_iff uint_div uint_mod channel_offset [OF assms])
qed

lemma dma_step_channel:
  assumes "c < 4" and "off < 0x80"
  shows "dma_step c' (Wr (my_addr_pt (dmasg_ca DMASG_BASE c + off)) v) (r, ts) =
    (if c' = c then let (r', go) = dma_reg_write off v r
       in (r', ts @ (if go then [\<lparr>tr_channel = c, tr_input = rg_in r', tr_output = rg_out r',
                      tr_bytes = rg_bytes r' + 1\<rparr>] else []))
     else (r, ts))"
  using assms by (auto simp: channel_register channel_block Let_def split_beta)

lemma memory_bit: "bit (BIT 12 OR (x AND 0xFFF)) 12"
  by (simp add: bit_or_iff bit_BIT del: BIT_numeral)

lemmas dma_step_regs =
  dma_step_channel [where off = 0, simplified]
  dma_step_channel [where off = 8, simplified]
  dma_step_channel [where off = "0xC", simplified]
  dma_step_channel [where off = "0x10", simplified]
  dma_step_channel [where off = "0x18", simplified]
  dma_step_channel [where off = "0x1C", simplified]
  dma_step_channel [where off = "0x20", simplified]
  dma_step_channel [where off = "0x2C", simplified]

text \<open>The effect of each set-up operation on a channel's replayed registers.\<close>

lemma replay_input_memory:
  "c < 4 \<Longrightarrow> dma_replay c' (dmasg_input_memory DMASG_BASE c a n h) rt =
     (let (r, ts) = dma_replay c' h rt
      in (if c' = c then r\<lparr>rg_in_addr := a, rg_in := Memory a\<rparr> else r, ts))"
  by (cases "dma_replay c' h rt")
    (simp add: dmasg_input_memory_def write_u32_def writel_def Let_def DMASG_CHANNEL_INPUT_ADDRESS_def
      DMASG_CHANNEL_INPUT_CONFIG_def DMASG_CHANNEL_INPUT_CONFIG_MEMORY_def dma_step_regs
      dma_reg_write_def memory_bit del: BIT_numeral)

lemma replay_output_memory:
  "c < 4 \<Longrightarrow> dma_replay c' (dmasg_output_memory DMASG_BASE c a n h) rt =
     (let (r, ts) = dma_replay c' h rt
      in (if c' = c then r\<lparr>rg_out_addr := a, rg_out := Memory a\<rparr> else r, ts))"
  by (cases "dma_replay c' h rt")
    (simp add: dmasg_output_memory_def write_u32_def writel_def Let_def DMASG_CHANNEL_OUTPUT_ADDRESS_def
      DMASG_CHANNEL_OUTPUT_CONFIG_def DMASG_CHANNEL_OUTPUT_CONFIG_MEMORY_def dma_step_regs
      dma_reg_write_def memory_bit del: BIT_numeral)

lemma replay_input_stream:
  "c < 4 \<Longrightarrow> dma_replay c' (dmasg_input_stream DMASG_BASE c p w q h) rt =
     (let (r, ts) = dma_replay c' h rt
      in (if c' = c then r\<lparr>rg_in_port := p, rg_in := StreamPort p\<rparr> else r, ts))"
  by (cases "dma_replay c' h rt")
    (simp add: dmasg_input_stream_def write_u32_def writel_def Let_def DMASG_CHANNEL_INPUT_STREAM_def
      DMASG_CHANNEL_INPUT_CONFIG_def DMASG_CHANNEL_INPUT_CONFIG_STREAM_def
      DMASG_CHANNEL_INPUT_CONFIG_COMPLETION_ON_PACKET_def DMASG_CHANNEL_INPUT_CONFIG_WAIT_ON_PACKET_def
      dma_step_regs dma_reg_write_def bit_or_iff bit_BIT del: BIT_numeral)

lemma replay_output_stream:
  "c < 4 \<Longrightarrow> dma_replay c' (dmasg_output_stream DMASG_BASE c p so si l h) rt =
     (let (r, ts) = dma_replay c' h rt; v = p OR push_bit 8 so OR push_bit 16 si
      in (if c' = c then r\<lparr>rg_out_port := v, rg_out := StreamPort v\<rparr> else r, ts))"
  by (cases "dma_replay c' h rt")
    (simp add: dmasg_output_stream_def write_u32_def writel_def Let_def DMASG_CHANNEL_OUTPUT_STREAM_def
      DMASG_CHANNEL_OUTPUT_CONFIG_def DMASG_CHANNEL_OUTPUT_CONFIG_STREAM_def
      DMASG_CHANNEL_OUTPUT_CONFIG_LAST_def dma_step_regs dma_reg_write_def bit_or_iff bit_BIT del: BIT_numeral)

lemma replay_direct_start:
  "c < 4 \<Longrightarrow> dma_replay c' (dmasg_direct_start DMASG_BASE c n rst h) rt =
     (let (r, ts) = dma_replay c' h rt
      in if c' = c then (r\<lparr>rg_bytes := n - 1\<rparr>,
           ts @ [\<lparr>tr_channel = c, tr_input = rg_in r, tr_output = rg_out r, tr_bytes = n\<rparr>])
         else (r, ts))"
  by (cases "dma_replay c' h rt")
    (simp add: dmasg_direct_start_def write_u32_def writel_def Let_def DMASG_CHANNEL_DIRECT_BYTES_def
      DMASG_CHANNEL_STATUS_def DMASG_CHANNEL_STATUS_DIRECT_START_def
      DMASG_CHANNEL_STATUS_SELF_RESTART_def dma_step_regs dma_reg_write_def
      bit_or_iff bit_BIT del: BIT_numeral BIT_0 BIT_Suc_0)

lemma replay_interrupt_config:
  "c < 4 \<Longrightarrow> dma_replay c' (dmasg_interrupt_config DMASG_BASE c m h) rt = dma_replay c' h rt"
  by (cases "dma_replay c' h rt")
    (simp add: dmasg_interrupt_config_def write_u32_def writel_def Let_def
      DMASG_CHANNEL_INTERRUPT_PENDING_def DMASG_CHANNEL_INTERRUPT_ENABLE_def
      dma_step_channel dma_reg_write_def)

lemma replay_priority:
  "c < 4 \<Longrightarrow> dma_replay c' (dmasg_priority DMASG_BASE c p w h) rt = dma_replay c' h rt"
  by (cases "dma_replay c' h rt")
    (simp add: dmasg_priority_def write_u32_def writel_def Let_def
      DMASG_CHANNEL_PRIORITY_def dma_step_channel dma_reg_write_def)

text \<open>Accesses outside the DMA window, and reads, launch nothing.\<close>

lemma replay_reads: "(\<forall>x \<in> set k. \<exists>a v. x = Rd a v) \<Longrightarrow> dma_replay c k rt = rt"
  by (induction k arbitrary: rt) (auto simp: dma_replay_def)

lemma replay_wait:
  "dmasg_wait d base ch h = Some h' \<Longrightarrow> dma_replay c h' rt = dma_replay c h rt"
proof -
  assume "dmasg_wait d base ch h = Some h'"
  then obtain v where "spin_until d (my_addr_pt (dmasg_ca base ch + DMASG_CHANNEL_STATUS))
      (\<lambda>v. v AND DMASG_CHANNEL_STATUS_BUSY = 0) h = Some (v, h')"
    by (auto simp: dmasg_wait_def)
  from spin_until_Some [OF this] obtain k where h': "h' = h @ k" and w: "\<forall>b. written b k = []" by blast
  have "\<forall>x \<in> set k. \<exists>a v. x = Rd a v"
  proof
    fix x assume "x \<in> set k"
    then obtain xs ys where "k = xs @ x # ys" by (auto simp: in_set_conv_decomp)
    then have "x = Wr a v \<Longrightarrow> written a k \<noteq> []" for a v by simp
    with w show "\<exists>a v. x = Rd a v" by (cases x) auto
  qed
  then show ?thesis by (simp add: h' replay_reads)
qed

lemma replay_apb: "dma_replay c (EXAMPLE_APB3_REGW EXAMPLE_APB3_SLV off v h) rt = dma_replay c h rt"
  if "off < 0x10000"
proof -
  have "my_addr_pt (EXAMPLE_APB3_SLV + off) = ApbIo off"
    using that my_addr_pt_exact [of "EXAMPLE_APB3_SLV + off" off] by (simp add: regs)
  then show ?thesis by (simp add: EXAMPLE_APB3_REGW_def write_u32_def writel_def)
qed

text \<open>
  C21: For each of the four channels, a receive set-up (stream to memory) or a send set-up
  (memory to stream) followed by a direct start launches exactly one transfer on that
  channel, between the programmed sides and of the given byte count, and launches nothing
  on any other channel, whatever was done before.
\<close>

theorem dmasg_direct_transfer:
  assumes "c < 4"
  shows "transfers c' (dmasg_direct_start DMASG_BASE c n rst
            (dmasg_output_memory DMASG_BASE c addr burst
              (dmasg_input_stream DMASG_BASE c port wt cp h))) =
    transfers c' h @ (if c' = c then [\<lparr>tr_channel = c, tr_input = StreamPort port,
        tr_output = Memory addr, tr_bytes = n\<rparr>] else []) \<and>
   transfers c' (dmasg_direct_start DMASG_BASE c n rst
            (dmasg_output_stream DMASG_BASE c port 0 0 lst
              (dmasg_input_memory DMASG_BASE c addr burst h))) =
    transfers c' h @ (if c' = c then [\<lparr>tr_channel = c, tr_input = Memory addr,
        tr_output = StreamPort port, tr_bytes = n\<rparr>] else [])"
  using assms
  by (simp add: transfers_def replay_direct_start replay_output_memory replay_input_stream
      replay_output_stream replay_input_memory split_beta Let_def)

theorem dmasg_direct_transfer_witness:
  "transfers 0 (dmasg_direct_start DMASG_BASE 0 16 False
            (dmasg_output_memory DMASG_BASE 0 0x1000 16
              (dmasg_input_stream DMASG_BASE 0 0 True False []))) =
    [\<lparr>tr_channel = 0, tr_input = StreamPort 0, tr_output = Memory 0x1000, tr_bytes = 16\<rparr>]"
  using dmasg_direct_transfer [of 0 0 16 False "0x1000" 16 0 True False "[]"]
  by (simp add: transfers_def)

end
