(* ===== verification/EvsocI2c.thy ===== *)
theory EvsocI2c
  imports EvsocIo
begin

text \<open>
  The polled I2C master of the edge-vision module: kernel_modules/evsoc/src/i2c.h and the
  bus set-up of common.c.  \<open>reg\<close> is the physical base address of a controller.  The waits
  of this driver have no time limit, so an operation that waits is an \<open>option\<close>, \<open>None\<close>
  when the controller never gets ready.  Behind the registers stands an abstract bus: the
  sequence of start conditions, bytes and stop conditions the controller was told to
  make.  The locale \<open>bus_master\<close> is the interface the camera drivers rely on.
\<close>

section \<open>Registers\<close>

definition I2C_TX_DATA :: u32 where [regs]: "I2C_TX_DATA = 0x00"
definition I2C_TX_ACK :: u32 where [regs]: "I2C_TX_ACK = 0x04"
definition I2C_RX_DATA :: u32 where [regs]: "I2C_RX_DATA = 0x08"
definition I2C_RX_ACK :: u32 where [regs]: "I2C_RX_ACK = 0x0C"
definition I2C_INTERRUPT_ENABLE :: u32 where [regs]: "I2C_INTERRUPT_ENABLE = 0x20"
definition I2C_INTERRUPT_FLAG :: u32 where [regs]: "I2C_INTERRUPT_FLAG = 0x24"
definition I2C_SAMPLING_CLOCK_DIVIDER :: u32 where [regs]: "I2C_SAMPLING_CLOCK_DIVIDER = 0x28"
definition I2C_TIMEOUT :: u32 where [regs]: "I2C_TIMEOUT = 0x2C"
definition I2C_TSUDAT :: u32 where [regs]: "I2C_TSUDAT = 0x30"
definition I2C_MASTER_STATUS :: u32 where [regs]: "I2C_MASTER_STATUS = 0x40"
definition I2C_SLAVE_STATUS :: u32 where [regs]: "I2C_SLAVE_STATUS = 0x44"
definition I2C_SLAVE_OVERRIDE :: u32 where [regs]: "I2C_SLAVE_OVERRIDE = 0x48"
definition I2C_TLOW :: u32 where [regs]: "I2C_TLOW = 0x50"
definition I2C_THIGH :: u32 where [regs]: "I2C_THIGH = 0x54"
definition I2C_TBUF :: u32 where [regs]: "I2C_TBUF = 0x58"
definition I2C_FILTERING_HIT :: u32 where [regs]: "I2C_FILTERING_HIT = 0x80"
definition I2C_FILTERING_STATUS :: u32 where [regs]: "I2C_FILTERING_STATUS = 0x84"
definition I2C_FILTERING_CONFIG :: u32 where [regs]: "I2C_FILTERING_CONFIG = 0x88"
definition I2C_MODE_CPOL :: u32 where [regs]: "I2C_MODE_CPOL = BIT 0"
definition I2C_MODE_CPHA :: u32 where [regs]: "I2C_MODE_CPHA = BIT 1"
definition I2C_TX_VALUE :: u32 where [regs]: "I2C_TX_VALUE = 0xFF"
definition I2C_TX_VALID :: u32 where [regs]: "I2C_TX_VALID = BIT 8"
definition I2C_TX_ENABLE :: u32 where [regs]: "I2C_TX_ENABLE = BIT 9"
definition I2C_TX_REPEAT :: u32 where [regs]: "I2C_TX_REPEAT = BIT 10"
definition I2C_TX_DISABLE_ON_DATA_CONFLICT :: u32 where [regs]: "I2C_TX_DISABLE_ON_DATA_CONFLICT = BIT 11"
definition I2C_RX_VALUE :: u32 where [regs]: "I2C_RX_VALUE = 0xFF"
definition I2C_RX_VALID :: u32 where [regs]: "I2C_RX_VALID = BIT 8"
definition I2C_RX_LISTEN :: u32 where [regs]: "I2C_RX_LISTEN = BIT 9"
definition I2C_MASTER_BUSY :: u32 where [regs]: "I2C_MASTER_BUSY = BIT 0"
definition I2C_MASTER_START :: u32 where [regs]: "I2C_MASTER_START = BIT 4"
definition I2C_MASTER_STOP :: u32 where [regs]: "I2C_MASTER_STOP = BIT 5"
definition I2C_MASTER_DROP :: u32 where [regs]: "I2C_MASTER_DROP = BIT 6"
definition I2C_MASTER_RECOVER :: u32 where [regs]: "I2C_MASTER_RECOVER = BIT 7"
definition I2C_MASTER_START_DROPPED :: u32 where [regs]: "I2C_MASTER_START_DROPPED = BIT 9"
definition I2C_MASTER_STOP_DROPPED :: u32 where [regs]: "I2C_MASTER_STOP_DROPPED = BIT 10"
definition I2C_MASTER_RECOVER_DROPPED :: u32 where [regs]: "I2C_MASTER_RECOVER_DROPPED = BIT 11"
definition I2C_SLAVE_STATUS_IN_FRAME :: u32 where [regs]: "I2C_SLAVE_STATUS_IN_FRAME = BIT 0"
definition I2C_SLAVE_STATUS_SDA :: u32 where [regs]: "I2C_SLAVE_STATUS_SDA = BIT 1"
definition I2C_SLAVE_STATUS_SCL :: u32 where [regs]: "I2C_SLAVE_STATUS_SCL = BIT 2"
definition I2C_SLAVE_OVERRIDE_SDA :: u32 where [regs]: "I2C_SLAVE_OVERRIDE_SDA = BIT 1"
definition I2C_SLAVE_OVERRIDE_SCL :: u32 where [regs]: "I2C_SLAVE_OVERRIDE_SCL = BIT 2"
definition I2C_FILTER_7_BITS :: u32 where [regs]: "I2C_FILTER_7_BITS = 0"
definition I2C_FILTER_10_BITS :: u32 where [regs]: "I2C_FILTER_10_BITS = BIT 14"
definition I2C_FILTER_ENABLE :: u32 where [regs]: "I2C_FILTER_ENABLE = BIT 15"
definition I2C_INTERRUPT_TX_DATA :: u32 where [regs]: "I2C_INTERRUPT_TX_DATA = BIT 2"
definition I2C_INTERRUPT_TX_ACK :: u32 where [regs]: "I2C_INTERRUPT_TX_ACK = BIT 3"
definition I2C_INTERRUPT_DROP :: u32 where [regs]: "I2C_INTERRUPT_DROP = BIT 7"
definition I2C_INTERRUPT_CLOCK_GEN_EXIT :: u32 where [regs]: "I2C_INTERRUPT_CLOCK_GEN_EXIT = BIT 15"
definition I2C_INTERRUPT_CLOCK_GEN_ENTER :: u32 where [regs]: "I2C_INTERRUPT_CLOCK_GEN_ENTER = BIT 16"
definition I2C_INTERRUPT_CLOCK_GEN_BUSY :: u32 where [regs]: "I2C_INTERRUPT_CLOCK_GEN_BUSY = BIT 16"
definition I2C_INTERRUPT_FILTER :: u32 where [regs]: "I2C_INTERRUPT_FILTER = BIT 17"
definition I2C_READ :: u32 where [regs]: "I2C_READ = 0x01"
definition I2C_WRITE :: u32 where [regs]: "I2C_WRITE = 0x00"

definition I2C_CTRL_MIPI :: u32 where [regs]: "I2C_CTRL_MIPI = SYSTEM_I2C_0_IO_CTRL"
definition I2C_CTRL_HZ :: u32 where [regs]: "I2C_CTRL_HZ = SYSTEM_CLINT_HZ"

section \<open>Operations\<close>

definition i2c_getInterruptFlag :: "iomem device \<Rightarrow> u32 \<Rightarrow> iolog \<Rightarrow> u32 \<times> iolog" where
  "i2c_getInterruptFlag d reg h = read_u32 d (reg + I2C_INTERRUPT_FLAG) h"

definition i2c_getMasterStatus :: "iomem device \<Rightarrow> u32 \<Rightarrow> iolog \<Rightarrow> u32 \<times> iolog" where
  "i2c_getMasterStatus d reg h = read_u32 d (reg + I2C_MASTER_STATUS) h"

definition i2c_getFilteringHit :: "iomem device \<Rightarrow> u32 \<Rightarrow> iolog \<Rightarrow> u32 \<times> iolog" where
  "i2c_getFilteringHit d reg h = read_u32 d (reg + I2C_FILTERING_HIT) h"

definition i2c_getFilteringStatus :: "iomem device \<Rightarrow> u32 \<Rightarrow> iolog \<Rightarrow> u32 \<times> iolog" where
  "i2c_getFilteringStatus d reg h = read_u32 d (reg + I2C_FILTERING_STATUS) h"

definition i2c_getSlaveStatus :: "iomem device \<Rightarrow> u32 \<Rightarrow> iolog \<Rightarrow> u32 \<times> iolog" where
  "i2c_getSlaveStatus d reg h = read_u32 d (reg + I2C_SLAVE_STATUS) h"

definition i2c_getSlaveOverride :: "u32 \<Rightarrow> u32 \<Rightarrow> iolog \<Rightarrow> iolog" where
  "i2c_getSlaveOverride reg v h = write_u32 v (reg + I2C_SLAVE_OVERRIDE) h"

record I2c_Config =
  samplingClockDivider :: u32
  cfg_timeout :: u32
  tsuDat :: u32
  tLow :: u32
  tHigh :: u32
  tBuf :: u32

definition i2c_applyConfig :: "u32 \<Rightarrow> I2c_Config \<Rightarrow> iolog \<Rightarrow> iolog" where
  "i2c_applyConfig reg config h =
     (let h = write_u32 (samplingClockDivider config) (reg + I2C_SAMPLING_CLOCK_DIVIDER) h;
          h = write_u32 (cfg_timeout config) (reg + I2C_TIMEOUT) h;
          h = write_u32 (tsuDat config) (reg + I2C_TSUDAT) h;
          h = write_u32 (tLow config) (reg + I2C_TLOW) h;
          h = write_u32 (tHigh config) (reg + I2C_THIGH) h
      in write_u32 (tBuf config) (reg + I2C_TBUF) h)"

definition i2c_filterEnable :: "u32 \<Rightarrow> u32 \<Rightarrow> u32 \<Rightarrow> iolog \<Rightarrow> iolog" where
  "i2c_filterEnable reg filterId config h =
     write_u32 config (reg + I2C_FILTERING_CONFIG + 4 * filterId) h"

definition i2c_masterStart :: "u32 \<Rightarrow> iolog \<Rightarrow> iolog" where
  "i2c_masterStart reg h =
     write_u32 (I2C_MASTER_START OR I2C_MASTER_START_DROPPED) (reg + I2C_MASTER_STATUS) h"

definition i2c_masterRestart :: "u32 \<Rightarrow> iolog \<Rightarrow> iolog" where
  "i2c_masterRestart reg h = i2c_masterStart reg h"

definition i2c_masterRecover :: "u32 \<Rightarrow> iolog \<Rightarrow> iolog" where
  "i2c_masterRecover reg h =
     write_u32 (I2C_MASTER_RECOVER OR I2C_MASTER_RECOVER_DROPPED) (reg + I2C_MASTER_STATUS) h"

definition i2c_masterBusy :: "iomem device \<Rightarrow> u32 \<Rightarrow> iolog \<Rightarrow> bool \<times> iolog" where
  "i2c_masterBusy d reg h =
     (let (v, h) = read_u32 d (reg + I2C_MASTER_STATUS) h in (v AND I2C_MASTER_BUSY \<noteq> 0, h))"

definition i2c_masterStatus :: "iomem device \<Rightarrow> u32 \<Rightarrow> iolog \<Rightarrow> u32 \<times> iolog" where
  "i2c_masterStatus d reg h = read_u32 d (reg + I2C_MASTER_STATUS) h"

text \<open>\<open>while (read_u32(addr) & bits);\<close>\<close>

definition wait_clear :: "iomem device \<Rightarrow> u32 \<Rightarrow> u32 \<Rightarrow> iolog \<Rightarrow> iolog option" where
  "wait_clear d addr bits h =
     map_option snd (spin_until d (my_addr_pt addr) (\<lambda>v. v AND bits = 0) h)"

definition i2c_masterStartBlocking :: "iomem device \<Rightarrow> u32 \<Rightarrow> iolog \<Rightarrow> iolog option" where
  "i2c_masterStartBlocking d reg h =
     wait_clear d (reg + I2C_MASTER_STATUS) I2C_MASTER_START (i2c_masterStart reg h)"

definition i2c_masterRestartBlocking :: "iomem device \<Rightarrow> u32 \<Rightarrow> iolog \<Rightarrow> iolog option" where
  "i2c_masterRestartBlocking d reg h = i2c_masterStartBlocking d reg h"

definition i2c_masterStop :: "u32 \<Rightarrow> iolog \<Rightarrow> iolog" where
  "i2c_masterStop reg h =
     write_u32 (I2C_MASTER_STOP OR I2C_MASTER_STOP_DROPPED) (reg + I2C_MASTER_STATUS) h"

fun recover_loop :: "iomem device \<Rightarrow> u32 \<Rightarrow> nat \<Rightarrow> iolog \<Rightarrow> iolog option" where
  "recover_loop d reg 0 h = Some h"
| "recover_loop d reg (Suc n) h = do {
     h \<leftarrow> wait_clear d (reg + I2C_MASTER_STATUS) I2C_MASTER_RECOVER (i2c_masterRecover reg h);
     let (v, h) = i2c_getMasterStatus d reg h;
     if v AND I2C_MASTER_RECOVER_DROPPED = 0 then Some h else recover_loop d reg n h
   }"

definition i2c_masterRecoverBlocking :: "iomem device \<Rightarrow> u32 \<Rightarrow> iolog \<Rightarrow> iolog option" where
  "i2c_masterRecoverBlocking d reg h = recover_loop d reg 3 h"

definition i2c_masterStopWait :: "iomem device \<Rightarrow> u32 \<Rightarrow> iolog \<Rightarrow> iolog option" where
  "i2c_masterStopWait d reg h = wait_clear d (reg + I2C_MASTER_STATUS) I2C_MASTER_BUSY h"

definition i2c_masterDrop :: "u32 \<Rightarrow> iolog \<Rightarrow> iolog" where
  "i2c_masterDrop reg h = write_u32 I2C_MASTER_DROP (reg + I2C_MASTER_STATUS) h"

definition i2c_masterStopBlocking :: "iomem device \<Rightarrow> u32 \<Rightarrow> iolog \<Rightarrow> iolog option" where
  "i2c_masterStopBlocking d reg h = i2c_masterStopWait d reg (i2c_masterStop reg h)"

definition i2c_listenAck :: "u32 \<Rightarrow> iolog \<Rightarrow> iolog" where
  "i2c_listenAck reg h = write_u32 I2C_RX_LISTEN (reg + I2C_RX_ACK) h"

definition i2c_txByte :: "u32 \<Rightarrow> u8 \<Rightarrow> iolog \<Rightarrow> iolog" where
  "i2c_txByte reg byte h =
     write_u32 (ucast byte OR I2C_TX_VALID OR I2C_TX_ENABLE OR I2C_TX_DISABLE_ON_DATA_CONFLICT)
       (reg + I2C_TX_DATA) h"

definition i2c_txAck :: "u32 \<Rightarrow> iolog \<Rightarrow> iolog" where
  "i2c_txAck reg h = write_u32 (I2C_TX_VALID OR I2C_TX_ENABLE) (reg + I2C_TX_ACK) h"

definition i2c_txNack :: "u32 \<Rightarrow> iolog \<Rightarrow> iolog" where
  "i2c_txNack reg h = write_u32 (1 OR I2C_TX_VALID OR I2C_TX_ENABLE) (reg + I2C_TX_ACK) h"

definition i2c_txAckWait :: "iomem device \<Rightarrow> u32 \<Rightarrow> iolog \<Rightarrow> iolog option" where
  "i2c_txAckWait d reg h = wait_clear d (reg + I2C_TX_ACK) I2C_TX_VALID h"

definition i2c_txAckBlocking :: "iomem device \<Rightarrow> u32 \<Rightarrow> iolog \<Rightarrow> iolog option" where
  "i2c_txAckBlocking d reg h = i2c_txAckWait d reg (i2c_txAck reg h)"

definition i2c_txNackBlocking :: "iomem device \<Rightarrow> u32 \<Rightarrow> iolog \<Rightarrow> iolog option" where
  "i2c_txNackBlocking d reg h = i2c_txAckWait d reg (i2c_txNack reg h)"

definition i2c_rxData :: "iomem device \<Rightarrow> u32 \<Rightarrow> iolog \<Rightarrow> u32 \<times> iolog" where
  "i2c_rxData d reg h =
     (let (v, h) = read_u32 d (reg + I2C_RX_DATA) h in (v AND I2C_RX_VALUE, h))"

definition i2c_rxNack :: "iomem device \<Rightarrow> u32 \<Rightarrow> iolog \<Rightarrow> bool \<times> iolog" where
  "i2c_rxNack d reg h =
     (let (v, h) = read_u32 d (reg + I2C_RX_ACK) h in (v AND I2C_RX_VALUE \<noteq> 0, h))"

definition i2c_rxAck :: "iomem device \<Rightarrow> u32 \<Rightarrow> iolog \<Rightarrow> bool \<times> iolog" where
  "i2c_rxAck d reg h =
     (let (v, h) = read_u32 d (reg + I2C_RX_ACK) h in (v AND I2C_RX_VALUE = 0, h))"

definition i2c_txByteRepeat :: "u32 \<Rightarrow> u8 \<Rightarrow> iolog \<Rightarrow> iolog" where
  "i2c_txByteRepeat reg byte h =
     write_u32 (ucast byte OR I2C_TX_VALID OR I2C_TX_ENABLE OR I2C_TX_DISABLE_ON_DATA_CONFLICT
       OR I2C_TX_REPEAT) (reg + I2C_TX_DATA) h"

definition i2c_txNackRepeat :: "u32 \<Rightarrow> iolog \<Rightarrow> iolog" where
  "i2c_txNackRepeat reg h =
     write_u32 (1 OR I2C_TX_VALID OR I2C_TX_ENABLE OR I2C_TX_REPEAT) (reg + I2C_TX_ACK) h"

definition i2c_setFilterConfig :: "u32 \<Rightarrow> u32 \<Rightarrow> u32 \<Rightarrow> iolog \<Rightarrow> iolog" where
  "i2c_setFilterConfig reg filterId v h =
     write_u32 v (reg + I2C_FILTERING_CONFIG + 4 * filterId) h"

text \<open>\<open>mipi_i2c_init\<close>; its HDMI twin computes a configuration and applies nothing.\<close>

definition mipi_i2c_init :: "iolog \<Rightarrow> iolog" where
  "mipi_i2c_init h =
     i2c_applyConfig I2C_CTRL_MIPI
       \<lparr>samplingClockDivider = 3, cfg_timeout = I2C_CTRL_HZ div 1000,
        tsuDat = I2C_CTRL_HZ div 2000000, tLow = I2C_CTRL_HZ div 800000,
        tHigh = I2C_CTRL_HZ div 800000, tBuf = I2C_CTRL_HZ div 400000\<rparr> h"

definition hdmi_i2c_init :: "iolog \<Rightarrow> iolog" where
  "hdmi_i2c_init h = h"

section \<open>The bus behind the registers\<close>

datatype bus_event = BStart | BByte u8 | BStop

fun bus_of :: "iomem access \<Rightarrow> bus_event list" where
  "bus_of (Wr (I2cIo a) v) =
     (if a = 0x40 then (if bit v 4 then [BStart] else if bit v 5 then [BStop] else [])
      else if a = 0 then [BByte (ucast v)] else [])"
| "bus_of _ = []"

definition bus :: "iolog \<Rightarrow> bus_event list" where
  "bus h = concat (map bus_of h)"

definition frame :: "u8 list \<Rightarrow> bus_event list" where
  "frame bs = BStart # map BByte bs @ [BStop]"

text \<open>A start, bytes and a stop, over any three bus primitives.\<close>

fun send_all :: "(u8 \<Rightarrow> 'h \<Rightarrow> 'h option) \<Rightarrow> u8 list \<Rightarrow> 'h \<Rightarrow> 'h option" where
  "send_all send [] h = Some h"
| "send_all send (b # bs) h = do { h \<leftarrow> send b h; send_all send bs h }"

definition bus_frame ::
  "('h \<Rightarrow> 'h option) \<Rightarrow> (u8 \<Rightarrow> 'h \<Rightarrow> 'h option) \<Rightarrow> ('h \<Rightarrow> 'h option) \<Rightarrow> u8 list \<Rightarrow> 'h \<Rightarrow> 'h option" where
  "bus_frame start send stop bs h = do { h \<leftarrow> start h; h \<leftarrow> send_all send bs h; stop h }"

fun bus_frames ::
  "('h \<Rightarrow> 'h option) \<Rightarrow> (u8 \<Rightarrow> 'h \<Rightarrow> 'h option) \<Rightarrow> ('h \<Rightarrow> 'h option) \<Rightarrow> u8 list list \<Rightarrow> 'h \<Rightarrow> 'h option" where
  "bus_frames start send stop [] h = Some h"
| "bus_frames start send stop (bs # bss) h =
     do { h \<leftarrow> bus_frame start send stop bs h; bus_frames start send stop bss h }"

lemma bus_frames_append:
  "bus_frames start send stop (xs @ ys) h =
     do { h \<leftarrow> bus_frames start send stop xs h; bus_frames start send stop ys h }"
  by (induction xs arbitrary: h) (auto split: Option.bind_split)

text \<open>A controller that, after any history, ends every wait the driver makes.\<close>

definition responsive :: "iomem device \<Rightarrow> bool" where
  "responsive d \<longleftrightarrow> (\<forall>h. (\<exists>n. d (spin d (I2cIo 0x40) n h) (I2cIo 0x40) AND I2C_MASTER_START = 0) \<and>
     (\<exists>n. d (spin d (I2cIo 0x40) n h) (I2cIo 0x40) AND I2C_MASTER_BUSY = 0) \<and>
     (\<exists>n. d (spin d (I2cIo 0x04) n h) (I2cIo 0x04) AND I2C_TX_VALID = 0))"

text \<open>Sending one byte with the check of the answer whose result the drivers discard.\<close>

definition i2c_send_checked :: "iomem device \<Rightarrow> u8 \<Rightarrow> iolog \<Rightarrow> iolog option" where
  "i2c_send_checked d b h = do {
     h \<leftarrow> i2c_txNackBlocking d I2C_CTRL_MIPI (i2c_txByte I2C_CTRL_MIPI b h);
     Some (snd (i2c_rxAck d I2C_CTRL_MIPI h))
   }"

section \<open>The bus interface\<close>

locale bus_master =
  fixes start stop :: "'h \<Rightarrow> 'h option"
    and send :: "u8 \<Rightarrow> 'h \<Rightarrow> 'h option"
    and view :: "'h \<Rightarrow> bus_event list"
    and live :: bool
  assumes start_view: "start h = Some h' \<Longrightarrow> view h' = view h @ [BStart]"
    and send_view: "send b h = Some h' \<Longrightarrow> view h' = view h @ [BByte b]"
    and stop_view: "stop h = Some h' \<Longrightarrow> view h' = view h @ [BStop]"
    and start_live: "live \<Longrightarrow> \<exists>h'. start h = Some h'"
    and send_live: "live \<Longrightarrow> \<exists>h'. send b h = Some h'"
    and stop_live: "live \<Longrightarrow> \<exists>h'. stop h = Some h'"
begin

lemma send_all_view: "send_all send bs h = Some h' \<Longrightarrow> view h' = view h @ map BByte bs"
  by (induction bs arbitrary: h) (auto simp: bind_Some_iff dest: send_view)

lemma send_all_live: "live \<Longrightarrow> \<exists>h'. send_all send bs h = Some h'"
  using send_live by (induction bs arbitrary: h) (fastforce simp: bind_Some_iff)+

lemma frame_view: "bus_frame start send stop bs h = Some h' \<Longrightarrow> view h' = view h @ frame bs"
  by (auto simp: bus_frame_def frame_def bind_Some_iff dest!: start_view send_all_view stop_view)

lemma frame_live: "live \<Longrightarrow> \<exists>h'. bus_frame start send stop bs h = Some h'"
  using start_live send_all_live stop_live by (fastforce simp: bus_frame_def bind_Some_iff)

lemma frames_view:
  "bus_frames start send stop bss h = Some h' \<Longrightarrow> view h' = view h @ concat (map frame bss)"
  by (induction bss arbitrary: h) (auto simp: bind_Some_iff dest!: frame_view)

lemma frames_live: "live \<Longrightarrow> \<exists>h'. bus_frames start send stop bss h = Some h'"
  using frame_live by (induction bss arbitrary: h) (fastforce simp: bind_Some_iff)+

lemma frames_exact:
  "live \<Longrightarrow> \<exists>h'. bus_frames start send stop bss h = Some h' \<and> view h' = view h @ concat (map frame bss)"
  using frames_live frames_view by blast

end

lemma mipi_addr [simp]:
  "my_addr_pt (I2C_CTRL_MIPI + I2C_MASTER_STATUS) = I2cIo 0x40"
  "my_addr_pt (I2C_CTRL_MIPI + I2C_TX_DATA) = I2cIo 0"
  "my_addr_pt (I2C_CTRL_MIPI + I2C_TX_ACK) = I2cIo 4"
  "my_addr_pt (I2C_CTRL_MIPI + I2C_RX_DATA) = I2cIo 8"
  "my_addr_pt (I2C_CTRL_MIPI + I2C_RX_ACK) = I2cIo 0xC"
  by (simp_all add: my_addr_pt_def regs)

lemma bus_append [simp]: "bus (h @ k) = bus h @ bus k"
  by (simp add: bus_def)

lemma bus_single [simp]: "bus [x] = bus_of x" "bus [] = []"
  by (simp_all add: bus_def)

lemma bus_reads: "\<forall>b. written b k = [] \<Longrightarrow> bus k = []"
proof (induction k)
  case Nil
  then show ?case by simp
next
  case (Cons x k)
  have x: "\<And>a v. x \<noteq> Wr a v" using Cons.prems by (metis list.distinct(1) written.simps(3))
  then have "bus_of x = []" by (cases x) auto
  moreover have "\<forall>b. written b k = []" using Cons.prems x by (cases x) auto
  ultimately show ?case using Cons.IH by (simp add: bus_def)
qed

lemma wait_clear_view: "wait_clear d a bits h = Some h' \<Longrightarrow> bus h' = bus h"
  by (auto simp: wait_clear_def dest!: spin_until_Some bus_reads)

lemma wait_clear_live:
  "\<exists>n. d (spin d (my_addr_pt a) n h) (my_addr_pt a) AND bits = 0 \<Longrightarrow> \<exists>h'. wait_clear d a bits h = Some h'"
  using spin_until_returns [where p = "\<lambda>v. v AND bits = 0"] by (fastforce simp: wait_clear_def)

lemma tx_byte_low: "(ucast (ucast (b :: u8) OR I2C_TX_VALID OR I2C_TX_ENABLE OR I2C_TX_DISABLE_ON_DATA_CONFLICT :: u32) :: u8) = b"
proof -
  have w: "ucast b OR I2C_TX_VALID OR I2C_TX_ENABLE OR I2C_TX_DISABLE_ON_DATA_CONFLICT = ucast b OR (0xB00 :: u32)"
    by (simp add: regs or.assoc)
  have z: "(ucast (0xB00 :: u32) :: u8) = 0" by simp
  show ?thesis unfolding w ucast_u8_or z by simp
qed

lemma start_bus: "bus (i2c_masterStart I2C_CTRL_MIPI h) = bus h @ [BStart]"
  by (simp add: i2c_masterStart_def write_u32_def writel_def I2C_MASTER_START_def
      I2C_MASTER_START_DROPPED_def bit_or_iff bit_BIT del: BIT_numeral)

lemma stop_bus: "bus (i2c_masterStop I2C_CTRL_MIPI h) = bus h @ [BStop]"
  by (simp add: i2c_masterStop_def write_u32_def writel_def I2C_MASTER_STOP_def
      I2C_MASTER_STOP_DROPPED_def bit_or_iff bit_BIT del: BIT_numeral)

lemma tx_bus: "bus (i2c_txByte I2C_CTRL_MIPI b h) = bus h @ [BByte b]"
  by (simp add: i2c_txByte_def write_u32_def writel_def tx_byte_low)

lemma nack_bus: "bus (i2c_txNack I2C_CTRL_MIPI h) = bus h"
  by (simp add: i2c_txNack_def write_u32_def writel_def)

lemma rx_bus [simp]: "bus (snd (i2c_rxAck d I2C_CTRL_MIPI h)) = bus h"
  "bus (snd (i2c_rxNack d I2C_CTRL_MIPI h)) = bus h" "bus (snd (i2c_rxData d I2C_CTRL_MIPI h)) = bus h"
  by (simp_all add: i2c_rxAck_def i2c_rxNack_def i2c_rxData_def read_u32_def split_beta)

lemma nack_blocking_view:
  "i2c_txNackBlocking d I2C_CTRL_MIPI h = Some h' \<Longrightarrow> bus h' = bus h"
  by (auto simp: i2c_txNackBlocking_def i2c_txAckWait_def nack_bus dest: wait_clear_view)

lemma nack_blocking_live:
  "responsive d \<Longrightarrow> \<exists>h'. i2c_txNackBlocking d I2C_CTRL_MIPI h = Some h'"
  unfolding i2c_txNackBlocking_def i2c_txAckWait_def
  by (rule wait_clear_live) (simp add: responsive_def)

interpretation mipi: bus_master "i2c_masterStartBlocking d I2C_CTRL_MIPI"
  "i2c_masterStopBlocking d I2C_CTRL_MIPI" "i2c_send_checked d" bus "responsive d" for d
proof unfold_locales
  fix h h' :: iolog and b :: u8
  show "i2c_masterStartBlocking d I2C_CTRL_MIPI h = Some h' \<Longrightarrow> bus h' = bus h @ [BStart]"
    by (auto simp: i2c_masterStartBlocking_def start_bus dest: wait_clear_view)
  show "i2c_send_checked d b h = Some h' \<Longrightarrow> bus h' = bus h @ [BByte b]"
    by (auto simp: i2c_send_checked_def bind_Some_iff tx_bus dest!: nack_blocking_view)
  show "i2c_masterStopBlocking d I2C_CTRL_MIPI h = Some h' \<Longrightarrow> bus h' = bus h @ [BStop]"
    by (auto simp: i2c_masterStopBlocking_def i2c_masterStopWait_def stop_bus dest: wait_clear_view)
  show "responsive d \<Longrightarrow> \<exists>h'. i2c_masterStartBlocking d I2C_CTRL_MIPI h = Some h'"
    unfolding i2c_masterStartBlocking_def by (rule wait_clear_live) (simp add: responsive_def)
  show "responsive d \<Longrightarrow> \<exists>h'. i2c_send_checked d b h = Some h'"
    using nack_blocking_live by (fastforce simp: i2c_send_checked_def bind_Some_iff)
  show "responsive d \<Longrightarrow> \<exists>h'. i2c_masterStopBlocking d I2C_CTRL_MIPI h = Some h'"
    unfolding i2c_masterStopBlocking_def i2c_masterStopWait_def
    by (rule wait_clear_live) (simp add: responsive_def)
qed

end
