(* ===== verification/PiCam.thy ===== *)
theory PiCam
  imports EvsocI2c
begin

text \<open>
  The camera module's sensor driver, kernel_modules/evsoc/src/PiCamDriver.c and the
  registers of PiCamDriver.h it writes: register write and read over the polled I2C
  master, image geometry, gains and the start-up sequence.
\<close>

named_theorems picam_regs \<open>sensor register numbers\<close>

section \<open>Sensor registers\<close>

definition mode_select :: u16 where [picam_regs]: "mode_select = 0x0100"
definition CSI_LANE_MODE :: u16 where [picam_regs]: "CSI_LANE_MODE = 0x0114"
definition DPHY_CTRL :: u16 where [picam_regs]: "DPHY_CTRL = 0x0128"
definition EXCK_FREQ_1 :: u16 where [picam_regs]: "EXCK_FREQ_1 = 0x012A"
definition EXCK_FREQ_0 :: u16 where [picam_regs]: "EXCK_FREQ_0 = 0x012B"
definition ANA_GAIN_GLOBAL_A :: u16 where [picam_regs]: "ANA_GAIN_GLOBAL_A = 0x0157"
definition DIG_GAIN_GLOBAL_A_1 :: u16 where [picam_regs]: "DIG_GAIN_GLOBAL_A_1 = 0x0158"
definition DIG_GAIN_GLOBAL_A_0 :: u16 where [picam_regs]: "DIG_GAIN_GLOBAL_A_0 = 0x0159"
definition COARSE_INTEGRATION_TIME_A_1 :: u16 where [picam_regs]: "COARSE_INTEGRATION_TIME_A_1 = 0x015A"
definition COARSE_INTEGRATION_TIME_A_0 :: u16 where [picam_regs]: "COARSE_INTEGRATION_TIME_A_0 = 0x015B"
definition FRM_LENGTH_A_1 :: u16 where [picam_regs]: "FRM_LENGTH_A_1 = 0x0160"
definition FRM_LENGTH_A_0 :: u16 where [picam_regs]: "FRM_LENGTH_A_0 = 0x0161"
definition LINE_LENGTH_A_1 :: u16 where [picam_regs]: "LINE_LENGTH_A_1 = 0x0162"
definition LINE_LENGTH_A_0 :: u16 where [picam_regs]: "LINE_LENGTH_A_0 = 0x0163"
definition X_ADD_STA_A_1 :: u16 where [picam_regs]: "X_ADD_STA_A_1 = 0x0164"
definition X_ADD_STA_A_0 :: u16 where [picam_regs]: "X_ADD_STA_A_0 = 0x0165"
definition X_ADD_END_A_1 :: u16 where [picam_regs]: "X_ADD_END_A_1 = 0x0166"
definition X_ADD_END_A_0 :: u16 where [picam_regs]: "X_ADD_END_A_0 = 0x0167"
definition Y_ADD_STA_A_1 :: u16 where [picam_regs]: "Y_ADD_STA_A_1 = 0x0168"
definition Y_ADD_STA_A_0 :: u16 where [picam_regs]: "Y_ADD_STA_A_0 = 0x0169"
definition Y_ADD_END_A_1 :: u16 where [picam_regs]: "Y_ADD_END_A_1 = 0x016A"
definition Y_ADD_END_A_0 :: u16 where [picam_regs]: "Y_ADD_END_A_0 = 0x016B"
definition x_output_size_A_1 :: u16 where [picam_regs]: "x_output_size_A_1 = 0x016C"
definition x_output_size_A_0 :: u16 where [picam_regs]: "x_output_size_A_0 = 0x016D"
definition y_output_size_A_1 :: u16 where [picam_regs]: "y_output_size_A_1 = 0x016E"
definition y_output_size_A_0 :: u16 where [picam_regs]: "y_output_size_A_0 = 0x016F"
definition X_ODD_INC_A :: u16 where [picam_regs]: "X_ODD_INC_A = 0x0170"
definition Y_ODD_INC_A :: u16 where [picam_regs]: "Y_ODD_INC_A = 0x0171"
definition IMG_ORIENTATION_A :: u16 where [picam_regs]: "IMG_ORIENTATION_A = 0x0172"
definition BINNING_MODE_H_A :: u16 where [picam_regs]: "BINNING_MODE_H_A = 0x0174"
definition BINNING_MODE_V_A :: u16 where [picam_regs]: "BINNING_MODE_V_A = 0x0175"
definition CSI_DATA_FORMAT_A_1 :: u16 where [picam_regs]: "CSI_DATA_FORMAT_A_1 = 0x018C"
definition CSI_DATA_FORMAT_A_0 :: u16 where [picam_regs]: "CSI_DATA_FORMAT_A_0 = 0x018D"
definition VTPXCK_DIV :: u16 where [picam_regs]: "VTPXCK_DIV = 0x0301"
definition VTSYCK_DIV :: u16 where [picam_regs]: "VTSYCK_DIV = 0x0303"
definition PREPLLCK_VT_DIV :: u16 where [picam_regs]: "PREPLLCK_VT_DIV = 0x0304"
definition PREPLLCK_OP_DIV :: u16 where [picam_regs]: "PREPLLCK_OP_DIV = 0x0305"
definition PLL_VT_MPY_1 :: u16 where [picam_regs]: "PLL_VT_MPY_1 = 0x0306"
definition PLL_VT_MPY_0 :: u16 where [picam_regs]: "PLL_VT_MPY_0 = 0x0307"
definition OPPXCK_DIV :: u16 where [picam_regs]: "OPPXCK_DIV = 0x0309"
definition OPSYCK_DIV :: u16 where [picam_regs]: "OPSYCK_DIV = 0x030B"
definition PLL_OP_MPY_1 :: u16 where [picam_regs]: "PLL_OP_MPY_1 = 0x030C"
definition PLL_OP_MPY_0 :: u16 where [picam_regs]: "PLL_OP_MPY_0 = 0x030D"
definition test_pattern_Ena :: u16 where [picam_regs]: "test_pattern_Ena = 0x0600"
definition test_pattern_mode :: u16 where [picam_regs]: "test_pattern_mode = 0x0601"
definition TP_WINDOW_WIDTH_1 :: u16 where [picam_regs]: "TP_WINDOW_WIDTH_1 = 0x0624"
definition TP_WINDOW_WIDTH_0 :: u16 where [picam_regs]: "TP_WINDOW_WIDTH_0 = 0x0625"
definition TP_WINDOW_HEIGHT_1 :: u16 where [picam_regs]: "TP_WINDOW_HEIGHT_1 = 0x0626"
definition TP_WINDOW_HEIGHT_0 :: u16 where [picam_regs]: "TP_WINDOW_HEIGHT_0 = 0x0627"

definition FRAME_WIDTH :: nat where [regs]: "FRAME_WIDTH = 1280"
definition FRAME_HEIGHT :: nat where [regs]: "FRAME_HEIGHT = 720"

section \<open>Register access\<close>

text \<open>
  \<open>assert(e)\<close> is defined as \<open>e\<close>: each byte is followed by a read of the acknowledge whose
  result is dropped, which is \<open>i2c_send_checked\<close>.
\<close>

definition PiCam_WriteRegData :: "iomem device \<Rightarrow> u16 \<Rightarrow> u8 \<Rightarrow> iolog \<Rightarrow> iolog option" where
  "PiCam_WriteRegData d reg data h = do {
     h \<leftarrow> i2c_masterStartBlocking d I2C_CTRL_MIPI h;
     h \<leftarrow> i2c_send_checked d (push_bit 1 0x10) h;
     h \<leftarrow> i2c_send_checked d (ucast (drop_bit 8 reg AND 0xFF)) h;
     h \<leftarrow> i2c_send_checked d (ucast (reg AND 0xFF)) h;
     h \<leftarrow> i2c_send_checked d (data AND 0xFF) h;
     i2c_masterStopBlocking d I2C_CTRL_MIPI h
   }"

definition PiCam_ReadRegData :: "iomem device \<Rightarrow> u16 \<Rightarrow> iolog \<Rightarrow> (u8 \<times> iolog) option" where
  "PiCam_ReadRegData d reg h = do {
     h \<leftarrow> i2c_masterStartBlocking d I2C_CTRL_MIPI h;
     h \<leftarrow> i2c_send_checked d (push_bit 1 0x10) h;
     h \<leftarrow> i2c_send_checked d (ucast (drop_bit 8 reg AND 0xFF)) h;
     h \<leftarrow> i2c_send_checked d (ucast (reg AND 0xFF)) h;
     h \<leftarrow> i2c_masterStopBlocking d I2C_CTRL_MIPI h;
     h \<leftarrow> i2c_masterStartBlocking d I2C_CTRL_MIPI h;
     h \<leftarrow> i2c_send_checked d (push_bit 1 0x10 OR 0x01) h;
     h \<leftarrow> i2c_txNackBlocking d I2C_CTRL_MIPI (i2c_txByte I2C_CTRL_MIPI 0xFF h);
     let (nack, h) = i2c_rxNack d I2C_CTRL_MIPI h;
     let (outdata, h) = i2c_rxData d I2C_CTRL_MIPI h;
     h \<leftarrow> i2c_masterStopBlocking d I2C_CTRL_MIPI h;
     Some (ucast outdata, h)
   }"

section \<open>Set-up operations\<close>

definition AccessCommSeq :: "iomem device \<Rightarrow> iolog \<Rightarrow> iolog option" where
  "AccessCommSeq d h = do {
     h \<leftarrow> PiCam_WriteRegData d 0x30EB 0x05 h;
     h \<leftarrow> PiCam_WriteRegData d 0x30EB 0x0C h;
     h \<leftarrow> PiCam_WriteRegData d 0x300A 0xFF h;
     h \<leftarrow> PiCam_WriteRegData d 0x300B 0xFF h;
     h \<leftarrow> PiCam_WriteRegData d 0x30EB 0x05 h;
     PiCam_WriteRegData d 0x30EB 0x09 h
   }"

definition PiCam_Output_Size :: "iomem device \<Rightarrow> u16 \<Rightarrow> u16 \<Rightarrow> iolog \<Rightarrow> iolog option" where
  "PiCam_Output_Size d X Y h = do {
     h \<leftarrow> PiCam_WriteRegData d x_output_size_A_1 (ucast (drop_bit 8 X)) h;
     h \<leftarrow> PiCam_WriteRegData d x_output_size_A_0 (ucast (X AND 0xFF)) h;
     h \<leftarrow> PiCam_WriteRegData d y_output_size_A_1 (ucast (drop_bit 8 Y)) h;
     PiCam_WriteRegData d y_output_size_A_0 (ucast (Y AND 0xFF)) h
   }"

definition PiCam_Output_activePixel :: "iomem device \<Rightarrow> u16 \<Rightarrow> u16 \<Rightarrow> u16 \<Rightarrow> u16 \<Rightarrow> iolog \<Rightarrow> iolog option" where
  "PiCam_Output_activePixel d XStart XEnd YStart YEnd h = do {
     h \<leftarrow> PiCam_WriteRegData d X_ADD_STA_A_1 (ucast (drop_bit 8 XStart)) h;
     h \<leftarrow> PiCam_WriteRegData d X_ADD_STA_A_0 (ucast (XStart AND 0xFF)) h;
     h \<leftarrow> PiCam_WriteRegData d X_ADD_END_A_1 (ucast (drop_bit 8 XEnd)) h;
     h \<leftarrow> PiCam_WriteRegData d X_ADD_END_A_0 (ucast (XEnd AND 0xFF)) h;
     h \<leftarrow> PiCam_WriteRegData d Y_ADD_STA_A_1 (ucast (drop_bit 8 YStart)) h;
     h \<leftarrow> PiCam_WriteRegData d Y_ADD_STA_A_0 (ucast (YStart AND 0xFF)) h;
     h \<leftarrow> PiCam_WriteRegData d Y_ADD_END_A_1 (ucast (drop_bit 8 YEnd)) h;
     PiCam_WriteRegData d Y_ADD_END_A_0 (ucast (YEnd AND 0xFF)) h
   }"

definition PiCam_Output_activePixelX :: "iomem device \<Rightarrow> u16 \<Rightarrow> u16 \<Rightarrow> iolog \<Rightarrow> iolog option" where
  "PiCam_Output_activePixelX d XStart XEnd h = do {
     h \<leftarrow> PiCam_WriteRegData d X_ADD_STA_A_1 (ucast (drop_bit 8 XStart)) h;
     h \<leftarrow> PiCam_WriteRegData d X_ADD_STA_A_0 (ucast (XStart AND 0xFF)) h;
     h \<leftarrow> PiCam_WriteRegData d X_ADD_END_A_1 (ucast (drop_bit 8 XEnd)) h;
     PiCam_WriteRegData d X_ADD_END_A_0 (ucast (XEnd AND 0xFF)) h
   }"

definition PiCam_Output_activePixelY :: "iomem device \<Rightarrow> u16 \<Rightarrow> u16 \<Rightarrow> iolog \<Rightarrow> iolog option" where
  "PiCam_Output_activePixelY d YStart YEnd h = do {
     h \<leftarrow> PiCam_WriteRegData d Y_ADD_STA_A_1 (ucast (drop_bit 8 YStart)) h;
     h \<leftarrow> PiCam_WriteRegData d Y_ADD_STA_A_0 (ucast (YStart AND 0xFF)) h;
     h \<leftarrow> PiCam_WriteRegData d Y_ADD_END_A_1 (ucast (drop_bit 8 YEnd)) h;
     PiCam_WriteRegData d Y_ADD_END_A_0 (ucast (YEnd AND 0xFF)) h
   }"

definition PiCam_SetBinningMode :: "iomem device \<Rightarrow> u8 \<Rightarrow> u8 \<Rightarrow> iolog \<Rightarrow> iolog option" where
  "PiCam_SetBinningMode d Xmode Ymode h = do {
     let Xmode = (if Xmode \<ge> 3 then 3 else Xmode);
     let Ymode = (if Ymode \<ge> 3 then 3 else Ymode);
     h \<leftarrow> PiCam_WriteRegData d BINNING_MODE_H_A Xmode h;
     PiCam_WriteRegData d BINNING_MODE_V_A Ymode h
   }"

definition PiCam_Output_ColorBarSize :: "iomem device \<Rightarrow> u16 \<Rightarrow> u16 \<Rightarrow> iolog \<Rightarrow> iolog option" where
  "PiCam_Output_ColorBarSize d X Y h = do {
     h \<leftarrow> PiCam_WriteRegData d TP_WINDOW_WIDTH_1 (ucast (drop_bit 8 X)) h;
     h \<leftarrow> PiCam_WriteRegData d TP_WINDOW_WIDTH_0 (ucast (X AND 0xFF)) h;
     h \<leftarrow> PiCam_WriteRegData d TP_WINDOW_HEIGHT_1 (ucast (drop_bit 8 Y)) h;
     PiCam_WriteRegData d TP_WINDOW_HEIGHT_0 (ucast (Y AND 0xFF)) h
   }"

definition PiCam_TestPattern ::
  "iomem device \<Rightarrow> u8 \<Rightarrow> u8 \<Rightarrow> u16 \<Rightarrow> u16 \<Rightarrow> iolog \<Rightarrow> iolog option" where
  "PiCam_TestPattern d Enable mode X Y h = do {
     h \<leftarrow> PiCam_WriteRegData d test_pattern_Ena 0x00 h;
     let mode = (if Enable = 0 then 0 else mode);
     h \<leftarrow> PiCam_WriteRegData d test_pattern_mode mode h;
     PiCam_Output_ColorBarSize d X Y h
   }"

definition PiCam_Gainfilter :: "iomem device \<Rightarrow> u8 \<Rightarrow> u16 \<Rightarrow> iolog \<Rightarrow> iolog option" where
  "PiCam_Gainfilter d AGain DGain h = do {
     h \<leftarrow> PiCam_WriteRegData d ANA_GAIN_GLOBAL_A (AGain AND 0xFF) h;
     h \<leftarrow> PiCam_WriteRegData d DIG_GAIN_GLOBAL_A_1 (ucast (drop_bit 8 DGain AND 0x0F)) h;
     PiCam_WriteRegData d DIG_GAIN_GLOBAL_A_0 (ucast (DGain AND 0xFF)) h
   }"

section \<open>Start-up\<close>

definition PiCam_init :: "iomem device \<Rightarrow> iolog \<Rightarrow> iolog option" where
  "PiCam_init d h = do {
     h \<leftarrow> PiCam_WriteRegData d mode_select 0x00 h;
     h \<leftarrow> AccessCommSeq d h;
     h \<leftarrow> PiCam_WriteRegData d CSI_LANE_MODE 0x01 h;
     h \<leftarrow> PiCam_WriteRegData d DPHY_CTRL 0x00 h;
     h \<leftarrow> PiCam_WriteRegData d EXCK_FREQ_1 0x18 h;
     h \<leftarrow> PiCam_WriteRegData d EXCK_FREQ_0 0x00 h;
     h \<leftarrow> PiCam_WriteRegData d FRM_LENGTH_A_1 0x04 h;
     h \<leftarrow> PiCam_WriteRegData d FRM_LENGTH_A_0 0x59 h;
     h \<leftarrow> PiCam_WriteRegData d LINE_LENGTH_A_1 0x0D h;
     h \<leftarrow> PiCam_WriteRegData d LINE_LENGTH_A_0 0x78 h;
     h \<leftarrow> PiCam_Output_activePixel d 680 3279 0 2463 h;
     h \<leftarrow> PiCam_Output_Size d (of_nat FRAME_WIDTH) (of_nat FRAME_HEIGHT) h;
     h \<leftarrow> PiCam_WriteRegData d X_ODD_INC_A 0x01 h;
     h \<leftarrow> PiCam_WriteRegData d Y_ODD_INC_A 0x01 h;
     h \<leftarrow> PiCam_SetBinningMode d 0 0 h;
     h \<leftarrow> PiCam_WriteRegData d CSI_DATA_FORMAT_A_1 0x0A h;
     h \<leftarrow> PiCam_WriteRegData d CSI_DATA_FORMAT_A_0 0x0A h;
     h \<leftarrow> PiCam_WriteRegData d VTPXCK_DIV 0x05 h;
     h \<leftarrow> PiCam_WriteRegData d VTSYCK_DIV 0x01 h;
     h \<leftarrow> PiCam_WriteRegData d PREPLLCK_VT_DIV 0x03 h;
     h \<leftarrow> PiCam_WriteRegData d PREPLLCK_OP_DIV 0x03 h;
     h \<leftarrow> PiCam_WriteRegData d PLL_VT_MPY_1 0x00 h;
     h \<leftarrow> PiCam_WriteRegData d PLL_VT_MPY_0 0x39 h;
     h \<leftarrow> PiCam_WriteRegData d OPPXCK_DIV 0x0A h;
     h \<leftarrow> PiCam_WriteRegData d OPSYCK_DIV 0x01 h;
     h \<leftarrow> PiCam_WriteRegData d PLL_OP_MPY_1 0x00 h;
     h \<leftarrow> PiCam_WriteRegData d PLL_OP_MPY_0 0x72 h;
     h \<leftarrow> PiCam_WriteRegData d OPPXCK_DIV 0x0A h;
     h \<leftarrow> PiCam_WriteRegData d OPSYCK_DIV 0x01 h;
     h \<leftarrow> PiCam_WriteRegData d PLL_OP_MPY_1 0x00 h;
     h \<leftarrow> PiCam_WriteRegData d PLL_OP_MPY_0 0x72 h;
     h \<leftarrow> PiCam_WriteRegData d mode_select 0x01 h;
     h \<leftarrow> PiCam_Gainfilter d 0xB9 0x200 h;
     h \<leftarrow> PiCam_WriteRegData d LINE_LENGTH_A_1 0x0D h;
     h \<leftarrow> PiCam_WriteRegData d LINE_LENGTH_A_0 0x78 h;
     h \<leftarrow> PiCam_WriteRegData d FRM_LENGTH_A_1 0x0A h;
     h \<leftarrow> PiCam_WriteRegData d FRM_LENGTH_A_0 0xA8 h;
     h \<leftarrow> PiCam_WriteRegData d COARSE_INTEGRATION_TIME_A_1 0x0A h;
     h \<leftarrow> PiCam_WriteRegData d COARSE_INTEGRATION_TIME_A_0 0x54 h;
     PiCam_WriteRegData d IMG_ORIENTATION_A 0x00 h
   }"

section \<open>Register writes on the bus\<close>

text \<open>The frame that carries a register write, and the writes a device sees on the bus.\<close>

definition reg_frame :: "u8 \<Rightarrow> u16 \<times> u8 \<Rightarrow> u8 list" where
  "reg_frame dev rv = [dev, ucast (drop_bit 8 (fst rv)), ucast (fst rv), snd rv]"

fun frames_of :: "u8 list \<Rightarrow> bus_event list \<Rightarrow> u8 list list" where
  "frames_of cur [] = []"
| "frames_of cur (BStart # evs) = frames_of [] evs"
| "frames_of cur (BByte b # evs) = frames_of (cur @ [b]) evs"
| "frames_of cur (BStop # evs) = cur # frames_of [] evs"

fun reg_write_of :: "u8 \<Rightarrow> u8 list \<Rightarrow> (u16 \<times> u8) list" where
  "reg_write_of dev [a, hi, lo, v] =
     (if a = dev then [(push_bit 8 (ucast hi) OR ucast lo, v)] else [])"
| "reg_write_of dev _ = []"

definition reg_writes :: "u8 \<Rightarrow> bus_event list \<Rightarrow> (u16 \<times> u8) list" where
  "reg_writes dev evs = concat (map (reg_write_of dev) (frames_of [] evs))"

text \<open>The register contents a sensor is left with by a sequence of bus events.\<close>

definition sensor :: "u8 \<Rightarrow> bus_event list \<Rightarrow> u16 \<rightharpoonup> u8" where
  "sensor dev evs = map_of (rev (reg_writes dev evs))"

lemma frames_of_bytes: "frames_of cur (map BByte bs @ BStop # evs) = (cur @ bs) # frames_of [] evs"
  by (induction bs arbitrary: cur) auto

lemma frames_of_frame [simp]: "frames_of cur (frame bs @ evs) = bs # frames_of [] evs"
  using frames_of_bytes [of "[]" bs evs] by (simp add: frame_def)

lemma frames_of_frames: "frames_of [] (concat (map frame bss)) = bss"
  by (induction bss) auto

lemma hi_lo_u16: "push_bit 8 (ucast (ucast (drop_bit 8 r) :: u8)) OR ucast (ucast r :: u8) = (r :: u16)"
  by (rule bit_word_eqI) (auto simp: bit_simps)

lemma reg_write_of_frame [simp]: "reg_write_of dev (reg_frame dev rv) = [rv]"
  by (cases rv) (simp add: reg_frame_def hi_lo_u16)

lemma reg_writes_frames:
  "reg_writes dev (concat (map frame (map (reg_frame dev) rvs))) = rvs"
  unfolding reg_writes_def frames_of_frames by (induction rvs) simp_all

section \<open>Sequences of register writes\<close>

fun picam_writes :: "iomem device \<Rightarrow> (u16 \<times> u8) list \<Rightarrow> iolog \<Rightarrow> iolog option" where
  "picam_writes d [] h = Some h"
| "picam_writes d (rv # rvs) h =
     do { h \<leftarrow> PiCam_WriteRegData d (fst rv) (snd rv) h; picam_writes d rvs h }"

lemma u16_FF: "(0xFF :: u16) = mask 8"
  by (simp add: mask_eq_exp_minus_1)

lemma u16_low_byte: "(ucast (r AND 0xFF :: u16) :: u8) = ucast r"
  unfolding u16_FF by (rule bit_word_eqI) (auto simp: bit_simps)

lemma u16_high_byte: "(ucast (drop_bit 8 r AND 0xFF :: u16) :: u8) = ucast (drop_bit 8 r)"
  unfolding u16_FF by (rule bit_word_eqI) (auto simp: bit_simps)

lemma PiCam_WriteRegData_frame:
  "PiCam_WriteRegData d reg data h = bus_frame (i2c_masterStartBlocking d I2C_CTRL_MIPI)
     (i2c_send_checked d) (i2c_masterStopBlocking d I2C_CTRL_MIPI) (reg_frame 0x20 (reg, data)) h"
  by (simp add: PiCam_WriteRegData_def bus_frame_def reg_frame_def u16_low_byte u16_high_byte)

lemma picam_writes_frames:
  "picam_writes d rvs h = bus_frames (i2c_masterStartBlocking d I2C_CTRL_MIPI)
     (i2c_send_checked d) (i2c_masterStopBlocking d I2C_CTRL_MIPI) (map (reg_frame 0x20) rvs) h"
  by (induction rvs arbitrary: h) (simp_all add: PiCam_WriteRegData_frame split: Option.bind_split)

lemma picam_writes_bus:
  "picam_writes d rvs h = Some h' \<Longrightarrow> \<exists>evs. bus h' = bus h @ evs \<and> reg_writes 0x20 evs = rvs"
  unfolding picam_writes_frames using mipi.frames_view [of d] reg_writes_frames by blast

lemma picam_writes_live: "responsive d \<Longrightarrow> \<exists>h'. picam_writes d rvs h = Some h'"
  unfolding picam_writes_frames by (rule mipi.frames_live)

lemma picam_writes_fun:
  "picam_writes d [] = Some"
  "picam_writes d (rv # rvs) = (\<lambda>h. do { h \<leftarrow> PiCam_WriteRegData d (fst rv) (snd rv) h; picam_writes d rvs h })"
  by auto

lemma picam_writes_append:
  "picam_writes d (xs @ ys) h = do { h \<leftarrow> picam_writes d xs h; picam_writes d ys h }"
  by (induction xs arbitrary: h) (auto split: Option.bind_split)

definition hi8 :: "u16 \<Rightarrow> u8" where "hi8 v = ucast (drop_bit 8 v)"
definition lo8 :: "u16 \<Rightarrow> u8" where "lo8 v = ucast v"

lemma picam_ops:
  "AccessCommSeq d = picam_writes d [(0x30EB, 0x05), (0x30EB, 0x0C), (0x300A, 0xFF), (0x300B, 0xFF),
     (0x30EB, 0x05), (0x30EB, 0x09)]"
  "PiCam_Output_Size d X Y = picam_writes d [(x_output_size_A_1, hi8 X), (x_output_size_A_0, lo8 X),
     (y_output_size_A_1, hi8 Y), (y_output_size_A_0, lo8 Y)]"
  "PiCam_Output_activePixel d XS XE YS YE = picam_writes d [(X_ADD_STA_A_1, hi8 XS),
     (X_ADD_STA_A_0, lo8 XS), (X_ADD_END_A_1, hi8 XE), (X_ADD_END_A_0, lo8 XE), (Y_ADD_STA_A_1, hi8 YS),
     (Y_ADD_STA_A_0, lo8 YS), (Y_ADD_END_A_1, hi8 YE), (Y_ADD_END_A_0, lo8 YE)]"
  "PiCam_SetBinningMode d Xm Ym = picam_writes d [(BINNING_MODE_H_A, if Xm \<ge> 3 then 3 else Xm),
     (BINNING_MODE_V_A, if Ym \<ge> 3 then 3 else Ym)]"
  "PiCam_Gainfilter d A D = picam_writes d [(ANA_GAIN_GLOBAL_A, A),
     (DIG_GAIN_GLOBAL_A_1, ucast (drop_bit 8 D AND 0x0F)), (DIG_GAIN_GLOBAL_A_0, lo8 D)]"
  by (rule ext; simp add: AccessCommSeq_def PiCam_Output_Size_def PiCam_Output_activePixel_def
      PiCam_SetBinningMode_def PiCam_Gainfilter_def Let_def hi8_def lo8_def u16_low_byte picam_writes_fun)+

definition picam_init_seq :: "(u16 \<times> u8) list" where
  "picam_init_seq =
    [(mode_select, 0x00), (0x30EB, 0x05), (0x30EB, 0x0C), (0x300A, 0xFF), (0x300B, 0xFF),
     (0x30EB, 0x05), (0x30EB, 0x09), (CSI_LANE_MODE, 0x01), (DPHY_CTRL, 0x00), (EXCK_FREQ_1, 0x18),
     (EXCK_FREQ_0, 0x00), (FRM_LENGTH_A_1, 0x04), (FRM_LENGTH_A_0, 0x59), (LINE_LENGTH_A_1, 0x0D),
     (LINE_LENGTH_A_0, 0x78),
     (X_ADD_STA_A_1, hi8 680), (X_ADD_STA_A_0, lo8 680), (X_ADD_END_A_1, hi8 3279),
     (X_ADD_END_A_0, lo8 3279), (Y_ADD_STA_A_1, 0), (Y_ADD_STA_A_0, 0), (Y_ADD_END_A_1, hi8 2463),
     (Y_ADD_END_A_0, lo8 2463),
     (x_output_size_A_1, hi8 1280), (x_output_size_A_0, lo8 1280), (y_output_size_A_1, hi8 720),
     (y_output_size_A_0, lo8 720), (X_ODD_INC_A, 1), (Y_ODD_INC_A, 1), (BINNING_MODE_H_A, 0),
     (BINNING_MODE_V_A, 0), (CSI_DATA_FORMAT_A_1, 0x0A), (CSI_DATA_FORMAT_A_0, 0x0A),
     (VTPXCK_DIV, 5), (VTSYCK_DIV, 1), (PREPLLCK_VT_DIV, 3), (PREPLLCK_OP_DIV, 3), (PLL_VT_MPY_1, 0),
     (PLL_VT_MPY_0, 0x39), (OPPXCK_DIV, 0x0A), (OPSYCK_DIV, 1), (PLL_OP_MPY_1, 0), (PLL_OP_MPY_0, 0x72),
     (OPPXCK_DIV, 0x0A), (OPSYCK_DIV, 1), (PLL_OP_MPY_1, 0), (PLL_OP_MPY_0, 0x72), (mode_select, 1),
     (ANA_GAIN_GLOBAL_A, 0xB9), (DIG_GAIN_GLOBAL_A_1, 2), (DIG_GAIN_GLOBAL_A_0, 0),
     (LINE_LENGTH_A_1, 0x0D), (LINE_LENGTH_A_0, 0x78), (FRM_LENGTH_A_1, 0x0A), (FRM_LENGTH_A_0, 0xA8),
     (COARSE_INTEGRATION_TIME_A_1, 0x0A), (COARSE_INTEGRATION_TIME_A_0, 0x54), (IMG_ORIENTATION_A, 0)]"

lemma PiCam_init_writes: "PiCam_init d = picam_writes d picam_init_seq"
proof (rule ext)
  fix h
  have z: "hi8 0 = 0" "lo8 0 = 0" "(ucast (drop_bit 8 (0x200 :: u16) AND 0x0F) :: u8) = 2" "lo8 0x200 = 0"
    by (simp_all add: hi8_def lo8_def)
  show "PiCam_init d h = picam_writes d picam_init_seq h"
    by (simp add: PiCam_init_def picam_init_seq_def picam_ops z FRAME_WIDTH_def FRAME_HEIGHT_def
        Option.bind_assoc picam_writes_fun)
qed

text \<open>
  On a responsive controller the start-up of the sensor always completes, and whatever
  the sensor held before, it is then streaming at 1280 x 720 out of the window 680..3279 x
  0..2463 without binning, with line length 0x0D78, frame length 0x0AA8, exposure 0x0A54
  and analogue gain 0xB9.
\<close>

theorem PiCam_init_sensor:
  assumes "responsive d"
  shows "\<exists>h' evs. PiCam_init d h = Some h' \<and> bus h' = bus h @ evs \<and>
    map (sensor 0x20 evs) [mode_select, x_output_size_A_1, x_output_size_A_0, y_output_size_A_1,
      y_output_size_A_0, X_ADD_STA_A_1, X_ADD_STA_A_0, X_ADD_END_A_1, X_ADD_END_A_0, Y_ADD_STA_A_1,
      Y_ADD_STA_A_0, Y_ADD_END_A_1, Y_ADD_END_A_0, BINNING_MODE_H_A, BINNING_MODE_V_A,
      LINE_LENGTH_A_1, LINE_LENGTH_A_0, FRM_LENGTH_A_1, FRM_LENGTH_A_0,
      COARSE_INTEGRATION_TIME_A_1, COARSE_INTEGRATION_TIME_A_0, ANA_GAIN_GLOBAL_A] =
    map Some [1, 0x05, 0x00, 0x02, 0xD0, 0x02, 0xA8, 0x0C, 0xCF, 0, 0, 0x09, 0x9F, 0, 0,
      0x0D, 0x78, 0x0A, 0xA8, 0x0A, 0x54, 0xB9]"
proof -
  obtain h' where run: "PiCam_init d h = Some h'"
    using picam_writes_live [OF assms] unfolding PiCam_init_writes by blast
  then obtain evs where b: "bus h' = bus h @ evs" and w: "reg_writes 0x20 evs = picam_init_seq"
    using picam_writes_bus unfolding PiCam_init_writes by blast
  have n: "hi8 680 = 0x02" "lo8 680 = 0xA8" "hi8 3279 = 0x0C" "lo8 3279 = 0xCF" "hi8 2463 = 0x09"
    "lo8 2463 = 0x9F" "hi8 1280 = 5" "lo8 1280 = 0" "hi8 720 = 2" "lo8 720 = 0xD0"
    by (simp_all add: hi8_def lo8_def)
  show ?thesis
    by (intro exI [of _ h'] exI [of _ evs], simp add: run b sensor_def w picam_init_seq_def picam_regs n)
qed

lemma responsive_zero: "responsive (\<lambda>h a. 0)"
  by (simp add: responsive_def)

theorem PiCam_init_sensor_witness:
  "\<exists>h' evs. PiCam_init (\<lambda>h a. 0) [] = Some h' \<and> bus h' = evs \<and>
     sensor 0x20 evs mode_select = Some 1 \<and> sensor 0x20 evs y_output_size_A_0 = Some 0xD0"
  using PiCam_init_sensor [OF responsive_zero, of "[]"] by auto

end
