(* ===== verification/PiCamV3.thy ===== *)
theory PiCamV3
  imports PiCam
begin

text \<open>
  The driver of the IMX708 camera module, kernel_modules/evsoc/src/PiCamV3Driver.c, with
  the register tables of PiCamV3Driver.h: streaming control, the configuration
  sequences, gains, exposure and the DW9807 lens actuator.
\<close>

section \<open>Registers and tables\<close>

definition IMX708_I2C_ADDRESS :: u8 where [picam_regs]: "IMX708_I2C_ADDRESS = 0x1A"
definition IMX708_MODE_SELECT :: u16 where [picam_regs]: "IMX708_MODE_SELECT = 0x0100"
definition IMX708_ACTIVE :: u8 where [picam_regs]: "IMX708_ACTIVE = 0x01"
definition IMX708_SLEEP :: u8 where [picam_regs]: "IMX708_SLEEP = 0x00"
definition IMX708_REG_BASE_SPC_GAINS_L :: u16 where [picam_regs]: "IMX708_REG_BASE_SPC_GAINS_L = 0x7b10"
definition IMX708_REG_BASE_SPC_GAINS_R :: u16 where [picam_regs]: "IMX708_REG_BASE_SPC_GAINS_R = 0x7c00"
definition IMX708_LPF_INTENSITY_EN :: u16 where [picam_regs]: "IMX708_LPF_INTENSITY_EN = 0xC428"
definition IMX708_LPF_INTENSITY_ENABLED :: u8 where [picam_regs]: "IMX708_LPF_INTENSITY_ENABLED = 0x00"
definition IMX708_LPF_INTENSITY :: u16 where [picam_regs]: "IMX708_LPF_INTENSITY = 0xC429"
definition IMX708_REG_EXPOSURE :: u16 where [picam_regs]: "IMX708_REG_EXPOSURE = 0x0202"
definition IMX708_REG_ANALOG_GAIN :: u16 where [picam_regs]: "IMX708_REG_ANALOG_GAIN = 0x0204"
definition IMX708_ANA_GAIN_MIN :: u16 where [picam_regs]: "IMX708_ANA_GAIN_MIN = 112"
definition IMX708_ANA_GAIN_MAX :: u16 where [picam_regs]: "IMX708_ANA_GAIN_MAX = 960"
definition IMX708_REG_DIGITAL_GAIN :: u16 where [picam_regs]: "IMX708_REG_DIGITAL_GAIN = 0x020e"
definition IMX708_DGTL_GAIN_MIN :: u16 where [picam_regs]: "IMX708_DGTL_GAIN_MIN = 0x0100"
definition IMX708_DGTL_GAIN_MAX :: u16 where [picam_regs]: "IMX708_DGTL_GAIN_MAX = 0xffff"
definition DW9807_I2C_ADDRESS :: u8 where [picam_regs]: "DW9807_I2C_ADDRESS = 0x0C"
definition DW9807_MAX_FOCUS_POS :: u32 where [picam_regs]: "DW9807_MAX_FOCUS_POS = 1023"
definition DW9807_CTL_ADDR :: u8 where [picam_regs]: "DW9807_CTL_ADDR = 0x02"
definition DW9807_MSB_ADDR :: u8 where [picam_regs]: "DW9807_MSB_ADDR = 0x03"
definition DW9807_LSB_ADDR :: u8 where [picam_regs]: "DW9807_LSB_ADDR = 0x04"
definition DW9807_ACTIVE :: u8 where [picam_regs]: "DW9807_ACTIVE = 0x00"
definition DW9807_SLEEP :: u8 where [picam_regs]: "DW9807_SLEEP = 0x01"

definition mode_common_regs :: "(u16 \<times> u8) list" where
  "mode_common_regs =
    [(0x0100, 0x00), (0x0136, 0x18), (0x0137, 0x00), (0x33F0, 0x02), (0x33F1, 0x05),
     (0x3062, 0x00), (0x3063, 0x12), (0x3068, 0x00), (0x3069, 0x12), (0x306A, 0x00),
     (0x306B, 0x30), (0x3076, 0x00), (0x3077, 0x30), (0x3078, 0x00), (0x3079, 0x30),
     (0x5E54, 0x0C), (0x6E44, 0x00), (0xB0B6, 0x01), (0xE829, 0x00), (0xF001, 0x08),
     (0xF003, 0x08), (0xF00D, 0x10), (0xF00F, 0x10), (0xF031, 0x08), (0xF033, 0x08),
     (0xF03D, 0x10), (0xF03F, 0x10), (0x0112, 0x0A), (0x0113, 0x0A), (0x0114, 0x01),
     (0x0B8E, 0x01), (0x0B8F, 0x00), (0x0B94, 0x01), (0x0B95, 0x00), (0x3400, 0x01),
     (0x3478, 0x01), (0x3479, 0x1c), (0x3091, 0x01), (0x3092, 0x00), (0x3419, 0x00),
     (0xBCF1, 0x02), (0x3094, 0x01), (0x3095, 0x01), (0x3362, 0x00), (0x3363, 0x00),
     (0x3364, 0x00), (0x3365, 0x00), (0x0138, 0x01)]"

definition mode_1920x1080_cropped_regs :: "(u16 \<times> u8) list" where
  "mode_1920x1080_cropped_regs =
    [(0x0342, 0x1D), (0x0343, 0x10), (0x0340, 0x06), (0x0341, 0x40), (0x0344, 0x00),
     (0x0345, 0x00), (0x0346, 0x00), (0x0347, 0x00), (0x0348, 0x11), (0x0349, 0xFF),
     (0x034A, 0x0A), (0x034B, 0x1F), (0x0220, 0x62), (0x0222, 0x01), (0x0900, 0x00),
     (0x0901, 0x11), (0x0902, 0x0A), (0x3200, 0x01), (0x3201, 0x01), (0x32D5, 0x01),
     (0x32D6, 0x00), (0x32DB, 0x01), (0x32DF, 0x00), (0x350C, 0x00), (0x350D, 0x00),
     (0x0408, 0x00), (0x0409, 0x00), (0x040A, 0x00), (0x040B, 0x00), (0x040C, 0x07),
     (0x040D, 0x80), (0x040E, 0x04), (0x040F, 0x38), (0x034C, 0x07), (0x034D, 0x80),
     (0x034E, 0x04), (0x034F, 0x38), (0x0301, 0x05), (0x0303, 0x02), (0x0305, 0x02),
     (0x0306, 0x00), (0x0307, 0x7C), (0x030B, 0x02), (0x030D, 0x04), (0x0310, 0x01),
     (0x3CA0, 0x00), (0x3CA1, 0x64), (0x3CA4, 0x00), (0x3CA5, 0x00), (0x3CA6, 0x00),
     (0x3CA7, 0x00), (0x3CAA, 0x00), (0x3CAB, 0x00), (0x3CB8, 0x00), (0x3CB9, 0x08),
     (0x3CBA, 0x00), (0x3CBB, 0x00), (0x3CBC, 0x00), (0x3CBD, 0x3C), (0x3CBE, 0x00),
     (0x3CBF, 0x00), (0x0202, 0x03), (0x0203, 0x20), (0x0224, 0x01), (0x0225, 0xF4),
     (0x3116, 0x01), (0x3117, 0xF4), (0x0204, 0x03), (0x0205, 0x20), (0x0216, 0x00),
     (0x0217, 0x00), (0x0218, 0x01), (0x0219, 0x00), (0x020E, 0x03), (0x020F, 0x00),
     (0x3118, 0x00), (0x3119, 0x00), (0x311A, 0x01), (0x311B, 0x00), (0x341a, 0x00),
     (0x341b, 0x00), (0x341c, 0x00), (0x341d, 0x00), (0x341e, 0x01), (0x341f, 0x20),
     (0x3420, 0x00), (0x3421, 0xd8), (0x3366, 0x00), (0x3367, 0x00), (0x3368, 0x00),
     (0x3369, 0x00)]"

definition mode_2x2binned_1920x1080_regs :: "(u16 \<times> u8) list" where
  "mode_2x2binned_1920x1080_regs =
    [(0x0342, 0x1D), (0x0343, 0x10), (0x0340, 0x05), (0x0341, 0x20), (0x0344, 0x01),
     (0x0345, 0x80), (0x0346, 0x00), (0x0347, 0xD8), (0x0348, 0x10), (0x0349, 0x7F),
     (0x034A, 0x09), (0x034B, 0x47), (0x0220, 0x62), (0x0222, 0x01), (0x0900, 0x01),
     (0x0901, 0x22), (0x0902, 0x08), (0x3200, 0x41), (0x3201, 0x41), (0x32D5, 0x00),
     (0x32D6, 0x00), (0x32DB, 0x01), (0x32DF, 0x00), (0x350C, 0x00), (0x350D, 0x00),
     (0x0408, 0x00), (0x0409, 0x00), (0x040A, 0x00), (0x040B, 0x00), (0x040C, 0x07),
     (0x040D, 0x80), (0x040E, 0x04), (0x040F, 0x38), (0x034C, 0x07), (0x034D, 0x80),
     (0x034E, 0x04), (0x034F, 0x38), (0x0301, 0x05), (0x0303, 0x02), (0x0305, 0x02),
     (0x0306, 0x00), (0x0307, 0x7A), (0x030B, 0x02), (0x030D, 0x04), (0x0310, 0x01),
     (0x3CA0, 0x00), (0x3CA1, 0x3C), (0x3CA4, 0x00), (0x3CA5, 0x3C), (0x3CA6, 0x00),
     (0x3CA7, 0x00), (0x3CAA, 0x00), (0x3CAB, 0x00), (0x3CB8, 0x00), (0x3CB9, 0x1C),
     (0x3CBA, 0x00), (0x3CBB, 0x08), (0x3CBC, 0x00), (0x3CBD, 0x1E), (0x3CBE, 0x00),
     (0x3CBF, 0x0A), (0x0202, 0x03), (0x0203, 0x13), (0x0224, 0x20), (0x0225, 0xF4),
     (0x3116, 0x01), (0x3117, 0xF4), (0x0204, 0x03), (0x0205, 0x20), (0x0216, 0x00),
     (0x0217, 0x70), (0x0218, 0x01), (0x0219, 0x00), (0x020E, 0x01), (0x020F, 0x00),
     (0x3118, 0x00), (0x3119, 0x70), (0x311A, 0x01), (0x311B, 0x00), (0x341a, 0x00),
     (0x341b, 0x00), (0x341c, 0x00), (0x341d, 0x00), (0x341e, 0x00), (0x341f, 0x90),
     (0x3420, 0x00), (0x3421, 0x6c), (0x3366, 0x00), (0x3367, 0x00), (0x3368, 0x00),
     (0x3369, 0x00)]"

definition mode_hdr_1920x1080_regs :: "(u16 \<times> u8) list" where
  "mode_hdr_1920x1080_regs =
    [(0x0342, 0x14), (0x0343, 0x60), (0x0340, 0x09), (0x0341, 0xB5), (0x0344, 0x01),
     (0x0345, 0x80), (0x0346, 0x00), (0x0347, 0xD8), (0x0348, 0x10), (0x0349, 0x7F),
     (0x034A, 0x09), (0x034B, 0x47), (0x0220, 0x01), (0x0900, 0x00), (0x0901, 0x11),
     (0x0902, 0x0A), (0x3200, 0x01), (0x3201, 0x01), (0x32D5, 0x00), (0x32D6, 0x00),
     (0x32DB, 0x01), (0x32DF, 0x00), (0x350C, 0x00), (0x350D, 0x00), (0x0408, 0x00),
     (0x0409, 0x00), (0x040A, 0x00), (0x040B, 0x00), (0x040C, 0x07), (0x040D, 0x80),
     (0x040E, 0x04), (0x040F, 0x38), (0x034C, 0x07), (0x034D, 0x80), (0x034E, 0x04),
     (0x034F, 0x38), (0x0301, 0x05), (0x0303, 0x02), (0x0305, 0x02), (0x0306, 0x00),
     (0x0307, 0xA2), (0x030B, 0x02), (0x030D, 0x04), (0x030E, 0x01), (0x030F, 0x2C),
     (0x0310, 0x01), (0x3CA0, 0x00), (0x3CA1, 0x00), (0x3CA4, 0x00), (0x3CA5, 0x00),
     (0x3CA6, 0x00), (0x3CA7, 0x28), (0x3CAA, 0x00), (0x3CAB, 0x00), (0x3CB8, 0x00),
     (0x3CB9, 0x30), (0x3CBA, 0x00), (0x3CBB, 0x00), (0x3CBC, 0x00), (0x3CBD, 0x32),
     (0x3CBE, 0x00), (0x3CBF, 0x00), (0x0202, 0x0B), (0x0203, 0xA4), (0x0224, 0x02),
     (0x0225, 0xE9), (0x3116, 0x05), (0x3117, 0xD2), (0x0204, 0x03), (0x0205, 0x84),
     (0x0216, 0x03), (0x0217, 0x84), (0x0218, 0x01), (0x0219, 0x00), (0x020E, 0x01),
     (0x020F, 0x00), (0x3118, 0x03), (0x3119, 0x84), (0x311A, 0x01), (0x311B, 0x00),
     (0x341a, 0x00), (0x341b, 0x00), (0x341c, 0x00), (0x341d, 0x00), (0x341e, 0x00),
     (0x341f, 0x90), (0x3420, 0x00), (0x3421, 0x6c), (0x3360, 0x01), (0x3361, 0x01),
     (0x3366, 0x09), (0x3367, 0x00), (0x3368, 0x05), (0x3369, 0x10)]"

definition link_450Mhz_regs :: "(u16 \<times> u8) list" where
  "link_450Mhz_regs =
    [(0x030E, 0x01), (0x030F, 0x2c)]"

definition link_447Mhz_regs :: "(u16 \<times> u8) list" where
  "link_447Mhz_regs =
    [(0x030E, 0x01), (0x030F, 0x2a)]"

definition link_453Mhz_regs :: "(u16 \<times> u8) list" where
  "link_453Mhz_regs =
    [(0x030E, 0x01), (0x030F, 0x2e)]"

definition pdaf_gains :: "u8 list list" where
  "pdaf_gains =
    [[0x4c, 0x4c, 0x4c, 0x46, 0x3e, 0x38, 0x35, 0x35, 0x35],
     [0x35, 0x35, 0x35, 0x38, 0x3e, 0x46, 0x4c, 0x4c, 0x4c]]"

section \<open>Register access\<close>

definition PiCamV3_WriteRegData :: "iomem device \<Rightarrow> u16 \<Rightarrow> u8 \<Rightarrow> iolog \<Rightarrow> iolog option" where
  "PiCamV3_WriteRegData d reg data h = do {
     h \<leftarrow> i2c_masterStartBlocking d I2C_CTRL_MIPI h;
     h \<leftarrow> i2c_send_checked d (push_bit 1 IMX708_I2C_ADDRESS) h;
     h \<leftarrow> i2c_send_checked d (ucast (drop_bit 8 reg AND 0xFF)) h;
     h \<leftarrow> i2c_send_checked d (ucast (reg AND 0xFF)) h;
     h \<leftarrow> i2c_send_checked d (data AND 0xFF) h;
     i2c_masterStopBlocking d I2C_CTRL_MIPI h
   }"

definition PiCamV3_ReadRegData :: "iomem device \<Rightarrow> u16 \<Rightarrow> iolog \<Rightarrow> (u8 \<times> iolog) option" where
  "PiCamV3_ReadRegData d reg h = do {
     h \<leftarrow> i2c_masterStartBlocking d I2C_CTRL_MIPI h;
     h \<leftarrow> i2c_send_checked d (push_bit 1 IMX708_I2C_ADDRESS) h;
     h \<leftarrow> i2c_send_checked d (ucast (drop_bit 8 reg AND 0xFF)) h;
     h \<leftarrow> i2c_send_checked d (ucast (reg AND 0xFF)) h;
     h \<leftarrow> i2c_masterStopBlocking d I2C_CTRL_MIPI h;
     h \<leftarrow> i2c_masterStartBlocking d I2C_CTRL_MIPI h;
     h \<leftarrow> i2c_send_checked d (push_bit 1 0x1A OR 0x01) h;
     h \<leftarrow> i2c_txNackBlocking d I2C_CTRL_MIPI (i2c_txByte I2C_CTRL_MIPI 0xFF h);
     let (nack, h) = i2c_rxNack d I2C_CTRL_MIPI h;
     let (outdata, h) = i2c_rxData d I2C_CTRL_MIPI h;
     h \<leftarrow> i2c_masterStopBlocking d I2C_CTRL_MIPI h;
     Some (ucast outdata, h)
   }"

text \<open>The loop over a table of register values.\<close>

fun write_table :: "iomem device \<Rightarrow> (u16 \<times> u8) list \<Rightarrow> iolog \<Rightarrow> iolog option" where
  "write_table d [] h = Some h"
| "write_table d ((reg, v) # rvs) h =
     do { h \<leftarrow> PiCamV3_WriteRegData d reg v h; write_table d rvs h }"

section \<open>Configuration\<close>

definition PiCamV3_StartStreaming :: "iomem device \<Rightarrow> iolog \<Rightarrow> iolog option" where
  "PiCamV3_StartStreaming d h = PiCamV3_WriteRegData d IMX708_MODE_SELECT IMX708_ACTIVE h"

definition PiCamV3_StopStreaming :: "iomem device \<Rightarrow> iolog \<Rightarrow> iolog option" where
  "PiCamV3_StopStreaming d h = PiCamV3_WriteRegData d IMX708_MODE_SELECT IMX708_SLEEP h"

definition PiCamV3_ConfigCommon :: "iomem device \<Rightarrow> iolog \<Rightarrow> iolog option" where
  "PiCamV3_ConfigCommon d h = write_table d mode_common_regs h"

definition PiCamV3_ConfigFormat :: "iomem device \<Rightarrow> u8 \<Rightarrow> iolog \<Rightarrow> iolog option" where
  "PiCamV3_ConfigFormat d mode h =
     (if mode = 0 then write_table d mode_1920x1080_cropped_regs h
      else if mode = 1 then write_table d mode_2x2binned_1920x1080_regs h
      else if mode = 2 then write_table d mode_hdr_1920x1080_regs h
      else Some h)"

definition PiCamV3_ConfigLinkFreq :: "iomem device \<Rightarrow> iolog \<Rightarrow> iolog option" where
  "PiCamV3_ConfigLinkFreq d h = write_table d link_450Mhz_regs h"

definition PiCamV3_ConfigQuadBayerRemosaicAdjustment :: "iomem device \<Rightarrow> iolog \<Rightarrow> iolog option" where
  "PiCamV3_ConfigQuadBayerRemosaicAdjustment d h = do {
     h \<leftarrow> PiCamV3_WriteRegData d IMX708_LPF_INTENSITY_EN IMX708_LPF_INTENSITY_ENABLED h;
     PiCamV3_WriteRegData d IMX708_LPF_INTENSITY 0x04 h
   }"

fun pdaf_loop :: "iomem device \<Rightarrow> nat list \<Rightarrow> iolog \<Rightarrow> iolog option" where
  "pdaf_loop d [] h = Some h"
| "pdaf_loop d (i # is) h = do {
     h \<leftarrow> PiCamV3_WriteRegData d (IMX708_REG_BASE_SPC_GAINS_L + of_nat i) (pdaf_gains ! 0 ! (i mod 9)) h;
     h \<leftarrow> PiCamV3_WriteRegData d (IMX708_REG_BASE_SPC_GAINS_R + of_nat i) (pdaf_gains ! 1 ! (i mod 9)) h;
     pdaf_loop d is h
   }"

definition PiCamV3_SetPdafGain :: "iomem device \<Rightarrow> iolog \<Rightarrow> iolog option" where
  "PiCamV3_SetPdafGain d h = pdaf_loop d [0..<54] h"

definition PiCamV3_SetExposure :: "iomem device \<Rightarrow> u16 \<Rightarrow> iolog \<Rightarrow> iolog option" where
  "PiCamV3_SetExposure d val h = do {
     h \<leftarrow> PiCamV3_WriteRegData d IMX708_REG_EXPOSURE (ucast (drop_bit 8 (val AND 0xFF00))) h;
     PiCamV3_WriteRegData d (IMX708_REG_EXPOSURE + 1) (ucast (val AND 0xFF)) h
   }"

definition PiCamV3_SetAnalogueGain :: "iomem device \<Rightarrow> u16 \<Rightarrow> iolog \<Rightarrow> iolog option" where
  "PiCamV3_SetAnalogueGain d val h = do {
     let val = (if val > IMX708_ANA_GAIN_MAX then IMX708_ANA_GAIN_MAX else val);
     let val = (if val < IMX708_ANA_GAIN_MIN then IMX708_ANA_GAIN_MIN else val);
     h \<leftarrow> PiCamV3_WriteRegData d IMX708_REG_ANALOG_GAIN (ucast (drop_bit 8 (val AND 0xFF00))) h;
     PiCamV3_WriteRegData d (IMX708_REG_ANALOG_GAIN + 1) (ucast (val AND 0xFF)) h
   }"

definition PiCamV3_SetDigitalGain :: "iomem device \<Rightarrow> u16 \<Rightarrow> iolog \<Rightarrow> iolog option" where
  "PiCamV3_SetDigitalGain d val h = do {
     let val = (if val > IMX708_DGTL_GAIN_MAX then IMX708_DGTL_GAIN_MAX else val);
     let val = (if val < IMX708_DGTL_GAIN_MIN then IMX708_DGTL_GAIN_MIN else val);
     h \<leftarrow> PiCamV3_WriteRegData d IMX708_REG_DIGITAL_GAIN (ucast (drop_bit 8 (val AND 0xFF00))) h;
     PiCamV3_WriteRegData d (IMX708_REG_DIGITAL_GAIN + 1) (ucast (val AND 0xFF)) h
   }"

section \<open>Lens actuator\<close>

definition PiCamV3_OnActuator :: "iomem device \<Rightarrow> iolog \<Rightarrow> iolog option" where
  "PiCamV3_OnActuator d h = do {
     h \<leftarrow> i2c_masterStartBlocking d I2C_CTRL_MIPI h;
     h \<leftarrow> i2c_send_checked d (push_bit 1 DW9807_I2C_ADDRESS) h;
     h \<leftarrow> i2c_send_checked d DW9807_CTL_ADDR h;
     h \<leftarrow> i2c_txNackBlocking d I2C_CTRL_MIPI (i2c_txByte I2C_CTRL_MIPI DW9807_ACTIVE h);
     i2c_masterStopBlocking d I2C_CTRL_MIPI h
   }"

definition PiCamV3_OffActuator :: "iomem device \<Rightarrow> iolog \<Rightarrow> iolog option" where
  "PiCamV3_OffActuator d h = do {
     h \<leftarrow> i2c_masterStartBlocking d I2C_CTRL_MIPI h;
     h \<leftarrow> i2c_send_checked d (push_bit 1 DW9807_I2C_ADDRESS) h;
     h \<leftarrow> i2c_send_checked d DW9807_CTL_ADDR h;
     h \<leftarrow> i2c_txNackBlocking d I2C_CTRL_MIPI (i2c_txByte I2C_CTRL_MIPI DW9807_SLEEP h);
     i2c_masterStopBlocking d I2C_CTRL_MIPI h
   }"

definition PiCamV3_SetFocusStep :: "iomem device \<Rightarrow> u32 \<Rightarrow> iolog \<Rightarrow> iolog option" where
  "PiCamV3_SetFocusStep d focus_step h = do {
     let focus_step = (if focus_step \<ge> DW9807_MAX_FOCUS_POS then DW9807_MAX_FOCUS_POS
                       else if focus_step \<le> 0 then 0 else focus_step);
     h \<leftarrow> i2c_masterStartBlocking d I2C_CTRL_MIPI h;
     h \<leftarrow> i2c_send_checked d (push_bit 1 DW9807_I2C_ADDRESS) h;
     h \<leftarrow> i2c_send_checked d DW9807_MSB_ADDR h;
     h \<leftarrow> i2c_send_checked d (ucast (drop_bit 8 focus_step AND 0x03)) h;
     h \<leftarrow> i2c_masterStopBlocking d I2C_CTRL_MIPI h;
     h \<leftarrow> i2c_masterStartBlocking d I2C_CTRL_MIPI h;
     h \<leftarrow> i2c_send_checked d (push_bit 1 DW9807_I2C_ADDRESS) h;
     h \<leftarrow> i2c_send_checked d DW9807_LSB_ADDR h;
     h \<leftarrow> i2c_send_checked d (ucast (focus_step AND 0xFF)) h;
     i2c_masterStopBlocking d I2C_CTRL_MIPI h
   }"

section \<open>Start-up\<close>

definition PiCamV3_Init :: "iomem device \<Rightarrow> iolog \<Rightarrow> iolog option" where
  "PiCamV3_Init d h = do {
     h \<leftarrow> PiCamV3_StopStreaming d h;
     h \<leftarrow> PiCamV3_ConfigCommon d h;
     h \<leftarrow> PiCamV3_SetPdafGain d h;
     h \<leftarrow> PiCamV3_ConfigFormat d 1 h;
     h \<leftarrow> PiCamV3_ConfigLinkFreq d h;
     h \<leftarrow> PiCamV3_ConfigQuadBayerRemosaicAdjustment d h;
     h \<leftarrow> PiCamV3_OnActuator d h;
     h \<leftarrow> PiCamV3_SetFocusStep d 300 h;
     PiCamV3_OffActuator d h
   }"

section \<open>What the operations put on the bus\<close>

definition emits :: "iomem device \<Rightarrow> (iolog \<Rightarrow> iolog option) \<Rightarrow> u8 list list \<Rightarrow> bool" where
  "emits d f bss \<longleftrightarrow>
     (\<forall>h h'. f h = Some h' \<longrightarrow> bus h' = bus h @ concat (map frame bss)) \<and>
     (responsive d \<longrightarrow> (\<forall>h. \<exists>h'. f h = Some h'))"

lemma emits_seq:
  "emits d f xs \<Longrightarrow> emits d g ys \<Longrightarrow> emits d (\<lambda>h. Option.bind (f h) g) (xs @ ys)"
  by (fastforce simp: emits_def bind_Some_iff)

lemma emits_none: "emits d Some []"
  by (simp add: emits_def)

lemma emits_frame:
  "emits d (bus_frame (i2c_masterStartBlocking d I2C_CTRL_MIPI) (i2c_send_checked d)
     (i2c_masterStopBlocking d I2C_CTRL_MIPI) bs) [bs]"
  using mipi.frame_view [of d bs] mipi.frame_live [of d bs] by (auto simp: emits_def)

definition v3_frame :: "u16 \<times> u8 \<Rightarrow> u8 list" where
  "v3_frame rv = reg_frame 0x34 rv"

lemma emits_write: "emits d (PiCamV3_WriteRegData d reg v) [v3_frame (reg, v)]"
proof -
  have a: "push_bit 1 IMX708_I2C_ADDRESS = 0x34" by (simp add: picam_regs)
  have "PiCamV3_WriteRegData d reg v = bus_frame (i2c_masterStartBlocking d I2C_CTRL_MIPI)
     (i2c_send_checked d) (i2c_masterStopBlocking d I2C_CTRL_MIPI) (v3_frame (reg, v))"
    unfolding PiCamV3_WriteRegData_def [abs_def] a
    by (rule ext) (simp add: bus_frame_def v3_frame_def reg_frame_def u16_low_byte u16_high_byte)
  then show ?thesis using emits_frame by simp
qed

lemma emits_table: "emits d (write_table d rvs) (map v3_frame rvs)"
proof (induction rvs)
  case Nil
  have "write_table d [] = Some" by (rule ext) simp
  then show ?case using emits_none by simp
next
  case (Cons rv rvs)
  obtain r v where rv: "rv = (r, v)" by (cases rv)
  have "write_table d (rv # rvs) = (\<lambda>h. Option.bind (PiCamV3_WriteRegData d r v h) (write_table d rvs))"
    by (rule ext) (simp add: rv)
  then show ?case using emits_seq [OF emits_write Cons.IH] by (simp add: rv)
qed

definition pdaf_writes :: "nat list \<Rightarrow> (u16 \<times> u8) list" where
  "pdaf_writes is = concat (map (\<lambda>i.
     [(IMX708_REG_BASE_SPC_GAINS_L + of_nat i, pdaf_gains ! 0 ! (i mod 9)),
      (IMX708_REG_BASE_SPC_GAINS_R + of_nat i, pdaf_gains ! 1 ! (i mod 9))]) is)"

lemma emits_pdaf: "emits d (pdaf_loop d is) (map v3_frame (pdaf_writes is))"
proof (induction "is")
  case Nil
  have "pdaf_loop d [] = Some" by (rule ext) simp
  then show ?case using emits_none by (simp add: pdaf_writes_def)
next
  case (Cons i "is")
  have "pdaf_loop d (i # is) = (\<lambda>h. Option.bind
     (PiCamV3_WriteRegData d (IMX708_REG_BASE_SPC_GAINS_L + of_nat i) (pdaf_gains ! 0 ! (i mod 9)) h)
     (\<lambda>h. Option.bind
       (PiCamV3_WriteRegData d (IMX708_REG_BASE_SPC_GAINS_R + of_nat i) (pdaf_gains ! 1 ! (i mod 9)) h)
       (pdaf_loop d is)))"
    by (rule ext) simp
  then show ?case using emits_seq [OF emits_write emits_seq [OF emits_write Cons.IH]]
    by (simp add: pdaf_writes_def)
qed

lemma emits_unchecked_last:
  "emits d (\<lambda>h. do {
     h \<leftarrow> i2c_masterStartBlocking d I2C_CTRL_MIPI h;
     h \<leftarrow> i2c_send_checked d a h;
     h \<leftarrow> i2c_send_checked d b h;
     h \<leftarrow> i2c_txNackBlocking d I2C_CTRL_MIPI (i2c_txByte I2C_CTRL_MIPI c h);
     i2c_masterStopBlocking d I2C_CTRL_MIPI h }) [[a, b, c]]"
  unfolding emits_def
proof (intro conjI allI impI)
  fix h h'
  assume "do {
     h \<leftarrow> i2c_masterStartBlocking d I2C_CTRL_MIPI h;
     h \<leftarrow> i2c_send_checked d a h;
     h \<leftarrow> i2c_send_checked d b h;
     h \<leftarrow> i2c_txNackBlocking d I2C_CTRL_MIPI (i2c_txByte I2C_CTRL_MIPI c h);
     i2c_masterStopBlocking d I2C_CTRL_MIPI h } = Some h'"
  then show "bus h' = bus h @ concat (map frame [[a, b, c]])"
    by (auto simp: bind_Some_iff frame_def tx_bus
        dest!: mipi.start_view mipi.send_view nack_blocking_view mipi.stop_view)
next
  fix h
  assume r: "responsive d"
  obtain h1 where "i2c_masterStartBlocking d I2C_CTRL_MIPI h = Some h1" using mipi.start_live [OF r] by blast
  moreover obtain h2 where "i2c_send_checked d a h1 = Some h2" using mipi.send_live [OF r] by blast
  moreover obtain h3 where "i2c_send_checked d b h2 = Some h3" using mipi.send_live [OF r] by blast
  moreover obtain h4 where "i2c_txNackBlocking d I2C_CTRL_MIPI (i2c_txByte I2C_CTRL_MIPI c h3) = Some h4"
    using nack_blocking_live [OF r] by blast
  moreover obtain h5 where "i2c_masterStopBlocking d I2C_CTRL_MIPI h4 = Some h5"
    using mipi.stop_live [OF r] by blast
  ultimately show "\<exists>h'. do {
     h \<leftarrow> i2c_masterStartBlocking d I2C_CTRL_MIPI h;
     h \<leftarrow> i2c_send_checked d a h;
     h \<leftarrow> i2c_send_checked d b h;
     h \<leftarrow> i2c_txNackBlocking d I2C_CTRL_MIPI (i2c_txByte I2C_CTRL_MIPI c h);
     i2c_masterStopBlocking d I2C_CTRL_MIPI h } = Some h'"
    by simp
qed

lemma actuator_address: "push_bit 1 DW9807_I2C_ADDRESS = 0x18"
  by (simp add: picam_regs)

lemma emits_actuator:
  "emits d (PiCamV3_OnActuator d) [[0x18, 0x02, 0x00]]"
  "emits d (PiCamV3_OffActuator d) [[0x18, 0x02, 0x01]]"
  using emits_unchecked_last [of d "0x18" "0x02" 0] emits_unchecked_last [of d "0x18" "0x02" 1]
  unfolding PiCamV3_OnActuator_def [abs_def] PiCamV3_OffActuator_def [abs_def] actuator_address
  by (simp_all add: DW9807_CTL_ADDR_def DW9807_ACTIVE_def DW9807_SLEEP_def)

definition focus_clamp :: "u32 \<Rightarrow> u32" where
  "focus_clamp s = (if s \<ge> 1023 then 1023 else s)"

lemma emits_focus:
  "emits d (PiCamV3_SetFocusStep d s)
     [[0x18, 0x03, ucast (drop_bit 8 (focus_clamp s) AND 0x03)],
      [0x18, 0x04, ucast (focus_clamp s AND 0xFF)]]"
proof -
  have c: "(if s \<ge> DW9807_MAX_FOCUS_POS then DW9807_MAX_FOCUS_POS
                       else if s \<le> 0 then 0 else s) = focus_clamp s"
    by (simp add: focus_clamp_def picam_regs)
  have "PiCamV3_SetFocusStep d s = (\<lambda>h. Option.bind
     (bus_frame (i2c_masterStartBlocking d I2C_CTRL_MIPI) (i2c_send_checked d)
       (i2c_masterStopBlocking d I2C_CTRL_MIPI) [0x18, 0x03, ucast (drop_bit 8 (focus_clamp s) AND 0x03)] h)
     (bus_frame (i2c_masterStartBlocking d I2C_CTRL_MIPI) (i2c_send_checked d)
       (i2c_masterStopBlocking d I2C_CTRL_MIPI) [0x18, 0x04, ucast (focus_clamp s AND 0xFF)]))"
    unfolding PiCamV3_SetFocusStep_def [abs_def] c actuator_address Let_def
    by (rule ext) (simp add: bus_frame_def [abs_def] Option.bind_assoc DW9807_MSB_ADDR_def DW9807_LSB_ADDR_def)
  then show ?thesis using emits_seq [OF emits_frame emits_frame] by simp
qed


definition v3_init_frames :: "u8 list list" where
  "v3_init_frames =
     map v3_frame ([(IMX708_MODE_SELECT, IMX708_SLEEP)] @ mode_common_regs @ pdaf_writes [0..<54] @
       mode_2x2binned_1920x1080_regs @ link_450Mhz_regs @
       [(IMX708_LPF_INTENSITY_EN, IMX708_LPF_INTENSITY_ENABLED), (IMX708_LPF_INTENSITY, 0x04)]) @
     [[0x18, 0x02, 0x00], [0x18, 0x03, 0x01], [0x18, 0x04, 0x2C], [0x18, 0x02, 0x01]]"

lemma emits_parts:
  "emits d (PiCamV3_StopStreaming d) (map v3_frame [(IMX708_MODE_SELECT, IMX708_SLEEP)])"
  "emits d (PiCamV3_ConfigCommon d) (map v3_frame mode_common_regs)"
  "emits d (PiCamV3_SetPdafGain d) (map v3_frame (pdaf_writes [0..<54]))"
  "emits d (PiCamV3_ConfigFormat d 1) (map v3_frame mode_2x2binned_1920x1080_regs)"
  "emits d (PiCamV3_ConfigLinkFreq d) (map v3_frame link_450Mhz_regs)"
  "emits d (PiCamV3_ConfigQuadBayerRemosaicAdjustment d) (map v3_frame
     [(IMX708_LPF_INTENSITY_EN, IMX708_LPF_INTENSITY_ENABLED), (IMX708_LPF_INTENSITY, 0x04)])"
  using emits_write emits_table emits_pdaf emits_seq [OF emits_write emits_write]
  by (simp_all add: PiCamV3_StopStreaming_def [abs_def] PiCamV3_ConfigCommon_def [abs_def]
      PiCamV3_SetPdafGain_def [abs_def] PiCamV3_ConfigFormat_def [abs_def]
      PiCamV3_ConfigLinkFreq_def [abs_def] PiCamV3_ConfigQuadBayerRemosaicAdjustment_def [abs_def])

lemma emits_init: "emits d (PiCamV3_Init d) v3_init_frames"
proof -
  have f: "ucast (drop_bit 8 (focus_clamp 300) AND 0x03) = (0x01 :: u8)"
    "ucast (focus_clamp 300 AND 0xFF) = (0x2C :: u8)"
    by (simp_all add: focus_clamp_def)
  have focus: "emits d (PiCamV3_SetFocusStep d 300) [[0x18, 0x03, 0x01], [0x18, 0x04, 0x2C]]"
    using emits_focus [of d 300] unfolding f .
  have "emits d (PiCamV3_Init d)
    (map v3_frame [(IMX708_MODE_SELECT, IMX708_SLEEP)] @ map v3_frame mode_common_regs @
     map v3_frame (pdaf_writes [0..<54]) @ map v3_frame mode_2x2binned_1920x1080_regs @
     map v3_frame link_450Mhz_regs @ map v3_frame
       [(IMX708_LPF_INTENSITY_EN, IMX708_LPF_INTENSITY_ENABLED), (IMX708_LPF_INTENSITY, 0x04)] @
     [[0x18, 0x02, 0x00]] @ [[0x18, 0x03, 0x01], [0x18, 0x04, 0x2C]] @ [[0x18, 0x02, 0x01]])"
    unfolding PiCamV3_Init_def [abs_def]
    by (intro emits_seq emits_parts emits_actuator focus)
  then show ?thesis by (simp add: v3_init_frames_def)
qed

lemma frames_of_emitted:
  "emits d f bss \<Longrightarrow> f h = Some h' \<Longrightarrow> \<exists>evs. bus h' = bus h @ evs \<and> frames_of [] evs = bss"
  unfolding emits_def using frames_of_frames by blast

lemma v3_regs: "concat (map (reg_write_of 0x34) (map v3_frame rvs)) = rvs"
  by (induction rvs) (simp_all add: v3_frame_def)

lemma v3_init_writes:
  "concat (map (reg_write_of 0x34) v3_init_frames) =
     (IMX708_MODE_SELECT, IMX708_SLEEP) # mode_common_regs @ pdaf_writes [0..<54] @
       mode_2x2binned_1920x1080_regs @ link_450Mhz_regs @
       [(IMX708_LPF_INTENSITY_EN, IMX708_LPF_INTENSITY_ENABLED), (IMX708_LPF_INTENSITY, 0x04)]"
  unfolding v3_init_frames_def map_append concat_append v3_regs by simp

lemma u16_nat_inj: "i < 65536 \<Longrightarrow> j < 65536 \<Longrightarrow> (of_nat i :: u16) = of_nat j \<longleftrightarrow> i = j"
  by (simp add: word_of_nat_eq_iff take_bit_eq_mod)

lemma pdaf_keys:
  assumes "i < 54" "j < 54"
  shows "IMX708_REG_BASE_SPC_GAINS_L + of_nat i = IMX708_REG_BASE_SPC_GAINS_L + of_nat j \<longleftrightarrow> i = j"
    "IMX708_REG_BASE_SPC_GAINS_R + of_nat i = IMX708_REG_BASE_SPC_GAINS_R + of_nat j \<longleftrightarrow> i = j"
    "IMX708_REG_BASE_SPC_GAINS_R + of_nat i \<noteq> IMX708_REG_BASE_SPC_GAINS_L + of_nat j"
proof -
  have "IMX708_REG_BASE_SPC_GAINS_R + of_nat i = (of_nat (0x7c00 + i) :: u16)"
    "IMX708_REG_BASE_SPC_GAINS_L + of_nat j = (of_nat (0x7b10 + j) :: u16)"
    by (simp_all add: picam_regs)
  then show "IMX708_REG_BASE_SPC_GAINS_R + of_nat i \<noteq> IMX708_REG_BASE_SPC_GAINS_L + of_nat j"
    using assms by (simp only: u16_nat_inj)
qed (use assms in \<open>simp_all add: u16_nat_inj\<close>)

lemma map_of_pdaf:
  "i < n \<Longrightarrow> n \<le> 54 \<Longrightarrow>
     map_of (rev (pdaf_writes [0..<n])) (IMX708_REG_BASE_SPC_GAINS_L + of_nat i) = Some (pdaf_gains ! 0 ! (i mod 9)) \<and>
     map_of (rev (pdaf_writes [0..<n])) (IMX708_REG_BASE_SPC_GAINS_R + of_nat i) = Some (pdaf_gains ! 1 ! (i mod 9))"
proof (induction n)
  case 0
  then show ?case by simp
next
  case (Suc n)
  have eq: "pdaf_writes [0..<Suc n] = pdaf_writes [0..<n] @
      [(IMX708_REG_BASE_SPC_GAINS_L + of_nat n, pdaf_gains ! 0 ! (n mod 9)),
       (IMX708_REG_BASE_SPC_GAINS_R + of_nat n, pdaf_gains ! 1 ! (n mod 9))]"
    by (simp add: pdaf_writes_def)
  have b: "i < 54" "n < 54" using Suc.prems by simp_all
  have ne: "IMX708_REG_BASE_SPC_GAINS_L + of_nat i \<noteq> IMX708_REG_BASE_SPC_GAINS_R + of_nat n"
    "IMX708_REG_BASE_SPC_GAINS_R + of_nat i \<noteq> IMX708_REG_BASE_SPC_GAINS_L + of_nat n"
    using pdaf_keys(3) [OF b(2) b(1)] pdaf_keys(3) [OF b(1) b(2)] by auto
  show ?case
  proof (cases "i = n")
    case True
    then show ?thesis using ne by (simp add: eq del: upt_Suc)
  next
    case False
    then have "i < n" using Suc.prems by simp
    with Suc False ne show ?thesis by (simp add: eq u16_nat_inj del: upt_Suc)
  qed
qed

lemma later_tables_miss_pdaf:
  "list_all (\<lambda>rv. \<not> (0x7b10 \<le> fst rv \<and> fst rv < 0x7c36)) (mode_2x2binned_1920x1080_regs @ link_450Mhz_regs @
     [(IMX708_LPF_INTENSITY_EN, IMX708_LPF_INTENSITY_ENABLED), (IMX708_LPF_INTENSITY, 0x04)])"
  by code_simp

lemma map_of_misses:
  assumes "list_all (\<lambda>rv. \<not> (lo \<le> fst rv \<and> fst rv < hi)) ys" and "(lo :: u16) \<le> k" "k < hi"
  shows "map_of (rev (xs @ ys)) k = map_of (rev xs) k"
proof -
  have "k \<notin> fst ` set (rev ys)" using assms by (auto simp: list_all_iff)
  then show ?thesis by (simp add: map_add_def map_of_eq_None_iff [THEN iffD2])
qed

text \<open>
  On a responsive controller the start-up of the second camera always completes.  The
  sensor is left in standby with the 2x2-binned 1920 x 1080 geometry, the 450 MHz link and
  the phase-detection gains repeated with period 9 over both gain banks; the lens
  actuator is switched on, moved to position 300 (its high bits first) and switched off.
\<close>

theorem PiCamV3_Init_sensor:
  assumes "responsive d"
  shows "\<exists>h' evs. PiCamV3_Init d h = Some h' \<and> bus h' = bus h @ evs \<and>
    filter (\<lambda>f. hd f = 0x18) (frames_of [] evs) =
      [[0x18, 0x02, 0x00], [0x18, 0x03, 0x01], [0x18, 0x04, 0x2C], [0x18, 0x02, 0x01]] \<and>
    map (sensor 0x34 evs) [0x0100, 0x034C, 0x034D, 0x034E, 0x034F, 0x030E, 0x030F, 0xC428, 0xC429] =
      map Some [0, 0x07, 0x80, 0x04, 0x38, 0x01, 0x2C, 0, 4] \<and>
    map (\<lambda>i. (sensor 0x34 evs (IMX708_REG_BASE_SPC_GAINS_L + of_nat i),
              sensor 0x34 evs (IMX708_REG_BASE_SPC_GAINS_R + of_nat i))) [0..<54] =
      map (\<lambda>i. (Some (pdaf_gains ! 0 ! (i mod 9)), Some (pdaf_gains ! 1 ! (i mod 9)))) [0..<54]"
proof -
  obtain h' where run: "PiCamV3_Init d h = Some h'"
    using emits_init [of d] assms unfolding emits_def by blast
  then obtain evs where b: "bus h' = bus h @ evs" and f: "frames_of [] evs = v3_init_frames"
    using frames_of_emitted [OF emits_init] by blast
  have s: "sensor 0x34 evs = map_of (rev ((IMX708_MODE_SELECT, IMX708_SLEEP) # mode_common_regs @
      pdaf_writes [0..<54] @ mode_2x2binned_1920x1080_regs @ link_450Mhz_regs @
       [(IMX708_LPF_INTENSITY_EN, IMX708_LPF_INTENSITY_ENABLED), (IMX708_LPF_INTENSITY, 0x04)]))"
    unfolding sensor_def reg_writes_def f v3_init_writes ..
  show ?thesis
  proof (intro exI conjI)
    show "PiCamV3_Init d h = Some h'" by (rule run)
    show "bus h' = bus h @ evs" by (rule b)
    show "filter (\<lambda>f. hd f = 0x18) (frames_of [] evs) =
      [[0x18, 0x02, 0x00], [0x18, 0x03, 0x01], [0x18, 0x04, 0x2C], [0x18, 0x02, 0x01]]"
      unfolding f by code_simp
    show "map (sensor 0x34 evs) [0x0100, 0x034C, 0x034D, 0x034E, 0x034F, 0x030E, 0x030F, 0xC428, 0xC429] =
      map Some [0, 0x07, 0x80, 0x04, 0x38, 0x01, 0x2C, 0, 4]"
      unfolding s by code_simp
    show "map (\<lambda>i. (sensor 0x34 evs (IMX708_REG_BASE_SPC_GAINS_L + of_nat i),
              sensor 0x34 evs (IMX708_REG_BASE_SPC_GAINS_R + of_nat i))) [0..<54] =
      map (\<lambda>i. (Some (pdaf_gains ! 0 ! (i mod 9)), Some (pdaf_gains ! 1 ! (i mod 9)))) [0..<54]"
    proof (rule map_cong [OF refl])
      fix i
      assume "i \<in> set [0..<54]"
      then have i: "i < 54" by simp
      let ?A = "(IMX708_MODE_SELECT, IMX708_SLEEP) # mode_common_regs"
      have sensor: "sensor 0x34 evs k = map_of (rev (?A @ pdaf_writes [0..<54])) k"
        if "0x7b10 \<le> k" "k < 0x7c36" for k
        unfolding s using map_of_misses [OF later_tables_miss_pdaf that, of "?A @ pdaf_writes [0..<54]"]
        by (simp only: append_assoc append_Cons)
      have "unat (IMX708_REG_BASE_SPC_GAINS_L + of_nat i) = 0x7b10 + i"
        "unat (IMX708_REG_BASE_SPC_GAINS_R + of_nat i) = 0x7c00 + i"
        using i by (simp_all add: picam_regs unat_word_ariths unat_of_nat)
      then have r: "0x7b10 \<le> IMX708_REG_BASE_SPC_GAINS_L + of_nat i" "IMX708_REG_BASE_SPC_GAINS_L + of_nat i < 0x7c36"
        "0x7b10 \<le> IMX708_REG_BASE_SPC_GAINS_R + of_nat i" "IMX708_REG_BASE_SPC_GAINS_R + of_nat i < 0x7c36"
        using i by (simp_all add: word_le_nat_alt word_less_nat_alt)
      show "(sensor 0x34 evs (IMX708_REG_BASE_SPC_GAINS_L + of_nat i),
              sensor 0x34 evs (IMX708_REG_BASE_SPC_GAINS_R + of_nat i)) =
        (Some (pdaf_gains ! 0 ! (i mod 9)), Some (pdaf_gains ! 1 ! (i mod 9)))"
        using map_of_pdaf [OF i order_refl] by (simp add: sensor [OF r(1,2)] sensor [OF r(3,4)] map_add_def)
    qed
  qed
qed

theorem PiCamV3_Init_sensor_witness:
  "\<exists>h' evs. PiCamV3_Init (\<lambda>h a. 0) [] = Some h' \<and> bus h' = evs \<and> sensor 0x34 evs 0x030F = Some 0x2C"
proof -
  from PiCamV3_Init_sensor [OF responsive_zero, of "[]"] obtain h' evs where
    "PiCamV3_Init (\<lambda>h a. 0) [] = Some h'" and "bus h' = bus [] @ evs"
    and "map (sensor 0x34 evs) [0x0100, 0x034C, 0x034D, 0x034E, 0x034F, 0x030E, 0x030F, 0xC428, 0xC429] =
      map Some [0, 0x07, 0x80, 0x04, 0x38, 0x01, 0x2C, 0, 4]"
    by blast
  then show ?thesis by simp
qed

end
