(* ===== verification/Isp.thy ===== *)
theory Isp
  imports Prelude
begin

text \<open>
  The software image pipeline, kernel_modules/evsoc/src/isp.h: RGB to greyscale, Sobel
  edges, binary erosion and dilation.  An image is the list of its words, row by row.  The
  three 3 x 3 filters run the same loop with different kernels, so the loop is one
  definition, \<open>filter_image\<close>, with the kernel as an argument; the coordinates are the
  unsigned 32-bit numbers of the code, whose wrap-around is what detects the left and
  upper border.
\<close>

section \<open>Greyscale\<close>

definition gray_pixel :: "u32 \<Rightarrow> u32" where
  "gray_pixel px =
     (let red = ucast (px AND 0xff) :: u8;
          green = ucast (drop_bit 8 px AND 0xff) :: u8;
          blue = ucast (drop_bit 16 px AND 0xff) :: u8;
          grayscale = word_of_int ((30 * uint red + 59 * uint green + 11 * uint blue) div 100) :: u8
      in push_bit 16 (ucast grayscale) + push_bit 8 (ucast grayscale) + ucast grayscale)"

fun gray_loop :: "u32 list \<Rightarrow> nat \<Rightarrow> nat \<Rightarrow> u32 list \<Rightarrow> u32 list" where
  "gray_loop in_array i 0 out_array = out_array"
| "gray_loop in_array i (Suc n) out_array =
     gray_loop in_array (Suc i) n (out_array[i := gray_pixel (in_array ! i)])"

definition rgb2grayscale :: "u32 list \<Rightarrow> u32 list \<Rightarrow> u32 \<Rightarrow> u32 \<Rightarrow> u32 list" where
  "rgb2grayscale in_array out_array width height =
     gray_loop in_array 0 (unat (width * height)) out_array"

section \<open>The 3 x 3 filter loop\<close>

text \<open>
  One byte of the window: \<open>m + x\<close> and \<open>n + y\<close> are unsigned, so the tests against 0 never
  hold and a position left of or above the image wraps to a large number.
\<close>

definition window_pixel :: "u32 list \<Rightarrow> u32 \<Rightarrow> u32 \<Rightarrow> u32 \<Rightarrow> u32 \<Rightarrow> int \<Rightarrow> int \<Rightarrow> u8" where
  "window_pixel in_array width height x y n m =
     (let mx = word_of_int m + x; ny = word_of_int n + y in
      if mx < 0 \<or> ny < 0 \<or> mx \<ge> width \<or> ny \<ge> height then 0
      else ucast (in_array ! unat (mx + ny * width) AND 0xff))"

definition window :: "u32 list \<Rightarrow> u32 \<Rightarrow> u32 \<Rightarrow> u32 \<Rightarrow> u32 \<Rightarrow> u8 list" where
  "window in_array width height x y =
     [window_pixel in_array width height x y n m. n \<leftarrow> [-1, 0, 1], m \<leftarrow> [-1, 0, 1]]"

definition filter_row ::
  "(u8 list \<Rightarrow> u32) \<Rightarrow> u32 list \<Rightarrow> u32 \<Rightarrow> u32 \<Rightarrow> nat \<Rightarrow> u32 list \<Rightarrow> u32 list" where
  "filter_row kern in_array width height y out_array =
     fold (\<lambda>x out. out[unat (of_nat x + of_nat y * width) :=
                        kern (window in_array width height (of_nat x) (of_nat y))])
       [0..<unat width] out_array"

definition filter_image ::
  "(u8 list \<Rightarrow> u32) \<Rightarrow> u32 list \<Rightarrow> u32 list \<Rightarrow> u32 \<Rightarrow> u32 \<Rightarrow> u32 list" where
  "filter_image kern in_array out_array width height =
     fold (filter_row kern in_array width height) [0..<unat height] out_array"

section \<open>Kernels\<close>

definition sobel_kernel :: "u8 list \<Rightarrow> u32" where
  "sobel_kernel p =
     (let threshold = 100;
          sum_Gx = - uint (p ! 0) - uint (p ! 3) * 2 - uint (p ! 6)
                     + uint (p ! 2) + uint (p ! 5) * 2 + uint (p ! 8);
          sum_Gy = uint (p ! 0) + uint (p ! 1) * 2 + uint (p ! 2)
                     - uint (p ! 6) - uint (p ! 7) * 2 - uint (p ! 8);
          mag = word_of_int ((if sum_Gx < 0 then - sum_Gx else sum_Gx)
                           + (if sum_Gy < 0 then - sum_Gy else sum_Gy)) :: u32
      in if mag > threshold then 0x00ffffff else 0x00000000)"

definition erosion_kernel :: "u8 list \<Rightarrow> u32" where
  "erosion_kernel p =
     (let erode_pixel = p ! 0 AND p ! 1 AND p ! 2 AND p ! 3 AND p ! 4 AND p ! 5
                          AND p ! 6 AND p ! 7 AND p ! 8
      in if erode_pixel = 0 then 0x00000000 else 0x00ffffff)"

definition dilation_kernel :: "u8 list \<Rightarrow> u32" where
  "dilation_kernel p =
     (let dilate_pixel = p ! 0 OR p ! 1 OR p ! 2 OR p ! 3 OR p ! 4 OR p ! 5
                          OR p ! 6 OR p ! 7 OR p ! 8
      in if dilate_pixel = 0 then 0x00000000 else 0x00ffffff)"

definition sobel_edge_detection :: "u32 list \<Rightarrow> u32 list \<Rightarrow> u32 \<Rightarrow> u32 \<Rightarrow> u32 list" where
  "sobel_edge_detection = filter_image sobel_kernel"

definition binary_erosion :: "u32 list \<Rightarrow> u32 list \<Rightarrow> u32 \<Rightarrow> u32 \<Rightarrow> u32 list" where
  "binary_erosion = filter_image erosion_kernel"

definition binary_dilation :: "u32 list \<Rightarrow> u32 list \<Rightarrow> u32 \<Rightarrow> u32 \<Rightarrow> u32 list" where
  "binary_dilation = filter_image dilation_kernel"

section \<open>Greyscale\<close>

lemma gray_loop_nth:
  "i + n \<le> length out \<Longrightarrow> length (gray_loop inp i n out) = length out \<and>
     (\<forall>j < length out. gray_loop inp i n out ! j =
        (if i \<le> j \<and> j < i + n then gray_pixel (inp ! j) else out ! j))"
proof (induction inp i n out rule: gray_loop.induct)
  case (1 inp i out)
  then show ?case by auto
next
  case (2 inp i n out)
  then show ?case by (auto simp: nth_list_update not_less_eq_eq dest: le_antisym)
qed

text \<open>The weighted sum of the three colours.\<close>

definition luma :: "u32 \<Rightarrow> int" where
  "luma px = (30 * (uint px mod 256) + 59 * (uint px div 256 mod 256) + 11 * (uint px div 65536 mod 256)) div 100"

lemma weighted_bound:
  fixes r g b :: int
  assumes "0 \<le> r" "r \<le> 255" "0 \<le> g" "g \<le> 255" "0 \<le> b" "b \<le> 255"
  shows "0 \<le> (30 * r + 59 * g + 11 * b) div 100" "(30 * r + 59 * g + 11 * b) div 100 \<le> 255"
proof -
  have "0 \<le> 30 * r + 59 * g + 11 * b" "30 * r + 59 * g + 11 * b \<le> 25500" using assms by linarith+
  then show "0 \<le> (30 * r + 59 * g + 11 * b) div 100" "(30 * r + 59 * g + 11 * b) div 100 \<le> 255"
    by linarith+
qed

lemma mod_256_bound: "0 \<le> x mod 256" "x mod 256 \<le> 255" for x :: int
  using pos_mod_bound [of 256 x] by simp_all

lemma luma_bound: "0 \<le> luma px" "luma px \<le> 255"
  unfolding luma_def by (intro weighted_bound mod_256_bound)+

lemma u32_FF: "(0xff :: u32) = mask 8"
  by (simp add: mask_eq_exp_minus_1)

lemma uint_byte: "uint (ucast (px AND 0xff) :: u8) = uint px mod 256" for px :: u32
proof -
  have "uint (px AND 0xff) = uint px mod 256"
    unfolding u32_FF take_bit_eq_mask [symmetric] unsigned_take_bit_eq
    by (simp add: take_bit_eq_mod)
  then show ?thesis by (simp only: unsigned_ucast_eq take_bit_eq_mod) simp
qed

lemma uint_drop: "uint (drop_bit n px) = uint px div 2 ^ n" for px :: u32
  unfolding unsigned_drop_bit_eq by (simp add: drop_bit_eq_div bintr_uint)

lemma uint_gray:
  assumes "0 \<le> g" "g \<le> 255"
  shows "uint (push_bit 16 (ucast (word_of_int g :: u8)) + push_bit 8 (ucast (word_of_int g :: u8))
     + ucast (word_of_int g :: u8) :: u32) = g * 0x10101"
proof -
  have c: "(ucast (word_of_int g :: u8) :: u32) = word_of_int g"
    using assms by (intro word_uint_eqI) (simp add: unsigned_ucast_eq uint_word_of_int take_bit_eq_mod)
  have "push_bit 16 (word_of_int g) + push_bit 8 (word_of_int g) + word_of_int g
      = (word_of_int (g * 0x10101) :: u32)"
    by (simp add: push_bit_eq_mult)
  then show ?thesis using assms unfolding c by (simp only: uint_word_of_int) simp
qed

lemma gray_pixel_luma: "uint (gray_pixel px) = luma px * 0x10101"
  unfolding gray_pixel_def Let_def uint_byte uint_drop
  using uint_gray [OF luma_bound, of px] by (simp only: luma_def power2_eq_square) simp

section \<open>Filters\<close>

text \<open>
  The specification of a filter: the image is surrounded by zeros, and every output word is
  the kernel of the nine bytes around its position.
\<close>

definition padded :: "u32 list \<Rightarrow> nat \<Rightarrow> nat \<Rightarrow> int \<Rightarrow> int \<Rightarrow> u8" where
  "padded img w h x y =
     (if 0 \<le> x \<and> x < int w \<and> 0 \<le> y \<and> y < int h then ucast (img ! nat (x + y * int w) AND 0xff) else 0)"

definition neighbourhood :: "u32 list \<Rightarrow> nat \<Rightarrow> nat \<Rightarrow> nat \<Rightarrow> nat \<Rightarrow> u8 list" where
  "neighbourhood img w h x y =
     [padded img w h (int x + m) (int y + n). n \<leftarrow> [-1, 0, 1], m \<leftarrow> [-1, 0, 1]]"

lemma pixel_index_less: "x < w \<Longrightarrow> y < h \<Longrightarrow> x + y * w < w * h" for x w y h :: nat
proof -
  assume "x < w" "y < h"
  then have "Suc y * w \<le> h * w" by (intro mult_le_mono1) simp
  with \<open>x < w\<close> show ?thesis by (simp add: mult.commute)
qed

lemma pixel_index_inj:
  "x < w \<Longrightarrow> x' < w \<Longrightarrow> x + y * w = x' + y' * w \<Longrightarrow> x = x' \<and> y = y'" for x w y :: nat
  by (metis mod_mult_self1 mod_less add_left_cancel mult_cancel2 not_less_zero)

lemma wrapped_coord:
  assumes "m = -1 \<or> m = 0 \<or> m = 1" "x < 2 ^ 32 - 1"
  shows "uint (word_of_int m + of_nat x :: u32) = (if int x + m < 0 then 2 ^ 32 - 1 else int x + m)"
proof -
  have "word_of_int m + of_nat x = (word_of_int (int x + m) :: u32)" by simp
  then have u: "uint (word_of_int m + of_nat x :: u32) = (int x + m) mod 2 ^ 32"
    by (simp only: uint_word_of_int) simp
  show ?thesis
  proof (cases "int x + m < 0")
    case True
    then have "int x + m = -1" using assms(1) by auto
    then show ?thesis unfolding u by simp
  next
    case False
    have "int x + m < 2 ^ 32" using assms by auto
    then show ?thesis using False unfolding u by (simp add: mod_pos_pos_trivial)
  qed
qed

lemma wrapped_index:
  fixes width :: u32
  assumes "uint a = int x" "uint b = int y" "x + y * unat width < 2 ^ 32"
  shows "unat (a + b * width) = x + y * unat width"
proof -
  have ab: "unat a = x" "unat b = y" using assms(1,2) by (simp_all add: unat_eq_nat_uint)
  then have "y * unat width < 2 ^ LENGTH(32)" "x + y * unat width < 2 ^ LENGTH(32)" using assms(3) by simp_all
  then have "unat (b * width) = y * unat width" using ab(2) by (metis unat_mult_lem)
  then show ?thesis using ab(1) \<open>x + y * unat width < 2 ^ LENGTH(32)\<close> by (metis unat_add_lem)
qed

lemma wrapped_outside:
  fixes a b w h top :: int
  shows "w \<le> top \<Longrightarrow> h \<le> top \<Longrightarrow>
    w \<le> (if a < 0 then top else a) \<or> h \<le> (if b < 0 then top else b) \<longleftrightarrow>
    \<not> (0 \<le> a \<and> a < w \<and> 0 \<le> b \<and> b < h)"
  by auto

lemma window_pixel_padded:
  assumes "x < unat width" "y < unat height" "unat width * unat height < 2 ^ 32"
    "n = -1 \<or> n = 0 \<or> n = 1" "m = -1 \<or> m = 0 \<or> m = 1"
  shows "window_pixel img width height (of_nat x) (of_nat y) n m
       = padded img (unat width) (unat height) (int x + m) (int y + n)"
proof -
  let ?mx = "word_of_int m + of_nat x :: u32" and ?ny = "word_of_int n + of_nat y :: u32"
  have small: "x < 2 ^ 32 - 1" "y < 2 ^ 32 - 1"
    using assms(1,2) unat_u32_less [of width] unat_u32_less [of height] by linarith+
  note mx = wrapped_coord [OF assms(5) small(1)] and ny = wrapped_coord [OF assms(4) small(2)]
  have wb: "uint width \<le> 2 ^ 32 - 1" "uint height \<le> 2 ^ 32 - 1"
    using uint_u32_bounds [of width] uint_u32_bounds [of height] by simp_all
  have inside: "(?mx \<ge> width \<or> ?ny \<ge> height) \<longleftrightarrow>
      \<not> (0 \<le> int x + m \<and> int x + m < uint width \<and> 0 \<le> int y + n \<and> int y + n < uint height)"
    unfolding word_le_def mx ny using wrapped_outside [OF wb] .
  show ?thesis
  proof (cases "0 \<le> int x + m \<and> int x + m < uint width \<and> 0 \<le> int y + n \<and> int y + n < uint height")
    case True
    let ?a = "nat (int x + m)" and ?b = "nat (int y + n)"
    have ub: "uint ?mx = int ?a" "uint ?ny = int ?b" unfolding mx ny using True by (simp_all del: of_nat_add)
    have "?a < unat width" "?b < unat height" unfolding unat_eq_nat_uint using True by linarith+
    then have "?a + ?b * unat width < 2 ^ 32" by (rule less_trans [OF pixel_index_less assms(3)])
    note ix = wrapped_index [OF ub this]
    have "nat ((int x + m) + (int y + n) * int (unat width)) = ?a + ?b * unat width"
      using True by (simp add: nat_add_distrib nat_mult_distrib)
    then show ?thesis using True inside ix by (simp add: window_pixel_def padded_def Let_def)
  next
    case False
    then show ?thesis using inside by (auto simp: window_pixel_def padded_def Let_def)
  qed
qed

lemma window_neighbourhood:
  "x < unat width \<Longrightarrow> y < unat height \<Longrightarrow> unat width * unat height < 2 ^ 32 \<Longrightarrow>
   window img width height (of_nat x) (of_nat y) = neighbourhood img (unat width) (unat height) x y"
  by (simp add: window_def neighbourhood_def window_pixel_padded)

text \<open>Loops that store one word per step, at different places.\<close>

lemma fold_store_length: "length (fold (\<lambda>x out. out[f x := g x]) xs out) = length out"
  by (induction xs arbitrary: out) simp_all

lemma fold_store_other: "j \<notin> f ` set xs \<Longrightarrow> fold (\<lambda>x out. out[f x := g x]) xs out ! j = out ! j"
  by (induction xs arbitrary: out) (simp_all add: nth_list_update)

lemma fold_store_nth:
  "distinct xs \<Longrightarrow> inj_on f (set xs) \<Longrightarrow> x \<in> set xs \<Longrightarrow> f x < length out \<Longrightarrow>
   fold (\<lambda>x out. out[f x := g x]) xs out ! f x = g x"
proof (induction xs arbitrary: out)
  case (Cons a xs)
  show ?case
  proof (cases "x = a")
    case True
    then have "f x \<notin> f ` set xs" using Cons.prems(1,2) by (auto simp: inj_on_def)
    then show ?thesis using True Cons.prems(4) by (simp add: fold_store_other)
  next
    case False
    then show ?thesis using Cons by simp
  qed
qed simp


lemma filter_row_eq:
  assumes "y < unat height" "unat width * unat height < 2 ^ 32"
  shows "filter_row kern img width height y out =
    fold (\<lambda>x out. out[x + y * unat width := kern (neighbourhood img (unat width) (unat height) x y)])
      [0..<unat width] out"
  unfolding filter_row_def
proof (intro fold_cong refl ext)
  fix x out assume "x \<in> set [0..<unat width]"
  then have x: "x < unat width" by simp
  have l: "x + y * unat width < 2 ^ 32"
    using pixel_index_less [OF x assms(1)] assms(2) by (rule less_trans)
  have "unat (of_nat x + of_nat y * width) = x + y * unat width"
  proof (rule wrapped_index [OF _ _ l])
    show "uint (of_nat x :: u32) = int x" "uint (of_nat y :: u32) = int y"
      using x assms(1) unat_u32_less [of width] unat_u32_less [of height]
      by (simp_all add: unsigned_of_nat take_bit_eq_mod)
  qed
  then show "out[unat (of_nat x + of_nat y * width) := kern (window img width height (of_nat x) (of_nat y))] =
    out[x + y * unat width := kern (neighbourhood img (unat width) (unat height) x y)]"
    using window_neighbourhood [OF x assms] by simp
qed

lemma filter_row_length: "length (filter_row kern img width height y out) = length out"
  unfolding filter_row_def by (rule fold_store_length)

lemma filter_row_other:
  assumes "y < unat height" "unat width * unat height < 2 ^ 32" "\<And>x. x < unat width \<Longrightarrow> j \<noteq> x + y * unat width"
  shows "filter_row kern img width height y out ! j = out ! j"
  unfolding filter_row_eq [OF assms(1,2)] by (rule fold_store_other, unfold image_iff set_upt) (use assms(3) in force)

lemma filter_row_nth:
  assumes "y < unat height" "unat width * unat height < 2 ^ 32" "x < unat width"
    "x + y * unat width < length out"
  shows "filter_row kern img width height y out ! (x + y * unat width) =
    kern (neighbourhood img (unat width) (unat height) x y)"
  unfolding filter_row_eq [OF assms(1,2)]
  using fold_store_nth [of "[0..<unat width]" "\<lambda>x. x + y * unat width" x out
    "\<lambda>x. kern (neighbourhood img (unat width) (unat height) x y)"] assms(3,4)
  by (simp add: inj_on_def)

lemma filter_rows:
  assumes fits: "unat width * unat height < 2 ^ 32" and room: "unat width * unat height \<le> length out"
  shows "k \<le> unat height \<Longrightarrow>
    length (fold (filter_row kern img width height) [0..<k] out) = length out \<and>
    (\<forall>x y. x < unat width \<longrightarrow> y < k \<longrightarrow> fold (filter_row kern img width height) [0..<k] out ! (x + y * unat width)
        = kern (neighbourhood img (unat width) (unat height) x y)) \<and>
    (\<forall>j. unat width * k \<le> j \<longrightarrow> fold (filter_row kern img width height) [0..<k] out ! j = out ! j)"
proof (induction k)
  case (Suc k)
  let ?out = "fold (filter_row kern img width height) [0..<k] out"
  have k: "k < unat height" using Suc.prems by simp
  note IH = Suc.IH [OF less_imp_le [OF k]]
  have step: "fold (filter_row kern img width height) [0..<Suc k] out = filter_row kern img width height k ?out"
    by simp
  have len: "length (filter_row kern img width height k ?out) = length out"
    using IH by (simp add: filter_row_length)
  have this_row: "filter_row kern img width height k ?out ! (x + k * unat width)
      = kern (neighbourhood img (unat width) (unat height) x k)" if "x < unat width" for x
    using filter_row_nth [OF k fits that, of ?out] pixel_index_less [OF that k] IH room by simp
  have earlier: "filter_row kern img width height k ?out ! (x + y * unat width)
      = kern (neighbourhood img (unat width) (unat height) x y)" if "x < unat width" "y < k" for x y
  proof -
    have "x + y * unat width \<noteq> x' + k * unat width" if "x' < unat width" for x'
      using pixel_index_inj [OF \<open>x < unat width\<close> that, of y k] \<open>y < k\<close> by auto
    then show ?thesis using filter_row_other [OF k fits, of "x + y * unat width"] IH that by simp
  qed
  have later: "filter_row kern img width height k ?out ! j = out ! j" if "unat width * Suc k \<le> j" for j
  proof -
    have "j \<noteq> x + k * unat width" if "x < unat width" for x
      using pixel_index_less [OF that, of k "Suc k"] \<open>unat width * Suc k \<le> j\<close> by (simp add: mult.commute)
    then have "filter_row kern img width height k ?out ! j = ?out ! j"
      by (rule filter_row_other [OF k fits])
    moreover have "?out ! j = out ! j" using IH that by simp
    ultimately show ?thesis by simp
  qed
  show ?case unfolding step
    using len this_row earlier later by (auto simp: less_Suc_eq simp del: mult_Suc_right)
qed simp

text \<open>What the three filters share: an output that is black or white, word by word.\<close>

definition black_or_white :: "u32 \<Rightarrow> bool" where
  "black_or_white p \<longleftrightarrow> p = 0x00000000 \<or> p = 0x00ffffff"

locale binary_filter =
  fixes kern :: "u8 list \<Rightarrow> u32"
  assumes binary: "black_or_white (kern p)"
begin

lemma run_length:
  "unat w * unat h < 2 ^ 32 \<Longrightarrow> unat w * unat h \<le> length out \<Longrightarrow> length (filter_image kern img out w h) = length out"
  using filter_rows [of w h out "unat h" kern img] by (simp add: filter_image_def)

lemma run_pixel:
  "unat w * unat h < 2 ^ 32 \<Longrightarrow> unat w * unat h \<le> length out \<Longrightarrow> x < unat w \<Longrightarrow> y < unat h \<Longrightarrow>
   filter_image kern img out w h ! (x + y * unat w) = kern (neighbourhood img (unat w) (unat h) x y)"
  using filter_rows [of w h out "unat h" kern img] by (simp add: filter_image_def)

lemma run_beyond:
  "unat w * unat h < 2 ^ 32 \<Longrightarrow> unat w * unat h \<le> length out \<Longrightarrow> unat w * unat h \<le> j \<Longrightarrow>
   filter_image kern img out w h ! j = out ! j"
  using filter_rows [of w h out "unat h" kern img] by (simp add: filter_image_def)

lemma run_binary:
  "unat w * unat h < 2 ^ 32 \<Longrightarrow> unat w * unat h \<le> length out \<Longrightarrow> x < unat w \<Longrightarrow> y < unat h \<Longrightarrow>
   black_or_white (filter_image kern img out w h ! (x + y * unat w))"
  by (simp add: run_pixel binary)

end

interpretation sobel: binary_filter sobel_kernel
  by unfold_locales (simp add: sobel_kernel_def black_or_white_def Let_def)

interpretation erosion: binary_filter erosion_kernel
  by unfold_locales (simp add: erosion_kernel_def black_or_white_def Let_def)

interpretation dilation: binary_filter dilation_kernel
  by unfold_locales (simp add: dilation_kernel_def black_or_white_def Let_def)

section \<open>Properties\<close>

text \<open>The greyscale loop replaces each of the first width * height words (the product taken
  in 32 bits, as in the code) by the weighted luma 0.30 R + 0.59 G + 0.11 B, rounded down and
  repeated in the three colour bytes; no byte overflows into its neighbour, and the rest of
  the buffer is unchanged.\<close>

theorem rgb2grayscale_pixels:
  assumes "unat (w * h) \<le> length out" "j < length out"
  shows "length (rgb2grayscale img out w h) = length out \<and>
    (if j < unat (w * h) then uint (rgb2grayscale img out w h ! j) = luma (img ! j) * 0x10101
                            \<and> luma (img ! j) \<le> 255
     else rgb2grayscale img out w h ! j = out ! j)"
  using gray_loop_nth [of 0 "unat (w * h)" out img] assms
  by (simp add: rgb2grayscale_def gray_pixel_luma luma_bound)

theorem rgb2grayscale_pixels_witness:
  "uint (rgb2grayscale [0x00ffffff, 0x000000ff] [0, 0, 7] 2 1 ! 1) = luma 0x000000ff * 0x10101"
  using rgb2grayscale_pixels [of 2 1 "[0, 0, 7]" 1 "[0x00ffffff, 0x000000ff]"] by simp

text \<open>The two masks of the comment in the code, applied to the zero-padded image.\<close>

definition sobel_Gx :: "int \<Rightarrow> int \<Rightarrow> int" where
  "sobel_Gx m n = m * (if n = 0 then 2 else 1)"

definition sobel_Gy :: "int \<Rightarrow> int \<Rightarrow> int" where
  "sobel_Gy m n = - n * (if m = 0 then 2 else 1)"

definition correlate :: "(int \<Rightarrow> int \<Rightarrow> int) \<Rightarrow> u32 list \<Rightarrow> nat \<Rightarrow> nat \<Rightarrow> nat \<Rightarrow> nat \<Rightarrow> int" where
  "correlate coeff img w h x y =
     (\<Sum>n\<leftarrow>[-1, 0, 1]. \<Sum>m\<leftarrow>[-1, 0, 1]. coeff m n * uint (padded img w h (int x + m) (int y + n)))"

lemma u8_bounds: "0 \<le> uint p" "uint p \<le> 255" for p :: u8
  using unsigned_greater_eq [of p] unsigned_less [where 'a = int and w = p] by simp_all

lemma gradient_bound:
  fixes a b c d e f :: u8
  shows "\<bar>(uint a + 2 * uint b + uint c) - (uint d + 2 * uint e + uint f)\<bar> \<le> 1020"
  using u8_bounds [of a] u8_bounds [of b] u8_bounds [of c] u8_bounds [of d] u8_bounds [of e] u8_bounds [of f]
  by linarith

lemma magnitude_word:
  fixes a b :: int
  assumes "\<bar>a\<bar> \<le> 1020" "\<bar>b\<bar> \<le> 1020"
  shows "((100 :: u32) < word_of_int ((if a < 0 then - a else a) + (if b < 0 then - b else b)))
     = (100 < \<bar>a\<bar> + \<bar>b\<bar>)"
proof -
  have abs: "(if a < 0 then - a else a) + (if b < 0 then - b else b) = \<bar>a\<bar> + \<bar>b\<bar>" by simp
  have "uint (word_of_int (\<bar>a\<bar> + \<bar>b\<bar>) :: u32) = \<bar>a\<bar> + \<bar>b\<bar>"
    using assms by (simp add: uint_word_of_int del: of_int_add)
  then show ?thesis unfolding abs word_less_def by simp
qed

lemma sobel_kernel_correlate:
  "sobel_kernel (neighbourhood img w h x y) =
     (if 100 < \<bar>correlate sobel_Gx img w h x y\<bar> + \<bar>correlate sobel_Gy img w h x y\<bar>
      then 0x00ffffff else 0x00000000)"
proof -
  let ?p = "neighbourhood img w h x y"
  let ?gx = "- uint (?p ! 0) - uint (?p ! 3) * 2 - uint (?p ! 6) + uint (?p ! 2) + uint (?p ! 5) * 2 + uint (?p ! 8)"
  let ?gy = "uint (?p ! 0) + uint (?p ! 1) * 2 + uint (?p ! 2) - uint (?p ! 6) - uint (?p ! 7) * 2 - uint (?p ! 8)"
  have gx: "?gx = correlate sobel_Gx img w h x y"
    by (simp add: neighbourhood_def correlate_def sobel_Gx_def)
  have gy: "?gy = correlate sobel_Gy img w h x y"
    by (simp add: neighbourhood_def correlate_def sobel_Gy_def)
  have "\<bar>?gx\<bar> \<le> 1020"
    using gradient_bound [of "?p ! 2" "?p ! 5" "?p ! 8" "?p ! 0" "?p ! 3" "?p ! 6"] by linarith
  moreover have "\<bar>?gy\<bar> \<le> 1020"
    using gradient_bound [of "?p ! 0" "?p ! 1" "?p ! 2" "?p ! 6" "?p ! 7" "?p ! 8"] by linarith
  ultimately show ?thesis
    unfolding sobel_kernel_def Let_def gx gy using magnitude_word by metis
qed

text \<open>C22: Sobel edge detection.  For an image of fewer than 2^32 pixels, with room for it in
  the output, every output word is white when |Gx| + |Gy| exceeds 100 and black otherwise,
  with Gx and Gy the correlations with the two masks over the zero-padded image: the unsigned
  border test of the code is exact on all four sides, and the 32-bit sums do not wrap.\<close>

theorem sobel_edge_detection_correct:
  assumes "unat w * unat h < 2 ^ 32" "unat w * unat h \<le> length out" "x < unat w" "y < unat h"
  shows "sobel_edge_detection img out w h ! (x + y * unat w) =
     (if 100 < \<bar>correlate sobel_Gx img (unat w) (unat h) x y\<bar> + \<bar>correlate sobel_Gy img (unat w) (unat h) x y\<bar>
      then 0x00ffffff else 0x00000000)"
  unfolding sobel_edge_detection_def sobel.run_pixel [OF assms] by (rule sobel_kernel_correlate)

theorem sobel_edge_detection_correct_witness:
  "sobel_edge_detection [0, 255, 255, 255] [0, 0, 0, 0] 2 2 ! 1 = 0x00ffffff"
proof -
  have "100 < \<bar>correlate sobel_Gx [0, 255, 255, 255] 2 2 1 0\<bar> + \<bar>correlate sobel_Gy [0, 255, 255, 255] 2 2 1 0\<bar>"
    by code_simp
  then show ?thesis
    using sobel_edge_detection_correct [of 2 2 "[0, 0, 0, 0]" 1 0 "[0, 255, 255, 255]"] by simp
qed

text \<open>On a black and white image the masked bytes are 0 and 255.\<close>

lemma black_or_white_bytes:
  assumes "list_all black_or_white img" "length img = w * h"
  shows "padded img w h x y = 0 \<or> padded img w h x y = 255"
proof (cases "0 \<le> x \<and> x < int w \<and> 0 \<le> y \<and> y < int h")
  case True
  then obtain a b where ab: "x = int a" "y = int b" "a < w" "b < h"
    by (metis of_nat_less_iff zero_le_imp_eq_int)
  have "nat (x + y * int w) = a + b * w" by (simp add: ab nat_int_add flip: of_nat_mult of_nat_add)
  then have "img ! nat (x + y * int w) \<in> set img" using pixel_index_less [OF ab(3,4)] assms(2) by simp
  then have "black_or_white (img ! nat (x + y * int w))" using assms(1) by (simp add: list_all_iff)
  then show ?thesis by (auto simp: padded_def black_or_white_def)
qed (auto simp: padded_def)

definition white_at :: "u32 list \<Rightarrow> nat \<Rightarrow> nat \<Rightarrow> int \<Rightarrow> int \<Rightarrow> bool" where
  "white_at img w h x y \<longleftrightarrow> padded img w h x y = 255"

lemma byte_and_white: "a = 0 \<or> a = 255 \<Longrightarrow> a AND b = 0 \<longleftrightarrow> a = 0 \<or> b = 0" for a b :: u8
proof -
  have "(255 :: u8) = -1" by simp
  then show "a = 0 \<or> a = 255 \<Longrightarrow> a AND b = 0 \<longleftrightarrow> a = 0 \<or> b = 0" by (metis and.left_neutral bit.conj_zero_left)
qed

lemma byte_or_white: "a OR b = 0 \<longleftrightarrow> a = 0 \<and> b = 0" for a b :: u8
  by (auto simp: bit_eq_iff bit_or_iff)

text \<open>C38: on a black and white image, erosion keeps a position white exactly when all nine
  positions around it are white (so the image border is always eroded), and dilation makes it
  white exactly when one of the nine is; both outputs are black and white again.\<close>

theorem binary_morphology:
  assumes "list_all black_or_white img" "length img = unat w * unat h"
    "unat w * unat h < 2 ^ 32" "unat w * unat h \<le> length out" "x < unat w" "y < unat h"
  shows "binary_erosion img out w h ! (x + y * unat w) =
      (if list_all (\<lambda>(m, n). white_at img (unat w) (unat h) (int x + m) (int y + n))
            (List.product [-1, 0, 1] [-1, 0, 1]) then 0x00ffffff else 0)
    \<and> binary_dilation img out w h ! (x + y * unat w) =
      (if list_ex (\<lambda>(m, n). white_at img (unat w) (unat h) (int x + m) (int y + n))
            (List.product [-1, 0, 1] [-1, 0, 1]) then 0x00ffffff else 0)"
proof -
  note b = black_or_white_bytes [OF assms(1,2)]
  have z: "padded img (unat w) (unat h) i j = 255 \<longleftrightarrow> padded img (unat w) (unat h) i j \<noteq> 0" for i j
    using b [of i j] by auto
  show ?thesis
    unfolding binary_erosion_def binary_dilation_def erosion.run_pixel [OF assms(3-6)] dilation.run_pixel [OF assms(3-6)]
    by (simp add: erosion_kernel_def dilation_kernel_def neighbourhood_def white_at_def byte_and_white [OF b] byte_or_white z)
qed

theorem binary_morphology_witness:
  "binary_erosion [0, 0x00ffffff] [7, 7] 2 1 ! 0 = 0 \<and> binary_dilation [0, 0x00ffffff] [7, 7] 2 1 ! 0 = 0x00ffffff"
proof -
  have "\<not> white_at [0, 0x00ffffff] 2 1 0 0" "white_at [0, 0x00ffffff] 2 1 1 0"
    by (simp_all add: white_at_def padded_def)
  then show ?thesis
    using binary_morphology [of "[0, 0x00ffffff]" 2 1 "[7, 7]" 0 0] by (simp add: black_or_white_def)
qed

end
