(* ===== verification/EvsocFrame.thy ===== *)
theory EvsocFrame
  imports CharDev EvsocFont Isp PiCamV3 Dmasg
begin

unbundle bit_operations_syntax

text \<open>
  The frame pipeline of the Edge Vision driver: kernel_modules/evsoc/src/evsoc_init.c with
  the buffers, signals and addresses of my_imp.c and the commands of comm_def.h.  The
  globals of both files are the fields of \<open>evsoc\<close>; the hardware accesses go to the log
  \<open>io\<close>.  A frame buffer is NULL (\<open>None\<close>) when its allocation failed, otherwise a function
  from word indices, and every access through a pointer is checked: an access through NULL
  or past the end of an array sets \<open>fault\<close>.  \<open>unsigned long\<close> has 32 bits (hardened RV32
  core).  The macro EXAMPLE_AXI4_SLV is not defined, so the blocks it guards are not part of
  the program; PICAM_V2 and PICAM_V3 are both defined.
\<close>

section \<open>State\<close>

record evsoc =
  io :: iolog
  cam_dma_cpu_arry :: "nat \<Rightarrow> (nat \<Rightarrow> u32) option"
  cam_dma_handle :: "nat \<Rightarrow> u32"
  title_msg_buf :: "nat \<Rightarrow> u32"
  select_demo_mode :: u32
  capture_mode :: u8
  buf_is_ready :: u32
  lay0_is_ready :: u32
  lay0_beg_row :: u8
  lay0_beg_col :: u8
  title_is_ready :: u32
  tx_buf_idx :: u8
  rx_buf_idx :: u8
  init_tx_buf :: u8
  display_mm2s_active :: u32
  rx_thread :: bool
  g_pid :: u32
  signals :: "(u32 \<times> u32) list"
  fault :: bool

definition TITLE_HIGH :: nat where "TITLE_HIGH = 18"
definition MAX_DMA_BUF_NUM :: nat where "MAX_DMA_BUF_NUM = 4"
definition cam_dma_size :: nat where "cam_dma_size = 1024 * 1024 * 4"

text \<open>The number of words of a buffer of \<open>cam_dma_size\<close> bytes.\<close>

definition CAM_WORDS :: nat where "CAM_WORDS = cam_dma_size div 4"

text \<open>The start values of the globals.\<close>

definition evsoc_globals :: evsoc where
  "evsoc_globals = \<lparr>io = [], cam_dma_cpu_arry = (\<lambda>i. None), cam_dma_handle = (\<lambda>i. 0),
     title_msg_buf = (\<lambda>i. 0), select_demo_mode = 0, capture_mode = 0, buf_is_ready = 0,
     lay0_is_ready = 0, lay0_beg_row = 0, lay0_beg_col = 0, title_is_ready = 0, tx_buf_idx = 0,
     rx_buf_idx = 2, init_tx_buf = 1, display_mm2s_active = 0, rx_thread = False, g_pid = 0,
     signals = [], fault = False\<rparr>"

section \<open>Commands\<close>

text \<open>\<open>_IOW(type, nr, unsigned long)\<close>: direction write, size 4.\<close>

definition IOW :: "nat \<Rightarrow> nat \<Rightarrow> u32" where
  "IOW ty nr = of_nat (2 ^ 30 + 4 * 2 ^ 16 + ty * 2 ^ 8 + nr)"

definition CMD_SET_MODE :: u32 where [regs]: "CMD_SET_MODE = IOW DEMO_MAGIC 1"
definition CMD_SET_CAM_SIZE :: u32 where [regs]: "CMD_SET_CAM_SIZE = IOW DEMO_MAGIC 3"
definition CMD_SET_CAM_BINNING :: u32 where [regs]: "CMD_SET_CAM_BINNING = IOW DEMO_MAGIC 5"
definition CMD_SET_CAPTURE :: u32 where [regs]: "CMD_SET_CAPTURE = IOW DEMO_MAGIC 7"
definition CMD_SET_CHAR :: u32 where [regs]: "CMD_SET_CHAR = IOW DEMO_MAGIC 9"
definition CMD_SET_LAYER :: u32 where [regs]: "CMD_SET_LAYER = IOW DEMO_MAGIC 11"
definition CMD_SET_PID :: u32 where [regs]: "CMD_SET_PID = IOW DEMO_MAGIC 13"
definition CMD_SET_MSG :: u32 where [regs]: "CMD_SET_MSG = IOW DEMO_MAGIC 15"
definition CMD_CLR_MSG :: u32 where [regs]: "CMD_CLR_MSG = IOW DEMO_MAGIC 17"

definition SIG_TYPE_NONE :: u8 where [regs]: "SIG_TYPE_NONE = 0"
definition SIG_TYPE_CAPTURE_DONE :: u8 where [regs]: "SIG_TYPE_CAPTURE_DONE = 1"
definition SIG_TYPE_KEY_ACT :: u8 where [regs]: "SIG_TYPE_KEY_ACT = 2"

definition CMD_SET_CAPTURE_FULL :: u8 where [regs]: "CMD_SET_CAPTURE_FULL = 1"
definition CMD_SET_CAPTURE_PART :: u8 where [regs]: "CMD_SET_CAPTURE_PART = 2"

section \<open>Buffers\<close>

definition do_io :: "(iolog \<Rightarrow> iolog) \<Rightarrow> evsoc \<Rightarrow> evsoc" where
  "do_io f s = s\<lparr>io := f (io s)\<rparr>"

definition accessible :: "evsoc \<Rightarrow> nat \<Rightarrow> nat \<Rightarrow> bool" where
  "accessible s i p \<longleftrightarrow> i < MAX_DMA_BUF_NUM \<and> cam_dma_cpu_arry s i \<noteq> None \<and> p < CAM_WORDS"

definition cam_load :: "nat \<Rightarrow> nat \<Rightarrow> evsoc \<Rightarrow> u32 \<times> evsoc" where
  "cam_load i p s = (if accessible s i p then (the (cam_dma_cpu_arry s i) p, s)
                     else (0, s\<lparr>fault := True\<rparr>))"

definition cam_store :: "nat \<Rightarrow> nat \<Rightarrow> u32 \<Rightarrow> evsoc \<Rightarrow> evsoc" where
  "cam_store i p v s =
     (if accessible s i p
      then s\<lparr>cam_dma_cpu_arry := (cam_dma_cpu_arry s)(i \<mapsto> (the (cam_dma_cpu_arry s i))(p := v))\<rparr>
      else s\<lparr>fault := True\<rparr>)"

definition title_load :: "nat \<Rightarrow> evsoc \<Rightarrow> u32 \<times> evsoc" where
  "title_load p s = (if p < FRAME_WIDTH * TITLE_HIGH then (title_msg_buf s p, s)
                     else (0, s\<lparr>fault := True\<rparr>))"

definition title_store :: "nat \<Rightarrow> u32 \<Rightarrow> evsoc \<Rightarrow> evsoc" where
  "title_store p v s =
     (if p < FRAME_WIDTH * TITLE_HIGH then s\<lparr>title_msg_buf := (title_msg_buf s)(p := v)\<rparr>
      else s\<lparr>fault := True\<rparr>)"

text \<open>\<open>kmalloc\<close> gives a pointer and its physical address, or NULL.\<close>

definition alloc_buf :: "(nat \<Rightarrow> ((nat \<Rightarrow> u32) \<times> u32) option) \<Rightarrow> nat \<Rightarrow> evsoc \<Rightarrow> evsoc" where
  "alloc_buf kmalloc i s =
     (case kmalloc i of
        Some (mem, phys) \<Rightarrow> s\<lparr>cam_dma_cpu_arry := (cam_dma_cpu_arry s)(i \<mapsto> mem),
                              cam_dma_handle := (cam_dma_handle s)(i := phys)\<rparr>
      | None \<Rightarrow> s\<lparr>cam_dma_cpu_arry := (cam_dma_cpu_arry s)(i := None)\<rparr>)"

definition my_init :: "(nat \<Rightarrow> ((nat \<Rightarrow> u32) \<times> u32) option) \<Rightarrow> evsoc \<Rightarrow> evsoc" where
  "my_init kmalloc s = fold (alloc_buf kmalloc) [0..<MAX_DMA_BUF_NUM] s"

definition get_CAM_START_ADDR :: "nat \<Rightarrow> evsoc \<Rightarrow> u32" where
  "get_CAM_START_ADDR pIdx s = (if pIdx \<ge> MAX_DMA_BUF_NUM then 0 else cam_dma_handle s pIdx)"

text \<open>The pointer of \<open>get_CAM_START_PTR\<close>: \<open>None\<close> is NULL.\<close>

definition get_CAM_START_PTR :: "nat \<Rightarrow> evsoc \<Rightarrow> (nat \<Rightarrow> u32) option" where
  "get_CAM_START_PTR pIdx s = (if pIdx \<ge> MAX_DMA_BUF_NUM then None else cam_dma_cpu_arry s pIdx)"

text \<open>The guard compares the word index with the size in bytes.\<close>

definition set_CAM_START_ADDR :: "nat \<Rightarrow> u32 \<Rightarrow> u32 \<Rightarrow> evsoc \<Rightarrow> evsoc" where
  "set_CAM_START_ADDR pIdx pAddr pVal s =
     (if pIdx \<ge> MAX_DMA_BUF_NUM then s
      else if unat pAddr \<ge> cam_dma_size \<or> cam_dma_cpu_arry s pIdx = None then s
      else cam_store pIdx (unat pAddr) pVal s)"

definition GRAYSCALE_IDX :: nat where "GRAYSCALE_IDX = 1"
definition LAYER0_IDX :: nat where "LAYER0_IDX = 1"
definition CAPTURE_IDX :: nat where "CAPTURE_IDX = 3"

definition get_tx_buf :: "evsoc \<Rightarrow> u32" where
  "get_tx_buf s = get_CAM_START_ADDR (unat (tx_buf_idx s)) s"

definition get_rx_buf :: "evsoc \<Rightarrow> u32" where
  "get_rx_buf s = get_CAM_START_ADDR (unat (rx_buf_idx s)) s"

section \<open>Signals\<close>

definition set_pid :: "u32 \<Rightarrow> evsoc \<Rightarrow> evsoc" where
  "set_pid pPid s = s\<lparr>g_pid := pPid\<rparr>"

text \<open>The signal queued for the registered process, with its value; whether that process
  still exists is decided by the kernel.\<close>

definition send_signal :: "u8 \<Rightarrow> u32 \<Rightarrow> evsoc \<Rightarrow> evsoc" where
  "send_signal pType pVal s =
     (if g_pid s = 0 then s
      else s\<lparr>signals := signals s @
               [(g_pid s, ucast pType OR (push_bit 8 pVal AND 0xffffff00))]\<rparr>)"

section \<open>Receiving a frame\<close>

definition FRAME_BYTES :: u32 where "FRAME_BYTES = of_nat (FRAME_WIDTH * FRAME_HEIGHT * 4)"

text \<open>The register writes that start the capture of one frame into \<open>lBuf\<close>.\<close>

definition rx_trigger :: "u32 \<Rightarrow> u32 \<Rightarrow> iolog \<Rightarrow> iolog" where
  "rx_trigger pMode lBuf h =
     (let h = EXAMPLE_APB3_REGW EXAMPLE_APB3_SLV EXAMPLE_APB3_SLV_REG3_OFFSET
                (if pMode = 2 \<or> pMode = 3 then 1 else 0) h;
          h = dmasg_input_stream DMASG_BASE DMASG_CAM_S2MM_CHANNEL DMASG_CAM_S2MM_PORT True False h;
          h = dmasg_output_memory DMASG_BASE DMASG_CAM_S2MM_CHANNEL lBuf 16 h;
          h = dmasg_direct_start DMASG_BASE DMASG_CAM_S2MM_CHANNEL FRAME_BYTES False h;
          h = EXAMPLE_APB3_REGW EXAMPLE_APB3_SLV EXAMPLE_APB3_SLV_REG4_OFFSET 1 h;
          h = EXAMPLE_APB3_REGW EXAMPLE_APB3_SLV EXAMPLE_APB3_SLV_REG4_OFFSET 0 h;
          h = EXAMPLE_APB3_REGW EXAMPLE_APB3_SLV EXAMPLE_APB3_SLV_REG2_OFFSET 1 h
      in EXAMPLE_APB3_REGW EXAMPLE_APB3_SLV EXAMPLE_APB3_SLV_REG2_OFFSET 0 h)"

text \<open>
  What the completed transfer leaves in memory: \<open>cam\<close> is the frame the camera produced, and
  it is stored where the transfer was told to store it, in the buffers with that bus address.
\<close>

definition camera_frame :: "(iolog \<Rightarrow> nat \<Rightarrow> u32) \<Rightarrow> u32 \<Rightarrow> evsoc \<Rightarrow> evsoc" where
  "camera_frame cam lBuf s =
     s\<lparr>cam_dma_cpu_arry := (\<lambda>i. if i < MAX_DMA_BUF_NUM \<and> cam_dma_handle s i = lBuf
         then map_option (\<lambda>mem p. if p < FRAME_WIDTH * FRAME_HEIGHT then cam (io s) p else mem p)
                (cam_dma_cpu_arry s i)
         else cam_dma_cpu_arry s i)\<rparr>"

definition overlay_word :: "nat \<Rightarrow> nat \<Rightarrow> evsoc \<Rightarrow> evsoc" where
  "overlay_word rx tmp_pos s =
     (let (v, s) = cam_load LAYER0_IDX tmp_pos s in
      if v AND 0xFF000000 \<noteq> 0 then cam_store rx tmp_pos (v AND 0x00FFFFFF) s else s)"

definition overlay_layer :: "nat \<Rightarrow> evsoc \<Rightarrow> evsoc" where
  "overlay_layer rx s =
     fold (\<lambda>lTmpRow. fold (\<lambda>lTmpCol. overlay_word rx (lTmpRow * FRAME_WIDTH + lTmpCol))
            [0..<FRAME_WIDTH]) [0..<FRAME_HEIGHT] s"

definition copy_word :: "nat \<Rightarrow> nat \<Rightarrow> nat \<Rightarrow> nat \<Rightarrow> evsoc \<Rightarrow> evsoc" where
  "copy_word to lTo from lFrom s =
     (let (v, s) = cam_load from lFrom s in cam_store to lTo v s)"

definition capture_full :: "nat \<Rightarrow> evsoc \<Rightarrow> evsoc" where
  "capture_full rx s =
     fold (\<lambda>p. copy_word CAPTURE_IDX p rx p) [0..<FRAME_WIDTH * FRAME_HEIGHT] s"

definition capture_part :: "nat \<Rightarrow> evsoc \<Rightarrow> evsoc" where
  "capture_part rx s =
     fold (\<lambda>i. fold (\<lambda>j. copy_word CAPTURE_IDX (i * (FRAME_WIDTH div 2) + j)
                             rx (i * 2 * FRAME_WIDTH + j * 2))
            [0..<FRAME_WIDTH div 2]) [0..<FRAME_HEIGHT div 2] s"

definition rx_capture :: "nat \<Rightarrow> evsoc \<Rightarrow> evsoc" where
  "rx_capture rx s =
     (if capture_mode s = CMD_SET_CAPTURE_FULL then
        (send_signal SIG_TYPE_CAPTURE_DONE (ucast (capture_mode s)) (capture_full rx s))
          \<lparr>capture_mode := 0\<rparr>
      else if capture_mode s = CMD_SET_CAPTURE_PART then
        (send_signal SIG_TYPE_CAPTURE_DONE (ucast (capture_mode s)) (capture_part rx s))
          \<lparr>capture_mode := 0\<rparr>
      else s)"

definition title_word :: "nat \<Rightarrow> nat \<Rightarrow> nat \<Rightarrow> evsoc \<Rightarrow> evsoc" where
  "title_word rx lTmpRow lTmpCol s =
     (let (v, s) = title_load (lTmpRow * FRAME_WIDTH + lTmpCol) s in
      if v AND 0xFF000000 \<noteq> 0
      then cam_store rx ((lTmpRow + 3) * FRAME_WIDTH + (lTmpCol + 3)) (v AND 0x00FFFFFF) s else s)"

definition overlay_title :: "nat \<Rightarrow> evsoc \<Rightarrow> evsoc" where
  "overlay_title rx s =
     fold (\<lambda>lTmpRow. fold (\<lambda>lTmpCol. title_word rx lTmpRow lTmpCol) [0..<FRAME_WIDTH])
       [0..<TITLE_HIGH] s"

text \<open>The software greyscale conversion, for mode 1.\<close>

definition rx_grayscale :: "nat \<Rightarrow> evsoc \<Rightarrow> evsoc" where
  "rx_grayscale rx s =
     (case (get_CAM_START_PTR rx s, get_CAM_START_PTR GRAYSCALE_IDX s) of
        (Some inp, Some out) \<Rightarrow>
          (let n = FRAME_WIDTH * FRAME_HEIGHT;
               res = rgb2grayscale (map inp [0..<n]) (map out [0..<n]) (of_nat FRAME_WIDTH) (of_nat FRAME_HEIGHT)
           in s\<lparr>cam_dma_cpu_arry := (cam_dma_cpu_arry s)
                  (GRAYSCALE_IDX \<mapsto> (\<lambda>p. if p < n then res ! p else out p))\<rparr>)
      | _ \<Rightarrow> s\<lparr>fault := True\<rparr>)"

definition swap_buffers :: "evsoc \<Rightarrow> evsoc" where
  "swap_buffers s = s\<lparr>tx_buf_idx := rx_buf_idx s, rx_buf_idx := tx_buf_idx s\<rparr>"

definition do_rx_proc ::
  "iomem device \<Rightarrow> (iolog \<Rightarrow> nat \<Rightarrow> u32) \<Rightarrow> u32 \<Rightarrow> evsoc \<Rightarrow> (int \<times> evsoc) option" where
  "do_rx_proc d cam pMode s = do {
     let lBuf = get_rx_buf s;
     let rx = unat (rx_buf_idx s);
     let s = do_io (rx_trigger pMode lBuf) s;
     h \<leftarrow> dmasg_wait d DMASG_BASE DMASG_CAM_S2MM_CHANNEL (io s);
     let s = camera_frame cam lBuf (s\<lparr>io := h\<rparr>);
     let s = (if lay0_is_ready s > 0 then overlay_layer rx s else s);
     let s = rx_capture rx s;
     let s = (if title_is_ready s > 0 then overlay_title rx s else s);
     let s = (if pMode = 1 then rx_grayscale rx s else s);
     Some (1, swap_buffers s)
   }"

section \<open>The receive thread\<close>

definition test_color :: "nat \<Rightarrow> nat \<Rightarrow> u32" where
  "test_color x y =
     (if (x < 3 \<and> y < 3) \<or> (x \<ge> FRAME_WIDTH - 3 \<and> y < 3) \<or> (x < 3 \<and> y \<ge> FRAME_HEIGHT - 3)
         \<or> (x \<ge> FRAME_WIDTH - 3 \<and> y \<ge> FRAME_HEIGHT - 3) then 0x000000FF
      else if x < FRAME_WIDTH div 4 then 0x0000FF00
      else if x < FRAME_WIDTH div 4 * 2 then 0x00FF0000
      else if x < FRAME_WIDTH div 4 * 3 then 0x000000FF
      else 0x00FF0000)"

definition test_word :: "nat \<Rightarrow> nat \<Rightarrow> evsoc \<Rightarrow> evsoc" where
  "test_word y x s =
     (let pos = y * FRAME_WIDTH + x;
          s = cam_store LAYER0_IDX pos 0 s;
          s = (if pos < FRAME_WIDTH * TITLE_HIGH then title_store pos 0 s else s)
      in set_CAM_START_ADDR 0 (of_nat pos) (test_color x y) s)"

definition test_pattern :: "evsoc \<Rightarrow> evsoc" where
  "test_pattern s = fold (\<lambda>y. fold (test_word y) [0..<FRAME_WIDTH]) [0..<FRAME_HEIGHT] (s\<lparr>tx_buf_idx := 0\<rparr>)"

text \<open>One round of the thread's loop; \<open>this_cnt\<close> is its local counter.\<close>

definition rx_round ::
  "iomem device \<Rightarrow> (iolog \<Rightarrow> nat \<Rightarrow> u32) \<Rightarrow> u32 \<times> evsoc \<Rightarrow> (u32 \<times> evsoc) option" where
  "rx_round d cam = (\<lambda>(this_cnt, s).
     if init_tx_buf s \<noteq> 0 then Some (this_cnt, test_pattern s)
     else
       (let (this_cnt, s) =
              (if this_cnt > 1000
               then (0, if select_demo_mode s > 3 then s\<lparr>select_demo_mode := 0\<rparr> else s)
               else (this_cnt + 1, s))
        in do { (r, s) \<leftarrow> do_rx_proc d cam (select_demo_mode s) s; Some (this_cnt, s) }))"

fun evsoc_thread_fun_rx ::
  "iomem device \<Rightarrow> (iolog \<Rightarrow> nat \<Rightarrow> u32) \<Rightarrow> nat \<Rightarrow> u32 \<times> evsoc \<Rightarrow> (u32 \<times> evsoc) option" where
  "evsoc_thread_fun_rx d cam 0 cs = Some cs"
| "evsoc_thread_fun_rx d cam (Suc rounds) cs =
     do { cs \<leftarrow> rx_round d cam cs; evsoc_thread_fun_rx d cam rounds cs }"

section \<open>Displaying a frame\<close>

definition dma_tx_irq :: "evsoc \<Rightarrow> evsoc" where
  "dma_tx_irq s = do_io (\<lambda>h.
     let lBuf = get_tx_buf s;
         h = dmasg_input_memory DMASG_BASE DMASG_DISPLAY_MM2S_CHANNEL lBuf 16 h;
         h = dmasg_output_stream DMASG_BASE DMASG_DISPLAY_MM2S_CHANNEL DMASG_DISPLAY_MM2S_PORT 0 0 True h;
         h = dmasg_interrupt_config DMASG_BASE DMASG_DISPLAY_MM2S_CHANNEL
               DMASG_CHANNEL_INTERRUPT_CHANNEL_COMPLETION_MASK h
     in dmasg_direct_start DMASG_BASE DMASG_DISPLAY_MM2S_CHANNEL FRAME_BYTES False h) s"

definition key_act_irq :: "u32 \<Rightarrow> evsoc \<Rightarrow> evsoc" where
  "key_act_irq irq s = send_signal SIG_TYPE_KEY_ACT irq s"

text \<open>\<open>start_tx\<close> sleeps for five seconds while the thread and the interrupts run; it is two
  steps, before and after the sleep.\<close>

definition start_tx_begin :: "evsoc \<Rightarrow> evsoc" where
  "start_tx_begin s =
     (let s = s\<lparr>init_tx_buf := 1\<rparr>;
          s = do_io (Set_MipiRst 1) s;
          s = do_io (Set_MipiRst 0) s;
          s = do_io (dmasg_input_memory DMASG_BASE DMASG_DISPLAY_MM2S_CHANNEL (get_tx_buf s) 16) s;
          s = do_io (dmasg_output_stream DMASG_BASE DMASG_DISPLAY_MM2S_CHANNEL DMASG_DISPLAY_MM2S_PORT 0 0 True) s;
          s = do_io (dmasg_interrupt_config DMASG_BASE DMASG_DISPLAY_MM2S_CHANNEL
                DMASG_CHANNEL_INTERRUPT_CHANNEL_COMPLETION_MASK) s;
          s = do_io (dmasg_direct_start DMASG_BASE DMASG_DISPLAY_MM2S_CHANNEL FRAME_BYTES False) s
      in s\<lparr>display_mm2s_active := 1\<rparr>)"

definition start_tx_end :: "evsoc \<Rightarrow> evsoc" where
  "start_tx_end s = s\<lparr>init_tx_buf := 0\<rparr>"

definition start_tx :: "(evsoc \<Rightarrow> evsoc) \<Rightarrow> evsoc \<Rightarrow> evsoc" where
  "start_tx during_sleep s = start_tx_end (during_sleep (start_tx_begin s))"

text \<open>\<open>remap\<close> is \<open>remap_pfn_range\<close>: its arguments are the user address, the page frame and the
  length.\<close>

definition PAGE_SHIFT :: nat where "PAGE_SHIFT = 12"

definition evsoc_mmap :: "(u32 \<Rightarrow> u32 \<Rightarrow> u32 \<Rightarrow> int) \<Rightarrow> u32 \<Rightarrow> u32 \<Rightarrow> evsoc \<Rightarrow> int" where
  "evsoc_mmap remap vm_start vm_end s =
     (if remap vm_start (drop_bit PAGE_SHIFT (get_CAM_START_ADDR CAPTURE_IDX s)) (vm_end - vm_start) \<noteq> 0
      then - EAGAIN else 0)"

section \<open>Start-up and removal\<close>

text \<open>\<open>main_init\<close> up to the sleep inside \<open>start_tx\<close>; \<open>kthread\<close> says whether the thread could be
  created.  \<open>dma_init\<close> is empty in this build.\<close>

definition dma_init :: "iolog \<Rightarrow> iolog" where
  "dma_init h = h"

definition main_init :: "iomem device \<Rightarrow> bool \<Rightarrow> evsoc \<Rightarrow> evsoc option" where
  "main_init d kthread s = do {
     let s = s\<lparr>tx_buf_idx := 0, rx_buf_idx := 2\<rparr>;
     let s = do_io (Set_MipiRst 1) s;
     let s = do_io (Set_MipiRst 0) s;
     let s = do_io mipi_i2c_init s;
     h \<leftarrow> PiCam_init d (io s);
     h \<leftarrow> PiCamV3_Init d h;
     let s = s\<lparr>io := h\<rparr>;
     let s = do_io (Set_RGBGain 1 5 3 4) s;
     let s = do_io (Set_RGBGain 1 5 3 7) s;
     let s = do_io dma_init s;
     let s = do_io (dmasg_priority DMASG_BASE DMASG_DISPLAY_MM2S_CHANNEL 0 0) s;
     let s = do_io (dmasg_priority DMASG_BASE DMASG_CAM_S2MM_CHANNEL 0 0) s;
     h \<leftarrow> PiCamV3_StartStreaming d (io s);
     let s = s\<lparr>io := h, rx_thread := kthread\<rparr>;
     let s = s\<lparr>buf_is_ready := 1\<rparr>;
     Some (start_tx_begin s)
   }"

definition main_exit :: "iomem device \<Rightarrow> evsoc \<Rightarrow> evsoc option" where
  "main_exit d s = do {
     let s = s\<lparr>rx_thread := False\<rparr>;
     h \<leftarrow> PiCamV3_StopStreaming d (io s);
     Some (do_io (Set_MipiRst 0) (do_io (Set_MipiRst 1) (s\<lparr>io := h\<rparr>)))
   }"

text \<open>What \<open>my_exit\<close> gives back: the buffers, by index, and the four windows; \<open>kfree\<close> of NULL does nothing.\<close>

datatype unload_step = Kfree nat | Iounmap string

definition my_exit :: "evsoc \<Rightarrow> unload_step list" where
  "my_exit s = map Kfree (filter (\<lambda>i. cam_dma_cpu_arry s i \<noteq> None) [0..<MAX_DMA_BUF_NUM]) @
     map Iounmap [''i2c_base'', ''example_apb_base'', ''dmasg_base'', ''example_axi_base'']"

section \<open>Commands from user space\<close>

definition is_ch_show :: "u8 \<Rightarrow> nat \<Rightarrow> nat \<Rightarrow> nat \<Rightarrow> bool" where
  "is_ch_show pCh pos_y pos_x pScan =
     (let lAllLen = length console_font_8x8;
          pos_y = pos_y div pScan;
          pos_x = pos_x div pScan;
          lBase = unat pCh * 8 + pos_y
      in if lBase \<ge> lAllLen then False
         else console_font_8x8 ! lBase AND drop_bit pos_x 0x80 \<noteq> 0)"

definition char_color :: "u8 \<Rightarrow> u32" where
  "char_color lType =
     (if lType = 1 then 0x01FF0000 else if lType = 2 then 0x01FFFFFF
      else if lType = 3 then 0x01000000 else 0x0100FF00)"

definition char_word :: "u8 \<Rightarrow> u32 \<Rightarrow> nat \<Rightarrow> nat \<Rightarrow> nat \<Rightarrow> nat \<Rightarrow> evsoc \<Rightarrow> evsoc" where
  "char_word lCh lColor lFontY lFontX lY lX s =
     (let tmp_pos = (lFontY + lY) * FRAME_WIDTH + lFontX + lX in
      if tmp_pos \<ge> FRAME_WIDTH * FRAME_HEIGHT then s
      else cam_store LAYER0_IDX tmp_pos (if is_ch_show lCh lY lX 1 then lColor else 0) s)"

definition set_char :: "u32 \<Rightarrow> evsoc \<Rightarrow> evsoc" where
  "set_char pArg s =
     (let lCh = ucast (pArg AND 0xff) :: u8;
          lType = ucast (drop_bit 8 pArg AND 0xff) :: u8;
          lPosY = ucast (drop_bit 16 pArg AND 0xff) :: u8;
          lPosX = ucast (drop_bit 24 pArg AND 0xff) :: u8;
          lFontY = unat lPosY * 9;
          lFontX = unat lPosX * 9;
          s = s\<lparr>lay0_beg_row := lPosY, lay0_beg_col := lPosX\<rparr>
      in fold (\<lambda>lY. fold (char_word lCh (char_color lType) lFontY lFontX lY) [0..<8]) [0..<8] s)"

definition msg_word :: "u8 \<Rightarrow> u32 \<Rightarrow> nat \<Rightarrow> nat \<Rightarrow> nat \<Rightarrow> nat \<Rightarrow> evsoc \<Rightarrow> evsoc" where
  "msg_word lCh lColor lFontY lFontX lY lX s =
     (let tmp_pos = (lFontY + lY) * FRAME_WIDTH + lFontX + lX in
      if tmp_pos \<ge> FRAME_WIDTH * TITLE_HIGH then s
      else title_store tmp_pos (if is_ch_show lCh lY lX 2 then lColor else 0) s)"

text \<open>\<open>lFontY\<close> is computed before \<open>lPosY\<close> is set to 0.\<close>

definition set_msg :: "u32 \<Rightarrow> evsoc \<Rightarrow> evsoc" where
  "set_msg pArg s =
     (let lCh = ucast (pArg AND 0xff) :: u8;
          lType = ucast (drop_bit 8 pArg AND 0xff) :: u8;
          lPosY = ucast (drop_bit 16 pArg AND 0xff) :: u8;
          lPosX = ucast (drop_bit 24 pArg AND 0xff) :: u8;
          lFontY = unat lPosY * 16;
          lFontX = unat lPosX * 16
      in fold (\<lambda>lY. fold (msg_word lCh (char_color lType) lFontY lFontX lY) [0..<16]) [0..<16] s)"

definition main_proc :: "iomem device \<Rightarrow> u32 \<Rightarrow> u32 \<Rightarrow> evsoc \<Rightarrow> (bool \<times> evsoc) option" where
  "main_proc d pCmd pArg s =
     (if pCmd = CMD_SET_MODE then
        Some (True, s\<lparr>select_demo_mode := if pArg = 1 then 2 else if pArg = 2 then 3 else 0\<rparr>)
      else if pCmd = CMD_SET_CAM_BINNING then
        (if sint pArg \<ge> 3 then Some (False, s)
         else do { h \<leftarrow> PiCam_SetBinningMode d (ucast pArg) (ucast pArg) (io s);
                   Some (True, s\<lparr>io := h\<rparr>) })
      else if pCmd = CMD_SET_CAPTURE then Some (True, s\<lparr>capture_mode := ucast pArg\<rparr>)
      else if pCmd = CMD_SET_PID then Some (True, set_pid pArg s)
      else if pCmd = CMD_SET_LAYER then
        Some (True, if pArg = 3
          then fold (\<lambda>lTmpI. cam_store LAYER0_IDX lTmpI 0) [0..<FRAME_WIDTH * FRAME_HEIGHT]
                 (s\<lparr>lay0_is_ready := 0\<rparr>)
          else s\<lparr>lay0_is_ready := pArg\<rparr>)
      else if pCmd = CMD_SET_CHAR then Some (True, set_char pArg s)
      else if pCmd = CMD_CLR_MSG then
        Some (True, if pArg = 3
          then (fold (\<lambda>lTmpI. title_store lTmpI 0) [0..<FRAME_WIDTH * TITLE_HIGH] s)\<lparr>title_is_ready := 0\<rparr>
          else s\<lparr>title_is_ready := pArg\<rparr>)
      else if pCmd = CMD_SET_MSG then Some (True, set_msg pArg s)
      else Some (False, s))"

end
