(* ===== verification/EvsocFrameProps.thy ===== *)
theory EvsocFrameProps
  imports EvsocFrame
begin

unbundle bit_operations_syntax

text \<open>
  What the frame pipeline computes: each copy and overlay loop of EvsocFrame as one function
  on frames, the composition of a displayed frame, the drawing of characters, memory safety
  of the whole driver over every interleaving of its thread, interrupts and commands.
\<close>

section \<open>Loops over words\<close>

lemma fold_rows:
  "fold (\<lambda>i. fold (\<lambda>j. F (i * n + j)) [0..<n]) [0..<m] s = fold F [0..<m * n] s" for n :: nat
proof (induction m)
  case (Suc m)
  have "fold F [0..<Suc m * n] s = fold F [m * n..<m * n + n] (fold F [0..<m * n] s)"
    using upt_add_eq_append [OF le0, of "m * n" n]
    by (simp only: mult_Suc add.commute [of n] fold_append comp_apply)
  moreover have "[m * n..<m * n + n] = map (\<lambda>j. j + m * n) [0..<n]"
    by (metis map_add_upt add.commute)
  ultimately show ?case using Suc by (simp add: fold_map comp_def add.commute)
qed simp

lemma fold_store_words:
  "fold (\<lambda>p f. if c p then f(k + p := v p) else f) [0..<n] f =
     (\<lambda>q. if k \<le> q \<and> q < k + n \<and> c (q - k) then v (q - k) else f q)" for k :: nat
proof (induction n)
  case (Suc n)
  then show ?case by (auto simp: less_Suc_eq fun_eq_iff)
qed (auto simp: fun_eq_iff)

lemma fold_store_rect:
  fixes w n base :: nat
  assumes "0 < n" "n \<le> w"
  shows "fold (\<lambda>y. fold (\<lambda>x f. if c (base + y * w + x) then f(base + y * w + x := v y x) else f) [0..<n]) [0..<m] f =
     (\<lambda>q. if base \<le> q \<and> (q - base) div w < m \<and> (q - base) mod w < n \<and> c q
          then v ((q - base) div w) ((q - base) mod w) else f q)"
proof (induction m)
  case (Suc m)
  let ?k = "base + m * w"
  have row: "fold (\<lambda>x f. if c (?k + x) then f(?k + x := v m x) else f) [0..<n] g =
      (\<lambda>q. if (?k \<le> q \<and> q < ?k + n) \<and> c q then v m (q - ?k) else g q)" for g
    unfolding fold_store_words by (auto simp: fun_eq_iff)
  have pos: "?k \<le> q \<and> q < ?k + n \<longleftrightarrow> base \<le> q \<and> (q - base) div w = m \<and> (q - base) mod w < n" for q
  proof
    assume a: "?k \<le> q \<and> q < ?k + n"
    then have "q - base = m * w + (q - ?k)" "q - ?k < n" by auto
    then have "(q - base) div w = m \<and> (q - base) mod w = q - ?k" using assms
      by (simp add: div_mult_self3 mod_mult_self3)
    then show "base \<le> q \<and> (q - base) div w = m \<and> (q - base) mod w < n" using a by auto
  next
    assume a: "base \<le> q \<and> (q - base) div w = m \<and> (q - base) mod w < n"
    then have "q - base = m * w + (q - base) mod w" by (metis div_mult_mod_eq)
    then show "?k \<le> q \<and> q < ?k + n" using a by linarith
  qed
  have at: "base \<le> q \<Longrightarrow> (q - base) div w = m \<Longrightarrow> q - ?k = (q - base) mod w" for q
    by (metis diff_diff_left minus_div_mult_eq_mod)
  show ?case
    by (simp only: upt_Suc_append [OF le0] fold_append comp_apply fold.simps id_apply Suc row pos)
      (auto simp: fun_eq_iff at less_Suc_eq)
qed simp

section \<open>Buffers as functions\<close>

definition words :: "nat \<Rightarrow> evsoc \<Rightarrow> nat \<Rightarrow> u32" where
  "words i s = the (cam_dma_cpu_arry s i)"

definition with_buf :: "nat \<Rightarrow> (nat \<Rightarrow> u32) \<Rightarrow> evsoc \<Rightarrow> evsoc" where
  "with_buf i f s = s\<lparr>cam_dma_cpu_arry := (cam_dma_cpu_arry s)(i \<mapsto> f)\<rparr>"

definition allocated :: "evsoc \<Rightarrow> bool" where
  "allocated s \<longleftrightarrow> list_all (\<lambda>i. cam_dma_cpu_arry s i \<noteq> None) [0..<MAX_DMA_BUF_NUM]"

lemma allocatedD: "allocated s \<Longrightarrow> i < MAX_DMA_BUF_NUM \<Longrightarrow> cam_dma_cpu_arry s i = Some (words i s)"
  by (auto simp: allocated_def list_all_iff words_def)

lemma allocated_with_buf [simp]: "allocated s \<Longrightarrow> allocated (with_buf i f s)"
  by (auto simp: allocated_def list_all_iff with_buf_def)

lemma words_with_buf [simp]: "words i (with_buf j f s) = (if i = j then f else words i s)"
  by (simp add: words_def with_buf_def)

lemma with_buf_words: "allocated s \<Longrightarrow> i < MAX_DMA_BUF_NUM \<Longrightarrow> with_buf i (words i s) s = s"
  using allocatedD [of s i] by (simp add: with_buf_def fun_upd_idem)

lemma with_buf_twice [simp]: "with_buf i g (with_buf i f s) = with_buf i g s"
  by (simp add: with_buf_def)

lemma accessible_allocated:
  "allocated s \<Longrightarrow> i < MAX_DMA_BUF_NUM \<Longrightarrow> p < CAM_WORDS \<Longrightarrow> accessible s i p"
  by (simp add: accessible_def allocatedD)

lemma cam_load_words:
  "allocated s \<Longrightarrow> i < MAX_DMA_BUF_NUM \<Longrightarrow> p < CAM_WORDS \<Longrightarrow> cam_load i p s = (words i s p, s)"
  by (simp add: cam_load_def accessible_allocated words_def)

lemma cam_store_words:
  "allocated s \<Longrightarrow> i < MAX_DMA_BUF_NUM \<Longrightarrow> p < CAM_WORDS \<Longrightarrow>
   cam_store i p v s = with_buf i ((words i s)(p := v)) s"
  by (simp add: cam_store_def accessible_allocated words_def with_buf_def)

text \<open>A loop that only changes one buffer is a loop on that buffer.\<close>

lemma fold_with_buf:
  assumes "\<And>x f. x \<in> set xs \<Longrightarrow> step x (with_buf i f s) = with_buf i (g x f) s"
  shows "fold step xs (with_buf i f s) = with_buf i (fold g xs f) s"
  using assms by (induction xs arbitrary: f) simp_all

lemma fold_own_buf:
  assumes "allocated s" "i < MAX_DMA_BUF_NUM"
    and "\<And>x f. x \<in> set xs \<Longrightarrow> step x (with_buf i f s) = with_buf i (g x f) s"
  shows "fold step xs s = with_buf i (fold g xs (words i s)) s"
  using fold_with_buf [of xs step i s g "words i s"] assms by (simp add: with_buf_words)

lemma frame_fits: "p < FRAME_WIDTH * FRAME_HEIGHT \<Longrightarrow> p < CAM_WORDS"
  by (simp add: FRAME_WIDTH_def FRAME_HEIGHT_def CAM_WORDS_def cam_dma_size_def)

section \<open>The steps of a received frame\<close>

definition opaque :: "u32 \<Rightarrow> bool" where
  "opaque v \<longleftrightarrow> v AND 0xFF000000 \<noteq> 0"

definition rgb :: "u32 \<Rightarrow> u32" where
  "rgb v = v AND 0x00FFFFFF"

definition layered :: "(nat \<Rightarrow> u32) \<Rightarrow> (nat \<Rightarrow> u32) \<Rightarrow> nat \<Rightarrow> u32" where
  "layered lay f p = (if p < FRAME_WIDTH * FRAME_HEIGHT \<and> opaque (lay p) then rgb (lay p) else f p)"

definition titled :: "(nat \<Rightarrow> u32) \<Rightarrow> (nat \<Rightarrow> u32) \<Rightarrow> nat \<Rightarrow> u32" where
  "titled msg f p =
     (let k = 3 * FRAME_WIDTH + 3 in
      if k \<le> p \<and> p < k + FRAME_WIDTH * TITLE_HIGH \<and> opaque (msg (p - k)) then rgb (msg (p - k)) else f p)"

definition halved :: "(nat \<Rightarrow> u32) \<Rightarrow> (nat \<Rightarrow> u32) \<Rightarrow> nat \<Rightarrow> u32" where
  "halved src f p =
     (let w = FRAME_WIDTH div 2 in
      if p < (FRAME_HEIGHT div 2) * w then src (p div w * 2 * FRAME_WIDTH + p mod w * 2) else f p)"

lemma overlay_layer_eq:
  assumes "allocated s" "rx < MAX_DMA_BUF_NUM" "rx \<noteq> LAYER0_IDX"
  shows "overlay_layer rx s = with_buf rx (layered (words LAYER0_IDX s) (words rx s)) s"
proof -
  let ?L = "words LAYER0_IDX s" and ?n = "FRAME_HEIGHT * FRAME_WIDTH"
  have "overlay_layer rx s = fold (overlay_word rx) [0..<?n] s"
    unfolding overlay_layer_def by (rule fold_rows)
  also have "\<dots> = with_buf rx (fold (\<lambda>p f. if opaque (?L p) then f(0 + p := rgb (?L p)) else f) [0..<?n] (words rx s)) s"
  proof (rule fold_own_buf [OF assms(1,2)])
    fix p f assume "p \<in> set [0..<?n]"
    then have "p < CAM_WORDS" using frame_fits [of p] by (simp add: mult.commute)
    then show "overlay_word rx p (with_buf rx f s) =
        with_buf rx (if opaque (?L p) then f(0 + p := rgb (?L p)) else f) s"
      using assms by (simp add: overlay_word_def cam_load_words cam_store_words LAYER0_IDX_def
          MAX_DMA_BUF_NUM_def opaque_def rgb_def)
  qed
  also have "fold (\<lambda>p f. if opaque (?L p) then f(0 + p := rgb (?L p)) else f) [0..<?n] (words rx s)
      = layered ?L (words rx s)"
    unfolding fold_store_words by (auto simp: layered_def fun_eq_iff mult.commute)
  finally show ?thesis .
qed

lemma title_load_bound: "p < FRAME_WIDTH * TITLE_HIGH \<Longrightarrow> title_load p s = (title_msg_buf s p, s)"
  by (simp add: title_load_def)

lemma frame_words: "FRAME_WIDTH * FRAME_HEIGHT = 921600" "FRAME_WIDTH * TITLE_HIGH = 23040"
  "CAM_WORDS = 1048576" "FRAME_WIDTH div 2 = 640" "FRAME_HEIGHT div 2 = 360"
  by (simp_all add: FRAME_WIDTH_def FRAME_HEIGHT_def CAM_WORDS_def cam_dma_size_def TITLE_HIGH_def)

lemma with_buf_fields [simp]:
  "io (with_buf i f s) = io s" "cam_dma_handle (with_buf i f s) = cam_dma_handle s"
  "title_msg_buf (with_buf i f s) = title_msg_buf s" "select_demo_mode (with_buf i f s) = select_demo_mode s"
  "capture_mode (with_buf i f s) = capture_mode s" "lay0_is_ready (with_buf i f s) = lay0_is_ready s"
  "title_is_ready (with_buf i f s) = title_is_ready s" "tx_buf_idx (with_buf i f s) = tx_buf_idx s"
  "rx_buf_idx (with_buf i f s) = rx_buf_idx s" "g_pid (with_buf i f s) = g_pid s"
  "signals (with_buf i f s) = signals s" "fault (with_buf i f s) = fault s"
  "init_tx_buf (with_buf i f s) = init_tx_buf s"
  by (simp_all add: with_buf_def)

lemma buffers_of_update [simp]:
  "allocated (s\<lparr>capture_mode := m\<rparr>) = allocated s" "allocated (s\<lparr>signals := g\<rparr>) = allocated s"
  "words i (s\<lparr>capture_mode := m\<rparr>) = words i s" "words i (s\<lparr>signals := g\<rparr>) = words i s"
  by (simp_all add: allocated_def words_def)

lemma overlay_title_eq:
  assumes "allocated s" "rx < MAX_DMA_BUF_NUM"
  shows "overlay_title rx s = with_buf rx (titled (title_msg_buf s) (words rx s)) s"
proof -
  let ?T = "title_msg_buf s" and ?n = "TITLE_HIGH * FRAME_WIDTH" and ?k = "3 * FRAME_WIDTH + 3"
  let ?g = "\<lambda>p s. let (v, s) = title_load p s in
      if v AND 0xFF000000 \<noteq> 0 then cam_store rx (?k + p) (v AND 0x00FFFFFF) s else s"
  have "(i + 3) * FRAME_WIDTH + (j + 3) = ?k + (i * FRAME_WIDTH + j)" for i j
    by (simp add: algebra_simps)
  then have row: "title_word rx i = (\<lambda>j. ?g (i * FRAME_WIDTH + j))" for i
    by (intro ext) (simp only: title_word_def)
  have "overlay_title rx s = fold ?g [0..<?n] s"
    unfolding overlay_title_def row by (rule fold_rows)
  also have "\<dots> = with_buf rx (fold (\<lambda>p f. if opaque (?T p) then f(?k + p := rgb (?T p)) else f) [0..<?n] (words rx s)) s"
  proof (rule fold_own_buf [OF assms(1,2)])
    fix p f assume "p \<in> set [0..<?n]"
    then have p: "p < FRAME_WIDTH * TITLE_HIGH" "?k + p < CAM_WORDS"
      by (simp_all add: FRAME_WIDTH_def TITLE_HIGH_def frame_words)
    then show "?g p (with_buf rx f s) = with_buf rx (if opaque (?T p) then f(?k + p := rgb (?T p)) else f) s"
      using assms by (simp add: title_load_bound cam_store_words opaque_def rgb_def)
  qed
  also have "fold (\<lambda>p f. if opaque (?T p) then f(?k + p := rgb (?T p)) else f) [0..<?n] (words rx s)
      = titled ?T (words rx s)"
    unfolding fold_store_words by (auto simp: titled_def fun_eq_iff Let_def mult.commute)
  finally show ?thesis .
qed

lemma capture_full_eq:
  assumes "allocated s" "rx < MAX_DMA_BUF_NUM" "rx \<noteq> CAPTURE_IDX"
  shows "capture_full rx s = with_buf CAPTURE_IDX
     (\<lambda>p. if p < FRAME_WIDTH * FRAME_HEIGHT then words rx s p else words CAPTURE_IDX s p) s"
proof -
  let ?n = "FRAME_WIDTH * FRAME_HEIGHT" and ?W = "words rx s"
  have "capture_full rx s =
      with_buf CAPTURE_IDX (fold (\<lambda>p f. if True then f(0 + p := ?W p) else f) [0..<?n] (words CAPTURE_IDX s)) s"
    unfolding capture_full_def
  proof (rule fold_own_buf [OF assms(1)])
    show "CAPTURE_IDX < MAX_DMA_BUF_NUM" by (simp add: CAPTURE_IDX_def MAX_DMA_BUF_NUM_def)
    fix p f assume "p \<in> set [0..<?n]"
    then have "p < CAM_WORDS" using frame_fits [of p] by simp
    then show "copy_word CAPTURE_IDX p rx p (with_buf CAPTURE_IDX f s) =
        with_buf CAPTURE_IDX (if True then f(0 + p := ?W p) else f) s"
      using assms by (simp add: copy_word_def cam_load_words cam_store_words CAPTURE_IDX_def MAX_DMA_BUF_NUM_def)
  qed
  then show ?thesis unfolding fold_store_words by (simp cong: if_cong)
qed

lemma capture_part_eq:
  assumes "allocated s" "rx < MAX_DMA_BUF_NUM" "rx \<noteq> CAPTURE_IDX"
  shows "capture_part rx s = with_buf CAPTURE_IDX (halved (words rx s) (words CAPTURE_IDX s)) s"
proof -
  let ?w = "FRAME_WIDTH div 2" and ?h = "FRAME_HEIGHT div 2" and ?W = "words rx s"
  let ?src = "\<lambda>p. p div ?w * 2 * FRAME_WIDTH + p mod ?w * 2"
  let ?g = "\<lambda>p. copy_word CAPTURE_IDX p rx (?src p)"
  have cell: "(i * ?w + j) div ?w = i" "(i * ?w + j) mod ?w = j" if "j < ?w" for i j
    using that by simp_all
  have "capture_part rx s = fold (\<lambda>i. fold (\<lambda>j. ?g (i * ?w + j)) [0..<?w]) [0..<?h] s"
    unfolding capture_part_def
    by (intro fold_cong refl ext) (simp only: cell set_upt atLeastLessThan_iff cong: fold_cong)
  also have "\<dots> = fold ?g [0..<?h * ?w] s" by (rule fold_rows)
  also have "\<dots> = with_buf CAPTURE_IDX (fold (\<lambda>p f. if True then f(0 + p := ?W (?src p)) else f)
      [0..<?h * ?w] (words CAPTURE_IDX s)) s"
  proof (rule fold_own_buf [OF assms(1)])
    show "CAPTURE_IDX < MAX_DMA_BUF_NUM" by (simp add: CAPTURE_IDX_def MAX_DMA_BUF_NUM_def)
    fix p f assume "p \<in> set [0..<?h * ?w]"
    then have p: "p < 360 * 640" by (simp add: frame_words)
    then have "p div 640 < 360" "p mod 640 < 640" by (simp_all add: less_mult_imp_div_less)
    then have "?src p < CAM_WORDS" "p < CAM_WORDS"
      using p by (simp_all add: FRAME_WIDTH_def CAM_WORDS_def cam_dma_size_def)
    then show "?g p (with_buf CAPTURE_IDX f s) =
        with_buf CAPTURE_IDX (if True then f(0 + p := ?W (?src p)) else f) s"
      using assms by (simp add: copy_word_def cam_load_words cam_store_words CAPTURE_IDX_def MAX_DMA_BUF_NUM_def)
  qed
  also have "fold (\<lambda>p f. if True then f(0 + p := ?W (?src p)) else f) [0..<?h * ?w] (words CAPTURE_IDX s)
      = halved ?W (words CAPTURE_IDX s)"
    unfolding fold_store_words by (auto simp: halved_def Let_def fun_eq_iff)
  finally show ?thesis .
qed

section \<open>A received frame\<close>

definition handles_distinct :: "evsoc \<Rightarrow> bool" where
  "handles_distinct s \<longleftrightarrow> distinct (map (cam_dma_handle s) [0..<MAX_DMA_BUF_NUM])"

text \<open>The picture before the title: the layer over the camera's frame.\<close>

definition picture :: "(nat \<Rightarrow> u32) \<Rightarrow> nat \<Rightarrow> evsoc \<Rightarrow> nat \<Rightarrow> u32" where
  "picture frm rx s =
     (let f = (\<lambda>p. if p < FRAME_WIDTH * FRAME_HEIGHT then frm p else words rx s p)
      in if lay0_is_ready s > 0 then layered (words LAYER0_IDX s) f else f)"

definition screen :: "(nat \<Rightarrow> u32) \<Rightarrow> nat \<Rightarrow> evsoc \<Rightarrow> nat \<Rightarrow> u32" where
  "screen frm rx s =
     (if title_is_ready s > 0 then titled (title_msg_buf s) (picture frm rx s) else picture frm rx s)"

definition snapshot :: "(nat \<Rightarrow> u32) \<Rightarrow> nat \<Rightarrow> evsoc \<Rightarrow> nat \<Rightarrow> u32" where
  "snapshot frm rx s =
     (if capture_mode s = CMD_SET_CAPTURE_FULL
      then (\<lambda>p. if p < FRAME_WIDTH * FRAME_HEIGHT then picture frm rx s p else words CAPTURE_IDX s p)
      else if capture_mode s = CMD_SET_CAPTURE_PART
      then halved (picture frm rx s) (words CAPTURE_IDX s)
      else words CAPTURE_IDX s)"

definition capturing :: "evsoc \<Rightarrow> bool" where
  "capturing s \<longleftrightarrow> capture_mode s = CMD_SET_CAPTURE_FULL \<or> capture_mode s = CMD_SET_CAPTURE_PART"

definition after_frame :: "(nat \<Rightarrow> u32) \<Rightarrow> iolog \<Rightarrow> evsoc \<Rightarrow> evsoc" where
  "after_frame frm h s =
     (let rx = unat (rx_buf_idx s)
      in s\<lparr>io := h,
          cam_dma_cpu_arry := (cam_dma_cpu_arry s)(CAPTURE_IDX \<mapsto> snapshot frm rx s, rx \<mapsto> screen frm rx s),
          capture_mode := (if capturing s then 0 else capture_mode s),
          signals := signals s @ (if capturing s \<and> g_pid s \<noteq> 0
             then [(g_pid s, 1 OR (push_bit 8 (ucast (capture_mode s)) AND 0xffffff00))] else []),
          tx_buf_idx := rx_buf_idx s, rx_buf_idx := tx_buf_idx s\<rparr>)"

lemma camera_frame_eq:
  assumes "allocated s" "handles_distinct s" "rx < MAX_DMA_BUF_NUM"
  shows "camera_frame cam (cam_dma_handle s rx) s =
    with_buf rx (\<lambda>p. if p < FRAME_WIDTH * FRAME_HEIGHT then cam (io s) p else words rx s p) s"
proof -
  have "i < MAX_DMA_BUF_NUM \<and> cam_dma_handle s i = cam_dma_handle s rx \<longleftrightarrow> i = rx" for i
    using assms(2,3) by (auto simp: handles_distinct_def distinct_conv_nth)
  then have "(\<lambda>i. if i < MAX_DMA_BUF_NUM \<and> cam_dma_handle s i = cam_dma_handle s rx
         then map_option (\<lambda>mem p. if p < FRAME_WIDTH * FRAME_HEIGHT then cam (io s) p else mem p) (cam_dma_cpu_arry s i)
         else cam_dma_cpu_arry s i) = (cam_dma_cpu_arry s)
       (rx \<mapsto> (\<lambda>p. if p < FRAME_WIDTH * FRAME_HEIGHT then cam (io s) p else words rx s p))"
    using allocatedD [OF assms(1,3)] by (simp add: fun_eq_iff)
  then show ?thesis by (simp only: camera_frame_def with_buf_def)
qed

lemma rx_capture_eq:
  assumes "allocated u" "rx < MAX_DMA_BUF_NUM" "rx \<noteq> CAPTURE_IDX"
  shows "rx_capture rx u = (with_buf CAPTURE_IDX
     (if capture_mode u = CMD_SET_CAPTURE_FULL
      then (\<lambda>p. if p < FRAME_WIDTH * FRAME_HEIGHT then words rx u p else words CAPTURE_IDX u p)
      else if capture_mode u = CMD_SET_CAPTURE_PART
      then halved (words rx u) (words CAPTURE_IDX u)
      else words CAPTURE_IDX u) u)
      \<lparr>capture_mode := (if capturing u then 0 else capture_mode u),
       signals := signals u @ (if capturing u \<and> g_pid u \<noteq> 0
             then [(g_pid u, 1 OR (push_bit 8 (ucast (capture_mode u)) AND 0xffffff00))] else [])\<rparr>"
proof -
  have c: "CAPTURE_IDX < MAX_DMA_BUF_NUM" by (simp add: CAPTURE_IDX_def MAX_DMA_BUF_NUM_def)
  have n: "CMD_SET_CAPTURE_PART \<noteq> CMD_SET_CAPTURE_FULL"
    by (simp add: CMD_SET_CAPTURE_FULL_def CMD_SET_CAPTURE_PART_def)
  consider "capture_mode u = CMD_SET_CAPTURE_FULL" | "capture_mode u = CMD_SET_CAPTURE_PART" | "\<not> capturing u"
    by (auto simp: capturing_def)
  then show ?thesis
  proof cases
    case 1
    then show ?thesis
      by (simp add: rx_capture_def capture_full_eq [OF assms] capturing_def send_signal_def
          SIG_TYPE_CAPTURE_DONE_def with_buf_def)
  next
    case 2
    then show ?thesis using n
      by (simp add: rx_capture_def capture_part_eq [OF assms] capturing_def send_signal_def
          SIG_TYPE_CAPTURE_DONE_def with_buf_def)
  next
    case 3
    then show ?thesis
      using with_buf_words [OF assms(1) c] by (simp add: rx_capture_def capturing_def)
  qed
qed

lemma do_rx_proc_eq:
  assumes "allocated s" "handles_distinct s" "rx_buf_idx s = 0 \<or> rx_buf_idx s = 2" "pMode \<noteq> 1"
  shows "do_rx_proc d cam pMode s =
     map_option (\<lambda>h. (1, after_frame (cam h) h s))
       (dmasg_wait d DMASG_BASE DMASG_CAM_S2MM_CHANNEL (rx_trigger pMode (get_rx_buf s) (io s)))"
proof (cases "dmasg_wait d DMASG_BASE DMASG_CAM_S2MM_CHANNEL (rx_trigger pMode (get_rx_buf s) (io s))")
  case None
  then show ?thesis by (simp add: do_rx_proc_def do_io_def Let_def)
next
  case (Some h)
  let ?rx = "unat (rx_buf_idx s)" and ?t = "s\<lparr>io := h\<rparr>"
  let ?pic = "picture (cam h) ?rx s"
  have rx: "?rx < MAX_DMA_BUF_NUM" "?rx \<noteq> LAYER0_IDX" "?rx \<noteq> CAPTURE_IDX"
    using assms(3) by (auto simp: MAX_DMA_BUF_NUM_def LAYER0_IDX_def CAPTURE_IDX_def)
  have al: "allocated ?t" and hd: "handles_distinct ?t" and w: "words i ?t = words i s" for i
    using assms(1,2) by (simp_all add: allocated_def handles_distinct_def words_def)
  have lb: "get_rx_buf s = cam_dma_handle ?t ?rx"
    using rx(1) by (simp add: get_rx_buf_def get_CAM_START_ADDR_def)
  have cf: "camera_frame cam (get_rx_buf s) ?t =
      with_buf ?rx (\<lambda>p. if p < FRAME_WIDTH * FRAME_HEIGHT then cam h p else words ?rx s p) ?t"
    unfolding lb using camera_frame_eq [OF al hd rx(1), of cam] by (simp add: w cong: if_cong)
  define u where "u = with_buf ?rx ?pic ?t"
  have lay: "(if lay0_is_ready (camera_frame cam (get_rx_buf s) ?t) > 0 then overlay_layer ?rx (camera_frame cam (get_rx_buf s) ?t)
      else camera_frame cam (get_rx_buf s) ?t) = u"
    unfolding cf u_def using al rx by (simp add: overlay_layer_eq picture_def w Let_def)
  have alu: "allocated u" using al by (simp add: u_def)
  have wu: "words ?rx u = ?pic" "words CAPTURE_IDX u = words CAPTURE_IDX s"
    using rx by (simp_all add: u_def w)
  have cap: "rx_capture ?rx u = (with_buf CAPTURE_IDX (snapshot (cam h) ?rx s) u)
      \<lparr>capture_mode := (if capturing s then 0 else capture_mode s),
       signals := signals s @ (if capturing s \<and> g_pid s \<noteq> 0
             then [(g_pid s, 1 OR (push_bit 8 (ucast (capture_mode s)) AND 0xffffff00))] else [])\<rparr>"
    unfolding rx_capture_eq [OF alu rx(1,3)] wu snapshot_def
    by (simp add: u_def capturing_def)
  define v where "v = rx_capture ?rx u"
  have v: "allocated v" "words ?rx v = ?pic" "title_msg_buf v = title_msg_buf s"
    "title_is_ready v = title_is_ready s"
    unfolding v_def cap using alu rx wu by (simp_all add: u_def)
  have fin: "(if title_is_ready v > 0 then overlay_title ?rx v else v) = with_buf ?rx (screen (cam h) ?rx s) v"
    using overlay_title_eq [OF v(1) rx(1)] with_buf_words [OF v(1) rx(1)] unfolding v(2-4) screen_def by simp
  have "swap_buffers (with_buf ?rx (screen (cam h) ?rx s) v) = after_frame (cam h) h s"
    unfolding v_def unfolding cap unfolding u_def using rx
    by (simp add: swap_buffers_def after_frame_def with_buf_def Let_def fun_upd_twist)
  moreover have "s\<lparr>io := g, io := h\<rparr> = ?t" for g by simp
  ultimately show ?thesis
    using Some assms(4)
    by (simp add: do_rx_proc_def do_io_def Let_def lay v_def [symmetric] fin cong: if_cong split del: if_split)
qed

section \<open>A concrete state\<close>

text \<open>Four buffers of zeros at 16, 24, 32 and 40 MB, everything else as \<open>main_init\<close> leaves it; a
  process has registered and asked for a full capture.\<close>

definition demo_kmalloc :: "nat \<Rightarrow> ((nat \<Rightarrow> u32) \<times> u32) option" where
  "demo_kmalloc i = Some (\<lambda>p. 0, 0x1000000 + of_nat i * 0x800000)"

definition demo_evsoc :: evsoc where
  "demo_evsoc = (my_init demo_kmalloc evsoc_globals)\<lparr>g_pid := 42, capture_mode := 1\<rparr>"

lemma my_init_fields:
  "my_init kmalloc s = alloc_buf kmalloc 3 (alloc_buf kmalloc 2 (alloc_buf kmalloc 1 (alloc_buf kmalloc 0 s)))"
  by (simp add: my_init_def MAX_DMA_BUF_NUM_def upt_rec numeral_2_eq_2 numeral_3_eq_3)

text \<open>Unloading frees each buffer that loading got, once, and none that it did not get.\<close>

lemma alloc_bufs_got:
  "(cam_dma_cpu_arry (fold (alloc_buf kmalloc) is s) i = None) =
     (if i \<in> set is then kmalloc i = None else cam_dma_cpu_arry s i = None)"
  by (induction "is" arbitrary: s) (auto simp: alloc_buf_def split: option.splits)

lemma init_exit_balance:
  "filter (\<lambda>r. \<exists>i. r = Kfree i) (my_exit (my_init kmalloc s)) = map Kfree (filter (\<lambda>i. kmalloc i \<noteq> None) [0..<MAX_DMA_BUF_NUM])"
proof -
  have "filter (\<lambda>i. cam_dma_cpu_arry (my_init kmalloc s) i \<noteq> None) [0..<MAX_DMA_BUF_NUM] =
      filter (\<lambda>i. kmalloc i \<noteq> None) [0..<MAX_DMA_BUF_NUM]"
    unfolding my_init_def alloc_bufs_got by (rule filter_cong) auto
  then show ?thesis by (simp add: my_exit_def filter_map o_def)
qed

lemma demo_evsoc_ok: "allocated demo_evsoc" "handles_distinct demo_evsoc" "rx_buf_idx demo_evsoc = 2"
  "tx_buf_idx demo_evsoc = 0" "g_pid demo_evsoc = 42" "capture_mode demo_evsoc = 1"
  "lay0_is_ready demo_evsoc = 0" "title_is_ready demo_evsoc = 0" "signals demo_evsoc = []"
  by (simp_all add: demo_evsoc_def my_init_fields alloc_buf_def demo_kmalloc_def evsoc_globals_def allocated_def
      handles_distinct_def MAX_DMA_BUF_NUM_def upt_rec)

lemma demo_rx: "\<exists>s'. do_rx_proc (\<lambda>h a. 0) cam 0 demo_evsoc = Some (1, s')"
  using do_rx_proc_eq [of demo_evsoc 0 "\<lambda>h a. 0" cam] demo_evsoc_ok
  by (simp add: dmasg_wait_def spin_until_now)

section \<open>What a frame is composed of\<close>

lemma do_rx_proc_SomeD:
  assumes "do_rx_proc d cam pMode s = Some (r, s')" "allocated s" "handles_distinct s"
    "rx_buf_idx s = 0 \<or> rx_buf_idx s = 2" "pMode \<noteq> 1"
  shows "r = 1 \<and> s' = after_frame (cam (io s')) (io s') s \<and>
     dmasg_wait d DMASG_BASE DMASG_CAM_S2MM_CHANNEL (rx_trigger pMode (get_rx_buf s) (io s)) = Some (io s')"
  using assms(1) unfolding do_rx_proc_eq [OF assms(2-5)] by (auto simp: after_frame_def Let_def)

lemma after_frame_words:
  assumes "rx_buf_idx s = 0 \<or> rx_buf_idx s = 2"
  shows "words (unat (rx_buf_idx s)) (after_frame frm h s) = screen frm (unat (rx_buf_idx s)) s"
    "words LAYER0_IDX (after_frame frm h s) = words LAYER0_IDX s"
    "words CAPTURE_IDX (after_frame frm h s) = snapshot frm (unat (rx_buf_idx s)) s"
  using assms by (auto simp: after_frame_def Let_def words_def LAYER0_IDX_def CAPTURE_IDX_def)

text \<open>C8: a round of the receive thread puts on screen, in every position of the frame, the
  title where it is opaque (its rectangle is the 18 rows of 1280 words that start at row 3,
  column 3 and run on over the row ends), else the layer where it is opaque, else the
  camera's word; it swaps the two buffers so that this frame is the one displayed next, and
  it changes neither the layer nor the title.\<close>

theorem do_rx_proc_composes:
  assumes "do_rx_proc d cam pMode s = Some (r, s')" "allocated s" "handles_distinct s"
    "rx_buf_idx s = 0 \<or> rx_buf_idx s = 2" "pMode \<noteq> 1" "p < FRAME_WIDTH * FRAME_HEIGHT"
  shows "r = 1 \<and> tx_buf_idx s' = rx_buf_idx s \<and> rx_buf_idx s' = tx_buf_idx s \<and>
    words LAYER0_IDX s' = words LAYER0_IDX s \<and> title_msg_buf s' = title_msg_buf s \<and> fault s' = fault s \<and>
    words (unat (tx_buf_idx s')) s' p =
     (let k = 3 * FRAME_WIDTH + 3; t = title_msg_buf s (p - k); l = words LAYER0_IDX s p in
      if title_is_ready s > 0 \<and> k \<le> p \<and> p < k + FRAME_WIDTH * TITLE_HIGH \<and> opaque t then rgb t
      else if lay0_is_ready s > 0 \<and> opaque l then rgb l
      else cam (io s') p)"
proof -
  note D = do_rx_proc_SomeD [OF assms(1-5)]
  then have s': "s' = after_frame (cam (io s')) (io s') s" and r: "r = 1" by blast+
  have idx: "tx_buf_idx s' = rx_buf_idx s" "rx_buf_idx s' = tx_buf_idx s" "title_msg_buf s' = title_msg_buf s"
    "fault s' = fault s"
    by (subst s', simp add: after_frame_def Let_def)+
  have w: "words (unat (rx_buf_idx s)) s' = screen (cam (io s')) (unat (rx_buf_idx s)) s"
    "words LAYER0_IDX s' = words LAYER0_IDX s"
    using after_frame_words [OF assms(4), of "cam (io s')" "io s'"] s' by metis+
  show ?thesis
    unfolding idx w r using assms(6) by (simp add: screen_def titled_def picture_def layered_def Let_def)
qed

theorem do_rx_proc_composes_witness:
  "\<exists>s'. do_rx_proc (\<lambda>h a. 0) (\<lambda>h p. of_nat p) 0 demo_evsoc = Some (1, s') \<and>
     tx_buf_idx s' = 2 \<and> rx_buf_idx s' = 0 \<and> words 2 s' 5 = 5"
proof -
  obtain s' where "do_rx_proc (\<lambda>h a. 0) (\<lambda>h p. of_nat p) 0 demo_evsoc = Some (1, s')" using demo_rx by blast
  then show ?thesis
    using do_rx_proc_composes [of "\<lambda>h a. 0" "\<lambda>h p. of_nat p" 0 demo_evsoc 1 s' 5] demo_evsoc_ok
    by (auto simp: frame_words Let_def)
qed

text \<open>C34: a pending capture is served once, from the frame without the title: a full capture
  copies every word, a partial one every second word of every second row (a quarter of the
  frame, packed), the rest of the capture buffer keeps its contents; the request is cleared and a process that registered is
  signalled with the capture type.\<close>

theorem do_rx_proc_captures:
  assumes "do_rx_proc d cam pMode s = Some (r, s')" "allocated s" "handles_distinct s"
    "rx_buf_idx s = 0 \<or> rx_buf_idx s = 2" "pMode \<noteq> 1"
  shows "capture_mode s' = (if capturing s then 0 else capture_mode s) \<and>
    signals s' = signals s @ (if capturing s \<and> g_pid s \<noteq> 0
      then [(g_pid s, if capture_mode s = CMD_SET_CAPTURE_FULL then 0x101 else 0x201)] else []) \<and>
    words CAPTURE_IDX s' p =
     (let n = FRAME_WIDTH * FRAME_HEIGHT; w = FRAME_WIDTH div 2;
          shown = (\<lambda>q. if lay0_is_ready s > 0 \<and> opaque (words LAYER0_IDX s q)
                       then rgb (words LAYER0_IDX s q) else cam (io s') q) in
      if capture_mode s = CMD_SET_CAPTURE_FULL \<and> p < n then shown p
      else if capture_mode s = CMD_SET_CAPTURE_PART \<and> p < n div 4
        then shown (2 * (p div w) * FRAME_WIDTH + 2 * (p mod w))
      else words CAPTURE_IDX s p)"
proof -
  note D = do_rx_proc_SomeD [OF assms(1-5)]
  then have s': "s' = after_frame (cam (io s')) (io s') s" by blast
  let ?rx = "unat (rx_buf_idx s)" and ?pic = "picture (cam (io s')) (unat (rx_buf_idx s)) s"
  have w: "words CAPTURE_IDX s' = snapshot (cam (io s')) ?rx s"
    using after_frame_words [OF assms(4), of "cam (io s')" "io s'"] s' by metis
  have pic: "?pic q = (if lay0_is_ready s > 0 \<and> opaque (words LAYER0_IDX s q)
      then rgb (words LAYER0_IDX s q) else cam (io s') q)" if "q < 921600" for q
    using that by (simp add: picture_def layered_def frame_words Let_def)
  have n: "CMD_SET_CAPTURE_PART \<noteq> CMD_SET_CAPTURE_FULL"
    by (simp add: CMD_SET_CAPTURE_FULL_def CMD_SET_CAPTURE_PART_def)
  have sub: "2 * (p div 640) * 1280 + 2 * (p mod 640) < 921600" if "p < 230400"
  proof -
    have "p div 640 < 360" "p mod 640 < 640" using that by (simp_all add: less_mult_imp_div_less)
    then show ?thesis by linarith
  qed
  have snap: "snapshot (cam (io s')) ?rx s p =
     (if capture_mode s = CMD_SET_CAPTURE_FULL \<and> p < 921600 then ?pic p
      else if capture_mode s = CMD_SET_CAPTURE_PART \<and> p < 230400 then ?pic (2 * (p div 640) * 1280 + 2 * (p mod 640))
      else words CAPTURE_IDX s p)"
    using n by (simp add: snapshot_def halved_def frame_words FRAME_WIDTH_def FRAME_HEIGHT_def mult.commute Let_def)
  have sig: "signals s' = signals s @ (if capturing s \<and> g_pid s \<noteq> 0
      then [(g_pid s, 1 OR (push_bit 8 (ucast (capture_mode s)) AND 0xffffff00))] else [])"
    "capture_mode s' = (if capturing s then 0 else capture_mode s)"
    by (subst s', simp add: after_frame_def Let_def)+
  show ?thesis
    unfolding w snap sig Let_def frame_words using pic sub n
    by (auto simp: capturing_def CMD_SET_CAPTURE_FULL_def CMD_SET_CAPTURE_PART_def FRAME_WIDTH_def)
qed

theorem do_rx_proc_captures_witness:
  "\<exists>s'. do_rx_proc (\<lambda>h a. 0) (\<lambda>h p. of_nat p) 0 demo_evsoc = Some (1, s') \<and>
     words CAPTURE_IDX s' 7 = 7 \<and> signals s' = [(42, 0x101)] \<and> capture_mode s' = 0"
proof -
  obtain s' where "do_rx_proc (\<lambda>h a. 0) (\<lambda>h p. of_nat p) 0 demo_evsoc = Some (1, s')" using demo_rx by blast
  then show ?thesis
    using do_rx_proc_captures [of "\<lambda>h a. 0" "\<lambda>h p. of_nat p" 0 demo_evsoc 1 s' 7] demo_evsoc_ok
    by (simp add: frame_words Let_def capturing_def CMD_SET_CAPTURE_FULL_def)
qed

lemma four_buffers: "[0..<MAX_DMA_BUF_NUM] = [0, 1, 2, 3]"
  by (simp add: MAX_DMA_BUF_NUM_def eval_nat_numeral)

lemma idx_bounds: "LAYER0_IDX < MAX_DMA_BUF_NUM" "CAPTURE_IDX < MAX_DMA_BUF_NUM" "0 < MAX_DMA_BUF_NUM"
  by (simp_all add: LAYER0_IDX_def CAPTURE_IDX_def MAX_DMA_BUF_NUM_def)

section \<open>Drawing characters\<close>

text \<open>A cell of \<open>n\<close> x \<open>n\<close> words whose first word is \<open>base\<close>, filled with \<open>glyph\<close>; words from
  \<open>limit\<close> on are left alone.\<close>

definition cell_word :: "nat \<Rightarrow> nat \<Rightarrow> nat \<Rightarrow> (nat \<Rightarrow> nat \<Rightarrow> u32) \<Rightarrow> (nat \<Rightarrow> u32) \<Rightarrow> nat \<Rightarrow> u32" where
  "cell_word base n limit glyph f q =
     (let y = (q - base) div FRAME_WIDTH; x = (q - base) mod FRAME_WIDTH in
      if base \<le> q \<and> y < n \<and> x < n \<and> q < limit then glyph y x else f q)"

lemma fold_rep:
  assumes "\<And>x f. x \<in> set xs \<Longrightarrow> step x (R f) = R (g x f)"
  shows "fold step xs (R f) = R (fold g xs f)"
  using assms by (induction xs arbitrary: f) simp_all

lemma fold_cell:
  assumes "0 < n" "n \<le> FRAME_WIDTH"
    and "\<And>y x f. y < n \<Longrightarrow> x < n \<Longrightarrow> step y x (R f) = R
      (if base + y * FRAME_WIDTH + x < limit then f(base + y * FRAME_WIDTH + x := glyph y x) else f)"
  shows "fold (\<lambda>y. fold (step y) [0..<n]) [0..<n] (R f) = R (cell_word base n limit glyph f)"
proof -
  let ?g = "\<lambda>y x f. if base + y * FRAME_WIDTH + x < limit then f(base + y * FRAME_WIDTH + x := glyph y x) else f"
  have "fold (\<lambda>y. fold (step y) [0..<n]) [0..<n] (R f) = R (fold (\<lambda>y. fold (?g y) [0..<n]) [0..<n] f)"
    by (intro fold_rep [where R = R] assms(3)) auto
  also have "fold (\<lambda>y. fold (?g y) [0..<n]) [0..<n] f = cell_word base n limit glyph f"
    unfolding fold_store_rect [OF assms(1,2), of "\<lambda>q. q < limit"]
    by (auto simp: cell_word_def Let_def fun_eq_iff)
  finally show ?thesis .
qed

definition arg_byte :: "nat \<Rightarrow> u32 \<Rightarrow> u8" where
  "arg_byte k arg = ucast (drop_bit (8 * k) arg AND 0xff)"

definition glyph_word :: "u32 \<Rightarrow> nat \<Rightarrow> nat \<Rightarrow> nat \<Rightarrow> u32" where
  "glyph_word arg scan y x =
     (if is_ch_show (arg_byte 0 arg) y x scan then char_color (arg_byte 1 arg) else 0)"

lemma frame_width_ge: "8 \<le> FRAME_WIDTH" "16 \<le> FRAME_WIDTH"
  by (simp_all add: FRAME_WIDTH_def)

lemma set_char_eq:
  assumes "allocated s"
  shows "set_char arg s = with_buf LAYER0_IDX
     (cell_word (unat (arg_byte 2 arg) * 9 * FRAME_WIDTH + unat (arg_byte 3 arg) * 9) 8
        (FRAME_WIDTH * FRAME_HEIGHT) (glyph_word arg 1) (words LAYER0_IDX s))
     (s\<lparr>lay0_beg_row := arg_byte 2 arg, lay0_beg_col := arg_byte 3 arg\<rparr>)"
proof -
  let ?t = "s\<lparr>lay0_beg_row := arg_byte 2 arg, lay0_beg_col := arg_byte 3 arg\<rparr>"
  let ?fy = "unat (arg_byte 2 arg) * 9" and ?fx = "unat (arg_byte 3 arg) * 9"
  let ?step = "char_word (arg_byte 0 arg) (char_color (arg_byte 1 arg)) ?fy ?fx"
  have al: "allocated ?t" "words LAYER0_IDX ?t = words LAYER0_IDX s"
    using assms by (simp_all add: allocated_def words_def)
  have pos: "(?fy + y) * FRAME_WIDTH + ?fx + x = ?fy * FRAME_WIDTH + ?fx + y * FRAME_WIDTH + x" for y x
    by (simp add: algebra_simps)
  have "fold (\<lambda>y. fold (?step y) [0..<8]) [0..<8] (with_buf LAYER0_IDX (words LAYER0_IDX s) ?t) =
      with_buf LAYER0_IDX (cell_word (?fy * FRAME_WIDTH + ?fx) 8 (FRAME_WIDTH * FRAME_HEIGHT)
        (glyph_word arg 1) (words LAYER0_IDX s)) ?t"
    using al idx_bounds
    by (intro fold_cell [where R = "\<lambda>f. with_buf LAYER0_IDX f ?t"] frame_width_ge)
      (simp_all add: char_word_def Let_def pos cam_store_words frame_fits glyph_word_def not_le)
  moreover have "with_buf LAYER0_IDX (words LAYER0_IDX s) ?t = ?t"
    using with_buf_words [OF al(1) idx_bounds(1)] al(2) by simp
  ultimately show ?thesis by (simp add: set_char_def Let_def arg_byte_def)
qed

lemma set_msg_eq:
  "set_msg arg s = s\<lparr>title_msg_buf :=
     cell_word (unat (arg_byte 2 arg) * 16 * FRAME_WIDTH + unat (arg_byte 3 arg) * 16) 16
        (FRAME_WIDTH * TITLE_HIGH) (glyph_word arg 2) (title_msg_buf s)\<rparr>"
proof -
  let ?fy = "unat (arg_byte 2 arg) * 16" and ?fx = "unat (arg_byte 3 arg) * 16"
  let ?step = "msg_word (arg_byte 0 arg) (char_color (arg_byte 1 arg)) ?fy ?fx"
  have pos: "(?fy + y) * FRAME_WIDTH + ?fx + x = ?fy * FRAME_WIDTH + ?fx + y * FRAME_WIDTH + x" for y x
    by (simp add: algebra_simps)
  have "fold (\<lambda>y. fold (?step y) [0..<16]) [0..<16] (s\<lparr>title_msg_buf := title_msg_buf s\<rparr>) =
      s\<lparr>title_msg_buf := cell_word (?fy * FRAME_WIDTH + ?fx) 16 (FRAME_WIDTH * TITLE_HIGH)
        (glyph_word arg 2) (title_msg_buf s)\<rparr>"
    by (intro fold_cell [where R = "\<lambda>f. s\<lparr>title_msg_buf := f\<rparr>"] frame_width_ge)
      (simp_all add: msg_word_def Let_def pos title_store_def glyph_word_def not_le)
  then show ?thesis by (simp add: set_msg_def Let_def arg_byte_def)
qed

text \<open>Drawing a character in the layer changes exactly the 8 x 8 words of its cell (rows
  9 * row to 9 * row + 7, columns likewise) that lie inside the frame: to the colour where the font
  has a dot and to 0 elsewhere; every other word of the layer keeps its value, and neither
  another buffer nor the title is touched.  A cell that starts beyond the right edge continues
  in the next rows.\<close>

theorem set_char_draws:
  assumes "allocated s"
  shows "words i (set_char arg s) q =
     (let base = unat (arg_byte 2 arg) * 9 * FRAME_WIDTH + unat (arg_byte 3 arg) * 9;
          y = (q - base) div FRAME_WIDTH; x = (q - base) mod FRAME_WIDTH in
      if i = LAYER0_IDX \<and> base \<le> q \<and> y < 8 \<and> x < 8 \<and> q < FRAME_WIDTH * FRAME_HEIGHT
      then (if is_ch_show (arg_byte 0 arg) y x 1 then char_color (arg_byte 1 arg) else 0)
      else words i s q) \<and>
    title_msg_buf (set_char arg s) = title_msg_buf s \<and> fault (set_char arg s) = fault s"
proof -
  have w: "words i (s\<lparr>lay0_beg_row := b, lay0_beg_col := c\<rparr>) = words i s" for b c by (simp add: words_def)
  show ?thesis
    unfolding set_char_eq [OF assms] by (simp add: w cell_word_def glyph_word_def Let_def)
qed

lemma font_A: "is_ch_show 0x41 1 2 1 = True" "is_ch_show 0x41 1 0 1 = False"
  by code_simp+

theorem set_char_draws_witness:
  "words LAYER0_IDX (set_char 0x00000141 demo_evsoc) 1282 = 0x01FF0000 \<and>
   words LAYER0_IDX (set_char 0x00000141 demo_evsoc) 1280 = 0"
proof -
  have b: "arg_byte 0 0x141 = 0x41" "arg_byte 1 0x141 = 1" "arg_byte 2 0x141 = 0" "arg_byte 3 0x141 = 0"
    by (simp_all add: arg_byte_def)
  show ?thesis
    using set_char_draws [OF demo_evsoc_ok(1), of LAYER0_IDX "0x141" 1282]
      set_char_draws [OF demo_evsoc_ok(1), of LAYER0_IDX "0x141" 1280] b font_A
    by (simp add: FRAME_WIDTH_def FRAME_HEIGHT_def char_color_def)
qed

text \<open>A character of the title text is drawn doubled, 16 x 16 words, clipped to the 18 rows
  of the title; the vertical position is not ignored: from row 2 on the cell lies below
  the title and nothing is drawn at all.\<close>

theorem set_msg_draws:
  "title_msg_buf (set_msg arg s) q =
     (let base = unat (arg_byte 2 arg) * 16 * FRAME_WIDTH + unat (arg_byte 3 arg) * 16;
          y = (q - base) div FRAME_WIDTH; x = (q - base) mod FRAME_WIDTH in
      if arg_byte 2 arg < 2 \<and> base \<le> q \<and> y < 16 \<and> x < 16 \<and> q < FRAME_WIDTH * TITLE_HIGH
      then (if is_ch_show (arg_byte 0 arg) (y div 2) (x div 2) 1 then char_color (arg_byte 1 arg) else 0)
      else title_msg_buf s q) \<and>
   cam_dma_cpu_arry (set_msg arg s) = cam_dma_cpu_arry s \<and> fault (set_msg arg s) = fault s"
proof -
  have scan: "is_ch_show c y x 2 = is_ch_show c (y div 2) (x div 2) 1" for c y x
    by (simp add: is_ch_show_def)
  have low: "arg_byte 2 arg < 2" if "unat (arg_byte 2 arg) * 16 * FRAME_WIDTH + unat (arg_byte 3 arg) * 16 \<le> q"
    "q < FRAME_WIDTH * TITLE_HIGH"
  proof -
    have "unat (arg_byte 2 arg) * 20480 < 23040" using that by (simp add: FRAME_WIDTH_def TITLE_HIGH_def)
    then have "unat (arg_byte 2 arg) < 2" by linarith
    then show ?thesis by (simp add: word_less_nat_alt)
  qed
  show ?thesis
    unfolding set_msg_eq using low by (auto simp: cell_word_def glyph_word_def scan Let_def)
qed

section \<open>The driver as a whole\<close>

text \<open>
  Every interleaving of the receive thread's rounds, the two interrupts, the end of the sleep
  in \<open>start_tx\<close> and the commands, from the end of \<open>main_init\<close>'s set-up.  The state is the
  thread's local counter and the globals.
\<close>

inductive evsoc_reach ::
  "iomem device \<Rightarrow> (iolog \<Rightarrow> nat \<Rightarrow> u32) \<Rightarrow> (nat \<Rightarrow> ((nat \<Rightarrow> u32) \<times> u32) option) \<Rightarrow> u32 \<times> evsoc \<Rightarrow> bool"
  for d cam kmalloc where
  reach_init: "main_init d kthread (my_init kmalloc evsoc_globals) = Some s \<Longrightarrow>
     evsoc_reach d cam kmalloc (0, s)"
| reach_round: "evsoc_reach d cam kmalloc (n, s) \<Longrightarrow> rx_thread s \<Longrightarrow> rx_round d cam (n, s) = Some (n', s') \<Longrightarrow>
     evsoc_reach d cam kmalloc (n', s')"
| reach_display: "evsoc_reach d cam kmalloc (n, s) \<Longrightarrow> evsoc_reach d cam kmalloc (n, dma_tx_irq s)"
| reach_key: "evsoc_reach d cam kmalloc (n, s) \<Longrightarrow> evsoc_reach d cam kmalloc (n, key_act_irq irq s)"
| reach_awake: "evsoc_reach d cam kmalloc (n, s) \<Longrightarrow> evsoc_reach d cam kmalloc (n, start_tx_end s)"
| reach_command: "evsoc_reach d cam kmalloc (n, s) \<Longrightarrow> main_proc d cmd arg s = Some (ok, s') \<Longrightarrow>
     evsoc_reach d cam kmalloc (n, s')"

definition evsoc_inv :: "evsoc \<Rightarrow> bool" where
  "evsoc_inv s \<longleftrightarrow> allocated s \<and> handles_distinct s \<and> \<not> fault s
     \<and> (tx_buf_idx s, rx_buf_idx s) \<in> {(0, 2), (2, 0)}
     \<and> select_demo_mode s \<in> {0, 2, 3}
     \<and> (if init_tx_buf s \<noteq> 0 then rx_buf_idx s = 2 else True)"

lemma evsoc_inv_simps [simp]:
  "evsoc_inv (s\<lparr>io := h\<rparr>) = evsoc_inv s" "evsoc_inv (s\<lparr>signals := g\<rparr>) = evsoc_inv s"
  "evsoc_inv (s\<lparr>capture_mode := m\<rparr>) = evsoc_inv s" "evsoc_inv (s\<lparr>g_pid := u\<rparr>) = evsoc_inv s"
  "evsoc_inv (s\<lparr>lay0_is_ready := u\<rparr>) = evsoc_inv s" "evsoc_inv (s\<lparr>title_is_ready := u\<rparr>) = evsoc_inv s"
  "evsoc_inv (s\<lparr>lay0_beg_row := b\<rparr>) = evsoc_inv s" "evsoc_inv (s\<lparr>lay0_beg_col := b\<rparr>) = evsoc_inv s"
  "evsoc_inv (s\<lparr>title_msg_buf := t\<rparr>) = evsoc_inv s" "evsoc_inv (s\<lparr>rx_thread := q\<rparr>) = evsoc_inv s"
  "evsoc_inv (s\<lparr>buf_is_ready := u\<rparr>) = evsoc_inv s" "evsoc_inv (s\<lparr>display_mm2s_active := u\<rparr>) = evsoc_inv s"
  by (simp_all add: evsoc_inv_def allocated_def handles_distinct_def)

lemma inv_with_buf [simp]: "evsoc_inv s \<Longrightarrow> evsoc_inv (with_buf i f s)"
  by (auto simp: evsoc_inv_def handles_distinct_def)

lemma inv_cam_store: "evsoc_inv s \<Longrightarrow> i < MAX_DMA_BUF_NUM \<Longrightarrow> p < CAM_WORDS \<Longrightarrow> evsoc_inv (cam_store i p v s)"
  by (subst cam_store_words) (simp_all add: evsoc_inv_def [of s, THEN iffD1])

lemma inv_title_store: "evsoc_inv s \<Longrightarrow> p < FRAME_WIDTH * TITLE_HIGH \<Longrightarrow> evsoc_inv (title_store p v s)"
  by (simp add: title_store_def)

lemma inv_send_signal [simp]: "evsoc_inv s \<Longrightarrow> evsoc_inv (send_signal t v s)"
  by (simp add: send_signal_def)

lemma fold_inv:
  "(\<And>x s. x \<in> set xs \<Longrightarrow> evsoc_inv s \<Longrightarrow> evsoc_inv (f x s)) \<Longrightarrow> evsoc_inv s \<Longrightarrow> evsoc_inv (fold f xs s)"
  by (induction xs arbitrary: s) simp_all

lemma inv_test_word:
  assumes "evsoc_inv s" "x < FRAME_WIDTH" "y < FRAME_HEIGHT"
  shows "evsoc_inv (test_word y x s)"
proof -
  let ?pos = "y * FRAME_WIDTH + x"
  have pos: "?pos < FRAME_WIDTH * FRAME_HEIGHT"
    using pixel_index_less [OF assms(2,3)] by (simp add: add.commute)
  then have small: "?pos < CAM_WORDS" "unat (of_nat ?pos :: u32) = ?pos"
    using frame_fits [OF pos] by (simp_all add: frame_words unat_of_nat del: of_nat_add)
  let ?s = "cam_store LAYER0_IDX ?pos 0 s"
  have "evsoc_inv ?s" by (rule inv_cam_store [OF assms(1) idx_bounds(1) small(1)])
  then have inv: "evsoc_inv (if ?pos < FRAME_WIDTH * TITLE_HIGH then title_store ?pos 0 ?s else ?s)"
    by (simp add: inv_title_store)
  have "evsoc_inv (set_CAM_START_ADDR 0 (of_nat ?pos) v u)" if "evsoc_inv u" for u v
    unfolding set_CAM_START_ADDR_def small(2)
    using that inv_cam_store [OF that idx_bounds(3) small(1)] by (simp split: if_split)
  then show ?thesis unfolding test_word_def Let_def using inv by blast
qed

lemma inv_test_pattern: "evsoc_inv s \<Longrightarrow> init_tx_buf s \<noteq> 0 \<Longrightarrow> evsoc_inv (test_pattern s)"
proof -
  assume a: "evsoc_inv s" "init_tx_buf s \<noteq> 0"
  then have "evsoc_inv (s\<lparr>tx_buf_idx := 0\<rparr>)"
    by (auto simp: evsoc_inv_def allocated_def handles_distinct_def)
  then show ?thesis
    unfolding test_pattern_def by (intro fold_inv) (auto intro: inv_test_word)
qed

lemma inv_after_frame:
  "evsoc_inv s \<Longrightarrow> init_tx_buf s = 0 \<Longrightarrow> evsoc_inv (after_frame frm h s)"
  by (auto simp: evsoc_inv_def after_frame_def Let_def allocated_def handles_distinct_def list_all_iff)

lemma inv_rx_round:
  assumes "evsoc_inv s" "rx_round d cam (n, s) = Some (n', s')"
  shows "evsoc_inv s'"
proof (cases "init_tx_buf s = 0")
  case False
  then show ?thesis using assms inv_test_pattern [of s] by (auto simp: rx_round_def)
next
  case True
  let ?s = "if n > 1000 \<and> select_demo_mode s > 3 then s\<lparr>select_demo_mode := 0\<rparr> else s"
  have m: "select_demo_mode s \<in> {0, 2, 3}" using assms(1) by (simp add: evsoc_inv_def)
  then have "?s = s" by auto
  then obtain r where "do_rx_proc d cam (select_demo_mode s) s = Some (r, s')"
    using assms(2) True by (auto simp: rx_round_def bind_eq_Some_conv split: if_splits)
  then have "s' = after_frame (cam (io s')) (io s') s"
    using assms(1) m by (intro do_rx_proc_SomeD [THEN conjunct2, THEN conjunct1]) (auto simp: evsoc_inv_def)
  then show ?thesis using inv_after_frame [OF assms(1) True] by metis
qed

lemma inv_char_word: "evsoc_inv s \<Longrightarrow> evsoc_inv (char_word c u fy fx y x s)"
  unfolding char_word_def Let_def
  using frame_fits [of "(fy + y) * FRAME_WIDTH + fx + x"] by (simp add: not_le inv_cam_store idx_bounds)

lemma inv_msg_word: "evsoc_inv s \<Longrightarrow> evsoc_inv (msg_word c u fy fx y x s)"
  unfolding msg_word_def Let_def by (simp add: not_le inv_title_store)

lemma inv_set_char: "evsoc_inv s \<Longrightarrow> evsoc_inv (set_char arg s)"
  unfolding set_char_def Let_def
  by (intro fold_inv inv_char_word) simp_all

lemma inv_set_msg: "evsoc_inv s \<Longrightarrow> evsoc_inv (set_msg arg s)"
  unfolding set_msg_def Let_def
  by (intro fold_inv inv_msg_word) simp_all

lemma inv_main_proc:
  assumes "evsoc_inv s" "main_proc d cmd arg s = Some (ok, s')"
  shows "evsoc_inv s'"
proof -
  have mode: "evsoc_inv (s\<lparr>select_demo_mode := if arg = 1 then 2 else if arg = 2 then 3 else 0\<rparr>)"
    using assms(1) by (auto simp: evsoc_inv_def allocated_def handles_distinct_def)
  have layer: "evsoc_inv (fold (\<lambda>lTmpI. cam_store LAYER0_IDX lTmpI 0) [0..<FRAME_WIDTH * FRAME_HEIGHT] (s\<lparr>lay0_is_ready := 0\<rparr>))"
    using assms(1) by (intro fold_inv) (auto intro!: inv_cam_store simp: idx_bounds frame_fits)
  have title: "evsoc_inv (fold (\<lambda>lTmpI. title_store lTmpI 0) [0..<FRAME_WIDTH * TITLE_HIGH] s)"
    using assms(1) by (intro fold_inv) (auto intro!: inv_title_store)
  show ?thesis
    using assms(2) mode layer title inv_set_char [OF assms(1)] inv_set_msg [OF assms(1)] assms(1)
    by (auto simp: main_proc_def set_pid_def bind_eq_Some_conv split: if_splits)
qed

lemma inv_main_init:
  assumes "main_init d kthread s = Some s'" "allocated s" "handles_distinct s" "\<not> fault s"
    "select_demo_mode s \<in> {0, 2, 3}"
  shows "evsoc_inv s'"
  using assms
  by (auto simp: main_init_def do_io_def Let_def bind_eq_Some_conv start_tx_begin_def evsoc_inv_def
      allocated_def handles_distinct_def)

lemma my_init_allocated:
  "list_all (\<lambda>i. kmalloc i \<noteq> None) [0..<MAX_DMA_BUF_NUM] \<Longrightarrow>
   distinct (map (\<lambda>i. snd (the (kmalloc i))) [0..<MAX_DMA_BUF_NUM]) \<Longrightarrow>
   allocated (my_init kmalloc s) \<and> handles_distinct (my_init kmalloc s) \<and> fault (my_init kmalloc s) = fault s
   \<and> select_demo_mode (my_init kmalloc s) = select_demo_mode s"
proof -
  assume a: "list_all (\<lambda>i. kmalloc i \<noteq> None) [0..<MAX_DMA_BUF_NUM]"
    and dist: "distinct (map (\<lambda>i. snd (the (kmalloc i))) [0..<MAX_DMA_BUF_NUM])"
  have "alloc_buf kmalloc i t = t\<lparr>cam_dma_cpu_arry := (cam_dma_cpu_arry t)(i \<mapsto> fst (the (kmalloc i))),
      cam_dma_handle := (cam_dma_handle t)(i := snd (the (kmalloc i)))\<rparr>" if "i < 4" for i t
  proof -
    have "kmalloc i \<noteq> None" using a that by (simp add: list_all_iff MAX_DMA_BUF_NUM_def)
    then show ?thesis by (auto simp: alloc_buf_def)
  qed
  then show ?thesis
    using dist by (simp add: my_init_fields allocated_def handles_distinct_def four_buffers)
qed

lemma evsoc_reach_inv:
  assumes "evsoc_reach d cam kmalloc cs"
    "list_all (\<lambda>i. kmalloc i \<noteq> None) [0..<MAX_DMA_BUF_NUM]"
    "distinct (map (\<lambda>i. snd (the (kmalloc i))) [0..<MAX_DMA_BUF_NUM])"
  shows "evsoc_inv (snd cs)"
  using assms(1)
proof (induction rule: evsoc_reach.induct)
  case (reach_init kthread s)
  then show ?case
    using inv_main_init my_init_allocated [OF assms(2,3), of evsoc_globals]
    by (fastforce simp: evsoc_globals_def)
next
  case (reach_round n s n' s')
  then show ?case using inv_rx_round by simp
next
  case (reach_awake n s)
  then show ?case by (auto simp: start_tx_end_def evsoc_inv_def allocated_def handles_distinct_def)
next
  case (reach_command n s cmd arg ok s')
  then show ?case using inv_main_proc by simp
qed (simp_all add: dma_tx_irq_def do_io_def key_act_irq_def)

lemma emits_live: "emits d f bss \<Longrightarrow> responsive d \<Longrightarrow> \<exists>h'. f h = Some h'"
  by (simp add: emits_def)

lemma emits_streaming: "emits d (PiCamV3_StartStreaming d) [v3_frame (IMX708_MODE_SELECT, IMX708_ACTIVE)]"
  using emits_write by (simp add: PiCamV3_StartStreaming_def [abs_def])

lemma main_init_live: "responsive d \<Longrightarrow> \<exists>s'. main_init d kthread s = Some s'"
proof -
  assume d: "responsive d"
  let ?h = "mipi_i2c_init (Set_MipiRst 0 (Set_MipiRst 1 (io s)))"
  obtain h1 where h1: "PiCam_init d ?h = Some h1" using picam_writes_live [OF d] unfolding PiCam_init_writes by blast
  obtain h2 where h2: "PiCamV3_Init d h1 = Some h2" using emits_live [OF emits_init d] by blast
  have "\<exists>h3. PiCamV3_StartStreaming d g = Some h3" for g using emits_live [OF emits_streaming d] by blast
  then show ?thesis by (simp add: main_init_def do_io_def Let_def h1 h2 bind_eq_Some_conv)
qed



section \<open>Transfers\<close>

lemma replay_apb_regs [simp]:
  "dma_replay c (EXAMPLE_APB3_REGW EXAMPLE_APB3_SLV EXAMPLE_APB3_SLV_REG2_OFFSET v h) rt = dma_replay c h rt"
  "dma_replay c (EXAMPLE_APB3_REGW EXAMPLE_APB3_SLV EXAMPLE_APB3_SLV_REG3_OFFSET v h) rt = dma_replay c h rt"
  "dma_replay c (EXAMPLE_APB3_REGW EXAMPLE_APB3_SLV EXAMPLE_APB3_SLV_REG4_OFFSET v h) rt = dma_replay c h rt"
  by (simp_all add: replay_apb EXAMPLE_APB3_SLV_REG2_OFFSET_def EXAMPLE_APB3_SLV_REG3_OFFSET_def
      EXAMPLE_APB3_SLV_REG4_OFFSET_def)

text \<open>C20: in every reachable state, the interrupt of the display starts exactly one transfer, of
  one whole frame from the buffer being displayed to the display port, and a round of the
  receive thread starts exactly one transfer, of one whole frame from the camera port to the
  other buffer: a frame is never received into the buffer a display transfer is started on.\<close>

theorem display_and_capture_transfers:
  assumes "evsoc_reach d cam kmalloc (n, s)" "list_all (\<lambda>i. kmalloc i \<noteq> None) [0..<MAX_DMA_BUF_NUM]"
    "distinct (map (\<lambda>i. snd (the (kmalloc i))) [0..<MAX_DMA_BUF_NUM])"
    "do_rx_proc d cam (select_demo_mode s) s = Some (r, s')"
  shows "transfers c (io (dma_tx_irq s)) = transfers c (io s) @
      (if c = 1 then [\<lparr>tr_channel = 1, tr_input = Memory (get_tx_buf s), tr_output = StreamPort 0,
         tr_bytes = FRAME_BYTES\<rparr>] else []) \<and>
    transfers c (io s') = transfers c (io s) @
      (if c = 0 then [\<lparr>tr_channel = 0, tr_input = StreamPort 0, tr_output = Memory (get_rx_buf s),
         tr_bytes = FRAME_BYTES\<rparr>] else []) \<and>
    get_tx_buf s \<noteq> get_rx_buf s \<and> get_tx_buf s' = get_rx_buf s"
proof -
  note inv = evsoc_reach_inv [OF assms(1-3)]
  then have ok: "allocated s" "handles_distinct s" "rx_buf_idx s = 0 \<or> rx_buf_idx s = 2" "select_demo_mode s \<noteq> 1"
    by (auto simp: evsoc_inv_def)
  note D = do_rx_proc_SomeD [OF assms(4) ok]
  have n: "get_tx_buf s \<noteq> get_rx_buf s"
    using inv by (auto simp: evsoc_inv_def get_tx_buf_def get_rx_buf_def get_CAM_START_ADDR_def
        handles_distinct_def four_buffers) (simp_all add: MAX_DMA_BUF_NUM_def)
  have "get_tx_buf s' = get_tx_buf (after_frame (cam (io s')) (io s') s)" using D by metis
  then have t: "get_tx_buf s' = get_rx_buf s"
    by (simp add: get_tx_buf_def get_rx_buf_def get_CAM_START_ADDR_def after_frame_def Let_def)
  have disp: "transfers c (io (dma_tx_irq s)) = transfers c (io s) @
      (if c = 1 then [\<lparr>tr_channel = 1, tr_input = Memory (get_tx_buf s), tr_output = StreamPort 0,
         tr_bytes = FRAME_BYTES\<rparr>] else [])"
    by (simp add: transfers_def dma_tx_irq_def do_io_def Let_def DMASG_DISPLAY_MM2S_CHANNEL_def
        DMASG_DISPLAY_MM2S_PORT_def replay_direct_start replay_interrupt_config replay_output_stream
        replay_input_memory split_beta)
  have "dma_replay c (io s') rt = dma_replay c (rx_trigger (select_demo_mode s) (get_rx_buf s) (io s)) rt" for rt
    using D replay_wait by blast
  then have rec: "transfers c (io s') = transfers c (io s) @
      (if c = 0 then [\<lparr>tr_channel = 0, tr_input = StreamPort 0, tr_output = Memory (get_rx_buf s),
         tr_bytes = FRAME_BYTES\<rparr>] else [])"
    by (simp add: transfers_def rx_trigger_def Let_def DMASG_CAM_S2MM_CHANNEL_def DMASG_CAM_S2MM_PORT_def
        replay_direct_start replay_output_memory replay_input_stream split_beta)
  show ?thesis using disp rec n t by blast
qed

theorem display_and_capture_transfers_witness:
  "\<exists>s s'. evsoc_reach (\<lambda>h a. 0) (\<lambda>h p. 0) demo_kmalloc (0, s) \<and>
     do_rx_proc (\<lambda>h a. 0) (\<lambda>h p. 0) (select_demo_mode s) s = Some (1, s') \<and>
     transfers 0 (io s') = transfers 0 (io s) @
       [\<lparr>tr_channel = 0, tr_input = StreamPort 0, tr_output = Memory (get_rx_buf s), tr_bytes = FRAME_BYTES\<rparr>]"
proof -
  obtain s where "main_init (\<lambda>h a. 0) True (my_init demo_kmalloc evsoc_globals) = Some s"
    using main_init_live [OF responsive_zero] by blast
  then have r: "evsoc_reach (\<lambda>h a. 0) (\<lambda>h p. 0) demo_kmalloc (0, s)" by (rule reach_init)
  have k: "list_all (\<lambda>i. demo_kmalloc i \<noteq> None) [0..<MAX_DMA_BUF_NUM]"
    "distinct (map (\<lambda>i. snd (the (demo_kmalloc i))) [0..<MAX_DMA_BUF_NUM])"
    by (simp_all add: demo_kmalloc_def four_buffers)
  have "evsoc_inv s" using evsoc_reach_inv [OF r k] by simp
  then have "allocated s" "handles_distinct s" "rx_buf_idx s = 0 \<or> rx_buf_idx s = 2" "select_demo_mode s \<noteq> 1"
    by (auto simp: evsoc_inv_def)
  then obtain s' where s': "do_rx_proc (\<lambda>h a. 0) (\<lambda>h p. 0) (select_demo_mode s) s = Some (1, s')"
    using do_rx_proc_eq [of s "select_demo_mode s" "\<lambda>h a. 0" "\<lambda>h p. 0"]
    by (auto simp: dmasg_wait_def spin_until_now)
  from display_and_capture_transfers [OF r k s', of 0] show ?thesis using r s' by auto
qed

text \<open>The guard of \<open>set_CAM_START_ADDR\<close> is too weak: it lets a word index through up to the
  size in bytes, so it stores outside the buffer exactly for the indices from 1048576 to
  4194303 of an allocated buffer.\<close>

theorem set_CAM_START_ADDR_faults_iff:
  "fault (set_CAM_START_ADDR i a v s) \<longleftrightarrow> fault s \<or>
     (i < MAX_DMA_BUF_NUM \<and> cam_dma_cpu_arry s i \<noteq> None \<and> 1048576 \<le> unat a \<and> unat a < 4194304)"
  by (auto simp: set_CAM_START_ADDR_def cam_store_def accessible_def cam_dma_size_def CAM_WORDS_def)

section \<open>Commands\<close>

definition known_commands :: "u32 list" where
  "known_commands = [CMD_SET_MODE, CMD_SET_CAM_BINNING, CMD_SET_CAPTURE, CMD_SET_CHAR, CMD_SET_LAYER,
     CMD_SET_PID, CMD_SET_MSG, CMD_CLR_MSG]"

lemma command_values:
  "CMD_SET_MODE = 0x40046801" "CMD_SET_CAM_SIZE = 0x40046803" "CMD_SET_CAM_BINNING = 0x40046805"
  "CMD_SET_CAPTURE = 0x40046807" "CMD_SET_CHAR = 0x40046809" "CMD_SET_LAYER = 0x4004680B"
  "CMD_SET_PID = 0x4004680D" "CMD_SET_MSG = 0x4004680F" "CMD_CLR_MSG = 0x40046811"
  by (simp_all add: CMD_SET_MODE_def CMD_SET_CAM_SIZE_def CMD_SET_CAM_BINNING_def CMD_SET_CAPTURE_def
      CMD_SET_CHAR_def CMD_SET_LAYER_def CMD_SET_PID_def CMD_SET_MSG_def CMD_CLR_MSG_def IOW_def DEMO_MAGIC_def)

lemma binning_live: "responsive d \<Longrightarrow> \<exists>h'. PiCam_SetBinningMode d x y h = Some h'"
  unfolding picam_ops by (rule picam_writes_live)

lemma main_proc_unknown: "cmd \<notin> set known_commands \<Longrightarrow> main_proc d cmd arg s = Some (False, s)"
  by (simp add: main_proc_def known_commands_def)

lemma main_proc_known:
  assumes "cmd \<in> set known_commands" "responsive d"
  shows "\<exists>s'. main_proc d cmd arg s =
    (if cmd = CMD_SET_CAM_BINNING \<and> sint arg \<ge> 3 then Some (False, s) else Some (True, s'))"
proof -
  obtain h where h: "PiCam_SetBinningMode d (ucast arg) (ucast arg) (io s) = Some h"
    using binning_live [OF assms(2)] by blast
  show ?thesis
    using assms(1) unfolding known_commands_def main_proc_def
    by (auto simp: command_values h)
qed



end
