(* ===== verification/SpiFlash.thy ===== *)
theory SpiFlash
  imports Prelude
begin

text \<open>
  The SPI flash tool: package/spi_app/src/spi.c (the spidev layer), spi.h (the command bytes)
  and spi_app.c (flash commands, sector erase and program, read, option handling).  The record
  \<open>spidev\<close> holds what answers from outside, each answer allowed to depend on everything done
  so far: the results of open and of the configuration requests, the result and the received
  bytes of a message, the contents of uninitialised memory and whether malloc succeeds.  The
  state is the device structure and the log of system calls.

  A buffer is a list of bytes; handing the kernel a length beyond the end of a buffer, or a
  copy past its end, is \<open>None\<close>.  A failing message leaves the receive buffer unchanged.  getopt
  delivers a list of options with their arguments; \<open>strtol\<close> and \<open>atoi\<close> are parameters.  What
  is printed (also under -v) is not modelled.
\<close>

named_theorems spi \<open>flash command bytes\<close>

section \<open>The spidev layer\<close>

definition WRITE_STATUS_REG :: u8 where [spi]: "WRITE_STATUS_REG = 0x01"
definition READ_CMD :: u8 where [spi]: "READ_CMD = 0x03"
definition WRITE_CMD :: u8 where [spi]: "WRITE_CMD = 0x02"
definition READ_STATUS_REG :: u8 where [spi]: "READ_STATUS_REG = 0x05"
definition WRITE_ENABLE_CMD :: u8 where [spi]: "WRITE_ENABLE_CMD = 0x06"
definition GLOBAL_LOCK :: u8 where [spi]: "GLOBAL_LOCK = 0x7E"
definition GLOBAL_UNLOCK :: u8 where [spi]: "GLOBAL_UNLOCK = 0x98"
definition SECTOR_ERASE :: u8 where [spi]: "SECTOR_ERASE = 0x20"
definition SPI_ID :: u8 where [spi]: "SPI_ID = 0xAB"
definition WIP :: u8 where [spi]: "WIP = 0x01"

record spi_device =
  spi_filename :: string
  spi_mode :: u8
  bpw :: u8
  speed :: u32
  cs_change :: u8
  spi_fd :: int

datatype spi_config = WrMode u8 | RdMode | WrBitsPerWord u8 | RdBitsPerWord | WrMaxSpeed u32 | RdMaxSpeed

record spi_ioc_transfer =
  tx_bytes :: "u8 list"
  has_rx :: bool
  xfer_len :: u32
  speed_hz :: u32
  bits_per_word :: u8
  xfer_cs_change :: u8

datatype spi_event = SpiOpen string int | SpiConfig int spi_config int
  | SpiMessage int spi_ioc_transfer int | SpiClose int

record spidev =
  sd_open :: "spi_event list \<Rightarrow> string \<Rightarrow> int"
  sd_config :: "spi_event list \<Rightarrow> spi_config \<Rightarrow> int \<times> u32"
  sd_message :: "spi_event list \<Rightarrow> spi_ioc_transfer \<Rightarrow> int"
  sd_miso :: "spi_event list \<Rightarrow> nat \<Rightarrow> u8"
  sd_junk :: "nat \<Rightarrow> u8"
  sd_malloc :: "spi_event list \<Rightarrow> int \<Rightarrow> bool"

record spi =
  sdev :: spi_device
  slog :: "spi_event list"

definition spi_note :: "spi_event \<Rightarrow> spi \<Rightarrow> spi" where
  "spi_note e s = s\<lparr>slog := slog s @ [e]\<rparr>"

definition spi_config_ioctl :: "spidev \<Rightarrow> int \<Rightarrow> spi_config \<Rightarrow> spi \<Rightarrow> int \<times> u32 \<times> spi" where
  "spi_config_ioctl w fd c s =
     (let (rc, v) = sd_config w (slog s) c in (rc, v, spi_note (SpiConfig fd c rc) s))"

definition spi_start :: "spidev \<Rightarrow> spi \<Rightarrow> int \<times> spi" where
  "spi_start w s =
    (let rc = 0;
         fd = sd_open w (slog s) (spi_filename (sdev s));
         s = spi_note (SpiOpen (spi_filename (sdev s)) fd) s;
         fail_configure = (\<lambda>rc s. (rc, spi_note (SpiClose fd) s))
     in if fd < 0 then (rc, s) else
     let (rc, v, s) = spi_config_ioctl w fd (WrMode (spi_mode (sdev s))) s in
     if rc < 0 then fail_configure rc s else
     let (rc, v, s) = spi_config_ioctl w fd RdMode s in
     if rc < 0 then fail_configure rc s else
     let s = s\<lparr>sdev := (sdev s)\<lparr>spi_mode := ucast v\<rparr>\<rparr>;
         (rc, v, s) = spi_config_ioctl w fd (WrBitsPerWord (bpw (sdev s))) s in
     if rc < 0 then fail_configure rc s else
     let (rc, v, s) = spi_config_ioctl w fd RdBitsPerWord s in
     if rc < 0 then fail_configure rc s else
     let s = s\<lparr>sdev := (sdev s)\<lparr>bpw := ucast v\<rparr>\<rparr>;
         (rc, v, s) = spi_config_ioctl w fd (WrMaxSpeed (speed (sdev s))) s in
     if rc < 0 then fail_configure rc s else
     let (rc, v, s) = spi_config_ioctl w fd RdMaxSpeed s in
     if rc < 0 then fail_configure rc s else
     let s = s\<lparr>sdev := (sdev s)\<lparr>speed := v\<rparr>\<rparr> in
     (0, s\<lparr>sdev := (sdev s)\<lparr>spi_fd := fd\<rparr>\<rparr>))"

definition spi_transfer ::
  "spidev \<Rightarrow> u8 list \<Rightarrow> u8 list option \<Rightarrow> u32 \<Rightarrow> spi \<Rightarrow> (int \<times> u8 list option \<times> spi) option" where
  "spi_transfer w write_buf read_buf buf_len s =
    (if length write_buf < unat buf_len \<or> (case read_buf of None \<Rightarrow> False | Some b \<Rightarrow> length b < unat buf_len)
     then None
     else
       let t = \<lparr>tx_bytes = take (unat buf_len) write_buf, has_rx = (read_buf \<noteq> None), xfer_len = buf_len,
                speed_hz = speed (sdev s), bits_per_word = bpw (sdev s), xfer_cs_change = cs_change (sdev s)\<rparr>;
           rc = sd_message w (slog s) t;
           received = (\<lambda>b. if rc < 0 then b
             else map (sd_miso w (slog s)) [0..<unat buf_len] @ drop (unat buf_len) b)
       in Some (rc, map_option received read_buf, spi_note (SpiMessage (spi_fd (sdev s)) t rc) s))"

definition spi_stop :: "spi \<Rightarrow> spi" where
  "spi_stop s = spi_note (SpiClose (spi_fd (sdev s))) s"

section \<open>Flash commands\<close>

lemma wait_timeout_dec:
  assumes "\<not> 400 \<le> (timeout :: u16) + 1"
  shows "unat (398 - timeout) < unat (399 - timeout)"
proof -
  have "399 - timeout \<noteq> 0" using assms by auto
  then have "unat (399 - timeout - 1) < unat (399 - timeout)" by (rule unat_measure_dec)
  then show ?thesis by (simp add: algebra_simps)
qed

function wait_busy_loop :: "spidev \<Rightarrow> u16 \<Rightarrow> u8 \<Rightarrow> spi \<Rightarrow> spi option" where
  "wait_busy_loop w timeout out s = do {
     (rc, rx, s) \<leftarrow> spi_transfer w [READ_STATUS_REG] (Some [out]) 1 s;
     let out = hd (the rx);
     if out AND WIP = 0 then Some s
     else let timeout = timeout + 1 in
       if timeout \<ge> 400 then Some s else wait_busy_loop w timeout out s
   }"
  by pat_completeness auto
termination
  by (relation "measure (\<lambda>(w, timeout, out, s). unat (399 - timeout :: u16))")
     (simp_all add: wait_timeout_dec)

declare wait_busy_loop.simps [simp del]

definition wait_busy :: "spidev \<Rightarrow> spi \<Rightarrow> spi option" where
  "wait_busy w s = wait_busy_loop w 0 (sd_junk w 0) s"

definition spi_tx_cmd :: "spidev \<Rightarrow> u8 \<Rightarrow> spi \<Rightarrow> (int \<times> spi) option" where
  "spi_tx_cmd w reg s = do {
     let cs = cs_change (sdev s);
     let s = s\<lparr>sdev := (sdev s)\<lparr>cs_change := 0\<rparr>\<rparr>;
     (rc, rx, s) \<leftarrow> spi_transfer w [reg] None 1 s;
     let s = s\<lparr>sdev := (sdev s)\<lparr>cs_change := cs\<rparr>\<rparr>;
     Some (rc, s)
   }"

definition ncmd_reg :: "spidev \<Rightarrow> u8 \<Rightarrow> u8 list \<Rightarrow> int \<Rightarrow> spi \<Rightarrow> (int \<times> u8 list \<times> spi) option" where
  "ncmd_reg w reg buf buf_len s = do {
     let full_buf_len = buf_len + 3;
     if \<not> sd_malloc w (slog s) full_buf_len then Some (-1, buf, s) else do {
       let full_buf = (map (sd_junk w) [0..<nat full_buf_len])[0 := reg];
       (rc, rx, s) \<leftarrow> spi_transfer w full_buf (Some full_buf) (word_of_int full_buf_len) s;
       let buf = take (nat buf_len) (the rx) @ drop (nat buf_len) buf;
       Some (rc, buf, s)
     }
   }"

definition cmd_reg :: "spidev \<Rightarrow> u8 \<Rightarrow> u8 \<Rightarrow> spi \<Rightarrow> (int \<times> spi) option" where
  "cmd_reg w reg data s = do {
     (rc, buf, s) \<leftarrow> ncmd_reg w reg [data] 1 s;
     Some (uint (hd buf), s)
   }"

definition enable_write_latch :: "spidev \<Rightarrow> spi \<Rightarrow> (int \<times> spi) option" where
  "enable_write_latch w s = spi_tx_cmd w WRITE_ENABLE_CMD s"

definition global_lock :: "spidev \<Rightarrow> spi \<Rightarrow> (int \<times> spi) option" where
  "global_lock w s = do {
     (rc, s) \<leftarrow> enable_write_latch w s;
     if rc < 0 then Some (rc, s) else spi_tx_cmd w GLOBAL_LOCK s
   }"

definition global_unlock :: "spidev \<Rightarrow> spi \<Rightarrow> (int \<times> spi) option" where
  "global_unlock w s = do {
     (rc, s) \<leftarrow> enable_write_latch w s;
     if rc < 0 then Some (rc, s) else spi_tx_cmd w GLOBAL_UNLOCK s
   }"

definition addr_header :: "u8 \<Rightarrow> u32 \<Rightarrow> u8 list" where
  "addr_header cmd addr =
     [cmd, ucast (drop_bit 16 addr AND 0xFF), ucast (drop_bit 8 addr AND 0xFF), ucast (addr AND 0xFF)]"

definition sector_erase :: "spidev \<Rightarrow> u32 \<Rightarrow> spi \<Rightarrow> (int \<times> spi) option" where
  "sector_erase w addr s = do {
     (rc, s) \<leftarrow> enable_write_latch w s;
     if rc < 0 then Some (rc, s) else do {
       let tx_buf = addr_header SECTOR_ERASE addr;
       (rc, rx, s) \<leftarrow> spi_transfer w tx_buf None 4 s;
       if rc < 0 then Some (rc, s) else do {
         s \<leftarrow> wait_busy w s;
         Some (rc, s)
       }
     }
   }"

definition spi_flash_write :: "spidev \<Rightarrow> u32 \<Rightarrow> u8 list \<Rightarrow> int \<Rightarrow> spi \<Rightarrow> (int \<times> spi) option" where
  "spi_flash_write w addr data len s = do {
     (rc, s) \<leftarrow> global_unlock w s;
     if rc < 0 then Some (rc, s) else do {
       (rc, s) \<leftarrow> sector_erase w addr s;
       if rc < 0 then Some (rc, s) else do {
         (rc, s) \<leftarrow> enable_write_latch w s;
         if rc < 0 then Some (rc, s) else do {
           let tx_len = len + 4;
           if tx_len > 2147483647 then None
           else if \<not> sd_malloc w (slog s) tx_len then Some (-1, s)
           else if len < 0 \<or> nat len > length data then None
           else do {
             let tx_buf = addr_header WRITE_CMD addr @ take (nat len) data;
             (rc, rx, s) \<leftarrow> spi_transfer w tx_buf None (word_of_int tx_len) s;
             s \<leftarrow> wait_busy w s;
             global_lock w s
           }
         }
       }
     }
   }"

lemma read_loop_dec:
  assumes "(a :: u32) < b"
  shows "unat (b - (a + 1)) < unat (b - a)"
proof -
  have "b - a \<noteq> 0" using assms by auto
  then have "unat (b - a - 1) < unat (b - a)" by (rule unat_measure_dec)
  then show ?thesis by (simp add: algebra_simps)
qed

function spi_flash_read_loop ::
  "spidev \<Rightarrow> u32 \<Rightarrow> u32 \<Rightarrow> u8 \<Rightarrow> (u32 \<times> u8) list \<Rightarrow> spi \<Rightarrow> ((u32 \<times> u8) list \<times> spi) option" where
  "spi_flash_read_loop w naddr bound rx shown s =
    (if naddr < bound then do {
       let tx = addr_header READ_CMD naddr;
       (rc, r, s) \<leftarrow> spi_transfer w tx (Some [rx]) 4 s;
       let rx = hd (the r);
       spi_flash_read_loop w (naddr + 1) bound rx (shown @ [(naddr, rx)]) s
     } else Some (shown, s))"
  by pat_completeness auto
termination
  by (relation "measure (\<lambda>(w, naddr, bound, rx, shown, s). unat (bound - naddr))")
     (auto simp: read_loop_dec)

definition spi_flash_read :: "spidev \<Rightarrow> u32 \<Rightarrow> u32 \<Rightarrow> spi \<Rightarrow> ((u32 \<times> u8) list \<times> spi) option" where
  "spi_flash_read w addr len s = spi_flash_read_loop w addr (addr + len) 0 [] s"

section \<open>The command line tool\<close>

record spi_opts =
  o_len :: u32
  o_rd :: bool
  o_wr :: bool
  o_addr :: u32
  o_id :: bool
  o_msg :: "u8 list"
  o_msg_len :: int
  o_force :: bool
  o_device :: string
  o_speed :: u32

record libc_num =
  strtol16 :: "string \<Rightarrow> u32"
  atoi :: "string \<Rightarrow> int"

definition opts_init :: spi_opts where
  "opts_init = \<lparr>o_len = 16, o_rd = False, o_wr = False, o_addr = 0x00800000, o_id = False,
     o_msg = replicate 256 0, o_msg_len = 0, o_force = False,
     o_device = ''/dev/spidev0.0'', o_speed = 5000000\<rparr>"

definition msg_buffer :: "string \<Rightarrow> u8 list" where
  "msg_buffer arg = take 255 (map of_char arg @ replicate 255 0) @ [0]"

fun spi_opt :: "libc_num \<Rightarrow> char \<times> string \<Rightarrow> spi_opts \<Rightarrow> int + spi_opts" where
  "spi_opt c (opt, arg) opts =
    (if opt = CHR ''a'' then Inr (opts\<lparr>o_addr := strtol16 c arg\<rparr>)
     else if opt = CHR ''d'' then Inr (opts\<lparr>o_device := take 19 arg\<rparr>)
     else if opt = CHR ''i'' then Inr (opts\<lparr>o_id := True\<rparr>)
     else if opt = CHR ''f'' then Inr (opts\<lparr>o_force := True\<rparr>)
     else if opt = CHR ''m'' then Inr (opts\<lparr>o_msg_len := int (length arg), o_msg := msg_buffer arg\<rparr>)
     else if opt = CHR ''s'' then Inr (opts\<lparr>o_speed := word_of_int (atoi c arg)\<rparr>)
     else if opt = CHR ''l'' then Inr (opts\<lparr>o_len := word_of_int (atoi c arg)\<rparr>)
     else if opt = CHR ''r'' then Inr (opts\<lparr>o_rd := True\<rparr>)
     else if opt = CHR ''w'' then Inr (opts\<lparr>o_wr := True\<rparr>)
     else if opt = CHR ''v'' then Inr opts
     else if opt = CHR ''h'' then Inl 0
     else Inl (-1))"

fun spi_getopt :: "libc_num \<Rightarrow> (char \<times> string) list \<Rightarrow> spi_opts \<Rightarrow> int + spi_opts" where
  "spi_getopt c [] opts = Inr opts"
| "spi_getopt c (x # xs) opts =
     (case spi_opt c x opts of Inl r \<Rightarrow> Inl r | Inr opts \<Rightarrow> spi_getopt c xs opts)"

definition guarded_addr :: "spi_opts \<Rightarrow> u32" where
  "guarded_addr opts =
     (if o_addr opts < 0x00800000 then if \<not> o_force opts then 0x00800000 else o_addr opts else o_addr opts)"

definition spi_main :: "spidev \<Rightarrow> libc_num \<Rightarrow> int \<Rightarrow> (char \<times> string) list \<Rightarrow> int \<Rightarrow> (int \<times> spi) option" where
  "spi_main w c argc args fd0 =
    (case spi_getopt c args opts_init of
       Inl r \<Rightarrow> Some (r, \<lparr>sdev = \<lparr>spi_filename = [], spi_mode = 0, bpw = 8, speed = 5000000, cs_change = 0,
           spi_fd = fd0\<rparr>, slog = []\<rparr>)
     | Inr opts \<Rightarrow>
       let s = \<lparr>sdev = \<lparr>spi_filename = o_device opts, spi_mode = 0, bpw = 8, speed = o_speed opts,
                  cs_change = 0, spi_fd = fd0\<rparr>, slog = []\<rparr>
       in if argc \<le> 1 then Some (0, s) else
       let (rc, s) = spi_start w s in
       if rc \<noteq> 0 then Some (rc, s)
       else if o_id opts then do {
         (value, s) \<leftarrow> cmd_reg w SPI_ID 0 s;
         Some (0, spi_stop s)
       }
       else do {
         (addr, s) \<leftarrow> (if o_wr opts then do {
             (rc, s) \<leftarrow> spi_flash_write w (guarded_addr opts) (o_msg opts) (o_msg_len opts) s;
             Some (guarded_addr opts, s)
           } else Some (o_addr opts, s));
         s \<leftarrow> (if o_rd opts then do {
             (shown, s) \<leftarrow> spi_flash_read w addr (o_len opts) s;
             Some s
           } else Some s);
         Some (0, spi_stop s)
       })"
section \<open>What is sent to the flash\<close>

definition msg_of :: "spi_event \<Rightarrow> (u8 list \<times> int) list" where
  "msg_of e = (case e of SpiMessage fd t rc \<Rightarrow> [(tx_bytes t, rc)] | _ \<Rightarrow> [])"

definition msgs :: "spi \<Rightarrow> (u8 list \<times> int) list" where
  "msgs s = concat (map msg_of (slog s))"

lemma msgs_note [simp]: "msgs (spi_note e s) = msgs s @ msg_of e"
  by (simp add: msgs_def spi_note_def)

lemma msgs_sdev [simp]: "msgs (s\<lparr>sdev := d\<rparr>) = msgs s"
  by (simp add: msgs_def)

lemma msg_of_simps [simp]:
  "msg_of (SpiMessage fd t rc) = [(tx_bytes t, rc)]"
  "msg_of (SpiOpen f i) = []" "msg_of (SpiConfig i cfg rc) = []" "msg_of (SpiClose i) = []"
  by (simp_all add: msg_of_def)

lemma spi_transfer_sends:
  assumes "unat len \<le> length wb" "rx = None \<or> unat len \<le> length (the rx)"
  obtains rc rx' s' where
    "spi_transfer w wb rx len s = Some (rc, rx', s')"
    "msgs s' = msgs s @ [(take (unat len) wb, rc)]"
    "rx' = None \<longleftrightarrow> rx = None"
proof -
  have "\<not> (length wb < unat len \<or> (case rx of None \<Rightarrow> False | Some b \<Rightarrow> length b < unat len))"
    using assms by (cases rx) auto
  note def = spi_transfer_def [of w wb rx len s, unfolded if_not_P [OF this] Let_def]
  show thesis by (rule that [OF def]) (simp_all split: option.splits)
qed

lemma spi_tx_cmd_sends:
  obtains rc s' where "spi_tx_cmd w reg s = Some (rc, s')" "msgs s' = msgs s @ [([reg], rc)]"
proof -
  let ?s = "s\<lparr>sdev := (sdev s)\<lparr>cs_change := 0\<rparr>\<rparr>"
  obtain rc rx' s' where "spi_transfer w [reg] None 1 ?s = Some (rc, rx', s')"
    "msgs s' = msgs ?s @ [(take (unat (1 :: u32)) [reg], rc)]"
    by (rule spi_transfer_sends [where wb = "[reg]" and rx = None and len = 1 and s = ?s and w = w]) auto
  then show thesis
    by (intro that [of rc "s'\<lparr>sdev := (sdev s')\<lparr>cs_change := cs_change (sdev s)\<rparr>\<rparr>"])
       (auto simp: spi_tx_cmd_def Let_def)
qed

definition poll_msgs :: "int list \<Rightarrow> (u8 list \<times> int) list" where
  "poll_msgs rcs = map (Pair [READ_STATUS_REG]) rcs"

lemma timeout_room:
  "timeout < 400 \<Longrightarrow> \<not> 400 \<le> (timeout :: u16) + 1 \<Longrightarrow> timeout + 1 < 400 \<and> 400 - unat timeout = Suc (400 - unat (timeout + 1))"
proof -
  assume "timeout < 400" and n: "\<not> 400 \<le> timeout + 1"
  then have "unat timeout < 400" by (simp add: word_less_nat_alt)
  then have "unat (timeout + 1) = Suc (unat timeout)" by (simp add: unat_word_ariths)
  with n show ?thesis by (simp add: word_le_nat_alt word_less_nat_alt)
qed

lemma wait_busy_loop_sends:
  "timeout < 400 \<Longrightarrow> \<exists>rcs s'. wait_busy_loop w timeout out s = Some s' \<and> msgs s' = msgs s @ poll_msgs rcs \<and>
     1 \<le> length rcs \<and> length rcs \<le> 400 - unat timeout"
proof (induction w timeout out s rule: wait_busy_loop.induct)
  case (1 w timeout out s)
  obtain rc rx' s1 where t: "spi_transfer w [READ_STATUS_REG] (Some [out]) 1 s = Some (rc, rx', s1)"
    "msgs s1 = msgs s @ [(take (unat (1 :: u32)) [READ_STATUS_REG], rc)]"
    by (rule spi_transfer_sends [where wb = "[READ_STATUS_REG]" and rx = "Some [out]" and len = 1 and s = s and w = w]) auto
  have one: "1 \<le> 400 - unat timeout" using 1(2) by (simp add: word_less_nat_alt)
  show ?case
  proof (cases "hd (the rx') AND WIP = 0 \<or> 400 \<le> timeout + 1")
    case True
    then have "wait_busy_loop w timeout out s = Some s1"
      by (subst wait_busy_loop.simps) (auto simp: t Let_def)
    with t one show ?thesis by (intro exI [of _ "[rc]"] exI [of _ s1]) (simp add: poll_msgs_def)
  next
    case False
    then have e: "wait_busy_loop w timeout out s = wait_busy_loop w (timeout + 1) (hd (the rx')) s1"
      by (subst wait_busy_loop.simps) (auto simp: t Let_def)
    note room = timeout_room [OF 1(2)]
    obtain rcs s' where "wait_busy_loop w (timeout + 1) (hd (the rx')) s1 = Some s'"
      "msgs s' = msgs s1 @ poll_msgs rcs" "1 \<le> length rcs" "length rcs \<le> 400 - unat (timeout + 1)"
      using 1(1) [OF t(1) refl refl refl] False room by auto
    then show ?thesis using e t room False
      by (intro exI [of _ "rc # rcs"] exI [of _ s']) (auto simp: poll_msgs_def)
  qed
qed

lemma wait_busy_sends:
  obtains rcs s' where "wait_busy w s = Some s'" "msgs s' = msgs s @ poll_msgs rcs"
    "1 \<le> length rcs" "length rcs \<le> 400"
  using wait_busy_loop_sends [of 0 w "sd_junk w 0" s] by (auto simp: wait_busy_def)

definition flash_script :: "u32 \<Rightarrow> u8 list \<Rightarrow> nat \<Rightarrow> nat \<Rightarrow> u8 list list" where
  "flash_script addr data n m =
     [[WRITE_ENABLE_CMD], [GLOBAL_UNLOCK], [WRITE_ENABLE_CMD], addr_header SECTOR_ERASE addr]
     @ replicate n [READ_STATUS_REG]
     @ [[WRITE_ENABLE_CMD], addr_header WRITE_CMD addr @ data]
     @ replicate m [READ_STATUS_REG]
     @ [[WRITE_ENABLE_CMD], [GLOBAL_LOCK]]"

definition follows :: "u8 list list \<Rightarrow> (u8 list \<times> int) list \<Rightarrow> bool" where
  "follows script L \<longleftrightarrow> map fst L = take (length L) script \<and>
     list_all (\<lambda>(tx, rc). 0 \<le> rc \<or> hd tx = READ_STATUS_REG \<or> hd tx = WRITE_CMD) (butlast L)"

lemma map_fst_poll_msgs [simp]: "map fst (poll_msgs rcs) = replicate (length rcs) [READ_STATUS_REG]"
  by (induction rcs) (auto simp: poll_msgs_def)

lemma length_poll_msgs [simp]: "length (poll_msgs rcs) = length rcs"
  by (simp add: poll_msgs_def)

lemma poll_msgs_tolerant [simp]:
  "list_all (\<lambda>(tx, rc). 0 \<le> rc \<or> hd tx = READ_STATUS_REG \<or> hd tx = WRITE_CMD) (poll_msgs rcs)"
  by (auto simp: poll_msgs_def list_all_iff)

lemma poll_msgs_eq_Nil [simp]: "poll_msgs rcs = [] \<longleftrightarrow> rcs = []"
  by (simp add: poll_msgs_def)

lemma hd_addr_header [simp]: "hd (addr_header c a) = c" "hd (addr_header c a @ xs) = c"
  by (simp_all add: addr_header_def)

lemma enable_write_latch_sends:
  obtains rc s' where "enable_write_latch w s = Some (rc, s')" "msgs s' = msgs s @ [([WRITE_ENABLE_CMD], rc)]"
  by (rule spi_tx_cmd_sends [of w WRITE_ENABLE_CMD s]) (auto simp: enable_write_latch_def)

lemma latched_command_sends:
  assumes "f s = do { (rc, s) \<leftarrow> enable_write_latch w s; if rc < 0 then Some (rc, s) else spi_tx_cmd w reg s }"
  obtains rc s' where "f s = Some (rc, s')" "rc < 0" "msgs s' = msgs s @ [([WRITE_ENABLE_CMD], rc)]"
  | rc0 rc s' where "f s = Some (rc, s')" "0 \<le> rc0"
      "msgs s' = msgs s @ [([WRITE_ENABLE_CMD], rc0), ([reg], rc)]"
proof -
  obtain rc0 s0 where e: "enable_write_latch w s = Some (rc0, s0)"
    "msgs s0 = msgs s @ [([WRITE_ENABLE_CMD], rc0)]" by (rule enable_write_latch_sends)
  obtain rc s' where t: "spi_tx_cmd w reg s0 = Some (rc, s')" "msgs s' = msgs s0 @ [([reg], rc)]"
    by (rule spi_tx_cmd_sends)
  show thesis
  proof (cases "rc0 < 0")
    case True
    then show thesis using e by (intro that(1)) (auto simp: assms)
  next
    case False
    then show thesis using e t by (intro that(2)) (auto simp: assms)
  qed
qed

lemma sector_erase_sends:
  obtains rc s' where "sector_erase w addr s = Some (rc, s')" "rc < 0"
      "msgs s' = msgs s @ [([WRITE_ENABLE_CMD], rc)]"
  | rc0 rc s' where "sector_erase w addr s = Some (rc, s')" "0 \<le> rc0" "rc < 0"
      "msgs s' = msgs s @ [([WRITE_ENABLE_CMD], rc0), (addr_header SECTOR_ERASE addr, rc)]"
  | rc0 rc rcs s' where "sector_erase w addr s = Some (rc, s')" "0 \<le> rc0" "0 \<le> rc"
      "1 \<le> length rcs" "length rcs \<le> 400"
      "msgs s' = msgs s @ [([WRITE_ENABLE_CMD], rc0), (addr_header SECTOR_ERASE addr, rc)] @ poll_msgs rcs"
proof -
  obtain rc0 s0 where e: "enable_write_latch w s = Some (rc0, s0)"
    "msgs s0 = msgs s @ [([WRITE_ENABLE_CMD], rc0)]" by (rule enable_write_latch_sends)
  obtain rc rx s1 where t: "spi_transfer w (addr_header SECTOR_ERASE addr) None 4 s0 = Some (rc, rx, s1)"
    "msgs s1 = msgs s0 @ [(take (unat (4 :: u32)) (addr_header SECTOR_ERASE addr), rc)]"
    by (rule spi_transfer_sends [where wb = "addr_header SECTOR_ERASE addr" and rx = None and len = 4 and s = s0 and w = w])
       (auto simp: addr_header_def)
  obtain rcs s2 where b: "wait_busy w s1 = Some s2" "msgs s2 = msgs s1 @ poll_msgs rcs"
    "1 \<le> length rcs" "length rcs \<le> 400" by (rule wait_busy_sends)
  have h: "take 4 (addr_header SECTOR_ERASE addr) = addr_header SECTOR_ERASE addr" by (simp add: addr_header_def)
  consider "rc0 < 0" | "0 \<le> rc0" "rc < 0" | "0 \<le> rc0" "0 \<le> rc" by linarith
  then show thesis
  proof cases
    case 1
    then show thesis using e by (intro that(1)) (auto simp: sector_erase_def)
  next
    case 2
    then show thesis using e t h by (intro that(2)) (auto simp: sector_erase_def)
  next
    case 3
    then show thesis using e t h b by (intro that(3)) (auto simp: sector_erase_def)
  qed
qed

lemmas lock_sends = latched_command_sends [where f = "global_lock w" and w = w and reg = GLOBAL_LOCK, OF global_lock_def] for w
lemmas unlock_sends = latched_command_sends [where f = "global_unlock w" and w = w and reg = GLOBAL_UNLOCK, OF global_unlock_def] for w

lemma program_sends:
  assumes "0 \<le> len" "nat len \<le> length data" "len + 4 \<le> 2147483647"
  obtains rc rx s' where
    "spi_transfer w (addr_header WRITE_CMD addr @ take (nat len) data) None (word_of_int (len + 4)) s = Some (rc, rx, s')"
    "msgs s' = msgs s @ [(addr_header WRITE_CMD addr @ take (nat len) data, rc)]"
proof -
  let ?b = "addr_header WRITE_CMD addr @ take (nat len) data"
  have u: "unat (word_of_int (len + 4) :: u32) = length ?b"
    using assms by (subst unat_word_of_int_u32) (auto simp: addr_header_def nat_add_distrib)
  obtain rc rx s' where t: "spi_transfer w ?b None (word_of_int (len + 4)) s = Some (rc, rx, s')"
    "msgs s' = msgs s @ [(take (unat (word_of_int (len + 4) :: u32)) ?b, rc)]"
    by (rule spi_transfer_sends [where wb = ?b and rx = None and len = "word_of_int (len + 4)" and s = s and w = w])
       (simp_all only: u order_refl simp_thms)
  show thesis using that [OF t(1)] t(2) by (simp only: u take_all order_refl)
qed

lemmas script_simps = follows_def flash_script_def butlast_append replicate_append_same

text \<open>The exits of \<open>spi_flash_write\<close>, in the order of the code.\<close>

lemma follows_prefix_1: "follows (flash_script addr data 1 1) [([WRITE_ENABLE_CMD], rc)]"
  by (simp add: script_simps)

lemma follows_prefix_2:
  "0 \<le> a \<Longrightarrow> follows (flash_script addr data 1 1) [([WRITE_ENABLE_CMD], a), ([GLOBAL_UNLOCK], rc)]"
  by (simp add: script_simps)

lemma follows_prefix_3:
  "0 \<le> a \<Longrightarrow> 0 \<le> b \<Longrightarrow> follows (flash_script addr data 1 1)
     [([WRITE_ENABLE_CMD], a), ([GLOBAL_UNLOCK], b), ([WRITE_ENABLE_CMD], rc)]"
  by (simp add: script_simps)

lemma follows_prefix_4:
  "0 \<le> a \<Longrightarrow> 0 \<le> b \<Longrightarrow> 0 \<le> c \<Longrightarrow> follows (flash_script addr data 1 1)
     [([WRITE_ENABLE_CMD], a), ([GLOBAL_UNLOCK], b), ([WRITE_ENABLE_CMD], c), (addr_header SECTOR_ERASE addr, rc)]"
  by (simp add: script_simps numeral_eq_Suc)

lemma follows_prefix_5:
  "0 \<le> a \<Longrightarrow> 0 \<le> b \<Longrightarrow> 0 \<le> c \<Longrightarrow> 0 \<le> d \<Longrightarrow> follows (flash_script addr data (length rcs) 1)
     ([([WRITE_ENABLE_CMD], a), ([GLOBAL_UNLOCK], b), ([WRITE_ENABLE_CMD], c), (addr_header SECTOR_ERASE addr, d)]
      @ poll_msgs rcs @ [([WRITE_ENABLE_CMD], rc)])"
  by (simp add: script_simps)

lemma follows_prefix_6:
  "0 \<le> a \<Longrightarrow> 0 \<le> b \<Longrightarrow> 0 \<le> c \<Longrightarrow> 0 \<le> d \<Longrightarrow> 0 \<le> e \<Longrightarrow>
   follows (flash_script addr data (length rcs) (length qs))
     ([([WRITE_ENABLE_CMD], a), ([GLOBAL_UNLOCK], b), ([WRITE_ENABLE_CMD], c), (addr_header SECTOR_ERASE addr, d)]
      @ poll_msgs rcs @ [([WRITE_ENABLE_CMD], e), (addr_header WRITE_CMD addr @ data, f)] @ poll_msgs qs
      @ [([WRITE_ENABLE_CMD], rc)])"
  by (simp add: script_simps numeral_3_eq_3)

lemma follows_all:
  "0 \<le> a \<Longrightarrow> 0 \<le> b \<Longrightarrow> 0 \<le> c \<Longrightarrow> 0 \<le> d \<Longrightarrow> 0 \<le> e \<Longrightarrow> 0 \<le> g \<Longrightarrow>
   follows (flash_script addr data (length rcs) (length qs))
     ([([WRITE_ENABLE_CMD], a), ([GLOBAL_UNLOCK], b), ([WRITE_ENABLE_CMD], c), (addr_header SECTOR_ERASE addr, d)]
      @ poll_msgs rcs @ [([WRITE_ENABLE_CMD], e), (addr_header WRITE_CMD addr @ data, f)] @ poll_msgs qs
      @ [([WRITE_ENABLE_CMD], g), ([GLOBAL_LOCK], rc)])"
  by (simp add: script_simps numeral_3_eq_3)

definition write_outcome :: "spidev \<Rightarrow> u32 \<Rightarrow> u8 list \<Rightarrow> int \<Rightarrow> spi \<Rightarrow> int \<Rightarrow> spi \<Rightarrow> bool" where
  "write_outcome w addr d len s rc s' \<longleftrightarrow> (\<exists>L n m. msgs s' = msgs s @ L \<and> 1 \<le> n \<and> n \<le> 400 \<and> 1 \<le> m \<and> m \<le> 400 \<and>
     follows (flash_script addr d n m) L \<and>
     (if 0 \<le> rc then length L = length (flash_script addr d n m) \<and> snd (last L) = rc
      else snd (last L) = rc \<or> rc = -1 \<and> \<not> sd_malloc w (slog s') (len + 4)))"

lemma write_outcome_stopped:
  assumes "msgs s' = msgs s @ L" "follows (flash_script addr d n m) L"
    "1 \<le> n" "n \<le> 400" "1 \<le> m" "m \<le> 400" "rc < 0"
    "snd (last L) = rc \<or> rc = -1 \<and> \<not> sd_malloc w (slog s') (len + 4)"
  shows "write_outcome w addr d len s rc s'"
  unfolding write_outcome_def using assms by (intro exI [of _ L] exI [of _ n] exI [of _ m]) simp

lemma write_outcome_locked:
  assumes "msgs s' = msgs s @ L" "follows (flash_script addr d n m) L"
    "1 \<le> n" "n \<le> 400" "1 \<le> m" "m \<le> 400" "length L = length (flash_script addr d n m)" "snd (last L) = rc"
  shows "write_outcome w addr d len s rc s'"
  unfolding write_outcome_def using assms by (intro exI [of _ L] exI [of _ n] exI [of _ m]) simp

lemma write_after_latch:
  fixes w :: spidev
  assumes len: "0 \<le> len" "nat len \<le> length data" "len + 4 \<le> 2147483647" and h: "0 \<le> a" "0 \<le> b" "0 \<le> c" "0 \<le> d" "0 \<le> e"
    and n: "1 \<le> length rcs" "length rcs \<le> 400"
    and m: "msgs s5 = msgs s @ [([WRITE_ENABLE_CMD], a), ([GLOBAL_UNLOCK], b), ([WRITE_ENABLE_CMD], c),
        (addr_header SECTOR_ERASE addr, d)] @ poll_msgs rcs @ [([WRITE_ENABLE_CMD], e)]"
  shows "\<exists>rc s'. do { (rc, rx, s) \<leftarrow> spi_transfer w (addr_header WRITE_CMD addr @ take (nat len) data) None
      (word_of_int (len + 4)) s5; s \<leftarrow> wait_busy w s; global_lock w s } = Some (rc, s') \<and>
    write_outcome w addr (take (nat len) data) len s rc s'"
proof -
  obtain f rx s6 where p: "spi_transfer w (addr_header WRITE_CMD addr @ take (nat len) data) None
      (word_of_int (len + 4)) s5 = Some (f, rx, s6)"
    "msgs s6 = msgs s5 @ [(addr_header WRITE_CMD addr @ take (nat len) data, f)]" by (rule program_sends [OF len])
  obtain qs s7 where b: "wait_busy w s6 = Some s7" "msgs s7 = msgs s6 @ poll_msgs qs"
    "1 \<le> length qs" "length qs \<le> 400" by (rule wait_busy_sends)
  show ?thesis
  proof (cases rule: lock_sends [of w s7])
    case (1 rc s')
    then have "write_outcome w addr (take (nat len) data) len s rc s'"
      by (intro write_outcome_stopped [OF _ follows_prefix_6 [OF h] n b(3,4)]) (auto simp: m p b)
    with 1 p b show ?thesis by simp
  next
    case (2 g rc s')
    then have "write_outcome w addr (take (nat len) data) len s rc s'"
      by (intro write_outcome_locked [OF _ follows_all [OF h 2(2)] n b(3,4)]) (auto simp: m p b flash_script_def)
    with 2 p b show ?thesis by simp
  qed
qed

lemma write_after_erase:
  fixes w :: spidev
  assumes len: "0 \<le> len" "nat len \<le> length data" "len + 4 \<le> 2147483647" and h: "0 \<le> a" "0 \<le> b" "0 \<le> c" "0 \<le> d"
    and n: "1 \<le> length rcs" "length rcs \<le> 400"
    and m: "msgs s4 = msgs s @ [([WRITE_ENABLE_CMD], a), ([GLOBAL_UNLOCK], b), ([WRITE_ENABLE_CMD], c),
        (addr_header SECTOR_ERASE addr, d)] @ poll_msgs rcs"
    and u: "global_unlock w s = Some (b, s2)" and r: "sector_erase w addr s2 = Some (d, s4)"
  shows "\<exists>rc s'. spi_flash_write w addr data len s = Some (rc, s') \<and>
    write_outcome w addr (take (nat len) data) len s rc s'"
proof -
  obtain e s5 where l: "enable_write_latch w s4 = Some (e, s5)"
    "msgs s5 = msgs s4 @ [([WRITE_ENABLE_CMD], e)]" by (rule enable_write_latch_sends)
  note pre5 = follows_prefix_5 [OF h]
  note def = spi_flash_write_def u r l(1) Let_def
  consider "e < 0" | "0 \<le> e" "\<not> sd_malloc w (slog s5) (len + 4)" | "0 \<le> e" "sd_malloc w (slog s5) (len + 4)"
    by linarith
  then show ?thesis
  proof cases
    case 1
    then have "write_outcome w addr (take (nat len) data) len s e s5"
      by (intro write_outcome_stopped [OF _ pre5 n order_refl]) (auto simp: m l)
    with 1 h show ?thesis by (simp add: def)
  next
    case 2
    then have "write_outcome w addr (take (nat len) data) len s (-1) s5"
      by (intro write_outcome_stopped [OF _ pre5 n order_refl]) (auto simp: m l)
    with 2 h len show ?thesis by (simp add: def)
  next
    case 3
    have "msgs s5 = msgs s @ [([WRITE_ENABLE_CMD], a), ([GLOBAL_UNLOCK], b), ([WRITE_ENABLE_CMD], c),
        (addr_header SECTOR_ERASE addr, d)] @ poll_msgs rcs @ [([WRITE_ENABLE_CMD], e)]" by (simp add: l m)
    note rest = write_after_latch [OF len h 3(1) n this]
    have "spi_flash_write w addr data len s = do { (rc, rx, s) \<leftarrow> spi_transfer w (addr_header WRITE_CMD addr @
        take (nat len) data) None (word_of_int (len + 4)) s5; s \<leftarrow> wait_busy w s; global_lock w s }"
      using 3 h len by (simp add: def)
    with rest show ?thesis by simp
  qed
qed


text \<open>
  C9: Writing to the flash always returns, and whatever the bus answers it sends the same
  script: unlock, erase the sector, poll, program the data, poll, lock, where every command
  that changes the flash is preceded by a write-enable and each poll reads the status between
  1 and 400 times.  The script stops at the first command that fails, except that a failed status poll
  or a failed page program does not stop it; success is reported only for a completed script.
\<close>
theorem spi_flash_write_script:
  assumes "0 \<le> len" "nat len \<le> length data" "len + 4 \<le> 2147483647"
  shows "\<exists>rc s' L n m. spi_flash_write w addr data len s = Some (rc, s') \<and>
     msgs s' = msgs s @ L \<and> 1 \<le> n \<and> n \<le> 400 \<and> 1 \<le> m \<and> m \<le> 400 \<and>
     follows (flash_script addr (take (nat len) data) n m) L \<and>
     (if 0 \<le> rc then length L = length (flash_script addr (take (nat len) data) n m) \<and> snd (last L) = rc
      else snd (last L) = rc \<or> rc = -1 \<and> \<not> sd_malloc w (slog s') (len + 4))"
proof -
  let ?d = "take (nat len) data"
  have "\<exists>rc s'. spi_flash_write w addr data len s = Some (rc, s') \<and> write_outcome w addr ?d len s rc s'"
  proof (cases rule: unlock_sends [of w s])
    case (1 rc s')
    then have "write_outcome w addr ?d len s rc s'"
      by (intro write_outcome_stopped [OF _ follows_prefix_1]) auto
    with 1 show ?thesis by (simp add: spi_flash_write_def)
  next
    case (2 a b s2)
    note u = this
    show ?thesis
    proof (cases "b < 0")
      case True
      then have "write_outcome w addr ?d len s b s2"
        by (intro write_outcome_stopped [OF u(3) follows_prefix_2 [OF u(2)]]) auto
      with True u show ?thesis by (simp add: spi_flash_write_def)
    next
      case False
      show ?thesis
      proof (cases rule: sector_erase_sends [of w addr s2])
        case (1 c s')
        then have "write_outcome w addr ?d len s c s'"
          using False u by (intro write_outcome_stopped [OF _ follows_prefix_3 [of a b]]) auto
        with 1 False u show ?thesis by (simp add: spi_flash_write_def)
      next
        case (2 c d s')
        then have "write_outcome w addr ?d len s d s'"
          using False u by (intro write_outcome_stopped [OF _ follows_prefix_4 [of a b c]]) auto
        with 2 False u show ?thesis by (simp add: spi_flash_write_def)
      next
        case (3 c d rcs s4)
        then show ?thesis
          using False u by (intro write_after_erase [OF assms u(2) _ 3(2,3,4,5) _ u(1) 3(1)]) auto
      qed
    qed
  qed
  then show ?thesis by (simp only: write_outcome_def) blast
qed

declare spi_flash_read_loop.simps [simp del]

lemma spi_read_faults: "addr < bound \<Longrightarrow> spi_flash_read_loop w addr bound rx shown s = None"
  by (subst spi_flash_read_loop.simps) (simp add: spi_transfer_def)

lemma spi_flash_read_eq:
  "spi_flash_read w addr len s = (if addr < addr + len then None else Some ([], s))"
proof (cases "addr < addr + len")
  case True
  then show ?thesis by (simp add: spi_flash_read_def spi_read_faults)
next
  case False
  then show ?thesis by (simp add: spi_flash_read_def spi_flash_read_loop.simps)
qed

text \<open>
  Reading the flash overruns the one-byte receive buffer (each transfer hands the kernel
  a four-byte length with it) as soon as there is a byte to read; it is defined only when the
  range is empty or wraps around, and then nothing is sent.
\<close>
theorem spi_flash_read_overruns:
  "spi_flash_read w addr len s = (if addr < addr + len then None else Some ([], s))"
  by (rule spi_flash_read_eq)

section \<open>Which sectors the tool may touch\<close>

definition sends_only :: "(u8 list \<Rightarrow> bool) \<Rightarrow> spi \<Rightarrow> spi \<Rightarrow> bool" where
  "sends_only P s s' \<longleftrightarrow> (\<exists>L. msgs s' = msgs s @ L \<and> list_all (\<lambda>m. P (fst m)) L)"

lemma sends_only_refl [intro, simp]: "sends_only P s s"
  by (simp add: sends_only_def)

lemma sends_only_quiet: "msgs s' = msgs s \<Longrightarrow> sends_only P s s'"
  by (simp add: sends_only_def)

lemma sends_only_trans [trans]: "sends_only P s s' \<Longrightarrow> sends_only P s' s'' \<Longrightarrow> sends_only P s s''"
  by (fastforce simp: sends_only_def)

lemma spi_transfer_only:
  "spi_transfer w wb rx len s = Some (rc, rx', s') \<Longrightarrow> P (take (unat len) wb) \<Longrightarrow> sends_only P s s'"
  by (auto simp: spi_transfer_def sends_only_def Let_def split: if_splits)

lemma spi_tx_cmd_only:
  assumes "spi_tx_cmd w reg s = Some (rc, s')" "P [reg]"
  shows "sends_only P s s'"
  by (rule spi_tx_cmd_sends [of w reg s]) (use assms in \<open>auto simp: sends_only_def\<close>)

lemma wait_busy_only:
  assumes "wait_busy w s = Some s'" "P [READ_STATUS_REG]"
  shows "sends_only P s s'"
  by (rule wait_busy_sends [of w s]) (use assms in \<open>auto simp: sends_only_def poll_msgs_def list_all_iff\<close>)

text \<open>The commands of the tool; erase and program carry the address.\<close>

definition at_sector :: "u32 \<Rightarrow> u8 list \<Rightarrow> bool" where
  "at_sector addr tx \<longleftrightarrow>
     hd tx \<in> {WRITE_ENABLE_CMD, GLOBAL_LOCK, GLOBAL_UNLOCK, READ_STATUS_REG, SPI_ID} \<or>
     hd tx \<in> {SECTOR_ERASE, WRITE_CMD} \<and> (\<exists>d. tx = addr_header (hd tx) addr @ d)"

lemma at_sector_simps [simp]:
  "at_sector addr [WRITE_ENABLE_CMD]" "at_sector addr [GLOBAL_LOCK]" "at_sector addr [GLOBAL_UNLOCK]"
  "at_sector addr [READ_STATUS_REG]" "at_sector addr (addr_header SECTOR_ERASE addr)" "at_sector addr (addr_header WRITE_CMD addr @ d)"
  by (simp_all add: at_sector_def)

lemma take_addr_header [simp]:
  "take 4 (addr_header cmd addr) = addr_header cmd addr" 
  "take (Suc (Suc (Suc (Suc n)))) (addr_header cmd addr @ d) = addr_header cmd addr @ take n d"
  by (simp_all add: addr_header_def)

lemma enable_write_latch_only:
  "enable_write_latch w s = Some (rc, s') \<Longrightarrow> sends_only (at_sector addr) s s'"
  by (simp add: enable_write_latch_def spi_tx_cmd_only)

lemma erase_transfer_only:
  "spi_transfer w (addr_header SECTOR_ERASE addr) None 4 s = Some (rc, rx, s') \<Longrightarrow> sends_only (at_sector addr) s s'"
  by (auto intro: spi_transfer_only)

lemma program_transfer_only:
  assumes "spi_transfer w (addr_header WRITE_CMD addr @ d) None (word_of_int (len + 4)) s = Some (rc, rx, s')"
    "0 \<le> len" "len + 4 \<le> 2147483647"
  shows "sends_only (at_sector addr) s s'"
proof (rule spi_transfer_only [OF assms(1)])
  have "unat (word_of_int (len + 4) :: u32) = Suc (Suc (Suc (Suc (nat len))))"
    using assms by (subst unat_word_of_int_u32) (auto simp: nat_add_distrib)
  then show "at_sector addr (take (unat (word_of_int (len + 4) :: u32)) (addr_header WRITE_CMD addr @ d))"
    by (simp only: take_addr_header at_sector_simps)
qed

lemmas at_sector_only = enable_write_latch_only erase_transfer_only program_transfer_only
  spi_tx_cmd_only [where P = "at_sector addr" and reg = GLOBAL_LOCK, OF _ at_sector_simps(2)]
  spi_tx_cmd_only [where P = "at_sector addr" and reg = GLOBAL_UNLOCK, OF _ at_sector_simps(3)]
  wait_busy_only [where P = "at_sector addr", OF _ at_sector_simps(4)] for addr

lemma global_lock_only: "global_lock w s = Some (rc, s') \<Longrightarrow> sends_only (at_sector addr) s s'"
  by (auto simp: global_lock_def bind_Some_iff split: if_splits)
     (blast intro: at_sector_only sends_only_trans)+

lemma global_unlock_only: "global_unlock w s = Some (rc, s') \<Longrightarrow> sends_only (at_sector addr) s s'"
  by (auto simp: global_unlock_def bind_Some_iff split: if_splits)
     (blast intro: at_sector_only sends_only_trans)+

lemma sector_erase_only: "sector_erase w addr s = Some (rc, s') \<Longrightarrow> sends_only (at_sector addr) s s'"
  by (auto simp: sector_erase_def bind_Some_iff split: if_splits)
     (blast intro: at_sector_only sends_only_trans)+

lemma spi_flash_write_only:
  assumes "spi_flash_write w addr data len s = Some (rc, s')"
  shows "sends_only (at_sector addr) s s'"
proof -
  obtain a s1 where 1: "global_unlock w s = Some (a, s1)" using assms
    by (auto simp: spi_flash_write_def bind_Some_iff)
  note o1 = global_unlock_only [OF 1, of addr]
  show ?thesis
  proof (cases "a < 0")
    case True
    with 1 assms o1 show ?thesis by (simp add: spi_flash_write_def)
  next
    case False
    then obtain b s2 where 2: "sector_erase w addr s1 = Some (b, s2)" using assms 1
      by (auto simp: spi_flash_write_def bind_Some_iff)
    note o2 = sends_only_trans [OF o1 sector_erase_only [OF 2]]
    show ?thesis
    proof (cases "b < 0")
      case True
      with 1 2 False assms o2 show ?thesis by (simp add: spi_flash_write_def)
    next
      case b: False
      then obtain c s3 where 3: "enable_write_latch w s2 = Some (c, s3)" using assms 1 2 False
        by (auto simp: spi_flash_write_def bind_Some_iff)
      note o3 = sends_only_trans [OF o2 enable_write_latch_only [OF 3]]
      have "s' = s3 \<or> 0 \<le> len \<and> len + 4 \<le> 2147483647 \<and> (\<exists>f rx s4 s5.
          spi_transfer w (addr_header WRITE_CMD addr @ take (nat len) data) None (word_of_int (len + 4)) s3
            = Some (f, rx, s4) \<and> wait_busy w s4 = Some s5 \<and> global_lock w s5 = Some (rc, s'))"
        using assms 1 2 3 False b by (auto simp: spi_flash_write_def bind_Some_iff Let_def split: if_splits)
      then show ?thesis
      proof (elim disjE conjE exE)
        fix f rx s4 s5
        assume len: "0 \<le> len" "len + 4 \<le> 2147483647"
          and t: "spi_transfer w (addr_header WRITE_CMD addr @ take (nat len) data) None (word_of_int (len + 4)) s3
            = Some (f, rx, s4)" and b: "wait_busy w s4 = Some s5" and l: "global_lock w s5 = Some (rc, s')"
        have "sends_only (at_sector addr) s s4" by (rule sends_only_trans [OF o3 program_transfer_only [OF t len]])
        also have "sends_only (at_sector addr) s4 s5" by (rule wait_busy_only [OF b]) simp
        also have "sends_only (at_sector addr) s5 s'" by (rule global_lock_only [OF l])
        finally show ?thesis .
      qed (simp add: o3)
    qed
  qed
qed

lemma spi_flash_read_only:
  "spi_flash_read w addr len s = Some (shown, s') \<Longrightarrow> s' = s"
  by (auto simp: spi_flash_read_eq split: if_splits)

lemma cmd_reg_only:
  assumes "cmd_reg w SPI_ID 0 s = Some (v, s')"
  shows "sends_only (at_sector addr) s s'"
  using assms
  by (auto simp: cmd_reg_def ncmd_reg_def bind_Some_iff Let_def upt_rec split: if_splits
      intro!: spi_transfer_only) (simp_all add: at_sector_def spi)

lemma spi_start_quiet:
  assumes "spi_start w s = (rc, s')"
  shows "msgs s' = msgs s"
  using assms by (auto simp: spi_start_def spi_config_ioctl_def Let_def split: if_splits prod.splits)

definition flash_addr :: "u8 list \<Rightarrow> nat" where
  "flash_addr tx = unat (tx ! 1) * 65536 + unat (tx ! 2) * 256 + unat (tx ! 3)"

lemma nth_addr_header:
  "(addr_header cmd addr @ d) ! 1 = ucast (drop_bit 16 addr AND 0xFF)"
  "(addr_header cmd addr @ d) ! 2 = ucast (drop_bit 8 addr AND 0xFF)"
  "(addr_header cmd addr @ d) ! 3 = ucast (drop_bit 0 addr AND 0xFF)"
  unfolding addr_header_def
  by (simp_all only: drop_bit_0 id_apply nth_Cons_numeral append_Cons) simp_all

lemma flash_addr_header: "flash_addr (addr_header cmd addr @ d) = unat addr mod 16777216"
  by (simp only: flash_addr_def nth_addr_header unat_byte_of three_bytes)

lemma spi_main_sends_only:
  assumes "spi_getopt c args opts_init = Inr opts" "spi_main w c argc args fd0 = Some (rc, s)"
  shows "\<exists>s0. msgs s0 = [] \<and> sends_only (at_sector (guarded_addr opts)) s0 s"
proof -
  let ?s = "\<lparr>sdev = \<lparr>spi_filename = o_device opts, spi_mode = 0, bpw = 8, speed = o_speed opts,
    cs_change = 0, spi_fd = fd0\<rparr>, slog = []\<rparr>"
  let ?P = "at_sector (guarded_addr opts)"
  obtain r1 s1 where st: "spi_start w ?s = (r1, s1)" by (cases "spi_start w ?s")
  have m1: "msgs s1 = []" using spi_start_quiet [OF st] by (simp add: msgs_def)
  have stop: "sends_only ?P s2 (spi_stop s2)" for s2 by (rule sends_only_quiet) (simp add: spi_stop_def)
  have "s = ?s \<or> s = s1 \<or> (\<exists>v s2. cmd_reg w SPI_ID 0 s1 = Some (v, s2) \<and> s = spi_stop s2) \<or> s = spi_stop s1 \<or>
    (\<exists>r s2. spi_flash_write w (guarded_addr opts) (o_msg opts) (o_msg_len opts) s1 = Some (r, s2) \<and> s = spi_stop s2)"
    using assms(2) by (auto simp: spi_main_def assms(1) st Let_def bind_Some_iff split: if_splits
        dest: spi_flash_read_only)
  then show ?thesis
  proof (elim disjE exE conjE)
    assume "s = ?s"
    then show ?thesis by (intro exI [of _ s]) (simp add: msgs_def)
  next
    assume "s = s1"
    then show ?thesis using m1 by (intro exI [of _ s1]) simp
  next
    fix v s2 assume "cmd_reg w SPI_ID 0 s1 = Some (v, s2)" "s = spi_stop s2"
    then show ?thesis using m1 stop by (blast intro: cmd_reg_only sends_only_trans)
  next
    assume "s = spi_stop s1"
    then show ?thesis using m1 stop by blast
  next
    fix r s2 assume "spi_flash_write w (guarded_addr opts) (o_msg opts) (o_msg_len opts) s1 = Some (r, s2)" "s = spi_stop s2"
    then show ?thesis using m1 stop by (blast intro: spi_flash_write_only sends_only_trans)
  qed
qed

lemma guarded_addr_low:
  "\<not> o_force opts \<Longrightarrow> 0x800000 \<le> unat (guarded_addr opts) mod 16777216 \<longleftrightarrow>
     o_addr opts < 0x1000000 \<or> 0x800000 \<le> unat (o_addr opts) mod 16777216"
  by (auto simp: guarded_addr_def word_less_nat_alt not_less)

text \<open>
  In every completed run of the tool each erase or program command carries, in its three
  address bytes, the guarded address modulo 2^24.  Without the force option that is a sector
  above the boot loader exactly when the address asked for fits in 24 bits or its low 24 bits
  lie above the boot loader: a larger address wraps past the guard.
\<close>
theorem spi_app_guards_bootloader:
  assumes "spi_getopt c args opts_init = Inr opts" "spi_main w c argc args fd0 = Some (rc, s)"
    "(tx, r) \<in> set (msgs s)" "hd tx = SECTOR_ERASE \<or> hd tx = WRITE_CMD"
  shows "flash_addr tx = unat (guarded_addr opts) mod 2 ^ 24 \<and>
    (o_force opts \<or> (0x800000 \<le> flash_addr tx \<longleftrightarrow>
      o_addr opts < 0x1000000 \<or> 0x800000 \<le> unat (o_addr opts) mod 2 ^ 24))"
proof -
  from spi_main_sends_only [OF assms(1,2)] assms(3) have "at_sector (guarded_addr opts) tx"
    by (fastforce simp: sends_only_def list_all_iff)
  then obtain d where "tx = addr_header (hd tx) (guarded_addr opts) @ d" using assms(4) by (auto simp: at_sector_def spi)
  then have "flash_addr tx = unat (guarded_addr opts) mod 16777216" by (metis flash_addr_header)
  then show ?thesis using guarded_addr_low by auto
qed

definition demo_spidev :: spidev where
  "demo_spidev = \<lparr>sd_open = (\<lambda>l f. 3), sd_config = (\<lambda>l c. (0, 0)), sd_message = (\<lambda>l t. 1),
     sd_miso = (\<lambda>l i. 0), sd_junk = (\<lambda>i. 0), sd_malloc = (\<lambda>l n. True)\<rparr>"

definition demo_libc :: libc_num where
  "demo_libc = \<lparr>strtol16 = (\<lambda>a. 0x100), atoi = (\<lambda>a. 4)\<rparr>"

definition demo_spi :: spi where
  "demo_spi = \<lparr>sdev = \<lparr>spi_filename = ''/dev/spidev0.0'', spi_mode = 0, bpw = 8, speed = 5000000,
     cs_change = 0, spi_fd = 3\<rparr>, slog = []\<rparr>"

definition demo_args :: "(char \<times> string) list" where
  "demo_args = [(CHR ''w'', []), (CHR ''a'', ''100'')]"

theorem spi_flash_write_script_witness:
  "\<exists>rc s' L n m. spi_flash_write demo_spidev 0x800000 [104, 105] 2 demo_spi = Some (rc, s') \<and>
     msgs s' = msgs demo_spi @ L \<and> 1 \<le> n \<and> n \<le> 400 \<and> 1 \<le> m \<and> m \<le> 400 \<and>
     follows (flash_script 0x800000 (take (nat 2) [104, 105]) n m) L \<and>
     (if 0 \<le> rc then length L = length (flash_script 0x800000 (take (nat 2) [104, 105]) n m) \<and> snd (last L) = rc
      else snd (last L) = rc \<or> rc = -1 \<and> \<not> sd_malloc demo_spidev (slog s') (2 + 4))"
  by (rule spi_flash_write_script) simp_all

lemma demo_opts:
  "spi_getopt demo_libc demo_args opts_init = Inr (opts_init\<lparr>o_wr := True, o_addr := 0x100\<rparr>)"
  by (simp add: demo_libc_def demo_args_def)

lemma demo_transfer:
  "unat len \<le> length wb \<Longrightarrow> rx = None \<or> unat len \<le> length (the rx) \<Longrightarrow>
   spi_transfer demo_spidev wb rx len s =
     Some (1, map_option (\<lambda>b. replicate (unat len) 0 @ drop (unat len) b) rx, spi_note (SpiMessage (spi_fd (sdev s))
       \<lparr>tx_bytes = take (unat len) wb, has_rx = (rx \<noteq> None), xfer_len = len, speed_hz = speed (sdev s),
        bits_per_word = bpw (sdev s), xfer_cs_change = cs_change (sdev s)\<rparr> 1) s)"
  by (cases rx) (simp_all add: spi_transfer_def demo_spidev_def map_replicate_const)

lemma demo_wait: "\<exists>s'. wait_busy demo_spidev s = Some s' \<and> msgs s' = msgs s @ [([READ_STATUS_REG], 1)]"
  by (simp add: wait_busy_def wait_busy_loop.simps demo_transfer)

lemma demo_tx_cmd: "\<exists>s'. spi_tx_cmd demo_spidev reg s = Some (1, s') \<and> msgs s' = msgs s @ [([reg], 1)]"
  by (simp add: spi_tx_cmd_def demo_transfer Let_def)

lemma demo_start:
  "\<exists>s'. spi_start demo_spidev s = (0, s') \<and> msgs s' = msgs s"
proof -
  obtain rc s' where "spi_start demo_spidev s = (rc, s')" by fastforce
  moreover from this have "rc = 0" by (simp add: spi_start_def spi_config_ioctl_def demo_spidev_def Let_def)
  ultimately show ?thesis by (auto dest: spi_start_quiet)
qed

lemma demo_send:
  "unat len \<le> length wb \<Longrightarrow> \<exists>s'. spi_transfer demo_spidev wb None len s = Some (1, None, s') \<and>
     msgs s' = msgs s @ [(take (unat len) wb, 1)]"
  by (simp add: demo_transfer)

lemma demo_flash_write:
  "\<exists>s'. spi_flash_write demo_spidev addr data 0 s = Some (1, s') \<and> (addr_header SECTOR_ERASE addr, 1) \<in> set (msgs s')"
proof -
  let ?cmd = "\<lambda>reg s s'. spi_tx_cmd demo_spidev reg s = Some (1, s') \<and> msgs s' = msgs s @ [([reg], 1)]"
  let ?wait = "\<lambda>s s'. wait_busy demo_spidev s = Some s' \<and> msgs s' = msgs s @ [([READ_STATUS_REG], 1)]"
  obtain s1 where 1: "?cmd WRITE_ENABLE_CMD s s1" using demo_tx_cmd by blast
  obtain s2 where 2: "?cmd GLOBAL_UNLOCK s1 s2" using demo_tx_cmd by blast
  obtain s3 where 3: "?cmd WRITE_ENABLE_CMD s2 s3" using demo_tx_cmd by blast
  obtain s4 where 4: "spi_transfer demo_spidev (addr_header SECTOR_ERASE addr) None 4 s3 = Some (1, None, s4)"
    "msgs s4 = msgs s3 @ [(addr_header SECTOR_ERASE addr, 1)]"
    using demo_send [of 4 "addr_header SECTOR_ERASE addr" s3] by (auto simp: addr_header_def)
  obtain s5 where 5: "?wait s4 s5" using demo_wait by blast
  obtain s6 where 6: "?cmd WRITE_ENABLE_CMD s5 s6" using demo_tx_cmd by blast
  obtain s7 where 7: "spi_transfer demo_spidev (addr_header WRITE_CMD addr) None 4 s6 = Some (1, None, s7)"
    "msgs s7 = msgs s6 @ [(addr_header WRITE_CMD addr, 1)]"
    using demo_send [of 4 "addr_header WRITE_CMD addr" s6] by (auto simp: addr_header_def)
  obtain s8 where 8: "?wait s7 s8" using demo_wait by blast
  obtain s9 where 9: "?cmd WRITE_ENABLE_CMD s8 s9" using demo_tx_cmd by blast
  obtain s10 where 10: "?cmd GLOBAL_LOCK s9 s10" using demo_tx_cmd by blast
  have "sd_malloc demo_spidev l n" for l n by (simp add: demo_spidev_def)
  then have "spi_flash_write demo_spidev addr data 0 s = Some (1, s10)"
    by (simp add: spi_flash_write_def global_unlock_def global_lock_def sector_erase_def enable_write_latch_def
        1 2 3 4(1) 5 6 7(1) 8 9 10)
  then show ?thesis by (simp add: 10 9 8 7 6 5 4)
qed

lemma demo_main:
  "\<exists>s. spi_main demo_spidev demo_libc 4 demo_args 0 = Some (0, s) \<and> (addr_header SECTOR_ERASE 0x800000, 1) \<in> set (msgs s)"
proof -
  let ?opts = "opts_init\<lparr>o_wr := True, o_addr := 0x100\<rparr>"
  have g: "guarded_addr ?opts = 0x800000" by (simp add: guarded_addr_def opts_init_def)
  let ?s = "\<lparr>sdev = \<lparr>spi_filename = o_device ?opts, spi_mode = 0, bpw = 8, speed = o_speed ?opts,
      cs_change = 0, spi_fd = 0\<rparr>, slog = []\<rparr>"
  obtain s1 where 1: "spi_start demo_spidev ?s = (0, s1)" using demo_start by blast
  obtain s2 where 2: "spi_flash_write demo_spidev 0x800000 (o_msg ?opts) 0 s1 = Some (1, s2)"
    "(addr_header SECTOR_ERASE 0x800000, 1) \<in> set (msgs s2)" using demo_flash_write by blast
  have "o_msg_len ?opts = 0" "\<not> o_id ?opts" "o_wr ?opts" "\<not> o_rd ?opts" by (simp_all add: opts_init_def)
  then have "spi_main demo_spidev demo_libc 4 demo_args 0 = Some (0, spi_stop s2)"
    unfolding spi_main_def demo_opts using 1 2(1) g by simp
  moreover have "(addr_header SECTOR_ERASE 0x800000, 1) \<in> set (msgs (spi_stop s2))"
    using 2(2) by (simp add: spi_stop_def)
  ultimately show ?thesis by blast
qed

theorem spi_app_guards_bootloader_witness:
  "flash_addr (addr_header SECTOR_ERASE 0x800000) = 0x800000"
proof -
  obtain s where "spi_main demo_spidev demo_libc 4 demo_args 0 = Some (0, s)" "(addr_header SECTOR_ERASE 0x800000, 1) \<in> set (msgs s)"
    using demo_main by blast
  then show ?thesis
    using spi_app_guards_bootloader [OF demo_opts] by (simp add: guarded_addr_def opts_init_def)
qed

text \<open>
  Starting the SPI device opens it, sets and reads back mode, word size and speed in that
  order, and then keeps the descriptor; when one of the six requests fails its error is
  returned and the descriptor is closed.  When the device cannot be opened the
  result is 0 as well and the descriptor is left as it was.
\<close>
theorem spi_start_result:
  "let fd = sd_open w (slog s) (spi_filename (sdev s)); (rc, s') = spi_start w s;
       opened = slog s @ [SpiOpen (spi_filename (sdev s)) fd]
   in if fd < 0 then rc = 0 \<and> slog s' = opened \<and> sdev s' = sdev s
      else if rc = 0 then spi_fd (sdev s') = fd \<and> (\<exists>r1 r2 r3 r4 r5 r6. slog s' = opened @
             [SpiConfig fd (WrMode (spi_mode (sdev s))) r1, SpiConfig fd RdMode r2,
              SpiConfig fd (WrBitsPerWord (bpw (sdev s))) r3, SpiConfig fd RdBitsPerWord r4,
              SpiConfig fd (WrMaxSpeed (speed (sdev s))) r5, SpiConfig fd RdMaxSpeed r6] \<and>
             list_all (\<lambda>r. 0 \<le> r) [r1, r2, r3, r4, r5, r6])
      else rc < 0 \<and> spi_fd (sdev s') = spi_fd (sdev s) \<and>
           (\<exists>cs c. length cs < 6 \<and> slog s' = opened @ cs @ [SpiConfig fd c rc, SpiClose fd])"
proof -
  let ?n = "spi_filename (sdev s)" and ?m = "WrMode (spi_mode (sdev s))"
    and ?b = "WrBitsPerWord (bpw (sdev s))" and ?v = "WrMaxSpeed (speed (sdev s))"
  define fd where "fd = sd_open w (slog s) ?n"
  let ?c = "SpiConfig fd"
  obtain r1 v1 where c1: "sd_config w (slog s @ [SpiOpen ?n fd]) ?m = (r1, v1)" by fastforce
  obtain r2 v2 where c2: "sd_config w (slog s @ [SpiOpen ?n fd, ?c ?m r1]) RdMode = (r2, v2)" by fastforce
  obtain r3 v3 where c3: "sd_config w (slog s @ [SpiOpen ?n fd, ?c ?m r1, ?c RdMode r2]) ?b = (r3, v3)" by fastforce
  obtain r4 v4 where c4: "sd_config w (slog s @ [SpiOpen ?n fd, ?c ?m r1, ?c RdMode r2, ?c ?b r3]) RdBitsPerWord = (r4, v4)"
    by fastforce
  obtain r5 v5 where c5: "sd_config w (slog s @ [SpiOpen ?n fd, ?c ?m r1, ?c RdMode r2, ?c ?b r3, ?c RdBitsPerWord r4]) ?v
      = (r5, v5)" by fastforce
  obtain r6 v6 where c6: "sd_config w (slog s @ [SpiOpen ?n fd, ?c ?m r1, ?c RdMode r2, ?c ?b r3, ?c RdBitsPerWord r4, ?c ?v r5])
      RdMaxSpeed = (r6, v6)" by fastforce
  note start = spi_start_def [of w s, folded fd_def] spi_config_ioctl_def spi_note_def c1 c2 c3 c4 c5 c6
  consider "fd < 0" | "0 \<le> fd" "r1 < 0" | "0 \<le> fd" "0 \<le> r1" "r2 < 0" | "0 \<le> fd" "0 \<le> r1" "0 \<le> r2" "r3 < 0"
    | "0 \<le> fd" "0 \<le> r1" "0 \<le> r2" "0 \<le> r3" "r4 < 0" | "0 \<le> fd" "0 \<le> r1" "0 \<le> r2" "0 \<le> r3" "0 \<le> r4" "r5 < 0"
    | "0 \<le> fd" "0 \<le> r1" "0 \<le> r2" "0 \<le> r3" "0 \<le> r4" "0 \<le> r5" "r6 < 0"
    | "0 \<le> fd" "0 \<le> r1" "0 \<le> r2" "0 \<le> r3" "0 \<le> r4" "0 \<le> r5" "0 \<le> r6" by (meson not_less)
  then show ?thesis by cases (simp_all add: start fd_def [symmetric])
qed

end
