(* ===== verification/Gpio.thy ===== *)
theory Gpio
  imports CText
begin

text \<open>
  GPIO: kernel_modules/gpio/src/gpio.c (the efx_gpios class: attributes, probe, remove, module
  load), kernel_modules/gpio_irq/src/gpio_irq.c, and the user of the class,
  package/gpio_app/src/gpio.c and gpio_app.c.  The kernel's gpiod calls, \<open>kstrtol\<close> and
  \<open>sysfs_streq\<close> are the record \<open>gpio_kernel\<close>; what the pins are told is the log.  The device
  array of the driver is a list of slots; an access outside it, a label that does not fit its
  20 bytes, and unregistering something that is not a device are \<open>None\<close>.
\<close>

section \<open>The kernel services and the driver's data\<close>

datatype gpio_event = SetInput nat int | SetOutput nat int int | SetValue nat int

type_synonym gpio_log = "gpio_event list"

record gpio_kernel =
  k_get_direction :: "gpio_log \<Rightarrow> nat \<Rightarrow> int"
  k_direction_input :: "gpio_log \<Rightarrow> nat \<Rightarrow> int"
  k_direction_output :: "gpio_log \<Rightarrow> nat \<Rightarrow> int"
  k_get_value :: "gpio_log \<Rightarrow> nat \<Rightarrow> int"
  k_kstrtol :: "string \<Rightarrow> int + int"
  k_sysfs_streq :: "string \<Rightarrow> string \<Rightarrow> bool"

record gpiodev_private_data =
  g_label :: string
  g_desc :: nat

datatype gpio_slot = NullDev | ErrDev int | DevAt gpiodev_private_data

record gpiodrv_private_data =
  total_devices :: nat
  dev_slots :: "gpio_slot list option"
  class_devices :: "gpiodev_private_data list"

definition LABEL_SIZE :: nat where "LABEL_SIZE = 20"

section \<open>Attributes\<close>

definition gpiod_direction_input :: "gpio_kernel \<Rightarrow> nat \<Rightarrow> gpio_log \<Rightarrow> int \<times> gpio_log" where
  "gpiod_direction_input k d l = (let r = k_direction_input k l d in (r, l @ [SetInput d r]))"

definition gpiod_direction_output :: "gpio_kernel \<Rightarrow> nat \<Rightarrow> int \<Rightarrow> gpio_log \<Rightarrow> int \<times> gpio_log" where
  "gpiod_direction_output k d v l = (let r = k_direction_output k l d in (r, l @ [SetOutput d v r]))"

definition direction_show :: "gpio_kernel \<Rightarrow> gpiodev_private_data \<Rightarrow> gpio_log \<Rightarrow> int + string" where
  "direction_show k dev l =
     (let dir = k_get_direction k l (g_desc dev) in
      if dir < 0 then Inl dir
      else Inr ((if dir = 0 then ''out'' else ''in'') @ [CHR 0x0A]))"

definition direction_store ::
  "gpio_kernel \<Rightarrow> gpiodev_private_data \<Rightarrow> string \<Rightarrow> int \<Rightarrow> gpio_log \<Rightarrow> int \<times> gpio_log" where
  "direction_store k dev buf count l =
     (let (ret, l) =
        (if k_sysfs_streq k (cstr buf) ''in'' then gpiod_direction_input k (g_desc dev) l
         else if k_sysfs_streq k (cstr buf) ''out'' then gpiod_direction_output k (g_desc dev) 0 l
         else (- EINVAL, l))
      in (if ret \<noteq> 0 then ret else count, l))"

definition value_show :: "gpio_kernel \<Rightarrow> gpiodev_private_data \<Rightarrow> gpio_log \<Rightarrow> string" where
  "value_show k dev l = decimal (k_get_value k l (g_desc dev)) @ [CHR 0x0A]"

definition value_store ::
  "gpio_kernel \<Rightarrow> gpiodev_private_data \<Rightarrow> string \<Rightarrow> int \<Rightarrow> gpio_log \<Rightarrow> int \<times> gpio_log" where
  "value_store k dev buf count l =
     (case k_kstrtol k (cstr buf) of
        Inl ret \<Rightarrow> (ret, l)
      | Inr value \<Rightarrow> (count, l @ [SetValue (g_desc dev) value]))"

definition label_show :: "gpiodev_private_data \<Rightarrow> string" where
  "label_show dev = g_label dev @ [CHR 0x0A]"

section \<open>Probe and remove\<close>

record gpio_child =
  ch_available :: bool
  ch_alloc :: bool
  ch_label :: "string option"
  ch_gpiod :: "int + nat"
  ch_create :: int

definition child_label :: "gpio_child \<Rightarrow> nat \<Rightarrow> string option" where
  "child_label c i =
     (case ch_label c of
        None \<Rightarrow> Some (snprintf_str LABEL_SIZE (''unkngpio'' @ decimal (int i)))
      | Some name \<Rightarrow> if length name < LABEL_SIZE then Some name else None)"

text \<open>One round of the loop over the child nodes; \<open>Inl\<close> is a return from the probe.\<close>

definition probe_child ::
  "gpio_kernel \<Rightarrow> gpio_child \<Rightarrow> nat \<Rightarrow> gpiodrv_private_data \<Rightarrow> gpio_log
    \<Rightarrow> ((int + unit) \<times> gpiodrv_private_data \<times> gpio_log) option" where
  "probe_child k c i drv l =
    (if \<not> ch_alloc c then Some (Inl (- ENOMEM), drv, l) else do {
       label \<leftarrow> child_label c i;
       case ch_gpiod c of
         Inl ret \<Rightarrow> Some (Inl ret, drv, l)
       | Inr desc \<Rightarrow>
           let (ret, l) = gpiod_direction_output k desc 0 l in
           if ret \<noteq> 0 then Some (Inl ret, drv, l) else
           let dev = \<lparr>g_label = label, g_desc = desc\<rparr> in
           case dev_slots drv of
             None \<Rightarrow> None
           | Some slots \<Rightarrow>
               if length slots \<le> i then None
               else if ch_create c \<noteq> 0
               then Some (Inl (ch_create c), drv\<lparr>dev_slots := Some (slots[i := ErrDev (ch_create c)])\<rparr>, l)
               else Some (Inr (), drv\<lparr>dev_slots := Some (slots[i := DevAt dev]),
                                      class_devices := class_devices drv @ [dev]\<rparr>, l)
     })"

fun probe_children ::
  "gpio_kernel \<Rightarrow> gpio_child list \<Rightarrow> nat \<Rightarrow> gpiodrv_private_data \<Rightarrow> gpio_log
    \<Rightarrow> (int \<times> gpiodrv_private_data \<times> gpio_log) option" where
  "probe_children k [] i drv l = Some (0, drv, l)"
| "probe_children k (c # cs) i drv l =
     (if \<not> ch_available c then probe_children k cs i drv l else do {
        (step, drv, l) \<leftarrow> probe_child k c i drv l;
        case step of Inl ret \<Rightarrow> Some (ret, drv, l) | Inr u \<Rightarrow> probe_children k cs (i + 1) drv l
      })"

definition gpio_sysfs_probe ::
  "gpio_kernel \<Rightarrow> bool \<Rightarrow> gpio_child list \<Rightarrow> gpiodrv_private_data \<Rightarrow> gpio_log
    \<Rightarrow> (int \<times> gpiodrv_private_data \<times> gpio_log) option" where
  "gpio_sysfs_probe k alloc children drv l =
     (let drv = drv\<lparr>total_devices := length children\<rparr> in
      if total_devices drv = 0 then Some (- EINVAL, drv, l)
      else
        let drv = drv\<lparr>dev_slots := if alloc then Some (replicate (total_devices drv) NullDev) else None\<rparr>
        in probe_children k children 0 drv l)"

definition device_unregister :: "gpio_slot \<Rightarrow> gpiodev_private_data list \<Rightarrow> gpiodev_private_data list option" where
  "device_unregister slot devs =
     (case slot of DevAt dev \<Rightarrow> Some (remove1 dev devs) | _ \<Rightarrow> None)"

fun remove_loop :: "gpio_slot list \<Rightarrow> gpiodev_private_data list \<Rightarrow> gpiodev_private_data list option" where
  "remove_loop [] devs = Some devs"
| "remove_loop (slot # slots) devs = do {
     devs \<leftarrow> device_unregister slot devs;
     remove_loop slots devs
   }"

definition gpio_sysfs_remove :: "gpiodrv_private_data \<Rightarrow> (int \<times> gpiodrv_private_data) option" where
  "gpio_sysfs_remove drv = do {
     slots \<leftarrow> dev_slots drv;
     devs \<leftarrow> remove_loop (take (total_devices drv) slots) (class_devices drv);
     Some (0, drv\<lparr>class_devices := devs\<rparr>)
   }"

section \<open>The interrupt module\<close>

record gpio_irq_env =
  gi_alloc :: bool
  gi_irq :: int
  gi_request :: int

record gpio_irq_dev =
  gi_held_irq :: "int option"
  gi_drvdata :: bool

definition gpio_irq_probe :: "gpio_irq_env \<Rightarrow> gpio_irq_dev \<Rightarrow> int \<times> gpio_irq_dev" where
  "gpio_irq_probe e d =
     (if \<not> gi_alloc e then (- ENOMEM, d)
      else if gi_irq e < 0 then (gi_irq e, d)
      else if gi_request e \<noteq> 0 then (gi_request e, d)
      else (0, d\<lparr>gi_held_irq := Some (gi_irq e), gi_drvdata := True\<rparr>))"

definition gpio_irq_remove :: int where "gpio_irq_remove = 0"

definition IRQ_HANDLED :: int where "IRQ_HANDLED = 1"

definition gpio_irq_handler :: "int \<Rightarrow> gpio_irq_dev \<Rightarrow> int" where
  "gpio_irq_handler irq d = IRQ_HANDLED"

section \<open>Loading the module\<close>

datatype gpio_resource = GpioClass | GpioDriver

definition gpio_sysfs_init :: "int \<Rightarrow> int \<Rightarrow> int \<times> gpio_resource list" where
  "gpio_sysfs_init class_ret driver_ret =
     (if class_ret \<noteq> 0 then (class_ret, [])
      else (0, if driver_ret = 0 then [GpioDriver, GpioClass] else [GpioClass]))"

definition gpio_sysfs_exit :: "gpio_resource list \<Rightarrow> gpio_resource list" where
  "gpio_sysfs_exit held = filter (\<lambda>r. r \<noteq> GpioClass) (filter (\<lambda>r. r \<noteq> GpioDriver) held)"

section \<open>The sysfs user: gpio_app\<close>

text \<open>
  The application's system calls are parameters over a state \<open>'w\<close>: the result of opening a
  path, and the effect of writing bytes to it.
\<close>

definition SYS_GPIO_PATH :: string where "SYS_GPIO_PATH = ''/sys/class/efx_gpios''"
definition SOME_BYTES :: nat where "SOME_BYTES = 100"
definition GPIO_DIR_IN :: u8 where "GPIO_DIR_IN = 0"
definition GPIO_DIR_OUT :: u8 where "GPIO_DIR_OUT = 1"
definition GPIO_LED1 :: string where "GPIO_LED1 = ''LED1''"
definition GPIO_LED2 :: string where "GPIO_LED2 = ''LED2''"
definition GPIO_LED3 :: string where "GPIO_LED3 = ''LED3''"

record 'w sysfs_calls =
  sc_open :: "'w \<Rightarrow> string \<Rightarrow> int"
  sc_write :: "string \<Rightarrow> string \<Rightarrow> 'w \<Rightarrow> 'w"

definition attr_path :: "string \<Rightarrow> string \<Rightarrow> string" where
  "attr_path label attr = SYS_GPIO_PATH @ ''/'' @ label @ ''/'' @ attr"

definition gpio_configure_dir :: "'w sysfs_calls \<Rightarrow> string \<Rightarrow> u8 \<Rightarrow> 'w \<Rightarrow> int \<times> 'w" where
  "gpio_configure_dir sc label dir_value w =
     (let buf = snprintf_str SOME_BYTES (attr_path label ''direction'');
          fd = sc_open sc w buf
      in if fd < 0 then (fd, w)
         else (0, sc_write sc buf (if dir_value \<noteq> 0 then ''out'' @ [CHR 0x00] else ''in'' @ [CHR 0x00]) w))"

definition gpio_set_value :: "'w sysfs_calls \<Rightarrow> string \<Rightarrow> u8 \<Rightarrow> 'w \<Rightarrow> int \<times> 'w" where
  "gpio_set_value sc label v w =
     (let buf = snprintf_str SOME_BYTES (attr_path label ''value'');
          fd = sc_open sc w buf
      in if fd < 0 then (fd, w)
         else (0, sc_write sc buf (if v \<noteq> 0 then ''1'' @ [CHR 0x00] else ''0'' @ [CHR 0x00]) w))"

definition set_leds :: "'w sysfs_calls \<Rightarrow> (string \<times> u8) list \<Rightarrow> 'w \<Rightarrow> 'w" where
  "set_leds sc vs w = fold (\<lambda>(label, v) w. snd (gpio_set_value sc label v w)) vs w"

definition led_init :: "'w sysfs_calls \<Rightarrow> 'w \<Rightarrow> 'w" where
  "led_init sc w =
     (let (r, w) = gpio_configure_dir sc GPIO_LED1 GPIO_DIR_OUT w;
          (r, w) = gpio_configure_dir sc GPIO_LED2 GPIO_DIR_OUT w;
          (r, w) = gpio_configure_dir sc GPIO_LED3 GPIO_DIR_OUT w
      in w)"

definition gpio_led_off :: "'w sysfs_calls \<Rightarrow> 'w \<Rightarrow> 'w" where
  "gpio_led_off sc = set_leds sc [(GPIO_LED1, 0), (GPIO_LED2, 0), (GPIO_LED3, 0)]"

definition gpio_led_on :: "'w sysfs_calls \<Rightarrow> 'w \<Rightarrow> 'w" where
  "gpio_led_on sc = set_leds sc [(GPIO_LED1, 1), (GPIO_LED2, 1), (GPIO_LED3, 1)]"

definition gpio_led_circle :: "'w sysfs_calls \<Rightarrow> 'w \<Rightarrow> 'w" where
  "gpio_led_circle sc w =
     (let w = gpio_led_off sc w;
          w = ((set_leds sc [(GPIO_LED1, 1), (GPIO_LED2, 1), (GPIO_LED3, 1),
                             (GPIO_LED1, 0), (GPIO_LED2, 0), (GPIO_LED3, 0)]) ^^ 10) w
      in gpio_led_off sc w)"

definition gpio_led_emergency :: "'w sysfs_calls \<Rightarrow> 'w \<Rightarrow> 'w" where
  "gpio_led_emergency sc w =
     (let w = gpio_led_off sc w;
          w = ((set_leds sc [(GPIO_LED1, 1), (GPIO_LED3, 1), (GPIO_LED1, 0), (GPIO_LED3, 0)]) ^^ 10) w
      in gpio_led_off sc w)"

text \<open>One round of the endless loop of \<open>main\<close>.\<close>

definition led_round :: "'w sysfs_calls \<Rightarrow> 'w \<Rightarrow> 'w" where
  "led_round sc w =
     gpio_led_off sc (gpio_led_on sc (gpio_led_emergency sc (gpio_led_circle sc w)))"

text \<open>
  The attribute tables of the driver: which store operation a write to a path of a created
  device reaches (the label is read-only).
\<close>

definition gpio_attrs_store :: "gpio_kernel \<Rightarrow> gpiodev_private_data list \<Rightarrow> string \<Rightarrow> string \<Rightarrow> gpio_log \<Rightarrow> gpio_log" where
  "gpio_attrs_store k devs path buf l =
     (case find (\<lambda>d. path = attr_path (g_label d) ''direction'') devs of
        Some d \<Rightarrow> snd (direction_store k d buf (int (length buf)) l)
      | None \<Rightarrow>
          (case find (\<lambda>d. path = attr_path (g_label d) ''value'') devs of
             Some d \<Rightarrow> snd (value_store k d buf (int (length buf)) l)
           | None \<Rightarrow> l))"

section \<open>Probe and remove balance\<close>

definition dev_of :: "nat \<times> gpio_child \<Rightarrow> gpiodev_private_data" where
  "dev_of ic = \<lparr>g_label = the (child_label (snd ic) (fst ic)),
     g_desc = (case ch_gpiod (snd ic) of Inr d \<Rightarrow> d | Inl e \<Rightarrow> 0)\<rparr>"

definition label_fits :: "gpio_child \<Rightarrow> bool" where
  "label_fits c \<longleftrightarrow> (case ch_label c of None \<Rightarrow> True | Some n \<Rightarrow> length n < LABEL_SIZE)"

definition child_errors_ok :: "gpio_child \<Rightarrow> bool" where
  "child_errors_ok c \<longleftrightarrow> ch_gpiod c \<noteq> Inl 0"

lemma child_label_fits: "label_fits c \<Longrightarrow> \<exists>label. child_label c i = Some label"
  by (auto simp: child_label_def label_fits_def split: option.splits)

lemma probe_child_cases:
  assumes "label_fits c" "child_errors_ok c" "dev_slots drv = Some slots" "i < length slots"
  obtains ret drv' l' where "probe_child k c i drv l = Some (Inl ret, drv', l')" "ret \<noteq> 0"
      "class_devices drv' = class_devices drv" "total_devices drv' = total_devices drv"
  | l' where "probe_child k c i drv l = Some (Inr (), drv\<lparr>dev_slots := Some (slots[i := DevAt (dev_of (i, c))]),
      class_devices := class_devices drv @ [dev_of (i, c)]\<rparr>, l')"
proof -
  obtain label where lab: "child_label c i = Some label" using child_label_fits [OF assms(1)] by blast
  show thesis
  proof (cases "ch_alloc c")
    case False
    then show thesis by (intro that(1)) (auto simp: probe_child_def)
  next
    case alloc: True
    show thesis
    proof (cases "ch_gpiod c")
      case (Inl e)
      then show thesis using alloc lab assms(2)
        by (intro that(1)) (auto simp: probe_child_def child_errors_ok_def)
    next
      case (Inr d)
      obtain r l1 where o: "gpiod_direction_output k d 0 l = (r, l1)" by fastforce
      consider "r \<noteq> 0" | "r = 0" "ch_create c \<noteq> 0" | "r = 0" "ch_create c = 0" by blast
      then show thesis
      proof cases
        case 1
        then show thesis using alloc lab Inr o by (intro that(1)) (auto simp: probe_child_def)
      next
        case 2
        then show thesis using alloc lab Inr o assms(3,4)
          by (intro that(1) [of "ch_create c" "drv\<lparr>dev_slots := Some (slots[i := ErrDev (ch_create c)])\<rparr>" l1])
             (auto simp: probe_child_def)
      next
        case 3
        then show thesis using alloc lab Inr o assms(3,4)
          by (intro that(2) [of l1]) (auto simp: probe_child_def dev_of_def Let_def)
      qed
    qed
  qed
qed

lemma probe_children_outcome:
  assumes "list_all label_fits cs" "list_all child_errors_ok cs"
    "dev_slots drv = Some (pre @ replicate m NullDev)" "length pre = i" "length (filter ch_available cs) \<le> m"
  shows "\<exists>ret drv' l' n. probe_children k cs i drv l = Some (ret, drv', l') \<and>
    total_devices drv' = total_devices drv \<and> n \<le> length (filter ch_available cs) \<and>
    (ret = 0 \<longleftrightarrow> n = length (filter ch_available cs)) \<and>
    class_devices drv' = class_devices drv @ map dev_of (enumerate i (take n (filter ch_available cs))) \<and>
    (ret = 0 \<longrightarrow> dev_slots drv' = Some (pre @ map (DevAt \<circ> dev_of) (enumerate i (filter ch_available cs))
       @ replicate (m - length (filter ch_available cs)) NullDev))"
  using assms
proof (induction cs arbitrary: i drv l pre m)
  case Nil
  then show ?case by simp
next
  case (Cons c cs)
  show ?case
  proof (cases "ch_available c")
    case False
    with Cons show ?thesis by simp
  next
    case av: True
    then obtain m' where m: "m = Suc m'" using Cons.prems(5) by (cases m) auto
    have i: "i < length (pre @ replicate m NullDev)" using m Cons.prems(4) by simp
    have c: "label_fits c" "child_errors_ok c" using Cons.prems by simp_all
    show ?thesis
    proof (cases rule: probe_child_cases [OF c Cons.prems(3) i, of k l])
      case (1 ret drv' l')
      then show ?thesis using av by (intro exI [of _ ret] exI [of _ drv'] exI [of _ l'] exI [of _ 0]) simp
    next
      case (2 l')
      let ?dev = "dev_of (i, c)"
      let ?drv = "drv\<lparr>dev_slots := Some ((pre @ replicate m NullDev)[i := DevAt ?dev]),
        class_devices := class_devices drv @ [?dev]\<rparr>"
      have s: "dev_slots ?drv = Some ((pre @ [DevAt ?dev]) @ replicate m' NullDev)"
        using m Cons.prems(4) by (simp add: list_update_append)
      have "\<exists>ret drv' l'' n. probe_children k cs (i + 1) ?drv l' = Some (ret, drv', l'') \<and>
        total_devices drv' = total_devices ?drv \<and> n \<le> length (filter ch_available cs) \<and>
        (ret = 0 \<longleftrightarrow> n = length (filter ch_available cs)) \<and>
        class_devices drv' = class_devices ?drv @ map dev_of (enumerate (i + 1) (take n (filter ch_available cs))) \<and>
        (ret = 0 \<longrightarrow> dev_slots drv' = Some ((pre @ [DevAt ?dev]) @ map (DevAt \<circ> dev_of) (enumerate (i + 1) (filter ch_available cs))
           @ replicate (m' - length (filter ch_available cs)) NullDev))"
        using Cons.prems av m by (intro Cons.IH [OF _ _ s]) auto
      then obtain ret drv' l'' n where r: "probe_children k cs (i + 1) ?drv l' = Some (ret, drv', l'')"
        "total_devices drv' = total_devices ?drv" "n \<le> length (filter ch_available cs)"
        "ret = 0 \<longleftrightarrow> n = length (filter ch_available cs)"
        "class_devices drv' = class_devices ?drv @ map dev_of (enumerate (i + 1) (take n (filter ch_available cs)))"
        "ret = 0 \<longrightarrow> dev_slots drv' = Some ((pre @ [DevAt ?dev]) @ map (DevAt \<circ> dev_of) (enumerate (i + 1) (filter ch_available cs))
           @ replicate (m' - length (filter ch_available cs)) NullDev)"
        by blast
      show ?thesis
        by (rule exI [of _ ret], rule exI [of _ drv'], rule exI [of _ l''], rule exI [of _ "Suc n"])
           (use r 2 av m in \<open>simp add: list_update_append\<close>)
    qed
  qed
qed

lemma remove_loop_devs: "remove_loop (map DevAt ds @ slots) (ds @ xs) = remove_loop slots xs"
  by (induction ds) (simp_all add: device_unregister_def)

lemma remove_loop_null: "0 < n \<Longrightarrow> remove_loop (replicate n NullDev) xs = None"
  by (cases n) (simp_all add: device_unregister_def)

lemma probe_outcome:
  assumes "list_all label_fits children" "list_all child_errors_ok children" "children \<noteq> []" "class_devices drv = []"
  defines "avail \<equiv> filter ch_available children"
  shows "\<exists>ret drv' l' n. gpio_sysfs_probe k True children drv l = Some (ret, drv', l') \<and> n \<le> length avail \<and>
    (ret = 0 \<longleftrightarrow> n = length avail) \<and> class_devices drv' = map dev_of (enumerate 0 (take n avail)) \<and>
    (ret = 0 \<longrightarrow> gpio_sysfs_remove drv' =
       (if length avail = length children then Some (0, drv'\<lparr>class_devices := []\<rparr>) else None))"
proof -
  let ?drv = "drv\<lparr>total_devices := length children, dev_slots := Some (replicate (length children) NullDev)\<rparr>"
  have s: "dev_slots ?drv = Some ([] @ replicate (length children) NullDev)" by simp
  have le: "length avail \<le> length children" by (simp add: avail_def)
  obtain ret drv' l' n where r: "probe_children k children 0 ?drv l = Some (ret, drv', l')"
    "total_devices drv' = length children" "n \<le> length avail" "ret = 0 \<longleftrightarrow> n = length avail"
    "class_devices drv' = map dev_of (enumerate 0 (take n avail))"
    "ret = 0 \<Longrightarrow> dev_slots drv' = Some (map (DevAt \<circ> dev_of) (enumerate 0 avail)
       @ replicate (length children - length avail) NullDev)"
    using probe_children_outcome [OF assms(1,2) s, of 0 k l] assms(4) by (auto simp: avail_def)
  have "gpio_sysfs_remove drv' = (if length avail = length children
      then Some (0, drv'\<lparr>class_devices := []\<rparr>) else None)" if "ret = 0"
  proof -
    let ?ds = "map dev_of (enumerate 0 avail)"
    have "dev_slots drv' = Some (map DevAt ?ds @ replicate (length children - length avail) NullDev)"
      using r(6) [OF that] by simp
    moreover have "class_devices drv' = ?ds @ []" using r(4,5) that by simp
    ultimately have "gpio_sysfs_remove drv' =
        do { devs \<leftarrow> remove_loop (replicate (length children - length avail) NullDev) [];
             Some (0, drv'\<lparr>class_devices := devs\<rparr>) }"
      using le remove_loop_devs [of ?ds "replicate (length children - length avail) NullDev" "[]"]
      by (simp add: gpio_sysfs_remove_def r(2))
    then show ?thesis using le by (cases "length avail = length children") (simp_all add: remove_loop_null)
  qed
  with r assms(3) show ?thesis
    by (intro exI [of _ ret] exI [of _ drv'] exI [of _ l'] exI [of _ n])
       (auto simp: gpio_sysfs_probe_def Let_def)
qed


definition demo_gpio :: gpio_kernel where
  "demo_gpio = \<lparr>k_get_direction = (\<lambda>l d. 0), k_direction_input = (\<lambda>l d. 0), k_direction_output = (\<lambda>l d. 0),
     k_get_value = (\<lambda>l d. 1), k_kstrtol = (\<lambda>s. Inr (atoi s)),
     k_sysfs_streq = (\<lambda>a b. takeWhile (\<lambda>c. c \<noteq> CHR 0x0A) a = takeWhile (\<lambda>c. c \<noteq> CHR 0x0A) b)\<rparr>"

definition demo_child :: "bool \<Rightarrow> nat \<Rightarrow> gpio_child" where
  "demo_child a d = \<lparr>ch_available = a, ch_alloc = True, ch_label = Some ''LED1'', ch_gpiod = Inr d, ch_create = 0\<rparr>"


section \<open>The application on top of the driver\<close>

text \<open>
  What the drivers' attributes promise a user of sysfs: writing a direction or a value to
  the attribute of a labelled device appends one event for its pin.
\<close>

locale led_board =
  fixes sc :: "gpio_log sysfs_calls" and pin :: "string \<Rightarrow> nat" and ready :: bool
  assumes set_value: "ready \<Longrightarrow> label \<in> {GPIO_LED1, GPIO_LED2, GPIO_LED3} \<Longrightarrow>
      snd (gpio_set_value sc label v l) = l @ [SetValue (pin label) (if v = 0 then 0 else 1)]"
    and configure_out: "ready \<Longrightarrow> label \<in> {GPIO_LED1, GPIO_LED2, GPIO_LED3} \<Longrightarrow>
      snd (gpio_configure_dir sc label GPIO_DIR_OUT l) = l @ [SetOutput (pin label) 0 0]"
begin

lemma set_leds_events:
  "ready \<Longrightarrow> fst ` set vs \<subseteq> {GPIO_LED1, GPIO_LED2, GPIO_LED3} \<Longrightarrow>
   set_leds sc vs l = l @ map (\<lambda>(label, v). SetValue (pin label) (if v = 0 then 0 else 1)) vs"
proof (induction vs arbitrary: l)
  case (Cons x vs)
  then show ?case by (cases x) (simp add: set_leds_def set_value)
qed (simp add: set_leds_def)

lemma set_leds_repeat:
  assumes "ready" "fst ` set vs \<subseteq> {GPIO_LED1, GPIO_LED2, GPIO_LED3}"
  shows "(set_leds sc vs ^^ n) l =
    l @ concat (replicate n (map (\<lambda>(label, v). SetValue (pin label) (if v = 0 then 0 else 1)) vs))"
proof (induction n arbitrary: l)
  case (Suc n)
  let ?E = "map (\<lambda>(label, v). SetValue (pin label) (if v = 0 then 0 else 1)) vs"
  have "(set_leds sc vs ^^ Suc n) l = (set_leds sc vs ^^ n) (l @ ?E)"
    by (simp only: funpow_Suc_right o_apply set_leds_events [OF assms])
  also have "\<dots> = (l @ ?E) @ concat (replicate n ?E)" by (rule Suc.IH)
  finally show ?case by simp
qed simp

lemma led_init_events:
  "ready \<Longrightarrow> led_init sc l = l @ [SetOutput (pin GPIO_LED1) 0 0, SetOutput (pin GPIO_LED2) 0 0, SetOutput (pin GPIO_LED3) 0 0]"
  by (simp add: led_init_def Let_def split_def configure_out)

lemma led_round_events:
  assumes "ready"
  shows "led_round sc l =
    (let on = \<lambda>label. SetValue (pin label) 1; off = \<lambda>label. SetValue (pin label) 0;
         a = GPIO_LED1; b = GPIO_LED2; c = GPIO_LED3;
         all_off = [off a, off b, off c]; all_on = [on a, on b, on c];
         circle = all_off @ concat (replicate 10 (all_on @ all_off)) @ all_off;
         emergency = all_off @ concat (replicate 10 [on a, on c, off a, off c]) @ all_off
     in l @ circle @ emergency @ all_on @ all_off)"
  using assms
  by (simp add: led_round_def gpio_led_off_def gpio_led_on_def gpio_led_circle_def gpio_led_emergency_def
      set_leds_events set_leds_repeat Let_def)

end

text \<open>The calls as the driver's devices answer them; opening is answered by \<open>fdf\<close>.\<close>

definition driver_calls ::
  "gpio_kernel \<Rightarrow> gpiodev_private_data list \<Rightarrow> (gpio_log \<Rightarrow> string \<Rightarrow> int) \<Rightarrow> gpio_log sysfs_calls" where
  "driver_calls k devs fdf = \<lparr>sc_open = fdf, sc_write = gpio_attrs_store k devs\<rparr>"

definition pin_of :: "gpiodev_private_data list \<Rightarrow> string \<Rightarrow> nat" where
  "pin_of devs label = (case find (\<lambda>d. label = g_label d) devs of Some d \<Rightarrow> g_desc d | None \<Rightarrow> 0)"

definition board_ready :: "gpio_kernel \<Rightarrow> gpiodev_private_data list \<Rightarrow> (gpio_log \<Rightarrow> string \<Rightarrow> int) \<Rightarrow> bool" where
  "board_ready k devs fdf \<longleftrightarrow> (\<forall>l p. 0 \<le> fdf l p) \<and> (\<forall>l d. k_direction_output k l d = 0) \<and>
     k_kstrtol k ''0'' = Inr 0 \<and> k_kstrtol k ''1'' = Inr 1 \<and>
     k_sysfs_streq k ''out'' ''out'' \<and> \<not> k_sysfs_streq k ''out'' ''in'' \<and>
     {GPIO_LED1, GPIO_LED2, GPIO_LED3} \<subseteq> g_label ` set devs"

lemmas led_names = GPIO_LED1_def GPIO_LED2_def GPIO_LED3_def

lemma attr_path_fits:
  assumes "label \<in> {GPIO_LED1, GPIO_LED2, GPIO_LED3}" "attr \<in> {''direction'', ''value''}"
  shows "snprintf_str SOME_BYTES (attr_path label attr) = attr_path label attr"
  using assms by (auto simp: snprintf_str_def SOME_BYTES_def attr_path_def SYS_GPIO_PATH_def led_names)

lemma attr_path_eq: "attr_path a x = attr_path b x \<longleftrightarrow> a = b"
  by (simp add: attr_path_def)

lemma attr_path_neq: "attr_path a ''value'' \<noteq> attr_path b ''direction''"
proof
  assume "attr_path a ''value'' = attr_path b ''direction''"
  then have "last (attr_path a ''value'') = last (attr_path b ''direction'')" by simp
  then show False by (simp add: attr_path_def)
qed

lemma find_label:
  assumes "label \<in> g_label ` set devs"
  shows "\<exists>d. find (\<lambda>d. label = g_label d) devs = Some d \<and> g_desc d = pin_of devs label"
proof -
  have "find (\<lambda>d. label = g_label d) devs \<noteq> None" using assms by (auto simp: find_None_iff)
  then show ?thesis by (auto simp: pin_of_def)
qed

lemma driver_set_value:
  assumes "board_ready k devs fdf" "label \<in> {GPIO_LED1, GPIO_LED2, GPIO_LED3}"
  shows "snd (gpio_set_value (driver_calls k devs fdf) label v l) =
    l @ [SetValue (pin_of devs label) (if v = 0 then 0 else 1)]"
proof -
  obtain d where "find (\<lambda>d. label = g_label d) devs = Some d" "g_desc d = pin_of devs label"
    using find_label [of label devs] assms by (auto simp: board_ready_def)
  moreover have "cstr (''1'' @ [CHR 0x00]) = ''1''" "cstr (''0'' @ [CHR 0x00]) = ''0''" by (simp_all add: cstr_def)
  ultimately show ?thesis using assms attr_path_fits [OF assms(2)]
    by (simp add: gpio_set_value_def driver_calls_def gpio_attrs_store_def attr_path_neq attr_path_eq
        find_None_iff [THEN iffD2] value_store_def board_ready_def Let_def not_less)
qed

lemma driver_configure_out:
  assumes "board_ready k devs fdf" "label \<in> {GPIO_LED1, GPIO_LED2, GPIO_LED3}"
  shows "snd (gpio_configure_dir (driver_calls k devs fdf) label GPIO_DIR_OUT l) =
    l @ [SetOutput (pin_of devs label) 0 0]"
proof -
  obtain d where "find (\<lambda>d. label = g_label d) devs = Some d" "g_desc d = pin_of devs label"
    using find_label [of label devs] assms by (auto simp: board_ready_def)
  moreover have "cstr (''out'' @ [CHR 0x00]) = ''out''" by (simp add: cstr_def)
  ultimately show ?thesis using assms attr_path_fits [OF assms(2)]
    by (simp add: gpio_configure_dir_def driver_calls_def gpio_attrs_store_def attr_path_eq GPIO_DIR_OUT_def
        direction_store_def gpiod_direction_output_def board_ready_def Let_def not_less)
qed

interpretation leds: led_board "driver_calls k devs fdf" "pin_of devs" "board_ready k devs fdf" for k devs fdf
  by unfold_locales (rule driver_set_value driver_configure_out; assumption)+

definition level :: "gpio_log \<Rightarrow> nat \<Rightarrow> int option" where
  "level l d = fold (\<lambda>e v. case e of SetValue d' x \<Rightarrow> if d' = d then Some x else v | _ \<Rightarrow> v) l None"

text \<open>
  With the three labelled devices present, opening and the kernel's pin calls working, and the
  kernel parsing "0" and "1" and telling "in" from "out", the LED demo on top of the
  driver's attributes configures the three pins as outputs and then in each round drives
  exactly the stated sequence of levels, ending with every LED off.
\<close>
theorem led_demo_drives_pins:
  assumes "board_ready k devs fdf"
  shows "led_round (driver_calls k devs fdf) (led_init (driver_calls k devs fdf) l) =
    (let on = \<lambda>label. SetValue (pin_of devs label) 1; off = \<lambda>label. SetValue (pin_of devs label) 0;
         a = GPIO_LED1; b = GPIO_LED2; c = GPIO_LED3;
         all_off = [off a, off b, off c]; all_on = [on a, on b, on c];
         circle = all_off @ concat (replicate 10 (all_on @ all_off)) @ all_off;
         emergency = all_off @ concat (replicate 10 [on a, on c, off a, off c]) @ all_off
     in l @ map (\<lambda>label. SetOutput (pin_of devs label) 0 0) [a, b, c] @ circle @ emergency @ all_on @ all_off) \<and>
    list_all (\<lambda>label. level (led_round (driver_calls k devs fdf) l) (pin_of devs label) = Some 0)
      [GPIO_LED1, GPIO_LED2, GPIO_LED3]"
  using leds.led_round_events [OF assms] leds.led_init_events [OF assms]
  by (simp add: Let_def level_def)

definition demo_devs :: "gpiodev_private_data list" where
  "demo_devs = [\<lparr>g_label = GPIO_LED1, g_desc = 0\<rparr>, \<lparr>g_label = GPIO_LED2, g_desc = 1\<rparr>, \<lparr>g_label = GPIO_LED3, g_desc = 2\<rparr>]"

theorem led_demo_drives_pins_witness:
  "level (led_round (driver_calls demo_gpio demo_devs (\<lambda>l p. 3)) []) 1 = Some 0"
proof -
  have a: "atoi ''0'' = 0" "atoi ''1'' = 1" by (simp_all add: atoi_def is_space_def is_digit_def)
  have "board_ready demo_gpio demo_devs (\<lambda>l p. 3)"
    by (simp add: board_ready_def demo_gpio_def demo_devs_def a)
  from led_demo_drives_pins [OF this, of "[]"] show ?thesis by (simp add: pin_of_def demo_devs_def led_names)
qed

end
