(* ===== verification/EchoTest.thy ===== *)
theory EchoTest
  imports CText
begin

text \<open>
  The OpenAMP echo test, package/openamp_app/src/openamp_app.c: it writes packets of swept sizes
  to an rpmsg device and compares what it reads back, after dropping line ends and a
  "BareMetal_<id>: " prefix, with what it sent.  The device is the record \<open>rpmsg\<close>: its answers may
  depend on all packets written so far, and a read delivers at most the 1023 bytes asked for.
\<close>

section \<open>The test program\<close>

definition sweep_sizes :: "nat list" where
  "sweep_sizes = [4, 15, 63, 64, 65, 127, 128, 129, 255, 256, 257, 496]"

definition TX_BUF :: nat where "TX_BUF = 512"
definition RX_BUF :: nat where "RX_BUF = 1024"

record rpmsg =
  rp_open :: int
  rp_write :: "string list \<Rightarrow> string \<Rightarrow> int"
  rp_read :: "string list \<Rightarrow> int + string"

record echo =
  seq_num :: nat
  success_count :: nat
  failure_count :: nat
  current_token :: char
  sent_packets :: "string list"

text \<open>The loop that drops NUL and line-end characters from what was read.\<close>

fun clean_loop :: "string \<Rightarrow> string \<Rightarrow> string" where
  "clean_loop [] cleaned = cleaned"
| "clean_loop (c # rx) cleaned =
     clean_loop rx (if c \<noteq> CHR 0x00 \<and> c \<noteq> CHR 0x0D \<and> c \<noteq> CHR 0x0A then cleaned @ [c] else cleaned)"

text \<open>\<open>strchr\<close>: the rest of the string from the first occurrence.\<close>

definition strchr :: "string \<Rightarrow> char \<Rightarrow> string option" where
  "strchr s c = (case dropWhile (\<lambda>x. x \<noteq> c) s of [] \<Rightarrow> None | r \<Rightarrow> Some r)"

definition extract_data :: "string \<Rightarrow> string" where
  "extract_data cleaned =
     (if take 10 cleaned = ''BareMetal_'' then
        (case strchr cleaned CHR '':'' of
           Some colon \<Rightarrow>
             let extracted = tl colon in
             (case extracted of [] \<Rightarrow> extracted | c # r \<Rightarrow> if c = CHR '' '' then r else extracted)
         | None \<Rightarrow> cleaned)
      else cleaned)"

definition next_token :: "char \<Rightarrow> char" where
  "next_token c =
     (let c = char_of ((of_char c :: nat) + 1) in
      if (90 :: nat) < of_char c then CHR ''A'' else c)"

definition echo_packet :: "rpmsg \<Rightarrow> nat \<Rightarrow> echo \<Rightarrow> bool \<times> echo" where
  "echo_packet w s e =
    (let current_len = sweep_sizes ! (s mod 12);
         e = e\<lparr>seq_num := seq_num e + 1\<rparr>;
         tx = replicate current_len (current_token e);
         written = rp_write w (sent_packets e) tx
     in if written < 0 then (False, e\<lparr>failure_count := failure_count e + 1\<rparr>) else
     let e = e\<lparr>sent_packets := sent_packets e @ [tx]\<rparr>;
         rx = (case rp_read w (sent_packets e) of Inl err \<Rightarrow> [] | Inr bytes \<Rightarrow> take (RX_BUF - 1) bytes);
         e = (if rx \<noteq> [] \<and> cstr (tx @ [CHR 0x00]) = extract_data (clean_loop rx [])
              then e\<lparr>success_count := success_count e + 1\<rparr>
              else e\<lparr>failure_count := failure_count e + 1\<rparr>)
     in (True, e\<lparr>current_token := next_token (current_token e)\<rparr>))"

fun echo_loop :: "rpmsg \<Rightarrow> nat list \<Rightarrow> echo \<Rightarrow> echo" where
  "echo_loop w [] e = e"
| "echo_loop w (s # ss) e =
     (let (go_on, e) = echo_packet w s e in if go_on then echo_loop w ss e else e)"

definition echo_start :: echo where
  "echo_start = \<lparr>seq_num = 0, success_count = 0, failure_count = 0, current_token = CHR ''A'', sent_packets = []\<rparr>"

definition echo_main :: "rpmsg \<Rightarrow> string list \<Rightarrow> int \<times> echo" where
  "echo_main w argv =
     (let iteration = (if 3 \<le> length argv then atoi (argv ! 2) else 50) in
      if rp_open w < 0 then (1, echo_start)
      else let e = echo_loop w [0..<nat iteration] echo_start in
        (if failure_count e = 0 then 0 else 1, e))"

section \<open>Replies\<close>

definition line_noise :: "string \<Rightarrow> bool" where
  "line_noise s \<longleftrightarrow> set s \<subseteq> {CHR 0x00, CHR 0x0D, CHR 0x0A}"

definition plain :: "string \<Rightarrow> bool" where
  "plain s \<longleftrightarrow> set s \<inter> {CHR 0x00, CHR 0x0D, CHR 0x0A} = {}"

lemma clean_loop_filter:
  "clean_loop rx acc = acc @ filter (\<lambda>c. c \<noteq> CHR 0x00 \<and> c \<noteq> CHR 0x0D \<and> c \<noteq> CHR 0x0A) rx"
  by (induction rx acc rule: clean_loop.induct) auto

lemma clean_plain [simp]: "plain s \<Longrightarrow> filter (\<lambda>c. c \<noteq> CHR 0x00 \<and> c \<noteq> CHR 0x0D \<and> c \<noteq> CHR 0x0A) s = s"
  by (auto simp: plain_def filter_id_conv)

lemma clean_noise [simp]: "line_noise s \<Longrightarrow> filter (\<lambda>c. c \<noteq> CHR 0x00 \<and> c \<noteq> CHR 0x0D \<and> c \<noteq> CHR 0x0A) s = []"
  by (auto simp: line_noise_def filter_empty_conv)

lemma extract_framed:
  assumes "CHR '':'' \<notin> set ident"
  shows "extract_data (''BareMetal_'' @ ident @ '': '' @ payload) = payload"
proof -
  have "CHR '':'' \<notin> set (''BareMetal_'' @ ident)" using assms by auto
  then have "dropWhile (\<lambda>x. x \<noteq> CHR '':'') ((''BareMetal_'' @ ident) @ CHR '':'' # CHR '' '' # payload)
      = CHR '':'' # CHR '' '' # payload"
    by (subst dropWhile_append2) auto
  then have "strchr (''BareMetal_'' @ ident @ '': '' @ payload) CHR '':'' = Some ('': '' @ payload)"
    by (simp add: strchr_def)
  then show ?thesis by (simp add: extract_data_def)
qed

lemma extract_plain: "take 10 s \<noteq> ''BareMetal_'' \<Longrightarrow> extract_data s = s"
  by (simp add: extract_data_def)

lemma char_of_65: "char_of (65 :: nat) = CHR ''A''"
  by code_simp

lemma next_token_letter:
  "next_token (char_of (65 + n mod 26 :: nat)) = char_of (65 + Suc n mod 26 :: nat)"
proof -
  have b: "n mod 26 < 26" by simp
  show ?thesis
  proof (cases "n mod 26 = 25")
    case True
    then have "Suc n mod 26 = 0" by (simp add: mod_Suc)
    with True show ?thesis by (simp add: next_token_def Let_def char_of_65)
  next
    case False
    then have "Suc n mod 26 = Suc (n mod 26)" by (simp add: mod_Suc)
    moreover have "n mod 26 < 25" using False b by linarith
    ultimately show ?thesis by (simp add: next_token_def Let_def)
  qed
qed

section \<open>The verdict\<close>

definition nth_packet :: "nat \<Rightarrow> string" where
  "nth_packet s = replicate (sweep_sizes ! (s mod 12)) (char_of (65 + s mod 26 :: nat))"

definition echo_inv :: "nat \<Rightarrow> echo \<Rightarrow> bool" where
  "echo_inv s e \<longleftrightarrow> seq_num e = s \<and> success_count e + failure_count e = s \<and>
     current_token e = char_of (65 + s mod 26 :: nat) \<and> sent_packets e = map nth_packet [0..<s]"

lemma echo_inv_start: "echo_inv 0 echo_start"
  by (simp add: echo_inv_def echo_start_def char_of_65)

lemma echo_packet_inv:
  assumes "echo_inv s e" "echo_packet w s e = (go_on, e')"
  shows "if go_on then echo_inv (Suc s) e'
    else seq_num e' = Suc s \<and> success_count e' + failure_count e' = Suc s \<and> 0 < failure_count e' \<and>
         sent_packets e' = map nth_packet [0..<s] \<and> rp_write w (sent_packets e') (nth_packet s) < 0"
  using assms
  by (auto simp: echo_inv_def echo_packet_def nth_packet_def Let_def next_token_letter split: if_splits)

lemma echo_loop_inv:
  assumes "echo_inv s e" "s \<le> n"
  shows "echo_inv n (echo_loop w [s..<n] e) \<or>
    (\<exists>m<n. let e' = echo_loop w [s..<n] e in seq_num e' = Suc m \<and> success_count e' + failure_count e' = Suc m \<and>
       0 < failure_count e' \<and> sent_packets e' = map nth_packet [0..<m] \<and>
       rp_write w (sent_packets e') (nth_packet m) < 0)"
  using assms
proof (induction "n - s" arbitrary: s e)
  case 0
  then show ?case by simp
next
  case (Suc k)
  then have l: "[s..<n] = s # [Suc s..<n]" and s: "s < n" by (simp_all add: upt_conv_Cons)
  obtain g e1 where p: "echo_packet w s e = (g, e1)" by fastforce
  note inv = echo_packet_inv [OF Suc.prems(1) p]
  show ?case
  proof (cases g)
    case True
    then have "echo_inv (Suc s) e1" using inv by simp
    from Suc.hyps(1) [OF _ this] Suc.hyps(2) s show ?thesis using p True by (simp add: l)
  next
    case False
    then show ?thesis using inv p s by (intro disjI2 exI [of _ s]) (auto simp: l Let_def)
  qed
qed

text \<open>
  The echo test counts every packet exactly once, sends the packets of the stated sizes
  and letters in order, ends after the requested number of packets or with the first write
  that fails, and reports success exactly when no packet failed.
\<close>
theorem echo_test_counts:
  "let (code, e) = echo_main w argv; n = nat (if 3 \<le> length argv then atoi (argv ! 2) else 50)
   in if rp_open w < 0 then code = 1 \<and> e = echo_start
      else seq_num e = success_count e + failure_count e \<and> seq_num e \<le> n \<and>
        code = (if failure_count e = 0 then 0 else 1) \<and>
        sent_packets e = map nth_packet [0..<length (sent_packets e)] \<and>
        (if length (sent_packets e) = seq_num e then seq_num e = n
         else Suc (length (sent_packets e)) = seq_num e \<and>
              rp_write w (sent_packets e) (nth_packet (length (sent_packets e))) < 0)"
proof (cases "rp_open w < 0")
  case True
  then show ?thesis by (simp add: echo_main_def)
next
  case False
  define n where "n = nat (if 3 \<le> length argv then atoi (argv ! 2) else 50)"
  define e where "e = echo_loop w [0..<n] echo_start"
  have m: "echo_main w argv = (if failure_count e = 0 then 0 else 1, e)"
    using False by (simp add: echo_main_def e_def n_def Let_def)
  have "echo_inv n e \<or> (\<exists>m<n. seq_num e = Suc m \<and> success_count e + failure_count e = Suc m \<and>
       0 < failure_count e \<and> sent_packets e = map nth_packet [0..<m] \<and> rp_write w (sent_packets e) (nth_packet m) < 0)"
    using echo_loop_inv [OF echo_inv_start, of n w] by (simp add: e_def Let_def)
  then show ?thesis using False
    unfolding m n_def [symmetric] Let_def by (auto simp: echo_inv_def)
qed

definition framed :: "string \<Rightarrow> string \<Rightarrow> bool" where
  "framed payload reply \<longleftrightarrow> length reply < RX_BUF \<and>
     (\<exists>ident noise. line_noise noise \<and> plain ident \<and> CHR '':'' \<notin> set ident \<and>
        (reply = payload @ noise \<or> reply = ''BareMetal_'' @ ident @ '': '' @ payload @ noise))"

lemma nth_packet_plain: "plain (nth_packet s)" "CHR 0x00 \<notin> set (nth_packet s)"
proof -
  have "s mod 26 < 26" by simp
  then have n: "(of_char (char_of (65 + s mod 26 :: nat)) :: nat) = 65 + s mod 26" by simp
  have "char_of (65 + s mod 26 :: nat) \<noteq> c" if "of_char c < (65 :: nat)" for c
    using that n by auto
  then have "char_of (65 + s mod 26 :: nat) \<notin> {CHR 0x00, CHR 0x0D, CHR 0x0A}" by simp
  then show "plain (nth_packet s)" "CHR 0x00 \<notin> set (nth_packet s)"
    by (auto simp: plain_def nth_packet_def)
qed

lemma sweep_sizes_bounds: "4 \<le> sweep_sizes ! (s mod 12) \<and> sweep_sizes ! (s mod 12) \<le> 496"
proof -
  have "sweep_sizes ! (s mod 12) \<in> set sweep_sizes" by (rule nth_mem) (simp add: sweep_sizes_def)
  then show ?thesis by (auto simp: sweep_sizes_def)
qed

lemma nth_packet_length: "length (nth_packet s) \<le> 496" "nth_packet s \<noteq> []"
  using sweep_sizes_bounds [of s] by (auto simp: nth_packet_def)

lemma nth_packet_not_framed: "take 10 (nth_packet s) \<noteq> ''BareMetal_''"
proof
  assume "take 10 (nth_packet s) = ''BareMetal_''"
  then have "CHR ''a'' \<in> set (nth_packet s)" "CHR ''B'' \<in> set (nth_packet s)"
    by (metis in_set_takeD list.set_intros(1) list.set_intros(2))+
  then have "CHR ''a'' = char_of (65 + s mod 26 :: nat)" "CHR ''B'' = char_of (65 + s mod 26 :: nat)"
    by (auto simp: nth_packet_def)
  then have "CHR ''a'' = CHR ''B''" by (rule trans [OF _ sym])
  then show False by simp
qed

lemma extract_framed_packet:
  assumes "framed (nth_packet s) reply"
  shows "take (RX_BUF - 1) reply \<noteq> [] \<and> extract_data (clean_loop (take (RX_BUF - 1) reply) []) = nth_packet s"
proof -
  have t: "take (RX_BUF - 1) reply = reply" using assms by (auto simp: framed_def RX_BUF_def)
  obtain ident noise where "line_noise noise" "plain ident" "CHR '':'' \<notin> set ident"
    "reply = nth_packet s @ noise \<or> reply = ''BareMetal_'' @ ident @ '': '' @ nth_packet s @ noise"
    using assms by (auto simp: framed_def)
  then show ?thesis
    using nth_packet_plain [of s] nth_packet_length [of s] nth_packet_not_framed [of s]
      extract_framed [of ident "nth_packet s"]
    unfolding t by (auto simp: clean_loop_filter extract_plain)
qed

lemma echo_loop_echoes:
  assumes "\<forall>ps p. 0 \<le> rp_write w ps p"
    "\<forall>ps p. length p \<le> 496 \<longrightarrow> (\<exists>reply. rp_read w (ps @ [p]) = Inr reply \<and> framed p reply)"
    "echo_inv s e" "failure_count e = 0" "s \<le> n"
  shows "echo_inv n (echo_loop w [s..<n] e) \<and> failure_count (echo_loop w [s..<n] e) = 0"
  using assms(3-5)
proof (induction "n - s" arbitrary: s e)
  case 0
  then show ?case by simp
next
  case (Suc k)
  then have l: "[s..<n] = s # [Suc s..<n]" and s: "s < n" by (simp_all add: upt_conv_Cons)
  obtain reply where r: "rp_read w (sent_packets e @ [nth_packet s]) = Inr reply" "framed (nth_packet s) reply"
    using assms(2) nth_packet_length [of s] by blast
  have tok: "replicate (sweep_sizes ! (s mod 12)) (current_token e) = nth_packet s"
    using Suc.prems(1) by (simp add: echo_inv_def nth_packet_def)
  obtain g e1 where p: "echo_packet w s e = (g, e1)" by fastforce
  have g: "g" "failure_count e1 = 0"
    using p assms(1) Suc.prems(2) r extract_framed_packet [OF r(2)] nth_packet_plain(2) [of s]
    by (auto simp: echo_packet_def Let_def tok not_less [symmetric] cstr_no_NUL split: if_splits)
  then have "echo_inv (Suc s) e1" using echo_packet_inv [OF Suc.prems(1) p] by simp
  from Suc.hyps(1) [OF _ this g(2)] Suc.hyps(2) s show ?case using p g by (simp add: l)
qed

text \<open>
  C33: Against a peer that accepts every packet and answers it with the packet itself, plain or
  behind a "BareMetal_<id>: " prefix and followed by line ends, the test passes
  every packet and reports success.
\<close>
theorem echo_roundtrip:
  assumes "0 \<le> rp_open w" "\<forall>ps p. 0 \<le> rp_write w ps p"
    "\<forall>ps p. length p \<le> 496 \<longrightarrow> (\<exists>reply. rp_read w (ps @ [p]) = Inr reply \<and> framed p reply)"
  shows "fst (echo_main w argv) = 0 \<and>
    success_count (snd (echo_main w argv)) = nat (if 3 \<le> length argv then atoi (argv ! 2) else 50)"
  using echo_loop_echoes [OF assms(2,3) echo_inv_start, of "nat (if 3 \<le> length argv then atoi (argv ! 2) else 50)"]
    assms(1)
  by (simp add: echo_main_def echo_start_def echo_inv_def Let_def)

definition demo_peer :: rpmsg where
  "demo_peer = \<lparr>rp_open = 3, rp_write = (\<lambda>ps p. int (length p)),
     rp_read = (\<lambda>ps. Inr (''BareMetal_1: '' @ last ps @ [CHR 0x0A]))\<rparr>"

theorem echo_roundtrip_witness:
  "fst (echo_main demo_peer []) = 0 \<and>
    success_count (snd (echo_main demo_peer [])) = nat (if 3 \<le> length ([] :: string list) then atoi ([] ! 2) else 50)"
proof (rule echo_roundtrip)
  show "\<forall>ps p. length p \<le> 496 \<longrightarrow> (\<exists>reply. rp_read demo_peer (ps @ [p]) = Inr reply \<and> framed p reply)"
  proof (intro allI impI)
    fix ps p :: "string list" and q :: string
    assume q: "length q \<le> 496"
    have "framed q (''BareMetal_1: '' @ q @ [CHR 0x0A])"
      unfolding framed_def
      by (intro conjI exI [of _ "''1''"] exI [of _ "[CHR 0x0A]"])
         (use q in \<open>auto simp: RX_BUF_def line_noise_def plain_def\<close>)
    then show "\<exists>reply. rp_read demo_peer (ps @ [q]) = Inr reply \<and> framed q reply" by (simp add: demo_peer_def)
  qed
qed (simp_all add: demo_peer_def)

end
