(* ===== verification/Accel.thy ===== *)
theory Accel
  imports Prelude
begin

text \<open>
  The custom-instruction demos: package/tiny_encryption/src (riscv.h and main.c) and
  package/fir_filter/src/main.c.  The custom unit is a parameter that answers from all
  instructions executed so far.  The time measurements and the printing of the demos are
  not modelled.
\<close>

section \<open>Custom instructions\<close>

definition reg_names :: "(string \<times> u32) list" where
  "reg_names =
    [(''zero'', 0), (''ra'', 1), (''sp'', 2), (''gp'', 3), (''tp'', 4), (''t0'', 5), (''t1'', 6), (''t2'', 7),
     (''s0'', 8), (''s1'', 9), (''a0'', 10), (''a1'', 11), (''a2'', 12), (''a3'', 13), (''a4'', 14), (''a5'', 15),
     (''a6'', 16), (''a7'', 17), (''s2'', 18), (''s3'', 19), (''s4'', 20), (''s5'', 21), (''s6'', 22), (''s7'', 23),
     (''s8'', 24), (''s9'', 25), (''s10'', 26), (''s11'', 27), (''t3'', 28), (''t4'', 29), (''t5'', 30), (''t6'', 31)]"

definition regnum :: "string \<Rightarrow> u32 option" where
  "regnum name = map_of reg_names name"

definition CUSTOM0 :: u32 where "CUSTOM0 = 0x0B"

text \<open>The instruction word that \<open>opcode_R\<close> lets the assembler compute.\<close>

definition opcode_R_word :: "u32 \<Rightarrow> u32 \<Rightarrow> u32 \<Rightarrow> u32 \<Rightarrow> u32 \<Rightarrow> u32 \<Rightarrow> u32" where
  "opcode_R_word opcode func3 func7 rd rs1 rs2 =
     opcode OR push_bit 7 rd OR push_bit 15 rs1 OR push_bit 20 rs2 OR push_bit 12 func3 OR push_bit 25 func7"

text \<open>
  An executed custom instruction is its function fields and operand values; the unit answers from
  all instructions executed so far, this one included.
\<close>

record custom_op =
  op_func3 :: u32
  op_func7 :: u32
  op_rs1 :: u32
  op_rs2 :: u32

definition opcode_R :: "(custom_op list \<Rightarrow> u32) \<Rightarrow> u32 \<Rightarrow> u32 \<Rightarrow> u32 \<Rightarrow> u32 \<Rightarrow> custom_op list \<Rightarrow> u32 \<times> custom_op list" where
  "opcode_R unit func3 func7 rs1 rs2 ops =
     (let ops = ops @ [\<lparr>op_func3 = func3, op_func7 = func7, op_rs1 = rs1, op_rs2 = rs2\<rparr>] in (unit ops, ops))"

section \<open>Tiny encryption\<close>

definition tiny_encryption_lowerword :: "(custom_op list \<Rightarrow> u32) \<Rightarrow> u32 \<Rightarrow> u32 \<Rightarrow> custom_op list \<Rightarrow> u32 \<times> custom_op list" where
  "tiny_encryption_lowerword unit rs1 rs2 ops = opcode_R unit 0x00 0x00 rs1 rs2 ops"

definition tiny_encryption_upperword :: "(custom_op list \<Rightarrow> u32) \<Rightarrow> u32 \<Rightarrow> u32 \<Rightarrow> custom_op list \<Rightarrow> u32 \<times> custom_op list" where
  "tiny_encryption_upperword unit rs1 rs2 ops = opcode_R unit 0x01 0x00 rs1 rs2 ops"

definition ITERATION :: nat where "ITERATION = 1024"

definition tea_delta :: u32 where "tea_delta = 0x9e3779b9"
definition tea_k0 :: u32 where "tea_k0 = 0x01234567"
definition tea_k1 :: u32 where "tea_k1 = 0x89abcdef"
definition tea_k2 :: u32 where "tea_k2 = 0x13579248"
definition tea_k3 :: u32 where "tea_k3 = 0x248a0135"

fun tea_loop :: "nat \<Rightarrow> u32 \<Rightarrow> u32 \<Rightarrow> u32 \<Rightarrow> u32 \<times> u32" where
  "tea_loop 0 acc v0 v1 = (v0, v1)"
| "tea_loop (Suc n) acc v0 v1 =
    (let acc = acc + tea_delta;
         v0 = v0 + (((push_bit 4 v1 + tea_k0) XOR (v1 + acc)) XOR (drop_bit 5 v1 + tea_k1));
         v1 = v1 + (((push_bit 4 v0 + tea_k2) XOR (v0 + acc)) XOR (drop_bit 5 v0 + tea_k3))
     in tea_loop n acc v0 v1)"

definition software_tiny_encrypt :: "u32 \<Rightarrow> u32 \<Rightarrow> u32 \<times> u32" where
  "software_tiny_encrypt v0 v1 = tea_loop ITERATION 0 v0 v1"

definition hardware_tiny_encrypt ::
  "(custom_op list \<Rightarrow> u32) \<Rightarrow> u32 \<Rightarrow> u32 \<Rightarrow> custom_op list \<Rightarrow> (u32 \<times> u32) \<times> custom_op list" where
  "hardware_tiny_encrypt unit num1 num2 ops =
     (let (ci0, ops) = tiny_encryption_lowerword unit num1 num2 ops;
          (ci1, ops) = tiny_encryption_upperword unit 0 0 ops
      in ((ci0, ci1), ops))"

definition tiny_main :: "(custom_op list \<Rightarrow> u32) \<Rightarrow> int" where
  "tiny_main unit =
     (let num1 = 0x84425820; num2 = 0xdeadbe11;
          (ci, ops) = hardware_tiny_encrypt unit num1 num2 [];
          sw = software_tiny_encrypt num1 num2
      in if fst ci \<noteq> fst sw \<or> snd ci \<noteq> snd sw then -1 else 0)"

section \<open>FIR filter\<close>

text \<open>
  The arithmetic of \<open>float\<close> is given by its two operations; arrays are lists and every access is
  checked.
\<close>

definition at :: "'f list \<Rightarrow> nat \<Rightarrow> 'f option" where
  "at xs i = (if i < length xs then Some (xs ! i) else None)"

definition put :: "'f list \<Rightarrow> nat \<Rightarrow> 'f \<Rightarrow> 'f list option" where
  "put xs i v = (if i < length xs then Some (xs[i := v]) else None)"

fun fir_inner ::
  "('f \<Rightarrow> 'f \<Rightarrow> 'f) \<Rightarrow> ('f \<Rightarrow> 'f \<Rightarrow> 'f) \<Rightarrow> 'f list \<Rightarrow> 'f list \<Rightarrow> nat \<Rightarrow> nat list \<Rightarrow> 'f list \<Rightarrow> 'f list option" where
  "fir_inner fadd fmul input coeffs i [] out = Some out"
| "fir_inner fadd fmul input coeffs i (j # js) out = do {
     out \<leftarrow> (if int i - int j \<ge> 0 then do {
               c \<leftarrow> at coeffs j; x \<leftarrow> at input (i - j); y \<leftarrow> at out i;
               put out i (fadd y (fmul c x))
             } else Some out);
     fir_inner fadd fmul input coeffs i js out
   }"

fun fir_outer ::
  "('f \<Rightarrow> 'f \<Rightarrow> 'f) \<Rightarrow> ('f \<Rightarrow> 'f \<Rightarrow> 'f) \<Rightarrow> 'f list \<Rightarrow> 'f list \<Rightarrow> nat \<Rightarrow> nat list \<Rightarrow> 'f list \<Rightarrow> 'f list option" where
  "fir_outer fadd fmul input coeffs m [] out = Some out"
| "fir_outer fadd fmul input coeffs m (i # is) out = do {
     out \<leftarrow> fir_inner fadd fmul input coeffs i [0..<m] out;
     fir_outer fadd fmul input coeffs m is out
   }"

definition fir_sw ::
  "('f \<Rightarrow> 'f \<Rightarrow> 'f) \<Rightarrow> ('f \<Rightarrow> 'f \<Rightarrow> 'f) \<Rightarrow> 'f list \<Rightarrow> 'f list \<Rightarrow> 'f list \<Rightarrow> nat \<Rightarrow> nat \<Rightarrow> 'f list option" where
  "fir_sw fadd fmul input coeffs out n m = fir_outer fadd fmul input coeffs m [0..<n] out"

text \<open>\<open>fir_hw\<close> moves the 32-bit patterns of the floats.  The second operand of its instructions selects
  the unit's operation.\<close>

definition fir_cmd :: "(custom_op list \<Rightarrow> u32) \<Rightarrow> u32 \<Rightarrow> u32 \<Rightarrow> custom_op list \<Rightarrow> u32 \<times> custom_op list" where
  "fir_cmd unit rs1 rs2 ops = opcode_R unit 2 1 rs1 rs2 ops"

definition fir_reset :: "(custom_op list \<Rightarrow> u32) \<Rightarrow> custom_op list \<Rightarrow> u32 \<times> custom_op list" where
  "fir_reset unit = fir_cmd unit 0 10"
definition fir_begin :: "(custom_op list \<Rightarrow> u32) \<Rightarrow> custom_op list \<Rightarrow> u32 \<times> custom_op list" where
  "fir_begin unit = fir_cmd unit 0 13"
definition fir_weight :: "(custom_op list \<Rightarrow> u32) \<Rightarrow> u32 \<Rightarrow> custom_op list \<Rightarrow> u32 \<times> custom_op list" where
  "fir_weight unit rs1 = fir_cmd unit rs1 11"
definition fir_fifo_push :: "(custom_op list \<Rightarrow> u32) \<Rightarrow> u32 \<Rightarrow> custom_op list \<Rightarrow> u32 \<times> custom_op list" where
  "fir_fifo_push unit rs1 = fir_cmd unit rs1 12"
definition fir_fifo_pop :: "(custom_op list \<Rightarrow> u32) \<Rightarrow> custom_op list \<Rightarrow> u32 \<times> custom_op list" where
  "fir_fifo_pop unit = fir_cmd unit 0 14"

fun fir_load :: "(u32 \<Rightarrow> custom_op list \<Rightarrow> u32 \<times> custom_op list) \<Rightarrow> u32 list \<Rightarrow> nat list \<Rightarrow> custom_op list \<Rightarrow> custom_op list option" where
  "fir_load f xs [] ops = Some ops"
| "fir_load f xs (i # is) ops = do { x \<leftarrow> at xs i; fir_load f xs is (snd (f x ops)) }"

fun fir_clear :: "nat list \<Rightarrow> u32 list \<Rightarrow> u32 list option" where
  "fir_clear [] out = Some out"
| "fir_clear (i # is) out = do { out \<leftarrow> put out i 0; fir_clear is out }"

fun fir_drain :: "(custom_op list \<Rightarrow> u32) \<Rightarrow> nat list \<Rightarrow> u32 list \<Rightarrow> custom_op list \<Rightarrow> (u32 list \<times> custom_op list) option" where
  "fir_drain unit [] out ops = Some (out, ops)"
| "fir_drain unit (i # is) out ops =
     (let (v, ops) = fir_fifo_pop unit ops in do { out \<leftarrow> put out i v; fir_drain unit is out ops })"

definition fir_hw ::
  "(custom_op list \<Rightarrow> u32) \<Rightarrow> u32 list \<Rightarrow> u32 list \<Rightarrow> u32 list \<Rightarrow> nat \<Rightarrow> nat \<Rightarrow> custom_op list
    \<Rightarrow> (u32 list \<times> custom_op list) option" where
  "fir_hw unit input coeffs out n m ops = do {
     let ops = snd (fir_reset unit ops);
     ops \<leftarrow> fir_load (fir_weight unit) coeffs [0..<m] ops;
     ops \<leftarrow> fir_load (fir_fifo_push unit) input [0..<n] ops;
     let ops = snd (fir_begin unit ops);
     out \<leftarrow> fir_clear [0..<m] out;
     fir_drain unit [0..<n] out ops
   }"

section \<open>The cipher is a permutation\<close>

text \<open>The inverse of the cipher: the rounds undone in reverse order.\<close>

definition tea_round :: "u32 \<Rightarrow> u32 \<times> u32 \<Rightarrow> u32 \<times> u32" where
  "tea_round acc v =
     (let v0 = fst v + (((push_bit 4 (snd v) + tea_k0) XOR (snd v + acc)) XOR (drop_bit 5 (snd v) + tea_k1));
          v1 = snd v + (((push_bit 4 v0 + tea_k2) XOR (v0 + acc)) XOR (drop_bit 5 v0 + tea_k3))
      in (v0, v1))"

definition tea_unround :: "u32 \<Rightarrow> u32 \<times> u32 \<Rightarrow> u32 \<times> u32" where
  "tea_unround acc v =
     (let v1 = snd v - (((push_bit 4 (fst v) + tea_k2) XOR (fst v + acc)) XOR (drop_bit 5 (fst v) + tea_k3));
          v0 = fst v - (((push_bit 4 v1 + tea_k0) XOR (v1 + acc)) XOR (drop_bit 5 v1 + tea_k1))
      in (v0, v1))"

fun tea_unloop :: "nat \<Rightarrow> u32 \<Rightarrow> u32 \<times> u32 \<Rightarrow> u32 \<times> u32" where
  "tea_unloop 0 acc v = v"
| "tea_unloop (Suc n) acc v = tea_unloop n (acc - tea_delta) (tea_unround acc v)"

definition tiny_decrypt :: "u32 \<times> u32 \<Rightarrow> u32 \<times> u32" where
  "tiny_decrypt v = tea_unloop ITERATION (of_nat ITERATION * tea_delta) v"

lemma tea_unround_round [simp]: "tea_unround s (tea_round s v) = v"
  by (simp add: tea_round_def tea_unround_def Let_def)

lemma tea_round_unround [simp]: "tea_round s (tea_unround s v) = v"
  by (simp add: tea_round_def tea_unround_def Let_def)

fun tea_rounds :: "nat \<Rightarrow> u32 \<Rightarrow> u32 \<times> u32 \<Rightarrow> u32 \<times> u32" where
  "tea_rounds 0 acc v = v"
| "tea_rounds (Suc n) acc v = tea_rounds n (acc + tea_delta) (tea_round (acc + tea_delta) v)"

lemma tea_loop_rounds: "tea_loop n acc v0 v1 = tea_rounds n acc (v0, v1)"
  by (induction n arbitrary: acc v0 v1) (simp_all add: tea_round_def Let_def)

lemma tea_rounds_Suc:
  "tea_rounds (Suc n) acc v = tea_round (acc + of_nat (Suc n) * tea_delta) (tea_rounds n acc v)"
proof (induction n arbitrary: acc v)
  case (Suc n)
  have "tea_rounds (Suc (Suc n)) acc v = tea_rounds (Suc n) (acc + tea_delta) (tea_round (acc + tea_delta) v)" by simp
  also have "\<dots> = tea_round (acc + tea_delta + of_nat (Suc n) * tea_delta)
      (tea_rounds n (acc + tea_delta) (tea_round (acc + tea_delta) v))" by (rule Suc.IH)
  finally show ?case by (simp add: algebra_simps)
qed simp

lemma tea_unloop_rounds: "tea_unloop n (acc + of_nat n * tea_delta) (tea_rounds n acc v) = v"
proof (induction n)
  case (Suc n)
  then show ?case by (simp only: tea_rounds_Suc tea_unloop.simps tea_unround_round) (simp add: algebra_simps)
qed simp

lemma tea_rounds_unloop: "tea_rounds n acc (tea_unloop n (acc + of_nat n * tea_delta) v) = v"
proof (induction n arbitrary: v)
  case (Suc n)
  have "acc + of_nat (Suc n) * tea_delta - tea_delta = acc + of_nat n * tea_delta" by (simp add: algebra_simps)
  with Suc show ?case by (simp only: tea_rounds_Suc tea_unloop.simps tea_round_unround)
qed simp

text \<open>
  C32: The software cipher is a permutation of the 64-bit blocks: \<open>tiny_decrypt\<close>, its rounds undone
  in reverse order, inverts it on both sides.  The demo reports success exactly when the two
  words of the custom instruction are those of the software.
\<close>
theorem tiny_encryption_roundtrip:
  "tiny_decrypt (software_tiny_encrypt v0 v1) = (v0, v1) \<and>
   case_prod software_tiny_encrypt (tiny_decrypt w) = w \<and>
   (tiny_main unit = 0 \<longleftrightarrow>
      fst (hardware_tiny_encrypt unit 0x84425820 0xdeadbe11 []) = software_tiny_encrypt 0x84425820 0xdeadbe11)"
proof -
  have "tiny_decrypt (software_tiny_encrypt v0 v1) = (v0, v1)"
    using tea_unloop_rounds [of ITERATION 0] by (simp add: tiny_decrypt_def software_tiny_encrypt_def tea_loop_rounds)
  moreover have "case_prod software_tiny_encrypt (tiny_decrypt w) = w"
    using tea_rounds_unloop [of ITERATION 0 w]
    by (simp add: tiny_decrypt_def software_tiny_encrypt_def tea_loop_rounds split_def)
  ultimately show ?thesis
    by (auto simp: tiny_main_def Let_def prod_eq_iff split: prod.splits)
qed

section \<open>The FIR filter computes a convolution\<close>

definition fir_sum :: "('f \<Rightarrow> 'f \<Rightarrow> 'f) \<Rightarrow> ('f \<Rightarrow> 'f \<Rightarrow> 'f) \<Rightarrow> 'f list \<Rightarrow> 'f list \<Rightarrow> nat \<Rightarrow> nat \<Rightarrow> 'f \<Rightarrow> 'f" where
  "fir_sum fadd fmul input coeffs i m y =
     foldl (\<lambda>y j. fadd y (fmul (coeffs ! j) (input ! (i - j)))) y [0..<min m (Suc i)]"

lemma fir_inner_inactive:
  "\<forall>j\<in>set js. i < j \<Longrightarrow> fir_inner fadd fmul input coeffs i js out = Some out"
  by (induction js) auto

lemma fir_inner_active:
  assumes "\<forall>j\<in>set js. j \<le> i \<and> j < length coeffs" "i < length input" "i < length out"
  shows "fir_inner fadd fmul input coeffs i js out =
    Some (out[i := foldl (\<lambda>y j. fadd y (fmul (coeffs ! j) (input ! (i - j)))) (out ! i) js])"
  using assms(1,3)
proof (induction js arbitrary: out)
  case (Cons j js)
  then have "i - j < length input" using assms(2) by simp
  with Cons show ?case by (simp add: at_def put_def)
qed simp

lemma fir_inner_append:
  "fir_inner fadd fmul input coeffs i (js @ ks) out =
     Option.bind (fir_inner fadd fmul input coeffs i js out) (fir_inner fadd fmul input coeffs i ks)"
proof (induction js arbitrary: out)
  case (Cons j js)
  then have "fir_inner fadd fmul input coeffs i (js @ ks) = (\<lambda>out. Option.bind
      (fir_inner fadd fmul input coeffs i js out) (fir_inner fadd fmul input coeffs i ks))" by (simp add: fun_eq_iff)
  then show ?case by (simp add: Option.bind_assoc)
qed simp

lemma fir_inner_sum:
  assumes "m \<le> length coeffs" "i < length input" "i < length out"
  shows "fir_inner fadd fmul input coeffs i [0..<m] out = Some (out[i := fir_sum fadd fmul input coeffs i m (out ! i)])"
proof -
  have u: "[0..<m] = [0..<min m (Suc i)] @ [min m (Suc i)..<m]"
    by (metis le0 min.cobounded1 upt_add_eq_append le_add_diff_inverse)
  have a: "\<forall>j\<in>set [0..<min m (Suc i)]. j \<le> i \<and> j < length coeffs" using assms by auto
  have b: "\<forall>j\<in>set [min m (Suc i)..<m]. i < j" by auto
  show ?thesis
    by (subst u) (simp only: fir_inner_append fir_inner_active [OF a assms(2,3)] fir_inner_inactive [OF b]
        Option.bind.simps fir_sum_def)
qed

lemma fir_outer_sum:
  assumes "m \<le> length coeffs" "n \<le> length input" "n \<le> length out" "k \<le> n"
  shows "fir_outer fadd fmul input coeffs m [k..<n] out =
    Some (map (\<lambda>i. if k \<le> i \<and> i < n then fir_sum fadd fmul input coeffs i m (out ! i) else out ! i) [0..<length out])"
  using assms(3,4)
proof (induction "n - k" arbitrary: k out)
  case 0
  then have "n = k" by simp
  then show ?case by simp (rule nth_equalityI; auto)
next
  case (Suc d)
  then have k: "k < n" "[k..<n] = k # [Suc k..<n]" by (simp_all add: upt_conv_Cons)
  let ?out = "out[k := fir_sum fadd fmul input coeffs k m (out ! k)]"
  have i: "fir_inner fadd fmul input coeffs k [0..<m] out = Some ?out"
    using Suc.prems k assms by (intro fir_inner_sum) auto
  have "fir_outer fadd fmul input coeffs m [k..<n] out = fir_outer fadd fmul input coeffs m [Suc k..<n] ?out"
    by (simp add: k(2) i)
  also have "\<dots> = Some (map (\<lambda>i. if Suc k \<le> i \<and> i < n then fir_sum fadd fmul input coeffs i m (?out ! i) else ?out ! i)
      [0..<length ?out])"
    using Suc.hyps(2) Suc.prems k by (intro Suc.hyps(1)) auto
  also have "map (\<lambda>i. if Suc k \<le> i \<and> i < n then fir_sum fadd fmul input coeffs i m (?out ! i) else ?out ! i)
      [0..<length ?out] = map (\<lambda>i. if k \<le> i \<and> i < n then fir_sum fadd fmul input coeffs i m (out ! i) else out ! i) [0..<length out]"
    using k Suc.prems by (auto simp: nth_list_update)
  finally show ?case .
qed

lemma fir_load_ops:
  assumes "\<forall>i\<in>set is. i < length xs"
  shows "fir_load (\<lambda>x. fir_cmd unit x c) xs is ops =
    Some (ops @ map (\<lambda>i. \<lparr>op_func3 = 2, op_func7 = 1, op_rs1 = xs ! i, op_rs2 = c\<rparr>) is)"
  using assms
proof (induction "is" arbitrary: ops)
  case (Cons i js)
  then show ?case by (simp add: at_def fir_cmd_def opcode_R_def Let_def)
qed simp

lemma fir_clear_fits:
  "\<forall>i\<in>set is. i < length out \<Longrightarrow> \<exists>out'. fir_clear is out = Some out' \<and> length out' = length out"
proof (induction "is" arbitrary: out)
  case (Cons i js)
  have "\<exists>out'. fir_clear js (out[i := 0]) = Some out' \<and> length out' = length (out[i := 0])"
    by (rule Cons.IH) (use Cons.prems in simp)
  with Cons.prems show ?case by (simp add: put_def)
qed simp

lemma fir_clear_nth:
  "fir_clear is out = Some out' \<Longrightarrow> i \<notin> set is \<Longrightarrow> out' ! i = out ! i"
  by (induction "is" arbitrary: out) (auto simp: put_def bind_Some_iff split: if_splits)

definition pop_op :: custom_op where
  "pop_op = \<lparr>op_func3 = 2, op_func7 = 1, op_rs1 = 0, op_rs2 = 14\<rparr>"

lemma fir_drain_pops:
  assumes "k \<le> n" "n \<le> length out"
  shows "fir_drain unit [k..<n] out ops = Some (map (\<lambda>i. if k \<le> i \<and> i < n
      then unit (ops @ replicate (Suc (i - k)) pop_op) else out ! i) [0..<length out], ops @ replicate (n - k) pop_op)"
  using assms
proof (induction "n - k" arbitrary: k out ops)
  case 0
  then have "n = k" by simp
  then show ?case by simp (rule nth_equalityI; auto)
next
  case (Suc d)
  then have k: "k < n" "[k..<n] = k # [Suc k..<n]" by (simp_all add: upt_conv_Cons)
  let ?v = "unit (ops @ [pop_op])"
  have p: "fir_fifo_pop unit ops = (?v, ops @ [pop_op])"
    by (simp add: fir_fifo_pop_def fir_cmd_def opcode_R_def pop_op_def Let_def)
  have "fir_drain unit [k..<n] out ops = fir_drain unit [Suc k..<n] (out[k := ?v]) (ops @ [pop_op])"
    using k Suc.prems by (simp add: p put_def)
  also have "\<dots> = Some (map (\<lambda>i. if Suc k \<le> i \<and> i < n
      then unit ((ops @ [pop_op]) @ replicate (Suc (i - Suc k)) pop_op) else out[k := ?v] ! i) [0..<length (out[k := ?v])],
      (ops @ [pop_op]) @ replicate (n - Suc k) pop_op)"
    using Suc.hyps(2) Suc.prems k by (intro Suc.hyps(1)) auto
  also have "(ops @ [pop_op]) @ replicate (n - Suc k) pop_op = ops @ replicate (n - k) pop_op"
    using k(1) by (simp add: Suc_diff_Suc [symmetric])
  also have "map (\<lambda>i. if Suc k \<le> i \<and> i < n
      then unit ((ops @ [pop_op]) @ replicate (Suc (i - Suc k)) pop_op) else out[k := ?v] ! i) [0..<length (out[k := ?v])]
    = map (\<lambda>i. if k \<le> i \<and> i < n then unit (ops @ replicate (Suc (i - k)) pop_op) else out ! i) [0..<length out]"
    using k by (auto simp: nth_list_update Suc_diff_Suc)
  finally show ?case .
qed

definition fir_script :: "u32 list \<Rightarrow> u32 list \<Rightarrow> nat \<Rightarrow> nat \<Rightarrow> custom_op list" where
  "fir_script input coeffs n m =
     (let f = \<lambda>x c. \<lparr>op_func3 = 2, op_func7 = 1, op_rs1 = x, op_rs2 = c\<rparr> in
      [f 0 10] @ map (\<lambda>x. f x 11) (take m coeffs) @ map (\<lambda>x. f x 12) (take n input) @ [f 0 13])"

lemma map_nth_take: "m \<le> length xs \<Longrightarrow> map (\<lambda>i. f (xs ! i)) [0..<m] = map f (take m xs)"
  by (rule nth_equalityI) simp_all

lemma map_nth_op:
  "m \<le> length xs \<Longrightarrow> map (\<lambda>i. \<lparr>op_func3 = a, op_func7 = b, op_rs1 = xs ! i, op_rs2 = c\<rparr>) [0..<m] =
     map (\<lambda>x. \<lparr>op_func3 = a, op_func7 = b, op_rs1 = x, op_rs2 = c\<rparr>) (take m xs)"
  by (rule map_nth_take)

text \<open>
  With arrays long enough, the software filter adds to each output entry the products of the
  convolution in order of the coefficients and leaves the rest alone; the accelerated filter
  executes reset, the weights, the samples and start in this order and returns the unit's next n
  results.
\<close>
theorem fir_filters:
  assumes "m \<le> length coeffs" "n \<le> length input" "n \<le> length out"
    "m \<le> length wcoeffs" "n \<le> length winput" "n \<le> length wout" "m \<le> length wout"
  shows "fir_sw fadd fmul input coeffs out n m =
      Some (map (\<lambda>i. if i < n then fir_sum fadd fmul input coeffs i m (out ! i) else out ! i) [0..<length out]) \<and>
    (\<exists>res. fir_hw unit winput wcoeffs wout n m ops = Some (res, ops @ fir_script winput wcoeffs n m @ replicate n pop_op) \<and>
       take n res = map (\<lambda>i. unit (ops @ fir_script winput wcoeffs n m @ replicate (Suc i) pop_op)) [0..<n] \<and>
       drop (max n m) res = drop (max n m) wout)"
proof
  show "fir_sw fadd fmul input coeffs out n m =
      Some (map (\<lambda>i. if i < n then fir_sum fadd fmul input coeffs i m (out ! i) else out ! i) [0..<length out])"
    using fir_outer_sum [OF assms(1-3), of 0] by (simp add: fir_sw_def)
  obtain out' where c: "fir_clear [0..<m] wout = Some out'" "length out' = length wout"
    using fir_clear_fits [of "[0..<m]" wout] assms(7) by auto
  let ?ops = "ops @ fir_script winput wcoeffs n m"
  have w: "fir_weight unit = (\<lambda>x. fir_cmd unit x 11)" "fir_fifo_push unit = (\<lambda>x. fir_cmd unit x 12)"
    by (simp_all add: fun_eq_iff fir_weight_def fir_fifo_push_def)
  have b: "\<forall>i\<in>set [0..<m]. i < length wcoeffs" "\<forall>i\<in>set [0..<n]. i < length winput" using assms by auto
  have s: "fir_hw unit winput wcoeffs wout n m ops = fir_drain unit [0..<n] out' ?ops"
    by (simp add: fir_hw_def w fir_load_ops [OF b(1)] fir_load_ops [OF b(2)] c fir_reset_def fir_begin_def)
       (simp add: fir_cmd_def opcode_R_def fir_script_def Let_def map_nth_op assms)
  have "out' ! i = wout ! i" if "m \<le> i" for i using fir_clear_nth [OF c(1)] that by simp
  then show "\<exists>res. fir_hw unit winput wcoeffs wout n m ops = Some (res, ops @ fir_script winput wcoeffs n m @ replicate n pop_op) \<and>
       take n res = map (\<lambda>i. unit (ops @ fir_script winput wcoeffs n m @ replicate (Suc i) pop_op)) [0..<n] \<and>
       drop (max n m) res = drop (max n m) wout"
    using fir_drain_pops [of 0 n out' unit ?ops] assms(6) c(2)
    by (auto simp: s intro!: nth_equalityI)
qed

theorem fir_filters_witness:
  "fir_sw (+) (*) [1, 2] [3] [0, 0] 2 1 =
      Some (map (\<lambda>i. if i < 2 then fir_sum (+) (*) [1, 2 :: int] [3] i 1 ([0, 0] ! i) else [0, 0] ! i) [0..<length [0 :: int, 0]]) \<and>
    (\<exists>res. fir_hw (\<lambda>ops. 7) [1, 2] [3] [0, 0] 2 1 [] = Some (res, [] @ fir_script [1, 2] [3] 2 1 @ replicate 2 pop_op) \<and>
       take 2 res = map (\<lambda>i. 7) [0..<2] \<and> drop (max 2 1) res = drop (max 2 1) [0, 0])"
  using fir_filters [of 1 "[3]" 2 "[1, 2]" "[0, 0 :: int]" "[3]" "[1, 2]" "[0, 0]" "(+)" "(*)" "\<lambda>ops. 7" "[]"] by simp

section \<open>The instruction word carries its fields\<close>

lemma bit_opcode_R_word:
  "bit (opcode_R_word opcode func3 func7 rd rs1 rs2) n \<longleftrightarrow> n < 32 \<and> (bit opcode n \<or> (7 \<le> n \<and> bit rd (n - 7)) \<or>
     (15 \<le> n \<and> bit rs1 (n - 15)) \<or> (20 \<le> n \<and> bit rs2 (n - 20)) \<or> (12 \<le> n \<and> bit func3 (n - 12)) \<or> (25 \<le> n \<and> bit func7 (n - 25)))"
  by (auto simp: opcode_R_word_def bit_simps dest: bit_imp_le_length)

lemma opcode_R_fields:
  assumes "\<And>n. bit opcode n \<Longrightarrow> n < 7" "\<And>n. bit rd n \<Longrightarrow> n < 5" "\<And>n. bit func3 n \<Longrightarrow> n < 3"
    "\<And>n. bit rs1 n \<Longrightarrow> n < 5" "\<And>n. bit rs2 n \<Longrightarrow> n < 5" "\<And>n. bit func7 n \<Longrightarrow> n < 7"
  defines "word \<equiv> opcode_R_word opcode func3 func7 rd rs1 rs2"
  shows "take_bit 7 (drop_bit 0 word) = opcode" "take_bit 5 (drop_bit 7 word) = rd" "take_bit 3 (drop_bit 12 word) = func3"
    "take_bit 5 (drop_bit 15 word) = rs1" "take_bit 5 (drop_bit 20 word) = rs2" "take_bit 7 (drop_bit 25 word) = func7"
proof -
  note b = assms(1-6)
  have n: "\<not> bit opcode k" if "7 \<le> k" for k using b(1) [of k] that by auto
  have r: "\<not> bit rd k" if "5 \<le> k" for k using b(2) [of k] that by auto
  have t: "\<not> bit func3 k" if "3 \<le> k" for k using b(3) [of k] that by auto
  have x: "\<not> bit rs1 k" if "5 \<le> k" for k using b(4) [of k] that by auto
  have y: "\<not> bit rs2 k" if "5 \<le> k" for k using b(5) [of k] that by auto
  have in_word: "bit rd k \<Longrightarrow> k < 25" "bit func3 k \<Longrightarrow> k < 20" "bit rs1 k \<Longrightarrow> k < 17" "bit rs2 k \<Longrightarrow> k < 12" for k
    using b(2) [of k] b(3) [of k] b(4) [of k] b(5) [of k] by linarith+
  show "take_bit 7 (drop_bit 0 word) = opcode"
    by (rule bit_word_eqI)
       (use n r t x y b in_word in \<open>auto simp: bit_take_bit_iff bit_drop_bit_eq word_def bit_opcode_R_word not_less\<close>)
  show "take_bit 5 (drop_bit 7 word) = rd"
    by (rule bit_word_eqI)
       (use n r t x y b in_word in \<open>auto simp: bit_take_bit_iff bit_drop_bit_eq word_def bit_opcode_R_word not_less\<close>)
  show "take_bit 3 (drop_bit 12 word) = func3"
    by (rule bit_word_eqI)
       (use n r t x y b in_word in \<open>auto simp: bit_take_bit_iff bit_drop_bit_eq word_def bit_opcode_R_word not_less\<close>)
  show "take_bit 5 (drop_bit 15 word) = rs1"
    by (rule bit_word_eqI)
       (use n r t x y b in_word in \<open>auto simp: bit_take_bit_iff bit_drop_bit_eq word_def bit_opcode_R_word not_less\<close>)
  show "take_bit 5 (drop_bit 20 word) = rs2"
    by (rule bit_word_eqI)
       (use n r t x y b in_word in \<open>auto simp: bit_take_bit_iff bit_drop_bit_eq word_def bit_opcode_R_word not_less\<close>)
  show "take_bit 7 (drop_bit 25 word) = func7"
    by (rule bit_word_eqI)
       (use n r t x y b in_word in \<open>auto simp: bit_take_bit_iff bit_drop_bit_eq word_def bit_opcode_R_word not_less\<close>)
qed

end
