(* ===== verification/CamI2c.thy ===== *)
theory CamI2c
  imports CText
begin

text \<open>
  The camera settings of the camera web server: package/evsoc_camera/src/i2c.c and cam_ops.c with
  their headers.  The files of the I2C buses are a parameter, a record of functions from the log of
  the calls made so far to the next result; \<open>None\<close> is a store through a failed malloc.
\<close>

unbundle bit_operations_syntax

section \<open>User-space I2C\<close>

datatype ui2c_event = IOpen string int | ISlave int u16 int | IRead int nat | IWrite int "u8 list" int | IClose int

type_synonym ui2c_log = "ui2c_event list"

record ui2c =
  ui_open :: "ui2c_log \<Rightarrow> string \<Rightarrow> int"
  ui_slave :: "ui2c_log \<Rightarrow> u16 \<Rightarrow> int"
  ui_read :: "ui2c_log \<Rightarrow> nat \<Rightarrow> int"
  ui_bytes :: "ui2c_log \<Rightarrow> nat \<Rightarrow> u8"
  ui_write :: "ui2c_log \<Rightarrow> u8 list \<Rightarrow> int"
  ui_malloc :: "ui2c_log \<Rightarrow> nat \<Rightarrow> bool"

record i2c_device =
  id_filename :: string
  id_addr :: u16
  id_fd :: int
  id_bus :: nat

definition i2c_read :: "ui2c \<Rightarrow> i2c_device \<Rightarrow> nat \<Rightarrow> ui2c_log \<Rightarrow> int \<times> u8 list \<times> ui2c_log" where
  "i2c_read w dev buf_len l =
     (let r = ui_read w l buf_len in
      (r, map (ui_bytes w l) [0..<min (nat r) buf_len], l @ [IRead (id_fd dev) buf_len]))"

definition i2c_write :: "ui2c \<Rightarrow> i2c_device \<Rightarrow> u8 list \<Rightarrow> ui2c_log \<Rightarrow> int \<times> ui2c_log" where
  "i2c_write w dev buf l = (let r = ui_write w l buf in (r, l @ [IWrite (id_fd dev) buf r]))"

definition i2c_read_reg8 :: "ui2c \<Rightarrow> i2c_device \<Rightarrow> u8 \<Rightarrow> nat \<Rightarrow> ui2c_log \<Rightarrow> int \<times> u8 list \<times> ui2c_log" where
  "i2c_read_reg8 w dev reg buf_len l =
     (let (rc, l) = i2c_write w dev [reg] l in
      if rc \<le> 0 then (rc, [], l) else i2c_read w dev buf_len l)"

text \<open>Both write helpers store through the result of malloc without a test.\<close>

definition i2c_writen_reg :: "ui2c \<Rightarrow> i2c_device \<Rightarrow> u8 \<Rightarrow> u8 list \<Rightarrow> ui2c_log \<Rightarrow> (int \<times> ui2c_log) option" where
  "i2c_writen_reg w dev reg buf l =
     (let full_buf_len = length buf + 1 in
      if \<not> ui_malloc w l full_buf_len then None
      else Some (i2c_write w dev (reg # buf) l))"

definition i2c_writen :: "ui2c \<Rightarrow> i2c_device \<Rightarrow> u8 list \<Rightarrow> u8 list \<Rightarrow> ui2c_log \<Rightarrow> (int \<times> ui2c_log) option" where
  "i2c_writen w dev reg buf l =
     (let full_buf_len = length buf + 2 in
      if \<not> ui_malloc w l full_buf_len then None
      else Some (i2c_write w dev ([reg ! 0, reg ! 1] @ buf) l))"

definition i2c_readn :: "ui2c \<Rightarrow> i2c_device \<Rightarrow> u8 list \<Rightarrow> u8 list \<Rightarrow> ui2c_log \<Rightarrow> (int \<times> u8 list \<times> ui2c_log) option" where
  "i2c_readn w dev reg buf l = do {
     (rc, l) \<leftarrow> i2c_writen w dev reg buf l;
     if rc \<noteq> 0 then Some (rc, buf, l)
     else (let (rc, bytes, l) = i2c_read w dev (length buf) l in
           Some (rc, bytes @ drop (length bytes) buf, l))
   }"

definition i2c_start :: "ui2c \<Rightarrow> i2c_device \<Rightarrow> ui2c_log \<Rightarrow> int \<times> i2c_device \<times> ui2c_log" where
  "i2c_start w dev l =
     (let fd = ui_open w l (id_filename dev); l = l @ [IOpen (id_filename dev) fd] in
      if fd < 0 then (fd, dev, l)
      else let rc = ui_slave w l (id_addr dev); l = l @ [ISlave fd (id_addr dev) rc] in
        if rc < 0 then (rc, dev, l @ [IClose fd])
        else let n = ui_read w l 1; l = l @ [IRead fd 1] in
          if n \<noteq> 1 then (1, dev, l @ [IClose fd])
          else (0, dev\<lparr>id_fd := fd\<rparr>, l))"

section \<open>Camera settings\<close>

definition IMX708_I2C_ADDRESS :: u16 where "IMX708_I2C_ADDRESS = 0x1A"
definition IMX708_REG_EXPOSURE :: u16 where "IMX708_REG_EXPOSURE = 0x0202"
definition IMX708_REG_DIGITAL_GAIN :: u16 where "IMX708_REG_DIGITAL_GAIN = 0x020e"

definition bus_file :: "nat \<Rightarrow> string" where
  "bus_file b = ''/dev/i2c-'' @ digits b"

fun scan_buses :: "ui2c \<Rightarrow> nat list \<Rightarrow> i2c_device \<Rightarrow> ui2c_log \<Rightarrow> int \<times> i2c_device \<times> ui2c_log" where
  "scan_buses w [] dev l = (1, dev, l)"
| "scan_buses w (b # bs) dev l =
     (let (ret, dev, l) = i2c_start w (dev\<lparr>id_filename := bus_file b\<rparr>) l in
      if ret = 0 then (0, dev\<lparr>id_bus := b\<rparr>, l) else scan_buses w bs dev l)"

definition check_camera_i2c_bus :: "ui2c \<Rightarrow> i2c_device \<Rightarrow> ui2c_log \<Rightarrow> int \<times> i2c_device \<times> ui2c_log" where
  "check_camera_i2c_bus w dev l = scan_buses w [0..<3] dev l"

text \<open>The device is a local variable: \<open>fd\<close> starts indeterminate and is given by \<open>junk\<close>.\<close>

definition local_device :: "u16 \<Rightarrow> string \<Rightarrow> int \<Rightarrow> i2c_device" where
  "local_device addr filename junk = \<lparr>id_filename = filename, id_addr = addr, id_fd = junk, id_bus = 0\<rparr>"

definition set_camera_setting :: "ui2c \<Rightarrow> int \<Rightarrow> u16 \<Rightarrow> u16 \<Rightarrow> u8 \<Rightarrow> ui2c_log \<Rightarrow> (int \<times> ui2c_log) option" where
  "set_camera_setting w junk addr regs data l =
     (let (ret, dev, l) = check_camera_i2c_bus w (local_device addr [] junk) l in
      if ret \<noteq> 0 then Some (ret, l)
      else do {
        let reg = [ucast (drop_bit 8 regs AND 0xFF), ucast (regs AND 0xFF)];
        (ret, l) \<leftarrow> i2c_writen w dev reg [data] l;
        if ret \<le> 0 then Some (ret, l) else Some (0, l)
      })"

definition camera_set_digital_gain :: "ui2c \<Rightarrow> int \<Rightarrow> u8 \<Rightarrow> ui2c_log \<Rightarrow> (int \<times> ui2c_log) option" where
  "camera_set_digital_gain w junk data l =
     set_camera_setting w junk IMX708_I2C_ADDRESS IMX708_REG_DIGITAL_GAIN data l"

definition camera_set_exposure :: "ui2c \<Rightarrow> int \<Rightarrow> u8 \<Rightarrow> ui2c_log \<Rightarrow> (int \<times> ui2c_log) option" where
  "camera_set_exposure w junk data l =
     set_camera_setting w junk IMX708_I2C_ADDRESS IMX708_REG_EXPOSURE data l"

definition set_actuator :: "ui2c \<Rightarrow> int \<Rightarrow> u8 \<Rightarrow> ui2c_log \<Rightarrow> (int \<times> ui2c_log) option" where
  "set_actuator w junk data l =
     (let (ret, dev, l) = i2c_start w (local_device 0x0c ''/dev/i2c-0'' junk) l in do {
        (ret, l) \<leftarrow> i2c_writen_reg w dev 0x02 [data] l;
        if ret \<noteq> 0 then Some (ret, l) else Some (0, l)
      })"

definition set_camera_focus :: "ui2c \<Rightarrow> int \<Rightarrow> u16 \<Rightarrow> ui2c_log \<Rightarrow> (int \<times> ui2c_log) option" where
  "set_camera_focus w junk data l =
     (let (ret, dev, l) = i2c_start w (local_device 0x0c ''/dev/i2c-0'' junk) l in do {
        let temp = [ucast (drop_bit 8 data AND 0x03), ucast (data AND 0xff)];
        (ret, l) \<leftarrow> i2c_writen w dev [0x03, 0x04] temp l;
        if ret \<le> 0 then Some (ret, l) else Some (0, l)
      })"

definition read_camera_data :: "ui2c \<Rightarrow> int \<Rightarrow> ui2c_log \<Rightarrow> (int \<times> ui2c_log) option" where
  "read_camera_data w junk l =
     (let reg = [ucast IMX708_REG_EXPOSURE, ucast (drop_bit 8 IMX708_REG_EXPOSURE)];
          (ret, dev, l) = i2c_start w (local_device IMX708_I2C_ADDRESS (bus_file 0) junk) l in
      if ret \<noteq> 0 then Some (ret, l)
      else do {
        (ret, buf, l) \<leftarrow> i2c_readn w dev reg [0] l;
        if ret \<noteq> 0 then Some (ret, l) else Some (0, l)
      })"

lemma ucast_u8_masked16: "(ucast (x AND 0xFF :: u16) :: u8) = ucast x"
proof -
  have m: "(0xFF :: u16) = mask 8" by (simp add: mask_eq_exp_minus_1)
  show ?thesis unfolding m by (rule bit_word_eqI) (simp add: bit_simps)
qed

section \<open>What a setting sends\<close>

fun open_count :: "ui2c_log \<Rightarrow> int" where
  "open_count [] = 0"
| "open_count (IOpen f fd # l) = (if fd < 0 then 0 else 1) + open_count l"
| "open_count (IClose fd # l) = open_count l - 1"
| "open_count (e # l) = open_count l"

definition writes_of :: "ui2c_log \<Rightarrow> (int \<times> u8 list) list" where
  "writes_of l = concat (map (\<lambda>e. case e of IWrite fd b r \<Rightarrow> [(fd, b)] | _ \<Rightarrow> []) l)"

lemma open_count_append [simp]: "open_count (a @ b) = open_count a + open_count b"
  by (induction a rule: open_count.induct) simp_all

lemma writes_of_append [simp]: "writes_of (a @ b) = writes_of a @ writes_of b"
  by (simp add: writes_of_def)

lemma i2c_start_result:
  assumes "i2c_start w dev l = (ret, dev', l')"
  shows "open_count l' = open_count l + (if ret = 0 then 1 else 0) \<and> writes_of l' = writes_of l \<and>
    id_addr dev' = id_addr dev \<and> (if ret = 0 then 0 \<le> id_fd dev' else dev' = dev)"
  using assms by (auto simp: i2c_start_def Let_def writes_of_def split: if_splits)

lemma scan_buses_result:
  assumes "scan_buses w bs dev l = (ret, dev', l')"
  shows "(ret = 0 \<or> ret = 1) \<and> open_count l' = open_count l + (if ret = 0 then 1 else 0) \<and>
    writes_of l' = writes_of l \<and> id_addr dev' = id_addr dev \<and> (ret = 0 \<longrightarrow> id_bus dev' \<in> set bs \<and> 0 \<le> id_fd dev')"
  using assms
proof (induction bs arbitrary: dev l)
  case (Cons b bs)
  obtain r d l1 where s: "i2c_start w (dev\<lparr>id_filename := bus_file b\<rparr>) l = (r, d, l1)" by (metis prod_cases3)
  note start = i2c_start_result [OF s]
  show ?case
  proof (cases "r = 0")
    case True
    then show ?thesis using Cons.prems s start by auto
  next
    case False
    then have "scan_buses w bs d l1 = (ret, dev', l')" using Cons.prems s by simp
    from Cons.IH [OF this] show ?thesis using start False by auto
  qed
qed simp

text \<open>
  A camera setting is written as its register address, high byte first, and its data byte, in one
  write to the first of three buses that answers, or not at all; the result is 1 when no
  bus answers, the result of a failing write, and 0 otherwise.  A call that found a bus
  leaves one more descriptor open, one that did not leaves none.
\<close>
theorem set_camera_setting_writes:
  assumes "\<forall>l n. ui_malloc w l n"
  shows "\<exists>ret l'. set_camera_setting w junk addr regs data l = Some (ret, l') \<and>
    (if fst (check_camera_i2c_bus w (local_device addr [] junk) l) = 0
     then open_count l' = open_count l + 1 \<and>
          (\<exists>fd r l1. 0 \<le> fd \<and> l' = l1 @ [IWrite fd [ucast (drop_bit 8 regs), ucast regs, data] r] \<and>
             writes_of l1 = writes_of l \<and> ret = min r 0)
     else ret = 1 \<and> open_count l' = open_count l \<and> writes_of l' = writes_of l)"
proof -
  obtain r d l1 where c: "check_camera_i2c_bus w (local_device addr [] junk) l = (r, d, l1)" by (metis prod_cases3)
  note scan = scan_buses_result [OF c [unfolded check_camera_i2c_bus_def]]
  have b: "(ucast (drop_bit 8 regs AND 0xFF) :: u8) = ucast (drop_bit 8 regs)" "(ucast (regs AND 0xFF) :: u8) = ucast regs"
    by (rule ucast_u8_masked16)+
  show ?thesis
  proof (cases "r = 0")
    case True
    then show ?thesis using c scan assms
      by (simp add: set_camera_setting_def i2c_writen_def i2c_write_def Let_def b)
  next
    case False
    then show ?thesis using c scan by (simp add: set_camera_setting_def)
  qed
qed

definition demo_ui2c :: ui2c where
  "demo_ui2c = \<lparr>ui_open = (\<lambda>l f. if f = bus_file 0 then - 2 else 4), ui_slave = (\<lambda>l a. 0), ui_read = (\<lambda>l n. 1),
     ui_bytes = (\<lambda>l n. 0), ui_write = (\<lambda>l b. int (length b)), ui_malloc = (\<lambda>l n. True)\<rparr>"

theorem set_camera_setting_writes_witness:
  "\<exists>ret l'. set_camera_setting demo_ui2c 0 0x1A 0x0202 7 [] = Some (ret, l') \<and>
    (if fst (check_camera_i2c_bus demo_ui2c (local_device 0x1A [] 0) []) = 0
     then open_count l' = open_count [] + 1 \<and>
          (\<exists>fd r l1. 0 \<le> fd \<and> l' = l1 @ [IWrite fd [ucast (drop_bit 8 (0x0202 :: u16)), ucast (0x0202 :: u16), 7] r] \<and>
             writes_of l1 = writes_of [] \<and> ret = min r 0)
     else ret = 1 \<and> open_count l' = open_count [] \<and> writes_of l' = writes_of [])"
  by (rule set_camera_setting_writes) (simp add: demo_ui2c_def)

end
