(* ===== verification/CamServer.thy ===== *)
theory CamServer
  imports CText
begin

text \<open>
  The request side of the camera web server, package/evsoc_camera/src/main.c: the parsing of
  requests, the list of pictures, its pages and their JSON text, the request handler and the taking
  of pictures.  \<open>None\<close> is an access outside a buffer or a conversion C leaves undefined.  The
  web server library Mongoose and the directory are what the definitions receive as arguments.
\<close>

unbundle bit_operations_syntax

section \<open>Requests\<close>

text \<open>\<open>while (buf[++i] != c);\<close> from \<open>i\<close>; past the end of the buffer is \<open>None\<close>.\<close>

function scan_for :: "string \<Rightarrow> char \<Rightarrow> nat \<Rightarrow> nat option" where
  "scan_for buf c i =
     (if Suc i < length buf then if buf ! Suc i = c then Some (Suc i) else scan_for buf c (Suc i) else None)"
  by pat_completeness auto
termination by (relation "measure (\<lambda>(buf, c, i). length buf - i)") auto

declare scan_for.simps [simp del]

definition VALUE_SIZE :: nat where "VALUE_SIZE = 257"

text \<open>A zero-filled buffer of \<open>n\<close> bytes after \<open>strncpy (buf, body, body_len)\<close>.\<close>

definition parse_json :: "nat \<Rightarrow> string \<Rightarrow> string option" where
  "parse_json n body =
     (if n < length body then None
      else Some (cstr body @ replicate (n - length (cstr body)) CHR 0x00))"

text \<open>
  The string left in \<open>value\<close>.  A count of zero leaves \<open>value\<close> empty; a negative count would be a
  size beyond what snprintf accepts, and a value that does not fit overruns \<open>value\<close>.
\<close>

definition get_json_value :: "string \<Rightarrow> string option" where
  "get_json_value json = do {
     len \<leftarrow> scan_for json CHR 0x00 0;
     i \<leftarrow> scan_for json CHR '':'' 0;
     let n = int len - int i - 1;
     if n < 0 then None
     else let value = (if n = 0 then [] else snprintf_str (nat n) (cstr (drop (i + 1) json))) in
       if length value < VALUE_SIZE then Some value else None
   }"

text \<open>A number outside the range of \<open>int\<close> is undefined for \<open>atoi\<close>.\<close>

definition get_json_value_int :: "string \<Rightarrow> int option" where
  "get_json_value_int json = do {
     value \<leftarrow> get_json_value json;
     let value = (case value of c # r \<Rightarrow> if c = CHR 0x22 then r else value | [] \<Rightarrow> value);
     let val = atoi value;
     if - (2 ^ 31) \<le> val \<and> val < 2 ^ 31 then Some val else None
   }"

definition request_int :: "nat \<Rightarrow> string \<Rightarrow> int option" where
  "request_int n body = Option.bind (parse_json n body) get_json_value_int"

section \<open>The picture list\<close>

definition IMAGE_PER_PAGE :: nat where "IMAGE_PER_PAGE = 4"
definition IMG_NAME :: nat where "IMG_NAME = 15"
definition RESPOND_SIZE :: nat where "RESPOND_SIZE = 256"

fun get_list_length :: "string list \<Rightarrow> nat" where
  "get_list_length [] = 0"
| "get_list_length (x # xs) = get_list_length xs + 1"

definition append_list :: "bool \<Rightarrow> string \<Rightarrow> string list \<Rightarrow> string list" where
  "append_list alloc filename head = (if \<not> alloc then head else snprintf_str IMG_NAME filename # head)"

text \<open>The entries of the image directory that match *.jpg are added one by one.\<close>

fun get_list :: "string list \<Rightarrow> string list \<Rightarrow> string list" where
  "get_list [] head = head"
| "get_list (d # ds) head =
     get_list ds (if drop (length d - 4) d = ''.jpg'' then append_list True d head else head)"

definition get_total_pages :: "string list \<Rightarrow> nat" where
  "get_total_pages head =
     (let n = get_list_length head in
      if 0 < n then (let pages = n div IMAGE_PER_PAGE in if 0 < n mod IMAGE_PER_PAGE then pages + 1 else pages)
      else 1)"

definition strncat_to :: "nat \<Rightarrow> string \<Rightarrow> string \<Rightarrow> string" where
  "strncat_to n dst src = dst @ take (n - length dst - 1) src"

fun join_items :: "string list \<Rightarrow> string \<Rightarrow> string" where
  "join_items [] item_str = item_str"
| "join_items (x # xs) item_str =
     (let temp = snprintf_str 256 ([CHR 0x22] @ x @ [CHR 0x22]);
          item_str = strncat_to 256 item_str temp;
          item_str = (if xs \<noteq> [] then strncat_to 256 item_str '', '' else item_str)
      in join_items xs item_str)"

definition create_json_string :: "string list \<Rightarrow> nat \<Rightarrow> nat \<Rightarrow> string" where
  "create_json_string items respond_size total_pages =
     snprintf_str respond_size ([CHR ''{''] @ [CHR 0x22] @ ''capture'' @ [CHR 0x22] @ '': ['' @ join_items items []
       @ ''], '' @ [CHR 0x22] @ ''page'' @ [CHR 0x22] @ '': '' @ decimal (int total_pages) @ [CHR ''}''])"

definition update_page :: "string list \<Rightarrow> string" where
  "update_page head = create_json_string (take IMAGE_PER_PAGE head) RESPOND_SIZE (get_total_pages head)"

fun page_loop :: "int \<Rightarrow> string list \<Rightarrow> int \<Rightarrow> string list \<Rightarrow> string list" where
  "page_loop page [] i items = items"
| "page_loop page (name # head) i items =
     page_loop page head (i + 1)
       (if page * 4 - 4 \<le> i \<and> i < page * 4 then items @ [name] else items)"

text \<open>The bounds of the page are computed in \<open>int\<close>.\<close>

definition get_page :: "string list \<Rightarrow> int \<Rightarrow> string option" where
  "get_page head page =
     (if head \<noteq> [] \<and> \<not> (- (2 ^ 31) \<le> page * 4 - 4 \<and> page * 4 < 2 ^ 31) then None
      else Some (create_json_string (page_loop page head 0 []) RESPOND_SIZE (get_total_pages head)))"

definition decimal04i :: "int \<Rightarrow> string" where
  "decimal04i i = (if i < 0 then [CHR ''-''] @ replicate (3 - length (digits (nat (- i)))) CHR ''0'' @ digits (nat (- i))
                   else decimal04 (nat i))"

section \<open>The server\<close>

datatype hw_accel_cmd = HW_ACCEL_NONE | HW_ACCEL_EROSION | HW_ACCEL_DIALATION | HW_ACCEL_SOBEL

record web_dev =
  hw_cmd :: hw_accel_cmd
  hw_enable :: bool
  sw_grayscale :: int
  capture :: int
  img_list :: "string list"

datatype web_effect = Reply string | Saved string | StreamHeader | Gain u8 | Exposure u8 | HelloChunk | ServeDir

text \<open>\<open>files\<close> is the content of the image directory.\<close>

definition on_load :: "string list \<Rightarrow> string \<Rightarrow> web_dev \<Rightarrow> (web_dev \<times> web_effect list) option" where
  "on_load files body dev = do {
     current_page \<leftarrow> request_int 1024 body;
     let dev = (if img_list dev = [] then dev\<lparr>img_list := get_list files []\<rparr> else dev);
     let total_pages = get_total_pages (img_list dev);
     let current_page = (if current_page > int total_pages then 1 else current_page);
     r \<leftarrow> get_page (img_list dev) current_page;
     Some (dev, [Reply r])
   }"

definition with_num :: "string \<Rightarrow> (int \<Rightarrow> (web_dev \<times> web_effect list) option) \<Rightarrow> (web_dev \<times> web_effect list) option" where
  "with_num body f = Option.bind (request_int 256 body) f"

definition handle_request ::
  "string list \<Rightarrow> string \<Rightarrow> string \<Rightarrow> string \<Rightarrow> web_dev \<Rightarrow> (web_dev \<times> web_effect list) option" where
  "handle_request files uri meth body dev =
    (if uri = ''/api/camera'' then Some (dev, [StreamHeader])
     else if uri = ''/load'' then on_load files body dev
     else if uri = ''/btn_capture'' then
       with_num body (\<lambda>num. Some (if num = 1 then dev\<lparr>capture := 1\<rparr> else dev, []))
     else if uri = ''/btn_normal'' then
       with_num body (\<lambda>num. Some (if num = 1 then dev\<lparr>hw_cmd := HW_ACCEL_NONE, sw_grayscale := 0\<rparr> else dev, []))
     else if uri = ''/btn_sw_grayscale'' then
       with_num body (\<lambda>num. Some (if num = 1 then dev\<lparr>sw_grayscale := 1\<rparr> else dev, []))
     else if uri = ''/btn_erosion'' then
       with_num body (\<lambda>num. Some (if num = 1 then dev\<lparr>hw_cmd := HW_ACCEL_EROSION, sw_grayscale := 0\<rparr> else dev, []))
     else if meth = ''POST'' then
       (if uri = ''/digital_gain'' then with_num body (\<lambda>num. Some (dev, [Gain (word_of_int num)]))
        else if uri = ''/exposure'' then with_num body (\<lambda>num. Some (dev, [Exposure (word_of_int num)]))
        else if uri = ''/btn_next'' \<or> uri = ''/btn_prev'' then
          with_num body (\<lambda>num. do { r \<leftarrow> get_page (img_list dev) num; Some (dev, [Reply r]) })
        else Some (dev, [HelloChunk]))
     else Some (dev, [ServeDir]))"

text \<open>
  Saving a picture.  The number of the newest one is read from the fifth character of its name on, so a
  shorter name is an access past its end.
\<close>

definition next_number :: "string list \<Rightarrow> int option" where
  "next_number head =
     (case head of
        [] \<Rightarrow> Some 0
      | name # r \<Rightarrow>
          if length name < 4 then None
          else let num = atoi (snprintf_str 5 (drop 4 name)) in Some (if num \<ge> 9999 then 0 else num + 1))"

definition web_root :: string where "web_root = ''/usr/share/evsoc_camera/web_root''"

definition capture_photo :: "bool \<Rightarrow> web_dev \<Rightarrow> (web_dev \<times> web_effect list) option" where
  "capture_photo dir_ok dev =
     (if \<not> dir_ok then Some (dev, [])
      else do {
        num \<leftarrow> next_number (img_list dev);
        let filename = snprintf_str IMG_NAME (''img_'' @ decimal04i num @ ''.jpg'');
        let dev = dev\<lparr>img_list := append_list True filename (img_list dev)\<rparr>;
        Some (dev, [Saved (web_root @ ''/images/'' @ filename), Reply (update_page (img_list dev))])
      })"

definition check_and_capture_photo :: "bool \<Rightarrow> web_dev \<Rightarrow> (web_dev \<times> web_effect list) option" where
  "check_and_capture_photo dir_ok dev =
     (if capture dev = 1 then do {
        (dev, eff) \<leftarrow> capture_photo dir_ok dev;
        Some (dev\<lparr>capture := 0\<rparr>, eff)
      } else Some (dev, []))"

section \<open>Parsing a request\<close>

lemma scan_for_eq:
  "scan_for buf c i = (let r = drop (Suc i) buf in
     if c \<in> set r then Some (Suc i + length (takeWhile (\<lambda>x. x \<noteq> c) r)) else None)"
proof (induction buf c i rule: scan_for.induct)
  case (1 buf c i)
  show ?case
  proof (cases "Suc i < length buf")
    case False
    then show ?thesis by (subst scan_for.simps) simp
  next
    case True
    then have d: "drop (Suc i) buf = buf ! Suc i # drop (Suc (Suc i)) buf" by (simp add: Cons_nth_drop_Suc)
    show ?thesis
    proof (cases "buf ! Suc i = c")
      case True
      then show ?thesis using \<open>Suc i < length buf\<close> by (subst scan_for.simps) (simp add: d)
    next
      case False
      then show ?thesis using \<open>Suc i < length buf\<close> 1 by (subst scan_for.simps) (auto simp: d Let_def)
    qed
  qed
qed

definition unquote :: "string \<Rightarrow> string" where
  "unquote value = (case value of c # r \<Rightarrow> if c = CHR 0x22 then r else value | [] \<Rightarrow> value)"

definition int_range :: "int \<Rightarrow> bool" where
  "int_range v \<longleftrightarrow> - (2 ^ 31) \<le> v \<and> v < 2 ^ 31"

lemma takeWhile_colon_append:
  "CHR '':'' \<in> set t \<Longrightarrow> takeWhile (\<lambda>x. x \<noteq> CHR '':'') (t @ r) = takeWhile (\<lambda>x. x \<noteq> CHR '':'') t"
  by (simp add: takeWhile_append1)

lemma get_json_value_padded:
  assumes "CHR 0x00 \<notin> set (x # t)" "0 < k"
  shows "get_json_value ((x # t) @ replicate k CHR 0x00) =
    (if CHR '':'' \<in> set t then
       let value = butlast (tl (dropWhile (\<lambda>c. c \<noteq> CHR '':'') t)) in
       if length value < VALUE_SIZE then Some value else None
     else None)"
proof -
  let ?json = "(x # t) @ replicate k CHR 0x00"
  have nul: "scan_for ?json CHR 0x00 0 = Some (Suc (length t))"
    using assms by (auto simp: scan_for_eq Let_def takeWhile_append takeWhile_eq_all_conv)
  show ?thesis
  proof (cases "CHR '':'' \<in> set t")
    case False
    then have "scan_for ?json CHR '':'' 0 = None" by (simp add: scan_for_eq Let_def)
    with False nul show ?thesis by (simp add: get_json_value_def)
  next
    case True
    obtain p a where t: "t = p @ CHR '':'' # a" "CHR '':'' \<notin> set p" using split_list_first [OF True] by blast
    have p: "takeWhile (\<lambda>x. x \<noteq> CHR '':'') (t @ replicate k CHR 0x00) = p" "dropWhile (\<lambda>c. c \<noteq> CHR '':'') t = CHR '':'' # a"
      using t by (simp_all add: takeWhile_append takeWhile_eq_all_conv dropWhile_append)
    have colon: "scan_for ?json CHR '':'' 0 = Some (Suc (length p))"
      using True p(1) by (simp add: scan_for_eq Let_def)
    have n: "int (Suc (length t)) - int (Suc (length p)) - 1 = int (length a)" by (simp add: t)
    have "cstr (a @ replicate k CHR 0x00) = a"
      using assms t by (cases k) (auto simp: cstr_no_NUL)
    then have c: "cstr (drop (Suc (length p) + 1) ?json) = a" by (simp add: t)
    have v: "(if int (length a) = 0 then [] else snprintf_str (nat (int (length a))) (cstr (drop (Suc (length p) + 1) ?json))) = butlast a"
      unfolding c by (auto simp: snprintf_str_def butlast_conv_take)
    show ?thesis using True
      unfolding get_json_value_def nul colon Option.bind.simps n Let_def v by (simp add: p(2))
  qed
qed

lemma request_int_exact_eq:
  assumes "CHR 0x00 \<notin> set body" "2 \<le> n"
  shows "request_int n body =
    (if length body < n \<and> CHR '':'' \<in> set (tl body) then
       let value = butlast (tl (dropWhile (\<lambda>c. c \<noteq> CHR '':'') (tl body))); v = atoi (unquote value) in
       if length value < VALUE_SIZE \<and> int_range v then Some v else None
     else None)"
proof -
  have c: "cstr body = body" using assms(1) by (rule cstr_no_NUL)
  consider "n < length body" | "length body = n" | "body = []" | x t where "body = x # t" "length body < n"
    by (cases body) (auto, linarith)
  then show ?thesis
  proof cases
    case 1
    then show ?thesis by (simp add: request_int_def parse_json_def)
  next
    case 2
    have "scan_for body CHR 0x00 0 = None" using assms(1) by (auto simp: scan_for_eq Let_def dest: in_set_dropD)
    with 2 c show ?thesis
      by (simp add: request_int_def parse_json_def get_json_value_int_def get_json_value_def)
  next
    case 3
    have "scan_for (replicate n CHR 0x00) CHR '':'' 0 = None" by (simp add: scan_for_eq Let_def)
    with 3 show ?thesis
      by (simp add: request_int_def parse_json_def get_json_value_int_def get_json_value_def cstr_def)
  next
    case 4
    then have "0 < n - length body" by simp
    from get_json_value_padded [OF assms(1) [unfolded 4(1)] this] show ?thesis
      using 4 c assms(1)
      by (simp add: request_int_def parse_json_def get_json_value_int_def unquote_def int_range_def Let_def
          cstr_no_NUL)
  qed
qed



text \<open>The bodies the web page sends: a key, a colon and a number, with or without quotes around it.\<close>

definition json_body :: "string \<Rightarrow> string \<Rightarrow> bool \<Rightarrow> int \<Rightarrow> string" where
  "json_body key gap quoted v =
     (let q = (if quoted then [CHR 0x22] else []) in
      [CHR ''{'', CHR 0x22] @ key @ [CHR 0x22, CHR '':''] @ gap @ q @ decimal v @ q @ [CHR ''}''])"

lemma decimal_Cons: "decimal v \<noteq> []"
  using hd_digits by (simp add: decimal_def)

lemma json_body_value:
  assumes "CHR '':'' \<notin> set key"
  shows "butlast (tl (dropWhile (\<lambda>c. c \<noteq> CHR '':'') (tl (json_body key gap quoted v)))) =
    gap @ (if quoted then [CHR 0x22] else []) @ decimal v @ (if quoted then [CHR 0x22] else [])"
  using assms by (auto simp: json_body_def Let_def dropWhile_append butlast_append decimal_Cons)

lemma unquote_decimal: "unquote (decimal v) = decimal v"
  using decimal_Cons [of v] decimal_clean(2) [of v] by (cases "decimal v") (auto simp: unquote_def)

lemma unquote_quoted [simp]: "unquote (CHR 0x22 # s) = s"
  by (simp add: unquote_def)

lemma json_body_clean:
  assumes "CHR 0x00 \<notin> set key" "CHR 0x00 \<notin> set gap"
  shows "CHR 0x00 \<notin> set (json_body key gap quoted v)"
  using assms decimal_clean(1) [of v] by (auto simp: json_body_def Let_def)

lemma json_body_colon: "CHR '':'' \<in> set (tl (json_body key gap quoted v))"
  by (simp add: json_body_def Let_def)

lemma request_int_json:
  assumes "CHR '':'' \<notin> set key" "CHR 0x00 \<notin> set key" "CHR 0x00 \<notin> set gap" "length (json_body key gap quoted v) < n" "n \<le> 256"
  shows "request_int n (json_body key gap quoted v) =
    (let w = atoi (unquote (gap @ (if quoted then [CHR 0x22] else []) @ decimal v @ (if quoted then [CHR 0x22] else []))) in
     if int_range w then Some w else None)"
proof -
  let ?v = "gap @ (if quoted then [CHR 0x22] else []) @ decimal v @ (if quoted then [CHR 0x22] else [])"
  have n: "2 \<le> n" using assms(4) by (simp add: json_body_def Let_def)
  have "length ?v \<le> length (json_body key gap quoted v)" by (auto simp: json_body_def Let_def)
  then have "length ?v < VALUE_SIZE" using assms(4,5) by (simp add: VALUE_SIZE_def)
  then show ?thesis
    unfolding request_int_exact_eq [OF json_body_clean [OF assms(2,3)] n] json_body_value [OF assms(1)] Let_def
    using assms(4) json_body_colon by simp
qed

text \<open>
  C29: A number survives the trip from the web page to the server, quoted or not: a short body
  \<open>{"key":v}\<close> or \<open>{"key":"v"}\<close> is read as v.  With a blank between the colon and the quote, the form
  the code's comment shows, the quoted number is read as 0.
\<close>
theorem json_number_roundtrip:
  assumes "CHR '':'' \<notin> set key" "CHR 0x00 \<notin> set key" "int_range v"
    "length (json_body key '' '' True v) < n" "n \<le> 256"
  shows "request_int n (json_body key [] quoted v) = Some v \<and>
    request_int n (json_body key '' '' True v) = Some 0"
proof
  have l: "length (json_body key [] quoted v) < n"
    using assms(4) by (cases quoted) (simp_all add: json_body_def Let_def)
  have "atoi (unquote ((if quoted then [CHR 0x22] else []) @ decimal v @ (if quoted then [CHR 0x22] else []))) = v"
    using atoi_decimal [of "[]" v] atoi_decimal [of "[CHR 0x22]" v]
    by (cases quoted) (simp_all add: unquote_decimal is_digit_def)
  then show "request_int n (json_body key [] quoted v) = Some v"
    using request_int_json [OF assms(1,2) _ l assms(5)] assms(3) by simp
  have "unquote ('' '' @ [CHR 0x22] @ decimal v @ [CHR 0x22]) = '' '' @ [CHR 0x22] @ decimal v @ [CHR 0x22]"
    by (simp add: unquote_def)
  moreover have "atoi ('' '' @ [CHR 0x22] @ decimal v @ [CHR 0x22]) = 0"
    by (simp add: atoi_def is_space_def is_digit_def)
  ultimately show "request_int n (json_body key '' '' True v) = Some 0"
    using request_int_json [OF assms(1,2) _ assms(4,5)] by (simp add: int_range_def)
qed

theorem json_number_roundtrip_witness:
  "request_int 256 (json_body ''exposure'' [] True (- 17)) = Some (- 17) \<and>
   request_int 256 (json_body ''exposure'' '' '' True (- 17)) = Some 0"
  by (rule json_number_roundtrip) (simp_all add: int_range_def json_body_def decimal_def digits.simps)

section \<open>The gallery\<close>

definition quoted :: "string \<Rightarrow> string" where
  "quoted x = [CHR 0x22] @ x @ [CHR 0x22]"

fun listing :: "string list \<Rightarrow> string" where
  "listing [] = []"
| "listing [x] = quoted x"
| "listing (x # y # xs) = quoted x @ '', '' @ listing (y # xs)"

lemma strncat_fits: "length dst + length src < n \<Longrightarrow> strncat_to n dst src = dst @ src"
  by (simp add: strncat_to_def)

lemma quoted_length [simp]: "length (quoted x) = length x + 2"
  by (simp add: quoted_def)

lemma join_items_listing:
  "length acc + (\<Sum>x\<leftarrow>items. length x + 4) < 256 \<Longrightarrow> join_items items acc = acc @ listing items"
proof (induction items arbitrary: acc)
  case (Cons x xs)
  have t: "snprintf_str 256 ([CHR 0x22] @ x @ [CHR 0x22]) = quoted x"
    using Cons.prems by (simp add: snprintf_str_def quoted_def)
  have a: "strncat_to 256 acc (quoted x) = acc @ quoted x" using Cons.prems by (simp add: strncat_fits)
  show ?case
  proof (cases xs)
    case Nil
    then show ?thesis using t a by simp
  next
    case (Cons y ys)
    have c: "strncat_to 256 (acc @ quoted x) '', '' = acc @ quoted x @ '', ''"
      using Cons.prems Cons by (simp add: strncat_fits)
    have "join_items (x # xs) acc = join_items xs (acc @ quoted x @ '', '')"
      using Cons by (simp only: join_items.simps t a c Let_def) simp
    also have "\<dots> = (acc @ quoted x @ '', '') @ listing xs"
      using Cons.prems by (intro Cons.IH) simp
    finally show ?thesis using Cons by simp
  qed
qed simp

definition gallery_json :: "string list \<Rightarrow> nat \<Rightarrow> string" where
  "gallery_json items pages = [CHR ''{''] @ quoted ''capture'' @ '': ['' @ listing items @ ''], '' @ quoted ''page''
     @ '': '' @ decimal (int pages) @ [CHR ''}'']"

lemma listing_length: "length (listing items) \<le> (\<Sum>x\<leftarrow>items. length x + 4)"
  by (induction items rule: listing.induct) simp_all

lemma items_total:
  assumes "list_all (\<lambda>x. length x \<le> 14) items" "length items \<le> 4"
  shows "(\<Sum>x\<leftarrow>items. length x + 4) \<le> 72"
proof -
  have "(\<Sum>x\<leftarrow>items. length x + 4) \<le> 18 * length items"
    using assms(1) by (induction items) auto
  with assms(2) show ?thesis by linarith
qed

lemma create_json_string_exact:
  assumes "list_all (\<lambda>x. length x \<le> 14) items" "length items \<le> 4" "pages < 10 ^ 10"
  shows "create_json_string items RESPOND_SIZE pages = gallery_json items pages"
proof -
  note total = items_total [OF assms(1,2)]
  have j: "join_items items [] = listing items" using join_items_listing [of "[]" items] total by simp
  have "length (decimal (int pages)) \<le> 10" using digits_length [of pages 9] assms(3) by (simp add: decimal_def)
  then have "length (gallery_json items pages) \<le> 255"
    using listing_length [of items] total by (simp add: gallery_json_def)
  then show ?thesis
    by (simp add: create_json_string_def j snprintf_str_def RESPOND_SIZE_def gallery_json_def quoted_def)
qed

lemma get_list_length_eq [simp]: "get_list_length xs = length xs"
  by (induction xs) simp_all

lemma get_total_pages_ceil: "get_total_pages head = max 1 ((length head + 3) div 4)"
proof -
  have c: "(n + 3) div 4 = (if 0 < n mod 4 then n div 4 + 1 else n div 4)" for n :: nat by presburger
  have "1 \<le> (length head + 3) div 4" if "0 < length head" using that by (cases head) auto
  then show ?thesis unfolding get_total_pages_def IMAGE_PER_PAGE_def Let_def get_list_length_eq c [symmetric] by simp
qed

definition page_slice :: "string list \<Rightarrow> nat \<Rightarrow> string list" where
  "page_slice head p = take 4 (drop (4 * (p - 1)) head)"

lemma page_loop_slice:
  "1 \<le> p \<Longrightarrow> page_loop (int p) head (int i) items =
     items @ take (4 * p - max i (4 * (p - 1))) (drop (4 * (p - 1) - i) head)"
proof (induction head arbitrary: i items)
  case (Cons n head)
  have s: "int i + 1 = int (Suc i)" by simp
  consider "i < 4 * (p - 1)" | "4 * (p - 1) \<le> i" "i < 4 * p" | "4 * p \<le> i" by linarith
  then show ?case
  proof cases
    case 1
    then have "\<not> int p * 4 - 4 \<le> int i" using Cons.prems by linarith
    moreover have "4 * (p - 1) - i = Suc (4 * (p - 1) - Suc i)" "max (Suc i) (4 * (p - 1)) = max i (4 * (p - 1))"
      using 1 by simp_all
    ultimately show ?thesis unfolding page_loop.simps s Cons.IH [OF Cons.prems] by simp
  next
    case 2
    then have c: "int p * 4 - 4 \<le> int i \<and> int i < int p * 4" using Cons.prems by linarith
    have "4 * p - i = Suc (4 * p - Suc i)" "max (Suc i) (4 * (p - 1)) = Suc i" "max i (4 * (p - 1)) = i"
      "4 * (p - 1) - Suc i = 0" "4 * (p - 1) - i = 0"
      using 2 by simp_all
    then show ?thesis unfolding page_loop.simps s Cons.IH [OF Cons.prems] if_P [OF c] by simp
  next
    case 3
    then have "\<not> int i < int p * 4" using Cons.prems by linarith
    then show ?thesis using 3 unfolding page_loop.simps s Cons.IH [OF Cons.prems] by simp
  qed
qed simp

lemma page_loop_page: "1 \<le> p \<Longrightarrow> page_loop (int p) head 0 [] = page_slice head p"
  using page_loop_slice [of p head 0 "[]"] by (simp add: page_slice_def max_def) (simp add: algebra_simps diff_mult_distrib2)

lemma slices_prefix: "concat (map (page_slice head) [1..<Suc m]) = take (4 * m) head"
proof (induction m)
  case (Suc m)
  have "concat (map (page_slice head) [1..<Suc (Suc m)]) = take (4 * m) head @ page_slice head (Suc m)"
    using Suc by simp
  also have "\<dots> = take (4 * m + 4) head" by (simp add: page_slice_def take_add)
  finally show ?case by (simp add: algebra_simps)
qed simp

text \<open>
  C35: With picture names as the list stores them, each page from 1 to the page count is answered with
  the untruncated JSON text of its at most four names and the page count, which is the
  number of names divided by four, rounded up and at least one; the pages together show every
  picture exactly once and in order.
\<close>
theorem gallery_pages:
  assumes "list_all (\<lambda>x. length x \<le> 14) head" "length head < 10 ^ 8" "1 \<le> p" "p \<le> get_total_pages head"
  shows "get_page head (int p) = Some (gallery_json (page_slice head p) (get_total_pages head)) \<and>
    get_total_pages head = max 1 ((length head + 3) div 4) \<and>
    concat (map (page_slice head) [1..<Suc (get_total_pages head)]) = head"
proof (intro conjI)
  have pages: "get_total_pages head \<le> 10 ^ 8" using assms(2) by (simp add: get_total_pages_ceil)
  have "list_all (\<lambda>x. length x \<le> 14) (page_slice head p)"
    using assms(1) by (auto simp: page_slice_def list_all_iff dest!: in_set_takeD in_set_dropD)
  then have "create_json_string (page_slice head p) RESPOND_SIZE (get_total_pages head) =
      gallery_json (page_slice head p) (get_total_pages head)"
    using pages by (intro create_json_string_exact) (simp_all add: page_slice_def)
  then show "get_page head (int p) = Some (gallery_json (page_slice head p) (get_total_pages head))"
    using page_loop_page [OF assms(3)] pages assms(3,4) by (simp add: get_page_def)
  show "get_total_pages head = max 1 ((length head + 3) div 4)" by (rule get_total_pages_ceil)
  show "concat (map (page_slice head) [1..<Suc (get_total_pages head)]) = head"
    unfolding slices_prefix by (simp add: get_total_pages_ceil)
qed

theorem gallery_pages_witness:
  "get_page [''c.jpg'', ''b.jpg'', ''a.jpg''] (int 1) =
      Some (gallery_json (page_slice [''c.jpg'', ''b.jpg'', ''a.jpg''] 1) (get_total_pages [''c.jpg'', ''b.jpg'', ''a.jpg'']))"
  using gallery_pages [of "[''c.jpg'', ''b.jpg'', ''a.jpg'']" 1] by (simp add: get_total_pages_ceil)

section \<open>Picture numbers\<close>

definition picture_name :: "nat \<Rightarrow> string" where
  "picture_name k = ''img_'' @ decimal04 (k mod 10000) @ ''.jpg''"

lemma decimal04_short: "length (decimal04 (k mod 10000)) = 4"
  using mod_less_divisor [of 10000 k] by (intro decimal04_length) linarith

lemma picture_name_length: "length (picture_name k) = 12"
  by (simp add: picture_name_def decimal04_short)

lemma picture_name_number: "atoi (snprintf_str 5 (drop 4 (picture_name k))) = int (k mod 10000)"
proof -
  have "snprintf_str 5 (drop 4 (picture_name k)) = decimal04 (k mod 10000)"
    using decimal04_short [of k] by (simp add: picture_name_def snprintf_str_def)
  then show ?thesis using atoi_decimal04 [of "[]" "k mod 10000"] by simp
qed

lemma picture_name_eq: "picture_name j = picture_name k \<longleftrightarrow> j mod 10000 = k mod 10000"
proof
  assume "picture_name j = picture_name k"
  then have "int (j mod 10000) = int (k mod 10000)" using picture_name_number by metis
  then show "j mod 10000 = k mod 10000" by simp
qed (simp add: picture_name_def)

lemma next_number_picture: "next_number (picture_name k # r) = Some (int (Suc k mod 10000))"
proof -
  have "next_number (picture_name k # r) =
      Some (if 9999 \<le> int (k mod 10000) then 0 else int (k mod 10000) + 1)"
    by (simp only: next_number_def list.case picture_name_length picture_name_number Let_def) simp
  also have "(if 9999 \<le> int (k mod 10000) then 0 else int (k mod 10000) + 1) = int (Suc k mod 10000)"
  proof (cases "k mod 10000 = 9999")
    case True
    then show ?thesis by (simp add: mod_Suc)
  next
    case False
    moreover have "k mod 10000 < 10000" by simp
    ultimately have "k mod 10000 < 9999" by linarith
    then show ?thesis by (simp add: mod_Suc)
  qed
  finally show ?thesis .
qed

lemma capture_photo_next:
  assumes "next_number (img_list dev) = Some (int (k mod 10000))"
  shows "capture_photo True dev =
    Some (dev\<lparr>img_list := picture_name k # img_list dev\<rparr>, [Saved (web_root @ ''/images/'' @ picture_name k), Reply (update_page (picture_name k # img_list dev))])"
proof -
  have "snprintf_str IMG_NAME (''img_'' @ decimal04i (int (k mod 10000)) @ ''.jpg'') = picture_name k"
    using decimal04_short [of k] by (simp add: snprintf_str_def IMG_NAME_def picture_name_def decimal04i_def)
  moreover have "snprintf_str IMG_NAME (picture_name k) = picture_name k"
    by (simp add: snprintf_str_def IMG_NAME_def picture_name_length)
  ultimately show ?thesis using assms by (simp add: capture_photo_def append_list_def Let_def)
qed

fun capture_photos :: "nat \<Rightarrow> web_dev \<Rightarrow> web_dev option" where
  "capture_photos 0 dev = Some dev"
| "capture_photos (Suc n) dev = do { dev \<leftarrow> capture_photos n dev; (dev, eff) \<leftarrow> capture_photo True dev; Some dev }"

text \<open>
  Pictures taken from an empty list get the names img_0000.jpg, img_0001.jpg and so on, newest
  first in the list and starting again after img_9999.jpg; so the first ten thousand names are
  different.
\<close>
theorem picture_numbers:
  "capture_photos n (dev\<lparr>img_list := []\<rparr>) = Some (dev\<lparr>img_list := map picture_name (rev [0..<n])\<rparr>) \<and>
   (10000 < n \<or> distinct (map picture_name (rev [0..<n])))"
proof (intro conjI)
  show "capture_photos n (dev\<lparr>img_list := []\<rparr>) = Some (dev\<lparr>img_list := map picture_name (rev [0..<n])\<rparr>)"
  proof (induction n)
    case (Suc n)
    have "next_number (map picture_name (rev [0..<n])) = Some (int (n mod 10000))"
      by (cases n) (simp_all add: next_number_picture, simp add: next_number_def)
    then show ?case using Suc capture_photo_next [of "dev\<lparr>img_list := map picture_name (rev [0..<n])\<rparr>" n] by simp
  qed simp
  have "inj_on picture_name (set (rev [0..<n]))" if "n \<le> 10000"
    using that by (auto simp: inj_on_def picture_name_eq)
  then show "10000 < n \<or> distinct (map picture_name (rev [0..<n]))" by (cases "10000 < n") (simp_all add: distinct_map)
qed

section \<open>Every interleaving of requests and frames\<close>

inductive web_reach :: "string list \<Rightarrow> int \<Rightarrow> int \<Rightarrow> web_dev \<Rightarrow> bool" for files g c where
  web_start: "web_reach files g c \<lparr>hw_cmd = HW_ACCEL_NONE, hw_enable = True, sw_grayscale = g, capture = c, img_list = []\<rparr>"
| web_request: "web_reach files g c dev \<Longrightarrow> handle_request files uri meth body dev = Some (dev', eff) \<Longrightarrow> web_reach files g c dev'"
| web_frame: "web_reach files g c dev \<Longrightarrow> check_and_capture_photo dir_ok dev = Some (dev', eff) \<Longrightarrow> web_reach files g c dev'"

inductive_cases web_reachE: "web_reach files g c dev"

definition name_ok :: "string \<Rightarrow> bool" where
  "name_ok x \<longleftrightarrow> 4 \<le> length x \<and> length x < IMG_NAME"

definition web_ok :: "int \<Rightarrow> int \<Rightarrow> web_dev \<Rightarrow> bool" where
  "web_ok g c dev \<longleftrightarrow> hw_cmd dev \<in> {HW_ACCEL_NONE, HW_ACCEL_EROSION} \<and> hw_enable dev \<and>
     sw_grayscale dev \<in> {0, 1, g} \<and> capture dev \<in> {0, 1, c} \<and> list_all name_ok (img_list dev)"

definition reply_ok :: "web_effect \<Rightarrow> bool" where
  "reply_ok e \<longleftrightarrow> (case e of Reply r \<Rightarrow> length r < RESPOND_SIZE | _ \<Rightarrow> True)"

lemma create_json_bounded: "length (create_json_string items RESPOND_SIZE pages) < RESPOND_SIZE"
  by (simp add: create_json_string_def snprintf_str_def RESPOND_SIZE_def)

lemma get_list_ok: "list_all name_ok head \<Longrightarrow> list_all name_ok (get_list files head)"
proof (induction files arbitrary: head)
  case (Cons d ds)
  have "name_ok (snprintf_str IMG_NAME d)" if "drop (length d - 4) d = ''.jpg''"
  proof -
    have "length (drop (length d - 4) d) = 4" using that by simp
    then show ?thesis by (auto simp: name_ok_def snprintf_str_def IMG_NAME_def)
  qed
  then show ?case using Cons by (simp add: append_list_def)
qed simp

lemma get_page_ok: "get_page head p = Some r \<Longrightarrow> length r < RESPOND_SIZE"
  using create_json_bounded by (auto simp: get_page_def split: if_splits)

lemma on_load_ok:
  "on_load files body dev = Some (dev', eff) \<Longrightarrow> web_ok g c dev \<Longrightarrow> web_ok g c dev' \<and> list_all reply_ok eff"
  using get_list_ok [of "[]" files] get_page_ok
  by (fastforce simp: on_load_def bind_Some_iff Let_def web_ok_def reply_ok_def split: if_splits)

lemma web_ok_updates:
  "web_ok g c dev \<Longrightarrow> web_ok g c (dev\<lparr>capture := 1\<rparr>)"
  "web_ok g c dev \<Longrightarrow> web_ok g c (dev\<lparr>sw_grayscale := 1\<rparr>)"
  "web_ok g c dev \<Longrightarrow> web_ok g c (dev\<lparr>hw_cmd := HW_ACCEL_NONE, sw_grayscale := 0\<rparr>)"
  "web_ok g c dev \<Longrightarrow> web_ok g c (dev\<lparr>hw_cmd := HW_ACCEL_EROSION, sw_grayscale := 0\<rparr>)"
  by (simp_all add: web_ok_def)

lemma reply_ok_simps:
  "reply_ok (Reply r) \<longleftrightarrow> length r < RESPOND_SIZE"
  "reply_ok (Saved x)" "reply_ok StreamHeader" "reply_ok (Gain v)" "reply_ok (Exposure v)" "reply_ok HelloChunk" "reply_ok ServeDir"
  by (simp_all add: reply_ok_def)

lemma if_equalsE: "(if c then x else y) = z \<Longrightarrow> (c \<Longrightarrow> x = z \<Longrightarrow> P) \<Longrightarrow> (\<not> c \<Longrightarrow> y = z \<Longrightarrow> P) \<Longrightarrow> P"
  by (auto split: if_splits)

lemma with_num_ok:
  "with_num body f = Some (dev', eff) \<Longrightarrow>
   (\<And>num. f num = Some (dev', eff) \<Longrightarrow> P dev' eff) \<Longrightarrow> P dev' eff"
  by (auto simp: with_num_def bind_Some_iff)

lemma handle_request_ok:
  assumes "handle_request files uri meth body dev = Some (dev', eff)" "web_ok g c dev"
  shows "web_ok g c dev' \<and> list_all reply_ok eff"
proof -
  note ok = assms(2) web_ok_updates [OF assms(2)]
  have flag: "web_ok g c dev' \<and> list_all reply_ok eff"
    if "with_num body (\<lambda>num. Some (if num = 1 then d else dev, [])) = Some (dev', eff)" "web_ok g c d" for d
    using that(1) by (rule with_num_ok) (use that(2) ok(1) in \<open>auto split: if_splits\<close>)
  have const: "web_ok g c dev' \<and> list_all reply_ok eff"
    if "with_num body (\<lambda>num. Some (dev, [e num])) = Some (dev', eff)" "\<And>num. reply_ok (e num)" for e
    using that(1) by (rule with_num_ok) (use that(2) ok(1) in auto)
  have page: "web_ok g c dev' \<and> list_all reply_ok eff"
    if "with_num body (\<lambda>num. do { r \<leftarrow> get_page (img_list dev) num; Some (dev, [Reply r]) }) = Some (dev', eff)"
    using that by (rule with_num_ok) (use ok(1) get_page_ok in \<open>auto simp: bind_Some_iff reply_ok_simps\<close>)
  have otherwise: "web_ok g c dev' \<and> list_all reply_ok eff"
    if "Some (dev, [e]) = Some (dev', eff)" "reply_ok e" for e
    using that ok(1) by auto
  show ?thesis
    using assms(1) unfolding handle_request_def
    by (elim if_equalsE)
      ((erule flag, rule ok) | (erule const, rule reply_ok_simps) | erule page
      | (erule otherwise, rule reply_ok_simps) | (erule on_load_ok, rule ok))+
qed

lemma next_number_ok: "list_all name_ok head \<Longrightarrow> \<exists>n. next_number head = Some n"
  by (cases head) (auto simp: next_number_def name_ok_def Let_def)

lemma capture_photo_ok:
  assumes "web_ok g c dev"
  shows "\<exists>dev' eff. capture_photo dir_ok dev = Some (dev', eff) \<and> web_ok g c dev' \<and> list_all reply_ok eff"
proof -
  obtain num where n: "next_number (img_list dev) = Some num"
    using assms next_number_ok [of "img_list dev"] by (auto simp: web_ok_def)
  let ?f = "snprintf_str IMG_NAME (snprintf_str IMG_NAME (''img_'' @ decimal04i num @ ''.jpg''))"
  have "name_ok ?f" by (simp add: name_ok_def snprintf_str_def IMG_NAME_def)
  let ?dev = "dev\<lparr>img_list := ?f # img_list dev\<rparr>"
  have "capture_photo True dev = Some (?dev, [Saved (web_root @ ''/images/'' @ snprintf_str IMG_NAME (''img_'' @ decimal04i num @ ''.jpg'')), Reply (update_page (img_list ?dev))])"
    using n by (simp add: capture_photo_def append_list_def Let_def)
  moreover have "web_ok g c ?dev" using assms \<open>name_ok ?f\<close> by (simp add: web_ok_def)
  moreover have "reply_ok (Reply (update_page (img_list ?dev)))" "reply_ok (Saved x)" for x
    by (simp_all add: reply_ok_def update_page_def create_json_bounded)
  moreover have "capture_photo False dev = Some (dev, [])" by (simp add: capture_photo_def)
  ultimately show ?thesis using assms by (cases dir_ok) simp_all
qed

lemma check_and_capture_ok:
  assumes "web_ok g c dev"
  shows "\<exists>dev' eff. check_and_capture_photo dir_ok dev = Some (dev', eff) \<and> web_ok g c dev' \<and> list_all reply_ok eff"
  using capture_photo_ok [OF assms, of dir_ok] assms
  by (auto simp: check_and_capture_photo_def web_ok_def)

lemma web_reach_ok: "web_reach files g c dev \<Longrightarrow> web_ok g c dev"
proof (induction rule: web_reach.induct)
  case web_start
  then show ?case by (simp add: web_ok_def)
next
  case (web_request dev uri meth body dev' eff)
  then show ?case using handle_request_ok by blast
next
  case (web_frame dev dir_ok dev' eff)
  then show ?case using check_and_capture_ok [of g c dev dir_ok] by auto
qed

text \<open>
  C10: In every interleaving of requests and frames the accelerator command is none or erosion, the two
  flags are 0, 1 or the value they happen to start with (nothing sets them before the server
  runs), every stored name fits its field and is long enough to be numbered, taking the next
  picture is defined, and every answer fits the response buffer.
\<close>
theorem web_server_types:
  assumes "web_reach files g c dev"
  shows "hw_cmd dev \<in> {HW_ACCEL_NONE, HW_ACCEL_EROSION} \<and> sw_grayscale dev \<in> {0, 1, g} \<and> capture dev \<in> {0, 1, c} \<and>
    list_all name_ok (img_list dev) \<and>
    (\<exists>dev' eff. check_and_capture_photo dir_ok dev = Some (dev', eff) \<and> list_all reply_ok eff) \<and>
    (case handle_request files uri meth body dev of None \<Rightarrow> True | Some (dev', eff) \<Rightarrow> list_all reply_ok eff)"
proof -
  have ok: "web_ok g c dev" by (rule web_reach_ok [OF assms])
  then show ?thesis using check_and_capture_ok [OF ok, of dir_ok] handle_request_ok [OF _ ok, of files uri meth body]
    by (auto simp: web_ok_def split: option.splits)
qed

theorem web_server_types_witness:
  "\<exists>dev. web_reach [''a.jpg''] 7 0 dev \<and> capture dev = 1 \<and> hw_cmd dev \<in> {HW_ACCEL_NONE, HW_ACCEL_EROSION}"
proof -
  let ?dev = "\<lparr>hw_cmd = HW_ACCEL_NONE, hw_enable = True, sw_grayscale = 7, capture = 0, img_list = []\<rparr>"
  have "request_int 256 (''{a:1}'') = Some 1"
    by (simp add: request_int_exact_eq unquote_def atoi_def is_space_def is_digit_def int_range_def VALUE_SIZE_def)
  then have "handle_request [''a.jpg''] ''/btn_capture'' ''POST'' ''{a:1}'' ?dev = Some (?dev\<lparr>capture := 1\<rparr>, [])"
    by (simp add: handle_request_def with_num_def)
  then have r: "web_reach [''a.jpg''] 7 0 (?dev\<lparr>capture := 1\<rparr>)" by (rule web_request [OF web_start])
  show ?thesis
    using r web_server_types [OF r, of True "''/load''" "''GET''" "[]"] by (intro exI [of _ "?dev\<lparr>capture := 1\<rparr>"]) simp
qed

end
