(* ===== verification/CamStack.thy ===== *)
theory CamStack
  imports CamServer EvsocFrameProps
begin

text \<open>
  The camera web server on top of the Edge Vision driver: the frame side of
  package/evsoc_camera/src/main.c, which sets the accelerator and asks for captures by ioctl, reads
  them through the mapped capture buffer, processes and encodes them with OpenCV (a parameter)
  and sends them to the streaming connections.  The driver is the model of EvsocFrame.
\<close>

unbundle bit_operations_syntax

section \<open>Frames from the driver\<close>

text \<open>A picture is given by rows of pixels; a pixel has the channels blue, green and red.\<close>

type_synonym pixels = "(u8 \<times> u8 \<times> u8) list list"

definition fill_pixel :: "u32 \<Rightarrow> u8 \<times> u8 \<times> u8" where
  "fill_pixel v = (ucast (signed_drop_bit 16 v AND 0xff), ucast (signed_drop_bit 8 v AND 0xff), ucast (v AND 0xff))"

definition fill_mat :: "nat \<Rightarrow> nat \<Rightarrow> (nat \<Rightarrow> u32) \<Rightarrow> pixels" where
  "fill_mat rows cols buf = map (\<lambda>i. map (\<lambda>j. fill_pixel (buf (i * cols + j))) [0..<cols]) [0..<rows]"

fun accel_arg :: "hw_accel_cmd \<Rightarrow> u32" where
  "accel_arg HW_ACCEL_NONE = 0"
| "accel_arg HW_ACCEL_EROSION = 1"
| "accel_arg HW_ACCEL_DIALATION = 2"
| "accel_arg HW_ACCEL_SOBEL = 3"

text \<open>
  One call against the driver's state.  The results of open, mmap and ioctl are not looked at:
  \<open>opened\<close> says whether the first open of the single-open device succeeds, \<open>mapped\<close>
  whether the second one and the mapping do; without the mapping the copy reads from an
  invalid address.
\<close>

definition video_capture_stream ::
  "iomem device \<Rightarrow> bool \<Rightarrow> bool \<Rightarrow> web_dev \<Rightarrow> evsoc \<Rightarrow> (pixels \<times> evsoc) option" where
  "video_capture_stream d opened mapped dev s = do {
     s \<leftarrow> (if hw_enable dev \<and> opened
          then map_option snd (evsoc_ioctl (main_proc d) CMD_SET_MODE (accel_arg (hw_cmd dev)) s) else Some s);
     map_buffer \<leftarrow> (if mapped then cam_dma_cpu_arry s CAPTURE_IDX else None);
     let cap_mat = fill_mat (FRAME_HEIGHT div 2) (FRAME_WIDTH div 2) map_buffer;
     (r, s) \<leftarrow> evsoc_ioctl (main_proc d) CMD_SET_CAPTURE (ucast CMD_SET_CAPTURE_PART) s;
     Some (cap_mat, s)
   }"

text \<open>The OpenCV operations the server calls, on its type of matrices.\<close>

record 'm opencv =
  mat_of :: "pixels \<Rightarrow> 'm"
  bgr_to_gray :: "'m \<Rightarrow> 'm"
  blur_by :: "nat \<Rightarrow> nat \<Rightarrow> 'm \<Rightarrow> 'm"
  canny_by :: "int \<Rightarrow> int \<Rightarrow> 'm \<Rightarrow> 'm"
  encode_jpg :: "int \<Rightarrow> 'm \<Rightarrow> u8 list"

definition canny_threshold :: "'m opencv \<Rightarrow> 'm \<Rightarrow> 'm" where
  "canny_threshold cv img =
     (let low_threshold = 0; ratio = 3 in canny_by cv low_threshold (low_threshold * ratio) (blur_by cv 3 3 img))"

definition process_frame :: "'m opencv \<Rightarrow> web_dev \<Rightarrow> 'm \<Rightarrow> 'm" where
  "process_frame cv dev img =
     (if sw_grayscale dev = 1 then canny_threshold cv (bgr_to_gray cv img) else img)"

definition encode_frame :: "'m opencv \<Rightarrow> 'm \<Rightarrow> u8 list" where
  "encode_frame cv img = encode_jpg cv 95 img"

text \<open>A connection is its number and the first character of its label.\<close>

type_synonym connection = "nat \<times> char"

definition part_header :: "nat \<Rightarrow> string" where
  "part_header n = ''--foo'' @ [CHR 0x0D, CHR 0x0A] @ ''Content-Type: image/jpeg'' @ [CHR 0x0D, CHR 0x0A]
     @ ''Content-Length: '' @ decimal (int n) @ [CHR 0x0D, CHR 0x0A, CHR 0x0D, CHR 0x0A]"

definition bytes_of :: "string \<Rightarrow> u8 list" where
  "bytes_of s = map of_char s"

fun send_frame :: "connection list \<Rightarrow> u8 list \<Rightarrow> (nat \<times> u8 list) list" where
  "send_frame [] data = []"
| "send_frame ((c, label) # conns) data =
     (if label \<noteq> CHR ''S'' then send_frame conns data
      else [(c, bytes_of (part_header (length data))), (c, data), (c, [0x0D, 0x0A])] @ send_frame conns data)"

definition broadcast_mjpeg_camera_frame ::
  "iomem device \<Rightarrow> 'm opencv \<Rightarrow> bool \<Rightarrow> bool \<Rightarrow> bool \<Rightarrow> connection list \<Rightarrow> web_dev \<Rightarrow> evsoc
   \<Rightarrow> (web_dev \<times> evsoc \<times> (nat \<times> u8 list) list \<times> web_effect list) option" where
  "broadcast_mjpeg_camera_frame d cv opened mapped dir_ok conns dev s = do {
     (pic, s) \<leftarrow> video_capture_stream d opened mapped dev s;
     let img = process_frame cv dev (mat_of cv pic);
     let sent = send_frame conns (encode_frame cv img);
     (dev, eff) \<leftarrow> check_and_capture_photo dir_ok dev;
     Some (dev, s, sent, eff)
   }"

section \<open>From the camera to the browser\<close>

lemma fill_mat_at:
  "i < rows \<Longrightarrow> j < cols \<Longrightarrow> fill_mat rows cols buf ! i ! j = fill_pixel (buf (i * cols + j))"
  by (simp add: fill_mat_def)

lemma fill_pixel_bytes:
  "fill_pixel v = (ucast (drop_bit 16 v), ucast (drop_bit 8 v), ucast v)"
proof -
  have m: "(0xff :: u32) = mask 8" by (simp add: mask_eq_exp_minus_1)
  have s: "(ucast (signed_drop_bit n v AND 0xff) :: u8) = ucast (drop_bit n v)" if "n + 8 \<le> 32" for n
    unfolding m by (rule bit_word_eqI) (use that in \<open>auto simp: bit_simps\<close>)
  have u: "(ucast (v AND 0xff) :: u8) = ucast v"
    unfolding m by (rule bit_word_eqI) (simp add: bit_simps)
  show ?thesis by (simp add: fill_pixel_def s u del: take_bit_eq_mask)
qed

lemma ioctl_set_mode:
  "evsoc_ioctl (main_proc d) CMD_SET_MODE arg s =
     Some (0, s\<lparr>select_demo_mode := if arg = 1 then 2 else if arg = 2 then 3 else 0\<rparr>)"
  by (simp add: evsoc_ioctl_def main_proc_def command_values DEMO_MAGIC_def)

lemma ioctl_set_capture:
  "evsoc_ioctl (main_proc d) CMD_SET_CAPTURE arg s = Some (0, s\<lparr>capture_mode := ucast arg\<rparr>)"
  by (simp add: evsoc_ioctl_def main_proc_def command_values DEMO_MAGIC_def)

lemma main_proc_of_ioctl:
  "evsoc_ioctl (main_proc d) cmd arg s = Some (0, s') \<Longrightarrow> evsoc_reach d cam kmalloc (n, s) \<Longrightarrow> evsoc_reach d cam kmalloc (n, s')"
  by (auto simp: evsoc_ioctl_def bind_eq_Some_conv split: if_splits intro: reach_command)

definition accel_mode :: "hw_accel_cmd \<Rightarrow> u32" where
  "accel_mode cmd = (case cmd of HW_ACCEL_EROSION \<Rightarrow> 2 | HW_ACCEL_DIALATION \<Rightarrow> 3 | _ \<Rightarrow> 0)"

definition requested :: "bool \<Rightarrow> web_dev \<Rightarrow> evsoc \<Rightarrow> evsoc" where
  "requested opened dev s =
     (if hw_enable dev \<and> opened then s\<lparr>select_demo_mode := accel_mode (hw_cmd dev)\<rparr> else s)\<lparr>capture_mode := CMD_SET_CAPTURE_PART\<rparr>"

lemma accel_arg_mode:
  "(if accel_arg cmd = 1 then 2 else if accel_arg cmd = 2 then 3 else 0) = accel_mode cmd"
  by (cases cmd) (simp_all add: accel_mode_def)

lemma video_capture_stream_eq:
  "video_capture_stream d opened True dev s =
     map_option (\<lambda>buf. (fill_mat 360 640 buf, requested opened dev s)) (cam_dma_cpu_arry s CAPTURE_IDX)"
  unfolding video_capture_stream_def
  by (cases "cam_dma_cpu_arry s CAPTURE_IDX")
    (auto simp: ioctl_set_mode ioctl_set_capture accel_arg_mode requested_def frame_words CMD_SET_CAPTURE_PART_def Let_def)

lemma capture_of_round:
  assumes "do_rx_proc d cam pMode s = Some (r, s')" "allocated s" "handles_distinct s"
    "rx_buf_idx s = 0 \<or> rx_buf_idx s = 2" "pMode \<noteq> 1" "capture_mode s = CMD_SET_CAPTURE_PART" "i < 360" "j < 640"
  shows "capture_mode s' = 0 \<and> words CAPTURE_IDX s' (i * 640 + j) =
     (let p = 2 * i * FRAME_WIDTH + 2 * j in
      if lay0_is_ready s > 0 \<and> opaque (words LAYER0_IDX s p) then rgb (words LAYER0_IDX s p) else cam (io s') p)"
proof -
  note D = do_rx_proc_SomeD [OF assms(1-5)]
  then have s': "s' = after_frame (cam (io s')) (io s') s" by blast
  have w: "words CAPTURE_IDX s' = snapshot (cam (io s')) (unat (rx_buf_idx s)) s"
    using after_frame_words [OF assms(4), of "cam (io s')" "io s'"] s' by metis
  have m: "capture_mode s' = 0"
    by (subst s') (use assms(6) in \<open>simp add: after_frame_def capturing_def Let_def\<close>)
  have n: "CMD_SET_CAPTURE_PART \<noteq> CMD_SET_CAPTURE_FULL"
    by (simp add: CMD_SET_CAPTURE_FULL_def CMD_SET_CAPTURE_PART_def)
  have pos: "i * 640 + j < 230400" "(i * 640 + j) div 640 = i" "(i * 640 + j) mod 640 = j" "2 * i * 1280 + 2 * j < 921600"
    using assms(7,8) by simp_all
  show ?thesis
    unfolding w using m n assms(6) pos
    by (simp add: snapshot_def halved_def picture_def layered_def frame_words FRAME_WIDTH_def FRAME_HEIGHT_def Let_def
        ac_simps)
qed

lemma requested_fields:
  "init_tx_buf (requested opened dev s) = init_tx_buf s"
  "capture_mode (requested opened dev s) = CMD_SET_CAPTURE_PART"
  "lay0_is_ready (requested opened dev s) = lay0_is_ready s"
  "words i (requested opened dev s) = words i s"
  by (simp_all add: requested_def words_def)

lemma requested_reach:
  assumes "evsoc_reach d cam kmalloc (n, s)"
  shows "evsoc_reach d cam kmalloc (n, requested opened dev s)"
proof -
  have "evsoc_reach d cam kmalloc (n, s\<lparr>select_demo_mode := accel_mode (hw_cmd dev)\<rparr>)"
    using main_proc_of_ioctl [OF ioctl_set_mode [of d "accel_arg (hw_cmd dev)" s] assms] by (simp add: accel_arg_mode)
  then have "evsoc_reach d cam kmalloc (n, if hw_enable dev \<and> opened then s\<lparr>select_demo_mode := accel_mode (hw_cmd dev)\<rparr> else s)"
    using assms by simp
  from main_proc_of_ioctl [OF ioctl_set_capture [of d "ucast CMD_SET_CAPTURE_PART"] this]
  show ?thesis by (simp add: requested_def CMD_SET_CAPTURE_PART_def)
qed

definition dma_completes :: "iomem device \<Rightarrow> bool" where
  "dma_completes d \<longleftrightarrow> (\<forall>h. dmasg_wait d DMASG_BASE DMASG_CAM_S2MM_CHANNEL h \<noteq> None)"

lemma round_serves:
  assumes "evsoc_inv s" "dma_completes d" "init_tx_buf s = 0" "capture_mode s = CMD_SET_CAPTURE_PART"
  shows "\<exists>n' s'. rx_round d cam (n, s) = Some (n', s') \<and> allocated s' \<and> capture_mode s' = 0 \<and>
    (\<forall>i j. i < 360 \<longrightarrow> j < 640 \<longrightarrow> words CAPTURE_IDX s' (i * 640 + j) =
     (let p = 2 * i * FRAME_WIDTH + 2 * j in
      if lay0_is_ready s > 0 \<and> opaque (words LAYER0_IDX s p) then rgb (words LAYER0_IDX s p) else cam (io s') p))"
proof -
  have mode: "\<not> select_demo_mode s > 3" "select_demo_mode s \<noteq> 1" using assms(1) by (auto simp: evsoc_inv_def)
  have inv: "allocated s" "handles_distinct s" "rx_buf_idx s = 0 \<or> rx_buf_idx s = 2" using assms(1) by (auto simp: evsoc_inv_def)
  obtain h where h: "dmasg_wait d DMASG_BASE DMASG_CAM_S2MM_CHANNEL (rx_trigger (select_demo_mode s) (get_rx_buf s) (io s)) = Some h"
    using assms(2) by (auto simp: dma_completes_def)
  let ?s' = "after_frame (cam h) h s"
  have run: "do_rx_proc d cam (select_demo_mode s) s = Some (1, ?s')"
    unfolding do_rx_proc_eq [OF inv mode(2)] h by simp
  have "rx_round d cam (n, s) = Some (if n > 1000 then 0 else n + 1, ?s')"
    using run assms(3) mode(1) by (simp add: rx_round_def)
  moreover have "allocated ?s'" using inv(1) by (auto simp: after_frame_def allocated_def Let_def list_all_iff)
  moreover note cap = capture_of_round [OF run inv mode(2) assms(4)]
  moreover have "capture_mode ?s' = 0" using cap [of 0 0] by simp
  ultimately show ?thesis by (intro exI [of _ "if n > 1000 then 0 else n + 1"] exI [of _ ?s']) auto
qed

text \<open>
  C3: A picture asked for arrives.  In every reachable state of the driver whose start-up pattern is
  over, when DMA transfers complete, a capture by the web server is accepted and the next
  round of the driver's thread serves it: the following capture, whichever accelerator it
  asks for, reads 360 rows of 640 pixels whose pixel (i, j) has the colours of the word 2j of row
  2i of that round's frame, with the opaque layer over the camera image, and asks again.
\<close>
theorem web_frame_arrives:
  assumes "evsoc_reach d cam kmalloc (n, s)" "list_all (\<lambda>i. kmalloc i \<noteq> None) [0..<MAX_DMA_BUF_NUM]"
    "distinct (map (\<lambda>i. snd (the (kmalloc i))) [0..<MAX_DMA_BUF_NUM])"
    "dma_completes d" "init_tx_buf s = 0" "i < 360" "j < 640"
  shows "\<exists>pic s1 n2 s2 pic2 s3.
    video_capture_stream d opened True dev s = Some (pic, s1) \<and> rx_round d cam (n, s1) = Some (n2, s2) \<and>
    capture_mode s2 = 0 \<and>
    video_capture_stream d opened' True dev' s2 = Some (pic2, s3) \<and> capture_mode s3 = CMD_SET_CAPTURE_PART \<and>
    pic2 ! i ! j = (let p = 2 * i * FRAME_WIDTH + 2 * j; l = words LAYER0_IDX s p;
                        w = (if lay0_is_ready s > 0 \<and> opaque l then rgb l else cam (io s2) p)
                    in (ucast (drop_bit 16 w), ucast (drop_bit 8 w), ucast w))"
proof -
  let ?s = "requested opened dev s"
  have inv: "evsoc_inv s" using evsoc_reach_inv [OF assms(1-3)] by simp
  have inv1: "evsoc_inv ?s" using evsoc_reach_inv [OF requested_reach [OF assms(1)] assms(2,3)] by simp
  have cap: "CAPTURE_IDX < MAX_DMA_BUF_NUM" by (rule idx_bounds)
  obtain buf where b: "cam_dma_cpu_arry s CAPTURE_IDX = Some buf"
    using inv allocatedD [OF _ cap] by (auto simp: evsoc_inv_def)
  obtain n2 sb where r: "rx_round d cam (n, ?s) = Some (n2, sb)" "allocated sb" "capture_mode sb = 0"
    and px: "words CAPTURE_IDX sb (i * 640 + j) =
     (let p = 2 * i * FRAME_WIDTH + 2 * j in
      if lay0_is_ready ?s > 0 \<and> opaque (words LAYER0_IDX ?s p) then rgb (words LAYER0_IDX ?s p) else cam (io sb) p)"
    using round_serves [OF inv1 assms(4), of cam n] assms(5-7) by (auto simp: requested_fields)
  have "video_capture_stream d opened True dev s = Some (fill_mat 360 640 buf, ?s)"
    by (simp add: video_capture_stream_eq b)
  moreover have "video_capture_stream d opened' True dev' sb =
      Some (fill_mat 360 640 (words CAPTURE_IDX sb), requested opened' dev' sb)"
    by (simp add: video_capture_stream_eq allocatedD [OF r(2) cap])
  ultimately show ?thesis
    using r(1,3) px requested_fields(2) [of opened' dev' sb]
    by (simp add: fill_mat_at [OF assms(6,7)] fill_pixel_bytes requested_fields Let_def)
qed

lemma demo_dma_completes: "dma_completes (\<lambda>h a. 0)"
  unfolding dma_completes_def dmasg_wait_def by (subst spin_until.simps) simp

theorem web_frame_arrives_witness:
  "\<exists>s pic s1 n2 s2 pic2 s3. evsoc_reach (\<lambda>h a. 0) (\<lambda>h p. of_nat p) demo_kmalloc (0, s) \<and>
    video_capture_stream (\<lambda>h a. 0) True True \<lparr>hw_cmd = HW_ACCEL_EROSION, hw_enable = True, sw_grayscale = 0, capture = 0, img_list = []\<rparr> s
      = Some (pic, s1) \<and>
    rx_round (\<lambda>h a. 0) (\<lambda>h p. of_nat p) (0, s1) = Some (n2, s2) \<and>
    video_capture_stream (\<lambda>h a. 0) True True \<lparr>hw_cmd = HW_ACCEL_NONE, hw_enable = True, sw_grayscale = 0, capture = 0, img_list = []\<rparr> s2
      = Some (pic2, s3) \<and> capture_mode s2 = 0"
proof -
  obtain s0 where "main_init (\<lambda>h a. 0) True (my_init demo_kmalloc evsoc_globals) = Some s0"
    using main_init_live [OF responsive_zero] by blast
  then have "evsoc_reach (\<lambda>h a. 0) (\<lambda>h p. of_nat p) demo_kmalloc (0, s0)" by (rule reach_init)
  then have r: "evsoc_reach (\<lambda>h a. 0) (\<lambda>h p. of_nat p) demo_kmalloc (0, start_tx_end s0)" by (rule reach_awake)
  have k: "list_all (\<lambda>i. demo_kmalloc i \<noteq> None) [0..<MAX_DMA_BUF_NUM]"
    "distinct (map (\<lambda>i. snd (the (demo_kmalloc i))) [0..<MAX_DMA_BUF_NUM])"
    by (simp_all add: demo_kmalloc_def four_buffers)
  have i: "init_tx_buf (start_tx_end s0) = 0" by (simp add: start_tx_end_def)
  show ?thesis
    using r web_frame_arrives [OF r k demo_dma_completes i, of 5 7 True
        "\<lparr>hw_cmd = HW_ACCEL_EROSION, hw_enable = True, sw_grayscale = 0, capture = 0, img_list = []\<rparr>" True
        "\<lparr>hw_cmd = HW_ACCEL_NONE, hw_enable = True, sw_grayscale = 0, capture = 0, img_list = []\<rparr>"]
    by (simp del: split_paired_Ex) blast
qed

lemma snprintf_twice: "snprintf_str n (snprintf_str n s) = snprintf_str n s"
  by (simp add: snprintf_str_def)

definition stream_parts :: "u8 list \<Rightarrow> connection \<Rightarrow> (nat \<times> u8 list) list" where
  "stream_parts data = (\<lambda>(c, label). if label = CHR ''S''
     then [(c, bytes_of (part_header (length data))), (c, data), (c, [0x0D, 0x0A])] else [])"

lemma send_frame_parts: "send_frame conns data = concat (map (stream_parts data) conns)"
  by (induction conns data rule: send_frame.induct) (simp_all add: stream_parts_def)

lemma check_and_capture_result:
  assumes "list_all name_ok (img_list dev)"
  shows "\<exists>dev' eff. check_and_capture_photo True dev = Some (dev', eff) \<and>
    (if capture dev = 1
     then capture dev' = 0 \<and> (\<exists>f. img_list dev' = f # img_list dev \<and>
        eff = [Saved (web_root @ ''/images/'' @ f), Reply (update_page (f # img_list dev))])
     else dev' = dev \<and> eff = [])"
proof -
  obtain num where n: "next_number (img_list dev) = Some num" using next_number_ok [OF assms] by blast
  show ?thesis
    by (simp add: check_and_capture_photo_def capture_photo_def n append_list_def snprintf_twice Let_def)
qed

lemma broadcast_frame_result:
  assumes "cam_dma_cpu_arry s CAPTURE_IDX = Some buf" "list_all name_ok (img_list dev)"
  shows "\<exists>dev' s' eff. broadcast_mjpeg_camera_frame d cv opened True True conns dev s =
      Some (dev', s', concat (map (stream_parts
        (encode_jpg cv 95 (process_frame cv dev (mat_of cv (fill_mat 360 640 buf))))) conns), eff) \<and>
    capture_mode s' = CMD_SET_CAPTURE_PART \<and>
    (if capture dev = 1
     then capture dev' = 0 \<and> (\<exists>f. img_list dev' = f # img_list dev \<and>
        eff = [Saved (web_root @ ''/images/'' @ f), Reply (update_page (f # img_list dev))])
     else dev' = dev \<and> eff = [])"
proof -
  have cap: "video_capture_stream d opened True dev s = Some (fill_mat 360 640 buf, requested opened dev s)"
    by (simp add: video_capture_stream_eq assms(1))
  obtain dev' eff where chk: "check_and_capture_photo True dev = Some (dev', eff)"
    "if capture dev = 1
     then capture dev' = 0 \<and> (\<exists>f. img_list dev' = f # img_list dev \<and>
        eff = [Saved (web_root @ ''/images/'' @ f), Reply (update_page (f # img_list dev))])
     else dev' = dev \<and> eff = []"
    using check_and_capture_result [OF assms(2)] by blast
  show ?thesis
    by (rule exI [of _ dev'], rule exI [of _ "requested opened dev s"], rule exI [of _ eff],
        intro conjI chk(2) requested_fields)
      (simp add: broadcast_mjpeg_camera_frame_def cap chk(1) send_frame_parts encode_frame_def Let_def)
qed



end
