(* ===== verification/EvsocApp.thy ===== *)
theory EvsocApp
  imports CamStack
begin

text \<open>
  The Edge Vision command-line application on top of the driver: package/evsoc_app/src, the commands
  and threads of evsoc_app.cpp, the pictures and title messages of evsoc_func.cpp, and the command
  tables and number parsing of evsoc_cli.cpp.  The record \<open>app\<close> holds the globals of these files and
  the state of the driver underneath, reached by ioctl and through the mapped capture buffer.
  \<open>None\<close> is an access outside an array or through a failed mapping.  Sleeping, the
  clock, the video writer's success and the arrival of signals are arguments.
\<close>

unbundle bit_operations_syntax

section \<open>Names, numbers and files\<close>

text \<open>\<open>std::string::rfind\<close>: the last position at which the suffix occurs.\<close>

definition rfind :: "string \<Rightarrow> string \<Rightarrow> nat option" where
  "rfind str suffix =
     find (\<lambda>i. take (length suffix) (drop i str) = suffix) (rev [0..<Suc (length str)])"

definition endsWith :: "string \<Rightarrow> string \<Rightarrow> bool" where
  "endsWith str suffix =
     (if length suffix > length str then False else rfind str suffix = Some (length str - length suffix))"

definition app_enums :: "(string \<times> int) list" where
  "app_enums = [(''None'', 0), (''Erosion'', 1), (''Dilation'', 2), (''X1Bin'', 0), (''X2Bin'', 1), (''X4Bin'', 2),
     (''Green'', 0), (''Blue'', 1), (''White'', 2), (''Black'', 3)]"

definition get_enum :: "string \<Rightarrow> int option" where
  "get_enum name = map_of app_enums name"

definition is_hex :: "char \<Rightarrow> bool" where
  "is_hex c \<longleftrightarrow> is_digit c \<or> (65 \<le> (of_char c :: nat) \<and> (of_char c :: nat) \<le> 70) \<or> (97 \<le> (of_char c :: nat) \<and> (of_char c :: nat) \<le> 102)"

text \<open>
  The result and the value left in \<open>pInt\<close>, which starts as \<open>old\<close>.  The characters have been checked to be
  hexadecimal digits, so %d of sscanf reads the leading decimal digits, if any; a number
  outside \<open>int\<close> is undefined.
\<close>

definition get_int :: "string \<Rightarrow> int \<Rightarrow> (bool \<times> int) option" where
  "get_int name old =
     (if length name = 0 then Some (False, old)
      else if \<not> list_all is_hex name then Some (False, old)
      else if \<not> is_digit (hd name) then Some (True, old)
      else let v = atoi name in if int_range v then Some (True, v) else None)"

fun hex_digits :: "nat \<Rightarrow> string" where
  "hex_digits n =
     (let c = (\<lambda>d. if d < 10 then char_of (48 + d) else char_of (87 + d)) in
      if n < 16 then [c n] else hex_digits (n div 16) @ [c (n mod 16)])"

declare hex_digits.simps [simp del]

definition CMD_RET_OK :: int where "CMD_RET_OK = 0"
definition CMD_RET_FAIL :: int where "CMD_RET_FAIL = -1"

definition check_para_num :: "nat \<Rightarrow> nat \<Rightarrow> bool" where
  "check_para_num argc num = (argc = num + 1)"

section \<open>The application's state\<close>

datatype app_output = PictureFile string pixels | VideoFile string "pixels list"

record app =
  worker_queue :: "u32 list"
  ignored_key_event :: bool
  capture_done_event :: bool
  cap_vid_len :: int
  cap_vid_name :: string
  title_msg_delay :: int
  video_write_hdl :: "string option"
  cap_timer :: int
  cap_vect :: "pixels list"
  dbg_idx :: nat
  outputs :: "app_output list"
  driver :: evsoc

definition app_start :: "evsoc \<Rightarrow> app" where
  "app_start s = \<lparr>worker_queue = [], ignored_key_event = False, capture_done_event = False, cap_vid_len = 0,
     cap_vid_name = [], title_msg_delay = 0, video_write_hdl = None, cap_timer = 0, cap_vect = [],
     dbg_idx = 0, outputs = [], driver = s\<rparr>"

text \<open>
  An ioctl whose result the program drops.  When the single-open device could not be
  opened (\<open>opened\<close> is False) the descriptor is -1 and the call does nothing.
\<close>

definition app_ioctl :: "iomem device \<Rightarrow> bool \<Rightarrow> u32 \<Rightarrow> u32 \<Rightarrow> evsoc \<Rightarrow> evsoc option" where
  "app_ioctl d opened cmd arg s = (if opened then map_option snd (evsoc_ioctl (main_proc d) cmd arg s) else Some s)"

definition drv_ioctl :: "iomem device \<Rightarrow> bool \<Rightarrow> u32 \<Rightarrow> u32 \<Rightarrow> app \<Rightarrow> app option" where
  "drv_ioctl d opened cmd arg a = map_option (\<lambda>s. a\<lparr>driver := s\<rparr>) (app_ioctl d opened cmd arg (driver a))"

section \<open>Text on the picture\<close>

definition char_arg :: "char \<Rightarrow> int \<Rightarrow> int \<Rightarrow> int \<Rightarrow> u32" where
  "char_arg c lType lRow lCol =
     ucast (of_char c :: u8) OR (push_bit 8 (word_of_int lType) AND 0xff00)
       OR (push_bit 16 (word_of_int lRow) AND 0xff0000) OR (push_bit 24 (word_of_int lCol) AND 0xff000000)"

fun put_text :: "iomem device \<Rightarrow> bool \<Rightarrow> u32 \<Rightarrow> int \<Rightarrow> int \<Rightarrow> int \<Rightarrow> string \<Rightarrow> evsoc \<Rightarrow> evsoc option" where
  "put_text d opened cmd lType lRow lCol [] s = Some s"
| "put_text d opened cmd lType lRow lCol (c # cs) s = do {
     s \<leftarrow> app_ioctl d opened cmd (char_arg c lType lRow lCol) s;
     put_text d opened cmd lType lRow (lCol + 1) cs s
   }"

definition title_msg :: "iomem device \<Rightarrow> bool \<Rightarrow> string \<Rightarrow> app \<Rightarrow> app option" where
  "title_msg d opened text a =
     (let lStr = snprintf_str 256 text in
      if length lStr = 0 then Some a
      else do {
        s \<leftarrow> app_ioctl d opened CMD_CLR_MSG 3 (driver a);
        s \<leftarrow> put_text d opened CMD_SET_MSG 0 0 0 lStr s;
        s \<leftarrow> app_ioctl d opened CMD_CLR_MSG 1 s;
        Some (a\<lparr>driver := s, title_msg_delay := 1500\<rparr>)
      })"

definition poll_title_msg :: "iomem device \<Rightarrow> bool \<Rightarrow> bool \<Rightarrow> app \<Rightarrow> app option" where
  "poll_title_msg d opened pForce a =
     (if title_msg_delay a = 0 then Some a
      else
        let a = a\<lparr>title_msg_delay := if pForce then 0 else title_msg_delay a - 1\<rparr> in
        if title_msg_delay a = 0 then drv_ioctl d opened CMD_CLR_MSG 3 a else Some a)"

text \<open>Row and column keep what \<open>get_int\<close> leaves in them; they start indeterminate.\<close>

definition prt_char :: "iomem device \<Rightarrow> bool \<Rightarrow> int \<Rightarrow> int \<Rightarrow> string list \<Rightarrow> app \<Rightarrow> (int \<times> app) option" where
  "prt_char d opened junk_row junk_col argv a =
     (if length argv \<noteq> 4 \<and> length argv \<noteq> 5 then Some (CMD_RET_FAIL, a)
      else do {
        (ok, lRow) \<leftarrow> get_int (argv ! 1) junk_row;
        if \<not> ok then Some (CMD_RET_FAIL, a)
        else do {
          (ok, lCol) \<leftarrow> get_int (argv ! 2) junk_col;
          if \<not> ok then Some (CMD_RET_FAIL, a)
          else let lStr = argv ! 3 in
            if length lStr = 0 then Some (CMD_RET_FAIL, a)
            else case (if length argv = 5 then get_enum (argv ! 4) else Some 0) of
              None \<Rightarrow> Some (CMD_RET_FAIL, a)
            | Some lType \<Rightarrow>
                if lType > 3 then Some (CMD_RET_FAIL, a)
                else do {
                  s \<leftarrow> app_ioctl d opened CMD_SET_LAYER 0 (driver a);
                  s \<leftarrow> put_text d opened CMD_SET_CHAR lType lRow lCol lStr s;
                  s \<leftarrow> app_ioctl d opened CMD_SET_LAYER 1 s;
                  Some (CMD_RET_OK, a\<lparr>driver := s\<rparr>)
                }
        }
      })"

definition clr_disp :: "iomem device \<Rightarrow> bool \<Rightarrow> string list \<Rightarrow> app \<Rightarrow> (int \<times> app) option" where
  "clr_disp d opened argv a = map_option (Pair CMD_RET_OK) (drv_ioctl d opened CMD_SET_LAYER 3 a)"

section \<open>Settings\<close>

definition set_hwacc :: "iomem device \<Rightarrow> bool \<Rightarrow> string list \<Rightarrow> app \<Rightarrow> (int \<times> app) option" where
  "set_hwacc d opened argv a =
     (if \<not> check_para_num (length argv) 1 then Some (CMD_RET_FAIL, a)
      else case get_enum (argv ! 1) of
        None \<Rightarrow> Some (CMD_RET_FAIL, a)
      | Some lVal \<Rightarrow>
          if lVal \<ge> 3 then Some (CMD_RET_FAIL, a)
          else map_option (Pair CMD_RET_OK) (drv_ioctl d opened CMD_SET_MODE (word_of_int lVal) a))"

definition set_binning :: "iomem device \<Rightarrow> bool \<Rightarrow> string list \<Rightarrow> app \<Rightarrow> (int \<times> app) option" where
  "set_binning d opened argv a =
     (if \<not> check_para_num (length argv) 1 then Some (CMD_RET_FAIL, a)
      else case get_enum (argv ! 1) of
        None \<Rightarrow> Some (CMD_RET_FAIL, a)
      | Some lVal \<Rightarrow> map_option (Pair CMD_RET_OK) (drv_ioctl d opened CMD_SET_CAM_BINNING (word_of_int lVal) a))"

section \<open>Pictures\<close>

definition crt_pic :: "bool \<Rightarrow> string \<Rightarrow> nat \<Rightarrow> nat \<Rightarrow> (nat \<Rightarrow> u32) \<Rightarrow> int \<times> app_output list" where
  "crt_pic saved pFileName pWi pHi pBuf =
     (if pFileName = [] then (0, [])
      else if \<not> (endsWith pFileName ''.jpg'' \<or> endsWith pFileName ''.jpeg'' \<or> endsWith pFileName ''.bmp'') then (0, [])
      else let mat = fill_mat pHi pWi pBuf in
        if saved then (0, [PictureFile pFileName mat]) else (1, []))"

text \<open>
  \<open>mapped\<close> says that the capture buffer could be mapped and memory for the copy was there; otherwise
  the copy goes through an invalid address.  \<open>during\<close> is what the driver does while the
  program sleeps.
\<close>

definition capture_view ::
  "iomem device \<Rightarrow> bool \<Rightarrow> bool \<Rightarrow> bool \<Rightarrow> (evsoc \<Rightarrow> evsoc) \<Rightarrow> string list \<Rightarrow> app \<Rightarrow> (int \<times> app) option" where
  "capture_view d opened mapped saved during argv a =
     (if \<not> check_para_num (length argv) 1 then Some (CMD_RET_FAIL, a)
      else do {
        let lNameStr = (if \<not> endsWith (argv ! 1) ''.jpg'' then argv ! 1 @ ''.jpg'' else argv ! 1);
        s \<leftarrow> app_ioctl d opened CMD_SET_CAPTURE (ucast CMD_SET_CAPTURE_FULL) (driver a);
        let s = during s;
        buffer \<leftarrow> (if mapped then cam_dma_cpu_arry s CAPTURE_IDX else None);
        let (r, out) = crt_pic saved lNameStr FRAME_WIDTH FRAME_HEIGHT buffer;
        Some (CMD_RET_OK, a\<lparr>driver := s, outputs := outputs a @ out\<rparr>)
      })"

definition crt_auto_pic :: "bool \<Rightarrow> nat \<Rightarrow> nat \<Rightarrow> nat \<Rightarrow> nat \<Rightarrow> (nat \<Rightarrow> u32) \<Rightarrow> string \<times> app_output list" where
  "crt_auto_pic saved lSec lUsec pWi pHi pBuf =
     (let jpg_file_name = ''pic_'' @ hex_digits lSec @ ''_'' @ hex_digits lUsec @ ''.jpg''
      in (jpg_file_name, snd (crt_pic saved jpg_file_name pWi pHi pBuf)))"

definition capture_auto_pic ::
  "iomem device \<Rightarrow> bool \<Rightarrow> bool \<Rightarrow> bool \<Rightarrow> bool \<Rightarrow> (evsoc \<Rightarrow> evsoc) \<Rightarrow> nat \<Rightarrow> nat \<Rightarrow> app \<Rightarrow> app option" where
  "capture_auto_pic d msgs_open opened mapped saved during lSec lUsec a = do {
     a \<leftarrow> title_msg d msgs_open ''Start To Capture pic ...'' a;
     a \<leftarrow> drv_ioctl d opened CMD_SET_CAPTURE 1 a;
     let a = a\<lparr>driver := during (driver a)\<rparr>;
     buffer \<leftarrow> (if opened \<and> mapped then cam_dma_cpu_arry (driver a) CAPTURE_IDX else None);
     let (lFileName, out) = crt_auto_pic saved lSec lUsec FRAME_WIDTH FRAME_HEIGHT buffer;
     title_msg d msgs_open (''Done: save as '' @ lFileName @ ''!'') (a\<lparr>outputs := outputs a @ out\<rparr>)
   }"

section \<open>Videos\<close>

definition capture_video :: "int \<Rightarrow> string list \<Rightarrow> app \<Rightarrow> (int \<times> app) option" where
  "capture_video junk argv a =
     (if \<not> check_para_num (length argv) 2 then Some (CMD_RET_FAIL, a)
      else if cap_vid_len a \<noteq> 0 then Some (CMD_RET_FAIL, a)
      else if length (argv ! 1) \<ge> 256 then None
      else do {
        let a = a\<lparr>cap_vid_name := argv ! 1\<rparr>;
        (ok, lInVal) \<leftarrow> get_int (argv ! 2) junk;
        if \<not> ok then Some (CMD_RET_FAIL, a)
        else Some (CMD_RET_OK, a\<lparr>cap_vid_len := if lInVal > 30 then 30 else lInVal\<rparr>)
      })"

definition capture_auto_video :: "int \<Rightarrow> nat \<Rightarrow> nat \<Rightarrow> app \<Rightarrow> app" where
  "capture_auto_video pSec lSec lUsec a =
     (if cap_vid_len a \<noteq> 0 then a
      else a\<lparr>cap_vid_name := ''video_'' @ hex_digits lSec @ ''_'' @ hex_digits lUsec @ ''.avi'', cap_vid_len := pSec\<rparr>)"

text \<open>\<open>lDbgTime[lDbgIdx++] = ...\<close> with its 100 entries.\<close>

definition dbg_note :: "app \<Rightarrow> app option" where
  "dbg_note a = (if dbg_idx a < 100 then Some (a\<lparr>dbg_idx := dbg_idx a + 1\<rparr>) else None)"

fun save_frames :: "iomem device \<Rightarrow> bool \<Rightarrow> nat \<Rightarrow> nat list \<Rightarrow> app \<Rightarrow> app option" where
  "save_frames d msgs_open lLen [] a = Some a"
| "save_frames d msgs_open lLen (i # is) a = do {
     a \<leftarrow> (if i mod 3 = 0 then title_msg d msgs_open (''Save:'' @ decimal (int ((lLen - i) div 3))) a else Some a);
     save_frames d msgs_open lLen is a
   }"

text \<open>
  One round of the video thread's loop.  \<open>due\<close> says that 200 ms have passed since the last frame,
  \<open>writer\<close> that the video file could be opened.
\<close>

definition avi_name :: "string \<Rightarrow> string" where
  "avi_name lNameStr = (if \<not> endsWith lNameStr ''.avi'' then lNameStr @ ''.avi'' else lNameStr)"

definition video_open :: "iomem device \<Rightarrow> bool \<Rightarrow> bool \<Rightarrow> bool \<Rightarrow> app \<Rightarrow> app option" where
  "video_open d msgs_open opened writer a = do {
     let lNameStr = avi_name (cap_vid_name a);
     if length lNameStr \<ge> 256 then None else do {
     let a = a\<lparr>cap_vid_name := lNameStr\<rparr>;
     a \<leftarrow> dbg_note a;
     a \<leftarrow> title_msg d msgs_open ''start to capture video ...'' a;
     a \<leftarrow> dbg_note a;
     if \<not> writer then Some (a\<lparr>cap_timer := 0, cap_vid_len := 0, video_write_hdl := None\<rparr>)
     else do {
       a \<leftarrow> drv_ioctl d opened CMD_SET_CAPTURE (ucast CMD_SET_CAPTURE_PART) (a\<lparr>video_write_hdl := Some lNameStr\<rparr>);
       dbg_note a
     }}
   }"

definition video_finish :: "iomem device \<Rightarrow> bool \<Rightarrow> string \<Rightarrow> app \<Rightarrow> app option" where
  "video_finish d msgs_open name a = do {
     let lLen = length (cap_vect a);
     a \<leftarrow> save_frames d msgs_open lLen [0..<lLen] a;
     let a = a\<lparr>outputs := outputs a @ [VideoFile name (cap_vect a)], cap_vect := [], video_write_hdl := None\<rparr>;
     a \<leftarrow> title_msg d msgs_open (''Done to capture video:'' @ cap_vid_name a) a;
     Some (a\<lparr>dbg_idx := 0, cap_timer := 0, cap_vid_len := 0\<rparr>)
   }"

definition video_frame :: "iomem device \<Rightarrow> bool \<Rightarrow> bool \<Rightarrow> bool \<Rightarrow> string \<Rightarrow> app \<Rightarrow> app option" where
  "video_frame d msgs_open opened mapped name a = do {
     mapBuf \<leftarrow> (if opened \<and> mapped then cam_dma_cpu_arry (driver a) CAPTURE_IDX else None);
     let lCapMat = fill_mat (FRAME_HEIGHT div 2) (FRAME_WIDTH div 2) mapBuf;
     a \<leftarrow> drv_ioctl d opened CMD_SET_CAPTURE (ucast CMD_SET_CAPTURE_PART) a;
     a \<leftarrow> dbg_note a;
     let a = a\<lparr>cap_vect := cap_vect a @ [lCapMat]\<rparr>;
     if cap_timer a = 0 then video_finish d msgs_open name a
     else if cap_timer a mod 5 = 0 then title_msg d msgs_open (''Capture:'' @ decimal (cap_timer a div 5)) a
     else Some a
   }"

definition worker2_round ::
  "iomem device \<Rightarrow> bool \<Rightarrow> bool \<Rightarrow> bool \<Rightarrow> bool \<Rightarrow> bool \<Rightarrow> app \<Rightarrow> app option" where
  "worker2_round d msgs_open opened mapped writer due a =
     (if cap_vid_len a = 0 then Some a
      else
        let a = (if cap_timer a = 0 then a\<lparr>cap_timer := cap_vid_len a * 5 + 1\<rparr> else a) in
        if \<not> due then Some a
        else
          let a = a\<lparr>cap_timer := cap_timer a - 1\<rparr> in
          case video_write_hdl a of
            None \<Rightarrow> video_open d msgs_open opened writer a
          | Some name \<Rightarrow> video_frame d msgs_open opened mapped name a)"

section \<open>Signals and the worker thread\<close>

definition signal_handler :: "u32 \<Rightarrow> app \<Rightarrow> app" where
  "signal_handler lVal a =
     (if lVal AND 0xff = ucast SIG_TYPE_CAPTURE_DONE then a\<lparr>capture_done_event := True\<rparr>
      else if lVal AND 0xff = ucast SIG_TYPE_KEY_ACT \<and> ignored_key_event a then a
      else a\<lparr>worker_queue := worker_queue a @ [lVal]\<rparr>)"

text \<open>
  One round of the worker's loop.  \<open>take\<close> is \<open>capture_auto_pic\<close> at its time and \<open>arrive\<close> are the
  signals delivered in the half second after a key event.
\<close>

definition auto_pic :: "(app \<Rightarrow> app option) \<Rightarrow> app \<Rightarrow> app option" where
  "auto_pic take_pic a = do {
     a \<leftarrow> take_pic (a\<lparr>ignored_key_event := True\<rparr>);
     Some (a\<lparr>ignored_key_event := False\<rparr>)
   }"

definition worker_round ::
  "iomem device \<Rightarrow> bool \<Rightarrow> (app \<Rightarrow> app option) \<Rightarrow> u32 list \<Rightarrow> nat \<Rightarrow> nat \<Rightarrow> app \<Rightarrow> app option" where
  "worker_round d msgs_open take_pic arrive lSec lUsec a = do {
     a \<leftarrow> poll_title_msg d msgs_open False a;
     case worker_queue a of
       [] \<Rightarrow> Some (a\<lparr>ignored_key_event := False\<rparr>)
     | lVal # q \<Rightarrow>
         let a = a\<lparr>worker_queue := q\<rparr> in
         if lVal AND 0xff = ucast SIG_TYPE_KEY_ACT then
           let a = fold signal_handler arrive a in
           case worker_queue a of
             [] \<Rightarrow> auto_pic take_pic a
           | lVal # q \<Rightarrow>
               let a = a\<lparr>worker_queue := q\<rparr> in
               if lVal AND 0xff = ucast SIG_TYPE_KEY_ACT then
                 Some ((capture_auto_video 10 lSec lUsec (a\<lparr>ignored_key_event := True\<rparr>))\<lparr>ignored_key_event := False\<rparr>)
               else auto_pic take_pic a
         else Some a
   }"

section \<open>Commands and main\<close>

text \<open>
  The registered commands with their functions; \<open>cmd_proc\<close> returns whether the program is to end.
\<close>

type_synonym command = "string list \<Rightarrow> app \<Rightarrow> (int \<times> app) option"

definition cmd_proc :: "(string \<times> command) list \<Rightarrow> string list \<Rightarrow> app \<Rightarrow> (bool \<times> app) option" where
  "cmd_proc g_cmd_vect argv a =
     (case argv of
        [] \<Rightarrow> Some (False, a)
      | lCmd # r \<Rightarrow>
          if lCmd = ''quit'' then Some (True, a)
          else if lCmd = ''help'' then Some (False, a)
          else case find (\<lambda>(mCmd, f). mCmd = lCmd) g_cmd_vect of
            Some (mCmd, mFunPtr) \<Rightarrow> map_option (\<lambda>(r, a). (False, a)) (mFunPtr argv a)
          | None \<Rightarrow> Some (False, a))"

definition app_commands ::
  "iomem device \<Rightarrow> bool \<Rightarrow> bool \<Rightarrow> bool \<Rightarrow> (evsoc \<Rightarrow> evsoc) \<Rightarrow> int \<Rightarrow> (string \<times> command) list" where
  "app_commands d opened mapped saved during junk =
     [(''hwacc'', set_hwacc d opened), (''cappic'', capture_view d opened mapped saved during),
      (''capvideo'', capture_video junk), (''binning'', set_binning d opened), (''clrchar'', clr_disp d opened),
      (''prtchar'', prt_char d opened junk junk)]"

text \<open>\<open>main\<close> with arguments: it registers its process, runs the one command and deregisters.\<close>

definition app_main ::
  "iomem device \<Rightarrow> bool \<Rightarrow> bool \<Rightarrow> bool \<Rightarrow> (evsoc \<Rightarrow> evsoc) \<Rightarrow> int \<Rightarrow> u32 \<Rightarrow> string list \<Rightarrow> evsoc \<Rightarrow> (int \<times> app) option" where
  "app_main d opened mapped saved during junk pid argv s = do {
     a \<leftarrow> drv_ioctl d opened CMD_SET_PID pid (app_start s);
     (done, a) \<leftarrow> cmd_proc (app_commands d opened mapped saved during junk) argv a;
     a \<leftarrow> poll_title_msg d opened True a;
     a \<leftarrow> drv_ioctl d opened CMD_SET_PID 0 a;
     Some (1, a)
   }"

end
