(* ===== verification/EvsocAppProps.thy ===== *)
theory EvsocAppProps
  imports EvsocApp
begin

text \<open>
  What the Edge Vision application shows, films and does on key events: text printed through the driver's
  character commands, the title line, the rounds of the video thread and of the worker.
\<close>

unbundle bit_operations_syntax

section \<open>Names and numbers\<close>

lemma find_append: "find P (xs @ ys) = (case find P xs of None \<Rightarrow> find P ys | Some x \<Rightarrow> Some x)"
  by (induction xs) simp_all

lemma rfind_end: "rfind (p @ suf) suf = Some (length p)"
proof -
  let ?P = "\<lambda>i. take (length suf) (drop i (p @ suf)) = suf"
  have u: "[0..<Suc (length (p @ suf))] = [0..<Suc (length p)] @ [Suc (length p)..<Suc (length (p @ suf))]"
  proof -
    have "Suc (length (p @ suf)) = Suc (length p) + length suf" by simp
    then show ?thesis by (simp only: upt_add_eq_append [of 0 "Suc (length p)" "length suf"])
  qed
  have "\<not> ?P i" if "Suc (length p) \<le> i" "i < Suc (length (p @ suf))" for i
  proof
    assume "?P i"
    then have "length (take (length suf) (drop i (p @ suf))) = length suf" by simp
    then show False using that by simp
  qed
  then have "find ?P (rev [Suc (length p)..<Suc (length (p @ suf))]) = None"
    unfolding find_None_iff by (metis (no_types, lifting) atLeastLessThan_iff set_rev set_upt)
  moreover have "find ?P (rev [0..<Suc (length p)]) = Some (length p)" by simp
  ultimately show ?thesis unfolding rfind_def u rev_append find_append by simp
qed

lemma find_SomeD: "find P xs = Some x \<Longrightarrow> P x"
  by (auto simp: find_Some_iff)

lemma endsWith_iff: "endsWith str suf \<longleftrightarrow> (\<exists>p. str = p @ suf)"
proof
  assume "endsWith str suf"
  then have e: "length suf \<le> length str" "rfind str suf = Some (length str - length suf)"
    by (simp_all add: endsWith_def split: if_splits)
  have "take (length suf) (drop (length str - length suf) str) = suf"
    using find_SomeD [OF e(2) [unfolded rfind_def]] .
  moreover have "length (drop (length str - length suf) str) = length suf" using e(1) by simp
  ultimately have "drop (length str - length suf) str = suf" by simp
  then show "\<exists>p. str = p @ suf" by (metis append_take_drop_id)
next
  assume "\<exists>p. str = p @ suf"
  then obtain p where "str = p @ suf" by blast
  then show "endsWith str suf" using rfind_end [of p suf] by (simp add: endsWith_def)
qed

lemma decimal_digits: "list_all is_digit (digits n)"
  using digits_chars by (auto simp: list_all_iff)

lemma get_int_decimal:
  assumes "0 \<le> v" "v < 2 ^ 31"
  shows "get_int (decimal v) old = Some (True, v)"
proof -
  have d: "decimal v = digits (nat v)" using assms by (simp add: decimal_def)
  have "list_all is_hex (digits (nat v))"
    using decimal_digits by (auto simp: is_hex_def list_all_iff)
  moreover have "atoi (decimal v) = v" using atoi_decimal [of "[]" v] by simp
  ultimately show ?thesis using hd_digits [of "nat v"] assms by (simp add: get_int_def d int_range_def)
qed

section \<open>Text on the picture\<close>

lemma mask_bytes:
  "(0xff00 :: u32) = push_bit 8 (mask 8)" "(0xff0000 :: u32) = push_bit 16 (mask 8)"
  "(0xff000000 :: u32) = push_bit 24 (mask 8)" "(0xff :: u32) = mask 8"
  by (simp_all add: mask_eq_exp_minus_1 push_bit_eq_mult)

lemma char_arg_bytes:
  "arg_byte 0 (char_arg c ty r k) = of_char c" "arg_byte 1 (char_arg c ty r k) = word_of_int ty"
  "arg_byte 2 (char_arg c ty r k) = word_of_int r" "arg_byte 3 (char_arg c ty r k) = word_of_int k"
  unfolding arg_byte_def char_arg_def mask_bytes
  by (rule bit_word_eqI; auto simp: bit_simps dest: bit_imp_le_length; fail)+

lemma app_ioctl_set_char: "app_ioctl d True CMD_SET_CHAR arg s = Some (set_char arg s)"
  by (simp add: app_ioctl_def evsoc_ioctl_def main_proc_def command_values DEMO_MAGIC_def)

lemma app_ioctl_set_msg: "app_ioctl d True CMD_SET_MSG arg s = Some (set_msg arg s)"
  by (simp add: app_ioctl_def evsoc_ioctl_def main_proc_def command_values DEMO_MAGIC_def)

lemma app_ioctl_layer: "arg \<noteq> 3 \<Longrightarrow> app_ioctl d True CMD_SET_LAYER arg s = Some (s\<lparr>lay0_is_ready := arg\<rparr>)"
  by (simp add: app_ioctl_def evsoc_ioctl_def main_proc_def command_values DEMO_MAGIC_def)

lemma app_ioctl_clr_msg: "arg \<noteq> 3 \<Longrightarrow> app_ioctl d True CMD_CLR_MSG arg s = Some (s\<lparr>title_is_ready := arg\<rparr>)"
  by (simp add: app_ioctl_def evsoc_ioctl_def main_proc_def command_values DEMO_MAGIC_def)

lemma app_ioctl_clear_msg: "app_ioctl d True CMD_CLR_MSG 3 s =
  Some ((fold (\<lambda>p. title_store p 0) [0..<FRAME_WIDTH * TITLE_HIGH] s)\<lparr>title_is_ready := 0\<rparr>)"
  by (simp add: app_ioctl_def evsoc_ioctl_def main_proc_def command_values DEMO_MAGIC_def)

lemma cell_pos:
  fixes W :: nat
  assumes "0 < n" "b + n \<le> W"
  shows "(a * W + b \<le> q \<and> (q - (a * W + b)) div W < n \<and> (q - (a * W + b)) mod W < n) \<longleftrightarrow>
      (a \<le> q div W \<and> q div W < a + n \<and> b \<le> q mod W \<and> q mod W < b + n)" (is "?L \<longleftrightarrow> ?R")
    and "a \<le> q div W \<and> q div W < a + n \<and> b \<le> q mod W \<and> q mod W < b + n \<Longrightarrow> (q - (a * W + b)) div W = q div W - a \<and> (q - (a * W + b)) mod W = q mod W - b"
proof -
  have W: "0 < W" using assms by simp
  have eq: "(q - (a * W + b)) div W = q div W - a \<and> (q - (a * W + b)) mod W = q mod W - b \<and> a * W + b \<le> q"
    if "a \<le> q div W" "b \<le> q mod W" for q
  proof -
    obtain y x where yx: "q div W = a + y" "q mod W = b + x" using \<open>a \<le> q div W\<close> \<open>b \<le> q mod W\<close> by (metis le_Suc_ex)
    have "q = q div W * W + q mod W" by simp
    also have "\<dots> = a * W + b + (y * W + x)" unfolding yx by (simp add: algebra_simps)
    finally have q: "q = a * W + b + (y * W + x)" .
    have "x < W" using mod_less_divisor [OF W, of q] yx(2) by linarith
    then have "(y * W + x) div W = y" "(y * W + x) mod W = x" by simp_all
    then show ?thesis using q yx by (metis add_diff_cancel_left' le_add1)
  qed
  show "(q - (a * W + b)) div W = q div W - a \<and> (q - (a * W + b)) mod W = q mod W - b" if "a \<le> q div W \<and> q div W < a + n \<and> b \<le> q mod W \<and> q mod W < b + n"
    using eq that by blast
  show "?L \<longleftrightarrow> ?R"
  proof
    assume l: ?L
    let ?y = "(q - (a * W + b)) div W" and ?x = "(q - (a * W + b)) mod W"
    have "q - (a * W + b) = ?y * W + ?x" by simp
    then have "q = (a + ?y) * W + (b + ?x)" using l by (simp add: algebra_simps)
    moreover have "b + ?x < W" using l assms by linarith
    ultimately have "q div W = a + ?y" "q mod W = b + ?x"
      by (metis div_mult_self3 div_less add.right_neutral W add.commute neq0_conv, metis mod_mult_self3 mod_less)
    then show ?R using l by simp
  next
    assume r: ?R
    then show ?L using eq by auto
  qed
qed

text \<open>
  Text in cells of \<open>p\<close> x \<open>p\<close> words, of which \<open>n\<close> x \<open>n\<close> are drawn, in row \<open>r\<close> from column \<open>k\<close> on.
\<close>

definition text_at ::
  "nat \<Rightarrow> nat \<Rightarrow> nat \<Rightarrow> nat \<Rightarrow> nat \<Rightarrow> (nat \<Rightarrow> nat \<Rightarrow> nat \<Rightarrow> u32) \<Rightarrow> (nat \<Rightarrow> u32) \<Rightarrow> nat \<Rightarrow> u32" where
  "text_at n p r k len glyph f q =
     (let y = q div FRAME_WIDTH - r * p; m = q mod FRAME_WIDTH - k * p in
      if r * p \<le> q div FRAME_WIDTH \<and> q div FRAME_WIDTH < r * p + n \<and> k * p \<le> q mod FRAME_WIDTH \<and>
         m div p < len \<and> m mod p < n
      then glyph (m div p) y (m mod p) else f q)"

lemma text_at_Cons:
  assumes "0 < n" "n \<le> p" "(k + Suc len) * p \<le> FRAME_WIDTH" "(r * p + n) * FRAME_WIDTH \<le> lim"
  shows "text_at n p r (Suc k) len (\<lambda>j. glyph (Suc j)) (cell_word (r * p * FRAME_WIDTH + k * p) n lim (glyph 0) f) =
    text_at n p r k (Suc len) glyph f"
proof
  fix q
  let ?W = FRAME_WIDTH
  let ?y = "q div ?W" and ?m = "q mod ?W"
  have fits: "k * p + n \<le> ?W"
  proof -
    have "k * p + p \<le> (k + Suc len) * p" by simp
    then show ?thesis using assms(2,3) by linarith
  qed
  note pos = cell_pos [OF assms(1) fits, of "r * p" q]
  have cell: "cell_word (r * p * ?W + k * p) n lim (glyph 0) f q =
      (if r * p \<le> ?y \<and> ?y < r * p + n \<and> k * p \<le> ?m \<and> ?m < k * p + n then glyph 0 (?y - r * p) (?m - k * p) else f q)"
  proof (cases "r * p \<le> ?y \<and> ?y < r * p + n \<and> k * p \<le> ?m \<and> ?m < k * p + n")
    case True
    have "q = ?y * ?W + ?m" by simp
    also have "\<dots> < (r * p + n) * ?W"
    proof -
      have "?y * ?W + ?m < Suc ?y * ?W" by (simp add: FRAME_WIDTH_def)
      also have "\<dots> \<le> (r * p + n) * ?W" using True by (intro mult_le_mono1) simp
      finally show ?thesis .
    qed
    finally have "q < lim" using assms(4) by linarith
    then show ?thesis using pos(1) [THEN iffD2, OF True] pos(2) [OF True] True by (simp add: cell_word_def Let_def)
  next
    case False
    then have "\<not> (r * p * ?W + k * p \<le> q \<and> (q - (r * p * ?W + k * p)) div ?W < n \<and>
        (q - (r * p * ?W + k * p)) mod ?W < n \<and> q < lim)"
      using pos(1) by blast
    then show ?thesis unfolding cell_word_def Let_def if_not_P [OF False] by (rule if_not_P)
  qed
  consider "?m < k * p" | "k * p \<le> ?m" "?m < Suc k * p" | "Suc k * p \<le> ?m" by linarith
  then show "text_at n p r (Suc k) len (\<lambda>j. glyph (Suc j)) (cell_word (r * p * ?W + k * p) n lim (glyph 0) f) q =
      text_at n p r k (Suc len) glyph f q"
  proof cases
    case 1
    then show ?thesis by (simp add: text_at_def cell Let_def)
  next
    case 2
    then have "(?m - k * p) div p = 0" "(?m - k * p) mod p = ?m - k * p" "?m - k * p < n \<longleftrightarrow> ?m < k * p + n"
      using assms(1) by auto
    then show ?thesis using 2 by (simp add: text_at_def cell Let_def)
  next
    case 3
    then obtain t where t: "?m = Suc k * p + t" using le_Suc_ex by blast
    have d: "?m - Suc k * p = t" "?m - k * p = p + t" unfolding t by simp_all
    have "(p + t) div p = Suc (t div p)" "(p + t) mod p = t mod p" using assms(1,2) by (simp_all add: div_add_self1)
    moreover have "\<not> ?m < k * p + n" "k * p \<le> ?m" using 3 assms(2) by simp_all
    ultimately show ?thesis using 3 unfolding text_at_def cell Let_def d by simp
  qed
qed

lemma text_at_Nil [simp]: "text_at n p r k 0 glyph f = f"
  by (simp add: text_at_def fun_eq_iff Let_def)

definition glyph_of :: "nat \<Rightarrow> int \<Rightarrow> string \<Rightarrow> nat \<Rightarrow> nat \<Rightarrow> nat \<Rightarrow> u32" where
  "glyph_of scan ty str j y x = (if is_ch_show (of_char (str ! j)) y x scan then char_color (word_of_int ty) else 0)"

lemma glyph_of_Cons:
  "glyph_of scan ty (c # cs) 0 = glyph_word (char_arg c ty r k) scan"
  "(\<lambda>j. glyph_of scan ty (c # cs) (Suc j)) = glyph_of scan ty cs"
  by (simp_all add: glyph_of_def fun_eq_iff glyph_word_def char_arg_bytes del: One_nat_def)

lemma unat_u8: "r < 256 \<Longrightarrow> unat (word_of_int (int r) :: u8) = r"
  by (simp add: unat_of_nat take_bit_eq_mod)

lemma words_pos [simp]: "words i (s\<lparr>lay0_beg_row := u, lay0_beg_col := v\<rparr>) = words i s"
  by (simp add: words_def)

lemma put_text_layer:
  assumes "allocated s" "r < 80" "k + length str \<le> 142"
  shows "\<exists>s'. put_text d True CMD_SET_CHAR ty (int r) (int k) str s = Some s' \<and> allocated s' \<and>
    words LAYER0_IDX s' = text_at 8 9 r k (length str) (glyph_of 1 ty str) (words LAYER0_IDX s)"
  using assms
proof (induction str arbitrary: k s)
  case (Cons c cs)
  let ?arg = "char_arg c ty (int r) (int k)"
  have u: "unat (arg_byte 2 ?arg) = r" "unat (arg_byte 3 ?arg) = k"
    unfolding char_arg_bytes using Cons.prems by (simp_all only: unat_u8) 
  have s1: "words LAYER0_IDX (set_char ?arg s) =
      cell_word (r * 9 * FRAME_WIDTH + k * 9) 8 (FRAME_WIDTH * FRAME_HEIGHT) (glyph_of 1 ty (c # cs) 0) (words LAYER0_IDX s)"
    unfolding set_char_eq [OF Cons.prems(1)] u glyph_of_Cons(1) [of 1 ty c cs "int r" "int k"] by simp
  have al: "allocated (set_char ?arg s)"
    unfolding set_char_eq [OF Cons.prems(1)]
    by (rule allocated_with_buf) (use Cons.prems(1) in \<open>simp add: allocated_def\<close>)
  have fit: "(k + Suc (length cs)) * 9 \<le> FRAME_WIDTH" "(r * 9 + 8) * FRAME_WIDTH \<le> FRAME_WIDTH * FRAME_HEIGHT"
    using Cons.prems by (simp_all add: FRAME_WIDTH_def FRAME_HEIGHT_def)
  have "int k + 1 = int (Suc k)" by simp
  moreover obtain s' where "put_text d True CMD_SET_CHAR ty (int r) (int (Suc k)) cs (set_char ?arg s) = Some s'" "allocated s'"
    "words LAYER0_IDX s' = text_at 8 9 r (Suc k) (length cs) (glyph_of 1 ty cs) (words LAYER0_IDX (set_char ?arg s))"
    using Cons.IH [OF al, of "Suc k"] Cons.prems by auto
  ultimately show ?case
    using text_at_Cons [OF _ _ fit, of "glyph_of 1 ty (c # cs)" "words LAYER0_IDX s"]
    by (simp add: app_ioctl_set_char s1 glyph_of_Cons(2) add.commute [of "int k" 1])
qed simp



section \<open>The title line\<close>

lemma fold_title_clear:
  "n \<le> FRAME_WIDTH * TITLE_HIGH \<Longrightarrow> fold (\<lambda>p. title_store p 0) [0..<n] s =
     s\<lparr>title_msg_buf := (\<lambda>q. if q < n then 0 else title_msg_buf s q)\<rparr>"
proof (induction n)
  case (Suc n)
  then show ?case by (auto simp: title_store_def less_Suc_eq intro!: arg_cong [where f = "\<lambda>t. s\<lparr>title_msg_buf := t\<rparr>"])
qed simp

lemma put_text_title:
  assumes "k + length str \<le> 80"
  shows "put_text d True CMD_SET_MSG ty 0 (int k) str s =
    Some (s\<lparr>title_msg_buf := text_at 16 16 0 k (length str) (glyph_of 2 ty str) (title_msg_buf s)\<rparr>)"
  using assms
proof (induction str arbitrary: k s)
  case (Cons c cs)
  let ?arg = "char_arg c ty 0 (int k)"
  have z: "unat (word_of_int 0 :: u8) = 0" by simp
  have u: "unat (arg_byte 2 ?arg) = 0" "unat (arg_byte 3 ?arg) = k"
    unfolding char_arg_bytes z using Cons.prems by (simp_all only: unat_u8)
  have s1: "set_msg ?arg s = s\<lparr>title_msg_buf :=
      cell_word (0 * 16 * FRAME_WIDTH + k * 16) 16 (FRAME_WIDTH * TITLE_HIGH) (glyph_of 2 ty (c # cs) 0) (title_msg_buf s)\<rparr>"
    unfolding set_msg_eq u glyph_of_Cons(1) [of 2 ty c cs 0 "int k"] by simp
  have fit: "(k + Suc (length cs)) * 16 \<le> FRAME_WIDTH" "(0 * 16 + 16) * FRAME_WIDTH \<le> FRAME_WIDTH * TITLE_HIGH"
    using Cons.prems by (simp_all add: FRAME_WIDTH_def TITLE_HIGH_def)
  have "int k + 1 = int (Suc k)" by simp
  then have "put_text d True CMD_SET_MSG ty 0 (int k) (c # cs) s =
      put_text d True CMD_SET_MSG ty 0 (int (Suc k)) cs (set_msg ?arg s)"
    by (simp add: app_ioctl_set_msg add.commute [of "int k" 1])
  also have "\<dots> = Some ((set_msg ?arg s)\<lparr>title_msg_buf :=
      text_at 16 16 0 (Suc k) (length cs) (glyph_of 2 ty cs) (title_msg_buf (set_msg ?arg s))\<rparr>)"
    using Cons.IH [of "Suc k"] Cons.prems by simp
  finally show ?case
    using text_at_Cons [OF _ _ fit, of "glyph_of 2 ty (c # cs)" "title_msg_buf s"]
    by (simp add: s1 glyph_of_Cons(2))
qed simp

text \<open>
  A title message of up to 80 characters is shown alone on the title line, its characters
  doubled to 16 x 16 words side by side in colour 0, over a line that is otherwise transparent.
  After 1500 polls without another message, or at once when the program ends, the line is switched off
  again and cleared.
\<close>
theorem title_msg_shown:
  assumes "0 < length msg" "length msg \<le> 80" "q < FRAME_WIDTH * TITLE_HIGH"
  shows "\<exists>s'. title_msg d True msg a = Some (a\<lparr>driver := s', title_msg_delay := 1500\<rparr>) \<and> title_is_ready s' = 1 \<and>
    title_msg_buf s' q = text_at 16 16 0 0 (length msg) (glyph_of 2 0 msg) (\<lambda>q. 0) q \<and>
    (\<exists>s''. ((\<lambda>x. Option.bind x (poll_title_msg d True False)) ^^ 1500) (title_msg d True msg a) =
        Some (a\<lparr>driver := s'', title_msg_delay := 0\<rparr>) \<and>
      Option.bind (title_msg d True msg a) (poll_title_msg d True True) = Some (a\<lparr>driver := s'', title_msg_delay := 0\<rparr>) \<and>
      title_is_ready s'' = 0 \<and> title_msg_buf s'' q = 0)"
proof -
  let ?n = "FRAME_WIDTH * TITLE_HIGH"
  let ?clear = "\<lambda>s. s\<lparr>title_msg_buf := (\<lambda>q. if q < ?n then 0 else title_msg_buf s q), title_is_ready := 0\<rparr>"
  have clear: "app_ioctl d True CMD_CLR_MSG 3 s = Some (?clear s)" for s
    by (simp add: app_ioctl_clear_msg fold_title_clear)
  have str: "snprintf_str 256 msg = msg" using assms(2) by (simp add: snprintf_str_def)
  define s' where "s' = (?clear (driver a))\<lparr>title_msg_buf := text_at 16 16 0 0 (length msg) (glyph_of 2 0 msg)
      (title_msg_buf (?clear (driver a))), title_is_ready := 1\<rparr>"
  have t: "title_msg d True msg a = Some (a\<lparr>driver := s', title_msg_delay := 1500\<rparr>)"
    using assms(1) put_text_title [of 0 msg d 0 "?clear (driver a)"] assms(2)
    by (simp add: title_msg_def str clear app_ioctl_clr_msg s'_def Let_def)
  have buf: "title_msg_buf s' q = text_at 16 16 0 0 (length msg) (glyph_of 2 0 msg) (\<lambda>q. 0) q"
    using assms(3) by (simp add: s'_def text_at_def Let_def)
  let ?done = "a\<lparr>driver := ?clear s', title_msg_delay := 0\<rparr>"
  let ?on = "\<lambda>v. a\<lparr>driver := s', title_msg_delay := v\<rparr>"
  let ?poll = "\<lambda>x. Option.bind x (poll_title_msg d True False)"
  have step: "?poll (Some (?on v)) = (if v = 1 then Some ?done else Some (?on (v - 1)))" if "0 < v" for v
    using that by (simp add: poll_title_msg_def drv_ioctl_def clear Let_def)
  have polls: "(?poll ^^ m) (Some (?on 1500)) = (if m < 1500 then Some (?on (1500 - int m)) else Some ?done)"
    if "m \<le> 1500" for m
    using that
  proof (induction m)
    case (Suc m)
    have "(?poll ^^ Suc m) (Some (?on 1500)) = ?poll (Some (?on (1500 - int m)))"
      unfolding funpow.simps(2) comp_def using Suc by simp
    also have "\<dots> = (if 1500 - int m = 1 then Some ?done else Some (?on (1500 - int m - 1)))"
      by (rule step) (use Suc.prems in simp)
    finally show ?case using Suc.prems by (cases "Suc m = 1500") (auto simp: algebra_simps)
  qed simp
  have "Option.bind (title_msg d True msg a) (poll_title_msg d True True) = Some ?done"
    unfolding t by (simp add: poll_title_msg_def drv_ioctl_def clear)
  moreover have "title_is_ready s' = 1" by (simp add: s'_def)
  ultimately show ?thesis
    using t buf polls [of 1500] assms(3) by (intro exI [of _ s'] conjI exI [of _ "?clear s'"]) simp_all
qed

theorem title_msg_shown_witness:
  "\<exists>s'. title_msg (\<lambda>h a. 0) True ''Save:7'' (app_start demo_evsoc) =
      Some ((app_start demo_evsoc)\<lparr>driver := s', title_msg_delay := 1500\<rparr>) \<and> title_is_ready s' = 1"
  using title_msg_shown [of "''Save:7''" 0 "\<lambda>h a. 0" "app_start demo_evsoc"]
  by (auto simp: FRAME_WIDTH_def TITLE_HIGH_def)

section \<open>Video capture\<close>

lemma set_msg_arrays: "cam_dma_cpu_arry (set_msg arg s) = cam_dma_cpu_arry s"
  by (simp add: set_msg_eq)

lemma put_text_arrays:
  "\<exists>s'. put_text d True CMD_SET_MSG ty r k str s = Some s' \<and> cam_dma_cpu_arry s' = cam_dma_cpu_arry s"
proof (induction str arbitrary: k s)
  case (Cons c cs)
  from Cons [of "k + 1" "set_msg (char_arg c ty r k) s"] show ?case
    by (auto simp: app_ioctl_set_msg set_msg_arrays)
qed simp

lemma title_msg_keeps:
  obtains s v where "title_msg d True str a = Some (a\<lparr>driver := s, title_msg_delay := v\<rparr>)"
    "cam_dma_cpu_arry s = cam_dma_cpu_arry (driver a)"
proof (cases "length (snprintf_str 256 str) = 0")
  case True
  then have "title_msg d True str a = Some (a\<lparr>driver := driver a, title_msg_delay := title_msg_delay a\<rparr>)"
    by (simp add: title_msg_def)
  then show thesis using that by blast
next
  case False
  let ?s = "(fold (\<lambda>p. title_store p 0) [0..<FRAME_WIDTH * TITLE_HIGH] (driver a))\<lparr>title_is_ready := 0\<rparr>"
  obtain s' where p: "put_text d True CMD_SET_MSG 0 0 0 (snprintf_str 256 str) ?s = Some s'"
    "cam_dma_cpu_arry s' = cam_dma_cpu_arry ?s"
    using put_text_arrays by blast
  then have "title_msg d True str a = Some (a\<lparr>driver := s'\<lparr>title_is_ready := 1\<rparr>, title_msg_delay := 1500\<rparr>)"
    using False by (simp add: title_msg_def app_ioctl_clear_msg app_ioctl_clr_msg)
  moreover have "cam_dma_cpu_arry (s'\<lparr>title_is_ready := 1\<rparr>) = cam_dma_cpu_arry (driver a)"
    using p(2) by (simp add: fold_title_clear)
  ultimately show thesis using that by blast
qed

lemma save_frames_keeps:
  obtains s v where "save_frames d True n ks a = Some (a\<lparr>driver := s, title_msg_delay := v\<rparr>)"
    "cam_dma_cpu_arry s = cam_dma_cpu_arry (driver a)"
proof -
  have "\<exists>s v. save_frames d True n ks a = Some (a\<lparr>driver := s, title_msg_delay := v\<rparr>) \<and>
    cam_dma_cpu_arry s = cam_dma_cpu_arry (driver a)"
  proof (induction ks arbitrary: a)
    case Nil
    show ?case by (intro exI [of _ "driver a"] exI [of _ "title_msg_delay a"]) simp
  next
    case (Cons i ks)
    show ?case
    proof (cases "i mod 3 = 0")
      case True
      obtain s v where t: "title_msg d True (''Save:'' @ decimal (int ((n - i) div 3))) a = Some (a\<lparr>driver := s, title_msg_delay := v\<rparr>)"
        "cam_dma_cpu_arry s = cam_dma_cpu_arry (driver a)" by (rule title_msg_keeps)
      then show ?thesis using Cons [of "a\<lparr>driver := s, title_msg_delay := v\<rparr>"] True by simp
    next
      case False
      then show ?thesis using Cons [of a] by simp
    qed
  qed
  then show thesis using that by blast
qed

lemma drv_capture: "drv_ioctl d True CMD_SET_CAPTURE (ucast CMD_SET_CAPTURE_PART) a =
    Some (a\<lparr>driver := (driver a)\<lparr>capture_mode := CMD_SET_CAPTURE_PART\<rparr>\<rparr>)"
  by (simp add: drv_ioctl_def app_ioctl_def evsoc_ioctl_def main_proc_def command_values DEMO_MAGIC_def CMD_SET_CAPTURE_PART_def)

definition can_read :: "evsoc \<Rightarrow> bool" where
  "can_read s \<longleftrightarrow> cam_dma_cpu_arry s CAPTURE_IDX \<noteq> None"

lemma can_read_same: "cam_dma_cpu_arry s = cam_dma_cpu_arry t \<Longrightarrow> can_read s = can_read t"
  by (simp add: can_read_def)

definition filming :: "int \<Rightarrow> string \<Rightarrow> app_output list \<Rightarrow> nat \<Rightarrow> app \<Rightarrow> bool" where
  "filming L name outs k b \<longleftrightarrow> cap_vid_len b = L \<and> cap_timer b = 5 * L - int k \<and> video_write_hdl b = Some name \<and>
     length (cap_vect b) = k \<and> dbg_idx b = 3 + k \<and> outputs b = outs \<and> can_read (driver b)"

lemma video_open_films:
  assumes "0 < cap_vid_len a" "cap_timer a = 0" "video_write_hdl a = None" "cap_vect a = []" "dbg_idx a = 0"
    "length (cap_vid_name a) < 252" "can_read (driver a)"
  shows "\<exists>b. worker2_round d True True True True True a = Some b \<and>
    filming (cap_vid_len a) (avi_name (cap_vid_name a)) (outputs a) 0 b"
proof -
  let ?name = "avi_name (cap_vid_name a)"
  let ?a = "a\<lparr>cap_timer := cap_vid_len a * 5, cap_vid_name := ?name, dbg_idx := 1\<rparr>"
  obtain s v where t: "title_msg d True ''start to capture video ...'' ?a = Some (?a\<lparr>driver := s, title_msg_delay := v\<rparr>)"
    "cam_dma_cpu_arry s = cam_dma_cpu_arry (driver ?a)" by (rule title_msg_keeps)
  have r: "can_read (s\<lparr>capture_mode := m\<rparr>)" for m
    using t(2) assms(7) by (simp add: can_read_def)
  have n: "length ?name < 256" using assms(6) by (simp add: avi_name_def)
  have "worker2_round d True True True True True a =
      video_open d True True True (a\<lparr>cap_timer := cap_vid_len a * 5\<rparr>)"
    using assms(1-3) by (simp add: worker2_round_def Let_def)
  also have "\<dots> = Some (?a\<lparr>driver := s\<lparr>capture_mode := CMD_SET_CAPTURE_PART\<rparr>, title_msg_delay := v,
      video_write_hdl := Some ?name, dbg_idx := 3\<rparr>)"
    using assms(5) t(1) n
    by (simp add: video_open_def dbg_note_def drv_capture Let_def)
  finally show ?thesis
    using assms(4) r by (simp add: filming_def)
qed

lemma video_frame_films:
  assumes "filming L name outs k b" "int (Suc k) < 5 * L" "3 + k < 100"
  shows "\<exists>b'. worker2_round d True True True True True b = Some b' \<and> filming L name outs (Suc k) b'"
proof -
  note f = assms(1) [unfolded filming_def]
  obtain buf where buf: "cam_dma_cpu_arry (driver b) CAPTURE_IDX = Some buf" using f by (auto simp: can_read_def)
  let ?b = "b\<lparr>cap_timer := cap_timer b - 1, driver := (driver b)\<lparr>capture_mode := CMD_SET_CAPTURE_PART\<rparr>,
      dbg_idx := dbg_idx b + 1, cap_vect := cap_vect b @ [fill_mat (FRAME_HEIGHT div 2) (FRAME_WIDTH div 2) buf]\<rparr>"
  obtain s v where t: "title_msg d True (''Capture:'' @ decimal (cap_timer ?b div 5)) ?b = Some (?b\<lparr>driver := s, title_msg_delay := v\<rparr>)"
    "cam_dma_cpu_arry s = cam_dma_cpu_arry (driver ?b)" by (rule title_msg_keeps)
  have "worker2_round d True True True True True b =
      (if cap_timer ?b mod 5 = 0 then title_msg d True (''Capture:'' @ decimal (cap_timer ?b div 5)) ?b else Some ?b)"
  proof -
    have ct: "cap_vid_len b \<noteq> 0" "cap_timer b \<noteq> 0" "cap_timer b \<noteq> 1" "dbg_idx b < 100" "video_write_hdl b = Some name"
      using f assms(2,3) by auto
    show ?thesis by (simp add: worker2_round_def video_frame_def buf drv_capture dbg_note_def Let_def ct)
  qed
  moreover have "filming L name outs (Suc k) ?b" "filming L name outs (Suc k) (?b\<lparr>driver := s, title_msg_delay := v\<rparr>)"
    using f t(2) by (simp_all add: filming_def can_read_def)
  ultimately show ?thesis using t(1) by (cases "cap_timer ?b mod 5 = 0") auto
qed

lemma video_frame_overrun:
  assumes "filming L name outs k b" "int k < 5 * L" "3 + k = 100"
  shows "worker2_round d True True True True True b = None"
  using assms by (auto simp: filming_def can_read_def worker2_round_def video_frame_def drv_capture dbg_note_def Let_def)

lemma video_frame_finishes:
  assumes "filming L name outs k b" "int (Suc k) = 5 * L" "3 + k < 100"
  shows "\<exists>b' frames. worker2_round d True True True True True b = Some b' \<and> outputs b' = outs @ [VideoFile name frames] \<and>
    length frames = Suc k \<and> cap_vid_len b' = 0 \<and> cap_timer b' = 0 \<and> video_write_hdl b' = None \<and> cap_vect b' = [] \<and>
    dbg_idx b' = 0"
proof -
  note f = assms(1) [unfolded filming_def]
  obtain buf where buf: "cam_dma_cpu_arry (driver b) CAPTURE_IDX = Some buf" using f by (auto simp: can_read_def)
  let ?vect = "cap_vect b @ [fill_mat (FRAME_HEIGHT div 2) (FRAME_WIDTH div 2) buf]"
  let ?b = "b\<lparr>cap_timer := 0, driver := (driver b)\<lparr>capture_mode := CMD_SET_CAPTURE_PART\<rparr>, dbg_idx := 3 + Suc k, cap_vect := ?vect\<rparr>"
  obtain s v where sv: "save_frames d True (length ?vect) [0..<length ?vect] ?b = Some (?b\<lparr>driver := s, title_msg_delay := v\<rparr>)"
    by (rule save_frames_keeps)
  let ?c = "?b\<lparr>driver := s, title_msg_delay := v, outputs := outs @ [VideoFile name ?vect], cap_vect := [], video_write_hdl := None\<rparr>"
  obtain s' v' where t: "title_msg d True (''Done to capture video:'' @ cap_vid_name ?c) ?c = Some (?c\<lparr>driver := s', title_msg_delay := v'\<rparr>)"
    by (rule title_msg_keeps)
  have w: "worker2_round d True True True True True b = video_finish d True name ?b"
  proof -
    have ct: "cap_timer b = 1" "cap_vid_len b \<noteq> 0" using f assms(2) by auto
    have "3 + k = dbg_idx b" using f by simp
    with ct show ?thesis
      using f assms(3) by (simp add: worker2_round_def video_frame_def buf drv_capture dbg_note_def Let_def)
  qed
  have v: "cap_vect ?b = ?vect" "outputs ?b = outs" using f by simp_all
  have "video_finish d True name ?b =
      Some (?c\<lparr>driver := s', title_msg_delay := v', dbg_idx := 0, cap_timer := 0, cap_vid_len := 0\<rparr>)"
    unfolding video_finish_def v Let_def sv using t v(2) by simp
  then show ?thesis unfolding w using f by simp
qed

text \<open>The video thread's rounds, each after 200 ms, with the driver's own work in between.\<close>

fun video_run :: "iomem device \<Rightarrow> (evsoc \<Rightarrow> evsoc) \<Rightarrow> nat \<Rightarrow> app \<Rightarrow> app option" where
  "video_run d between 0 a = Some a"
| "video_run d between (Suc n) a = do {
     a \<leftarrow> video_run d between n a;
     a \<leftarrow> worker2_round d True True True True True a;
     Some (a\<lparr>driver := between (driver a)\<rparr>)
   }"

lemma filming_between:
  "filming L name outs k b \<Longrightarrow> (\<forall>s. can_read s \<longrightarrow> can_read (between s)) \<Longrightarrow>
   filming L name outs k (b\<lparr>driver := between (driver b)\<rparr>)"
  by (simp add: filming_def)

lemma video_run_films:
  assumes start: "0 < cap_vid_len a" "cap_timer a = 0" "video_write_hdl a = None" "cap_vect a = []" "dbg_idx a = 0"
    "length (cap_vid_name a) < 252" "can_read (driver a)"
    and between: "\<forall>s. can_read s \<longrightarrow> can_read (between s)"
    and "int k < 5 * cap_vid_len a" "k \<le> 97"
  shows "\<exists>b. video_run d between (Suc k) a = Some b \<and> filming (cap_vid_len a) (avi_name (cap_vid_name a)) (outputs a) k b"
  using assms(9,10)
proof (induction k)
  case 0
  show ?case using video_open_films [OF start, of d] filming_between [OF _ between] by fastforce
next
  case (Suc k)
  then obtain b where b: "video_run d between (Suc k) a = Some b"
    "filming (cap_vid_len a) (avi_name (cap_vid_name a)) (outputs a) k b" by auto
  obtain b' where b': "worker2_round d True True True True True b = Some b'"
    "filming (cap_vid_len a) (avi_name (cap_vid_name a)) (outputs a) (Suc k) b'"
    using video_frame_films [OF b(2), of d] Suc.prems by auto
  show ?case
    unfolding video_run.simps(2) [of d between "Suc k"] b(1)
    using b'(1) filming_between [OF b'(2) between] by simp
qed

lemma video_run_None:
  assumes "video_run d between m a = None" "m \<le> n"
  shows "video_run d between n a = None"
  using assms(2) by (induction n rule: dec_induct) (simp_all add: assms(1))

text \<open>
  C16: Capturing a video.  With the device available and the driver keeping the capture buffer, a
  requested length of L seconds, at most 19, makes the thread write one video of exactly 5 L frames after
  5 L + 1 rounds, under the name asked for with .avi added where it is missing, and leaves the thread
  idle for the next request.  For 20 to 30 seconds, which the command accepts, the debug times are
  stored past the end of their array of 100.
\<close>
theorem video_capture_frames:
  assumes "cap_vid_len a = int n" "0 < n" "cap_timer a = 0" "video_write_hdl a = None" "cap_vect a = []" "dbg_idx a = 0"
    "length (cap_vid_name a) < 252" "can_read (driver a)" "\<forall>s. can_read s \<longrightarrow> can_read (between s)"
  shows "if n \<le> 19
    then \<exists>b frames. video_run d between (5 * n + 1) a = Some b \<and>
      outputs b = outputs a @ [VideoFile (avi_name (cap_vid_name a)) frames] \<and> length frames = 5 * n \<and>
      cap_vid_len b = 0 \<and> cap_timer b = 0 \<and> video_write_hdl b = None \<and> cap_vect b = [] \<and> dbg_idx b = 0
    else video_run d between (5 * n + 1) a = None"
proof -
  have pos: "0 < cap_vid_len a" using assms(1,2) by simp
  note run = video_run_films [OF pos assms(3-9), where d = d]
  show ?thesis
  proof (cases "n \<le> 19")
    case True
    define k where "k = 5 * n - 1"
    have k: "Suc k = 5 * n" "int k < 5 * cap_vid_len a" "k \<le> 97" "3 + k < 100" "int (Suc k) = 5 * cap_vid_len a"
      using True assms(1,2) by (simp_all add: k_def of_nat_diff)
    obtain b where b: "video_run d between (Suc k) a = Some b"
      "filming (cap_vid_len a) (avi_name (cap_vid_name a)) (outputs a) k b" using run [OF k(2,3)] by blast
    obtain b' frames where b': "worker2_round d True True True True True b = Some b'"
      "outputs b' = outputs a @ [VideoFile (avi_name (cap_vid_name a)) frames]" "length frames = Suc k"
      "cap_vid_len b' = 0" "cap_timer b' = 0" "video_write_hdl b' = None" "cap_vect b' = []" "dbg_idx b' = 0"
      using video_frame_finishes [OF b(2) k(5,4), of d] by blast
    have "video_run d between (5 * n + 1) a = Some (b'\<lparr>driver := between (driver b')\<rparr>)"
      using b(1) b'(1) by (simp only: k(1) [symmetric] add.commute [of _ 1] plus_1_eq_Suc video_run.simps(2) [of d between "Suc k"]) simp
    then show ?thesis using True b'(2-) k(1) by (intro if_P [THEN iffD2]) auto
  next
    case False
    have k: "int (97 :: nat) < 5 * cap_vid_len a" "(97 :: nat) \<le> 97" using False assms(1) by simp_all
    obtain b where b: "video_run d between (Suc 97) a = Some b"
      "filming (cap_vid_len a) (avi_name (cap_vid_name a)) (outputs a) 97 b" using run [OF k] by blast
    have "video_run d between (Suc (Suc 97)) a = None"
      using b video_frame_overrun [OF b(2) k(1), of d] by (simp only: video_run.simps(2) [of d between "Suc 97"]) simp
    from video_run_None [OF this, of "5 * n + 1"] show ?thesis using False by simp
  qed
qed

theorem video_capture_frames_witness:
  "\<exists>b frames. video_run (\<lambda>h a. 0) (\<lambda>s. s) 6 ((app_start demo_evsoc)\<lparr>cap_vid_len := 1, cap_vid_name := ''clip''\<rparr>) = Some b \<and>
    outputs b = [VideoFile (avi_name ''clip'') frames] \<and> length frames = 5"
proof -
  have "can_read demo_evsoc"
    using allocatedD [OF demo_evsoc_ok(1) idx_bounds(2)] by (simp add: can_read_def)
  then show ?thesis
    using video_capture_frames [of "(app_start demo_evsoc)\<lparr>cap_vid_len := 1, cap_vid_name := ''clip''\<rparr>" 1 "\<lambda>s. s" "\<lambda>h a. 0"]
    by (fastforce simp: app_start_def)
qed

section \<open>The key\<close>

definition is_key :: "u32 \<Rightarrow> bool" where "is_key v \<longleftrightarrow> v AND 0xff = 2"
definition is_done :: "u32 \<Rightarrow> bool" where "is_done v \<longleftrightarrow> v AND 0xff = 1"

lemma signals_arrive:
  "\<not> ignored_key_event a \<Longrightarrow> list_all (\<lambda>v. is_key v \<or> is_done v) vs \<Longrightarrow>
   fold signal_handler vs a = a\<lparr>worker_queue := worker_queue a @ filter is_key vs,
     capture_done_event := (capture_done_event a \<or> list_ex is_done vs)\<rparr>"
proof (induction vs arbitrary: a)
  case (Cons v vs)
  have ne: "\<not> (is_key v \<and> is_done v)" by (auto simp: is_key_def is_done_def)
  show ?case
  proof (cases "is_done v")
    case True
    then have "signal_handler v a = a\<lparr>capture_done_event := True\<rparr>"
      by (simp add: signal_handler_def is_done_def SIG_TYPE_CAPTURE_DONE_def)
    then show ?thesis using Cons True ne by simp
  next
    case False
    then have "is_key v" using Cons.prems by simp
    then have "signal_handler v a = a\<lparr>worker_queue := worker_queue a @ [v]\<rparr>"
      using Cons.prems by (simp add: signal_handler_def is_key_def SIG_TYPE_CAPTURE_DONE_def)
    then show ?thesis using Cons False \<open>is_key v\<close> by simp
  qed
qed simp

lemma poll_title_keeps:
  obtains s v where "poll_title_msg d True pForce a = Some (a\<lparr>driver := s, title_msg_delay := v\<rparr>)"
proof -
  let ?s = "(fold (\<lambda>p. title_store p 0) [0..<FRAME_WIDTH * TITLE_HIGH] (driver a))\<lparr>title_is_ready := 0\<rparr>"
  consider "title_msg_delay a = 0" | "title_msg_delay a \<noteq> 0" "pForce \<or> title_msg_delay a = 1"
    | "title_msg_delay a \<noteq> 0" "\<not> pForce" "title_msg_delay a \<noteq> 1" by blast
  then have "\<exists>s v. poll_title_msg d True pForce a = Some (a\<lparr>driver := s, title_msg_delay := v\<rparr>)"
  proof cases
    case 1
    then show ?thesis by (intro exI [of _ "driver a"] exI [of _ 0]) (simp add: poll_title_msg_def)
  next
    case 2
    then show ?thesis
      by (intro exI [of _ ?s] exI [of _ 0]) (auto simp: poll_title_msg_def drv_ioctl_def app_ioctl_clear_msg Let_def)
  next
    case 3
    then show ?thesis
      by (intro exI [of _ "driver a"] exI [of _ "title_msg_delay a - 1"]) (simp add: poll_title_msg_def Let_def)
  qed
  then show thesis using that by blast
qed

text \<open>
  The key.  A key event followed by no other within half a second takes one picture, during which
  further key signals are ignored; followed by another key event it starts a ten-second video and takes
  no picture, unless a video is already running; further presses stay queued, and the signal that a
  capture is done only sets its flag.
\<close>
theorem key_picture_or_video:
  assumes "worker_queue a = [k]" "is_key k" "\<not> ignored_key_event a"
    "list_all (\<lambda>v. is_key v \<or> is_done v) arrive"
  shows "\<exists>s v. let b = (\<lambda>q. a\<lparr>driver := s, title_msg_delay := v, worker_queue := q,
      capture_done_event := capture_done_event a \<or> list_ex is_done arrive\<rparr>) in
    worker_round d True take_pic arrive sec usec a =
     (case filter is_key arrive of
        [] \<Rightarrow> Option.bind (take_pic ((b [])\<lparr>ignored_key_event := True\<rparr>)) (\<lambda>a. Some (a\<lparr>ignored_key_event := False\<rparr>))
      | _ # ks \<Rightarrow> Some (if cap_vid_len a \<noteq> 0 then b ks
          else (b ks)\<lparr>cap_vid_len := 10,
                 cap_vid_name := ''video_'' @ hex_digits sec @ ''_'' @ hex_digits usec @ ''.avi''\<rparr>))"
proof -
  obtain s v where p: "poll_title_msg d True False a = Some (a\<lparr>driver := s, title_msg_delay := v\<rparr>)" by (rule poll_title_keeps)
  have key: "k AND 0xff = ucast SIG_TYPE_KEY_ACT" using assms(2) by (simp add: is_key_def SIG_TYPE_KEY_ACT_def)
  let ?b = "a\<lparr>driver := s, title_msg_delay := v, worker_queue := []\<rparr>"
  have f: "fold signal_handler arrive ?b = ?b\<lparr>worker_queue := filter is_key arrive,
      capture_done_event := (capture_done_event a \<or> list_ex is_done arrive)\<rparr>"
    using signals_arrive [of ?b arrive] assms(3,4) by simp
  show ?thesis
  proof (cases "filter is_key arrive")
    case Nil
    then show ?thesis
      using assms(1) by (intro exI [of _ s] exI [of _ v])
        (simp add: worker_round_def p key f auto_pic_def Let_def)
  next
    case (Cons v' ks)
    then have "is_key v'" by (metis Cons_eq_filterD)
    then have key': "v' AND 0xff = ucast SIG_TYPE_KEY_ACT" by (simp add: is_key_def SIG_TYPE_KEY_ACT_def)
    show ?thesis
      using assms(1,3) by (intro exI [of _ s] exI [of _ v])
        (simp add: worker_round_def p key key' f Cons capture_auto_video_def Let_def)
  qed
qed

theorem key_picture_or_video_witness:
  "\<exists>b. worker_round (\<lambda>h a. 0) True (\<lambda>a. Some a) [0x101, 2] 1 2 ((app_start demo_evsoc)\<lparr>worker_queue := [2]\<rparr>) = Some b \<and>
    cap_vid_len b = 10"
  using key_picture_or_video [of "(app_start demo_evsoc)\<lparr>worker_queue := [2]\<rparr>" 2 "[0x101, 2]" "\<lambda>h a. 0" "\<lambda>a. Some a" 1 2]
  by (auto simp: app_start_def is_key_def is_done_def Let_def)

end
