(* ===== verification/EvsocCli.thy ===== *)
theory EvsocCli
  imports CText "HOL-Library.Monad_Syntax"
begin

text \<open>
  The line editor of the Edge Vision application: the second half of package/evsoc_app/src/evsoc_cli.cpp
  with the structure and constants of evsoc_cli.h, up to the loop of \<open>cli_main\<close>.  The record \<open>cli\<close> is
  \<open>struct embedded_cli\<close>; \<open>None\<close> is an access outside its arrays.  The completion \<open>embedded_cli_tab\<close>,
  which nothing calls, is in EvsocTab.
\<close>

unbundle bit_operations_syntax

section \<open>The editor's state\<close>

abbreviation NUL :: char where "NUL \<equiv> CHR 0x00"
abbreviation ESC :: char where "ESC \<equiv> CHR 0x1B"

definition EMBEDDED_CLI_MAX_LINE :: nat where "EMBEDDED_CLI_MAX_LINE = 120"
definition EMBEDDED_CLI_HISTORY_LEN :: nat where "EMBEDDED_CLI_HISTORY_LEN = 512"
definition EMBEDDED_CLI_MAX_ARGC :: nat where "EMBEDDED_CLI_MAX_ARGC = 10"
definition EMBEDDED_CLI_MAX_PROMPT_LEN :: nat where "EMBEDDED_CLI_MAX_PROMPT_LEN = 10"

text \<open>
  \<open>struct embedded_cli\<close>.  \<open>cli_put_char\<close> says that an output function is given, \<open>cli_out\<close> is what it
  has been called with: characters, each with the flag that it is the last of its transmission.
  \<open>cli_argv\<close> holds the positions in \<open>cli_buffer\<close> that the pointers of \<open>argv\<close> hold.
\<close>

record cli =
  cli_buffer :: string
  cli_history :: string
  cli_searching :: bool
  cli_history_pos :: int
  cli_len :: int
  cli_cursor :: int
  cli_done :: bool
  cli_put_char :: bool
  cli_have_escape :: bool
  cli_have_csi :: bool
  cli_counter :: int
  cli_argv :: "nat list"
  cli_prompt :: string
  cli_dup_comp :: bool
  cli_out :: "(char \<times> bool) list"

section \<open>Characters arrays\<close>

text \<open>\<open>memmove\<close> within one array, a store to it and the C string at a position of it.\<close>

definition move :: "int \<Rightarrow> int \<Rightarrow> int \<Rightarrow> string \<Rightarrow> string option" where
  "move dst src n b =
     (if 0 \<le> dst \<and> 0 \<le> src \<and> 0 \<le> n \<and> dst + n \<le> int (length b) \<and> src + n \<le> int (length b)
      then Some (take (nat dst) b @ take (nat n) (drop (nat src) b) @ drop (nat (dst + n)) b) else None)"

definition poke :: "int \<Rightarrow> char \<Rightarrow> string \<Rightarrow> string option" where
  "poke i ch b = (if 0 \<le> i \<and> i < int (length b) then Some (b[nat i := ch]) else None)"

definition str_at :: "int \<Rightarrow> string \<Rightarrow> string option" where
  "str_at i b = (if 0 \<le> i \<and> NUL \<in> set (drop (nat i) b) then Some (cstr (drop (nat i) b)) else None)"

text \<open>What \<open>strncpy\<close> leaves in \<open>n\<close> bytes, and whether \<open>strstr\<close> finds one string in another.\<close>

definition strncpy :: "nat \<Rightarrow> string \<Rightarrow> string" where
  "strncpy n s = take n (s @ replicate n NUL)"

definition strstr :: "string \<Rightarrow> string \<Rightarrow> bool" where
  "strstr h s = list_ex (\<lambda>i. take (length s) (drop i h) = s) [0..<Suc (length h)]"

section \<open>Output\<close>

definition cli_putchar :: "char \<Rightarrow> bool \<Rightarrow> cli \<Rightarrow> cli" where
  "cli_putchar ch is_last c =
     (if cli_put_char c
      then c\<lparr>cli_out := cli_out c @ (if ch = CHR 0x0A then [(CHR 0x0D, False)] else []) @ [(ch, is_last)]\<rparr>
      else c)"

fun cli_puts :: "string \<Rightarrow> cli \<Rightarrow> cli" where
  "cli_puts [] c = c"
| "cli_puts (ch # s) c = cli_puts s (cli_putchar ch (s = []) c)"

definition CLEAR_EOL :: string where "CLEAR_EOL = [ESC] @ ''[0K''"
definition MOVE_BOL :: string where "MOVE_BOL = [ESC] @ ''[1G''"

definition embedded_cli_reset_line :: "cli \<Rightarrow> cli" where
  "embedded_cli_reset_line c =
     c\<lparr>cli_len := 0, cli_cursor := 0, cli_counter := 0, cli_have_csi := False, cli_have_escape := False,
       cli_history_pos := -1, cli_searching := False\<rparr>"

definition embedded_cli_init :: "string option \<Rightarrow> bool \<Rightarrow> cli" where
  "embedded_cli_init prompt put_char =
     (let c = \<lparr>cli_buffer = replicate EMBEDDED_CLI_MAX_LINE NUL, cli_history = replicate EMBEDDED_CLI_HISTORY_LEN NUL,
        cli_searching = False, cli_history_pos = 0, cli_len = 0, cli_cursor = 0, cli_done = False,
        cli_put_char = put_char, cli_have_escape = False, cli_have_csi = False, cli_counter = 0,
        cli_argv = [], cli_prompt = replicate EMBEDDED_CLI_MAX_PROMPT_LEN NUL, cli_dup_comp = False, cli_out = []\<rparr>;
        c = (case prompt of None \<Rightarrow> c
             | Some p \<Rightarrow> c\<lparr>cli_prompt := (strncpy EMBEDDED_CLI_MAX_PROMPT_LEN p)[EMBEDDED_CLI_MAX_PROMPT_LEN - 1 := NUL]\<rparr>)
      in embedded_cli_reset_line c)"

definition cli_ansi :: "int \<Rightarrow> char \<Rightarrow> cli \<Rightarrow> cli" where
  "cli_ansi n code c = cli_puts [ESC, CHR ''['', char_of (48 + n mod 10), code] c"

function term_cursor_back :: "int \<Rightarrow> cli \<Rightarrow> cli" where
  "term_cursor_back n c =
     (if n > 0 then let count = (if n > 9 then 9 else n) in
        term_cursor_back (n - count) (cli_ansi count CHR ''D'' c) else c)"
  by pat_completeness auto
termination by (relation "measure (\<lambda>(n, c). nat n)") auto

function term_cursor_fwd :: "int \<Rightarrow> cli \<Rightarrow> cli" where
  "term_cursor_fwd n c =
     (if n > 0 then let count = (if n > 9 then 9 else n) in
        term_cursor_fwd (n - count) (cli_ansi count CHR ''C'' c) else c)"
  by pat_completeness auto
termination by (relation "measure (\<lambda>(n, c). nat n)") auto

declare term_cursor_back.simps [simp del] term_cursor_fwd.simps [simp del]

text \<open>The loop \<open>while (n--)\<close>, which does not end properly for a negative count.\<close>

fun backspaces :: "nat \<Rightarrow> cli \<Rightarrow> cli" where
  "backspaces 0 c = c"
| "backspaces (Suc n) c = backspaces n (cli_putchar (CHR 0x08) (n = 0) c)"

definition term_backspace :: "int \<Rightarrow> cli \<Rightarrow> cli option" where
  "term_backspace n c = (if n < 0 then None else Some (backspaces (nat n) c))"

definition embedded_cli_prompt :: "cli \<Rightarrow> cli option" where
  "embedded_cli_prompt c = do { s \<leftarrow> str_at 0 (cli_prompt c); Some (cli_puts s c) }"

section \<open>History\<close>

text \<open>The loop of \<open>embedded_cli_get_history\<close>: \<open>Some None\<close> is its NULL.\<close>

fun history_seek :: "nat \<Rightarrow> int \<Rightarrow> string \<Rightarrow> int option option" where
  "history_seek 0 pos h = Some (Some pos)"
| "history_seek (Suc k) pos h = do {
     s \<leftarrow> str_at pos h;
     if s = [] then Some None
     else let pos = pos + int (length s) + 1 in
       if pos = int EMBEDDED_CLI_HISTORY_LEN then Some None else history_seek k pos h
   }"

definition embedded_cli_get_history :: "int \<Rightarrow> cli \<Rightarrow> string option option" where
  "embedded_cli_get_history history_pos c =
     (if history_pos < 0 then Some None
      else do {
        p \<leftarrow> history_seek (nat history_pos) 0 (cli_history c);
        case p of None \<Rightarrow> Some None | Some pos \<Rightarrow> map_option Some (str_at pos (cli_history c))
      })"

partial_function (option) history_search_from :: "int \<Rightarrow> cli \<Rightarrow> string option option" where
  "history_search_from i c = do {
     r \<leftarrow> embedded_cli_get_history i c;
     case r of None \<Rightarrow> Some None
     | Some h \<Rightarrow> do {
         s \<leftarrow> str_at 0 (cli_buffer c);
         if strstr h s then Some (Some h) else history_search_from (i + 1) c
       }
   }"

definition embedded_cli_get_history_search :: "cli \<Rightarrow> string option option" where
  "embedded_cli_get_history_search c = history_search_from 0 c"

text \<open>
  \<open>memmove\<close> is given two bytes too many: its last two bytes land behind the history, on
  \<open>searching\<close> and on the padding between it and \<open>history_pos\<close>.
\<close>

definition embedded_cli_extend_history :: "cli \<Rightarrow> cli option" where
  "embedded_cli_extend_history c = do {
     s \<leftarrow> str_at 0 (cli_buffer c);
     let n = length s;
     if n > 0 then do {
       newest \<leftarrow> str_at 0 (cli_history c);
       if s = newest then Some c
       else do {
         m \<leftarrow> move (int n + 1) 0 (int EMBEDDED_CLI_HISTORY_LEN - int n + 1) (cli_history c @ [if cli_searching c then CHR 0x01 else NUL, NUL]);
         let h = take EMBEDDED_CLI_HISTORY_LEN m;
         let h = take (n + 1) (cli_buffer c) @ drop (n + 1) h;
         let h = h[EMBEDDED_CLI_HISTORY_LEN - 1 := NUL];
         Some (c\<lparr>cli_history := h, cli_searching := (m ! EMBEDDED_CLI_HISTORY_LEN \<noteq> NUL)\<rparr>)
       }
     } else Some c
   }"

definition embedded_cli_stop_search :: "bool \<Rightarrow> cli \<Rightarrow> cli option" where
  "embedded_cli_stop_search print c = do {
     r \<leftarrow> embedded_cli_get_history_search c;
     b \<leftarrow> (case r of Some h \<Rightarrow> poke (int EMBEDDED_CLI_MAX_LINE - 1) NUL (strncpy EMBEDDED_CLI_MAX_LINE h)
           | None \<Rightarrow> poke 0 NUL (cli_buffer c));
     s \<leftarrow> str_at 0 b;
     let c = c\<lparr>cli_buffer := b, cli_len := int (length s), cli_cursor := int (length s), cli_searching := False\<rparr>;
     if print then do {
       c \<leftarrow> embedded_cli_prompt (cli_puts (MOVE_BOL @ CLEAR_EOL) c);
       Some (cli_puts s c)
     } else Some c
   }"

section \<open>Keys\<close>

definition embedded_cli_insert_default_char :: "char \<Rightarrow> cli \<Rightarrow> cli option" where
  "embedded_cli_insert_default_char ch c =
     (if cli_len c \<ge> int EMBEDDED_CLI_MAX_LINE - 1 then Some c
      else do {
        b \<leftarrow> move (cli_cursor c + 1) (cli_cursor c) (cli_len c - cli_cursor c) (cli_buffer c);
        b \<leftarrow> poke (cli_cursor c) ch b;
        b \<leftarrow> poke (cli_len c + 1) NUL b;
        let c = c\<lparr>cli_buffer := b, cli_len := cli_len c + 1, cli_cursor := cli_cursor c + 1\<rparr>;
        if cli_searching c then do {
          let c = cli_puts (MOVE_BOL @ CLEAR_EOL @ ''search:'') c;
          r \<leftarrow> embedded_cli_get_history_search c;
          Some (case r of Some h \<Rightarrow> cli_puts h c | None \<Rightarrow> c)
        } else do {
          s \<leftarrow> str_at (cli_cursor c - 1) (cli_buffer c);
          Some (term_cursor_back (cli_len c - cli_cursor c) (cli_puts s c))
        }
      })"

text \<open>The line recalled by the arrow keys.\<close>

definition recall :: "string \<Rightarrow> int \<Rightarrow> cli \<Rightarrow> cli option" where
  "recall line pos c = do {
     b \<leftarrow> poke (int EMBEDDED_CLI_MAX_LINE - 1) NUL (strncpy EMBEDDED_CLI_MAX_LINE line);
     s \<leftarrow> str_at 0 b;
     Some (cli_puts CLEAR_EOL (cli_puts s
       (c\<lparr>cli_history_pos := pos, cli_buffer := b, cli_len := int (length line), cli_cursor := int (length line)\<rparr>)))
   }"

definition key_up :: "cli \<Rightarrow> cli option" where
  "key_up c = do {
     c \<leftarrow> term_backspace (if cli_done c then 0 else cli_cursor c) c;
     r \<leftarrow> embedded_cli_get_history (cli_history_pos c + 1) c;
     case r of
       Some line \<Rightarrow> recall line (cli_history_pos c + 1) c
     | None \<Rightarrow> do {
         b \<leftarrow> poke 0 NUL (cli_buffer c);
         let tmp = cli_history_pos c;
         Some (cli_puts CLEAR_EOL ((embedded_cli_reset_line (c\<lparr>cli_buffer := b\<rparr>))\<lparr>cli_history_pos := tmp\<rparr>))
       }
   }"

definition key_down :: "cli \<Rightarrow> cli option" where
  "key_down c = do {
     c \<leftarrow> term_backspace (if cli_done c then 0 else cli_cursor c) c;
     r \<leftarrow> embedded_cli_get_history (cli_history_pos c - 1) c;
     case r of
       Some line \<Rightarrow> recall line (cli_history_pos c - 1) c
     | None \<Rightarrow> do {
         b \<leftarrow> poke 0 NUL (cli_buffer c);
         Some (cli_puts CLEAR_EOL (embedded_cli_reset_line (c\<lparr>cli_buffer := b\<rparr>)))
       }
   }"

definition key_home :: "cli \<Rightarrow> cli" where
  "key_home c = (term_cursor_back (cli_cursor c) c)\<lparr>cli_cursor := 0\<rparr>"

definition key_end :: "cli \<Rightarrow> cli" where
  "key_end c = (term_cursor_fwd (cli_len c - cli_cursor c) c)\<lparr>cli_cursor := cli_len c\<rparr>"

definition key_right :: "cli \<Rightarrow> cli" where
  "key_right c =
     (if cli_cursor c \<le> cli_len c - cli_counter c
      then term_cursor_fwd (cli_counter c) (c\<lparr>cli_cursor := cli_cursor c + cli_counter c\<rparr>) else c)"

definition key_left :: "cli \<Rightarrow> cli" where
  "key_left c =
     (if cli_cursor c \<ge> cli_counter c
      then term_cursor_back (cli_counter c) (c\<lparr>cli_cursor := cli_cursor c - cli_counter c\<rparr>) else c)"

definition key_delete :: "cli \<Rightarrow> cli option" where
  "key_delete c =
     (if cli_counter c = 3 \<and> cli_cursor c < cli_len c then do {
        b \<leftarrow> move (cli_cursor c) (cli_cursor c + 1) (cli_len c - cli_cursor c) (cli_buffer c);
        let c = c\<lparr>cli_buffer := b, cli_len := cli_len c - 1\<rparr>;
        s \<leftarrow> str_at (cli_cursor c) b;
        Some (term_cursor_back (cli_len c - cli_cursor c + 1) (cli_puts '' '' (cli_puts s c)))
      } else Some c)"

definition key_backspace :: "cli \<Rightarrow> cli option" where
  "key_backspace c = do {
     c \<leftarrow> (if cli_searching c then embedded_cli_stop_search True c else Some c);
     if cli_cursor c > 0 then do {
       b \<leftarrow> move (cli_cursor c - 1) (cli_cursor c) (cli_len c - cli_cursor c + 1) (cli_buffer c);
       let c = term_cursor_back 1 (c\<lparr>cli_buffer := b, cli_cursor := cli_cursor c - 1, cli_len := cli_len c - 1\<rparr>);
       s \<leftarrow> str_at (cli_cursor c) b;
       Some (term_cursor_back (cli_len c - cli_cursor c + 1) (cli_puts '' '' (cli_puts s c)))
     } else Some c
   }"

text \<open>The last byte of a control sequence, and a byte of one.\<close>

definition csi_final :: "char \<Rightarrow> cli \<Rightarrow> cli option" where
  "csi_final ch c =
     (if ch = CHR ''A'' then key_up c
      else if ch = CHR ''B'' then key_down c
      else if ch = CHR ''C'' then Some (key_right c)
      else if ch = CHR ''D'' then Some (key_left c)
      else if ch = CHR ''F'' then Some (key_end c)
      else if ch = CHR ''H'' then Some (key_home c)
      else if ch = CHR ''~'' then key_delete c
      else Some c)"

definition csi_char :: "char \<Rightarrow> cli \<Rightarrow> cli option" where
  "csi_char ch c =
     (if is_digit ch \<and> cli_counter c < 100
      then Some (c\<lparr>cli_counter := cli_counter c * 10 + of_char ch - 48\<rparr>)
      else do {
        c \<leftarrow> csi_final ch (if cli_counter c = 0 then c\<lparr>cli_counter := 1\<rparr> else c);
        Some (c\<lparr>cli_have_csi := False, cli_have_escape := False, cli_counter := 0\<rparr>)
      })"

text \<open>A byte outside control sequences.  \<open>char\<close> is unsigned on RISC-V, so \<open>ch > 0\<close> fails for NUL only.\<close>

definition plain_char :: "char \<Rightarrow> cli \<Rightarrow> cli option" where
  "plain_char ch c =
     (if ch = NUL then Some c
      else if ch = CHR 0x01 then Some (key_home c)
      else if ch = CHR 0x03 then do {
        c \<leftarrow> embedded_cli_prompt (cli_puts (''^C'' @ [CHR 0x0A]) c);
        b \<leftarrow> poke 0 NUL (cli_buffer c);
        Some ((embedded_cli_reset_line c)\<lparr>cli_buffer := b\<rparr>)
      }
      else if ch = CHR 0x05 then Some (key_end c)
      else if ch = CHR 0x0B then do {
        b \<leftarrow> poke (cli_cursor c) NUL (cli_buffer c);
        Some ((cli_puts CLEAR_EOL c)\<lparr>cli_buffer := b, cli_len := cli_cursor c\<rparr>)
      }
      else if ch = CHR 0x0C then do {
        c \<leftarrow> embedded_cli_prompt (cli_puts (MOVE_BOL @ CLEAR_EOL) c);
        s \<leftarrow> str_at 0 (cli_buffer c);
        Some (term_cursor_back (cli_len c - cli_cursor c) (cli_puts s c))
      }
      else if ch = CHR 0x08 \<or> ch = CHR 0x7F then key_backspace c
      else if ch = CHR 0x12 then
        Some (if \<not> cli_searching c then (cli_puts (CHR 0x0A # ''search:'') c)\<lparr>cli_searching := True\<rparr> else c)
      else if ch = ESC then do {
        c \<leftarrow> (if cli_searching c then embedded_cli_stop_search True c else Some c);
        Some (c\<lparr>cli_have_csi := False, cli_have_escape := True, cli_counter := 0\<rparr>)
      }
      else if ch = CHR ''['' then
        if cli_have_escape c then Some (c\<lparr>cli_have_csi := True\<rparr>) else embedded_cli_insert_default_char ch c
      else if ch = CHR 0x0A \<or> ch = CHR 0x0D then Some (cli_putchar (CHR 0x0A) True c)
      else embedded_cli_insert_default_char ch c)"

text \<open>The beginning and the end of \<open>embedded_cli_insert_char\<close>: clearing up after a finished line and finishing one.\<close>

definition start_line :: "cli \<Rightarrow> cli option" where
  "start_line c =
     (if cli_done c then do {
        b \<leftarrow> poke 0 NUL (cli_buffer c);
        Some (c\<lparr>cli_buffer := b, cli_done := False\<rparr>)
      } else Some c)"

definition finish_line :: "cli \<Rightarrow> cli option" where
  "finish_line c = do {
     c \<leftarrow> (if cli_searching c then embedded_cli_stop_search False c else Some c);
     c \<leftarrow> embedded_cli_extend_history c;
     Some (embedded_cli_reset_line c)
   }"

definition embedded_cli_insert_char :: "char \<Rightarrow> cli \<Rightarrow> (bool \<times> cli) option" where
  "embedded_cli_insert_char ch c = do {
     c \<leftarrow> start_line c;
     let c = (if ch \<noteq> CHR 0x09 then c\<lparr>cli_dup_comp := False\<rparr> else c);
     let csi = cli_have_csi c;
     c \<leftarrow> (if csi then csi_char ch c else plain_char ch c);
     let ch = (if \<not> csi \<and> ch = CHR 0x0D then CHR 0x0A else ch);
     let c = c\<lparr>cli_done := (ch = CHR 0x0A)\<rparr>;
     c \<leftarrow> (if cli_done c then finish_line c else Some c);
     Some (cli_done c, c)
   }"

definition embedded_cli_get_line :: "cli \<Rightarrow> string option option" where
  "embedded_cli_get_line c = (if \<not> cli_done c then Some None else map_option Some (str_at 0 (cli_buffer c)))"

section \<open>Arguments\<close>

definition is_whitespace :: "char \<Rightarrow> bool" where
  "is_whitespace ch \<longleftrightarrow> ch = CHR '' '' \<or> ch = CHR 0x09 \<or> ch = CHR 0x0A \<or> ch = CHR 0x0D"

definition is_quote :: "char \<Rightarrow> bool" where
  "is_quote ch \<longleftrightarrow> ch = CHR 0x27 \<or> ch = CHR 0x22"

text \<open>Closing up the buffer over the byte at \<open>i\<close>.\<close>

definition absorb :: "int \<Rightarrow> string \<Rightarrow> string option" where
  "absorb i b = move i (i + 1) (int EMBEDDED_CLI_MAX_LINE - i - 1) b"

text \<open>
  The loop over the line: the arguments found, the three flags, the next position and the
  buffer.  Where the code steps back with \<open>i--\<close>, the next position is the present one.  An
  escape as the first byte makes the code look at the byte before the buffer.
\<close>

partial_function (option) argc_loop ::
  "nat list \<Rightarrow> bool \<Rightarrow> bool \<Rightarrow> char option \<Rightarrow> int \<Rightarrow> string \<Rightarrow> (nat list \<times> string) option" where
  "argc_loop args in_arg in_escape in_string i b =
     (if \<not> i < int EMBEDDED_CLI_MAX_LINE then Some (args, b)
      else let ch = b ! nat i in
      if ch = NUL then Some (args, b)
      else if in_escape then argc_loop args in_arg False in_string (i + 1) b
      else case in_string of
        Some q \<Rightarrow>
          if ch = q then do { b \<leftarrow> absorb i b; argc_loop args in_arg False None i b }
          else argc_loop args in_arg False in_string (i + 1) b
      | None \<Rightarrow>
          if is_whitespace ch then
            argc_loop args False False None (i + 1) (if in_arg then b[nat i := NUL] else b)
          else if \<not> in_arg \<and> length args \<ge> EMBEDDED_CLI_MAX_ARGC then Some (args, b)
          else
            let args = (if in_arg then args else args @ [nat i]) in
            if ch = CHR 0x5C then do {
              b \<leftarrow> absorb i b;
              if i = 0 then None
              else if is_quote (b ! nat (i - 1)) then do {
                b' \<leftarrow> absorb (i - 1) b;
                argc_loop args True True (Some (b ! nat (i - 1))) (i - 1) b'
              }
              else argc_loop args True True None i b
            }
            else if is_quote ch then do { b' \<leftarrow> absorb i b; argc_loop args True False (Some ch) i b' }
            else argc_loop args True False None (i + 1) b)"

definition embedded_cli_argc :: "cli \<Rightarrow> (nat \<times> cli) option" where
  "embedded_cli_argc c =
     (if \<not> cli_done c then Some (0, c)
      else do {
        (args, b) \<leftarrow> argc_loop [] False False None 0 (cli_buffer c);
        let args = (if length args \<ge> EMBEDDED_CLI_MAX_ARGC then butlast args else args);
        Some (length args, c\<lparr>cli_buffer := b, cli_argv := args\<rparr>)
      })"

text \<open>The strings \<open>argv\<close> points to.\<close>

fun argv_strings :: "nat list \<Rightarrow> string \<Rightarrow> string list option" where
  "argv_strings [] b = Some []"
| "argv_strings (p # ps) b = do { s \<leftarrow> str_at (int p) b; r \<leftarrow> argv_strings ps b; Some (s # r) }"

section \<open>The main loop\<close>

text \<open>
  The loop of \<open>cli_main\<close> on the bytes \<open>getch\<close> reads, 0 where it fails.  \<open>run\<close> is the command dispatch: it
  tells whether the command was the last.  \<open>False\<close>: the loop waits for more.
\<close>

fun cli_loop :: "(string list \<Rightarrow> 'a \<Rightarrow> (bool \<times> 'a) option) \<Rightarrow> string \<Rightarrow> cli \<Rightarrow> 'a \<Rightarrow> (bool \<times> cli \<times> 'a) option" where
  "cli_loop run [] c a = Some (False, c, a)"
| "cli_loop run (ch # keys) c a =
     (if ch = NUL then cli_loop run keys c a
      else do {
        (d, c) \<leftarrow> embedded_cli_insert_char ch c;
        if d then do {
          (cli_argc, c) \<leftarrow> embedded_cli_argc c;
          argv \<leftarrow> argv_strings (cli_argv c) (cli_buffer c);
          (done, a) \<leftarrow> run argv a;
          if done then Some (True, c, a)
          else do { c \<leftarrow> embedded_cli_prompt c; cli_loop run keys c a }
        } else cli_loop run keys c a
      })"

definition cli_main :: "(string list \<Rightarrow> 'a \<Rightarrow> (bool \<times> 'a) option) \<Rightarrow> string \<Rightarrow> 'a \<Rightarrow> (bool \<times> cli \<times> 'a) option" where
  "cli_main run keys a = do {
     c \<leftarrow> embedded_cli_prompt (embedded_cli_init (Some ''EVSOC> '') True);
     cli_loop run keys c a
   }"

end
