(* ===== verification/EvsocCliSafe.thy ===== *)
theory EvsocCliSafe
  imports EvsocCli
begin

text \<open>
  Memory safety of the line editor: the output as a list of characters, the history array, the line and the
  cursor as two strings (\<open>zipped\<close>), what each editing key makes of them (\<open>edits_to\<close>), and the invariant
  \<open>cli_ok\<close> that every byte from the terminal keeps.
\<close>

unbundle bit_operations_syntax

section \<open>Output\<close>

text \<open>Output only extends \<open>cli_out\<close>.\<close>

definition emit :: "(char \<times> bool) list \<Rightarrow> cli \<Rightarrow> cli" where
  "emit es c = (if cli_put_char c then c\<lparr>cli_out := cli_out c @ es\<rparr> else c)"

lemma emit_sel [simp]:
  "cli_buffer (emit es c) = cli_buffer c" "cli_history (emit es c) = cli_history c"
  "cli_searching (emit es c) = cli_searching c" "cli_history_pos (emit es c) = cli_history_pos c"
  "cli_len (emit es c) = cli_len c" "cli_cursor (emit es c) = cli_cursor c" "cli_done (emit es c) = cli_done c"
  "cli_put_char (emit es c) = cli_put_char c" "cli_have_escape (emit es c) = cli_have_escape c"
  "cli_have_csi (emit es c) = cli_have_csi c" "cli_counter (emit es c) = cli_counter c"
  "cli_prompt (emit es c) = cli_prompt c" "cli_argv (emit es c) = cli_argv c"
  by (simp_all add: emit_def)

lemma emit_upd [simp]:
  "(emit es c)\<lparr>cli_buffer := b\<rparr> = emit es (c\<lparr>cli_buffer := b\<rparr>)"
  "(emit es c)\<lparr>cli_len := n\<rparr> = emit es (c\<lparr>cli_len := n\<rparr>)"
  "(emit es c)\<lparr>cli_cursor := n\<rparr> = emit es (c\<lparr>cli_cursor := n\<rparr>)"
  "(emit es c)\<lparr>cli_counter := n\<rparr> = emit es (c\<lparr>cli_counter := n\<rparr>)"
  "(emit es c)\<lparr>cli_history_pos := n\<rparr> = emit es (c\<lparr>cli_history_pos := n\<rparr>)"
  "(emit es c)\<lparr>cli_searching := u\<rparr> = emit es (c\<lparr>cli_searching := u\<rparr>)"
  "(emit es c)\<lparr>cli_have_csi := u\<rparr> = emit es (c\<lparr>cli_have_csi := u\<rparr>)"
  "(emit es c)\<lparr>cli_have_escape := u\<rparr> = emit es (c\<lparr>cli_have_escape := u\<rparr>)"
  "(emit es c)\<lparr>cli_done := u\<rparr> = emit es (c\<lparr>cli_done := u\<rparr>)"
  "(emit es c)\<lparr>cli_dup_comp := u\<rparr> = emit es (c\<lparr>cli_dup_comp := u\<rparr>)"
  "(emit es c)\<lparr>cli_history := h\<rparr> = emit es (c\<lparr>cli_history := h\<rparr>)"
  by (simp_all add: emit_def)

lemma emit_emit [simp]: "emit ys (emit xs c) = emit (xs @ ys) c"
  by (simp add: emit_def)

lemma emit_Nil [simp]: "emit [] c = c"
  by (simp add: emit_def)

fun sent :: "string \<Rightarrow> (char \<times> bool) list" where
  "sent [] = []"
| "sent (ch # s) = (if ch = CHR 0x0A then [(CHR 0x0D, False)] else []) @ (ch, s = []) # sent s"

lemma cli_putchar_emit:
  "cli_putchar ch u c = emit ((if ch = CHR 0x0A then [(CHR 0x0D, False)] else []) @ [(ch, u)]) c"
  by (simp add: cli_putchar_def emit_def)

lemma cli_puts_emit: "cli_puts s c = emit (sent s) c"
  by (induction s c rule: cli_puts.induct) (simp_all add: cli_putchar_emit)

text \<open>The escape sequences of a cursor movement.\<close>

function movement :: "char \<Rightarrow> int \<Rightarrow> string list" where
  "movement code n =
     (if n > 0 then let count = (if n > 9 then 9 else n) in
        [ESC, CHR ''['', char_of (48 + count mod 10), code] # movement code (n - count) else [])"
  by pat_completeness auto
termination by (relation "measure (\<lambda>(code, n). nat n)") auto

declare movement.simps [simp del]

lemma term_cursor_back_emit: "term_cursor_back n c = emit (concat (map sent (movement CHR ''D'' n))) c"
proof (induction n c rule: term_cursor_back.induct)
  case (1 n c)
  then show ?case
    by (subst term_cursor_back.simps, subst movement.simps) (simp add: Let_def cli_ansi_def cli_puts_emit)
qed

lemma term_cursor_fwd_emit: "term_cursor_fwd n c = emit (concat (map sent (movement CHR ''C'' n))) c"
proof (induction n c rule: term_cursor_fwd.induct)
  case (1 n c)
  then show ?case
    by (subst term_cursor_fwd.simps, subst movement.simps) (simp add: Let_def cli_ansi_def cli_puts_emit)
qed

lemma backspaces_emit: "backspaces n c = emit (map (\<lambda>i. (CHR 0x08, i = 0)) (rev [0..<n])) c"
  by (induction n c rule: backspaces.induct) (simp_all add: cli_putchar_emit)

lemmas output_emit = cli_putchar_emit cli_puts_emit term_cursor_back_emit term_cursor_fwd_emit backspaces_emit

section \<open>Strings in character arrays\<close>

lemma move_nat:
  "d + n \<le> length b \<Longrightarrow> s + n \<le> length b \<Longrightarrow>
   move (int d) (int s) (int n) b = Some (take d b @ take n (drop s b) @ drop (d + n) b)"
  by (simp add: move_def nat_add_distrib)

lemma poke_nat: "i < length b \<Longrightarrow> poke (int i) ch b = Some (b[i := ch])"
  by (simp add: poke_def)

lemma str_at_nat: "NUL \<in> set (drop i b) \<Longrightarrow> str_at (int i) b = Some (cstr (drop i b))"
  by (simp add: str_at_def)

lemma str_at_text: "NUL \<notin> set s \<Longrightarrow> str_at (int (length p)) (p @ s @ NUL # r) = Some s"
  by (subst str_at_nat) (simp_all add: cstr_no_NUL)

lemma str_at_0: "NUL \<notin> set s \<Longrightarrow> str_at 0 (s @ NUL # r) = Some s"
  using str_at_text [of s "[]"] by simp

lemma cstr_split:
  assumes "NUL \<in> set b"
  obtains r where "b = cstr b @ NUL # r" "NUL \<notin> set (cstr b)"
proof -
  have "b = cstr b @ dropWhile (\<lambda>c. c \<noteq> NUL) b" by (simp add: cstr_def)
  moreover obtain x r where "dropWhile (\<lambda>c. c \<noteq> NUL) b = x # r"
    using assms by (cases "dropWhile (\<lambda>c. c \<noteq> NUL) b") auto
  ultimately show thesis using that cstr_clean hd_dropWhile [of "\<lambda>c. c \<noteq> NUL" b] by auto
qed

lemma strncpy_fits:
  assumes "length s < n"
  shows "strncpy n s = s @ NUL # replicate (n - 1 - length s) NUL"
  using assms by (cases "n - length s") (auto simp: strncpy_def)

section \<open>The history\<close>

text \<open>
  The history array ends with a NUL and holds no string longer than a line; its bytes are from
  \<open>S\<close>.
\<close>

definition history_ok :: "char set \<Rightarrow> string \<Rightarrow> bool" where
  "history_ok S h \<longleftrightarrow> length h = 512 \<and> h ! 511 = NUL \<and> set h \<subseteq> S \<and> (\<forall>p < 512. length (cstr (drop p h)) \<le> 119)"

lemma cstr_subset: "set (cstr b) \<subseteq> set b"
  by (auto simp: cstr_def dest: set_takeWhileD)

lemma history_string:
  assumes "history_ok S h" "0 \<le> pos" "pos \<le> 511"
  obtains s where "str_at pos h = Some s" "NUL \<notin> set s" "length s \<le> 119" "set s \<subseteq> S" "pos + int (length s) \<le> 511"
proof -
  define p where "p = nat pos"
  have p: "pos = int p" "p < 512" using assms by (simp_all add: p_def)
  have h: "length h = 512" "h ! 511 = NUL" "set h \<subseteq> S" "length (cstr (drop p h)) \<le> 119"
    using assms(1) p(2) by (simp_all add: history_ok_def)
  have "drop p h ! (511 - p) = NUL" "511 - p < length (drop p h)" using h p by simp_all
  then have n: "NUL \<in> set (drop p h)" by (metis nth_mem)
  obtain r where r: "drop p h = cstr (drop p h) @ NUL # r" using cstr_split [OF n] .
  have "length (drop p h) = length (cstr (drop p h)) + 1 + length r" by (subst r) simp
  then have "p + length (cstr (drop p h)) \<le> 511" using h p by simp
  moreover have "set (cstr (drop p h)) \<subseteq> S" using order_trans [OF order_trans [OF cstr_subset set_drop_subset] h(3)] .
  ultimately show thesis using that n h(4) p cstr_clean by (simp add: str_at_nat)
qed

lemma history_seek_ok:
  assumes "history_ok S h" "0 \<le> pos" "pos \<le> 511"
  shows "history_seek k pos h = Some None \<or> (\<exists>p. history_seek k pos h = Some (Some p) \<and> pos + 2 * int k \<le> p \<and> p \<le> 511)"
  using assms(2,3)
proof (induction k arbitrary: pos)
  case (Suc k)
  obtain s where s: "str_at pos h = Some s" "length s \<le> 119" "pos + int (length s) \<le> 511"
    using history_string [OF assms(1) Suc.prems] .
  show ?case
  proof (cases "s = [] \<or> pos + int (length s) + 1 = 512")
    case True
    with s show ?thesis by (auto simp: EMBEDDED_CLI_HISTORY_LEN_def)
  next
    case False
    then have "1 \<le> length s" by (cases s) auto
    with False s Suc.prems Suc.IH [of "pos + int (length s) + 1"] show ?thesis
      by (auto simp: EMBEDDED_CLI_HISTORY_LEN_def Let_def)
  qed
qed simp

lemma get_history_ok:
  assumes "history_ok S (cli_history c)"
  obtains (null) "embedded_cli_get_history i c = Some None"
  | (line) s where "embedded_cli_get_history i c = Some (Some s)" "NUL \<notin> set s" "length s \<le> 119" "set s \<subseteq> S" "0 \<le> i" "i \<le> 255"
proof (cases "i < 0")
  case True
  then show thesis using null by (simp add: embedded_cli_get_history_def)
next
  case False
  then have i: "0 \<le> i" by simp
  consider "history_seek (nat i) 0 (cli_history c) = Some None"
    | p where "history_seek (nat i) 0 (cli_history c) = Some (Some p)" "2 * i \<le> p" "p \<le> 511"
    using history_seek_ok [OF assms, of 0 "nat i"] i by auto
  then show thesis
  proof cases
    case 1
    then show thesis using null i by (simp add: embedded_cli_get_history_def)
  next
    case (2 p)
    then have p: "0 \<le> p" "p \<le> 511" using i by auto
    obtain s where "str_at p (cli_history c) = Some s" "NUL \<notin> set s" "length s \<le> 119" "set s \<subseteq> S"
      by (rule history_string [OF assms p])
    then show thesis using line [of s] 2 i by (simp add: embedded_cli_get_history_def)
  qed
qed

text \<open>The search ends: there are no more than 256 strings to look at.\<close>

lemma history_search_ok:
  assumes "history_ok S (cli_history c)" "str_at 0 (cli_buffer c) = Some t"
  shows "\<exists>r. history_search_from i c = Some r \<and> (\<forall>s. r = Some s \<longrightarrow> NUL \<notin> set s \<and> length s \<le> 119 \<and> set s \<subseteq> S)"
proof (induction "nat (256 - i)" arbitrary: i rule: less_induct)
  case less
  show ?case
  proof (cases rule: get_history_ok [OF assms(1), of i, case_names null line])
    case null
    then show ?thesis by (subst history_search_from.simps) simp
  next
    case (line s)
    then have "nat (256 - (i + 1)) < nat (256 - i)" by simp
    from less [OF this] line assms(2) show ?thesis by (subst history_search_from.simps) auto
  qed
qed

lemma cstr_append_clean: "NUL \<notin> set s \<Longrightarrow> cstr (s @ b) = s @ cstr b"
  by (induction s) (auto simp: cstr_def)

lemma cstr_Cons: "cstr (x # b) = (if x = NUL then [] else x # cstr b)"
  by (simp add: cstr_def)

lemma cstr_cut: "length (cstr ((take n b)[k := NUL])) \<le> length (cstr b)"
proof (induction b arbitrary: n k)
  case (Cons x b)
  show ?case
  proof (cases n)
    case (Suc m)
    then show ?thesis using Cons [of m "k - 1"] Cons [of m m]
      by (cases k) (auto simp: cstr_Cons)
  qed (simp add: cstr_def)
qed (simp add: cstr_def)

lemma cstr_cut_drop: "length (cstr (drop q ((take n b)[k := NUL]))) \<le> length (cstr (drop q b))"
proof (cases "k < q")
  case True
  have "drop q ((take n b)[k := NUL]) = (take (n - q) (drop q b))[n := NUL]"
    using True by (simp add: drop_update_cancel drop_take list_update_beyond)
  then show ?thesis using cstr_cut by simp
next
  case False
  have "drop q ((take n b)[k := NUL]) = (take (n - q) (drop q b))[k - q := NUL]"
    using False by (simp add: drop_update_swap drop_take)
  then show ?thesis using cstr_cut by simp
qed

text \<open>The history after \<open>extend_history\<close> has stored the line \<open>s\<close>.\<close>

definition extended :: "string \<Rightarrow> string \<Rightarrow> string" where
  "extended s h = (s @ NUL # take (511 - length s) h)[511 := NUL]"

lemma extended_alt:
  assumes "length s < 511"
  shows "extended s h = s @ NUL # (take (511 - length s) h)[510 - length s := NUL]"
proof -
  have "511 - length s = Suc (510 - length s)" using assms by simp
  with assms show ?thesis unfolding extended_def list_update_append by simp
qed

lemma history_ok_extended:
  assumes h: "history_ok S h" and s: "NUL \<notin> set s" "length s \<le> 119" "set s \<subseteq> S"
  shows "history_ok S (extended s h)"
proof -
  define t where "t = (take (511 - length s) h)[510 - length s := NUL]"
  have N: "NUL \<in> S" using h nth_mem [of 511 h] by (auto simp: history_ok_def)
  have e: "extended s h = s @ NUL # t" using s(2) by (simp add: extended_alt t_def)
  have l: "length t = 511 - length s" using h s by (simp add: t_def history_ok_def)
  have "set t \<subseteq> S" using h N unfolding t_def history_ok_def
    by (meson insert_subset order_trans set_take_subset set_update_subset_insert)
  moreover have "(s @ NUL # t) ! 511 = NUL"
  proof -
    have "510 - length s < length (take (511 - length s) h)" using h s by (simp add: history_ok_def)
    then have "t ! (510 - length s) = NUL" by (simp add: t_def)
    then show ?thesis using s(2) by (simp add: nth_append)
  qed
  moreover have "length (cstr (drop p (s @ NUL # t))) \<le> 119" if "p < 512" for p
  proof (cases "p \<le> length s")
    case True
    have "cstr (drop p s @ NUL # t) = drop p s"
      using s(1) in_set_dropD by (fastforce intro: cstr_no_NUL)
    with True s(2) show ?thesis by simp
  next
    case False
    define q where "q = p - length s - 1"
    have q: "p = Suc (length s + q)" using False by (simp add: q_def)
    have "drop p (s @ NUL # t) = drop q t" by (simp add: q)
    moreover have "length (cstr (drop q t)) \<le> length (cstr (drop q h))"
      unfolding t_def by (rule cstr_cut_drop)
    ultimately show ?thesis using h that q by (auto simp: history_ok_def intro: order_trans)
  qed
  ultimately show ?thesis using l s N by (auto simp: history_ok_def e)
qed

section \<open>The line and the cursor\<close>

text \<open>The buffer holds the line \<open>l @ r\<close>, the cursor stands between \<open>l\<close> and \<open>r\<close>.\<close>

definition zipped :: "string \<Rightarrow> string \<Rightarrow> cli \<Rightarrow> bool" where
  "zipped l r c \<longleftrightarrow> length (cli_buffer c) = 120 \<and> (\<exists>junk. cli_buffer c = l @ r @ NUL # junk) \<and>
     NUL \<notin> set (l @ r) \<and> cli_len c = int (length l + length r) \<and> cli_cursor c = int (length l)"

lemma zippedE:
  assumes "zipped l r c"
  obtains junk where "cli_buffer c = l @ r @ NUL # junk" "length l + length r + length junk = 119" "NUL \<notin> set l"
    "NUL \<notin> set r" "cli_len c = int (length l + length r)" "cli_cursor c = int (length l)"
  using assms unfolding zipped_def by fastforce

lemma zippedI:
  "cli_buffer c = l @ r @ NUL # junk \<Longrightarrow> length l + length r + length junk = 119 \<Longrightarrow> NUL \<notin> set l \<Longrightarrow> NUL \<notin> set r \<Longrightarrow>
   cli_len c = int (length l + length r) \<Longrightarrow> cli_cursor c = int (length l) \<Longrightarrow> zipped l r c"
  unfolding zipped_def by fastforce

lemma zipped_cong:
  "cli_buffer c' = cli_buffer c \<Longrightarrow> cli_len c' = cli_len c \<Longrightarrow> cli_cursor c' = cli_cursor c \<Longrightarrow> zipped l r c' = zipped l r c"
  by (simp add: zipped_def)

lemma zipped_fits: "zipped l r c \<Longrightarrow> length l + length r \<le> 119"
  by (auto elim: zippedE)

lemma zipped_line: "zipped l r c \<Longrightarrow> str_at 0 (cli_buffer c) = Some (l @ r)"
  by (elim zippedE) (use str_at_0 [of "l @ r"] in auto)

lemma zipped_right: "zipped l r c \<Longrightarrow> str_at (cli_cursor c) (cli_buffer c) = Some r"
  by (elim zippedE) (use str_at_text [of r l] in auto)

text \<open>The stores of the keys that change the line.\<close>

lemma insert_gap:
  assumes "zipped l r c" "length l + length r < 119" "ch \<noteq> NUL"
  obtains b b' b'' where
    "move (cli_cursor c + 1) (cli_cursor c) (cli_len c - cli_cursor c) (cli_buffer c) = Some b"
    "poke (cli_cursor c) ch b = Some b'" "poke (cli_len c + 1) NUL b' = Some b''"
    "zipped (l @ [ch]) r (c\<lparr>cli_buffer := b'', cli_len := cli_len c + 1, cli_cursor := cli_cursor c + 1\<rparr>)"
    "set b'' \<subseteq> insert ch (insert NUL (set (cli_buffer c)))"
proof -
  obtain junk where z: "cli_buffer c = l @ r @ NUL # junk" "length l + length r + length junk = 119" "NUL \<notin> set l"
    "NUL \<notin> set r" "cli_len c = int (length l + length r)" "cli_cursor c = int (length l)"
    using assms(1) by (rule zippedE)
  then obtain x j where j: "junk = x # j" using assms(2) by (cases junk) auto
  define b where "b = l @ hd (r @ [NUL]) # r @ x # j"
  have "move (int (Suc (length l))) (int (length l)) (int (length r)) (cli_buffer c) =
      Some (take (Suc (length l)) (cli_buffer c) @ take (length r) (drop (length l) (cli_buffer c)) @ drop (Suc (length l) + length r) (cli_buffer c))"
    using z assms(2) by (intro move_nat) simp_all
  also have "\<dots> = Some b" using z(1) j by (cases r) (simp_all add: b_def)
  finally have m: "move (cli_cursor c + 1) (cli_cursor c) (cli_len c - cli_cursor c) (cli_buffer c) = Some b"
    using z by (simp add: algebra_simps)
  have p: "poke (cli_cursor c) ch b = Some (l @ ch # r @ x # j)"
    unfolding z(6) by (subst poke_nat) (simp_all add: b_def)
  have "poke (int (length l + length r + 1)) NUL (l @ ch # r @ x # j) = Some ((l @ ch # r @ x # j)[length l + length r + 1 := NUL])"
    by (rule poke_nat) simp
  also have "\<dots> = Some (l @ ch # r @ NUL # j)" by (simp add: list_update_append)
  finally have q: "poke (cli_len c + 1) NUL (l @ ch # r @ x # j) = Some (l @ ch # r @ NUL # j)" using z by (simp add: ac_simps)
  show thesis
    by (rule that [OF m p q]) (use z assms(3) j in \<open>auto intro!: zippedI [of _ _ _ j]\<close>)
qed

lemma delete_gap:
  assumes "zipped l (x # r) c"
  obtains b where
    "move (cli_cursor c) (cli_cursor c + 1) (cli_len c - cli_cursor c) (cli_buffer c) = Some b"
    "zipped l r (c\<lparr>cli_buffer := b, cli_len := cli_len c - 1\<rparr>)" "set b \<subseteq> set (cli_buffer c)"
proof -
  obtain junk where z: "cli_buffer c = l @ x # r @ NUL # junk" "length l + length r + length junk = 118" "NUL \<notin> set l"
    "x \<noteq> NUL" "NUL \<notin> set r" "cli_len c = int (length l + length r + 1)" "cli_cursor c = int (length l)"
    using assms by (elim zippedE) auto
  have "move (int (length l)) (int (Suc (length l))) (int (Suc (length r))) (cli_buffer c) =
      Some (take (length l) (cli_buffer c) @ take (Suc (length r)) (drop (Suc (length l)) (cli_buffer c)) @
        drop (length l + Suc (length r)) (cli_buffer c))"
    using z by (intro move_nat) simp_all
  also have "\<dots> = Some (l @ r @ NUL # NUL # junk)" using z(1) by simp
  finally have m: "move (cli_cursor c) (cli_cursor c + 1) (cli_len c - cli_cursor c) (cli_buffer c) = Some (l @ r @ NUL # NUL # junk)"
    using z by (simp add: algebra_simps)
  show thesis by (rule that [OF m]) (use z in \<open>auto intro!: zippedI [of _ _ _ "NUL # junk"]\<close>)
qed

lemma backspace_gap:
  assumes "zipped (l @ [x]) r c"
  obtains b where
    "move (cli_cursor c - 1) (cli_cursor c) (cli_len c - cli_cursor c + 1) (cli_buffer c) = Some b"
    "zipped l r (c\<lparr>cli_buffer := b, cli_cursor := cli_cursor c - 1, cli_len := cli_len c - 1\<rparr>)" "set b \<subseteq> set (cli_buffer c)"
proof -
  obtain junk where z: "cli_buffer c = l @ x # r @ NUL # junk" "length l + length r + length junk = 118" "NUL \<notin> set l"
    "x \<noteq> NUL" "NUL \<notin> set r" "cli_len c = int (length l + length r + 1)" "cli_cursor c = int (length l + 1)"
    using assms by (elim zippedE) auto
  have "move (int (length l)) (int (Suc (length l))) (int (Suc (length r))) (cli_buffer c) =
      Some (take (length l) (cli_buffer c) @ take (Suc (length r)) (drop (Suc (length l)) (cli_buffer c)) @
        drop (length l + Suc (length r)) (cli_buffer c))"
    using z by (intro move_nat) simp_all
  also have "\<dots> = Some (l @ r @ NUL # NUL # junk)" using z(1) by simp
  finally have m: "move (cli_cursor c - 1) (cli_cursor c) (cli_len c - cli_cursor c + 1) (cli_buffer c) = Some (l @ r @ NUL # NUL # junk)"
    using z by (simp add: algebra_simps)
  show thesis by (rule that [OF m]) (use z in \<open>auto intro!: zippedI [of _ _ _ "NUL # junk"]\<close>)
qed

lemma zipped_move_cursor:
  assumes "zipped l r c" "l @ r = l' @ r'"
  shows "zipped l' r' (c\<lparr>cli_cursor := int (length l')\<rparr>)"
proof -
  have "length l + length r = length l' + length r'" using arg_cong [OF assms(2), of length] by simp
  with assms show ?thesis by (simp add: zipped_def del: set_append) (metis append.assoc assms(2) of_nat_add)
qed

lemma zipped_empty:
  "length b = 120 \<Longrightarrow> zipped [] [] (c\<lparr>cli_buffer := b[0 := NUL], cli_len := 0, cli_cursor := 0\<rparr>)"
  by (cases b) (auto simp: zipped_def)

lemma zipped_fresh:
  assumes "NUL \<notin> set s" "length s \<le> 119"
  shows "poke (int EMBEDDED_CLI_MAX_LINE - 1) NUL (strncpy EMBEDDED_CLI_MAX_LINE s) = Some (s @ NUL # replicate (119 - length s) NUL)"
    "cli_buffer c = s @ NUL # replicate (119 - length s) NUL \<Longrightarrow> cli_len c = int (length s) \<Longrightarrow> cli_cursor c = int (length s) \<Longrightarrow> zipped s [] c"
proof -
  have e: "s @ NUL # replicate (119 - length s) NUL = s @ replicate (Suc (119 - length s)) NUL" by simp
  have "poke (int 119) NUL (s @ NUL # replicate (119 - length s) NUL) = Some ((s @ NUL # replicate (119 - length s) NUL)[119 := NUL])"
    by (rule poke_nat) (use assms(2) in simp)
  also have "(s @ NUL # replicate (119 - length s) NUL)[119 := NUL] = s @ NUL # replicate (119 - length s) NUL"
    unfolding e by (rule list_update_same_conv [THEN iffD2]) (use assms(2) in \<open>simp_all add: nth_append del: replicate_Suc\<close>)
  finally show "poke (int EMBEDDED_CLI_MAX_LINE - 1) NUL (strncpy EMBEDDED_CLI_MAX_LINE s) = Some (s @ NUL # replicate (119 - length s) NUL)"
    using assms(2) by (simp add: EMBEDDED_CLI_MAX_LINE_def strncpy_fits)
next
  show "cli_buffer c = s @ NUL # replicate (119 - length s) NUL \<Longrightarrow> cli_len c = int (length s) \<Longrightarrow> cli_cursor c = int (length s) \<Longrightarrow> zipped s [] c"
    using assms by (intro zippedI [of _ _ _ "replicate (119 - length s) NUL"]) simp_all
qed

section \<open>What the editing keys do\<close>

text \<open>
  Between \<open>c\<close> and \<open>c'\<close> only the line and the cursor have changed, and \<open>es\<close> has been output.  The
  result of an editing operation: the new line and cursor, the output, and the bytes that may be new in the buffer.
\<close>

definition edited :: "cli \<Rightarrow> (char \<times> bool) list \<Rightarrow> cli \<Rightarrow> bool" where
  "edited c es c' \<longleftrightarrow> (\<exists>b n k. c' = emit es (c\<lparr>cli_buffer := b, cli_len := n, cli_cursor := k\<rparr>))"

definition edits_to :: "cli option \<Rightarrow> cli \<Rightarrow> char set \<Rightarrow> string \<Rightarrow> string \<Rightarrow> (char \<times> bool) list \<Rightarrow> bool" where
  "edits_to m c S l r es \<longleftrightarrow>
     (\<exists>c'. m = Some c' \<and> zipped l r c' \<and> edited c es c' \<and> set (cli_buffer c') \<subseteq> S \<union> insert NUL (set (cli_buffer c)))"

lemma edited_sel:
  assumes "edited c es c'"
  shows "cli_history c' = cli_history c" "cli_searching c' = cli_searching c" "cli_history_pos c' = cli_history_pos c"
    "cli_done c' = cli_done c" "cli_put_char c' = cli_put_char c" "cli_have_escape c' = cli_have_escape c"
    "cli_have_csi c' = cli_have_csi c" "cli_counter c' = cli_counter c" "cli_prompt c' = cli_prompt c"
    "cli_put_char c \<Longrightarrow> cli_out c' = cli_out c @ es"
  using assms by (auto simp: edited_def) (simp add: emit_def)

lemma len_cursor_order: "c\<lparr>cli_cursor := k, cli_len := n\<rparr> = c\<lparr>cli_len := n, cli_cursor := k\<rparr>"
  by simp

abbreviation moves :: "char \<Rightarrow> nat \<Rightarrow> (char \<times> bool) list" where
  "moves code n \<equiv> concat (map sent (movement code (int n)))"

lemma edits_toI:
  assumes "m = Some (emit es (c\<lparr>cli_buffer := b, cli_len := n, cli_cursor := k\<rparr>))"
    "zipped l r (c\<lparr>cli_buffer := b, cli_len := n, cli_cursor := k\<rparr>)" "set b \<subseteq> S \<union> insert NUL (set (cli_buffer c))"
  shows "edits_to m c S l r es"
  using assms by (auto simp: edits_to_def edited_def zipped_def)

text \<open>The same when the buffer, the length or both stay.\<close>

lemma zipped_self: "zipped l r c \<Longrightarrow> c = c\<lparr>cli_buffer := cli_buffer c, cli_len := cli_len c, cli_cursor := int (length l)\<rparr>"
  by (simp add: zipped_def)

lemma edits_cursor:
  assumes "zipped l r c" "l @ r = l' @ r'" "m = Some (emit es (c\<lparr>cli_cursor := int (length l')\<rparr>))"
  shows "edits_to m c S l' r' es"
  by (rule edits_toI [where b = "cli_buffer c" and n = "cli_len c" and k = "int (length l')"])
    (use assms zipped_move_cursor [OF assms(1,2)] in auto)

lemma home_edits: "zipped l r c \<Longrightarrow> edits_to (Some (key_home c)) c S [] (l @ r) (moves (CHR ''D'') (length l))"
  by (rule edits_cursor [of l r]) (auto simp: key_home_def term_cursor_back_emit zipped_def)

lemma end_edits: "zipped l r c \<Longrightarrow> edits_to (Some (key_end c)) c S (l @ r) [] (moves (CHR ''C'') (length r))"
  by (rule edits_cursor [of l r]) (auto simp: key_end_def term_cursor_fwd_emit zipped_def)

lemma right_edits:
  assumes "zipped l r c" "cli_counter c = int n" "n \<le> length r"
  shows "edits_to (Some (key_right c)) c S (l @ take n r) (drop n r) (moves (CHR ''C'') n)"
  using assms by (intro edits_cursor [of l r]) (auto simp: key_right_def term_cursor_fwd_emit zipped_def)

lemma left_edits:
  assumes "zipped (l @ m) r c" "cli_counter c = int (length m)"
  shows "edits_to (Some (key_left c)) c S l (m @ r) (moves (CHR ''D'') (length m))"
  using assms by (intro edits_cursor [of "l @ m" r]) (auto simp: key_left_def term_cursor_back_emit zipped_def)

lemma stay_edits: "zipped l r c \<Longrightarrow> edits_to (Some c) c S l r []"
  by (rule edits_cursor [of l r]) (auto simp: zipped_def)

lemma right_stays: "zipped l r c \<Longrightarrow> cli_counter c > int (length r) \<Longrightarrow> edits_to (Some (key_right c)) c S l r []"
  by (simp add: key_right_def zipped_def [of _ _ c] stay_edits)

lemma left_stays: "zipped l r c \<Longrightarrow> cli_counter c > int (length l) \<Longrightarrow> edits_to (Some (key_left c)) c S l r []"
  by (simp add: key_left_def zipped_def [of _ _ c] stay_edits)

lemma delete_edits:
  assumes "zipped l (x # r) c" "cli_counter c = 3"
  shows "edits_to (key_delete c) c S l r (sent r @ sent '' '' @ moves (CHR ''D'') (Suc (length r)))"
proof -
  obtain b where m: "move (cli_cursor c) (cli_cursor c + 1) (cli_len c - cli_cursor c) (cli_buffer c) = Some b"
    and z: "zipped l r (c\<lparr>cli_buffer := b, cli_len := cli_len c - 1\<rparr>)" and b: "set b \<subseteq> set (cli_buffer c)"
    using assms(1) by (rule delete_gap)
  have p: "str_at (cli_cursor c) b = Some r" using zipped_right [OF z] by simp
  have n: "cli_len c - cli_cursor c = 1 + int (length r)" "cli_cursor c < cli_len c"
    using assms(1) by (auto simp: zipped_def)
  show ?thesis
  proof (rule edits_toI [where b = "b" and n = "cli_len c - 1" and k = "cli_cursor c"])
    show "key_delete c = Some (emit (sent r @ sent '' '' @ moves (CHR ''D'') (Suc (length r)))
        (c\<lparr>cli_buffer := b, cli_len := cli_len c - 1, cli_cursor := cli_cursor c\<rparr>))"
      using assms(2) n(2) by (simp add: key_delete_def m p Let_def output_emit) (simp add: n(1))
  qed (use z b in auto)
qed

lemma delete_stays: "zipped l [] c \<Longrightarrow> edits_to (key_delete c) c S l [] []"
  by (simp add: key_delete_def zipped_def [of _ _ c] stay_edits)

lemma backspace_edits:
  assumes "zipped (l @ [x]) r c" "\<not> cli_searching c"
  shows "edits_to (key_backspace c) c S l r
    (moves (CHR ''D'') 1 @ sent r @ sent '' '' @ moves (CHR ''D'') (Suc (length r)))"
proof -
  obtain b where m: "move (cli_cursor c - 1) (cli_cursor c) (cli_len c - cli_cursor c + 1) (cli_buffer c) = Some b"
    and z: "zipped l r (c\<lparr>cli_buffer := b, cli_cursor := cli_cursor c - 1, cli_len := cli_len c - 1\<rparr>)"
    and b: "set b \<subseteq> set (cli_buffer c)"
    using assms(1) by (rule backspace_gap)
  have p: "str_at (cli_cursor c - 1) b = Some r" using zipped_right [OF z] by simp
  have n: "cli_len c - cli_cursor c = int (length r)" "0 < cli_cursor c"
    using assms(1) by (auto simp: zipped_def)
  show ?thesis
  proof (rule edits_toI [where b = "b" and n = "cli_len c - 1" and k = "cli_cursor c - 1"])
    show "key_backspace c = Some (emit (moves (CHR ''D'') 1 @ sent r @ sent '' '' @ moves (CHR ''D'') (Suc (length r)))
        (c\<lparr>cli_buffer := b, cli_len := cli_len c - 1, cli_cursor := cli_cursor c - 1\<rparr>))"
      using assms(2) n(2) by (simp add: key_backspace_def m p Let_def output_emit len_cursor_order) (simp add: n(1) add.commute)
  qed (use z b in \<open>auto simp: zipped_def\<close>)
qed

lemma backspace_stays:
  "zipped [] r c \<Longrightarrow> \<not> cli_searching c \<Longrightarrow> edits_to (key_backspace c) c S [] r []"
  by (simp add: key_backspace_def zipped_def [of _ _ c] stay_edits)

lemma insert_edits:
  assumes "zipped l r c" "length l + length r < 119" "ch \<noteq> NUL" "\<not> cli_searching c"
  shows "edits_to (embedded_cli_insert_default_char ch c) c {ch} (l @ [ch]) r
    (sent (ch # r) @ moves (CHR ''D'') (length r))"
proof -
  obtain b b' b'' where m: "move (cli_cursor c + 1) (cli_cursor c) (cli_len c - cli_cursor c) (cli_buffer c) = Some b"
      "poke (cli_cursor c) ch b = Some b'" "poke (cli_len c + 1) NUL b' = Some b''"
    and z: "zipped (l @ [ch]) r (c\<lparr>cli_buffer := b'', cli_len := cli_len c + 1, cli_cursor := cli_cursor c + 1\<rparr>)"
    and b: "set b'' \<subseteq> insert ch (insert NUL (set (cli_buffer c)))"
    using assms(1-3) by (rule insert_gap)
  obtain junk where j: "b'' = l @ ch # r @ NUL # junk" using z by (auto elim: zippedE)
  have p: "str_at (cli_cursor c) b'' = Some (ch # r)"
    using str_at_text [of "ch # r" l junk] assms(1,3) by (auto simp: zipped_def j)
  have n: "cli_len c - cli_cursor c = int (length r)" "cli_len c < 119" using assms(1,2) by (auto simp: zipped_def)
  show ?thesis
  proof (rule edits_toI [where b = "b''" and n = "cli_len c + 1" and k = "cli_cursor c + 1"])
    show "embedded_cli_insert_default_char ch c = Some (emit (sent (ch # r) @ moves (CHR ''D'') (length r))
        (c\<lparr>cli_buffer := b'', cli_len := cli_len c + 1, cli_cursor := cli_cursor c + 1\<rparr>))"
      using n assms(4) m p by (simp add: embedded_cli_insert_default_char_def EMBEDDED_CLI_MAX_LINE_def Let_def output_emit)
  qed (use z b in auto)
qed

lemma insert_stays:
  "zipped l r c \<Longrightarrow> length l + length r = 119 \<Longrightarrow> edits_to (embedded_cli_insert_default_char ch c) c S l r []"
  by (simp add: embedded_cli_insert_default_char_def EMBEDDED_CLI_MAX_LINE_def zipped_def [of _ _ c] stay_edits)

lemma kill_edits:
  assumes "zipped l r c"
  shows "\<exists>b. poke (cli_cursor c) NUL (cli_buffer c) = Some b \<and>
    edits_to (Some ((cli_puts CLEAR_EOL c)\<lparr>cli_buffer := b, cli_len := cli_cursor c\<rparr>)) c S l [] (sent CLEAR_EOL)"
proof -
  obtain junk where z: "cli_buffer c = l @ r @ NUL # junk" "length l + length r + length junk = 119" "NUL \<notin> set l"
    "cli_cursor c = int (length l)"
    using assms by (rule zippedE)
  define t where "t = tl (r @ NUL # junk)"
  have b: "poke (cli_cursor c) NUL (cli_buffer c) = Some (l @ NUL # t)"
    unfolding z(4) by (subst poke_nat, simp add: z(1)) (cases r; simp add: z(1) t_def list_update_append)
  have "edits_to (Some ((cli_puts CLEAR_EOL c)\<lparr>cli_buffer := l @ NUL # t, cli_len := cli_cursor c\<rparr>)) c S l [] (sent CLEAR_EOL)"
  proof (rule edits_toI [where b = "l @ NUL # t" and n = "cli_cursor c" and k = "cli_cursor c"])
    show "zipped l [] (c\<lparr>cli_buffer := l @ NUL # t, cli_len := cli_cursor c, cli_cursor := cli_cursor c\<rparr>)"
      by (rule zippedI [of _ _ _ t]) (use z in \<open>auto simp: t_def\<close>)
    show "set (l @ NUL # t) \<subseteq> S \<union> insert NUL (set (cli_buffer c))"
      using z(1) by (cases r) (auto simp: t_def)
  qed (simp add: output_emit)
  with b show ?thesis by blast
qed

definition prompt_text :: "cli \<Rightarrow> string" where "prompt_text c = cstr (cli_prompt c)"

lemma prompt_emit: "NUL \<in> set (cli_prompt c) \<Longrightarrow> embedded_cli_prompt c = Some (emit (sent (prompt_text c)) c)"
  using str_at_nat [of 0 "cli_prompt c"] by (simp add: embedded_cli_prompt_def output_emit prompt_text_def)

lemma prompt_text_emit [simp]: "prompt_text (emit es c) = prompt_text c"
  by (simp add: prompt_text_def)

lemma redraw_edits:
  assumes "zipped l r c" "NUL \<in> set (cli_prompt c)"
  shows "edits_to (plain_char (CHR 0x0C) c) c S l r
    (sent (MOVE_BOL @ CLEAR_EOL) @ sent (prompt_text c) @ sent (l @ r) @ moves (CHR ''D'') (length r))"
proof -
  have n: "cli_len c - cli_cursor c = int (length r)" "c\<lparr>cli_cursor := int (length l)\<rparr> = c"
    using assms(1) by (auto simp: zipped_def)
  show ?thesis
    by (rule edits_cursor [OF assms(1) refl])
      (simp only: n(2), simp add: plain_char_def prompt_emit assms(2) output_emit zipped_line [OF assms(1)] n(1) prompt_text_def)
qed

lemma recall_eq:
  assumes "NUL \<notin> set line" "length line \<le> 119"
  shows "recall line pos c = Some (emit (sent line @ sent CLEAR_EOL)
      (c\<lparr>cli_history_pos := pos, cli_buffer := line @ NUL # replicate (119 - length line) NUL,
         cli_len := int (length line), cli_cursor := int (length line)\<rparr>))"
  using assms by (simp add: recall_def zipped_fresh(1) str_at_0 output_emit)

lemma term_backspace_emit:
  "term_backspace (int n) c = Some (emit (map (\<lambda>i. (CHR 0x08, i = 0)) (rev [0..<n])) c)"
  by (simp add: term_backspace_def output_emit)

lemma history_move:
  assumes "length h = 514" "n \<le> 119"
  shows "move (int n + 1) 0 (int EMBEDDED_CLI_HISTORY_LEN - int n + 1) h = Some (take (n + 1) h @ take (513 - n) h)"
proof -
  have "int EMBEDDED_CLI_HISTORY_LEN - int n + 1 = int (513 - n)" "int n + 1 = int (n + 1)" "(0 :: int) = int 0"
    using assms(2) by (simp_all add: EMBEDDED_CLI_HISTORY_LEN_def)
  then have "move (int n + 1) 0 (int EMBEDDED_CLI_HISTORY_LEN - int n + 1) h = move (int (n + 1)) (int 0) (int (513 - n)) h"
    by presburger
  also have "\<dots> = Some (take (n + 1) h @ take (513 - n) h)"
    by (subst move_nat) (use assms in simp_all)
  finally show ?thesis .
qed

lemma extend_history_eq:
  assumes "zipped l r c" "length (cli_history c) = 512" "NUL \<in> set (cli_history c)"
  shows "\<exists>u. embedded_cli_extend_history c =
    Some (if l @ r = [] \<or> l @ r = cstr (cli_history c) then c
      else c\<lparr>cli_history := extended (l @ r) (cli_history c), cli_searching := u\<rparr>)"
proof (cases "l @ r = [] \<or> l @ r = cstr (cli_history c)")
  case True
  have "str_at 0 (cli_history c) = Some (cstr (cli_history c))" using assms(3) by (simp add: str_at_def)
  with True zipped_line [OF assms(1)] show ?thesis by (auto simp: embedded_cli_extend_history_def Let_def)
next
  case False
  define h where "h = cli_history c"
  define s where "s = l @ r"
  have l: "length s \<le> 119" "0 < length s" using zipped_fits [OF assms(1)] False by (auto simp: s_def)
  obtain junk where b: "cli_buffer c = s @ NUL # junk" using assms(1) by (auto elim: zippedE simp: s_def)
  have t: "str_at 0 h = Some (cstr h)" using assms(3) by (simp add: str_at_def h_def)
  have h: "length h = 512" using assms(2) by (simp add: h_def)
  define m where "m = take (length s + 1) (h @ [if cli_searching c then CHR 0x01 else NUL, NUL]) @ take (513 - length s) (h @ [if cli_searching c then CHR 0x01 else NUL, NUL])"
  have m: "move (int (length s) + 1) 0 (int EMBEDDED_CLI_HISTORY_LEN - int (length s) + 1)
      (h @ [if cli_searching c then CHR 0x01 else NUL, NUL]) = Some m"
    unfolding m_def by (subst history_move) (use h l in simp_all)
  have "take 512 m = take (length s + 1) h @ take (511 - length s) h" using h l by (simp add: m_def min_def)
  then have e: "(take (length s + 1) (cli_buffer c) @ drop (length s + 1) (take 512 m))[511 := NUL] = extended s h"
    using h l by (simp add: b extended_def)
  show ?thesis
    using False zipped_line [OF assms(1)] t m e l(2)
    by (simp add: embedded_cli_extend_history_def Let_def flip: s_def h_def)
      (simp add: EMBEDDED_CLI_HISTORY_LEN_def, blast)
qed

section \<open>Memory safety\<close>

text \<open>
  What every key keeps: the arrays have their sizes and their terminators, the counters stay
  small, and unless a line has just been finished the cursor stands in the line.  \<open>S\<close> are
  the bytes that may be in the arrays.
\<close>

definition cli_base :: "char set \<Rightarrow> cli \<Rightarrow> bool" where
  "cli_base S c \<longleftrightarrow> NUL \<in> S \<and> length (cli_buffer c) = 120 \<and> set (cli_buffer c) \<subseteq> S \<and> history_ok S (cli_history c) \<and>
     NUL \<in> set (cli_prompt c) \<and> 0 \<le> cli_counter c \<and> cli_counter c \<le> 999 \<and>
     -1 \<le> cli_history_pos c \<and> cli_history_pos c \<le> 255"

definition cli_editing :: "char set \<Rightarrow> cli \<Rightarrow> bool" where
  "cli_editing S c \<longleftrightarrow> cli_base S c \<and> (\<exists>l r. zipped l r c)"

definition cli_ok :: "char set \<Rightarrow> cli \<Rightarrow> bool" where
  "cli_ok S c \<longleftrightarrow> (if cli_done c then cli_base S c \<and> cli_len c = 0 \<and> cli_cursor c = 0 else cli_editing S c)"

definition yields :: "'a option \<Rightarrow> ('a \<Rightarrow> bool) \<Rightarrow> bool" where
  "yields m P \<longleftrightarrow> (\<exists>x. m = Some x \<and> P x)"

lemma yields_Some [simp]: "yields (Some x) P \<longleftrightarrow> P x"
  by (simp add: yields_def)

lemma yields_bind: "yields m Q \<Longrightarrow> (\<And>x. Q x \<Longrightarrow> yields (f x) P) \<Longrightarrow> yields (m \<bind> f) P"
  by (auto simp: yields_def)

lemma cli_base_emit [simp]: "cli_base S (emit es c) = cli_base S c"
  by (simp add: cli_base_def)

lemma zipped_emit [simp]: "zipped l r (emit es c) = zipped l r c"
  by (simp add: zipped_def)

lemma cli_editing_emit [simp]: "cli_editing S (emit es c) = cli_editing S c"
  by (simp add: cli_editing_def)

lemma editing_edits:
  assumes "cli_editing S c" "edits_to m c X l r es" "X \<subseteq> S"
  shows "yields m (cli_editing S)"
proof -
  obtain c' where c: "m = Some c'" "zipped l r c'" "edited c es c'" "set (cli_buffer c') \<subseteq> X \<union> insert NUL (set (cli_buffer c))"
    using assms(2) by (auto simp: edits_to_def)
  have "cli_base S c'"
    using assms(1,3) c(2,4) edited_sel [OF c(3)] by (auto simp: cli_editing_def cli_base_def zipped_def)
  with c show ?thesis by (auto simp: cli_editing_def)
qed

lemma editing_flags:
  "cli_editing S c \<Longrightarrow> cli_editing S (c\<lparr>cli_have_csi := u\<rparr>)"
  "cli_editing S c \<Longrightarrow> cli_editing S (c\<lparr>cli_have_escape := u\<rparr>)"
  "cli_editing S c \<Longrightarrow> cli_editing S (c\<lparr>cli_searching := u\<rparr>)"
  "cli_editing S c \<Longrightarrow> cli_editing S (c\<lparr>cli_done := u\<rparr>)"
  "cli_editing S c \<Longrightarrow> cli_editing S (c\<lparr>cli_dup_comp := u\<rparr>)"
  "cli_editing S c \<Longrightarrow> 0 \<le> n \<Longrightarrow> n \<le> 999 \<Longrightarrow> cli_editing S (c\<lparr>cli_counter := n\<rparr>)"
  by (simp_all add: cli_editing_def cli_base_def zipped_def)

lemma editing_empty:
  assumes "cli_base S c"
  shows "poke 0 NUL (cli_buffer c) = Some ((cli_buffer c)[0 := NUL])"
    "cli_editing S (embedded_cli_reset_line (c\<lparr>cli_buffer := (cli_buffer c)[0 := NUL]\<rparr>))"
    "cli_editing S ((embedded_cli_reset_line (c\<lparr>cli_buffer := (cli_buffer c)[0 := NUL]\<rparr>))\<lparr>cli_history_pos := cli_history_pos c\<rparr>)"
proof -
  have b: "length (cli_buffer c) = 120" "NUL \<in> S" "set (cli_buffer c) \<subseteq> S" using assms by (simp_all add: cli_base_def)
  then show "poke 0 NUL (cli_buffer c) = Some ((cli_buffer c)[0 := NUL])"
    by (simp add: poke_def)
  have "set ((cli_buffer c)[0 := NUL]) \<subseteq> S" using b by (intro set_update_subsetI)
  moreover have "\<exists>junk. (cli_buffer c)[0 := NUL] = NUL # junk" using b by (cases "cli_buffer c") auto
  ultimately show
    "cli_editing S (embedded_cli_reset_line (c\<lparr>cli_buffer := (cli_buffer c)[0 := NUL]\<rparr>))"
    "cli_editing S ((embedded_cli_reset_line (c\<lparr>cli_buffer := (cli_buffer c)[0 := NUL]\<rparr>))\<lparr>cli_history_pos := cli_history_pos c\<rparr>)"
    using assms b by (auto simp: cli_editing_def cli_base_def zipped_def embedded_cli_reset_line_def)
qed

lemma editing_fresh:
  assumes "cli_base S c" "NUL \<notin> set s" "length s \<le> 119" "set s \<subseteq> S" "-1 \<le> pos" "pos \<le> 255"
  shows "cli_editing S (c\<lparr>cli_history_pos := pos, cli_buffer := s @ NUL # replicate (119 - length s) NUL,
         cli_len := int (length s), cli_cursor := int (length s)\<rparr>)"
proof -
  have "zipped s [] (c\<lparr>cli_history_pos := pos, cli_buffer := s @ NUL # replicate (119 - length s) NUL,
         cli_len := int (length s), cli_cursor := int (length s)\<rparr>)"
    by (rule zipped_fresh(2)) (use assms in simp_all)
  with assms show ?thesis by (auto simp: cli_editing_def cli_base_def)
qed

lemma cursor_nat: "zipped l r c \<Longrightarrow> (if cli_done c then 0 else cli_cursor c) = int (if cli_done c then 0 else length l)"
  by (simp add: zipped_def)

lemma recall_safe:
  assumes "cli_editing S c" "NUL \<notin> set s" "length s \<le> 119" "set s \<subseteq> S" "0 \<le> pos" "pos \<le> 255"
  shows "yields (recall s pos c) (cli_editing S)"
  using assms editing_fresh [of S c s pos] by (simp add: recall_eq cli_editing_def)

lemma up_safe:
  assumes "cli_editing S c"
  shows "yields (key_up c) (cli_editing S)"
proof -
  obtain l r where z: "zipped l r c" and b: "cli_base S c" using assms by (auto simp: cli_editing_def)
  have h: "history_ok S (cli_history (emit es c))" for es using b by (simp add: cli_base_def)
  let ?es = "map (\<lambda>i. (CHR 0x08, i = 0)) (rev [0..<if cli_done c then 0 else length l])"
  show ?thesis
  proof (cases rule: get_history_ok [OF h [of ?es], of "cli_history_pos c + 1", case_names null line])
    case null
    then show ?thesis using editing_empty [of S "emit ?es c"] b
      by (simp add: key_up_def cursor_nat [OF z] term_backspace_emit output_emit)
  next
    case (line s)
    then show ?thesis using recall_safe [of S "emit ?es c" s] assms
      by (simp add: key_up_def cursor_nat [OF z] term_backspace_emit)
  qed
qed

lemma down_safe:
  assumes "cli_editing S c"
  shows "yields (key_down c) (cli_editing S)"
proof -
  obtain l r where z: "zipped l r c" and b: "cli_base S c" using assms by (auto simp: cli_editing_def)
  have h: "history_ok S (cli_history (emit es c))" for es using b by (simp add: cli_base_def)
  let ?es = "map (\<lambda>i. (CHR 0x08, i = 0)) (rev [0..<if cli_done c then 0 else length l])"
  show ?thesis
  proof (cases rule: get_history_ok [OF h [of ?es], of "cli_history_pos c - 1", case_names null line])
    case null
    then show ?thesis using editing_empty [of S "emit ?es c"] b
      by (simp add: key_down_def cursor_nat [OF z] term_backspace_emit output_emit)
  next
    case (line s)
    then show ?thesis using recall_safe [of S "emit ?es c" s] assms
      by (simp add: key_down_def cursor_nat [OF z] term_backspace_emit)
  qed
qed

lemma stop_search_safe:
  assumes "cli_editing S c"
  shows "yields (embedded_cli_stop_search u c) (\<lambda>c'. cli_editing S c' \<and> \<not> cli_searching c' \<and> cli_done c' = cli_done c)"
proof -
  obtain l r where z: "zipped l r c" and b: "cli_base S c" using assms by (auto simp: cli_editing_def)
  have h: "history_ok S (cli_history c)" and p: "NUL \<in> set (cli_prompt c)" using b by (simp_all add: cli_base_def)
  obtain q where q: "embedded_cli_get_history_search c = Some q"
    and s: "\<And>s. q = Some s \<Longrightarrow> NUL \<notin> set s \<and> length s \<le> 119 \<and> set s \<subseteq> S"
    using history_search_ok [OF h zipped_line [OF z], of 0] by (auto simp: embedded_cli_get_history_search_def)
  show ?thesis
  proof (cases q)
    case None
    obtain junk where j: "(cli_buffer c)[0 := NUL] = NUL # junk" using b by (cases "cli_buffer c") (auto simp: cli_base_def)
    have "cli_editing S (c\<lparr>cli_buffer := NUL # junk, cli_len := 0, cli_cursor := 0, cli_searching := False\<rparr>)"
      using editing_empty(2) [OF b] b j
      by (auto simp: cli_editing_def cli_base_def zipped_def embedded_cli_reset_line_def)
    with None q p j editing_empty(1) [OF b] str_at_0 [of "[]"] show ?thesis
      by (simp add: embedded_cli_stop_search_def prompt_emit output_emit prompt_text_def Let_def)
  next
    case (Some t)
    with s have t: "NUL \<notin> set t" "length t \<le> 119" "set t \<subseteq> S" by auto
    have "zipped t [] (c\<lparr>cli_buffer := t @ NUL # replicate (119 - length t) NUL, cli_len := int (length t),
        cli_cursor := int (length t), cli_searching := False\<rparr>)"
      by (rule zipped_fresh(2)) (use t in simp_all)
    then have "cli_editing S (c\<lparr>cli_buffer := t @ NUL # replicate (119 - length t) NUL, cli_len := int (length t),
        cli_cursor := int (length t), cli_searching := False\<rparr>)"
      using b t by (auto simp: cli_editing_def cli_base_def)
    with Some q p t show ?thesis
      by (simp add: embedded_cli_stop_search_def zipped_fresh(1) str_at_0 prompt_emit output_emit prompt_text_def Let_def)
  qed
qed

lemma insert_safe:
  assumes "cli_editing S c" "ch \<noteq> NUL" "ch \<in> S"
  shows "yields (embedded_cli_insert_default_char ch c) (cli_editing S)"
proof -
  obtain l r where z: "zipped l r c" and b: "cli_base S c" using assms(1) by (auto simp: cli_editing_def)
  consider "length l + length r = 119" | "length l + length r < 119" "\<not> cli_searching c" | "length l + length r < 119" "cli_searching c"
    using zipped_fits [OF z] by linarith
  then show ?thesis
  proof cases
    case 1
    then show ?thesis using editing_edits [OF assms(1) insert_stays [OF z]] by blast
  next
    case 2
    then show ?thesis using editing_edits [OF assms(1) insert_edits [OF z _ assms(2)]] assms(3) by simp
  next
    case 3
    obtain b1 b2 b3 where m: "move (cli_cursor c + 1) (cli_cursor c) (cli_len c - cli_cursor c) (cli_buffer c) = Some b1"
        "poke (cli_cursor c) ch b1 = Some b2" "poke (cli_len c + 1) NUL b2 = Some b3"
      and z': "zipped (l @ [ch]) r (c\<lparr>cli_buffer := b3, cli_len := cli_len c + 1, cli_cursor := cli_cursor c + 1\<rparr>)"
      and s: "set b3 \<subseteq> insert ch (insert NUL (set (cli_buffer c)))"
      using z 3(1) assms(2) by (rule insert_gap)
    let ?c = "c\<lparr>cli_buffer := b3, cli_len := cli_len c + 1, cli_cursor := cli_cursor c + 1\<rparr>"
    have "length b3 = 120" using z' by (simp add: zipped_def)
    then have "cli_base S ?c" using b s assms(3) by (auto simp: cli_base_def)
    with z' have e: "cli_editing S ?c" unfolding cli_editing_def by blast
    then have h: "history_ok S (cli_history (emit es ?c))" "str_at 0 (cli_buffer (emit es ?c)) = Some (l @ [ch] @ r)" for es
      using zipped_line [OF z'] by (simp_all add: cli_editing_def cli_base_def)
    obtain q where "embedded_cli_get_history_search (emit (sent (MOVE_BOL @ CLEAR_EOL @ ''search:'')) ?c) = Some q"
      using history_search_ok [OF h(1) h(2) [of "sent (MOVE_BOL @ CLEAR_EOL @ ''search:'')"], of 0] by (auto simp: embedded_cli_get_history_search_def)
    moreover have "cli_len c < 119" using z 3(1) by (auto simp: zipped_def)
    ultimately show ?thesis using m 3(2) e
      by (simp add: embedded_cli_insert_default_char_def EMBEDDED_CLI_MAX_LINE_def Let_def output_emit split: option.split)
  qed
qed

lemma zipped_cases:
  assumes "zipped l r c"
  obtains (empty) "l = []" | (char) m x where "l = m @ [x]"
  by (cases l rule: rev_cases) auto

lemma left_right_safe:
  assumes "cli_editing S c" "0 \<le> cli_counter c"
  shows "cli_editing S (key_left c)" "cli_editing S (key_right c)"
proof -
  obtain l r where z: "zipped l r c" using assms by (auto simp: cli_editing_def)
  have n: "cli_counter c = int (nat (cli_counter c))" using assms(2) by simp
  show "cli_editing S (key_right c)"
  proof (cases "nat (cli_counter c) \<le> length r")
    case True
    then show ?thesis using editing_edits [OF assms(1) right_edits [OF z n]] by fastforce
  next
    case False
    then show ?thesis using editing_edits [OF assms(1) right_stays [OF z]] by fastforce
  qed
  show "cli_editing S (key_left c)"
  proof (cases "nat (cli_counter c) \<le> length l")
    case True
    define k where "k = length l - nat (cli_counter c)"
    have "zipped (take k l @ drop k l) r c" "cli_counter c = int (length (drop k l))"
      using z True n by (simp_all add: k_def)
    then show ?thesis using editing_edits [OF assms(1) left_edits] by fastforce
  next
    case False
    then show ?thesis using editing_edits [OF assms(1) left_stays [OF z]] by fastforce
  qed
qed

lemma home_end_safe:
  assumes "cli_editing S c"
  shows "cli_editing S (key_home c)" "cli_editing S (key_end c)"
proof -
  obtain l r where z: "zipped l r c" using assms by (auto simp: cli_editing_def)
  show "cli_editing S (key_home c)" "cli_editing S (key_end c)"
    using editing_edits [OF assms home_edits [OF z]] editing_edits [OF assms end_edits [OF z]] by fastforce+
qed

lemma delete_safe:
  assumes "cli_editing S c"
  shows "yields (key_delete c) (cli_editing S)"
proof -
  obtain l r where z: "zipped l r c" using assms by (auto simp: cli_editing_def)
  show ?thesis
  proof (cases "cli_counter c = 3")
    case True
    show ?thesis
    proof (cases r)
      case Nil
      with z show ?thesis using editing_edits [OF assms delete_stays] by blast
    next
      case (Cons x r')
      with z True show ?thesis using editing_edits [OF assms delete_edits] by blast
    qed
  qed (use assms in \<open>simp add: key_delete_def\<close>)
qed

lemma backspace_after:
  assumes "cli_editing S c" "\<not> cli_searching c"
  shows "yields (key_backspace c) (cli_editing S)"
proof -
  obtain l r where z: "zipped l r c" using assms by (auto simp: cli_editing_def)
  then show ?thesis
  proof (cases rule: zipped_cases)
    case empty
    with z show ?thesis using editing_edits [OF assms(1) backspace_stays [OF _ assms(2)]] by blast
  next
    case (char m x)
    with z show ?thesis using editing_edits [OF assms(1) backspace_edits [OF _ assms(2)]] by blast
  qed
qed

lemma backspace_safe:
  assumes "cli_editing S c"
  shows "yields (key_backspace c) (cli_editing S)"
proof (cases "cli_searching c")
  case False
  with assms show ?thesis by (rule backspace_after)
next
  case True
  obtain c' where c: "embedded_cli_stop_search True c = Some c'" "cli_editing S c'" "\<not> cli_searching c'"
    using stop_search_safe [OF assms] by (auto simp: yields_def)
  have "key_backspace c = key_backspace c'" using True c by (simp add: key_backspace_def)
  then show ?thesis using backspace_after c(2,3) by simp
qed

lemma csi_final_safe:
  assumes "cli_editing S c"
  shows "yields (csi_final ch c) (cli_editing S)"
proof -
  have "0 \<le> cli_counter c" using assms by (simp add: cli_editing_def cli_base_def)
  with assms show ?thesis
    by (simp add: csi_final_def up_safe down_safe left_right_safe home_end_safe delete_safe)
qed

lemma csi_char_safe:
  assumes "cli_editing S c"
  shows "yields (csi_char ch c) (cli_editing S)"
proof (cases "is_digit ch \<and> cli_counter c < 100")
  case True
  define d where "d = (of_char ch :: int)"
  have "d = int (of_char ch)" unfolding d_def by (rule of_nat_of_char [symmetric])
  with True have d: "48 \<le> d" "d \<le> 57" by (simp_all add: is_digit_def)
  have c: "0 \<le> cli_counter c" "cli_counter c \<le> 99" using assms True by (simp_all add: cli_editing_def cli_base_def)
  have "cli_editing S (c\<lparr>cli_counter := cli_counter c * 10 + d - 48\<rparr>)"
    by (rule editing_flags(6) [OF assms]) (use c d in linarith)+
  with True show ?thesis by (simp add: csi_char_def d_def)
next
  case False
  let ?c = "if cli_counter c = 0 then c\<lparr>cli_counter := 1\<rparr> else c"
  have "cli_editing S ?c" using editing_flags(6) [OF assms, of 1] assms by simp
  then have "yields (csi_final ch ?c) (cli_editing S)" by (rule csi_final_safe)
  then have "yields (csi_final ch ?c \<bind> (\<lambda>c. Some (c\<lparr>cli_have_csi := False, cli_have_escape := False, cli_counter := 0\<rparr>))) (cli_editing S)"
    by (rule yields_bind) (simp add: editing_flags)
  then show ?thesis by (simp only: csi_char_def False if_False)
qed

lemma interrupt_safe:
  assumes "cli_editing S c"
  shows "yields (plain_char (CHR 0x03) c) (cli_editing S)"
proof -
  have b: "cli_base S c" "NUL \<in> set (cli_prompt c)" using assms by (simp_all add: cli_editing_def cli_base_def)
  have "cli_editing S ((embedded_cli_reset_line c)\<lparr>cli_buffer := (cli_buffer c)[0 := NUL]\<rparr>)"
    using editing_empty(2) [OF b(1)] by (simp add: embedded_cli_reset_line_def cli_editing_def cli_base_def zipped_def)
  moreover have "(embedded_cli_reset_line (emit es c))\<lparr>cli_buffer := b\<rparr> = emit es ((embedded_cli_reset_line c)\<lparr>cli_buffer := b\<rparr>)" for es b
    by (simp add: embedded_cli_reset_line_def)
  ultimately show ?thesis using b editing_empty(1) [OF b(1)]
    by (simp add: plain_char_def output_emit prompt_emit)
qed

lemma plain_char_safe:
  assumes "cli_editing S c" "ch \<in> S"
  shows "yields (plain_char ch c) (cli_editing S)"
proof -
  obtain l r where z: "zipped l r c" and b: "cli_base S c" using assms by (auto simp: cli_editing_def)
  have p: "NUL \<in> set (cli_prompt c)" using b by (simp add: cli_base_def)
  consider "ch = CHR 0x03" | "ch = CHR 0x0B" | "ch = CHR 0x0C" | "ch = ESC"
    | "ch \<noteq> CHR 0x03" "ch \<noteq> CHR 0x0B" "ch \<noteq> CHR 0x0C" "ch \<noteq> ESC"
    by blast
  then show ?thesis
  proof cases
    case 1
    then show ?thesis using interrupt_safe [OF assms(1)] by simp
  next
    case 2
    obtain q where q: "poke (cli_cursor c) NUL (cli_buffer c) = Some q"
      "edits_to (Some ((cli_puts CLEAR_EOL c)\<lparr>cli_buffer := q, cli_len := cli_cursor c\<rparr>)) c {} l [] (sent CLEAR_EOL)"
      using kill_edits [OF z] by blast
    then show ?thesis using 2 editing_edits [OF assms(1) q(2)] by (simp add: plain_char_def)
  next
    case 3
    then show ?thesis using editing_edits [OF assms(1) redraw_edits [OF z p, of "{}"]] by simp
  next
    case 4
    have "yields (if cli_searching c then embedded_cli_stop_search True c else Some c) (cli_editing S)"
      using stop_search_safe [OF assms(1), of True] assms(1) by (auto simp: yields_def)
    then have "yields ((if cli_searching c then embedded_cli_stop_search True c else Some c) \<bind>
        (\<lambda>c. Some (c\<lparr>cli_have_csi := False, cli_have_escape := True, cli_counter := 0\<rparr>))) (cli_editing S)"
      by (rule yields_bind) (simp add: editing_flags)
    with 4 show ?thesis by (simp add: plain_char_def)
  next
    case 5
    have "ch \<noteq> NUL \<Longrightarrow> yields (embedded_cli_insert_default_char ch c) (cli_editing S)"
      by (rule insert_safe [OF assms(1) _ assms(2)])
    with 5 show ?thesis
      using assms(1) home_end_safe backspace_safe editing_flags
      by (cases "ch = CHR ''[''") (simp_all add: plain_char_def output_emit)
  qed
qed

lemma finish_line_safe:
  assumes "cli_editing S c" "cli_done c"
  shows "yields (finish_line c) (cli_ok S)"
  unfolding finish_line_def
proof (rule yields_bind)
  show "yields (if cli_searching c then embedded_cli_stop_search False c else Some c) (\<lambda>c. cli_editing S c \<and> cli_done c)"
    using assms stop_search_safe [OF assms(1)] by (auto simp: yields_def)
next
  fix c
  assume c: "cli_editing S c \<and> cli_done c"
  then obtain l r where z: "zipped l r c" and b: "cli_base S c" by (auto simp: cli_editing_def)
  have h: "history_ok S (cli_history c)" "set (cli_buffer c) \<subseteq> S" "length (cli_history c) = 512" "NUL \<in> set (cli_history c)"
    using b nth_mem [of 511 "cli_history c"] by (auto simp: cli_base_def history_ok_def)
  have "set (l @ r) \<subseteq> S" using z h(2) by (auto simp: zipped_def)
  then have "history_ok S (extended (l @ r) (cli_history c))"
    using h(1) z zipped_fits [OF z] by (intro history_ok_extended) (auto simp: zipped_def)
  then show "yields (embedded_cli_extend_history c \<bind> (\<lambda>c. Some (embedded_cli_reset_line c))) (cli_ok S)"
    using extend_history_eq [OF z h(3,4)] b c
    by (auto simp: cli_ok_def cli_base_def embedded_cli_reset_line_def)
qed

lemma start_line_safe:
  assumes "cli_ok S c"
  shows "yields (start_line c) (cli_editing S)"
proof (cases "cli_done c")
  case True
  with assms have b: "cli_base S c" "cli_len c = 0" "cli_cursor c = 0" by (simp_all add: cli_ok_def)
  have "cli_editing S (c\<lparr>cli_buffer := (cli_buffer c)[0 := NUL], cli_done := False\<rparr>)"
    using editing_empty(2) [OF b(1)] b by (simp add: cli_editing_def cli_base_def zipped_def embedded_cli_reset_line_def)
  with True editing_empty(1) [OF b(1)] show ?thesis by (simp add: start_line_def)
qed (use assms in \<open>simp add: start_line_def cli_ok_def\<close>)

lemma insert_char_safe:
  assumes "cli_ok S c" "ch \<in> S"
  shows "yields (embedded_cli_insert_char ch c) (\<lambda>(d, c'). cli_ok S c')"
  unfolding embedded_cli_insert_char_def Let_def
proof (intro yields_bind [OF start_line_safe [OF assms(1)]], rule yields_bind)
  fix c :: cli
  assume c: "cli_editing S c"
  have "cli_editing S (if ch \<noteq> CHR 0x09 then c\<lparr>cli_dup_comp := False\<rparr> else c)" (is "cli_editing S ?c")
    using c by (simp add: editing_flags)
  then show "yields (if cli_have_csi ?c then csi_char ch ?c else plain_char ch ?c) (cli_editing S)"
    using csi_char_safe plain_char_safe assms(2) by simp
next
  fix c c' :: cli
  let ?ch = "if \<not> cli_have_csi (if ch \<noteq> CHR 0x09 then c\<lparr>cli_dup_comp := False\<rparr> else c) \<and> ch = CHR 0x0D then CHR 0x0A else ch"
  assume "cli_editing S c'"
  then have e: "cli_editing S (c'\<lparr>cli_done := u\<rparr>)" for u by (rule editing_flags)
  have "yields (if cli_done (c'\<lparr>cli_done := ?ch = CHR 0x0A\<rparr>) then finish_line (c'\<lparr>cli_done := ?ch = CHR 0x0A\<rparr>)
      else Some (c'\<lparr>cli_done := ?ch = CHR 0x0A\<rparr>)) (cli_ok S)"
  proof (cases "?ch = CHR 0x0A")
    case True
    then show ?thesis using finish_line_safe [OF e [of True]] by simp
  next
    case False
    then show ?thesis using e [of False] by (simp add: cli_ok_def)
  qed
  then show "yields ((if cli_done (c'\<lparr>cli_done := ?ch = CHR 0x0A\<rparr>) then finish_line (c'\<lparr>cli_done := ?ch = CHR 0x0A\<rparr>)
      else Some (c'\<lparr>cli_done := ?ch = CHR 0x0A\<rparr>)) \<bind> (\<lambda>c. Some (cli_done c, c))) (\<lambda>(d, c'). cli_ok S c')"
    by (rule yields_bind) simp
qed

text \<open>A sequence of bytes from the terminal.\<close>

fun insert_chars :: "string \<Rightarrow> cli \<Rightarrow> cli option" where
  "insert_chars [] c = Some c"
| "insert_chars (ch # s) c = do { (d, c) \<leftarrow> embedded_cli_insert_char ch c; insert_chars s c }"

lemma insert_chars_safe: "cli_ok UNIV c \<Longrightarrow> yields (insert_chars keys c) (cli_ok UNIV)"
proof (induction keys arbitrary: c)
  case (Cons ch keys)
  have "yields (embedded_cli_insert_char ch c \<bind> (\<lambda>(d, c). insert_chars keys c)) (cli_ok UNIV)"
    by (rule yields_bind [OF insert_char_safe [OF Cons.prems]]) (use Cons.IH in auto)
  then show ?case by simp
qed simp

lemma history_ok_empty: "NUL \<in> S \<Longrightarrow> history_ok S (replicate 512 NUL)"
proof -
  have "cstr (drop p (replicate 512 NUL)) = []" for p
    by (cases "512 - p") (simp_all add: cstr_def)
  then show "NUL \<in> S \<Longrightarrow> history_ok S (replicate 512 NUL)" by (auto simp: history_ok_def)
qed

lemma init_zipped: "zipped [] [] (embedded_cli_init prompt u)"
  by (cases prompt)
    (simp_all add: zipped_def embedded_cli_init_def embedded_cli_reset_line_def EMBEDDED_CLI_MAX_LINE_def Let_def
      numeral_eq_Suc)

lemma init_ok: "NUL \<in> S \<Longrightarrow> cli_ok S (embedded_cli_init prompt u)"
proof -
  assume N: "NUL \<in> S"
  have p: "NUL \<in> set ((strncpy 10 p)[9 := NUL])" for p
    by (rule set_update_memI) (simp add: strncpy_def)
  have "cli_base S (embedded_cli_init prompt u)"
    using N history_ok_empty p
    by (cases prompt) (auto simp: cli_base_def embedded_cli_init_def embedded_cli_reset_line_def EMBEDDED_CLI_MAX_LINE_def
      EMBEDDED_CLI_HISTORY_LEN_def EMBEDDED_CLI_MAX_PROMPT_LEN_def Let_def)
  moreover have "\<not> cli_done (embedded_cli_init prompt u)"
    by (cases prompt) (simp_all add: embedded_cli_init_def embedded_cli_reset_line_def Let_def)
  ultimately show ?thesis using init_zipped unfolding cli_ok_def cli_editing_def by metis
qed


end
