(* ===== verification/EvsocCliArgs.thy ===== *)
theory EvsocCliArgs
  imports EvsocCliSafe
begin

text \<open>
  The arguments of a finished line: \<open>embedded_cli_argc\<close> against the word splitting \<open>shell_words\<close>.
\<close>

unbundle bit_operations_syntax

section \<open>Arguments\<close>

text \<open>
  The words of a line: separated by white space, with single or double quotes removed and white space
  between them kept.  \<open>cur\<close> is the word begun, \<open>q\<close> the quote still open.
\<close>

fun words_from :: "string option \<Rightarrow> char option \<Rightarrow> string \<Rightarrow> string list" where
  "words_from cur q [] = (case cur of None \<Rightarrow> [] | Some w \<Rightarrow> [w])"
| "words_from cur q (c # s) =
     (case q of
        Some x \<Rightarrow> if c = x then words_from cur None s else words_from (Some (the cur @ [c])) q s
      | None \<Rightarrow>
          if is_whitespace c then (case cur of None \<Rightarrow> [] | Some w \<Rightarrow> [w]) @ words_from None None s
          else let w = (case cur of None \<Rightarrow> [] | Some w \<Rightarrow> w) in
            if is_quote c then words_from (Some w) (Some c) s else words_from (Some (w @ [c])) None s)"

definition shell_words :: "string \<Rightarrow> string list" where
  "shell_words s = words_from None None s"

lemma absorb_text:
  assumes "b = pre @ ch # s" "length b = 120" "s \<noteq> []"
  shows "absorb (int (length pre)) b = Some (pre @ s @ [last s])"
proof -
  have n: "length pre \<le> 118" using assms by (cases s) auto
  have "absorb (int (length pre)) b = move (int (length pre)) (int (length pre + 1)) (int (119 - length pre)) b"
    using n by (simp add: absorb_def EMBEDDED_CLI_MAX_LINE_def add.commute)
  also have "\<dots> = Some (take (length pre) b @ take (119 - length pre) (drop (length pre + 1) b) @ drop 119 b)"
    by (subst move_nat) (use assms(2) n in simp_all)
  also have "drop 119 b = [last s]"
  proof -
    have "length s - 1 = 118 - length pre" using assms by simp
    then have "drop 119 b = drop (length s - 1) s" using assms n by (simp add: drop_Cons')
    also have "\<dots> = [last s]" using assms(3) by (induction s) (auto simp: drop_Cons' neq_Nil_conv)
    finally show ?thesis .
  qed
  also have "take (length pre) b @ take (119 - length pre) (drop (length pre + 1) b) @ [last s] = pre @ s @ [last s]"
    using assms by simp
  finally show ?thesis .
qed

lemma str_at_prefix: "str_at p b = Some w \<Longrightarrow> str_at p (b @ x) = Some w"
  by (auto simp: str_at_def cstr_def takeWhile_append1 split: if_splits)

lemma argv_strings_prefix: "argv_strings ps b = Some ws \<Longrightarrow> argv_strings ps (b @ x) = Some ws"
  by (induction ps b arbitrary: ws rule: argv_strings.induct)
    (auto simp: bind_eq_Some_conv str_at_prefix)

lemma argv_strings_snoc:
  "argv_strings (ps @ [p]) b = do { ws \<leftarrow> argv_strings ps b; w \<leftarrow> str_at (int p) b; Some (ws @ [w]) }"
  by (induction ps b rule: argv_strings.induct) (auto simp: bind_Some_iff split: option.split bind_split)

lemma argv_strings_length: "argv_strings ps b = Some ws \<Longrightarrow> length ps = length ws"
  by (induction ps b arbitrary: ws rule: argv_strings.induct) (auto simp: bind_eq_Some_conv)

lemma line_bytes: "i = int (length pre) \<Longrightarrow> b = pre @ c # s \<Longrightarrow> b ! nat i = c"
  by simp

text \<open>
  In the loop, \<open>pre\<close> is the part of the line dealt with: it holds the complete words, each
  terminated, and at its end the word begun.
\<close>

definition args_in :: "nat list \<Rightarrow> string list \<Rightarrow> string option \<Rightarrow> string \<Rightarrow> bool" where
  "args_in args ws cur pre \<longleftrightarrow>
     (case cur of None \<Rightarrow> argv_strings args pre = Some ws
      | Some w \<Rightarrow> NUL \<notin> set w \<and> (\<exists>as p. args = as @ [p] \<and> argv_strings as pre = Some ws \<and> p \<le> length pre \<and> drop p pre = w))"

lemma args_in_length: "args_in args ws cur pre \<Longrightarrow> length args = length ws + (if cur = None then 0 else 1)"
  by (auto simp: args_in_def argv_strings_length split: option.splits)

lemma args_in_snoc:
  "args_in args ws (Some w) pre \<Longrightarrow> c \<noteq> NUL \<Longrightarrow> args_in args ws (Some (w @ [c])) (pre @ [c])"
  unfolding args_in_def by (auto intro: argv_strings_prefix)

lemma args_in_skip: "args_in args ws None pre \<Longrightarrow> args_in args ws None (pre @ x)"
  by (auto simp: args_in_def intro: argv_strings_prefix)

lemma args_in_begin: "args_in args ws None pre \<Longrightarrow> args_in (args @ [length pre]) ws (Some []) pre"
  by (auto simp: args_in_def)

lemma args_in_end:
  assumes "args_in args ws (Some w) pre"
  shows "args_in args (ws @ [w]) None (pre @ NUL # x)"
proof -
  obtain as p where a: "NUL \<notin> set w" "args = as @ [p]" "argv_strings as pre = Some ws" "p \<le> length pre" "drop p pre = w"
    using assms by (auto simp: args_in_def)
  have "str_at (int p) (pre @ NUL # x) = Some w" using a by (subst str_at_nat) (simp_all add: cstr_no_NUL)
  with a argv_strings_prefix [OF a(3)] show ?thesis by (simp add: args_in_def argv_strings_snoc)
qed

lemma args_in_result:
  assumes "args_in args ws cur pre"
  shows "argv_strings args (pre @ NUL # x) = Some (ws @ (case cur of None \<Rightarrow> [] | Some w \<Rightarrow> [w]))"
proof (cases cur)
  case None
  with assms show ?thesis by (auto simp: args_in_def intro: argv_strings_prefix)
next
  case (Some w)
  with args_in_end [of args ws w pre x] assms show ?thesis by (simp add: args_in_def)
qed

text \<open>A character other than an escape in the loop; \<open>t\<close> is what follows it.\<close>

lemma argc_loop_char:
  assumes "b = pre @ c # t" "length b = 120" "t \<noteq> []" "c \<noteq> NUL" "c \<noteq> CHR 0x5C"
  shows "argc_loop args u False q (int (length pre)) b =
    (case q of
       Some x \<Rightarrow> if c = x then argc_loop args u False None (int (length pre)) (pre @ t @ [last t])
         else argc_loop args u False q (int (length (pre @ [c]))) b
     | None \<Rightarrow>
         if is_whitespace c then argc_loop args False False None (int (length (pre @ [c]))) (if u then pre @ NUL # t else b)
         else if \<not> u \<and> length args \<ge> 10 then Some (args, b)
         else let args = (if u then args else args @ [length pre]) in
           if is_quote c then argc_loop args True False (Some c) (int (length pre)) (pre @ t @ [last t])
           else argc_loop args True False None (int (length (pre @ [c]))) b)"
proof -
  have "int (length pre) < int EMBEDDED_CLI_MAX_LINE" "b ! length pre = c" "b[length pre := NUL] = pre @ NUL # t"
    using assms(1,2) by (simp_all add: EMBEDDED_CLI_MAX_LINE_def list_update_append)
  with assms absorb_text [OF assms(1-3)] show ?thesis
    by (subst argc_loop.simps) (simp add: EMBEDDED_CLI_MAX_ARGC_def Let_def add.commute split: option.split)
qed

lemma argc_loop_words:
  assumes "b = pre @ s @ NUL # junk" "length b = 120" "NUL \<notin> set s" "CHR 0x5C \<notin> set s"
    "args_in args ws cur pre" "q = None \<or> cur \<noteq> None" "length args \<le> 10"
  shows "\<exists>args' b'. argc_loop args (cur \<noteq> None) False q (int (length pre)) b = Some (args', b') \<and> length b' = 120 \<and>
    argv_strings args' b' = Some (take 10 (ws @ words_from cur q s))"
  using assms
proof (induction s arbitrary: b pre junk args ws cur q)
  case Nil
  have "length ws + (if cur = None then 0 else 1) \<le> 10" using args_in_length [OF Nil.prems(5)] Nil.prems(7) by simp
  moreover have "argc_loop args (cur \<noteq> None) False q (int (length pre)) b = Some (args, b)"
    using Nil.prems(1,2) by (subst argc_loop.simps) (simp add: EMBEDDED_CLI_MAX_LINE_def)
  ultimately show ?case using args_in_result [OF Nil.prems(5), of junk] Nil.prems(1,2)
    by (auto split: option.splits)
next
  case (Cons c s)
  let ?t = "s @ NUL # junk"
  have c: "c \<noteq> NUL" "c \<noteq> CHR 0x5C" and s: "NUL \<notin> set s" "CHR 0x5C \<notin> set s"
    and b: "b = pre @ c # ?t" "?t \<noteq> []"
    using Cons.prems by auto
  note step = argc_loop_char [OF b(1) Cons.prems(2) b(2) c, of args "cur \<noteq> None" q]
  have keep: "b = (pre @ [c]) @ s @ NUL # junk" and close: "pre @ ?t @ [last ?t] = pre @ s @ NUL # (junk @ [last ?t])"
    and blank: "pre @ NUL # ?t = (pre @ [NUL]) @ s @ NUL # junk"
    and len: "length (pre @ ?t @ [last ?t]) = 120" "length (pre @ NUL # ?t) = 120"
    using Cons.prems(1,2) by auto
  note kept = Cons.IH [OF keep Cons.prems(2) s] and closed = Cons.IH [OF close len(1) s] and blanked = Cons.IH [OF blank len(2) s]
  consider (close) x w where "q = Some x" "cur = Some w" "c = x" | (quoted) x w where "q = Some x" "cur = Some w" "c \<noteq> x"
    | (space) "q = None" "is_whitespace c" "cur = None" | (word) w where "q = None" "is_whitespace c" "cur = Some w"
    | (full) "q = None" "\<not> is_whitespace c" "cur = None" "length args \<ge> 10"
    | (char) "q = None" "\<not> is_whitespace c" "\<not> (cur = None \<and> length args \<ge> 10)"
    using Cons.prems(6) by (cases q; cases cur; blast)
  then show ?case
  proof cases
    case (close x w)
    then show ?thesis using closed [of args ws cur None] Cons.prems step by simp
  next
    case (quoted x w)
    then show ?thesis using kept [of args ws "Some (w @ [c])" q] Cons.prems step args_in_snoc c(1) by simp
  next
    case space
    then show ?thesis using kept [of args ws None None] Cons.prems step args_in_skip by simp
  next
    case (word w)
    then show ?thesis using blanked [of args "ws @ [w]" None None] Cons.prems step args_in_end [of args ws w pre "[]"] by simp
  next
    case full
    then have "length ws = 10" using args_in_length [OF Cons.prems(5)] Cons.prems(7) by simp
    then show ?thesis using full Cons.prems step argv_strings_prefix by (auto simp: args_in_def)
  next
    case char
    define args' where "args' = (if cur = None then args @ [length pre] else args)"
    define w where "w = (case cur of None \<Rightarrow> [] | Some w \<Rightarrow> w)"
    have a: "args_in args' ws (Some w) pre" "length args' \<le> 10"
      using Cons.prems(5,7) char(3) args_in_begin by (auto simp: args'_def w_def split: option.split)
    have "argc_loop args (cur \<noteq> None) False q (int (length pre)) b =
        (if is_quote c then argc_loop args' True False (Some c) (int (length pre)) (pre @ ?t @ [last ?t])
         else argc_loop args' True False None (int (length (pre @ [c]))) b)"
      using step char by (auto simp: args'_def Let_def)
    moreover have "words_from cur q (c # s) = (if is_quote c then words_from (Some w) (Some c) s else words_from (Some (w @ [c])) None s)"
      using char by (simp add: w_def Let_def)
    ultimately show ?thesis
      using closed [of args' ws "Some w" "Some c"] kept [of args' ws "Some (w @ [c])" None] args_in_snoc [OF a(1) c(1)] a
      by (simp del: words_from.simps)
  qed
qed

lemma embedded_cli_argc_words:
  assumes "cli_done c" "length (cli_buffer c) = 120" "str_at 0 (cli_buffer c) = Some line" "CHR 0x5C \<notin> set line"
  shows "\<exists>c'. embedded_cli_argc c = Some (min 9 (length (shell_words line)), c') \<and>
    (\<exists>b args. c' = c\<lparr>cli_buffer := b, cli_argv := args\<rparr> \<and> length b = 120 \<and> argv_strings args b = Some (take 9 (shell_words line)))"
proof -
  have n: "NUL \<in> set (cli_buffer c)" "line = cstr (cli_buffer c)"
    using assms(3) by (auto simp: str_at_def split: if_splits)
  then obtain junk where j: "cli_buffer c = line @ NUL # junk" "NUL \<notin> set line" using cstr_split by metis
  obtain args b where l: "argc_loop [] False False None 0 (cli_buffer c) = Some (args, b)" "length b = 120"
    "argv_strings args b = Some (take 10 (shell_words line))"
    using argc_loop_words [of "cli_buffer c" "[]" line junk "[]" "[]" None None] j assms(2,4)
    by (auto simp: args_in_def shell_words_def)
  have a: "argv_strings (butlast args) b = Some (butlast (take 10 (shell_words line)))" if "args \<noteq> []"
  proof -
    have "args = butlast args @ [last args]" using that by simp
    then have "argv_strings (butlast args @ [last args]) b = Some (take 10 (shell_words line))" using l(3) by simp
    then show ?thesis by (auto simp: argv_strings_snoc bind_eq_Some_conv) (metis butlast_snoc)
  qed
  have n: "length args = min 10 (length (shell_words line))" using argv_strings_length [OF l(3)] by simp
  show ?thesis
  proof (cases "length args \<ge> 10")
    case True
    then have "butlast (take 10 (shell_words line)) = take 9 (shell_words line)"
      using n by (simp add: butlast_take)
    moreover have "args \<noteq> []" using True by auto
    ultimately show ?thesis using True a n l assms(1)
      by (auto simp: embedded_cli_argc_def EMBEDDED_CLI_MAX_ARGC_def intro!: exI [of _ b] exI [of _ "butlast args"])
  next
    case False
    then have "take 10 (shell_words line) = take 9 (shell_words line)" using n by (simp add: min_def split: if_splits)
    with False n l assms(1) show ?thesis
      by (auto simp: embedded_cli_argc_def EMBEDDED_CLI_MAX_ARGC_def intro!: exI [of _ b] exI [of _ args])
  qed
qed

text \<open>An escape as the first byte of the line makes the code look at the byte before the buffer.\<close>

lemma leading_escape_faults:
  assumes "cli_done c" "cli_buffer c = CHR 0x5C # s" "length (cli_buffer c) = 120"
  shows "embedded_cli_argc c = None"
proof -
  have "\<not> is_whitespace (CHR 0x5C)" by (simp add: is_whitespace_def)
  then have "argc_loop [] False False None 0 (cli_buffer c) = None"
    using assms absorb_text [of "cli_buffer c" "[]" "CHR 0x5C" s]
    by (subst argc_loop.simps) (simp add: EMBEDDED_CLI_MAX_LINE_def EMBEDDED_CLI_MAX_ARGC_def Let_def split: bind_split)
  with assms(1) show ?thesis by (simp add: embedded_cli_argc_def)
qed

text \<open>C27: A finished line without escapes is split into its words: separated by white space, with the quotes
  removed and the blanks between quotes kept, an unclosed quote reaching to the end of the line.  At most nine
  words are passed on, although ten are announced.\<close>

theorem embedded_cli_argc_splits:
  assumes "length (cli_buffer c) = 120" "embedded_cli_get_line c = Some (Some line)" "CHR 0x5C \<notin> set line"
  shows "\<exists>c'. embedded_cli_argc c = Some (min 9 (length (shell_words line)), c') \<and>
    argv_strings (cli_argv c') (cli_buffer c') = Some (take 9 (shell_words line))"
proof -
  have "cli_done c" "str_at 0 (cli_buffer c) = Some line"
    using assms(2) by (auto simp: embedded_cli_get_line_def split: if_splits)
  with embedded_cli_argc_words [OF _ assms(1) _ assms(3)] show ?thesis by fastforce
qed

definition demo_line :: cli where
  "demo_line = (embedded_cli_init None True)\<lparr>cli_done := True,
     cli_buffer := ''prtchar 3 '' @ [CHR 0x22] @ ''a b'' @ [CHR 0x22] @ ''c'' @ replicate 104 NUL\<rparr>"

lemma embedded_cli_argc_splits_witness:
  "\<exists>c'. embedded_cli_argc demo_line = Some (3, c') \<and>
     argv_strings (cli_argv c') (cli_buffer c') = Some [''prtchar'', ''3'', ''a bc'']"
proof -
  define line where "line = ''prtchar 3 '' @ [CHR 0x22] @ ''a b'' @ [CHR 0x22] @ ''c''"
  have b: "cli_buffer demo_line = line @ NUL # replicate 103 NUL"
    by (simp add: demo_line_def line_def numeral_eq_Suc)
  have "embedded_cli_get_line demo_line = Some (Some line)"
    unfolding embedded_cli_get_line_def b by (subst str_at_0) (simp_all add: line_def demo_line_def)
  moreover have "length (cli_buffer demo_line) = 120" "CHR 0x5C \<notin> set line" unfolding b by (simp_all add: line_def)
  moreover have "shell_words line = [''prtchar'', ''3'', ''a bc'']"
    by (simp add: shell_words_def line_def is_whitespace_def is_quote_def)
  ultimately show ?thesis using embedded_cli_argc_splits [of demo_line line] by (simp add: numeral_3_eq_3)
qed

end
