(* ===== verification/EvsocCliEdit.thy ===== *)
theory EvsocCliEdit
  imports EvsocCliSafe
begin

text \<open>
  The line editor against an abstract one: a model of the terminal it writes to, the lines stored in the history
  array (\<open>stores\<close>), the abstract editor (\<open>editor\<close>, \<open>edit_step\<close>), and the proof that every editing key does to the
  line, the history position and the terminal what the abstract editor says (\<open>key_follows\<close>).
\<close>

unbundle bit_operations_syntax

section \<open>The terminal\<close>

text \<open>
  The row of a terminal that the cursor is in: a terminal wide enough for the line that understands the
  control characters and escape sequences the editor sends.
\<close>

datatype tmode = Ground | Escape | Csi nat

record terminal =
  cells :: string
  column :: nat
  tmode :: tmode

definition printable :: "char \<Rightarrow> bool" where
  "printable ch \<longleftrightarrow> 32 \<le> (of_char ch :: nat) \<and> (of_char ch :: nat) < 127"

definition put_cell :: "nat \<Rightarrow> char \<Rightarrow> string \<Rightarrow> string" where
  "put_cell k ch s = take k (s @ replicate (k - length s) CHR '' '') @ ch # drop (Suc k) s"

definition csi_act :: "char \<Rightarrow> nat \<Rightarrow> terminal \<Rightarrow> terminal" where
  "csi_act ch n t =
     (if ch = CHR ''D'' then t\<lparr>column := column t - max 1 n\<rparr>
      else if ch = CHR ''C'' then t\<lparr>column := column t + max 1 n\<rparr>
      else if ch = CHR ''G'' then t\<lparr>column := max 1 n - 1\<rparr>
      else if ch = CHR ''K'' \<and> n = 0 then t\<lparr>cells := take (column t) (cells t)\<rparr>
      else t)"

definition term_char :: "char \<Rightarrow> terminal \<Rightarrow> terminal" where
  "term_char ch t =
     (case tmode t of
        Escape \<Rightarrow> t\<lparr>tmode := (if ch = CHR ''['' then Csi 0 else Ground)\<rparr>
      | Csi n \<Rightarrow>
          if is_digit ch then t\<lparr>tmode := Csi (n * 10 + (of_char ch - 48))\<rparr>
          else (csi_act ch n t)\<lparr>tmode := Ground\<rparr>
      | Ground \<Rightarrow>
          if ch = ESC then t\<lparr>tmode := Escape\<rparr>
          else if ch = CHR 0x08 then t\<lparr>column := column t - 1\<rparr>
          else if ch = CHR 0x0D then t\<lparr>column := 0\<rparr>
          else if ch = CHR 0x0A then t\<lparr>cells := []\<rparr>
          else if printable ch then t\<lparr>cells := put_cell (column t) ch (cells t), column := column t + 1\<rparr>
          else t)"

abbreviation term_chars :: "string \<Rightarrow> terminal \<Rightarrow> terminal" where
  "term_chars s t \<equiv> fold term_char s t"

text \<open>The row holds \<open>s\<close> and blanks behind it, and the cursor is at column \<open>k\<close>.\<close>

definition displays :: "terminal \<Rightarrow> string \<Rightarrow> nat \<Rightarrow> bool" where
  "displays t s k \<longleftrightarrow> tmode t = Ground \<and> column t = k \<and> (\<exists>n. cells t = s @ replicate n CHR '' '')"

lemma not_printable: "\<not> printable ESC" "\<not> printable (CHR 0x08)" "\<not> printable (CHR 0x0D)" "\<not> printable (CHR 0x0A)" "\<not> printable NUL"
  by (simp_all add: printable_def)

lemma term_printable:
  assumes "tmode t = Ground" "printable ch"
  shows "term_char ch t = t\<lparr>cells := put_cell (column t) ch (cells t), column := column t + 1\<rparr>"
  using assms not_printable by (auto simp: term_char_def)

lemma term_text:
  assumes "list_all printable s" "tmode t = Ground" "cells t = x @ y" "column t = length x"
  shows "term_chars s t = t\<lparr>cells := x @ s @ drop (length s) y, column := length x + length s\<rparr>"
  using assms
proof (induction s arbitrary: t x y)
  case (Cons ch s)
  have e: "term_char ch t = t\<lparr>cells := (x @ [ch]) @ drop 1 y, column := length (x @ [ch])\<rparr>"
    using Cons.prems by (simp add: term_printable put_cell_def)
  have "term_chars s (term_char ch t) = t\<lparr>cells := (x @ [ch]) @ s @ drop (length s) (drop 1 y), column := length (x @ [ch]) + length s\<rparr>"
    unfolding e by (subst Cons.IH [of _ "x @ [ch]" "drop 1 y"]) (use Cons.prems in auto)
  then show ?case by (simp add: drop_Suc)
qed simp

lemma digit_term:
  assumes "0 < d" "d \<le> (9 :: int)"
  shows "is_digit (char_of (48 + d mod 10))" "of_char (char_of (48 + d mod 10)) - 48 = nat d"
    "char_of (48 + d mod 10) \<noteq> CHR 0x0A"
proof -
  have "int (of_char (char_of (48 + d mod 10))) = of_char (char_of (48 + d mod 10))" by (rule of_nat_of_char)
  also have "\<dots> = 48 + d" using assms by (simp add: mod_pos_pos_trivial)
  finally have "int (of_char (char_of (48 + d mod 10))) = 48 + d" .
  then have n: "of_char (char_of (48 + d mod 10)) = nat (48 + d)" by (simp add: nat_eq_iff)
  then show "is_digit (char_of (48 + d mod 10))" "of_char (char_of (48 + d mod 10)) - 48 = nat d"
    using assms by (simp_all add: is_digit_def nat_le_iff le_nat_iff nat_add_distrib)
  from n show "char_of (48 + d mod 10) \<noteq> CHR 0x0A" using assms by auto
qed

lemma movement_step:
  assumes "tmode t = Ground" "0 < d" "d \<le> (9 :: int)" "\<not> is_digit code"
  shows "term_chars [ESC, CHR ''['', char_of (48 + d mod 10), code] t = (csi_act code (nat d) t)\<lparr>tmode := Ground\<rparr>"
  using assms digit_term [OF assms(2,3)] by (simp add: term_char_def csi_act_def)

lemma movement_back:
  "tmode t = Ground \<Longrightarrow> term_chars (concat (movement CHR ''D'' n)) t = t\<lparr>column := column t - nat n\<rparr>"
proof (induction "CHR ''D''" n arbitrary: t rule: movement.induct)
  case (1 n)
  define d where "d = (if n > 9 then 9 else n)"
  show ?case
  proof (cases "n > 0")
    case True
    then have d: "0 < d" "d \<le> 9" "d \<le> n" by (auto simp: d_def)
    have "term_chars (concat (movement CHR ''D'' n)) t =
        term_chars (concat (movement CHR ''D'' (n - d))) (term_chars [ESC, CHR ''['', char_of (48 + d mod 10), CHR ''D''] t)"
      using True by (subst movement.simps) (simp add: d_def Let_def)
    also have "term_chars [ESC, CHR ''['', char_of (48 + d mod 10), CHR ''D''] t = t\<lparr>column := column t - nat d\<rparr>"
      using d 1(2) by (subst movement_step) (auto simp: is_digit_def csi_act_def max_def)
    also have "term_chars (concat (movement CHR ''D'' (n - d))) (t\<lparr>column := column t - nat d\<rparr>) = t\<lparr>column := column t - nat d - nat (n - d)\<rparr>"
      using 1(1) [OF True d_def] 1(2) by simp
    finally show ?thesis using d by (simp add: nat_diff_distrib)
  next
    case False
    then show ?thesis by (subst movement.simps) simp
  qed
qed

lemma movement_fwd:
  "tmode t = Ground \<Longrightarrow> term_chars (concat (movement CHR ''C'' n)) t = t\<lparr>column := column t + nat n\<rparr>"
proof (induction "CHR ''C''" n arbitrary: t rule: movement.induct)
  case (1 n)
  define d where "d = (if n > 9 then 9 else n)"
  show ?case
  proof (cases "n > 0")
    case True
    then have d: "0 < d" "d \<le> 9" "d \<le> n" by (auto simp: d_def)
    have "term_chars (concat (movement CHR ''C'' n)) t =
        term_chars (concat (movement CHR ''C'' (n - d))) (term_chars [ESC, CHR ''['', char_of (48 + d mod 10), CHR ''C''] t)"
      using True by (subst movement.simps) (simp add: d_def Let_def)
    also have "term_chars [ESC, CHR ''['', char_of (48 + d mod 10), CHR ''C''] t = t\<lparr>column := column t + nat d\<rparr>"
      using d 1(2) by (subst movement_step) (auto simp: is_digit_def csi_act_def max_def)
    also have "term_chars (concat (movement CHR ''C'' (n - d))) (t\<lparr>column := column t + nat d\<rparr>) = t\<lparr>column := column t + nat d + nat (n - d)\<rparr>"
      using 1(1) [OF True d_def] 1(2) by simp
    finally show ?thesis using d by (simp add: nat_diff_distrib)
  next
    case False
    then show ?thesis by (subst movement.simps) simp
  qed
qed

text \<open>The characters of the output.\<close>

definition chars :: "(char \<times> bool) list \<Rightarrow> string" where "chars es = map fst es"

lemma chars_simps [simp]: "chars [] = []" "chars (xs @ ys) = chars xs @ chars ys"
  by (simp_all add: chars_def)

lemma chars_sent: "CHR 0x0A \<notin> set s \<Longrightarrow> chars (sent s) = s"
  by (induction s) (auto simp: chars_def)

lemma chars_printable: "list_all printable s \<Longrightarrow> chars (sent s) = s"
  using not_printable by (intro chars_sent) (auto simp: list_all_iff)

lemma movement_no_LF: "code \<noteq> CHR 0x0A \<Longrightarrow> m \<in> set (movement code n) \<Longrightarrow> CHR 0x0A \<notin> set m"
proof (induction code n rule: movement.induct)
  case (1 code n)
  show ?case
  proof (cases "n > 0")
    case True
    define d where "d = (if n > 9 then 9 else n)"
    have d: "0 < d" "d \<le> 9" using True by (auto simp: d_def)
    have "m \<in> set ([ESC, CHR ''['', char_of (48 + d mod 10), code] # movement code (n - d))"
      using 1(3) True by (subst (asm) movement.simps) (simp add: d_def Let_def)
    then show ?thesis using 1(1) [OF True d_def 1(2)] 1(2) digit_term(3) [OF d] by auto
  next
    case False
    with 1(3) show ?thesis by (subst (asm) movement.simps) simp
  qed
qed

lemma chars_moves: "code \<noteq> CHR 0x0A \<Longrightarrow> chars (moves code n) = concat (movement code (int n))"
proof -
  have "(\<forall>m \<in> set ms. CHR 0x0A \<notin> set m) \<Longrightarrow> chars (concat (map sent ms)) = concat ms" for ms
    by (induction ms) (auto simp: chars_sent)
  then show "code \<noteq> CHR 0x0A \<Longrightarrow> ?thesis" using movement_no_LF by blast
qed

section \<open>What the history holds\<close>

definition packed :: "string list \<Rightarrow> string" where "packed ls = concat (map (\<lambda>s. s @ [NUL]) ls)"

lemma packed_simps [simp]: "packed [] = []" "packed (s # ls) = s @ NUL # packed ls"
  by (simp_all add: packed_def)

text \<open>The array holds the lines \<open>ls\<close>, newest first.\<close>

definition stores :: "string \<Rightarrow> string list \<Rightarrow> bool" where
  "stores h ls \<longleftrightarrow> length h = 512 \<and> (\<exists>junk. h = packed ls @ NUL # junk) \<and> list_all (\<lambda>s. s \<noteq> [] \<and> NUL \<notin> set s) ls"

text \<open>The entry \<open>k\<close>: one more than there are lines is an empty one.\<close>

definition entry :: "string list \<Rightarrow> int \<Rightarrow> string option" where
  "entry ls k =
     (if k < 0 then None else if k < int (length ls) then Some (ls ! nat k)
      else if k = int (length ls) then Some [] else None)"

lemma seek_packed:
  assumes "length (pre @ packed ls @ NUL # junk) = 512" "list_all (\<lambda>s. s \<noteq> [] \<and> NUL \<notin> set s) ls"
  shows "history_seek k (int (length pre)) (pre @ packed ls @ NUL # junk) =
    Some (if k \<le> length ls then Some (int (length (pre @ packed (take k ls)))) else None)"
  using assms
proof (induction k arbitrary: pre ls)
  case (Suc k)
  show ?case
  proof (cases ls)
    case Nil
    then show ?thesis using str_at_text [of "[]" pre junk] by simp
  next
    case (Cons s ss)
    then have s: "s \<noteq> []" "NUL \<notin> set s" "list_all (\<lambda>s. s \<noteq> [] \<and> NUL \<notin> set s) ss" using Suc.prems by simp_all
    have l: "length ((pre @ s @ [NUL]) @ packed ss @ NUL # junk) = 512" using Suc.prems(1) Cons by simp
    have "str_at (int (length pre)) (pre @ packed ls @ NUL # junk) = Some s"
      using str_at_text [OF s(2), of pre "packed ss @ NUL # junk"] Cons by simp
    moreover have "int (length pre) + int (length s) + 1 \<noteq> int EMBEDDED_CLI_HISTORY_LEN"
      using l by (simp add: EMBEDDED_CLI_HISTORY_LEN_def)
    moreover have "int (length pre) + int (length s) + 1 = int (length (pre @ s @ [NUL]))"
      "pre @ packed ls @ NUL # junk = (pre @ s @ [NUL]) @ packed ss @ NUL # junk"
      using Cons by simp_all
    ultimately have "history_seek (Suc k) (int (length pre)) (pre @ packed ls @ NUL # junk) =
        history_seek k (int (length (pre @ s @ [NUL]))) ((pre @ s @ [NUL]) @ packed ss @ NUL # junk)"
      using s(1) by (simp add: Let_def ac_simps)
    also have "\<dots> = Some (if k \<le> length ss then Some (int (length ((pre @ s @ [NUL]) @ packed (take k ss)))) else None)"
      by (rule Suc.IH [OF l s(3)])
    finally show ?thesis using Cons by simp
  qed
qed simp

lemma packed_append: "packed (xs @ ys) = packed xs @ packed ys"
  by (simp add: packed_def)

lemma get_history_stores:
  assumes "stores (cli_history c) ls"
  shows "embedded_cli_get_history k c = Some (entry ls k)"
proof (cases "k < 0")
  case True
  then show ?thesis by (simp add: embedded_cli_get_history_def entry_def)
next
  case False
  obtain junk where h: "cli_history c = packed ls @ NUL # junk" "length (packed ls @ NUL # junk) = 512"
    "list_all (\<lambda>s. s \<noteq> [] \<and> NUL \<notin> set s) ls"
    using assms by (auto simp: stores_def)
  have seek: "history_seek (nat k) 0 (cli_history c) =
      Some (if nat k \<le> length ls then Some (int (length (packed (take (nat k) ls)))) else None)"
    using seek_packed [of "[]" ls junk "nat k"] h by simp
  consider "nat k < length ls" | "nat k = length ls" | "nat k > length ls" by linarith
  then show ?thesis
  proof cases
    case 1
    have "ls = take (nat k) ls @ ls ! nat k # drop (Suc (nat k)) ls" using 1 by (rule id_take_nth_drop)
    then have "packed ls = packed (take (nat k) ls) @ ls ! nat k @ NUL # packed (drop (Suc (nat k)) ls)"
      by (metis packed_append packed_simps(2))
    moreover have "NUL \<notin> set (ls ! nat k)" using h(3) 1 by (auto simp: list_all_length)
    ultimately have "str_at (int (length (packed (take (nat k) ls)))) (cli_history c) = Some (ls ! nat k)"
      unfolding h(1) by (simp add: str_at_text)
    then show ?thesis using seek 1 False by (simp add: embedded_cli_get_history_def entry_def nat_less_iff)
  next
    case 2
    then have "str_at (int (length (packed (take (nat k) ls)))) (cli_history c) = Some []"
      unfolding h(1) using str_at_text [of "[]" "packed ls" junk] by simp
    then show ?thesis using seek 2 False by (auto simp: embedded_cli_get_history_def entry_def)
  next
    case 3
    then show ?thesis using seek False by (auto simp: embedded_cli_get_history_def entry_def)
  qed
qed

lemma cstr_stores: "stores h ls \<Longrightarrow> cstr h = (case ls of [] \<Rightarrow> [] | s # _ \<Rightarrow> s)"
  by (auto simp: stores_def cstr_no_NUL split: list.split) (simp add: cstr_def)

lemma stores_extended:
  assumes "stores h ls" "s \<noteq> []" "NUL \<notin> set s" "length (packed (s # ls)) \<le> 511"
  shows "stores (extended s h) (s # ls)"
proof -
  obtain junk where h: "h = packed ls @ NUL # junk" "length h = 512" using assms(1) by (auto simp: stores_def)
  define k where "k = 510 - length s - length (packed ls)"
  have n: "511 - length s = length (packed ls) + Suc k" "510 - length s = length (packed ls) + k" "length s < 511"
    using assms(4) by (simp_all add: k_def)
  have "extended s h = s @ NUL # (take (511 - length s) h)[510 - length s := NUL]" by (rule extended_alt [OF n(3)])
  also have "(take (511 - length s) h)[510 - length s := NUL] = packed ls @ (NUL # take k junk)[k := NUL]"
    unfolding n(1,2) h(1) by (simp add: list_update_append)
  also have "\<exists>j. (NUL # take k junk)[k := NUL] = NUL # j" by (cases k) simp_all
  ultimately have "\<exists>j. extended s h = packed (s # ls) @ NUL # j" by auto
  moreover have "length (extended s h) = 512" using h(2) n(3) by (simp add: extended_def)
  ultimately show ?thesis using assms(1-3) by (simp add: stores_def)
qed

lemma stores_empty: "stores (replicate 512 NUL) []"
  by (simp add: stores_def numeral_eq_Suc)

text \<open>The search finds the newest line that contains the text.\<close>

lemma history_search_stores:
  assumes "stores (cli_history c) ls" "str_at 0 (cli_buffer c) = Some t" "k \<le> Suc (length ls)"
  shows "history_search_from (int k) c = Some (find (\<lambda>s. strstr s t) (drop k (ls @ [[]])))"
  using assms(3)
proof (induction k rule: inc_induct)
  case base
  have "entry ls (int (Suc (length ls))) = None" by (simp add: entry_def)
  then show ?case using get_history_stores [OF assms(1)] by (subst history_search_from.simps) simp
next
  case (step k)
  then have d: "drop k (ls @ [[]]) = (ls @ [[]]) ! k # drop (Suc k) (ls @ [[]])"
    by (intro Cons_nth_drop_Suc [symmetric]) simp
  have "entry ls (int k) = Some ((ls @ [[]]) ! k)" using step(2) by (auto simp: entry_def nth_append)
  then show ?case
    using get_history_stores [OF assms(1)] assms(2) step(3) d
    by (subst history_search_from.simps) (simp add: add.commute)
qed

section \<open>An abstract line editor\<close>

text \<open>
  The editor as its user sees it: the text before and after the cursor, the lines entered so
  far, newest first, and how far back the line shown has been recalled from.
\<close>

datatype edit = Typed char | Go_left | Go_right | Go_home | Go_end | Rub_out | Del | Kill | Redraw | Older | Newer | Enter

record editor =
  before :: string
  after :: string
  past :: "string list"
  recalled :: int

fun edit_keys :: "edit \<Rightarrow> string" where
  "edit_keys (Typed ch) = [ch]"
| "edit_keys Go_left = [ESC, CHR ''['', CHR ''D'']"
| "edit_keys Go_right = [ESC, CHR ''['', CHR ''C'']"
| "edit_keys Go_home = [CHR 0x01]"
| "edit_keys Go_end = [CHR 0x05]"
| "edit_keys Rub_out = [CHR 0x7F]"
| "edit_keys Del = [ESC, CHR ''['', CHR ''3'', CHR ''~'']"
| "edit_keys Kill = [CHR 0x0B]"
| "edit_keys Redraw = [CHR 0x0C]"
| "edit_keys Older = [ESC, CHR ''['', CHR ''A'']"
| "edit_keys Newer = [ESC, CHR ''['', CHR ''B'']"
| "edit_keys Enter = [CHR 0x0D]"

definition line_of :: "editor \<Rightarrow> string" where "line_of e = before e @ after e"

definition with_line :: "string \<Rightarrow> string \<Rightarrow> editor \<Rightarrow> editor" where
  "with_line l r e = e\<lparr>before := l, after := r\<rparr>"

fun edit_step :: "edit \<Rightarrow> editor \<Rightarrow> editor" where
  "edit_step (Typed ch) e =
     (if length (line_of e) \<ge> 119 then e else with_line (before e @ [ch]) (after e) e)"
| "edit_step Go_left e =
     (if before e = [] then e else with_line (butlast (before e)) (last (before e) # after e) e)"
| "edit_step Go_right e =
     (case after e of [] \<Rightarrow> e | ch # r \<Rightarrow> with_line (before e @ [ch]) r e)"
| "edit_step Go_home e = with_line [] (line_of e) e"
| "edit_step Go_end e = with_line (line_of e) [] e"
| "edit_step Rub_out e = (if before e = [] then e else with_line (butlast (before e)) (after e) e)"
| "edit_step Del e = (case after e of [] \<Rightarrow> e | ch # r \<Rightarrow> with_line (before e) r e)"
| "edit_step Kill e = with_line (before e) [] e"
| "edit_step Redraw e = e"
| "edit_step Older e =
     (case entry (past e) (recalled e + 1) of
        Some s \<Rightarrow> with_line s [] (e\<lparr>recalled := recalled e + 1\<rparr>) | None \<Rightarrow> with_line [] [] e)"
| "edit_step Newer e =
     (case entry (past e) (recalled e - 1) of
        Some s \<Rightarrow> with_line s [] (e\<lparr>recalled := recalled e - 1\<rparr>) | None \<Rightarrow> with_line [] [] (e\<lparr>recalled := -1\<rparr>))"
| "edit_step Enter e =
     \<lparr>before = [], after = [],
      past = (if line_of e = [] \<or> past e \<noteq> [] \<and> hd (past e) = line_of e then past e else line_of e # past e),
      recalled = -1\<rparr>"

definition new_editor :: editor where
  "new_editor = \<lparr>before = [], after = [], past = [], recalled = -1\<rparr>"

text \<open>Keys that type no other characters than \<open>Q\<close>.\<close>

fun typable :: "(char \<Rightarrow> bool) \<Rightarrow> edit \<Rightarrow> bool" where
  "typable Q (Typed ch) = Q ch"
| "typable Q _ = True"

section \<open>One editing key\<close>

text \<open>The editor in the middle of a line, between keys.\<close>

definition between_keys :: "cli \<Rightarrow> editor \<Rightarrow> bool" where
  "between_keys c e \<longleftrightarrow> zipped (before e) (after e) c \<and> stores (cli_history c) (past e) \<and> cli_history_pos c = recalled e \<and>
     \<not> cli_have_csi c \<and> \<not> cli_have_escape c \<and> \<not> cli_searching c \<and> \<not> cli_done c \<and> cli_put_char c \<and> NUL \<in> set (cli_prompt c)"

text \<open>The keys \<open>ks\<close> take the editor from \<open>e\<close> to \<open>e'\<close> and output \<open>es\<close>, finishing no line.\<close>

fun type_chars :: "string \<Rightarrow> cli \<Rightarrow> cli option" where
  "type_chars [] c = Some c"
| "type_chars (ch # s) c =
     do { (d, c) \<leftarrow> embedded_cli_insert_char ch c; if d \<or> ch = NUL then None else type_chars s c }"

definition key_does :: "string \<Rightarrow> cli \<Rightarrow> editor \<Rightarrow> (char \<times> bool) list \<Rightarrow> bool" where
  "key_does ks c e' es \<longleftrightarrow>
     (\<exists>c'. type_chars ks c = Some c' \<and> between_keys c' e' \<and> cli_out c' = cli_out c @ es \<and> cli_prompt c' = cli_prompt c)"

lemma insert_plain:
  assumes "\<not> cli_done c" "\<not> cli_have_csi c" "ch \<noteq> CHR 0x0A" "ch \<noteq> CHR 0x0D"
  shows "embedded_cli_insert_char ch c =
    plain_char ch (if ch \<noteq> CHR 0x09 then c\<lparr>cli_dup_comp := False\<rparr> else c) \<bind> (\<lambda>c'. Some (False, c'\<lparr>cli_done := False\<rparr>))"
  using assms by (simp add: embedded_cli_insert_char_def start_line_def Let_def)

lemma insert_csi:
  assumes "\<not> cli_done c" "cli_have_csi c" "ch \<noteq> CHR 0x0A" "ch \<noteq> CHR 0x09"
  shows "embedded_cli_insert_char ch c =
    csi_char ch (c\<lparr>cli_dup_comp := False\<rparr>) \<bind> (\<lambda>c'. Some (False, c'\<lparr>cli_done := False\<rparr>))"
  using assms by (simp add: embedded_cli_insert_char_def start_line_def Let_def)

text \<open>The state in which the last byte of a control sequence arrives.\<close>

definition in_csi :: "int \<Rightarrow> cli \<Rightarrow> cli" where
  "in_csi n c = c\<lparr>cli_have_escape := True, cli_counter := n, cli_dup_comp := False, cli_have_csi := True, cli_done := False\<rparr>"

lemma in_csi_again:
  "\<not> cli_done (in_csi n c)" "cli_have_csi (in_csi n c)" "cli_counter (in_csi n c) = n"
  "(in_csi n c)\<lparr>cli_dup_comp := False\<rparr> = in_csi n c" "(in_csi n c)\<lparr>cli_counter := k\<rparr> = in_csi k c"
  "(in_csi n c)\<lparr>cli_done := False\<rparr> = in_csi n c"
  by (simp_all add: in_csi_def)

definition after_csi :: "cli \<Rightarrow> cli" where
  "after_csi c = c\<lparr>cli_have_csi := False, cli_have_escape := False, cli_counter := 0, cli_done := False\<rparr>"

lemma type_escape:
  assumes "between_keys c e" "ch \<noteq> NUL" "ch \<noteq> CHR 0x0A" "ch \<noteq> CHR 0x09" "\<not> is_digit ch"
  shows "type_chars [ESC, CHR ''['', ch] c = csi_final ch (in_csi 1 c) \<bind> (\<lambda>c. Some (after_csi c))"
    "type_chars [ESC, CHR ''['', CHR ''3'', ch] c = csi_final ch (in_csi 3 c) \<bind> (\<lambda>c. Some (after_csi c))"
proof -
  have c: "\<not> cli_done c" "\<not> cli_have_csi c" "\<not> cli_searching c" using assms(1) by (simp_all add: between_keys_def)
  let ?c = "in_csi 0 c"
  have a: "type_chars (ESC # CHR ''['' # s) c = type_chars s ?c" for s
    using c by (simp add: insert_plain plain_char_def in_csi_def)
  have b: "type_chars (CHR ''3'' # s) ?c = type_chars s (in_csi 3 c)" for s
    by (simp add: in_csi_again insert_csi csi_char_def is_digit_def)
  have "type_chars [ch] ?c = csi_final ch (in_csi 1 c) \<bind> (\<lambda>c. Some (after_csi c))"
    using assms(2-5) by (simp add: in_csi_again insert_csi csi_char_def after_csi_def Option.bind_assoc)
  then show "type_chars [ESC, CHR ''['', ch] c = csi_final ch (in_csi 1 c) \<bind> (\<lambda>c. Some (after_csi c))" unfolding a .
  have "type_chars [ch] (in_csi 3 c) = csi_final ch (in_csi 3 c) \<bind> (\<lambda>c. Some (after_csi c))"
    using assms(2-5) by (simp add: in_csi_again insert_csi csi_char_def after_csi_def Option.bind_assoc)
  then show "type_chars [ESC, CHR ''['', CHR ''3'', ch] c = csi_final ch (in_csi 3 c) \<bind> (\<lambda>c. Some (after_csi c))"
    unfolding a b .
qed

lemma plain_key_does:
  assumes "between_keys c e" "ch \<noteq> CHR 0x0A" "ch \<noteq> CHR 0x0D" "ch \<noteq> NUL"
    "edits_to (plain_char ch (if ch \<noteq> CHR 0x09 then c\<lparr>cli_dup_comp := False\<rparr> else c))
      (if ch \<noteq> CHR 0x09 then c\<lparr>cli_dup_comp := False\<rparr> else c) S l r es"
  shows "key_does [ch] c (with_line l r e) es"
proof -
  let ?c = "if ch \<noteq> CHR 0x09 then c\<lparr>cli_dup_comp := False\<rparr> else c"
  obtain c' where c': "plain_char ch ?c = Some c'" "zipped l r c'" "edited ?c es c'"
    using assms(5) by (auto simp: edits_to_def)
  have "type_chars [ch] c = Some (c'\<lparr>cli_done := False\<rparr>)"
    using assms(1-4) c'(1) by (simp add: insert_plain between_keys_def)
  moreover have "between_keys (c'\<lparr>cli_done := False\<rparr>) (with_line l r e)"
    using c'(2) edited_sel [OF c'(3)] assms(1) by (simp add: between_keys_def with_line_def zipped_def)
  ultimately show ?thesis
    using edited_sel [OF c'(3)] assms(1) by (auto simp: key_does_def between_keys_def)
qed

lemma csi_key_does:
  assumes "between_keys c e" "edits_to (csi_final ch (in_csi n c)) (in_csi n c) S l r es"
    "type_chars ks c = csi_final ch (in_csi n c) \<bind> (\<lambda>c. Some (after_csi c))"
  shows "key_does ks c (with_line l r e) es"
proof -
  obtain c' where c': "csi_final ch (in_csi n c) = Some c'" "zipped l r c'" "edited (in_csi n c) es c'"
    using assms(2) by (auto simp: edits_to_def)
  have "between_keys (after_csi c') (with_line l r e)"
    using c'(2) edited_sel [OF c'(3)] assms(1) by (simp add: between_keys_def with_line_def zipped_def after_csi_def in_csi_def)
  then show ?thesis
    using edited_sel [OF c'(3)] assms(1,3) c'(1) by (auto simp: key_does_def between_keys_def after_csi_def in_csi_def)
qed

section \<open>What the terminal shows\<close>

text \<open>The row shows the prompt and the line, with the cursor between \<open>l\<close> and \<open>r\<close>.\<close>

definition shows_line :: "string \<Rightarrow> string \<Rightarrow> string \<Rightarrow> terminal \<Rightarrow> bool" where
  "shows_line P l r t \<longleftrightarrow> displays t (P @ l @ r) (length P + length l)"

lemma shows_lineE:
  assumes "shows_line P l r t"
  obtains n where "t = \<lparr>cells = P @ l @ r @ replicate n CHR '' '', column = length P + length l, tmode = Ground\<rparr>"
  using assms by (cases t) (auto simp: shows_line_def displays_def)

lemma shows_lineI:
  "tmode t = Ground \<Longrightarrow> cells t = P @ l @ r @ replicate n CHR '' '' \<Longrightarrow> column t = length P + length l \<Longrightarrow> shows_line P l r t"
  by (auto simp: shows_line_def displays_def)

lemma shows_back:
  assumes "shows_line P (l @ m) r t"
  shows "shows_line P l (m @ r) (term_chars (chars (moves (CHR ''D'') (length m))) t)"
  using assms by (elim shows_lineE) (auto simp: chars_moves movement_back intro!: shows_lineI)

lemma shows_fwd:
  assumes "shows_line P l (m @ r) t"
  shows "shows_line P (l @ m) r (term_chars (chars (moves (CHR ''C'') (length m))) t)"
  using assms by (elim shows_lineE) (auto simp: chars_moves movement_fwd intro!: shows_lineI)

lemma shows_text:
  assumes "shows_line P l r t" "list_all printable s"
  shows "term_chars (chars (sent s)) t =
    t\<lparr>cells := P @ l @ s @ drop (length s) (r @ drop (length (P @ l @ r)) (cells t)), column := length P + length l + length s\<rparr>"
  using assms(1) by (elim shows_lineE) (simp add: chars_printable [OF assms(2)] term_text [OF assms(2), of _ "P @ l"])

lemma shows_overwrite:
  assumes "shows_line P l r t" "list_all printable s" "length r \<le> length s"
  shows "shows_line P (l @ s) [] (term_chars (chars (sent s)) t)"
  using assms(1) unfolding shows_text [OF assms(1,2)]
  by (elim shows_lineE) (use assms(3) in \<open>auto simp: drop_replicate intro!: shows_lineI\<close>)

lemma shows_insert:
  assumes "shows_line P l r t" "printable ch" "list_all printable r"
  shows "shows_line P (l @ [ch]) r (term_chars (chars (sent (ch # r) @ moves (CHR ''D'') (length r))) t)"
proof -
  have "shows_line P (l @ ch # r) [] (term_chars (chars (sent (ch # r))) t)"
    by (rule shows_overwrite [OF assms(1)]) (use assms(2,3) in auto)
  then show ?thesis using shows_back [of P "l @ [ch]" r "[]"] by (simp del: sent.simps)
qed

lemma printable_blank: "printable (CHR '' '')"
  by (simp add: printable_def)

lemma shows_delete:
  assumes "shows_line P l (x # r) t" "list_all printable r"
  shows "shows_line P l r (term_chars (chars (sent r @ sent '' '' @ moves (CHR ''D'') (Suc (length r)))) t)"
proof -
  have s: "list_all printable (r @ '' '')" using assms(2) printable_blank by simp
  have c: "chars (sent r @ sent '' '') = chars (sent (r @ '' ''))"
    using chars_printable [OF assms(2)] chars_printable [OF s] by (simp add: chars_def)
  then have c': "term_chars (chars (sent '' '')) (term_chars (chars (sent r)) t) = term_chars (chars (sent (r @ '' ''))) t"
    by (metis chars_simps(2) fold_append comp_apply)
  have "shows_line P (l @ r @ '' '') [] (term_chars (chars (sent (r @ '' ''))) t)"
    by (rule shows_overwrite [OF assms(1) s]) simp
  then have "shows_line P l (r @ '' '') (term_chars (chars (moves (CHR ''D'') (length (r @ '' '')))) (term_chars (chars (sent (r @ '' ''))) t))"
    using shows_back [of P l "r @ '' ''" "[]"] by simp
  then have "shows_line P l (r @ '' '') (term_chars (chars (sent r @ sent '' '' @ moves (CHR ''D'') (Suc (length r)))) t)"
    using c' by (simp del: sent.simps)
  then show ?thesis
    by (elim shows_lineE) (auto simp: replicate_append_same [symmetric] intro!: shows_lineI [of _ _ _ _ "Suc n" for n])
qed

lemma term_CLEAR_EOL: "tmode t = Ground \<Longrightarrow> term_chars (chars (sent CLEAR_EOL)) t = t\<lparr>cells := take (column t) (cells t)\<rparr>"
  by (simp add: CLEAR_EOL_def chars_def term_char_def is_digit_def csi_act_def)

lemma term_MOVE_BOL: "tmode t = Ground \<Longrightarrow> term_chars (chars (sent MOVE_BOL)) t = t\<lparr>column := 0\<rparr>"
  by (simp add: MOVE_BOL_def chars_def term_char_def is_digit_def csi_act_def)

lemma shows_clear: "shows_line P l r t \<Longrightarrow> shows_line P l [] (term_chars (chars (sent CLEAR_EOL)) t)"
  by (elim shows_lineE) (auto simp: term_CLEAR_EOL intro!: shows_lineI [of _ _ _ _ 0])

lemma chars_backspaces: "chars (map (\<lambda>i. (CHR 0x08, i = 0)) xs) = replicate (length xs) (CHR 0x08)"
  by (induction xs) (simp_all add: chars_def)

lemma term_backspaces: "tmode t = Ground \<Longrightarrow> term_chars (replicate n (CHR 0x08)) t = t\<lparr>column := column t - n\<rparr>"
  by (induction n arbitrary: t) (simp_all add: term_char_def)

lemma shows_backspaces:
  assumes "shows_line P l r t"
  shows "shows_line P [] (l @ r) (term_chars (chars (map (\<lambda>i. (CHR 0x08, i = 0)) (rev [0..<length l]))) t)"
  using assms by (elim shows_lineE) (auto simp: chars_backspaces term_backspaces simp del: fold_replicate intro!: shows_lineI)

lemma shows_recall:
  assumes "shows_line P [] r t" "list_all printable s"
  shows "shows_line P s [] (term_chars (chars (sent s @ sent CLEAR_EOL)) t)"
proof (cases "length r \<le> length s")
  case True
  then show ?thesis using shows_clear [OF shows_overwrite [OF assms]] by simp
next
  case False
  obtain n where t: "t = \<lparr>cells = P @ r @ replicate n CHR '' '', column = length P, tmode = Ground\<rparr>"
    using assms(1) by (auto elim: shows_lineE)
  show ?thesis using shows_text [OF assms] t by (auto simp: term_CLEAR_EOL intro!: shows_lineI [of _ _ _ _ 0])
qed

lemma shows_prompt:
  assumes "tmode t = Ground" "column t = 0" "list_all printable P" "list_all printable s"
  shows "shows_line P s [] (term_chars (chars (sent CLEAR_EOL @ sent P @ sent s)) t)"
  using assms
  by (simp add: term_CLEAR_EOL chars_printable term_text [of P _ "[]" "[]"] term_text [of s _ P "[]"] shows_lineI [of _ _ _ _ 0])

lemma shows_redraw:
  assumes "shows_line P l r t" "list_all printable P" "list_all printable (l @ r)"
  shows "shows_line P l r (term_chars (chars (sent (MOVE_BOL @ CLEAR_EOL) @ sent P @ sent (l @ r) @ moves (CHR ''D'') (length r))) t)"
proof -
  have g: "tmode t = Ground" using assms(1) by (auto elim: shows_lineE)
  have c: "chars (sent (MOVE_BOL @ CLEAR_EOL)) = chars (sent MOVE_BOL) @ chars (sent CLEAR_EOL)"
    by (simp add: MOVE_BOL_def CLEAR_EOL_def chars_def)
  have "shows_line P (l @ r) [] (term_chars (chars (sent CLEAR_EOL @ sent P @ sent (l @ r))) (t\<lparr>column := 0\<rparr>))"
    by (rule shows_prompt) (use g assms in simp_all)
  then show ?thesis using shows_back [of P l r "[]"] g c by (simp add: term_MOVE_BOL)
qed

section \<open>Every editing key follows the abstract editor\<close>

text \<open>The line and the lines entered are no longer than the buffer allows and consist of characters \<open>Q\<close>.\<close>

definition editor_ok :: "(char \<Rightarrow> bool) \<Rightarrow> editor \<Rightarrow> bool" where
  "editor_ok Q e \<longleftrightarrow> list_all Q (line_of e) \<and> list_all (\<lambda>s. list_all Q s \<and> length s \<le> 119) (past e)"

abbreviation shown :: "string \<Rightarrow> editor \<Rightarrow> terminal \<Rightarrow> bool" where
  "shown P e t \<equiv> shows_line P (before e) (after e) t"

definition key_follows :: "string \<Rightarrow> cli \<Rightarrow> editor \<Rightarrow> editor \<Rightarrow> bool" where
  "key_follows ks c e e' \<longleftrightarrow>
     (\<exists>es. key_does ks c e' es \<and> (\<forall>t. shown (prompt_text c) e t \<longrightarrow> shown (prompt_text c) e' (term_chars (chars es) t)))"

lemma entry_cases:
  assumes "entry ls k = Some s"
  shows "s = [] \<or> s \<in> set ls" "0 \<le> k"
  using assms by (auto simp: entry_def split: if_splits)

lemma editor_ok_step:
  assumes "editor_ok Q e" "typable Q k" "length (line_of e) \<le> 119"
  shows "editor_ok Q (edit_step k e)"
proof (cases k)
  case Older
  with assms show ?thesis
    by (auto simp: editor_ok_def line_of_def with_line_def list_all_iff split: option.split dest!: entry_cases(1))
next
  case Newer
  with assms show ?thesis
    by (auto simp: editor_ok_def line_of_def with_line_def list_all_iff split: option.split dest!: entry_cases(1))
qed (use assms in \<open>auto simp: editor_ok_def line_of_def with_line_def list_all_iff split: list.split dest: in_set_butlastD\<close>)

lemma with_line_same [simp]: "with_line (before e) (after e) e = e"
  by (simp add: with_line_def)

lemma with_line_sel [simp]:
  "before (with_line l r e) = l" "after (with_line l r e) = r" "past (with_line l r e) = past e"
  "recalled (with_line l r e) = recalled e"
  by (simp_all add: with_line_def)

lemma zipped_flags [simp]:
  "zipped l r (c\<lparr>cli_dup_comp := u\<rparr>) = zipped l r c" "zipped l r (in_csi n c) = zipped l r c"
  by (simp_all add: zipped_def in_csi_def)

lemma in_csi_sel [simp]: "cli_counter (in_csi n c) = n" "cli_searching (in_csi n c) = cli_searching c"
  by (simp_all add: in_csi_def)

text \<open>A plain key and a control sequence, given what they do to the line and to the row.\<close>

lemma plain_follows:
  assumes "between_keys c e" "ch \<noteq> CHR 0x0A" "ch \<noteq> CHR 0x0D" "ch \<noteq> NUL"
    "\<And>c. zipped (before e) (after e) c \<Longrightarrow> \<not> cli_searching c \<Longrightarrow> \<not> cli_have_escape c \<Longrightarrow> NUL \<in> set (cli_prompt c) \<Longrightarrow>
      edits_to (plain_char ch c) c S l r (es (prompt_text c))"
    "\<And>t. shows_line (prompt_text c) (before e) (after e) t \<Longrightarrow> shows_line (prompt_text c) l r (term_chars (chars (es (prompt_text c))) t)"
  shows "key_follows [ch] c e (with_line l r e)"
proof -
  let ?c = "if ch \<noteq> CHR 0x09 then c\<lparr>cli_dup_comp := False\<rparr> else c"
  have p: "prompt_text ?c = prompt_text c" by (simp add: prompt_text_def)
  have "edits_to (plain_char ch ?c) ?c S l r (es (prompt_text ?c))"
    by (rule assms(5)) (use assms(1) in \<open>auto simp: between_keys_def\<close>)
  then have "key_does [ch] c (with_line l r e) (es (prompt_text c))"
    unfolding p by (rule plain_key_does [OF assms(1-4)])
  with assms(6) show ?thesis unfolding key_follows_def with_line_sel by blast
qed

lemma csi_follows:
  assumes "between_keys c e" "edits_to (csi_final ch (in_csi n c)) (in_csi n c) S l r es"
    "ch \<noteq> NUL" "ch \<noteq> CHR 0x0A" "ch \<noteq> CHR 0x09" "\<not> is_digit ch"
    "ks = (if n = 3 then [ESC, CHR ''['', CHR ''3'', ch] else [ESC, CHR ''['', ch])" "n = 1 \<or> n = 3"
    "\<And>t. shows_line (prompt_text c) (before e) (after e) t \<Longrightarrow> shows_line (prompt_text c) l r (term_chars (chars es) t)"
  shows "key_follows ks c e (with_line l r e)"
proof -
  have "type_chars ks c = csi_final ch (in_csi n c) \<bind> (\<lambda>c. Some (after_csi c))"
    using type_escape [OF assms(1,3-6)] assms(7,8) by auto
  then have "key_does ks c (with_line l r e) es" by (rule csi_key_does [OF assms(1,2)])
  with assms(9) show ?thesis unfolding key_follows_def with_line_sel by blast
qed

lemma Typed_follows:
  assumes "between_keys c e" "editor_ok printable e" "printable ch"
  shows "key_follows [ch] c e (edit_step (Typed ch) e)"
proof -
  have ch: "ch \<noteq> NUL" "ch \<noteq> CHR 0x0A" "ch \<noteq> CHR 0x0D" and a: "list_all printable (after e)"
    using assms(2,3) not_printable by (auto simp: editor_ok_def line_of_def)
  have i: "plain_char ch c = embedded_cli_insert_default_char ch c" if "\<not> cli_have_escape c" for c
  proof -
    have "ch \<notin> {CHR 0x01, CHR 0x03, CHR 0x05, CHR 0x0B, CHR 0x0C, CHR 0x08, CHR 0x7F, CHR 0x12, ESC}"
      using assms(3) by (auto simp: printable_def)
    with that ch show ?thesis by (auto simp: plain_char_def)
  qed
  have fits: "length (line_of e) \<le> 119" using assms(1) zipped_fits by (auto simp: between_keys_def line_of_def)
  show ?thesis
  proof (cases "length (line_of e) = 119")
    case True
    have "key_follows [ch] c e (with_line (before e) (after e) e)"
      by (rule plain_follows [OF assms(1) ch(2,3,1), of "{}" _ _ "\<lambda>_. []"])
        (use True i insert_stays in \<open>auto simp: line_of_def\<close>)
    with True show ?thesis by simp
  next
    case False
    with fits have l: "length (before e) + length (after e) < 119" by (simp add: line_of_def)
    have "key_follows [ch] c e (with_line (before e @ [ch]) (after e) e)"
      by (rule plain_follows [OF assms(1) ch(2,3,1), of "{ch}" _ _ "\<lambda>_. sent (ch # after e) @ moves (CHR ''D'') (length (after e))"])
        (use l i insert_edits ch shows_insert assms(3) a in \<open>simp_all del: sent.simps\<close>)
    with l show ?thesis by (simp add: line_of_def)
  qed
qed

lemma Go_left_follows:
  assumes "between_keys c e"
  shows "key_follows (edit_keys Go_left) c e (edit_step Go_left e)"
proof -
  have z: "zipped (before e) (after e) (in_csi 1 c)" using assms by (simp add: between_keys_def)
  show ?thesis
  proof (cases "before e" rule: rev_cases)
    case Nil
    have "edits_to (Some (key_left (in_csi 1 c))) (in_csi 1 c) {} (before e) (after e) []"
      by (rule left_stays [OF z]) (simp add: Nil)
    then have "key_follows (edit_keys Go_left) c e (with_line (before e) (after e) e)"
      by (intro csi_follows [OF assms, of "CHR ''D''" 1 "{}" _ _ "[]"]) (simp_all add: csi_final_def is_digit_def)
    then show ?thesis unfolding with_line_same using Nil by simp
  next
    case (snoc l x)
    have "edits_to (Some (key_left (in_csi 1 c))) (in_csi 1 c) {} l ([x] @ after e) (moves (CHR ''D'') (length [x]))"
      by (rule left_edits) (use z snoc in simp_all)
    then have "key_follows (edit_keys Go_left) c e (with_line l ([x] @ after e) e)"
      using shows_back [of "prompt_text c" l "[x]" "after e"] snoc
      by (intro csi_follows [OF assms, of "CHR ''D''" 1 "{}" _ _ "moves (CHR ''D'') (length [x])"])
        (simp_all add: csi_final_def is_digit_def)
    with snoc show ?thesis by simp
  qed
qed

lemma Go_right_follows:
  assumes "between_keys c e"
  shows "key_follows (edit_keys Go_right) c e (edit_step Go_right e)"
proof -
  have z: "zipped (before e) (after e) (in_csi 1 c)" using assms by (simp add: between_keys_def)
  show ?thesis
  proof (cases "after e")
    case Nil
    have "edits_to (Some (key_right (in_csi 1 c))) (in_csi 1 c) {} (before e) (after e) []"
      by (rule right_stays [OF z]) (simp add: Nil)
    then have "key_follows (edit_keys Go_right) c e (with_line (before e) (after e) e)"
      by (intro csi_follows [OF assms, of "CHR ''C''" 1 "{}" _ _ "[]"]) (simp_all add: csi_final_def is_digit_def)
    then show ?thesis unfolding with_line_same using Nil by simp
  next
    case (Cons x r)
    have "edits_to (Some (key_right (in_csi 1 c))) (in_csi 1 c) {} (before e @ [x]) r (moves (CHR ''C'') (length [x]))"
      using right_edits [OF z, of 1 "{}"] Cons by simp
    then have "key_follows (edit_keys Go_right) c e (with_line (before e @ [x]) r e)"
      using shows_fwd [of "prompt_text c" "before e" "[x]" r] Cons
      by (intro csi_follows [OF assms, of "CHR ''C''" 1 "{}" _ _ "moves (CHR ''C'') (length [x])"])
        (simp_all add: csi_final_def is_digit_def)
    with Cons show ?thesis by simp
  qed
qed

lemma Go_home_follows: "between_keys c e \<Longrightarrow> key_follows (edit_keys Go_home) c e (edit_step Go_home e)"
  unfolding edit_keys.simps edit_step.simps
  by (rule plain_follows [of _ _ _ "{}" _ _ "\<lambda>_. moves (CHR ''D'') (length (before e))"])
    (use shows_back [of _ "[]" "before e" "after e"] home_edits in \<open>auto simp: plain_char_def line_of_def\<close>)

lemma Go_end_follows: "between_keys c e \<Longrightarrow> key_follows (edit_keys Go_end) c e (edit_step Go_end e)"
  unfolding edit_keys.simps edit_step.simps
  by (rule plain_follows [of _ _ _ "{}" _ _ "\<lambda>_. moves (CHR ''C'') (length (after e))"])
    (use shows_fwd [of _ "before e" "after e" "[]"] end_edits in \<open>auto simp: plain_char_def line_of_def\<close>)

lemma Kill_follows:
  assumes "between_keys c e"
  shows "key_follows (edit_keys Kill) c e (edit_step Kill e)"
proof -
  have k: "edits_to (plain_char (CHR 0x0B) c) c {} (before e) [] (sent CLEAR_EOL)" if z: "zipped (before e) (after e) c" for c
  proof -
    obtain b where "poke (cli_cursor c) NUL (cli_buffer c) = Some b"
      "edits_to (Some ((cli_puts CLEAR_EOL c)\<lparr>cli_buffer := b, cli_len := cli_cursor c\<rparr>)) c {} (before e) [] (sent CLEAR_EOL)"
      using kill_edits [OF z] by blast
    then show ?thesis by (simp add: plain_char_def)
  qed
  show ?thesis unfolding edit_keys.simps edit_step.simps
    by (rule plain_follows [OF assms, of _ "{}" _ _ "\<lambda>_. sent CLEAR_EOL"]) (use k shows_clear in simp_all)
qed

lemma Redraw_follows:
  assumes "between_keys c e" "editor_ok printable e" "list_all printable (prompt_text c)"
  shows "key_follows (edit_keys Redraw) c e (edit_step Redraw e)"
proof -
  have "key_follows [CHR 0x0C] c e (with_line (before e) (after e) e)"
    by (rule plain_follows [OF assms(1), of _ "{}" _ _
        "\<lambda>p. sent (MOVE_BOL @ CLEAR_EOL) @ sent p @ sent (line_of e) @ moves (CHR ''D'') (length (after e))"])
      (use redraw_edits shows_redraw [OF _ assms(3)] assms(2) in \<open>simp_all add: line_of_def editor_ok_def\<close>)
  then show ?thesis by simp
qed

lemma Rub_out_follows:
  assumes "between_keys c e" "editor_ok printable e"
  shows "key_follows (edit_keys Rub_out) c e (edit_step Rub_out e)"
proof -
  have a: "list_all printable (after e)" using assms(2) by (simp add: editor_ok_def line_of_def)
  have k: "plain_char (CHR 0x7F) c = key_backspace c" for c by (simp add: plain_char_def)
  show ?thesis
  proof (cases "before e" rule: rev_cases)
    case Nil
    have "key_follows [CHR 0x7F] c e (with_line (before e) (after e) e)"
      by (rule plain_follows [OF assms(1), of _ "{}" _ _ "\<lambda>_. []"]) (use backspace_stays k Nil in simp_all)
    then show ?thesis unfolding with_line_same using Nil by simp
  next
    case (snoc l x)
    have "key_follows [CHR 0x7F] c e (with_line l (after e) e)"
      by (rule plain_follows [OF assms(1), of _ "{}" _ _
          "\<lambda>_. moves (CHR ''D'') (length [x]) @ sent (after e) @ sent '' '' @ moves (CHR ''D'') (Suc (length (after e)))"])
        (use backspace_edits k snoc shows_back [of _ l "[x]" "after e"] shows_delete [OF _ a, of _ l x]
          in \<open>simp_all del: sent.simps\<close>)
    with snoc show ?thesis by simp
  qed
qed

lemma Del_follows:
  assumes "between_keys c e" "editor_ok printable e"
  shows "key_follows (edit_keys Del) c e (edit_step Del e)"
proof -
  have z: "zipped (before e) (after e) (in_csi 3 c)" using assms(1) by (simp add: between_keys_def)
  show ?thesis
  proof (cases "after e")
    case Nil
    have "edits_to (key_delete (in_csi 3 c)) (in_csi 3 c) {} (before e) (after e) []"
      unfolding Nil by (rule delete_stays) (use z Nil in simp)
    then have "key_follows (edit_keys Del) c e (with_line (before e) (after e) e)"
      by (intro csi_follows [OF assms(1), of "CHR ''~''" 3 "{}" _ _ "[]"]) (simp_all add: csi_final_def is_digit_def)
    then show ?thesis unfolding with_line_same using Nil by simp
  next
    case (Cons x r)
    have r: "list_all printable r" using assms(2) Cons by (simp add: editor_ok_def line_of_def)
    have "edits_to (key_delete (in_csi 3 c)) (in_csi 3 c) {} (before e) r (sent r @ sent '' '' @ moves (CHR ''D'') (Suc (length r)))"
      by (rule delete_edits) (use z Cons in simp_all)
    then have "key_follows (edit_keys Del) c e (with_line (before e) r e)"
      using shows_delete [OF _ r, of "prompt_text c" "before e" x] Cons
      by (intro csi_follows [OF assms(1), of "CHR ''~''" 3 "{}" _ _ "sent r @ sent '' '' @ moves (CHR ''D'') (Suc (length r))"])
        (simp_all add: csi_final_def is_digit_def del: sent.simps)
    with Cons show ?thesis by simp
  qed
qed

text \<open>The arrow keys that recall lines.\<close>

definition recalled_to :: "string \<Rightarrow> int \<Rightarrow> cli \<Rightarrow> (char \<times> bool) list \<Rightarrow> cli \<Rightarrow> bool" where
  "recalled_to s pos c es c' \<longleftrightarrow> zipped s [] c' \<and> cli_history c' = cli_history c \<and> cli_searching c' = cli_searching c \<and>
     cli_history_pos c' = pos \<and> cli_put_char c' = cli_put_char c \<and> cli_prompt c' = cli_prompt c \<and>
     cli_out c' = cli_out c @ es"

abbreviation erased :: "nat \<Rightarrow> (char \<times> bool) list" where
  "erased n \<equiv> map (\<lambda>i. (CHR 0x08, i = 0)) (rev [0..<n])"

lemma emit_out: "cli_put_char c \<Longrightarrow> cli_out (emit es c) = cli_out c @ es"
  by (simp add: emit_def)

lemma recall_recalls:
  assumes "NUL \<notin> set s" "length s \<le> 119" "cli_put_char c" "\<not> cli_searching c"
  shows "\<exists>c'. recall s pos (emit (erased n) c) = Some c' \<and> recalled_to s pos c (erased n @ sent s @ sent CLEAR_EOL) c'"
proof -
  let ?c = "c\<lparr>cli_history_pos := pos, cli_buffer := s @ NUL # replicate (119 - length s) NUL, cli_len := int (length s), cli_cursor := int (length s)\<rparr>"
  have "zipped s [] ?c" by (rule zipped_fresh(2)) (use assms in simp_all)
  moreover have "recall s pos (emit (erased n) c) = Some (emit (erased n @ sent s @ sent CLEAR_EOL) ?c)"
    using assms by (simp add: recall_eq)
  ultimately show ?thesis using assms(3) by (simp add: recalled_to_def emit_out)
qed

lemma forget_recalls:
  assumes "length (cli_buffer c) = 120" "cli_put_char c" "\<not> cli_searching c"
  shows "poke 0 NUL (cli_buffer c) = Some ((cli_buffer c)[0 := NUL])"
    "recalled_to [] pos c (erased n @ sent CLEAR_EOL)
      (cli_puts CLEAR_EOL ((embedded_cli_reset_line ((emit (erased n) c)\<lparr>cli_buffer := (cli_buffer c)[0 := NUL]\<rparr>))\<lparr>cli_history_pos := pos\<rparr>))"
proof -
  obtain x b where b: "cli_buffer c = x # b" using assms(1) by (cases "cli_buffer c") auto
  then show "poke 0 NUL (cli_buffer c) = Some ((cli_buffer c)[0 := NUL])" by (simp add: poke_def)
  show "recalled_to [] pos c (erased n @ sent CLEAR_EOL)
      (cli_puts CLEAR_EOL ((embedded_cli_reset_line ((emit (erased n) c)\<lparr>cli_buffer := (cli_buffer c)[0 := NUL]\<rparr>))\<lparr>cli_history_pos := pos\<rparr>))"
    using assms b by (simp add: recalled_to_def output_emit zipped_def embedded_cli_reset_line_def emit_out)
qed

lemma arrow_follows:
  assumes "between_keys c e" "ch = CHR ''A'' \<or> ch = CHR ''B''" "csi_final ch (in_csi 1 c) = Some c'"
    "recalled_to s pos (in_csi 1 c) (erased (length (before e)) @ es) c'"
    "\<And>P r t. shows_line P [] r t \<Longrightarrow> shows_line P s [] (term_chars (chars es) t)"
  shows "key_follows [ESC, CHR ''['', ch] c e (with_line s [] (e\<lparr>recalled := pos\<rparr>))"
proof -
  have "type_chars [ESC, CHR ''['', ch] c = Some (after_csi c')"
    using type_escape(1) [OF assms(1), of ch] assms(2,3) by (auto simp: is_digit_def)
  moreover have "between_keys (after_csi c') (with_line s [] (e\<lparr>recalled := pos\<rparr>))"
    using assms(1,4) by (simp add: between_keys_def recalled_to_def with_line_def after_csi_def in_csi_def zipped_def)
  moreover have "cli_out (after_csi c') = cli_out c @ erased (length (before e)) @ es" "cli_prompt (after_csi c') = cli_prompt c"
    using assms(4) by (simp_all add: recalled_to_def after_csi_def in_csi_def)
  ultimately have "key_does [ESC, CHR ''['', ch] c (with_line s [] (e\<lparr>recalled := pos\<rparr>)) (erased (length (before e)) @ es)"
    by (auto simp: key_does_def)
  moreover have "shown (prompt_text c) (with_line s [] (e\<lparr>recalled := pos\<rparr>)) (term_chars (chars (erased (length (before e)) @ es)) t)"
    if "shown (prompt_text c) e t" for t
    using assms(5) [OF shows_backspaces [OF that]] by simp
  ultimately show ?thesis unfolding key_follows_def by blast
qed

lemma recalled_printable:
  assumes "editor_ok printable e" "entry (past e) k = Some s"
  shows "list_all printable s" "length s \<le> 119" "NUL \<notin> set s"
proof -
  from entry_cases(1) [OF assms(2)] assms(1) show p: "list_all printable s" "length s \<le> 119"
    by (auto simp: editor_ok_def list_all_iff)
  from p(1) show "NUL \<notin> set s" using not_printable(5) by (auto simp: list_all_iff)
qed

lemma shows_forget: "shows_line P [] r t \<Longrightarrow> shows_line P [] [] (term_chars (chars (sent CLEAR_EOL)) t)"
  using shows_clear [of P "[]" r] by simp

lemma in_arrow:
  assumes "between_keys c e"
  shows "zipped (before e) (after e) (in_csi 1 c)" "cli_put_char (in_csi 1 c)" "\<not> cli_searching (in_csi 1 c)"
    "stores (cli_history (in_csi 1 c)) (past e)" "cli_history_pos (in_csi 1 c) = recalled e" "\<not> cli_done (in_csi 1 c)"
    "length (cli_buffer (in_csi 1 c)) = 120" "cli_cursor (in_csi 1 c) = int (length (before e))"
  using assms by (simp_all add: between_keys_def in_csi_def zipped_def)

lemma Older_follows:
  assumes "between_keys c e" "editor_ok printable e"
  shows "key_follows (edit_keys Older) c e (edit_step Older e)"
proof -
  note a = in_arrow [OF assms(1)]
  let ?c = "in_csi 1 c" and ?n = "length (before e)"
  have up: "csi_final (CHR ''A'') ?c = (case entry (past e) (recalled e + 1) of
      Some line \<Rightarrow> recall line (recalled e + 1) (emit (erased ?n) ?c)
    | None \<Rightarrow> do { b \<leftarrow> poke 0 NUL (cli_buffer ?c);
        Some (cli_puts CLEAR_EOL ((embedded_cli_reset_line ((emit (erased ?n) ?c)\<lparr>cli_buffer := b\<rparr>))\<lparr>cli_history_pos := recalled e\<rparr>)) })"
    using get_history_stores [of "emit (erased ?n) ?c"] a by (simp add: csi_final_def key_up_def term_backspace_emit Let_def split: option.split)
  show ?thesis
  proof (cases "entry (past e) (recalled e + 1)")
    case None
    then have "key_follows [ESC, CHR ''['', CHR ''A''] c e (with_line [] [] (e\<lparr>recalled := recalled e\<rparr>))"
      using forget_recalls(1) [OF a(7,2,3)] forget_recalls(2) [OF a(7,2,3), of "recalled e" ?n] up shows_forget
      by (intro arrow_follows [OF assms(1), of _ _ _ _ "sent CLEAR_EOL"]) auto
    with None show ?thesis by simp
  next
    case (Some s)
    note p = recalled_printable [OF assms(2) Some]
    obtain c' where "recall s (recalled e + 1) (emit (erased ?n) ?c) = Some c'"
      "recalled_to s (recalled e + 1) ?c (erased ?n @ sent s @ sent CLEAR_EOL) c'"
      using recall_recalls [OF p(3,2) a(2,3)] by blast
    with Some p have "key_follows [ESC, CHR ''['', CHR ''A''] c e (with_line s [] (e\<lparr>recalled := recalled e + 1\<rparr>))"
      using up shows_recall by (intro arrow_follows [OF assms(1), of _ c' _ _ "sent s @ sent CLEAR_EOL"]) auto
    with Some show ?thesis by simp
  qed
qed

lemma reset_again: "(embedded_cli_reset_line c)\<lparr>cli_history_pos := -1\<rparr> = embedded_cli_reset_line c"
  by (simp add: embedded_cli_reset_line_def)

lemma Newer_follows:
  assumes "between_keys c e" "editor_ok printable e"
  shows "key_follows (edit_keys Newer) c e (edit_step Newer e)"
proof -
  note a = in_arrow [OF assms(1)]
  let ?c = "in_csi 1 c" and ?n = "length (before e)"
  have down: "csi_final (CHR ''B'') ?c = (case entry (past e) (recalled e - 1) of
      Some line \<Rightarrow> recall line (recalled e - 1) (emit (erased ?n) ?c)
    | None \<Rightarrow> do { b \<leftarrow> poke 0 NUL (cli_buffer ?c);
        Some (cli_puts CLEAR_EOL ((embedded_cli_reset_line ((emit (erased ?n) ?c)\<lparr>cli_buffer := b\<rparr>))\<lparr>cli_history_pos := -1\<rparr>)) })"
    using get_history_stores [of "emit (erased ?n) ?c"] a
    by (simp add: csi_final_def key_down_def term_backspace_emit Let_def reset_again split: option.split)
  show ?thesis
  proof (cases "entry (past e) (recalled e - 1)")
    case None
    then have "key_follows [ESC, CHR ''['', CHR ''B''] c e (with_line [] [] (e\<lparr>recalled := -1\<rparr>))"
      using forget_recalls(1) [OF a(7,2,3)] forget_recalls(2) [OF a(7,2,3), of "-1" ?n] down shows_forget
      by (intro arrow_follows [OF assms(1), of _ _ _ _ "sent CLEAR_EOL"]) auto
    with None show ?thesis by simp
  next
    case (Some s)
    note p = recalled_printable [OF assms(2) Some]
    obtain c' where "recall s (recalled e - 1) (emit (erased ?n) ?c) = Some c'"
      "recalled_to s (recalled e - 1) ?c (erased ?n @ sent s @ sent CLEAR_EOL) c'"
      using recall_recalls [OF p(3,2) a(2,3)] by blast
    with Some p have "key_follows [ESC, CHR ''['', CHR ''B''] c e (with_line s [] (e\<lparr>recalled := recalled e - 1\<rparr>))"
      using down shows_recall by (intro arrow_follows [OF assms(1), of _ c' _ _ "sent s @ sent CLEAR_EOL"]) auto
    with Some show ?thesis by simp
  qed
qed

lemma edit_follows:
  assumes "between_keys c e" "editor_ok printable e" "typable printable k" "k \<noteq> Enter" "list_all printable (prompt_text c)"
  shows "key_follows (edit_keys k) c e (edit_step k e)"
proof (cases k)
  case (Typed ch)
  then show ?thesis using Typed_follows assms by simp
qed (use assms Go_left_follows Go_right_follows Go_home_follows Go_end_follows Rub_out_follows Del_follows Kill_follows
  Redraw_follows Older_follows Newer_follows in \<open>blast+\<close>)

end
