(* ===== verification/EvsocShell.thy ===== *)
theory EvsocShell
  imports EvsocCliArgs EvsocCliEdit EvsocApp
begin

text \<open>
  Sessions with the command line: \<open>cli_main\<close> against an abstract shell on top of the abstract editor, the search
  in the history, and the program without arguments.
\<close>

unbundle bit_operations_syntax

section \<open>Sessions\<close>

text \<open>The editor before a key, perhaps after a finished line.\<close>

definition follows_editor :: "cli \<Rightarrow> editor \<Rightarrow> bool" where
  "follows_editor c e \<longleftrightarrow> (\<exists>c'. start_line c = Some c' \<and> between_keys c' e \<and> cli_out c' = cli_out c \<and> cli_prompt c' = cli_prompt c)"

lemma insert_after_start:
  "start_line c = Some c' \<Longrightarrow> \<not> cli_done c' \<Longrightarrow> embedded_cli_insert_char ch c = embedded_cli_insert_char ch c'"
  by (simp add: embedded_cli_insert_char_def) (simp add: start_line_def)

lemma loop_after_start:
  assumes "start_line c = Some c'" "\<not> cli_done c'" "ks \<noteq> []" "hd ks \<noteq> NUL"
  shows "cli_loop run ks c a = cli_loop run ks c' a"
  using assms(3,4) insert_after_start [OF assms(1,2)] by (cases ks) simp_all

lemma loop_types: "type_chars ks c = Some c' \<Longrightarrow> cli_loop run (ks @ rest) c a = cli_loop run rest c' a"
  by (induction ks c rule: type_chars.induct) (auto simp: bind_eq_Some_conv split: if_splits)

lemma start_between: "between_keys c e \<Longrightarrow> start_line c = Some c"
  by (simp add: between_keys_def start_line_def)

lemma edit_keys_head: "typable printable k \<Longrightarrow> edit_keys k \<noteq> [] \<and> hd (edit_keys k) \<noteq> NUL"
  using not_printable(5) by (cases k) auto

text \<open>Characters on the terminal so far.\<close>

abbreviation screen_of :: "cli \<Rightarrow> terminal" where
  "screen_of c \<equiv> term_chars (chars (cli_out c)) \<lparr>cells = [], column = 0, tmode = Ground\<rparr>"

lemma edit_loop:
  assumes "follows_editor c e" "editor_ok printable e" "typable printable k" "k \<noteq> Enter"
    "list_all printable (prompt_text c)" "shown (prompt_text c) e (screen_of c)"
  shows "\<exists>c'. (\<forall>rest. cli_loop run (edit_keys k @ rest) c a = cli_loop run rest c' a) \<and>
    follows_editor c' (edit_step k e) \<and> prompt_text c' = prompt_text c \<and> shown (prompt_text c) (edit_step k e) (screen_of c')"
proof -
  obtain c0 where c0: "start_line c = Some c0" "between_keys c0 e" "cli_out c0 = cli_out c" "cli_prompt c0 = cli_prompt c"
    using assms(1) by (auto simp: follows_editor_def)
  have p: "prompt_text c0 = prompt_text c" by (simp add: prompt_text_def c0)
  obtain es where es: "key_does (edit_keys k) c0 (edit_step k e) es"
    "\<And>t. shown (prompt_text c0) e t \<Longrightarrow> shown (prompt_text c0) (edit_step k e) (term_chars (chars es) t)"
    using edit_follows [OF c0(2) assms(2-4)] assms(5) p by (auto simp: key_follows_def)
  then obtain c' where c': "type_chars (edit_keys k) c0 = Some c'" "between_keys c' (edit_step k e)"
    "cli_out c' = cli_out c0 @ es" "cli_prompt c' = cli_prompt c0"
    by (auto simp: key_does_def)
  have "cli_loop run (edit_keys k @ rest) c a = cli_loop run rest c' a" for rest
    using loop_after_start [OF c0(1), of "edit_keys k @ rest" run a] loop_types [OF c'(1), of run rest a]
      edit_keys_head [OF assms(3)] c0(2) by (simp add: between_keys_def)
  moreover have "follows_editor c' (edit_step k e)"
    using c'(2) start_between [OF c'(2)] by (auto simp: follows_editor_def)
  moreover have "prompt_text c' = prompt_text c" using c'(4) c0(4) by (simp add: prompt_text_def)
  moreover have "shown (prompt_text c) (edit_step k e) (screen_of c')"
    using es(2) [of "screen_of c"] assms(6) c'(3) c0(3) p by simp
  ultimately show ?thesis by blast
qed

text \<open>A finished line: it is stored, and its words are the arguments.\<close>

lemma stores_terminated: "stores h ls \<Longrightarrow> length h = 512 \<and> NUL \<in> set h"
  by (auto simp: stores_def)

lemma enter_finishes:
  assumes "between_keys c e" "length (packed (past (edit_step Enter e))) \<le> 511"
  shows "\<exists>c'. embedded_cli_insert_char (CHR 0x0D) c = Some (True, c') \<and> cli_done c' \<and> length (cli_buffer c') = 120 \<and>
    str_at 0 (cli_buffer c') = Some (line_of e) \<and> stores (cli_history c') (past (edit_step Enter e)) \<and>
    cli_len c' = 0 \<and> cli_cursor c' = 0 \<and> \<not> cli_have_csi c' \<and> \<not> cli_have_escape c' \<and> \<not> cli_searching c' \<and>
    cli_history_pos c' = -1 \<and> cli_put_char c' \<and> cli_prompt c' = cli_prompt c \<and>
    cli_out c' = cli_out c @ [(CHR 0x0D, False), (CHR 0x0A, True)]"
proof -
  have b: "zipped (before e) (after e) c" "stores (cli_history c) (past e)" "\<not> cli_done c" "\<not> cli_have_csi c" "\<not> cli_searching c" "cli_put_char c"
    using assms(1) by (simp_all add: between_keys_def)
  define c1 where "c1 = (emit [(CHR 0x0D, False), (CHR 0x0A, True)] (c\<lparr>cli_dup_comp := False, cli_done := True\<rparr>))"
  have z: "zipped (before e) (after e) c1" and h1: "cli_history c1 = cli_history c"
    using b(1) by (simp_all add: c1_def zipped_def)
  have s: "line_of e \<noteq> [] \<Longrightarrow> NUL \<notin> set (line_of e)" using b(1) by (simp add: zipped_def line_of_def)
  have i: "embedded_cli_insert_char (CHR 0x0D) c = finish_line c1 \<bind> (\<lambda>c. Some (cli_done c, c))"
    using b(3,4) by (simp add: embedded_cli_insert_char_def start_line_def Let_def plain_char_def output_emit c1_def)
  have "\<exists>u. embedded_cli_extend_history c1 =
      Some (if line_of e = [] \<or> line_of e = cstr (cli_history c) then c1
        else c1\<lparr>cli_history := extended (line_of e) (cli_history c), cli_searching := u\<rparr>)"
    using extend_history_eq [OF z] stores_terminated [OF b(2)] h1 unfolding line_of_def by metis
  then obtain u where x: "embedded_cli_extend_history c1 =
      Some (if line_of e = [] \<or> line_of e = cstr (cli_history c) then c1
        else c1\<lparr>cli_history := extended (line_of e) (cli_history c), cli_searching := u\<rparr>)"
    by blast
  define keep where "keep \<longleftrightarrow> line_of e = [] \<or> line_of e = cstr (cli_history c)"
  have keep: "keep \<longleftrightarrow> line_of e = [] \<or> past e \<noteq> [] \<and> hd (past e) = line_of e"
    unfolding keep_def using cstr_stores [OF b(2)] by (cases "past e") auto
  have "stores (if keep then cli_history c else extended (line_of e) (cli_history c)) (past (edit_step Enter e))"
    using stores_extended [OF b(2) _ s] assms(2) b(2) keep by auto
  moreover have "finish_line c1 = Some (embedded_cli_reset_line (if keep then c1
      else c1\<lparr>cli_history := extended (line_of e) (cli_history c), cli_searching := u\<rparr>))"
    using b(5) x by (simp add: finish_line_def keep_def) (simp add: c1_def)
  ultimately show ?thesis
    using i z b zipped_line [OF b(1)] by (auto simp: embedded_cli_reset_line_def c1_def zipped_def line_of_def emit_out simp del: edit_step.simps)
qed

lemma chars_Cons: "chars (x # es) = fst x # chars es"
  by (simp add: chars_def)

lemma shows_new_prompt:
  assumes "tmode t = Ground" "list_all printable P"
  shows "shows_line P [] [] (term_chars (chars ([(CHR 0x0D, False), (CHR 0x0A, True)] @ sent P)) t)"
  using assms
  by (simp add: chars_printable chars_Cons term_char_def term_text [of P _ "[]" "[]"] shows_lineI [of _ _ _ _ 0])

text \<open>
  The abstract session: every finished line is run as its first nine words, and the last one
  ends the session.
\<close>

fun shell :: "(string list \<Rightarrow> 'a \<Rightarrow> (bool \<times> 'a) option) \<Rightarrow> edit list \<Rightarrow> editor \<Rightarrow> 'a \<Rightarrow> (bool \<times> editor \<times> 'a) option" where
  "shell run [] e a = Some (False, e, a)"
| "shell run (k # ks) e a =
     (if k = Enter then do {
        (done, a) \<leftarrow> run (take 9 (shell_words (line_of e))) a;
        if done then Some (True, edit_step Enter e, a) else shell run ks (edit_step Enter e) a
      } else shell run ks (edit_step k e) a)"

lemma packed_grows: "length (packed (past e)) \<le> length (packed (past (edit_step k e)))"
  by (cases k) (auto simp: with_line_def split: option.split list.split)

lemma shell_grows: "shell run ks e a = Some (d, e', a') \<Longrightarrow> length (packed (past e)) \<le> length (packed (past e'))"
proof (induction ks arbitrary: e a)
  case (Cons k ks)
  then show ?case using packed_grows [of e k] packed_grows [of e Enter]
    by (auto simp: bind_eq_Some_conv simp del: edit_step.simps split: if_splits) (force intro: order_trans)+
qed simp

lemma after_enter:
  assumes "cli_done c" "length (cli_buffer c) = 120" "cli_len c = 0" "cli_cursor c = 0" "stores (cli_history c) (past e)"
    "before e = []" "after e = []" "\<not> cli_have_csi c" "\<not> cli_have_escape c" "\<not> cli_searching c" "cli_history_pos c = recalled e"
    "cli_put_char c" "NUL \<in> set (cli_prompt c)"
  shows "follows_editor c e"
proof -
  obtain x b where b: "cli_buffer c = x # b" using assms(2) by (cases "cli_buffer c") auto
  then have "start_line c = Some (c\<lparr>cli_buffer := NUL # b, cli_done := False\<rparr>)"
    using assms(1) by (simp add: start_line_def poke_def)
  moreover have "between_keys (c\<lparr>cli_buffer := NUL # b, cli_done := False\<rparr>) e"
    using assms b by (simp add: between_keys_def zipped_def)
  ultimately show ?thesis by (auto simp: follows_editor_def)
qed

abbreviation plain_text :: "char \<Rightarrow> bool" where
  "plain_text ch \<equiv> printable ch \<and> ch \<noteq> CHR 0x5C"

lemma editor_ok_mono: "editor_ok plain_text e \<Longrightarrow> editor_ok printable e"
  by (auto simp: editor_ok_def list_all_iff)

lemma enter_loop:
  assumes "follows_editor c e" "editor_ok plain_text e" "length (packed (past (edit_step Enter e))) \<le> 511"
    "list_all printable (prompt_text c)" "shown (prompt_text c) e (screen_of c)"
    "run (take 9 (shell_words (line_of e))) a = Some (d, a')"
  shows "\<exists>c'. (\<forall>rest. cli_loop run (edit_keys Enter @ rest) c a = (if d then Some (True, c', a') else cli_loop run rest c' a')) \<and>
    (d \<or> follows_editor c' (edit_step Enter e) \<and> prompt_text c' = prompt_text c \<and> shown (prompt_text c) (edit_step Enter e) (screen_of c'))"
proof -
  obtain c0 where c0: "start_line c = Some c0" "between_keys c0 e" "cli_out c0 = cli_out c" "cli_prompt c0 = cli_prompt c"
    using assms(1) by (auto simp: follows_editor_def)
  obtain c1 where c1: "embedded_cli_insert_char (CHR 0x0D) c0 = Some (True, c1)" "cli_done c1" "length (cli_buffer c1) = 120"
    "str_at 0 (cli_buffer c1) = Some (line_of e)" "stores (cli_history c1) (past (edit_step Enter e))"
    "cli_len c1 = 0" "cli_cursor c1 = 0" "\<not> cli_have_csi c1" "\<not> cli_have_escape c1" "\<not> cli_searching c1"
    "cli_history_pos c1 = -1" "cli_put_char c1" "cli_prompt c1 = cli_prompt c0"
    "cli_out c1 = cli_out c0 @ [(CHR 0x0D, False), (CHR 0x0A, True)]"
    using enter_finishes [OF c0(2) assms(3)] by blast
  have bs: "CHR 0x5C \<notin> set (line_of e)" using assms(2) by (auto simp: editor_ok_def list_all_iff)
  obtain n b args where a: "embedded_cli_argc c1 = Some (n, c1\<lparr>cli_buffer := b, cli_argv := args\<rparr>)" "length b = 120"
    "argv_strings args b = Some (take 9 (shell_words (line_of e)))"
    using embedded_cli_argc_words [OF c1(2,3,4) bs] by blast
  define c2 where "c2 = c1\<lparr>cli_buffer := b, cli_argv := args\<rparr>"
  have start: "embedded_cli_insert_char (CHR 0x0D) c = Some (True, c1)"
    using insert_after_start [OF c0(1)] c0(2) c1(1) by (simp add: between_keys_def)
  have p: "NUL \<in> set (cli_prompt c2)" "prompt_text c2 = prompt_text c"
    using c0(2,4) c1(13) by (simp_all add: c2_def between_keys_def prompt_text_def)
  define c3 where "c3 = (if d then c2 else emit (sent (prompt_text c2)) c2)"
  have loop: "cli_loop run (edit_keys Enter @ rest) c a = (if d then Some (True, c3, a') else cli_loop run rest c3 a')" for rest
    using start a(1) a(3) assms(6) prompt_emit [OF p(1)] by (simp add: c3_def flip: c2_def) (simp add: c2_def)
  moreover have "follows_editor c3 (edit_step Enter e)" if "\<not> d"
  proof (rule after_enter)
    show "NUL \<in> set (cli_prompt c3)" using p(1) by (simp add: c3_def)
  qed (use c1 a(2) that in \<open>simp_all add: c3_def c2_def\<close>)
  moreover have "prompt_text c3 = prompt_text c" using p(2) by (simp add: c3_def)
  moreover have "shown (prompt_text c) (edit_step Enter e) (screen_of c3)" if "\<not> d"
  proof -
    have g: "tmode (screen_of c) = Ground" using assms(5) by (auto elim: shows_lineE)
    have "cli_out c3 = cli_out c @ ([(CHR 0x0D, False), (CHR 0x0A, True)] @ sent (prompt_text c))"
      using that c0(3) c1(12,14) p(2) by (simp add: c3_def c2_def emit_out)
    then have "screen_of c3 = term_chars (chars ([(CHR 0x0D, False), (CHR 0x0A, True)] @ sent (prompt_text c))) (screen_of c)"
      by (simp only: chars_simps fold_append comp_apply)
    then show ?thesis using shows_new_prompt [OF g assms(4)] by simp
  qed
  ultimately show ?thesis by blast
qed

lemma session_loop:
  assumes "follows_editor c e" "editor_ok plain_text e" "list_all (typable plain_text) ks"
    "shell run ks e a = Some (d, e', a')" "length (packed (past e')) \<le> 511"
    "list_all printable (prompt_text c)" "shown (prompt_text c) e (screen_of c)"
  shows "\<exists>c'. cli_loop run (concat (map edit_keys ks)) c a = Some (d, c', a') \<and> (d \<or> shown (prompt_text c) e' (screen_of c'))"
  using assms
proof (induction ks arbitrary: c e a)
  case (Cons k ks)
  have fits: "length (line_of e) \<le> 119"
    using Cons.prems(1) zipped_fits by (auto simp: follows_editor_def between_keys_def line_of_def)
  have ok: "editor_ok plain_text (edit_step k e)"
    by (rule editor_ok_step [OF Cons.prems(2) _ fits]) (use Cons.prems(3) in simp)
  show ?case
  proof (cases "k = Enter")
    case False
    have tp: "typable printable k" using Cons.prems(3) by (cases k) auto
    obtain c' where c': "\<And>rest. cli_loop run (edit_keys k @ rest) c a = cli_loop run rest c' a"
      "follows_editor c' (edit_step k e)" "prompt_text c' = prompt_text c" "shown (prompt_text c) (edit_step k e) (screen_of c')"
      using edit_loop [OF Cons.prems(1) editor_ok_mono [OF Cons.prems(2)] tp False Cons.prems(6,7), of run a] by blast
    show ?thesis
      using Cons.IH [OF c'(2) ok _ _ Cons.prems(5)] Cons.prems(3,4,6) c' False by (simp del: edit_step.simps)
  next
    case True
    then obtain d1 a1 where r: "run (take 9 (shell_words (line_of e))) a = Some (d1, a1)"
      "(if d1 then Some (True, edit_step Enter e, a1) else shell run ks (edit_step Enter e) a1) = Some (d, e', a')"
      using Cons.prems(4) by (auto simp: bind_eq_Some_conv simp del: edit_step.simps)
    have room: "length (packed (past (edit_step Enter e))) \<le> 511"
      using r(2) shell_grows [of run ks "edit_step Enter e" a1 d e' a'] Cons.prems(5) by (cases d1) (auto simp del: edit_step.simps)
    obtain c' where c': "\<And>rest. cli_loop run (edit_keys Enter @ rest) c a = (if d1 then Some (True, c', a1) else cli_loop run rest c' a1)"
      "d1 \<or> follows_editor c' (edit_step Enter e) \<and> prompt_text c' = prompt_text c \<and> shown (prompt_text c) (edit_step Enter e) (screen_of c')"
      using enter_loop [OF Cons.prems(1,2) room Cons.prems(6,7), of run a, OF r(1)] by blast
    show ?thesis
    proof (cases d1)
      case True
      with r(2) c'(1) \<open>k = Enter\<close> show ?thesis by auto
    next
      case False
      then show ?thesis
        using Cons.IH [of c' "edit_step Enter e" a1] ok r(2) Cons.prems(3,5,6) c' \<open>k = Enter\<close>
        by (simp del: edit_step.simps)
    qed
  qed
qed simp

lemma main_start:
  "\<exists>c. embedded_cli_prompt (embedded_cli_init (Some ''EVSOC> '') True) = Some c \<and> follows_editor c new_editor \<and>
    prompt_text c = ''EVSOC> '' \<and> shown ''EVSOC> '' new_editor (screen_of c)"
proof -
  let ?c = "embedded_cli_init (Some ''EVSOC> '') True"
  have p: "NUL \<in> set (cli_prompt ?c)" "prompt_text ?c = ''EVSOC> ''"
    by (simp_all add: embedded_cli_init_def embedded_cli_reset_line_def Let_def strncpy_def EMBEDDED_CLI_MAX_PROMPT_LEN_def
      prompt_text_def cstr_def numeral_eq_Suc)
  have b: "between_keys (emit es ?c) new_editor" for es
    using init_zipped [of "Some ''EVSOC> ''" True] p(1) stores_empty
    by (simp add: between_keys_def new_editor_def)
      (simp add: embedded_cli_init_def embedded_cli_reset_line_def Let_def EMBEDDED_CLI_HISTORY_LEN_def)
  have out: "cli_out ?c = []" "cli_put_char ?c"
    by (simp_all add: embedded_cli_init_def embedded_cli_reset_line_def Let_def)
  define P where "P = ''EVSOC> ''"
  have "list_all printable P" by (simp add: printable_def P_def)
  then have "shown P new_editor (screen_of (emit (sent P) ?c))"
    using out by (simp add: emit_out chars_printable term_text [of _ _ "[]" "[]"] new_editor_def shows_lineI [of _ _ _ _ 0])
  moreover have "follows_editor (emit (sent ''EVSOC> '') ?c) new_editor"
    using b start_between [OF b] by (auto simp: follows_editor_def)
  ultimately show ?thesis using prompt_emit [OF p(1)] p(2) unfolding P_def by (simp del: sent.simps)
qed

section \<open>Searching the history\<close>

text \<open>The editor while searching for \<open>s\<close>.\<close>

definition searching_for :: "string \<Rightarrow> string list \<Rightarrow> cli \<Rightarrow> bool" where
  "searching_for s ls c \<longleftrightarrow> zipped s [] c \<and> stores (cli_history c) ls \<and> cli_searching c \<and> \<not> cli_have_csi c \<and>
     \<not> cli_have_escape c \<and> \<not> cli_done c"

lemma search_step:
  assumes "searching_for s ls c" "printable ch" "length s < 119"
  shows "\<exists>c'. embedded_cli_insert_char ch c = Some (False, c') \<and> searching_for (s @ [ch]) ls c'"
proof -
  have ch: "ch \<noteq> NUL" "ch \<noteq> CHR 0x0A" "ch \<noteq> CHR 0x0D" "ch \<noteq> CHR 0x09"
    and k: "ch \<notin> {CHR 0x01, CHR 0x03, CHR 0x05, CHR 0x0B, CHR 0x0C, CHR 0x08, CHR 0x7F, CHR 0x12, ESC}"
    using assms(2) by (auto simp: printable_def)
  let ?c = "c\<lparr>cli_dup_comp := False\<rparr>"
  have b: "zipped s [] ?c" "stores (cli_history c) ls" "cli_searching c" "\<not> cli_have_csi c" "\<not> cli_have_escape c" "\<not> cli_done c"
    using assms(1) by (simp_all add: searching_for_def)
  obtain b1 b2 b3 where m: "move (cli_cursor ?c + 1) (cli_cursor ?c) (cli_len ?c - cli_cursor ?c) (cli_buffer ?c) = Some b1"
      "poke (cli_cursor ?c) ch b1 = Some b2" "poke (cli_len ?c + 1) NUL b2 = Some b3"
    and z: "zipped (s @ [ch]) [] (?c\<lparr>cli_buffer := b3, cli_len := cli_len ?c + 1, cli_cursor := cli_cursor ?c + 1\<rparr>)"
    by (rule insert_gap [OF b(1) _ ch(1)]) (use assms(3) in auto)
  let ?d = "?c\<lparr>cli_buffer := b3, cli_len := cli_len c + 1, cli_cursor := cli_cursor c + 1\<rparr>"
  have st: "str_at 0 (cli_buffer (emit es ?d)) = Some (s @ [ch])" for es using zipped_line [OF z] by simp
  have "embedded_cli_get_history_search (emit es ?d) = Some (find (\<lambda>h. strstr h (s @ [ch])) (ls @ [[]]))" for es
    using history_search_stores [OF _ st, of es ls 0] b(2) by (simp add: embedded_cli_get_history_search_def)
  moreover have "cli_len c < 119" using b(1) assms(3) by (simp add: zipped_def)
  ultimately have "embedded_cli_insert_default_char ch ?c =
      Some (emit (sent (MOVE_BOL @ CLEAR_EOL @ ''search:'') @
        (case find (\<lambda>h. strstr h (s @ [ch])) (ls @ [[]]) of Some h \<Rightarrow> sent h | None \<Rightarrow> [])) ?d)"
    using m b(3)
    by (simp add: embedded_cli_insert_default_char_def EMBEDDED_CLI_MAX_LINE_def Let_def output_emit split: option.split)
  then obtain es where "embedded_cli_insert_default_char ch ?c = Some (emit es ?d)" by (rule that)
  moreover have "plain_char ch ?c = embedded_cli_insert_default_char ch ?c" using ch k b(5) by (auto simp: plain_char_def)
  ultimately have "embedded_cli_insert_char ch c = Some (False, (emit es ?d)\<lparr>cli_done := False\<rparr>)"
    using b(4,6) ch by (simp add: insert_plain)
  moreover have "searching_for (s @ [ch]) ls ((emit es ?d)\<lparr>cli_done := False\<rparr>)"
    using z b by (simp add: searching_for_def zipped_def)
  ultimately show ?thesis by blast
qed

lemma search_steps:
  "searching_for s ls c \<Longrightarrow> list_all printable t \<Longrightarrow> length s + length t \<le> 119 \<Longrightarrow>
   \<exists>c'. insert_chars t c = Some c' \<and> searching_for (s @ t) ls c'"
proof (induction t arbitrary: s c)
  case (Cons ch t)
  obtain c1 where "embedded_cli_insert_char ch c = Some (False, c1)" "searching_for (s @ [ch]) ls c1"
    using search_step [OF Cons.prems(1)] Cons.prems(2,3) by auto
  with Cons.IH [of "s @ [ch]" c1] Cons.prems(2,3) show ?case by simp
qed simp

lemma search_enter:
  assumes "searching_for s ls c" "list_all (\<lambda>h. length h \<le> 119) ls"
  shows "\<exists>c'. embedded_cli_insert_char (CHR 0x0D) c = Some (True, c') \<and> cli_done c' \<and>
    str_at 0 (cli_buffer c') = Some (case find (\<lambda>h. strstr h s) ls of Some h \<Rightarrow> h | None \<Rightarrow> [])"
proof -
  define c1 where "c1 = emit [(CHR 0x0D, False), (CHR 0x0A, True)] (c\<lparr>cli_dup_comp := False, cli_done := True\<rparr>)"
  have b: "zipped s [] c1" "stores (cli_history c1) ls" "cli_searching c1" "cli_done c1"
    using assms(1) by (simp_all add: searching_for_def c1_def zipped_def)
  have i: "embedded_cli_insert_char (CHR 0x0D) c = finish_line c1 \<bind> (\<lambda>c. Some (cli_done c, c))"
    using assms(1) by (simp add: searching_for_def embedded_cli_insert_char_def start_line_def Let_def plain_char_def output_emit c1_def)
  define h where "h = (case find (\<lambda>h. strstr h s) ls of Some h \<Rightarrow> h | None \<Rightarrow> [])"
  have "find (\<lambda>h. strstr h s) ls = Some x \<Longrightarrow> x \<in> set ls" for x by (auto simp: find_Some_iff)
  then have h: "length h \<le> 119" "NUL \<notin> set h"
    using assms(2) b(2) by (auto simp: h_def stores_def list_all_iff split: option.split)
  have f: "find (\<lambda>h. strstr h s) (ls @ [[]]) = (case find (\<lambda>h. strstr h s) ls of Some h \<Rightarrow> Some h | None \<Rightarrow> if strstr [] s then Some [] else None)"
    by (induction ls) auto
  have g: "embedded_cli_get_history_search c1 = Some (find (\<lambda>h. strstr h s) (ls @ [[]]))"
    using history_search_stores [OF b(2) zipped_line [OF b(1), simplified], of 0] by (simp add: embedded_cli_get_history_search_def)
  have "\<exists>bf. embedded_cli_stop_search False c1 =
      Some (c1\<lparr>cli_buffer := bf, cli_len := int (length h), cli_cursor := int (length h), cli_searching := False\<rparr>) \<and>
    zipped h [] (c1\<lparr>cli_buffer := bf, cli_len := int (length h), cli_cursor := int (length h), cli_searching := False\<rparr>)"
  proof (cases "find (\<lambda>h. strstr h s) (ls @ [[]])")
    case None
    then have "h = []" by (auto simp: h_def f split: option.splits if_splits)
    moreover obtain x bf where "cli_buffer c1 = x # bf" "length bf = 119"
      using b(1) by (cases "cli_buffer c1") (auto simp: zipped_def)
    ultimately show ?thesis using None g str_at_0 [of "[]" bf]
      by (intro exI [of _ "NUL # bf"]) (simp add: embedded_cli_stop_search_def poke_def Let_def zipped_def)
  next
    case (Some x)
    then have x: "x = h" by (auto simp: h_def f split: option.splits if_splits)
    have "zipped h [] (c1\<lparr>cli_buffer := h @ NUL # replicate (119 - length h) NUL, cli_len := int (length h), cli_cursor := int (length h), cli_searching := False\<rparr>)"
      by (rule zipped_fresh(2)) (use h in simp_all)
    then show ?thesis using Some x g zipped_fresh(1) [OF h(2,1)] str_at_0 [OF h(2)]
      by (intro exI [of _ "h @ NUL # replicate (119 - length h) NUL"]) (simp add: embedded_cli_stop_search_def Let_def)
  qed
  then obtain bf where st: "embedded_cli_stop_search False c1 =
      Some (c1\<lparr>cli_buffer := bf, cli_len := int (length h), cli_cursor := int (length h), cli_searching := False\<rparr>)"
    and z: "zipped h [] (c1\<lparr>cli_buffer := bf, cli_len := int (length h), cli_cursor := int (length h), cli_searching := False\<rparr>)"
    by blast
  have "embedded_cli_insert_char (CHR 0x0D) c \<noteq> None \<and> (\<forall>d c'. embedded_cli_insert_char (CHR 0x0D) c = Some (d, c') \<longrightarrow> d \<and> cli_done c' \<and> cli_buffer c' = bf)"
    using extend_history_eq [OF z] stores_terminated [OF b(2)] i st b(3,4)
    by (auto simp: finish_line_def embedded_cli_reset_line_def)
  moreover have "str_at 0 bf = Some h" using zipped_line [OF z] by simp
  ultimately show ?thesis unfolding h_def [symmetric] by (cases "embedded_cli_insert_char (CHR 0x0D) c") auto
qed

lemma insert_chars_append: "insert_chars (x @ y) c = insert_chars x c \<bind> insert_chars y"
proof (induction x arbitrary: c)
  case (Cons ch x)
  then show ?case by (cases "embedded_cli_insert_char ch c") auto
qed simp

text \<open>C36: Control-R, a text and Enter finish with the newest line entered that contains the text, or
  with an empty line when there is none.\<close>

theorem search_recalls_newest:
  assumes "between_keys c e" "line_of e = []" "list_all printable t" "length t \<le> 119" "list_all (\<lambda>h. length h \<le> 119) (past e)"
  shows "\<exists>c'. insert_chars (CHR 0x12 # t @ [CHR 0x0D]) c = Some c' \<and>
    embedded_cli_get_line c' = Some (Some (case find (\<lambda>h. strstr h t) (past e) of Some h \<Rightarrow> h | None \<Rightarrow> []))"
proof -
  have c: "\<not> cli_done c" "\<not> cli_have_csi c" "\<not> cli_searching c" "zipped (before e) (after e) c" "before e = []" "after e = []"
    using assms(1,2) by (simp_all add: between_keys_def line_of_def)
  define c1 where "c1 = (emit (sent (CHR 0x0A # ''search:'')) (c\<lparr>cli_dup_comp := False\<rparr>))\<lparr>cli_searching := True, cli_done := False\<rparr>"
  have "embedded_cli_insert_char (CHR 0x12) c = Some (False, c1)"
    using c by (simp add: insert_plain plain_char_def output_emit c1_def)
  moreover have "searching_for [] (past e) c1"
    using assms(1) c(4-6) by (simp add: searching_for_def between_keys_def c1_def zipped_def)
  then obtain c2 where c2: "insert_chars t c1 = Some c2" "searching_for t (past e) c2"
    using search_steps [of "[]"] assms(3,4) by fastforce
  moreover obtain c3 where "embedded_cli_insert_char (CHR 0x0D) c2 = Some (True, c3)" "cli_done c3"
    "str_at 0 (cli_buffer c3) = Some (case find (\<lambda>h. strstr h t) (past e) of Some h \<Rightarrow> h | None \<Rightarrow> [])"
    using search_enter [OF c2(2) assms(5)] by blast
  ultimately show ?thesis by (simp add: embedded_cli_get_line_def insert_chars_append)
qed

definition demo_history :: cli where
  "demo_history = (embedded_cli_init None True)\<lparr>cli_history := extended ''help'' (extended ''binning X2Bin'' (replicate 512 NUL))\<rparr>"

lemma search_recalls_newest_witness:
  "\<exists>c'. insert_chars (CHR 0x12 # ''inn'' @ [CHR 0x0D]) demo_history = Some c' \<and>
     embedded_cli_get_line c' = Some (Some ''binning X2Bin'')"
proof -
  let ?e = "\<lparr>before = [], after = [], past = [''help'', ''binning X2Bin''], recalled = -1\<rparr>"
  have z: "zipped [] [] demo_history" using init_zipped [of None True] by (simp add: demo_history_def zipped_def)
  have "stores (cli_history demo_history) (past ?e)"
    unfolding demo_history_def by (simp add: stores_extended stores_empty)
  then have "between_keys demo_history ?e"
    using z by (simp add: between_keys_def)
      (simp add: demo_history_def embedded_cli_init_def embedded_cli_reset_line_def Let_def EMBEDDED_CLI_MAX_PROMPT_LEN_def)
  moreover have "find (\<lambda>h. strstr h ''inn'') [''help'', ''binning X2Bin''] = Some ''binning X2Bin''"
    by (simp add: strstr_def upt_rec)
  ultimately show ?thesis
    using search_recalls_newest [of demo_history ?e "''inn''"] by (simp add: line_of_def printable_def)
qed

lemma session_runs:
  assumes "shell run ks new_editor a = Some (d, e, a')" "list_all (typable plain_text) ks" "length (packed (past e)) \<le> 511"
  shows "\<exists>c. cli_main run (concat (map edit_keys ks)) a = Some (d, c, a') \<and>
    (d \<or> shows_line ''EVSOC> '' (before e) (after e) (screen_of c))"
proof -
  obtain c where c: "embedded_cli_prompt (embedded_cli_init (Some ''EVSOC> '') True) = Some c" "follows_editor c new_editor"
    "prompt_text c = ''EVSOC> ''" "shown ''EVSOC> '' new_editor (screen_of c)"
    using main_start by blast
  have "editor_ok plain_text new_editor" by (simp add: editor_ok_def new_editor_def line_of_def)
  moreover have "list_all printable (prompt_text c)" using c(3) by (simp add: printable_def)
  ultimately have "\<exists>c'. cli_loop run (concat (map edit_keys ks)) c a = Some (d, c', a') \<and> (d \<or> shown (prompt_text c) e (screen_of c'))"
    using session_loop [OF c(2) _ assms(2,1,3)] c(3,4) by simp
  with c(1,3) show ?thesis by (simp add: cli_main_def)
qed

text \<open>C5: A session with the command line behaves like the abstract editor and shell: whatever characters are
  typed and edited with the cursor, deletion and recall keys, the terminal always shows the prompt and the
  edited line with the cursor in its place, and each finished line runs exactly its first nine words as a
  command, until one ends the session.  The lines entered must fit into the history array and contain no
  backslash.\<close>

theorem interactive_session:
  assumes "shell run ks new_editor a = Some (d, e, a')" "list_all (typable plain_text) ks" "length (packed (past e)) \<le> 511"
  shows "\<exists>c. cli_main run (concat (map edit_keys ks)) a = Some (d, c, a') \<and>
    (d \<or> shows_line ''EVSOC> '' (before e) (after e) (screen_of c))"
  by (rule session_runs [OF assms])

definition demo_session :: "edit list" where
  "demo_session = [Typed CHR ''a'', Enter, Typed CHR ''q'', Typed CHR ''i'', Typed CHR ''t'', Go_left, Go_left, Typed CHR ''u'', Older, Newer, Older, Typed CHR ''b'']"

lemma interactive_session_witness:
  "\<exists>c. cli_main (\<lambda>argv log. Some (argv = [''quit''], log @ [argv])) (concat (map edit_keys demo_session)) [] = Some (False, c, [[''a'']]) \<and>
     shows_line ''EVSOC> '' ''ab'' [] (screen_of c)"
proof -
  let ?run = "\<lambda>argv log. Some (argv = [''quit''], log @ [argv])"
  let ?e = "\<lparr>before = ''ab'', after = [], past = [''a''], recalled = 0\<rparr>"
  have "shell ?run demo_session new_editor [] = Some (False, ?e, [[''a'']])"
    by (simp add: demo_session_def new_editor_def line_of_def with_line_def entry_def shell_words_def
      is_whitespace_def is_quote_def)
  moreover have "list_all (typable plain_text) demo_session" by (simp add: demo_session_def printable_def)
  ultimately show ?thesis using interactive_session [of ?run demo_session "[]" False ?e "[[''a'']]"] by simp
qed

section \<open>The program without arguments\<close>

text \<open>
  \<open>main\<close> without arguments: the interactive session on the keys \<open>keys\<close> between registering and
  deregistering the process.  \<open>None\<close> as the result: still waiting for keys.
\<close>

definition app_interactive ::
  "iomem device \<Rightarrow> bool \<Rightarrow> bool \<Rightarrow> bool \<Rightarrow> (evsoc \<Rightarrow> evsoc) \<Rightarrow> int \<Rightarrow> u32 \<Rightarrow> string \<Rightarrow> evsoc \<Rightarrow> (int option \<times> app) option" where
  "app_interactive d opened mapped saved during junk pid keys s = do {
     a \<leftarrow> drv_ioctl d opened CMD_SET_PID pid (app_start s);
     (done, c, a) \<leftarrow> cli_main (cmd_proc (app_commands d opened mapped saved during junk)) keys a;
     if \<not> done then Some (None, a)
     else do {
       a \<leftarrow> poll_title_msg d opened True a;
       a \<leftarrow> drv_ioctl d opened CMD_SET_PID 0 a;
       Some (Some 1, a)
     }
   }"

text \<open>
  Typing a command and \<open>quit\<close> has the effect of the program called with the words of the command.
\<close>

lemma command_then_quit:
  assumes "list_all plain_text line" "length line \<le> 119" "shell_words line = argv" "length argv \<le> 9" "argv \<noteq> []"
    "hd argv \<noteq> ''quit''" "line \<noteq> ''quit''"
    "app_main d opened mapped saved during junk pid argv s = Some (r, a)"
  shows "app_interactive d opened mapped saved during junk pid (line @ CHR 0x0D # ''quit'' @ [CHR 0x0D]) s = Some (Some r, a)"
proof -
  let ?run = "cmd_proc (app_commands d opened mapped saved during junk)"
  obtain a1 dn a2 a3 where m: "drv_ioctl d opened CMD_SET_PID pid (app_start s) = Some a1" "?run argv a1 = Some (dn, a2)"
    "poll_title_msg d opened True a2 = Some a3" "drv_ioctl d opened CMD_SET_PID 0 a3 = Some a" "r = 1"
    using assms(8) by (auto simp: app_main_def bind_eq_Some_conv)
  have dn: "\<not> dn"
    using m(2) assms(5,6) by (cases argv) (auto simp: cmd_proc_def split: if_splits option.splits)
  have typed: "shell ?run (map Typed t @ ks) e x = shell ?run ks (with_line (before e @ t) (after e) e) x"
    if "length (line_of e) + length t \<le> 119" for t e x and ks
    using that
  proof (induction t arbitrary: e)
    case (Cons ch t)
    then show ?case using Cons.IH [of "with_line (before e @ [ch]) (after e) e"] by (simp add: line_of_def with_line_def)
  qed (simp add: with_line_def)
  define e1 where "e1 = edit_step Enter (with_line line [] new_editor)"
  have l0: "length (line_of new_editor) + length line \<le> 119" using assms(2) by (simp add: line_of_def new_editor_def)
  have l1: "length (line_of e1) + length ''quit'' \<le> 119" by (simp add: e1_def line_of_def)
  define e2 where "e2 = edit_step Enter (with_line ''quit'' [] e1)"
  let ?ks = "map Typed line @ Enter # map Typed ''quit'' @ [Enter]"
  have w: "shell_words ''quit'' = [''quit'']" by (simp add: shell_words_def is_whitespace_def is_quote_def)
  have t2: "shell ?run (map Typed ''quit'' @ [Enter]) e1 a2 = Some (True, e2, a2)"
    unfolding typed [OF l1] using w by (simp add: e2_def e1_def line_of_def with_line_def cmd_proc_def)
  have "shell ?run ?ks new_editor a1 = Some (True, e2, a2)"
    unfolding typed [OF l0] using m(2) assms(3,4) dn t2 by (simp add: line_of_def with_line_def new_editor_def e1_def)
  moreover have "list_all (typable plain_text) ?ks" using assms(1) by (simp add: list_all_iff printable_def)
  moreover have "length (packed (past e2)) \<le> 511" using assms(2) by (simp add: e2_def e1_def with_line_def new_editor_def line_of_def)
  moreover have "concat (map edit_keys ?ks) = line @ CHR 0x0D # ''quit'' @ [CHR 0x0D]"
    by (simp add: comp_def concat_map_singleton)
  ultimately obtain c where "cli_main ?run (line @ CHR 0x0D # ''quit'' @ [CHR 0x0D]) a1 = Some (True, c, a2)"
    using session_runs [of ?run ?ks a1 True e2 a2] by auto
  with m show ?thesis by (simp add: app_interactive_def)
qed

end
