(* ===== verification/EvsocTab.thy ===== *)
theory EvsocTab
  imports EvsocShell EvsocAppProps
begin

text \<open>
  The rest of the Edge Vision application: the command and enumeration tables of evsoc_cli.cpp and what
  \<open>main\<close> registers in them, the list that \<open>help\<close> prints, the completion of a word with the tabulator
  (\<open>embedded_cli_tab\<close>), the reading of a key with the settings of the terminal (\<open>getch\<close>), and the
  pictures of evsoc_func.cpp that only tests use.  The completion, \<open>clearAll\<close>, \<open>crt_idx_pic\<close> and
  \<open>crt_pic_test\<close> are called from nowhere.  \<open>tab_twice\<close> says what the completion is meant for.
\<close>

unbundle bit_operations_syntax

section \<open>The tables\<close>

record 'f cli_entry =
  mCmd :: string
  mFunPtr :: 'f
  mPara :: string
  mDesp :: string

text \<open>\<open>g_cmd_vect\<close> and \<open>g_enum_map\<close>; a \<open>std::map\<close> is its list of pairs in the order of its keys.\<close>

record 'f cli_tables =
  g_cmd_vect :: "'f cli_entry list"
  g_enum_map :: "(string \<times> int) list"

fun str_less :: "string \<Rightarrow> string \<Rightarrow> bool" where
  "str_less [] y \<longleftrightarrow> y \<noteq> []"
| "str_less (a # x) [] \<longleftrightarrow> False"
| "str_less (a # x) (b # y) \<longleftrightarrow> (of_char a :: nat) < of_char b \<or> a = b \<and> str_less x y"

fun map_store :: "string \<Rightarrow> int \<Rightarrow> (string \<times> int) list \<Rightarrow> (string \<times> int) list" where
  "map_store k v [] = [(k, v)]"
| "map_store k v ((k', v') # m) =
     (if str_less k k' then (k, v) # (k', v') # m
      else if k = k' then (k, v) # m
      else (k', v') # map_store k v m)"

definition reg_cmd :: "string \<Rightarrow> 'f \<Rightarrow> string \<Rightarrow> string \<Rightarrow> 'f cli_tables \<Rightarrow> 'f cli_tables" where
  "reg_cmd pName pCall pPara pDesp t =
     t\<lparr>g_cmd_vect := g_cmd_vect t @ [\<lparr>mCmd = pName, mFunPtr = pCall, mPara = pPara, mDesp = pDesp\<rparr>]\<rparr>"

definition reg_enum :: "string \<Rightarrow> int \<Rightarrow> 'f cli_tables \<Rightarrow> 'f cli_tables" where
  "reg_enum pName pVal t = t\<lparr>g_enum_map := map_store pName pVal (g_enum_map t)\<rparr>"

definition clearAll :: "'f cli_tables \<Rightarrow> 'f cli_tables" where
  "clearAll t = t\<lparr>g_cmd_vect := [], g_enum_map := []\<rparr>"

definition help_line :: "int \<Rightarrow> string \<Rightarrow> string \<Rightarrow> string \<Rightarrow> string" where
  "help_line n cmd para desp = decimal n @ ''. '' @ cmd @ '' '' @ para @ '' -- '' @ desp @ [CHR 0x0A]"

fun help_from :: "int \<Rightarrow> 'f cli_entry list \<Rightarrow> string" where
  "help_from n [] = help_line n ''quit'' [] ''close this app''"
| "help_from n (e # es) = help_line n (mCmd e) (mPara e) (mDesp e) @ help_from (n + 1) es"

definition help_text :: "'f cli_tables \<Rightarrow> string" where
  "help_text t = help_from 1 (g_cmd_vect t)"

text \<open>What \<open>main\<close> registers, in its order.\<close>

definition app_tables ::
  "iomem device \<Rightarrow> bool \<Rightarrow> bool \<Rightarrow> bool \<Rightarrow> (evsoc \<Rightarrow> evsoc) \<Rightarrow> int \<Rightarrow> command cli_tables" where
  "app_tables d opened mapped saved during junk =
     (let t = \<lparr>g_cmd_vect = [], g_enum_map = []\<rparr>;
          t = reg_cmd ''hwacc'' (set_hwacc d opened) ''[None|Erosion|Dilation]'' ''hardware accelerate'' t;
          t = reg_enum ''Dilation'' 2 (reg_enum ''Erosion'' 1 (reg_enum ''None'' 0 t));
          t = reg_cmd ''cappic'' (capture_view d opened mapped saved during) ''[file_name.jpg]'' ''capture video to file.'' t;
          t = reg_cmd ''capvideo'' (capture_video junk) ''[file_name][len]'' ''capture video to avi.'' t;
          t = reg_cmd ''binning'' (set_binning d opened) ''[X1Bin|X2Bin|X4Bin]'' ''set camera binning.'' t;
          t = reg_enum ''X4Bin'' 2 (reg_enum ''X2Bin'' 1 (reg_enum ''X1Bin'' 0 t));
          t = reg_cmd ''clrchar'' (clr_disp d opened) [] ''clear all the char.'' t;
          t = reg_cmd ''prtchar'' (prt_char d opened junk junk) ''[row][col][string][Green|Blue|White|Black]''
                ''print char to monitor.'' t
      in reg_enum ''Black'' 3 (reg_enum ''White'' 2 (reg_enum ''Blue'' 1 (reg_enum ''Green'' 0 t))))"

section \<open>Completion\<close>

text \<open>\<open>printf\<close> writes to the stream of \<open>posix_putch\<close>, without its translation of line ends.\<close>

definition cli_printf :: "string \<Rightarrow> cli \<Rightarrow> cli" where
  "cli_printf s c = c\<lparr>cli_out := cli_out c @ map (\<lambda>ch. (ch, False)) s\<rparr>"

definition MAT_NUM :: nat where "MAT_NUM = 63"
definition MAX_MAT_MUN :: nat where "MAX_MAT_MUN = 10"

text \<open>The loop over the line: the word being collected in \<open>lMatBuf\<close>, and \<open>lHasSp\<close>.\<close>

fun tab_word :: "string \<Rightarrow> string \<Rightarrow> bool \<Rightarrow> string \<times> bool" where
  "tab_word [] lMatBuf lHasSp = (lMatBuf, lHasSp)"
| "tab_word (ch # s) lMatBuf lHasSp =
     (if ch \<noteq> CHR '' '' then tab_word s (if length lMatBuf < MAT_NUM then lMatBuf @ [ch] else lMatBuf) lHasSp
      else tab_word s [] True)"

text \<open>The loop over the names of a table: \<open>lLMatStr\<close>, \<open>lMatNum\<close> and the editor.\<close>

fun tab_list :: "bool \<Rightarrow> string \<Rightarrow> string list \<Rightarrow> string \<Rightarrow> nat \<Rightarrow> cli \<Rightarrow> string \<times> nat \<times> cli" where
  "tab_list dup lMatBuf [] lLMatStr lMatNum c = (lLMatStr, lMatNum, c)"
| "tab_list dup lMatBuf (name # names) lLMatStr lMatNum c =
     (if length lMatBuf > length name \<or> take (length lMatBuf) name \<noteq> lMatBuf
      then tab_list dup lMatBuf names lLMatStr lMatNum c
      else let
        lLMatStr' = (if dup \<and> lMatNum = 0 then name else lLMatStr);
        c = (if dup \<and> lMatNum = 0 then c
             else cli_printf (CHR 0x0A # name) (if dup \<and> lMatNum = 1 then cli_printf (CHR 0x0A # lLMatStr) c else c))
      in if lMatNum + 1 > MAX_MAT_MUN then (lLMatStr', lMatNum + 1, c)
         else tab_list dup lMatBuf names lLMatStr' (lMatNum + 1) c)"

fun insert_default_chars :: "string \<Rightarrow> cli \<Rightarrow> cli option" where
  "insert_default_chars [] c = Some c"
| "insert_default_chars (ch # s) c = do { c \<leftarrow> embedded_cli_insert_default_char ch c; insert_default_chars s c }"

text \<open>What is done with the word: completing it or listing the names.\<close>

definition tab_show :: "string \<Rightarrow> string list \<Rightarrow> cli \<Rightarrow> (int \<times> cli) option" where
  "tab_show lMatBuf names c =
     (case tab_list (cli_dup_comp c) lMatBuf names [] 0 c of
        (lLMatStr, lMatNum, c) \<Rightarrow>
          if lMatNum = 0 then Some (1, c)
          else if lMatNum = 1 \<and> cli_dup_comp c then do {
            c \<leftarrow> insert_default_chars (drop (length lMatBuf) lLMatStr @ '' '') c;
            Some (1, c\<lparr>cli_dup_comp := False\<rparr>)
          } else do {
            c \<leftarrow> embedded_cli_prompt (cli_puts (MOVE_BOL @ CLEAR_EOL) (cli_printf [CHR 0x0A] c));
            s \<leftarrow> str_at 0 (cli_buffer c);
            Some (1, (cli_puts s c)\<lparr>cli_dup_comp := (lMatNum = 1)\<rparr>)
          })"

definition embedded_cli_tab :: "'f cli_tables \<Rightarrow> cli \<Rightarrow> (int \<times> cli) option" where
  "embedded_cli_tab t c =
     (if cli_len c = 0 then Some (1, c)
      else if cli_cursor c < 0 \<or> cli_cursor c \<ge> int (length (cli_buffer c)) then None
      else if cli_buffer c ! nat (cli_cursor c) = CHR '' '' then Some (1, c)
      else if cli_cursor c \<noteq> cli_len c then Some (0, c)
      else case tab_word (take (nat (cli_len c)) (cli_buffer c)) [] False of
        (w, lHasSp) \<Rightarrow>
          if cstr w = [] then Some (1, c)
          else tab_show (cstr w) (if lHasSp then map fst (g_enum_map t) else map mCmd (g_cmd_vect t)) c)"

section \<open>Reading a key\<close>

record termios =
  c_iflag :: u32
  c_oflag :: u32
  c_cflag :: u32
  c_lflag :: u32
  c_vmin :: u8
  c_vtime :: u8

text \<open>The input, output, local and control bits that \<open>getch\<close> clears, with the values of Linux.\<close>

definition raw_iflags :: u32 where
  "raw_iflags = 0x001 OR 0x002 OR 0x008 OR 0x020 OR 0x040 OR 0x080 OR 0x100 OR 0x400"
definition raw_oflags :: u32 where "raw_oflags = 0x001"
definition raw_lflags :: u32 where "raw_lflags = 0x0008 OR 0x0040 OR 0x0002 OR 0x0001 OR 0x8000"
definition raw_cflags :: u32 where "raw_cflags = 0x030 OR 0x100"
definition CS8 :: u32 where "CS8 = 0x030"

definition make_raw :: "termios \<Rightarrow> termios" where
  "make_raw t = t\<lparr>c_iflag := c_iflag t AND NOT raw_iflags, c_oflag := c_oflag t AND NOT raw_oflags,
     c_lflag := c_lflag t AND NOT raw_lflags, c_cflag := (c_cflag t AND NOT raw_cflags) OR CS8,
     c_vmin := 1, c_vtime := 0\<rparr>"

text \<open>
  \<open>getch\<close>: whether the settings can be read, changed and put back, and the key that a terminal with given
  settings delivers (\<open>None\<close>: reading fails).  The result is the key and the settings left behind.
\<close>

definition getch :: "bool \<Rightarrow> bool \<Rightarrow> bool \<Rightarrow> (termios \<Rightarrow> char option) \<Rightarrow> termios \<Rightarrow> char \<times> termios" where
  "getch got changed put_back key tty =
     (let old = (if got then tty else \<lparr>c_iflag = 0, c_oflag = 0, c_cflag = 0, c_lflag = 0, c_vmin = 0, c_vtime = 0\<rparr>);
          raw = make_raw old;
          tty = (if changed then raw else tty);
          buf = (case key tty of None \<Rightarrow> NUL | Some ch \<Rightarrow> ch)
      in (buf, if put_back then old else tty))"

definition intHandler :: "cli \<Rightarrow> cli option" where
  "intHandler c = map_option snd (embedded_cli_insert_char (CHR 0x03) c)"

section \<open>Pictures\<close>

definition crt_idx_pic :: "bool \<Rightarrow> int \<Rightarrow> nat \<Rightarrow> nat \<Rightarrow> (nat \<Rightarrow> u32) \<Rightarrow> string \<times> app_output list" where
  "crt_idx_pic saved pIdx pWi pHi pBuf =
     (let jpg_file_name = ''No_'' @ decimal pIdx @ ''_Part.jpg''
      in (jpg_file_name, snd (crt_pic saved jpg_file_name pWi pHi pBuf)))"

definition fill_mat_half :: "nat \<Rightarrow> nat \<Rightarrow> (nat \<Rightarrow> u32) \<Rightarrow> pixels" where
  "fill_mat_half rows cols lBuf =
     (let lBufC = cols * 2
      in map (\<lambda>i. map (\<lambda>j. fill_pixel (lBuf (i * 2 * lBufC + j * 2))) [0..<cols]) [0..<rows])"

text \<open>
  The measurement \<open>crt_pic_test\<close> without its clock: the two matrices it fills and what it encodes.
  \<open>resize\<close> and \<open>imencode\<close> are OpenCV's, \<open>None\<close> where they throw a \<open>runtime_error\<close>.
\<close>

definition crt_pic_test ::
  "(pixels \<Rightarrow> nat \<Rightarrow> nat \<Rightarrow> pixels option) \<Rightarrow> (string \<Rightarrow> pixels \<Rightarrow> 'b option) \<Rightarrow> nat \<Rightarrow> nat \<Rightarrow> (nat \<Rightarrow> u32) \<Rightarrow>
   int \<times> pixels list \<times> 'b list" where
  "crt_pic_test resize imencode pWi pHi pBuf =
     (let mat_1 = fill_mat pHi pWi pBuf;
          mat_h = fill_mat_half (pHi div 2) (pWi div 2) pBuf;
          mat = fill_mat pHi pWi pBuf
      in case resize mat 640 360 \<bind> imencode ''.bmp'' of
           None \<Rightarrow> (1, [mat_1, mat_h], [])
         | Some bmp \<Rightarrow>
             (case resize mat 640 480 \<bind> imencode ''.jpg'' of
                None \<Rightarrow> (1, [mat_1, mat_h], [bmp])
              | Some jpg \<Rightarrow> (0, [mat_1, mat_h], [bmp, jpg])))"

section \<open>The tables hold what the rest of the model uses\<close>

lemma str_less_irrefl [simp]: "\<not> str_less x x"
  by (induction x) auto

lemma str_less_trans: "str_less x y \<Longrightarrow> str_less y z \<Longrightarrow> str_less x z"
proof (induction x y arbitrary: z rule: str_less.induct)
  case (1 y)
  then show ?case by (cases z; cases y) auto
next
  case (3 a x b y)
  then show ?case by (cases z) auto
qed simp

lemma str_less_total: "str_less x y \<or> x = y \<or> str_less y x"
proof (induction x y rule: str_less.induct)
  case (3 a x b y)
  have "of_char a = (of_char b :: nat) \<Longrightarrow> a = b" by simp
  with 3 show ?case by (metis linorder_neqE_nat str_less.simps(3))
qed auto

definition in_order :: "(string \<times> int) list \<Rightarrow> bool" where
  "in_order m \<longleftrightarrow> sorted_wrt str_less (map fst m)"

lemma map_store_keys: "set (map fst (map_store k v m)) = insert k (set (map fst m))"
  by (induction m rule: map_store.induct) auto

lemma map_store_in_order: "in_order m \<Longrightarrow> in_order (map_store k v m)"
proof (induction m)
  case (Cons e m)
  obtain k' v' where e: "e = (k', v')" by (cases e)
  consider "str_less k k'" | "k = k'" | "str_less k' k" using str_less_total by blast
  then show ?case
  proof cases
    case 3
    then have "\<not> str_less k k'" "k \<noteq> k'" using str_less_trans [of k k' k] by auto
    moreover have "x \<in> set (map fst (map_store k v m)) \<Longrightarrow> str_less k' x" for x
      using 3 Cons.prems by (auto simp: map_store_keys in_order_def e simp del: set_map)
    ultimately show ?thesis using 3 Cons by (auto simp: in_order_def e)
  qed (use Cons.prems in \<open>auto simp: in_order_def e intro: str_less_trans\<close>)
qed (simp add: in_order_def)

lemma map_store_stores: "in_order m \<Longrightarrow> map_of (map_store k v m) = (map_of m)(k \<mapsto> v)"
proof (induction m)
  case (Cons e m)
  obtain k' v' where e: "e = (k', v')" by (cases e)
  consider "str_less k k'" | "k = k'" | "\<not> str_less k k'" "k \<noteq> k'" by blast
  then show ?case
  proof cases
    case 1
    then have "k \<noteq> k'" "k \<notin> fst ` set m"
      using Cons.prems str_less_trans [of k k' k] by (auto simp: in_order_def e)
    with 1 show ?thesis by (auto simp: e)
  next
    case 3
    with Cons show ?thesis by (auto simp: in_order_def e)
  qed (auto simp: e)
qed simp

text \<open>Registering keeps the map in order and makes exactly the name stand for the value.\<close>

lemma reg_enum_registers:
  assumes "in_order (g_enum_map t)"
  shows "in_order (g_enum_map (reg_enum k v t))" "map_of (g_enum_map (reg_enum k v t)) = (map_of (g_enum_map t))(k \<mapsto> v)"
  using assms by (simp_all add: reg_enum_def map_store_in_order map_store_stores)

lemma app_tables_commands:
  "map (\<lambda>e. (mCmd e, mFunPtr e)) (g_cmd_vect (app_tables d opened mapped saved during junk)) =
     app_commands d opened mapped saved during junk"
  by (simp add: app_tables_def reg_cmd_def reg_enum_def app_commands_def)

lemma app_tables_names:
  "map fst (g_enum_map (app_tables d opened mapped saved during junk)) =
     [''Black'', ''Blue'', ''Dilation'', ''Erosion'', ''Green'', ''None'', ''White'', ''X1Bin'', ''X2Bin'', ''X4Bin'']"
  by (simp add: app_tables_def reg_cmd_def reg_enum_def)

lemma app_tables_enums: "map_of (g_enum_map (app_tables d opened mapped saved during junk)) = get_enum"
  by (rule ext) (simp add: app_tables_def reg_cmd_def reg_enum_def get_enum_def app_enums_def)

section \<open>Completion\<close>

lemma cli_printf_sel [simp]:
  "cli_buffer (cli_printf s c) = cli_buffer c" "cli_len (cli_printf s c) = cli_len c"
  "cli_cursor (cli_printf s c) = cli_cursor c" "cli_searching (cli_printf s c) = cli_searching c"
  "cli_prompt (cli_printf s c) = cli_prompt c" "cli_dup_comp (cli_printf s c) = cli_dup_comp c"
  by (simp_all add: cli_printf_def)

lemma cli_printf_append: "cli_printf t (cli_printf s c) = cli_printf (s @ t) c"
  by (simp add: cli_printf_def)

lemma cli_printf_Nil [simp]: "cli_printf [] c = c"
  by (simp add: cli_printf_def)

text \<open>The word that is completed is what follows the last blank.\<close>

lemma tab_word_plain:
  "CHR '' '' \<notin> set w \<Longrightarrow> length b + length w \<le> 63 \<Longrightarrow> tab_word w b sp = (b @ w, sp)"
  by (induction w arbitrary: b) (auto simp: MAT_NUM_def)

lemma tab_word_blank: "tab_word (q @ CHR '' '' # w) b sp = tab_word w [] True"
  by (induction q arbitrary: b sp) auto

definition matching :: "string \<Rightarrow> string list \<Rightarrow> string list" where
  "matching w names = filter (\<lambda>n. take (length w) n = w) names"

lemma matching_Cons:
  "matching w (n # names) = (if length w > length n \<or> take (length w) n \<noteq> w then matching w names else n # matching w names)"
  by (auto simp: matching_def)

definition listed :: "string list \<Rightarrow> string" where
  "listed ns = concat (map (Cons (CHR 0x0A)) ns)"

text \<open>At most eleven matching names are counted; they are listed, but a single one is not the second time.\<close>

lemma tab_list_rest:
  assumes "k \<le> 10" "dup \<longrightarrow> k \<ge> 2"
  shows "tab_list dup w names s k c =
     (s, k + length (take (11 - k) (matching w names)), cli_printf (listed (take (11 - k) (matching w names))) c)"
  using assms
proof (induction names arbitrary: k c)
  case (Cons n names)
  show ?case
  proof (cases "length w > length n \<or> take (length w) n \<noteq> w \<or> k = 10")
    case True
    with Cons show ?thesis
      by (auto simp: matching_Cons MAX_MAT_MUN_def listed_def)
  next
    case False
    then have "k + 1 \<le> 10" "dup \<longrightarrow> k + 1 \<ge> 2" "11 - k = Suc (11 - (k + 1))" using Cons.prems by auto
    with Cons.IH [of "k + 1"] Cons.prems False show ?thesis
      by (auto simp: matching_Cons MAX_MAT_MUN_def listed_def cli_printf_append)
  qed
qed (simp add: matching_def listed_def)

lemma tab_list_none: "matching w names = [] \<Longrightarrow> tab_list dup w names s k c = (s, k, c)"
  by (induction names) (auto simp: matching_Cons split: if_splits)

lemma tab_list_one: "matching w names = [n] \<Longrightarrow> tab_list True w names s 0 c = (n, 1, c)"
proof (induction names)
  case Nil
  then show ?case by (simp add: matching_def)
qed (auto simp: matching_Cons MAX_MAT_MUN_def tab_list_none split: if_splits)

lemma tab_list_second:
  "matching w names = n' # ns \<Longrightarrow>
   tab_list True w names n 1 c = (n, 1 + length (take 10 (n' # ns)), cli_printf (listed (n # take 10 (n' # ns))) c)"
proof (induction names)
  case Nil
  then show ?case by (simp add: matching_def)
next
  case (Cons x names)
  then show ?case
    using tab_list_rest [of 2 True w names n "cli_printf (listed [n, n']) c"]
    by (auto simp: matching_Cons MAX_MAT_MUN_def listed_def cli_printf_append numeral_2_eq_2 split: if_splits)
qed

lemma tab_list_many:
  "matching w names = n # n' # ns \<Longrightarrow>
   tab_list True w names s 0 c = (n, length (take 11 (n # n' # ns)), cli_printf (listed (take 11 (n # n' # ns))) c)"
proof (induction names)
  case Nil
  then show ?case by (simp add: matching_def)
next
  case (Cons x names)
  then show ?case
    using tab_list_second [of w names n' ns n c]
    by (auto simp: matching_Cons MAX_MAT_MUN_def split: if_splits)
qed


lemma no_moves: "concat (map sent (movement code 0)) = []"
  by (simp add: movement.simps)

lemma insert_chars_edits:
  assumes "zipped l [] c" "length l + length s \<le> 119" "NUL \<notin> set s" "\<not> cli_searching c"
  shows "\<exists>c'. insert_default_chars s c = Some c' \<and> zipped (l @ s) [] c'"
  using assms
proof (induction s arbitrary: l c)
  case Nil
  then show ?case using stay_edits [OF Nil(1)] by (simp add: edits_to_def)
next
  case (Cons ch s)
  obtain c1 where c1: "embedded_cli_insert_default_char ch c = Some c1" "zipped (l @ [ch]) [] c1" "edited c (sent [ch]) c1"
    using insert_edits [of l "[]" c ch] Cons.prems by (auto simp: edits_to_def no_moves)
  obtain c2 where c2: "insert_default_chars s c1 = Some c2" "zipped ((l @ [ch]) @ s) [] c2"
    using Cons.IH [OF c1(2)] Cons.prems edited_sel(2) [OF c1(3)] by auto
  with c1 c2 show ?case by auto
qed

text \<open>What the tabulator does at the end of a line whose last word is \<open>w\<close>.\<close>

definition tab_names :: "'f cli_tables \<Rightarrow> string \<Rightarrow> string list" where
  "tab_names t p = (if p = [] then map mCmd (g_cmd_vect t) else map fst (g_enum_map t))"

definition word_start :: "string \<Rightarrow> bool" where
  "word_start p \<longleftrightarrow> p = [] \<or> (\<exists>q. p = q @ '' '')"

lemma tab_at_word:
  assumes "zipped (p @ w) [] c" "word_start p" "CHR '' '' \<notin> set w" "w \<noteq> []" "length w \<le> 63"
  shows "embedded_cli_tab t c = tab_show w (tab_names t p) c"
proof -
  obtain junk where b: "cli_buffer c = (p @ w) @ [] @ NUL # junk" "length (p @ w) + length junk = 119" "NUL \<notin> set (p @ w)"
      "cli_len c = int (length (p @ w))" "cli_cursor c = int (length (p @ w))"
    using assms(1) by (auto elim!: zippedE)
  have w: "tab_word (take (nat (cli_len c)) (cli_buffer c)) [] False = (w, p \<noteq> [])"
    using assms(2,3,5) tab_word_plain [of w "[]"]
    by (auto simp: b(1,4) word_start_def tab_word_blank)
  have n: "nat (int (length p) + int (length w)) = length p + length w" "int (length p) + int (length w) \<noteq> 0"
    using assms(4) by (simp_all flip: of_nat_add)
  have "cstr w = w" using b(3) by (simp add: cstr_no_NUL)
  then show ?thesis
    using assms(4) b(2) w n
    by (simp add: embedded_cli_tab_def b(4,5) tab_names_def b(1) nth_append)
qed

text \<open>
  Pressing it twice at the end of a word that only one name begins with: first the name is listed and
  the line written again, then the word is completed to the name and a blank.
\<close>

theorem tab_twice:
  assumes "zipped (p @ w) [] c" "\<not> cli_searching c" "\<not> cli_dup_comp c" "NUL \<in> set (cli_prompt c)"
    and "word_start p" "CHR '' '' \<notin> set w" "w \<noteq> []" "length w \<le> 63"
    and "matching w (tab_names t p) = [name]" "NUL \<notin> set name" "length p + length name < 119"
  obtains c' c'' where "embedded_cli_tab t c = Some (1, c')" "zipped (p @ w) [] c'"
    "cli_put_char c \<Longrightarrow> chars (cli_out c') =
       chars (cli_out c) @ CHR 0x0A # name @ CHR 0x0A # MOVE_BOL @ CLEAR_EOL @ chars (sent (prompt_text c)) @ chars (sent (p @ w))"
    "embedded_cli_tab t c' = Some (1, c'')" "zipped (p @ name @ '' '') [] c''" "\<not> cli_dup_comp c''"
proof -
  have n: "name = w @ drop (length w) name"
    using assms(9) by (auto simp: matching_def filter_eq_Cons_iff) (metis append_take_drop_id)
  have len: "length w \<le> length name" by (subst n) simp
  define c1 where "c1 = cli_printf [CHR 0x0A] (cli_printf (CHR 0x0A # name) c)"
  define es where "es = sent (MOVE_BOL @ CLEAR_EOL) @ sent (prompt_text c1) @ sent (p @ w)"
  define c' where "c' = (emit es c1)\<lparr>cli_dup_comp := True\<rparr>"
  have l: "tab_list False w (tab_names t p) [] 0 c = ([], 1, cli_printf (CHR 0x0A # name) c)"
    using tab_list_rest [of 0 False w "tab_names t p" "[]" c] assms(9) by (simp add: listed_def)
  have z1: "zipped (p @ w) [] c1" "NUL \<in> set (cli_prompt c1)" using assms(1,4) by (simp_all add: c1_def zipped_def)
  have first: "embedded_cli_tab t c = Some (1, c')"
    unfolding tab_at_word [OF assms(1,5-8)] tab_show_def assms(3) [THEN eq_False [THEN iffD2]] l
    using zipped_line [OF z1(1)] prompt_emit [of "emit (sent (MOVE_BOL @ CLEAR_EOL)) c1"] z1(2)
    by (simp add: assms(3) output_emit es_def c'_def prompt_text_def flip: c1_def)
  have z': "zipped (p @ w) [] c'" using z1(1) by (simp add: c'_def zipped_def)
  have out: "chars (cli_out c') =
       chars (cli_out c) @ CHR 0x0A # name @ CHR 0x0A # MOVE_BOL @ CLEAR_EOL @ chars (sent (prompt_text c)) @ chars (sent (p @ w))"
    if "cli_put_char c"
    using that chars_sent [of "MOVE_BOL @ CLEAR_EOL"]
    by (simp add: c'_def emit_def es_def c1_def cli_printf_def chars_def comp_def MOVE_BOL_def CLEAR_EOL_def prompt_text_def)
  have d: "cli_dup_comp c'" by (simp add: c'_def emit_def)
  obtain c2 where c2: "insert_default_chars (drop (length w) name @ '' '') c' = Some c2"
      "zipped ((p @ w) @ drop (length w) name @ '' '') [] c2"
    using insert_chars_edits [OF z', of "drop (length w) name @ '' ''"] assms(2,10,11) len
    by (auto simp: c'_def c1_def dest: in_set_dropD)
  have "embedded_cli_tab t c' = Some (1, c2\<lparr>cli_dup_comp := False\<rparr>)"
    using c2(1) by (simp add: tab_at_word [OF z' assms(5-8)] tab_show_def d tab_list_one [OF assms(9), unfolded One_nat_def])
  moreover have "zipped (p @ name @ '' '') [] (c2\<lparr>cli_dup_comp := False\<rparr>)"
    using c2(2) by (subst n) (simp add: zipped_cong [of "c2\<lparr>cli_dup_comp := False\<rparr>"])
  ultimately show ?thesis using that [OF first z'] out by simp
qed

text \<open>A completion with the names of \<open>main\<close>.\<close>

definition typed_hw :: cli where
  "typed_hw = (embedded_cli_init (Some ''> '') True)\<lparr>cli_buffer := ''hw'' @ replicate 118 NUL, cli_len := 2, cli_cursor := 2\<rparr>"

lemma tab_twice_hwacc:
  "\<exists>c' c''. embedded_cli_tab (app_tables d opened mapped saved during junk) typed_hw = Some (1, c') \<and>
     embedded_cli_tab (app_tables d opened mapped saved during junk) c' = Some (1, c'') \<and> zipped ''hwacc '' [] c''"
proof -
  let ?t = "app_tables d opened mapped saved during junk"
  have names: "map mCmd (g_cmd_vect ?t) = [''hwacc'', ''cappic'', ''capvideo'', ''binning'', ''clrchar'', ''prtchar'']"
    by (simp add: app_tables_def reg_cmd_def reg_enum_def)
  show ?thesis
    by (rule tab_twice [of "[]" "''hw''" typed_hw ?t "''hwacc''"])
      (auto simp: typed_hw_def embedded_cli_init_def embedded_cli_reset_line_def zipped_def word_start_def matching_def
        tab_names_def names strncpy_def EMBEDDED_CLI_MAX_PROMPT_LEN_def eval_nat_numeral)
qed

section \<open>Reading a key\<close>

text \<open>While the key is read the terminal neither echoes, collects lines nor makes signals, and it is put back afterwards.\<close>

lemma getch_reads_raw:
  assumes "getch True True True key tty = (ch, tty')"
  shows "tty' = tty" "ch = (case key (make_raw tty) of None \<Rightarrow> NUL | Some k \<Rightarrow> k)"
    "c_lflag (make_raw tty) AND raw_lflags = 0" "c_iflag (make_raw tty) AND raw_iflags = 0"
  using assms by (auto simp: getch_def make_raw_def bit_eq_iff bit_simps)

text \<open>When the settings cannot be read but can be written, the terminal is left with all of them zero.\<close>

lemma getch_clears:
  "snd (getch False changed True key tty) = \<lparr>c_iflag = 0, c_oflag = 0, c_cflag = 0, c_lflag = 0, c_vmin = 0, c_vtime = 0\<rparr>"
  by (simp add: getch_def Let_def)

text \<open>The handler of the interrupt signal leaves an editor that was between two keys so.\<close>

lemma intHandler_safe: "cli_ok UNIV c \<Longrightarrow> yields (intHandler c) (cli_ok UNIV)"
  using insert_char_safe [of UNIV c "CHR 0x03"] by (auto simp: intHandler_def yields_def)

section \<open>Pictures\<close>

lemma fill_mat_half_samples:
  assumes "i < rows" "j < cols"
  shows "fill_mat_half rows cols buf ! i ! j = fill_mat (2 * rows) (2 * cols) buf ! (2 * i) ! (2 * j)"
  using assms by (simp add: fill_mat_half_def fill_mat_def Let_def mult.commute mult.left_commute)

lemma crt_idx_pic_saves:
  "crt_idx_pic True n pWi pHi buf = (''No_'' @ decimal n @ ''_Part.jpg'',
     [PictureFile (''No_'' @ decimal n @ ''_Part.jpg'') (fill_mat pHi pWi buf)])"
proof -
  have "endsWith ((''No_'' @ decimal n @ ''_Part'') @ ''.jpg'') ''.jpg''" unfolding endsWith_iff by blast
  then show ?thesis by (simp add: crt_idx_pic_def crt_pic_def Let_def)
qed

end
