(* ===== verification/MgText.thy ===== *)
theory MgText
  imports CText "HOL-Library.Monad_Syntax"
begin

text \<open>
  The string functions of the web server library, package/evsoc_camera/src/mongoose.c: comparison without
  regard to case, search, the conversion of decimal and hexadecimal numbers and the glob match of \<open>mg_match\<close>, on
  the bytes of a \<open>struct mg_str\<close>.
\<close>

unbundle bit_operations_syntax

section \<open>Characters\<close>

abbreviation LF :: char where "LF \<equiv> CHR 0x0A"
abbreviation CR :: char where "CR \<equiv> CHR 0x0D"
abbreviation CRLF :: string where "CRLF \<equiv> [CR, LF]"

text \<open>\<open>isprint\<close>, \<open>isxdigit\<close> and \<open>tolower\<close> in the C locale, on bytes.\<close>

definition is_print :: "char \<Rightarrow> bool" where
  "is_print c \<longleftrightarrow> 32 \<le> (of_char c :: nat) \<and> (of_char c :: nat) \<le> 126"

definition is_xdigit :: "char \<Rightarrow> bool" where
  "is_xdigit c \<longleftrightarrow> (let n = of_char c :: nat in 48 \<le> n \<and> n \<le> 57 \<or> 65 \<le> n \<and> n \<le> 70 \<or> 97 \<le> n \<and> n \<le> 102)"

text \<open>\<open>strchr (d, c) != NULL\<close>: the terminating NUL of \<open>d\<close> is found too.\<close>

definition strchr_in :: "string \<Rightarrow> char \<Rightarrow> bool" where
  "strchr_in d c \<longleftrightarrow> c \<in> set d \<or> c = CHR 0x00"

section \<open>Strings, str.c\<close>

text \<open>
  A \<open>struct mg_str\<close> is the list of the characters it spans.  The comparisons read two strings
  that end with a NUL where their list ends.
\<close>

definition mg_lower :: "char \<Rightarrow> int" where
  "mg_lower c = (let n = of_char c in if 65 \<le> n \<and> n \<le> 90 then n + 32 else n)"

definition first_char :: "string \<Rightarrow> char" where
  "first_char s = (case s of [] \<Rightarrow> CHR 0x00 | c # r \<Rightarrow> c)"

fun mg_ncasecmp :: "string \<Rightarrow> string \<Rightarrow> nat \<Rightarrow> int" where
  "mg_ncasecmp s1 s2 0 = 0"
| "mg_ncasecmp s1 s2 (Suc len) =
     (let diff = mg_lower (first_char s1) - mg_lower (first_char s2) in
      if diff = 0 \<and> first_char s1 \<noteq> CHR 0x00 \<and> 0 < len then mg_ncasecmp (tl s1) (tl s2) len else diff)"

fun strncmp :: "string \<Rightarrow> string \<Rightarrow> nat \<Rightarrow> int" where
  "strncmp s1 s2 0 = 0"
| "strncmp s1 s2 (Suc n) =
     (let diff = of_char (first_char s1) - of_char (first_char s2) in
      if diff = 0 \<and> first_char s1 \<noteq> CHR 0x00 then strncmp (tl s1) (tl s2) n else diff)"

definition mg_vcmp :: "string \<Rightarrow> string \<Rightarrow> int" where
  "mg_vcmp s1 s2 =
     (let r = strncmp s1 s2 (min (length s1) (length s2)) in
      if r = 0 then int (length s1) - int (length s2) else r)"

definition mg_vcasecmp :: "string \<Rightarrow> string \<Rightarrow> int" where
  "mg_vcasecmp str1 str2 =
     (let r = mg_ncasecmp str1 str2 (min (length str1) (length str2)) in
      if r = 0 then int (length str1) - int (length str2) else r)"

text \<open>The offset of the first occurrence.\<close>

definition mg_strstr :: "string \<Rightarrow> string \<Rightarrow> nat option" where
  "mg_strstr haystack needle =
     (if length haystack < length needle then None
      else List.find (\<lambda>i. take (length needle) (drop i haystack) = needle)
             [0..<length haystack - length needle + 1])"

section \<open>Numbers and patterns, util.c\<close>

text \<open>
  \<open>mg_to64\<close> computes in \<open>int64_t\<close>; a step beyond its range is undefined in C and \<open>None\<close> here.
\<close>

definition int64_ok :: "int \<Rightarrow> bool" where
  "int64_ok i \<longleftrightarrow> - (2 ^ 63) \<le> i \<and> i < 2 ^ 63"

fun to64_digits :: "int \<Rightarrow> string \<Rightarrow> int option" where
  "to64_digits result [] = Some result"
| "to64_digits result (c # s) =
     (if is_digit c then
        (let result = result * 10 in
         if \<not> int64_ok result then None
         else let result = result + (of_char c - 48) in
           if \<not> int64_ok result then None else to64_digits result s)
      else Some result)"

definition mg_to64 :: "string \<Rightarrow> int option" where
  "mg_to64 str =
     (let s = dropWhile (\<lambda>c. c = CHR '' '' \<or> c = CHR 0x09) str;
          (neg, s) = (case s of c # r \<Rightarrow> if c = CHR ''-'' then (- 1, r) else (1, s) | [] \<Rightarrow> (1, s))
      in map_option (\<lambda>result. result * neg) (to64_digits 0 s))"

text \<open>
  \<open>mg_unhexn\<close> computes in \<open>unsigned long\<close> of \<open>W\<close> bits; a character that is no hexadecimal digit is
  subtracted from all the same and may turn on every high bit.
\<close>

definition unhex_digit :: "char \<Rightarrow> int" where
  "unhex_digit c =
     (let n = of_char c in
      if 48 \<le> n \<and> n \<le> 57 then n - 48 else if 65 \<le> n \<and> n \<le> 70 then n - 55 else n - 87)"

definition mg_unhexn :: "nat \<Rightarrow> string \<Rightarrow> nat" where
  "mg_unhexn W s =
     nat (foldl (\<lambda>v c. take_bit W (take_bit W (v * 16) OR unhex_digit c)) 0 s)"

text \<open>
  The matcher for patterns with ?, * and #.  The last two arguments are the saved positions; the
  loop may go back, so it runs on fuel and \<open>None\<close> is fuel exhausted.
\<close>

fun globmatch_loop :: "nat \<Rightarrow> string \<Rightarrow> string \<Rightarrow> nat \<Rightarrow> nat \<Rightarrow> nat \<Rightarrow> nat \<Rightarrow> bool option" where
  "globmatch_loop 0 s1 s2 i j ni nj = None"
| "globmatch_loop (Suc fuel) s1 s2 i j ni nj =
     (if i < length s1 \<or> j < length s2 then
        if i < length s1 \<and> j < length s2 \<and> (s1 ! i = CHR ''?'' \<or> s2 ! j = s1 ! i)
        then globmatch_loop fuel s1 s2 (i + 1) (j + 1) ni nj
        else if i < length s1 \<and> (s1 ! i = CHR ''*'' \<or> s1 ! i = CHR 0x23)
        then globmatch_loop fuel s1 s2 (i + 1) j i (j + 1)
        else if 0 < nj \<and> nj \<le> length s2 \<and> (s1 ! (i - 1) = CHR 0x23 \<or> s2 ! j \<noteq> CHR ''/'')
        then globmatch_loop fuel s1 s2 ni nj ni nj
        else Some False
      else Some True)"

text \<open>For a pattern without stars the length of the pattern is enough fuel.\<close>

definition mg_globmatch :: "nat \<Rightarrow> string \<Rightarrow> string \<Rightarrow> bool option" where
  "mg_globmatch fuel s1 s2 = globmatch_loop fuel s1 s2 0 0 0 0"

section \<open>Facts about the comparisons\<close>

lemma of_char_inj: "(of_char a - of_char b = (0 :: int)) = (a = b)"
  by (metis eq_iff_diff_eq_0 of_char_eq_iff)

lemma first_char_simps [simp]: "first_char [] = CHR 0x00" "first_char (c # s) = c"
  by (simp_all add: first_char_def)

lemma strncmp_eq_0:
  "CHR 0x00 \<notin> set t \<Longrightarrow> n \<le> length s \<Longrightarrow> n \<le> length t \<Longrightarrow> (strncmp s t n = 0) = (take n s = take n t)"
proof (induction s t n rule: strncmp.induct)
  case (2 s t n)
  from 2(3,4) obtain a s' b t' where s: "s = a # s'" and t: "t = b # t'"
    by (cases s; cases t) auto
  show ?case
  proof (cases "a = b")
    case True
    then show ?thesis using 2 by (auto simp: s t)
  next
    case False
    then show ?thesis by (simp add: s t Let_def of_char_inj)
  qed
qed simp

text \<open>\<open>mg_vcmp (s, t) == 0\<close> is equality for a C string \<open>t\<close>.\<close>

lemma mg_vcmp_eq: "CHR 0x00 \<notin> set t \<Longrightarrow> (mg_vcmp s t = 0) = (s = t)"
  using strncmp_eq_0 [of t "min (length s) (length t)" s] by (auto simp: mg_vcmp_def Let_def)

lemma mg_ncasecmp_self: "mg_ncasecmp (s @ r) (s @ q) (length s) = 0"
  by (induction s) (auto simp: Let_def)

lemma mg_vcasecmp_self [simp]: "mg_vcasecmp s s = 0"
  using mg_ncasecmp_self [of s "[]" "[]"] by (simp add: mg_vcasecmp_def)

text \<open>A pattern of ordinary characters matches itself only.\<close>

definition literal :: "string \<Rightarrow> bool" where
  "literal s \<longleftrightarrow> set s \<inter> {CHR ''?'', CHR ''*'', CHR 0x23} = {}"

lemma literal_nth: "literal s \<Longrightarrow> i < length s \<Longrightarrow> s ! i \<notin> {CHR ''?'', CHR ''*'', CHR 0x23}"
  unfolding literal_def by (drule nth_mem) blast

lemma globmatch_literal_loop:
  assumes "literal s1" "length s1 < fuel + i" "take i s1 = take i s2" "i \<le> length s1" "i \<le> length s2"
  shows "globmatch_loop fuel s1 s2 i i 0 0 = Some (s1 = s2)"
  using assms
proof (induction fuel arbitrary: i)
  case 0
  then show ?case by simp
next
  case (Suc fuel)
  consider "i < length s1" "i < length s2" "s1 ! i = s2 ! i" | "i < length s1" "i < length s2" "s1 ! i \<noteq> s2 ! i"
    | "i = length s1" "i < length s2" | "i = length s2" "i < length s1" | "i = length s1" "i = length s2"
    using Suc.prems(4,5) by linarith
  then show ?case
  proof cases
    case 1
    then have "take (Suc i) s1 = take (Suc i) s2" using Suc.prems(3) by (simp add: take_Suc_conv_app_nth)
    from Suc.IH [OF Suc.prems(1) _ this] 1 Suc.prems(2) show ?thesis by simp
  next
    case 2
    with literal_nth [OF Suc.prems(1) 2(1)] show ?thesis by auto
  next
    case 3
    then show ?thesis by auto
  next
    case 4
    with literal_nth [OF Suc.prems(1) 4(2)] show ?thesis by auto
  next
    case 5
    with Suc.prems(3) show ?thesis by simp
  qed
qed

lemma mg_globmatch_literal:
  "literal glob \<Longrightarrow> mg_globmatch (length glob + 1) glob s = Some (glob = s)"
  unfolding mg_globmatch_def by (rule globmatch_literal_loop) simp_all

end
