(* ===== verification/MgHttp.thy ===== *)
theory MgHttp
  imports MgText
begin

text \<open>
  HTTP messages in the web server library (package/evsoc_camera/src/mongoose.c, mongoose.h): where a request
  ends, its method, path, query, protocol and header fields, the length of its body, and the text of replies;
  and that the text of any request is read back as that request.
\<close>

unbundle bit_operations_syntax

section \<open>The end of the header\<close>

text \<open>A byte the loop refuses, and the positions where it ends.\<close>

definition bad_byte :: "char \<Rightarrow> bool" where
  "bad_byte c \<longleftrightarrow> \<not> is_print c \<and> c \<noteq> CR \<and> c \<noteq> LF \<and> (of_char c :: nat) < 128"

definition head_end :: "string \<Rightarrow> nat \<Rightarrow> bool" where
  "head_end buf i \<longleftrightarrow> (0 < i \<and> buf ! i = LF \<and> buf ! (i - 1) = LF) \<or>
     (3 < i \<and> buf ! i = LF \<and> buf ! (i - 1) = CR \<and> buf ! (i - 2) = LF)"

function request_len_from :: "string \<Rightarrow> nat \<Rightarrow> int" where
  "request_len_from buf i =
     (if i < length buf then
        if bad_byte (buf ! i) then - 1
        else if head_end buf i then int i + 1
        else request_len_from buf (i + 1)
      else 0)"
  by pat_completeness auto
termination by (relation "measure (\<lambda>(buf, i). length buf - i)") auto

declare request_len_from.simps [simp del]

definition mg_http_get_request_len :: "string \<Rightarrow> int" where
  "mg_http_get_request_len buf = request_len_from buf 0"

section \<open>The request line and the headers\<close>

text \<open>
  \<open>skip (s, e, d, v)\<close>: what \<open>v\<close> spans, and the text left up to \<open>e\<close>.
\<close>

definition skip :: "string \<Rightarrow> string \<Rightarrow> string \<times> string" where
  "skip s d =
     (let v = takeWhile (\<lambda>c. c \<noteq> LF \<and> \<not> strchr_in d c) s;
          s = dropWhile (\<lambda>c. c \<noteq> LF \<and> \<not> strchr_in d c) s
      in (v, dropWhile (strchr_in d) s))"

type_synonym http_header = "string \<times> string"

definition MG_MAX_HTTP_HEADERS :: nat where "MG_MAX_HTTP_HEADERS = 40"

record http_message =
  hm_method :: string
  hm_uri :: string
  hm_query :: string
  hm_proto :: string
  hm_headers :: "http_header list"
  hm_head :: nat
  hm_body_len :: nat
  hm_message_len :: nat

definition mg_http_get_header :: "http_header list \<Rightarrow> string \<Rightarrow> string option" where
  "mg_http_get_header hs name =
     map_option snd (List.find (\<lambda>(k, v). length name = length k \<and> mg_ncasecmp k name (length name) = 0)
       (takeWhile (\<lambda>(k, v). k \<noteq> []) (take MG_MAX_HTTP_HEADERS hs)))"

definition trim_right :: "string \<Rightarrow> string" where
  "trim_right v = rev (dropWhile (\<lambda>c. c = CHR '' '') (rev v))"

text \<open>
  The header array starts zeroed.  A line without a colon leaves its entry zeroed and goes on; an
  entry without a name ends the loop.
\<close>

fun mg_http_parse_headers :: "nat \<Rightarrow> string \<Rightarrow> http_header list" where
  "mg_http_parse_headers 0 s = []"
| "mg_http_parse_headers (Suc m) s =
     (let (tmp, he) = skip s [LF];
          line = take (length s - length he) s;
          (k, s1) = skip line ('': '' @ CRLF);
          (v, s2) = skip s1 CRLF
      in if length k = length tmp then ([], []) # mg_http_parse_headers m (s2 @ he)
         else if k = [] then replicate (Suc m) ([], [])
         else (k, trim_right v) # mg_http_parse_headers m (s2 @ he))"

definition empty_message :: http_message where
  "empty_message = \<lparr>hm_method = [], hm_uri = [], hm_query = [], hm_proto = [],
     hm_headers = replicate MG_MAX_HTTP_HEADERS ([], []), hm_head = 0, hm_body_len = 0, hm_message_len = 0\<rparr>"

text \<open>
  Lengths are \<open>size_t\<close> of \<open>W\<close> bits; the infinite length is \<open>(size_t) ~0\<close>.  The message is given
  back with the result; after a refused request line no caller reads it.  \<open>None\<close> is a content length
  \<open>mg_to64\<close> is undefined on.
\<close>

definition parse_lengths :: "nat \<Rightarrow> nat \<Rightarrow> http_header list \<Rightarrow> (nat \<times> nat) option" where
  "parse_lengths W req_len hs =
     (case mg_http_get_header hs ''Content-Length'' of
        None \<Rightarrow> Some (2 ^ W - 1, 2 ^ W - 1)
      | Some cl \<Rightarrow> map_option (\<lambda>v. let body = nat (v mod 2 ^ W) in (body, (req_len + body) mod 2 ^ W)) (mg_to64 cl))"

definition mg_http_parse_head :: "nat \<Rightarrow> string \<Rightarrow> (int \<times> http_message) option" where
  "mg_http_parse_head W head =
     (let (method, s) = skip head '' ''; (uri, s) = skip s '' ''; (proto, s) = skip s CRLF in
      if method = [] \<or> uri = [] \<or> proto = [] then Some (- 1, empty_message)
      else
        let query = tl (dropWhile (\<lambda>c. c \<noteq> CHR ''?'') uri);
            uri = takeWhile (\<lambda>c. c \<noteq> CHR ''?'') uri;
            headers = mg_http_parse_headers MG_MAX_HTTP_HEADERS s;
            req_len = length head
        in case parse_lengths W req_len headers of
             None \<Rightarrow> None
           | Some (body, message) \<Rightarrow>
               let infinite = 2 ^ W - 1;
                   is_response = (mg_ncasecmp head ''HTTP/'' 5 = 0);
                   (body, message) =
                     (if body = infinite \<and> \<not> is_response \<and> mg_vcasecmp method ''PUT'' \<noteq> 0 \<and> mg_vcasecmp method ''POST'' \<noteq> 0
                      then (0, req_len) else (body, message));
                   (body, message) =
                     (if body = infinite \<and> is_response \<and> mg_vcasecmp uri ''204'' = 0 then (0, req_len) else (body, message))
               in Some (int req_len, \<lparr>hm_method = method, hm_uri = uri, hm_query = query, hm_proto = proto,
                    hm_headers = headers, hm_head = req_len, hm_body_len = body, hm_message_len = message\<rparr>))"

text \<open>The parser reads nothing behind the header.\<close>

definition mg_http_parse :: "nat \<Rightarrow> string \<Rightarrow> (int \<times> http_message) option" where
  "mg_http_parse W s =
     (let req_len = mg_http_get_request_len s in
      if req_len \<le> 0 then Some (req_len, empty_message)
      else mg_http_parse_head W (take (nat req_len) s))"

section \<open>More bytes do not change what was parsed\<close>

lemma head_end_append: "i < length buf \<Longrightarrow> head_end (buf @ r) i = head_end buf i"
  by (auto simp: head_end_def nth_append)

lemma request_len_from_append:
  "i \<le> length buf \<Longrightarrow> request_len_from (buf @ r) i =
    (if request_len_from buf i = 0 then request_len_from (buf @ r) (length buf) else request_len_from buf i)"
proof (induction buf i rule: request_len_from.induct)
  case (1 buf i)
  show ?case
  proof (cases "i < length buf")
    case True
    have app: "request_len_from (buf @ r) i =
        (if bad_byte (buf ! i) then - 1 else if head_end buf i then int i + 1 else request_len_from (buf @ r) (i + 1))"
      using True by (subst request_len_from.simps) (simp add: nth_append head_end_append)
    have here: "request_len_from buf i =
        (if bad_byte (buf ! i) then - 1 else if head_end buf i then int i + 1 else request_len_from buf (i + 1))"
      using True by (subst request_len_from.simps) simp
    show ?thesis
    proof (cases "bad_byte (buf ! i) \<or> head_end buf i")
      case True
      with app here show ?thesis by auto
    next
      case False
      with 1(1) [OF True] True app here show ?thesis by simp
    qed
  next
    case False
    with 1(2) show ?thesis by (simp add: request_len_from.simps [of buf])
  qed
qed

lemma request_len_append:
  "mg_http_get_request_len buf \<noteq> 0 \<Longrightarrow> mg_http_get_request_len (buf @ r) = mg_http_get_request_len buf"
  by (simp add: mg_http_get_request_len_def request_len_from_append)

lemma request_len_from_bound: "request_len_from buf i \<le> int (length buf)"
  by (induction buf i rule: request_len_from.induct) (subst request_len_from.simps, auto)

lemma request_len_bound: "mg_http_get_request_len buf \<le> int (length buf)"
  by (simp add: mg_http_get_request_len_def request_len_from_bound)

lemma mg_http_parse_append:
  assumes "mg_http_get_request_len buf \<noteq> 0"
  shows "mg_http_parse W (buf @ r) = mg_http_parse W buf"
proof -
  have "nat (mg_http_get_request_len buf) \<le> length buf" using request_len_bound [of buf] by linarith
  then show ?thesis by (simp add: mg_http_parse_def request_len_append [OF assms] Let_def)
qed

text \<open>What a parsed head says about itself.\<close>

lemma parse_head_SomeD:
  "mg_http_parse_head W head = Some (n, hm) \<Longrightarrow> n = - 1 \<or> n = int (length head) \<and> hm_head hm = length head"
  by (auto simp: mg_http_parse_head_def Let_def split: prod.splits option.splits if_split_asm)

lemma parse_SomeD:
  assumes "mg_http_parse W buf = Some (n, hm)" "0 < mg_http_get_request_len buf"
  shows "n = - 1 \<or> n = mg_http_get_request_len buf \<and> hm_head hm = nat n \<and> hm_head hm \<le> length buf"
proof -
  let ?n = "nat (mg_http_get_request_len buf)"
  have "mg_http_parse_head W (take ?n buf) = Some (n, hm)" using assms by (simp add: mg_http_parse_def)
  moreover have "length (take ?n buf) = ?n" using request_len_bound [of buf] by simp
  ultimately show ?thesis using parse_head_SomeD [of W "take ?n buf" n hm] assms(2) by auto
qed

lemma parse_nonpos: "mg_http_get_request_len buf \<le> 0 \<Longrightarrow> mg_http_parse W buf = Some (mg_http_get_request_len buf, empty_message)"
  by (simp add: mg_http_parse_def)

text \<open>Nothing is consumed exactly while the end of the header has not been seen.\<close>

lemma parse_0_iff: "mg_http_parse W buf = Some (0, hm) \<longleftrightarrow> mg_http_get_request_len buf = 0 \<and> hm = empty_message"
proof (cases "0 < mg_http_get_request_len buf")
  case True
  with parse_SomeD [of W buf 0 hm] show ?thesis by auto
next
  case False
  then show ?thesis by (auto simp: parse_nonpos)
qed

lemma parse_0: "mg_http_get_request_len buf = 0 \<Longrightarrow> mg_http_parse W buf = Some (0, empty_message)"
  by (simp add: parse_0_iff)

section \<open>Requests as a client writes them\<close>

definition header_text :: "http_header list \<Rightarrow> string" where
  "header_text hs = concat (map (\<lambda>(k, v). k @ '': '' @ v @ CRLF) hs)"

definition head_text :: "string \<Rightarrow> string \<Rightarrow> string \<Rightarrow> http_header list \<Rightarrow> string" where
  "head_text a b c hs = a @ '' '' @ b @ '' '' @ c @ CRLF @ header_text hs @ CRLF"

definition request_text :: "string \<Rightarrow> string \<Rightarrow> http_header list \<Rightarrow> string \<Rightarrow> string" where
  "request_text meth uri hs body = head_text meth uri ''HTTP/1.1'' hs @ body"

text \<open>Words of the request line, and headers with a name and a trimmed value.\<close>

definition printable_text :: "string \<Rightarrow> bool" where
  "printable_text s \<longleftrightarrow> (\<forall>c \<in> set s. is_print c)"

definition token :: "string \<Rightarrow> bool" where
  "token s \<longleftrightarrow> s \<noteq> [] \<and> printable_text s \<and> CHR '' '' \<notin> set s"

definition header_ok :: "http_header \<Rightarrow> bool" where
  "header_ok h \<longleftrightarrow> (case h of (k, v) \<Rightarrow> token k \<and> CHR '':'' \<notin> set k \<and> printable_text v \<and>
     (v \<noteq> [] \<longrightarrow> hd v \<noteq> CHR '' '' \<and> hd v \<noteq> CHR '':'' \<and> last v \<noteq> CHR '' ''))"

definition headers_ok :: "http_header list \<Rightarrow> bool" where
  "headers_ok hs \<longleftrightarrow> (\<forall>h \<in> set hs. header_ok h) \<and> length hs \<le> MG_MAX_HTTP_HEADERS"

lemma is_print_simps [simp]:
  "\<not> is_print LF" "\<not> is_print CR" "\<not> is_print CHR 0x00" "is_print CHR '' ''" "is_print CHR '':''" "is_print CHR ''/''"
  by (simp_all add: is_print_def)

lemma printable_noteq: "is_print c \<Longrightarrow> c \<noteq> LF \<and> c \<noteq> CR \<and> c \<noteq> CHR 0x00"
  by auto

lemma printable_text_simps [simp]: "printable_text []" "printable_text (c # s) = (is_print c \<and> printable_text s)"
  "printable_text (s @ t) = (printable_text s \<and> printable_text t)"
  by (auto simp: printable_text_def)

section \<open>The length of the head\<close>

definition quiet :: "string \<Rightarrow> nat \<Rightarrow> bool" where
  "quiet buf i \<longleftrightarrow> \<not> bad_byte (buf ! i) \<and> \<not> head_end buf i"

lemma request_len_quiet:
  "i \<le> j \<Longrightarrow> j \<le> length buf \<Longrightarrow> (\<And>k. i \<le> k \<Longrightarrow> k < j \<Longrightarrow> quiet buf k) \<Longrightarrow>
    request_len_from buf i = request_len_from buf j"
proof (induction "j - i" arbitrary: i)
  case (Suc d)
  then have "quiet buf i" "i < length buf" by simp_all
  then have "request_len_from buf i = request_len_from buf (i + 1)"
    by (subst request_len_from.simps) (simp add: quiet_def)
  with Suc show ?case by simp
qed simp

lemma quiet_append: "i < length buf \<Longrightarrow> quiet (buf @ r) i = quiet buf i"
  by (simp add: quiet_def head_end_append nth_append)

lemma quiet_printable: "is_print (buf ! i) \<Longrightarrow> quiet buf i"
  by (auto simp: quiet_def bad_byte_def head_end_def)

definition head_lines :: "string \<Rightarrow> bool" where
  "head_lines pre \<longleftrightarrow> (\<forall>k < length pre. quiet pre k) \<and> (\<exists>q x. pre = q @ x # CRLF)"

lemma line_quiet:
  assumes "\<forall>k < length pre. quiet pre k" "printable_text l" "l \<noteq> []"
  shows "head_lines (pre @ l @ CRLF)"
proof -
  have l: "l = butlast l @ [last l]" using assms(3) by simp
  have last: "is_print (last l)" using assms(2,3) by (simp add: printable_text_def)
  have "quiet (pre @ l @ CRLF) k" if "k < length (pre @ l @ CRLF)" for k
  proof -
    from that consider "k < length pre" | "length pre \<le> k" "k < length pre + length l" | "k = length pre + length l"
      | "k = Suc (length pre + length l)"
      by (simp, linarith)
    then show ?thesis
    proof cases
      case 1
      then show ?thesis using assms(1) by (simp add: quiet_append)
    next
      case 2
      then have "is_print ((pre @ l @ CRLF) ! k)" using assms(2) by (auto simp: nth_append printable_text_def)
      then show ?thesis by (rule quiet_printable)
    next
      case 3
      then show ?thesis by (auto simp: quiet_def bad_byte_def head_end_def nth_append)
    next
      case 4
      obtain m where m: "length l = Suc m" using assms(3) by (cases l) auto
      then have "(pre @ l @ CRLF) ! (k - 2) = last l" using 4 assms(3) by (simp add: nth_append last_conv_nth)
      with 4 last show ?thesis by (auto simp: quiet_def bad_byte_def head_end_def nth_append)
    qed
  qed
  moreover have "pre @ l @ CRLF = (pre @ butlast l) @ last l # CRLF" using l by simp
  ultimately show ?thesis unfolding head_lines_def by blast
qed

lemma header_text_lines:
  "head_lines pre \<Longrightarrow> \<forall>h \<in> set hs. header_ok h \<Longrightarrow> head_lines (pre @ header_text hs)"
proof (induction hs arbitrary: pre)
  case Nil
  then show ?case by (simp add: header_text_def)
next
  case (Cons h hs)
  obtain k v where h: "h = (k, v)" by (cases h)
  then have l: "printable_text (k @ '': '' @ v)" using Cons.prems(2) by (simp add: header_ok_def token_def)
  have "head_lines (pre @ (k @ '': '' @ v) @ CRLF)"
    by (rule line_quiet [OF _ l]) (use Cons.prems(1) in \<open>auto simp: head_lines_def\<close>)
  from Cons.IH [OF this] Cons.prems(2) show ?case by (simp add: header_text_def h)
qed

lemma head_lines_end:
  assumes "head_lines pre"
  shows "mg_http_get_request_len (pre @ CRLF @ body) = int (length pre) + 2"
proof -
  let ?buf = "pre @ CRLF @ body"
  obtain q x where pre: "pre = q @ x # CRLF" using assms by (auto simp: head_lines_def)
  have "quiet ?buf k" if "k < length pre + 1" for k
  proof (cases "k < length pre")
    case True
    then show ?thesis using assms by (simp add: head_lines_def quiet_append)
  next
    case False
    with that have "k = length pre" by simp
    then show ?thesis by (auto simp: quiet_def bad_byte_def head_end_def nth_append)
  qed
  then have "request_len_from ?buf 0 = request_len_from ?buf (length pre + 1)" by (intro request_len_quiet) simp_all
  also have "\<dots> = int (length pre) + 2"
  proof -
    have "head_end ?buf (length pre + 1)" by (simp add: head_end_def nth_append pre)
    moreover have "\<not> bad_byte (?buf ! (length pre + 1))" by (simp add: bad_byte_def nth_append)
    ultimately show ?thesis by (subst request_len_from.simps) simp
  qed
  finally show ?thesis by (simp add: mg_http_get_request_len_def)
qed

lemma head_text_len:
  assumes "token a" "token b" "token c" "headers_ok hs"
  shows "mg_http_get_request_len (head_text a b c hs @ body) = int (length (head_text a b c hs))"
proof -
  have "head_lines ([] @ (a @ '' '' @ b @ '' '' @ c) @ CRLF)"
    by (rule line_quiet) (use assms in \<open>simp_all add: token_def\<close>)
  then have "head_lines (([] @ (a @ '' '' @ b @ '' '' @ c) @ CRLF) @ header_text hs)"
    using assms(4) by (intro header_text_lines) (simp_all add: headers_ok_def)
  from head_lines_end [OF this, of body] show ?thesis by (simp add: head_text_def)
qed

section \<open>Reading back what was written\<close>

lemma strchr_in_simps [simp]: "strchr_in [] c = (c = CHR 0x00)" "strchr_in (d # ds) c = (c = d \<or> strchr_in ds c)"
  by (auto simp: strchr_in_def)

lemma skip_word:
  assumes "\<forall>c \<in> set v. c \<noteq> LF \<and> \<not> strchr_in d c" "x = LF \<or> strchr_in d x"
  shows "skip (v @ x # s) d = (v, dropWhile (strchr_in d) (x # s))"
proof -
  have "takeWhile (\<lambda>c. c \<noteq> LF \<and> \<not> strchr_in d c) (v @ x # s) = v"
    "dropWhile (\<lambda>c. c \<noteq> LF \<and> \<not> strchr_in d c) (v @ x # s) = x # s"
    using assms by ((subst takeWhile_append2; auto), (subst dropWhile_append2; auto))
  then show ?thesis by (simp add: skip_def)
qed

lemma skip_all: "\<forall>c \<in> set v. c \<noteq> LF \<and> \<not> strchr_in d c \<Longrightarrow> skip v d = (v, [])"
  by (simp add: skip_def takeWhile_eq_all_conv [THEN iffD2] dropWhile_eq_Nil_conv [THEN iffD2])

lemma printable_chars: "printable_text s \<Longrightarrow> c \<in> set s \<Longrightarrow> c \<noteq> LF \<and> c \<noteq> CR \<and> c \<noteq> CHR 0x00"
  using printable_noteq by (auto simp: printable_text_def)

lemma token_hd: "token s \<Longrightarrow> s \<noteq> [] \<and> hd s \<noteq> CHR '' '' \<and> hd s \<noteq> CR \<and> hd s \<noteq> LF \<and> hd s \<noteq> CHR 0x00"
  using printable_chars [of s "hd s"] by (cases s) (auto simp: token_def)

lemma dropWhile_hd: "s = [] \<or> \<not> P (hd s) \<Longrightarrow> dropWhile P s = s"
  by (cases s) auto

lemma header_text_hd: "\<forall>h \<in> set hs. header_ok h \<Longrightarrow> \<exists>c r. header_text hs @ CRLF @ s = c # r \<and> c \<noteq> LF \<and> c \<noteq> CHR 0x00"
proof (cases hs)
  case (Cons h hs')
  assume "\<forall>h \<in> set hs. header_ok h"
  with Cons obtain k v where "h = (k, v)" "token k" by (cases h) (auto simp: header_ok_def)
  with token_hd [of k] Cons show ?thesis by (cases k) (auto simp: header_text_def)
qed (simp add: header_text_def)

lemma trim_right_same: "v = [] \<or> last v \<noteq> CHR '' '' \<Longrightarrow> trim_right v = v"
  by (auto simp: trim_right_def dropWhile_hd hd_rev)

lemma take_front: "take (length (xs @ ys) - length ys) (xs @ ys) = xs"
  by simp

lemma parse_headers_text:
  "\<forall>h \<in> set hs. header_ok h \<Longrightarrow> length hs \<le> m \<Longrightarrow>
    mg_http_parse_headers m (header_text hs @ CRLF) = hs @ replicate (m - length hs) ([], [])"
proof (induction hs arbitrary: m)
  case Nil
  have "skip CRLF [LF] = ([CR], [])" "skip CRLF ('': '' @ CRLF) = ([], [])" "skip [] CRLF = ([], [])"
    by (simp_all add: skip_def)
  then show ?case by (cases m) (simp_all add: header_text_def)
next
  case (Cons h hs)
  obtain k v where h: "h = (k, v)" by (cases h)
  obtain m' where m: "m = Suc m'" using Cons.prems(2) by (cases m) auto
  have k: "token k" "CHR '':'' \<notin> set k" and v: "printable_text v" "v \<noteq> [] \<longrightarrow> hd v \<noteq> CHR '' '' \<and> hd v \<noteq> CHR '':'' \<and> last v \<noteq> CHR '' ''"
    using Cons.prems(1) by (auto simp: h header_ok_def)
  let ?line = "k @ '': '' @ v @ CRLF" and ?rest = "header_text hs @ CRLF"
  obtain c r where cr: "?rest = c # r" "c \<noteq> LF" "c \<noteq> CHR 0x00"
    using header_text_hd [of hs "[]"] Cons.prems(1) by auto
  have kv: "\<forall>c \<in> set k. c \<noteq> LF \<and> c \<noteq> CR \<and> c \<noteq> CHR 0x00 \<and> c \<noteq> CHR '' '' \<and> c \<noteq> CHR '':''"
      "\<forall>c \<in> set v. c \<noteq> LF \<and> c \<noteq> CR \<and> c \<noteq> CHR 0x00"
    using k v(1) printable_chars by (auto simp: token_def)
  have tmp: "skip (?line @ ?rest) [LF] = (k @ '': '' @ v @ [CR], ?rest)"
    using skip_word [of "k @ '': '' @ v @ [CR]" "[LF]" LF ?rest] kv cr by auto
  have name: "skip ?line ('': '' @ CRLF) = (k, if v = [] then [] else v @ CRLF)"
    using skip_word [of k "'': '' @ CRLF" "CHR '':''" "CHR '' '' # v @ CRLF"] kv v(2)
    by (auto simp: dropWhile_hd)
  have val: "skip (if v = [] then [] else v @ CRLF) CRLF = (v, [])"
    using skip_word [of v CRLF CR "[LF]"] kv by (auto simp: skip_def)
  have line: "take (length (?line @ ?rest) - length ?rest) (?line @ ?rest) = ?line" by (rule take_front)
  have "mg_http_parse_headers m (?line @ ?rest) = (k, v) # mg_http_parse_headers m' ?rest"
    using token_hd [OF k(1)] trim_right_same [of v] v(2)
    unfolding m mg_http_parse_headers.simps tmp line prod.case Let_def name val by auto
  then show ?case using Cons.IH [of m'] Cons.prems by (simp add: h header_text_def m)
qed

lemma get_header_padded:
  assumes "headers_ok hs"
  shows "mg_http_get_header (hs @ replicate k ([], [])) name = mg_http_get_header hs name"
proof -
  have n: "\<forall>h \<in> set hs. (case h of (k, v) \<Rightarrow> k \<noteq> [])" "length hs \<le> MG_MAX_HTTP_HEADERS"
    using assms by (auto simp: headers_ok_def header_ok_def token_def)
  have "takeWhile (\<lambda>(k, v). k \<noteq> []) (hs @ replicate j ([], [])) = hs" for j
    using n(1) by (cases j) (auto simp: takeWhile_append takeWhile_eq_all_conv)
  note names = this [of "min (MG_MAX_HTTP_HEADERS - length hs) k"] this [of 0, unfolded replicate_0 append_Nil2]
  have "take MG_MAX_HTTP_HEADERS (hs @ replicate k ([], [])) = hs @ replicate (min (MG_MAX_HTTP_HEADERS - length hs) k) ([], [])"
    "take MG_MAX_HTTP_HEADERS hs = hs"
    using n(2) by (simp_all add: take_replicate)
  then show ?thesis using names by (simp only: mg_http_get_header_def)
qed

section \<open>Content lengths\<close>

lemma digit_char_int: "d < 10 \<Longrightarrow> of_char (char_of (48 + d :: nat)) = (48 + int d :: int)"
  using digit_char(2) [of d] by (metis of_nat_add of_nat_numeral of_nat_of_char)

lemma to64_digits_step:
  "is_digit c \<Longrightarrow> of_char c = 48 + d \<Longrightarrow> 0 \<le> r \<Longrightarrow> 0 \<le> d \<Longrightarrow> r * 10 + d < 2 ^ 63 \<Longrightarrow>
    to64_digits r (c # s) = to64_digits (r * 10 + d) s"
  by (simp add: int64_ok_def)

lemma to64_digits_digits:
  "int (a * 10 ^ length (digits n) + n) < 2 ^ 63 \<Longrightarrow>
    to64_digits (int a) (digits n @ rest) = to64_digits (int (a * 10 ^ length (digits n) + n)) rest"
proof (induction n arbitrary: a rest rule: digits.induct)
  case (1 n)
  show ?case
  proof (cases "n < 10")
    case True
    then have "digits n = [char_of (48 + n)]" by (simp add: digits.simps [of n])
    with 1(2) True digit_char(1) [of n] digit_char_int [of n] show ?thesis by (simp add: int64_ok_def)
  next
    case False
    let ?b = "a * 10 ^ length (digits (n div 10)) + n div 10"
    have n: "a * 10 ^ length (digits n) + n = ?b * 10 + n mod 10"
      using False by (simp add: digits.simps [of n] algebra_simps)
    have "to64_digits (int a) (digits n @ rest) = to64_digits (int a) (digits (n div 10) @ char_of (48 + n mod 10) # rest)"
      using False by (simp add: digits.simps [of n])
    also have "\<dots> = to64_digits (int ?b) (char_of (48 + n mod 10) # rest)"
      by (rule 1(1) [OF False]) (use 1(2) n in simp)
    also have "\<dots> = to64_digits (int ?b * 10 + int (n mod 10)) rest"
    proof (rule to64_digits_step)
      have "int (?b * 10 + n mod 10) < 2 ^ 63" using 1(2) by (simp only: n)
      then show "int ?b * 10 + int (n mod 10) < 2 ^ 63" by (simp only: of_nat_add of_nat_mult of_nat_numeral)
    qed (use digit_char(1) [of "n mod 10"] digit_char_int [of "n mod 10"] in simp_all)
    also have "\<dots> = to64_digits (int (a * 10 ^ length (digits n) + n)) rest"
      unfolding n by (simp only: of_nat_add of_nat_mult of_nat_numeral)
    finally show ?thesis .
  qed
qed

lemma mg_to64_decimal:
  assumes "n < 2 ^ 63"
  shows "mg_to64 (decimal (int n)) = Some (int n)"
proof -
  have "int n < 2 ^ 63" using assms by (simp add: of_nat_less_iff [symmetric] del: of_nat_less_iff)
  then have "to64_digits 0 (digits n) = Some (int n)" using to64_digits_digits [of 0 n "[]"] by simp
  moreover obtain c r where "digits n = c # r" "is_digit c" using hd_digits [of n] by (cases "digits n") auto
  moreover have "c \<noteq> CHR '' ''" "c \<noteq> CHR 0x09" "c \<noteq> CHR ''-''" using \<open>is_digit c\<close> by (auto simp: is_digit_def)
  ultimately show ?thesis by (simp add: mg_to64_def decimal_def)
qed

section \<open>The parsed request\<close>

text \<open>The method, path, query and headers of a request, and the length its headers declare.\<close>

definition path_ok :: "string \<Rightarrow> bool" where
  "path_ok uri \<longleftrightarrow> token uri \<and> hd uri \<noteq> CHR ''?''"

definition declares :: "string \<Rightarrow> http_header list \<Rightarrow> nat \<Rightarrow> bool" where
  "declares meth hs n \<longleftrightarrow>
     mg_http_get_header hs ''Content-Length'' = Some (decimal (int n)) \<or>
     mg_http_get_header hs ''Content-Length'' = None \<and> n = 0 \<and> CHR ''/'' \<notin> set meth \<and>
       mg_vcasecmp meth ''PUT'' \<noteq> 0 \<and> mg_vcasecmp meth ''POST'' \<noteq> 0"

definition head_message :: "string \<Rightarrow> string \<Rightarrow> string \<Rightarrow> http_header list \<Rightarrow> nat \<Rightarrow> http_message" where
  "head_message meth uri proto hs n =
     (let head = length (head_text meth uri proto hs) in
      \<lparr>hm_method = meth, hm_uri = takeWhile (\<lambda>c. c \<noteq> CHR ''?'') uri, hm_query = tl (dropWhile (\<lambda>c. c \<noteq> CHR ''?'') uri),
       hm_proto = proto, hm_headers = hs @ replicate (MG_MAX_HTTP_HEADERS - length hs) ([], []),
       hm_head = head, hm_body_len = n, hm_message_len = head + n\<rparr>)"

lemma token_chars: "token s \<Longrightarrow> c \<in> set s \<Longrightarrow> c \<noteq> LF \<and> c \<noteq> CR \<and> c \<noteq> CHR 0x00 \<and> c \<noteq> CHR '' ''"
  using printable_chars by (auto simp: token_def)

lemma skip_token:
  assumes "token a" "s \<noteq> []" "hd s \<noteq> CHR '' ''" "hd s \<noteq> CHR 0x00"
  shows "skip (a @ '' '' @ s) '' '' = (a, s)"
proof -
  have "skip (a @ CHR '' '' # s) '' '' = (a, dropWhile (strchr_in '' '') (CHR '' '' # s))"
    by (rule skip_word) (use token_chars [OF assms(1)] in auto)
  with assms(2-4) show ?thesis by (auto simp: dropWhile_hd)
qed

lemma skip_eol:
  assumes "token a" "s \<noteq> []" "hd s \<noteq> LF" "hd s \<noteq> CR" "hd s \<noteq> CHR 0x00"
  shows "skip (a @ CRLF @ s) CRLF = (a, s)"
proof -
  have "skip (a @ CR # LF # s) CRLF = (a, dropWhile (strchr_in CRLF) (CR # LF # s))"
    by (rule skip_word) (use token_chars [OF assms(1)] in auto)
  with assms(2-5) show ?thesis by (auto simp: dropWhile_hd)
qed

lemma ncasecmp_0_nth:
  "mg_ncasecmp s t n = 0 \<Longrightarrow> i < n \<Longrightarrow> i < length s \<Longrightarrow> i < length t \<Longrightarrow> CHR 0x00 \<notin> set (take i s) \<Longrightarrow>
    mg_lower (s ! i) = mg_lower (t ! i)"
proof (induction s t n arbitrary: i rule: mg_ncasecmp.induct)
  case (2 s t n)
  then obtain a s' b t' where st: "s = a # s'" "t = b # t'" by (cases s; cases t) auto
  have ab: "mg_lower a = mg_lower b" using 2(2) by (cases n) (auto simp: st Let_def split: if_splits)
  show ?case
  proof (cases i)
    case 0
    with ab show ?thesis by (simp add: st)
  next
    case (Suc k)
    with 2(3,6) have a: "a \<noteq> CHR 0x00" "k < n" by (auto simp: st)
    with 2(2) ab have "mg_ncasecmp s' t' n = 0" by (auto simp: st Let_def split: if_splits)
    with 2(1) [of "mg_lower a - mg_lower b" k] 2(3-6) Suc ab a show ?thesis by (simp add: st)
  qed
qed simp

lemma not_response:
  assumes "CHR ''/'' \<notin> set meth" "CHR 0x00 \<notin> set meth"
  shows "mg_ncasecmp (meth @ CHR '' '' # r) ''HTTP/'' 5 \<noteq> 0"
proof
  let ?s = "meth @ CHR '' '' # r"
  assume "mg_ncasecmp ?s ''HTTP/'' 5 = 0"
  then have eq: "mg_lower (?s ! i) = mg_lower (''HTTP/'' ! i)" if "i < 5" "i \<le> length meth" for i
    using that assms(2) by (intro ncasecmp_0_nth) (auto dest: in_set_takeD)
  show False
  proof (cases "5 \<le> length meth")
    case True
    then have "?s ! 4 = meth ! 4" "meth ! 4 \<in> set meth" by (simp_all add: nth_append)
    moreover have "mg_lower (?s ! 4) = 47" using eq [of 4] True by (simp add: mg_lower_def)
    ultimately have "of_char (meth ! 4) = (of_char (CHR ''/'') :: int)"
      by (auto simp: mg_lower_def Let_def split: if_splits)
    then have "meth ! 4 = CHR ''/''" by (simp only: of_char_eq_iff)
    with \<open>meth ! 4 \<in> set meth\<close> assms(1) show ?thesis by simp
  next
    case False
    then have l: "length meth = 0 \<or> length meth = 1 \<or> length meth = 2 \<or> length meth = 3 \<or> length meth = 4" by linarith
    have "mg_lower (?s ! length meth) = 32" by (simp add: mg_lower_def)
    with eq [of "length meth"] l show ?thesis by (auto simp: mg_lower_def)
  qed
qed

lemma skip_proto:
  assumes "token a" "\<forall>h \<in> set hs. header_ok h"
  shows "skip (a @ CRLF @ header_text hs @ CRLF) CRLF = (a, if hs = [] then [] else header_text hs @ CRLF)"
proof (cases hs)
  case Nil
  have "skip (a @ CR # LF # CRLF) CRLF = (a, dropWhile (strchr_in CRLF) (CR # LF # CRLF))"
    by (rule skip_word) (use token_chars [OF assms(1)] in auto)
  with Nil show ?thesis by (simp add: header_text_def)
next
  case (Cons h hs')
  then obtain k v where "h = (k, v)" "token k" using assms(2) by (cases h) (auto simp: header_ok_def)
  then have "header_text hs @ CRLF \<noteq> [] \<and> hd (header_text hs @ CRLF) = hd k" using token_hd [of k] Cons by (simp add: header_text_def)
  with skip_eol [OF assms(1), of "header_text hs @ CRLF"] token_hd [OF \<open>token k\<close>] Cons show ?thesis by simp
qed

lemma parse_no_headers: "mg_http_parse_headers m [] = replicate m ([], [])"
  by (induction m) (simp_all add: skip_def)

lemma int_mod_small: "n < 2 ^ W \<Longrightarrow> int n mod 2 ^ W = int n"
proof -
  assume "n < 2 ^ W"
  then have "int n < int (2 ^ W)" by (simp only: of_nat_less_iff)
  then show ?thesis by simp
qed

lemma parse_head_eq:
  assumes "skip head '' '' = (meth, s)" "skip s '' '' = (uri, s')" "skip s' CRLF = (proto, s'')"
    "mg_http_parse_headers MG_MAX_HTTP_HEADERS s'' = hs" "parse_lengths W (length head) hs = Some (b, m)"
    "meth \<noteq> []" "uri \<noteq> []" "proto \<noteq> []"
    "b = 2 ^ W - 1 \<Longrightarrow> mg_ncasecmp head ''HTTP/'' 5 \<noteq> 0 \<and> mg_vcasecmp meth ''PUT'' \<noteq> 0 \<and> mg_vcasecmp meth ''POST'' \<noteq> 0"
  shows "mg_http_parse_head W head = Some (int (length head),
    \<lparr>hm_method = meth, hm_uri = takeWhile (\<lambda>c. c \<noteq> CHR ''?'') uri, hm_query = tl (dropWhile (\<lambda>c. c \<noteq> CHR ''?'') uri),
     hm_proto = proto, hm_headers = hs, hm_head = length head,
     hm_body_len = (if b = 2 ^ W - 1 then 0 else b), hm_message_len = (if b = 2 ^ W - 1 then length head else m)\<rparr>)"
  using assms by (auto simp: mg_http_parse_head_def Let_def)

lemma parse_head_lengths:
  assumes "token meth" "path_ok uri" "token proto" "headers_ok hs"
    and len: "parse_lengths W (length (head_text meth uri proto hs)) hs = Some (b, m)"
      "b = 2 ^ W - 1 \<Longrightarrow> CHR ''/'' \<notin> set meth \<and> mg_vcasecmp meth ''PUT'' \<noteq> 0 \<and> mg_vcasecmp meth ''POST'' \<noteq> 0"
  shows "mg_http_parse W (head_text meth uri proto hs @ body) =
    Some (int (length (head_text meth uri proto hs)),
      (head_message meth uri proto hs 0)
        \<lparr>hm_body_len := (if b = 2 ^ W - 1 then 0 else b),
         hm_message_len := (if b = 2 ^ W - 1 then length (head_text meth uri proto hs) else m)\<rparr>)"
proof -
  let ?head = "head_text meth uri proto hs"
  let ?hs = "hs @ replicate (MG_MAX_HTTP_HEADERS - length hs) ([], [])"
  let ?tail = "header_text hs @ CRLF"
  have uri: "token uri" "takeWhile (\<lambda>c. c \<noteq> CHR ''?'') uri \<noteq> []"
    using assms(2) by (cases uri; auto simp: path_ok_def token_def)+
  have "mg_http_get_request_len (?head @ body) = int (length ?head)"
    by (rule head_text_len [OF assms(1) uri(1) assms(3,4)])
  moreover have "?head \<noteq> []" by (simp add: head_text_def)
  ultimately have parse: "mg_http_parse W (?head @ body) = mg_http_parse_head W ?head"
    by (simp add: mg_http_parse_def)
  have p1: "skip ?head '' '' = (meth, uri @ '' '' @ proto @ CRLF @ ?tail)"
    unfolding head_text_def by (rule skip_token) (use assms(1) token_hd [OF uri(1)] in auto)
  have p2: "skip (uri @ '' '' @ proto @ CRLF @ ?tail) '' '' = (uri, proto @ CRLF @ ?tail)"
    by (rule skip_token) (use uri token_hd [OF assms(3)] in auto)
  have p3: "skip (proto @ CRLF @ ?tail) CRLF = (proto, if hs = [] then [] else ?tail)"
    using skip_proto [OF assms(3)] assms(4) by (simp add: headers_ok_def)
  have hdrs: "mg_http_parse_headers MG_MAX_HTTP_HEADERS (if hs = [] then [] else ?tail) = ?hs"
    using parse_headers_text [of hs MG_MAX_HTTP_HEADERS] parse_no_headers assms(4) by (simp add: headers_ok_def)
  have lens: "parse_lengths W (length ?head) ?hs = Some (b, m)"
    using len(1) by (simp add: parse_lengths_def get_header_padded [OF assms(4)])
  have "mg_ncasecmp ?head ''HTTP/'' 5 \<noteq> 0" if "CHR ''/'' \<notin> set meth"
    using not_response [OF that] token_chars [OF assms(1)] by (auto simp: head_text_def)
  with parse_head_eq [OF p1 p2 p3 hdrs lens] len(2) assms(1,3) uri
  show ?thesis by (simp add: parse head_message_def token_def Let_def)
qed

lemma parse_head_text:
  assumes "token meth" "path_ok uri" "token proto" "headers_ok hs" "declares meth hs (length body)"
    "length (head_text meth uri proto hs @ body) < 2 ^ W - 1" "length body < 2 ^ 63"
  shows "mg_http_parse W (head_text meth uri proto hs @ body) =
    Some (int (length (head_text meth uri proto hs)), head_message meth uri proto hs (length body))"
proof -
  let ?L = "length (head_text meth uri proto hs)" and ?n = "length body"
  have size: "?L + ?n < 2 ^ W - 1" using assms(6) by simp
  from assms(5) consider "mg_http_get_header hs ''Content-Length'' = Some (decimal (int ?n))"
    | "mg_http_get_header hs ''Content-Length'' = None" "?n = 0" "CHR ''/'' \<notin> set meth"
      "mg_vcasecmp meth ''PUT'' \<noteq> 0" "mg_vcasecmp meth ''POST'' \<noteq> 0"
    by (auto simp: declares_def)
  then show ?thesis
  proof cases
    case 1
    have "int ?n mod 2 ^ W = int ?n" "(?L + ?n) mod 2 ^ W = ?L + ?n"
      using size by (simp_all add: int_mod_small)
    then have "parse_lengths W ?L hs = Some (?n, ?L + ?n)"
      using 1 mg_to64_decimal [OF assms(7)] by (simp add: parse_lengths_def Let_def)
    from parse_head_lengths [OF assms(1-4) this, of body] size show ?thesis by (simp add: head_message_def Let_def)
  next
    case 2
    have "parse_lengths W ?L hs = Some (2 ^ W - 1, 2 ^ W - 1)" using 2(1) by (simp add: parse_lengths_def)
    from parse_head_lengths [OF assms(1-4) this, of body] 2 show ?thesis by (simp add: head_message_def Let_def)
  qed
qed

text \<open>A negative content length that cancels the length of the head makes a message of length zero.\<close>

lemma parse_cancelled_length:
  assumes "token meth" "path_ok uri" "token proto" "headers_ok hs"
    "mg_http_get_header hs ''Content-Length'' = Some v" "mg_to64 v = Some (- int (length (head_text meth uri proto hs)))"
    "length (head_text meth uri proto hs) < 2 ^ W"
  shows "mg_http_parse W (head_text meth uri proto hs @ body) =
    Some (int (length (head_text meth uri proto hs)),
      (head_message meth uri proto hs 0)
        \<lparr>hm_body_len := 2 ^ W - length (head_text meth uri proto hs), hm_message_len := 0\<rparr>)"
proof -
  let ?L = "length (head_text meth uri proto hs)"
  have L: "1 < ?L" by (simp add: head_text_def)
  then have "head_text meth uri proto hs \<noteq> []" by auto
  with L have "(- int ?L) mod 2 ^ W = 2 ^ W - int ?L"
    using assms(7) by (subst zmod_zminus1_eq_if) (simp add: int_mod_small)
  moreover have "nat (2 ^ W - int ?L) = 2 ^ W - ?L" using assms(7) by (simp add: nat_diff_distrib nat_power_eq)
  moreover have "(?L + (2 ^ W - ?L)) mod 2 ^ W = 0" using assms(7) by simp
  ultimately have "parse_lengths W ?L hs = Some (2 ^ W - ?L, 0)"
    using assms(5,6) by (simp add: parse_lengths_def Let_def)
  moreover have "2 ^ W - ?L \<noteq> 2 ^ W - 1" using L assms(7) by linarith
  ultimately show ?thesis using parse_head_lengths [OF assms(1-4), of W "2 ^ W - ?L" 0 body] by simp
qed

text \<open>So the text of a request is the text of one message, and its body is what was sent.\<close>

lemma request_message_text:
  assumes "token meth" "path_ok uri" "headers_ok hs" "declares meth hs (length body)"
    "length (request_text meth uri hs body) < 2 ^ W - 1" "length body < 2 ^ 63"
  shows "mg_http_parse W (request_text meth uri hs body) =
    Some (int (length (head_text meth uri ''HTTP/1.1'' hs)), head_message meth uri ''HTTP/1.1'' hs (length body))"
  unfolding request_text_def
  by (rule parse_head_text [OF assms(1,2) _ assms(3,4)])
     (use assms(5,6) in \<open>simp_all add: request_text_def token_def is_print_def\<close>)

section \<open>Replies\<close>

text \<open>\<open>mg_http_reply\<close> with the formatted body; the three strings handed to \<open>mg_send\<close> one after the other.\<close>

definition mg_http_reply :: "int \<Rightarrow> string \<Rightarrow> string \<Rightarrow> string list" where
  "mg_http_reply code headers body =
     [''HTTP/1.1 '' @ decimal code @ '' OK'' @ CRLF @ headers @ ''Content-Length: '' @ decimal (int (length body)) @ CRLF @ CRLF, body]"

text \<open>\<open>%X\<close>.\<close>

fun hex_upper :: "nat \<Rightarrow> string" where
  "hex_upper n = (if n < 10 then [char_of (48 + n)] else if n < 16 then [char_of (55 + n)]
                  else hex_upper (n div 16) @ hex_upper (n mod 16))"

declare hex_upper.simps [simp del]

definition mg_http_write_chunk :: "string \<Rightarrow> string list" where
  "mg_http_write_chunk buf = [hex_upper (length buf) @ CRLF, buf, CRLF]"

end
