(* ===== verification/MgServe.thy ===== *)
theory MgServe
  imports MgHttp
begin

text \<open>
  Files over HTTP: \<open>mg_http_serve_dir\<close> and \<open>mg_http_serve_file\<close> of package/evsoc_camera/src/mongoose.c with the
  decoding of URIs and the table of content types.  The file system is a record of functions.
\<close>

unbundle bit_operations_syntax

section \<open>The file system\<close>

text \<open>
  What the code asks of it: \<open>realpath\<close>, whether a path is a directory, and the content, modification
  time and size of a file that can be opened and examined.
\<close>

record file_system =
  fs_realpath :: "string \<Rightarrow> string option"
  fs_is_dir :: "string \<Rightarrow> bool"
  fs_file :: "string \<Rightarrow> (string \<times> nat) option"

definition PATH_MAX :: nat where "PATH_MAX = 4096"

section \<open>Decoding the path\<close>

text \<open>
  \<open>mg_url_decode\<close> into a buffer of \<open>dst_len\<close> bytes, \<open>dst\<close> being what is written already: the bytes
  written, whether a NUL follows them, and the result.
\<close>

function mg_url_decode :: "string \<Rightarrow> string \<Rightarrow> nat \<Rightarrow> bool \<Rightarrow> string \<times> bool \<times> int" where
  "mg_url_decode src dst dst_len form =
     (case src of
        [] \<Rightarrow> (dst, length dst < dst_len, if length dst < dst_len then int (length dst) else - 1)
      | c # rest \<Rightarrow>
          if \<not> length dst + 1 < dst_len then (dst, length dst < dst_len, - 1)
          else if c = CHR ''%'' then
            (case rest of
               x # y # rest \<Rightarrow>
                 if is_xdigit x \<and> is_xdigit y
                 then mg_url_decode rest (dst @ [char_of (mg_unhexn 8 [x, y])]) dst_len form
                 else (dst, False, - 1)
             | _ \<Rightarrow> (dst, False, - 1))
          else mg_url_decode rest (dst @ [if form \<and> c = CHR ''+'' then CHR '' '' else c]) dst_len form)"
  by pat_completeness auto
termination by (relation "measure (\<lambda>(src, dst, dst_len, form). length src)") auto

declare mg_url_decode.simps [simp del]

section \<open>Serving a file\<close>

fun hex_lower :: "nat \<Rightarrow> string" where
  "hex_lower n = (if n < 10 then [char_of (48 + n)] else if n < 16 then [char_of (87 + n)]
                  else hex_lower (n div 16) @ hex_lower (n mod 16))"

declare hex_lower.simps [simp del]

definition mg_http_etag :: "nat \<Rightarrow> nat \<Rightarrow> string" where
  "mg_http_etag mtime fsize = [CHR 0x22] @ hex_lower mtime @ ''.'' @ decimal (int fsize) @ [CHR 0x22]"

definition mime_types :: "(string \<times> string) list" where
  "mime_types =
    [(''html'', ''text/html; charset=utf-8''),
     (''htm'', ''text/html; charset=utf-8''),
     (''shtml'', ''text/html; charset=utf-8''),
     (''css'', ''text/css''),
     (''js'', ''text/javascript''),
     (''mjs'', ''text/javascript''),
     (''json'', ''application/json''),
     (''ico'', ''image/x-icon''),
     (''gif'', ''image/gif''),
     (''jpg'', ''image/jpeg''),
     (''jpeg'', ''image/jpeg''),
     (''png'', ''image/png''),
     (''svg'', ''image/svg+xml''),
     (''txt'', ''text/plain; charset=utf-8''),
     (''wav'', ''audio/wav''),
     (''mp3'', ''audio/mpeg''),
     (''mid'', ''audio/mid''),
     (''ogg'', ''application/ogg''),
     (''xml'', ''application/xml''),
     (''ttf'', ''font/ttf''),
     (''json'', ''application/json''),
     (''xsl'', ''application/xml''),
     (''doc'', ''application/msword''),
     (''exe'', ''application/octet-stream''),
     (''zip'', ''application/zip''),
     (''xls'', ''application/excel''),
     (''tgz'', ''application/tar-gz''),
     (''tar'', ''application/tar''),
     (''gz'', ''application/gzip''),
     (''rar'', ''application/rar''),
     (''rtf'', ''application/rtf''),
     (''pdf'', ''application/pdf''),
     (''mpg'', ''video/mpeg''),
     (''webm'', ''video/webm''),
     (''mpeg'', ''video/mpeg''),
     (''mov'', ''video/quicktime''),
     (''mp4'', ''video/mp4''),
     (''avi'', ''video/x-msvideo''),
     (''csv'', ''text/csv''),
     (''bmp'', ''image/bmp''),
     (''bin'', ''application/octet-stream''),
     (''wasm'', ''application/wasm'')]"

definition guess_content_type :: "string \<Rightarrow> string" where
  "guess_content_type filename =
     (let n = length filename in
      case List.find (\<lambda>(ext, type). \<not> n < length ext + 2 \<and>
             mg_ncasecmp ext (drop (n - length ext) filename) (length ext) = 0) mime_types of
        None \<Rightarrow> ''text/plain; charset=utf-8''
      | Some (ext, type) \<Rightarrow> type)"

text \<open>What is sent, and the content of the file \<open>static_cb\<close> goes on with.\<close>

definition mg_http_serve_file ::
  "file_system \<Rightarrow> http_message \<Rightarrow> string \<Rightarrow> string \<Rightarrow> string list \<times> string option" where
  "mg_http_serve_file fs hm path mime =
     (case fs_file fs path of
        None \<Rightarrow> (mg_http_reply 404 [] (''Not found'' @ [LF]), None)
      | Some (content, mtime) \<Rightarrow>
          let etag = mg_http_etag mtime (length content) in
          if (case mg_http_get_header (hm_headers hm) ''If-None-Match'' of None \<Rightarrow> False | Some inm \<Rightarrow> mg_vcasecmp inm etag = 0)
          then ([''HTTP/1.1 304 Not Modified'' @ CRLF @ ''Content-Length: 0'' @ CRLF @ CRLF], None)
          else ([''HTTP/1.1 200 OK'' @ CRLF @ ''Content-Type: '' @ mime @ CRLF @ ''Etag: '' @ etag @ CRLF
                  @ ''Content-Length: '' @ decimal (int (length content)) @ CRLF @ CRLF],
                if mg_vcasecmp (hm_method hm) ''HEAD'' = 0 then None else Some content))"

section \<open>Serving a directory\<close>

text \<open>
  The path that is asked for: the real path of the root, the decoded URI behind it, trailing slashes
  removed.  \<open>stale\<close> is what the buffer holds behind a URI that could not be decoded.
\<close>

definition strip_slashes :: "string \<Rightarrow> string" where
  "strip_slashes s = rev (dropWhile (\<lambda>c. c = CHR ''/'') (rev s))"

definition asked_path :: "string \<Rightarrow> string \<Rightarrow> string \<Rightarrow> string" where
  "asked_path stale root uri =
     (let (dst, terminated, ret) = mg_url_decode uri [] (PATH_MAX - length root) False;
          rest = (if terminated then [] else if dst = [] then [] else stale)
      in strip_slashes (cstr (take (PATH_MAX - 1) (root @ dst @ rest))))"

definition mg_http_serve_dir ::
  "file_system \<Rightarrow> string \<Rightarrow> string \<Rightarrow> http_message \<Rightarrow> string list \<times> string option" where
  "mg_http_serve_dir fs stale root_dir hm =
     (case fs_realpath fs root_dir of
        None \<Rightarrow> (mg_http_reply 400 [] (''Bad web root ['' @ root_dir @ '']'' @ [LF]), None)
      | Some root \<Rightarrow>
          if \<not> fs_is_dir fs root then (mg_http_reply 400 [] (''Invalid web root ['' @ root @ '']'' @ [LF]), None)
          else
            let n1 = length root; t1 = asked_path stale root (hm_uri hm) in
            case fs_realpath fs t1 of
              None \<Rightarrow> (mg_http_reply 404 [] (''Not found ['' @ hm_uri hm @ '']'' @ [LF]), None)
            | Some t2 \<Rightarrow>
                let is_index = fs_is_dir fs t2;
                    t2 = (if is_index then t2 @ take (PATH_MAX - length t2 - 1) ''/index.html'' else t2)
                in if length t2 < n1 \<or> take n1 (t1 @ replicate n1 CHR 0x00) \<noteq> take n1 t2
                   then (mg_http_reply 404 [] (''Invalid URI ['' @ hm_uri hm @ '']'' @ [LF]), None)
                   else if is_index \<and> fs_file fs t2 = None
                   then (mg_http_reply 403 [] ''Directory listing not supported'', None)
                   else mg_http_serve_file fs hm t2 (guess_content_type t2))"

section \<open>Nothing outside the root\<close>

text \<open>What the manual page of \<open>realpath\<close> says of a result other than the root directory itself.\<close>

definition real_path :: "string \<Rightarrow> bool" where
  "real_path p \<longleftrightarrow> p \<noteq> [] \<and> last p \<noteq> CHR ''/'' \<and> CHR 0x00 \<notin> set p \<and> length p < PATH_MAX"

lemma strip_slashes_front:
  assumes "p \<noteq> []" "last p \<noteq> CHR ''/''"
  shows "\<exists>s. strip_slashes (p @ q) = p @ s"
proof -
  obtain p' x where p: "p = p' @ [x]" "x \<noteq> CHR ''/''" using assms by (cases p rule: rev_cases) auto
  show ?thesis
  proof (cases "\<forall>c \<in> set q. c = CHR ''/''")
    case True
    then have "dropWhile (\<lambda>c. c = CHR ''/'') (rev q @ rev p) = rev p" using p by (subst dropWhile_append2) auto
    then show ?thesis by (simp add: strip_slashes_def)
  next
    case False
    then obtain y where "y \<in> set (rev q)" "y \<noteq> CHR ''/''" by auto
    then have "dropWhile (\<lambda>c. c = CHR ''/'') (rev q @ rev p) = dropWhile (\<lambda>c. c = CHR ''/'') (rev q) @ rev p"
      by (rule dropWhile_append1)
    then show ?thesis by (simp add: strip_slashes_def)
  qed
qed

lemma asked_path_front:
  assumes "real_path root"
  shows "\<exists>s. asked_path stale root uri = root @ s"
proof -
  have r: "root \<noteq> []" "last root \<noteq> CHR ''/''" "CHR 0x00 \<notin> set root" "length root \<le> PATH_MAX - 1"
    using assms by (auto simp: real_path_def)
  obtain dst terminated ret where u: "mg_url_decode uri [] (PATH_MAX - length root) False = (dst, terminated, ret)"
    by (cases "mg_url_decode uri [] (PATH_MAX - length root) False") auto
  let ?rest = "if terminated then [] else if dst = [] then [] else stale"
  have "cstr (take (PATH_MAX - 1) (root @ dst @ ?rest)) = root @ cstr (take (PATH_MAX - 1 - length root) (dst @ ?rest))"
    using r(3,4) by (auto simp: cstr_def takeWhile_append)
  with strip_slashes_front [OF r(1,2)] show ?thesis by (simp add: asked_path_def u Let_def)
qed

lemma served_file:
  assumes "mg_http_serve_file fs hm path mime = (out, Some content)"
  shows "\<exists>mtime. fs_file fs path = Some (content, mtime)"
  using assms by (auto simp: mg_http_serve_file_def Let_def split: option.splits if_split_asm)

lemma mg_http_serve_dir_cases:
  assumes "fs_realpath fs root_dir = Some root" "mg_http_serve_dir fs stale root_dir hm = (out, Some content)" "real_path root"
  shows "\<exists>target path mtime. fs_realpath fs (asked_path stale root (hm_uri hm)) = Some target \<and>
    path = (if fs_is_dir fs target then target @ take (PATH_MAX - length target - 1) ''/index.html'' else target) \<and>
    fs_file fs path = Some (content, mtime) \<and> take (length root) path = root"
proof -
  obtain s where s: "asked_path stale root (hm_uri hm) = root @ s" using asked_path_front [OF assms(3)] by blast
  from assms(1,2) obtain target where t: "fs_realpath fs (asked_path stale root (hm_uri hm)) = Some target"
    by (auto simp: mg_http_serve_dir_def Let_def split: option.splits if_split_asm)
  let ?path = "if fs_is_dir fs target then target @ take (PATH_MAX - length target - 1) ''/index.html'' else target"
  from assms(1,2) t have "length root \<le> length ?path" "take (length root) ((root @ s) @ replicate (length root) CHR 0x00) = take (length root) ?path"
    "mg_http_serve_file fs hm ?path (guess_content_type ?path) = (out, Some content)"
    by (auto simp: mg_http_serve_dir_def Let_def s split: option.splits if_split_asm)
  with served_file [OF this(3)] t show ?thesis by auto
qed

text \<open>
  C23: Every file the web server hands out is, after symbolic links and parent directories have been
  resolved, a path that begins with the resolved web root, whatever the URI is, decoded or not.
\<close>
theorem served_path_begins_with_root:
  assumes "fs_realpath fs root_dir = Some root" "real_path root"
    "mg_http_serve_dir fs stale root_dir hm = (out, Some content)"
  shows "\<exists>target path mtime. fs_realpath fs (asked_path stale root (hm_uri hm)) = Some target \<and>
    path = (if fs_is_dir fs target then target @ take (PATH_MAX - length target - 1) ''/index.html'' else target) \<and>
    fs_file fs path = Some (content, mtime) \<and> take (length root) path = root"
  by (rule mg_http_serve_dir_cases [OF assms(1,3,2)])

text \<open>A small tree: the root /w, a file in it, and a file in a directory beside it whose name begins alike.\<close>

definition demo_fs :: file_system where
  "demo_fs = \<lparr>fs_realpath = (\<lambda>p. if p \<in> {''/w'', ''/w/a.css'', ''/w2/key''} then Some p
                               else if p = ''/w/../w2/key'' then Some ''/w2/key'' else None),
     fs_is_dir = (\<lambda>p. p = ''/w''),
     fs_file = (\<lambda>p. if p = ''/w/a.css'' then Some (''x'', 1) else if p = ''/w2/key'' then Some (''k'', 1) else None)\<rparr>"

definition demo_get :: "string \<Rightarrow> http_message" where
  "demo_get uri = empty_message\<lparr>hm_method := ''GET'', hm_uri := uri\<rparr>"

lemma char_of_dot: "char_of (46 :: nat) = CHR ''.''"
  by (simp add: char_of_eq_iff take_bit_eq_mod)

lemma demo_asked:
  "asked_path stale ''/w'' ''/a.css'' = ''/w/a.css''"
  "asked_path stale ''/w'' ''/%2e./w2/key'' = ''/w/../w2/key''"
  by (simp_all add: asked_path_def mg_url_decode.simps PATH_MAX_def cstr_def strip_slashes_def is_xdigit_def
      mg_unhexn_def unhex_digit_def take_bit_eq_mod char_of_dot)

lemma demo_no_header [simp]: "mg_http_get_header (replicate n ([], [])) name = None"
  by (cases n) (simp_all add: mg_http_get_header_def MG_MAX_HTTP_HEADERS_def)

lemma demo_served:
  "snd (mg_http_serve_dir demo_fs stale ''/w'' (demo_get ''/a.css'')) = Some ''x''"
  by (simp add: mg_http_serve_dir_def demo_fs_def demo_get_def empty_message_def demo_asked mg_http_serve_file_def
      mg_vcasecmp_def mg_lower_def Let_def)

theorem served_path_begins_with_root_witness:
  "\<exists>target path mtime. fs_realpath demo_fs (asked_path [] ''/w'' ''/a.css'') = Some target \<and>
    path = (if fs_is_dir demo_fs target then target @ take (PATH_MAX - length target - 1) ''/index.html'' else target) \<and>
    fs_file demo_fs path = Some (''x'', mtime) \<and> take (length ''/w'') path = ''/w''"
proof -
  have root: "fs_realpath demo_fs ''/w'' = Some ''/w''" "real_path ''/w''"
    by (simp_all add: demo_fs_def real_path_def PATH_MAX_def)
  have "mg_http_serve_dir demo_fs [] ''/w'' (demo_get ''/a.css'') =
      (fst (mg_http_serve_dir demo_fs [] ''/w'' (demo_get ''/a.css'')), Some ''x'')"
    using demo_served [of "[]"] by (metis prod.collapse)
  from served_path_begins_with_root [OF root this] show ?thesis by (simp add: demo_get_def)
qed

text \<open>
  The test compares the front of the path only, so a directory beside the root whose name begins with
  the name of the root is served too, here through an encoded parent directory.
\<close>

lemma sibling_served:
  "snd (mg_http_serve_dir demo_fs stale ''/w'' (demo_get ''/%2e./w2/key'')) = Some ''k''"
  by (simp add: mg_http_serve_dir_def demo_fs_def demo_get_def empty_message_def demo_asked mg_http_serve_file_def
      mg_vcasecmp_def mg_lower_def Let_def)

end
