(* ===== verification/MgConn.thy ===== *)
theory MgConn
  imports MgHttp
begin

text \<open>
  A connection of the web server library: its buffers (\<open>struct mg_iobuf\<close>), the event function \<open>http_cb\<close> that takes
  the requests out of the receive buffer, chunked bodies, reading, writing, the file behind a reply (\<open>static_cb\<close>)
  and a round of \<open>mg_mgr_poll\<close>.  The program's handler is a parameter; what it promises is the locale
  \<open>http_app\<close>.  \<open>http_cb\<close> is a partial function: \<open>None\<close> is a loop that does not end or a handler that fails.
\<close>

unbundle bit_operations_syntax

section \<open>I/O buffers, iobuf.c\<close>

text \<open>
  \<open>io_mem\<close> is the allocated block and \<open>io_len\<close> the number of its bytes in use.  \<open>malloc n\<close> gives
  the contents of a fresh block, or \<open>None\<close>.
\<close>

record iobuf =
  io_mem :: string
  io_len :: nat

definition io_size :: "iobuf \<Rightarrow> nat" where "io_size io = length (io_mem io)"

definition io_text :: "iobuf \<Rightarrow> string" where "io_text io = take (io_len io) (io_mem io)"

definition mg_iobuf_resize :: "(nat \<Rightarrow> string option) \<Rightarrow> nat \<Rightarrow> iobuf \<Rightarrow> bool \<times> iobuf" where
  "mg_iobuf_resize malloc new_size io =
     (if new_size = 0 then (True, \<lparr>io_mem = [], io_len = 0\<rparr>)
      else if new_size \<noteq> io_size io then
        (case malloc new_size of
           Some p \<Rightarrow> (let m = min (io_size io) new_size in (True, io\<lparr>io_mem := take m (io_mem io) @ drop m p\<rparr>))
         | None \<Rightarrow> (False, io))
      else (True, io))"

text \<open>\<open>memmove\<close> into a block.\<close>

definition store_bytes :: "string \<Rightarrow> nat \<Rightarrow> string \<Rightarrow> string" where
  "store_bytes mem pos d = take pos mem @ d @ drop (pos + length d) mem"

definition mg_iobuf_append :: "(nat \<Rightarrow> string option) \<Rightarrow> nat \<Rightarrow> string \<Rightarrow> iobuf \<Rightarrow> nat \<times> iobuf" where
  "mg_iobuf_append malloc chunk_size d io =
     (let new_size = io_len io + length d + chunk_size;
          new_size = new_size - new_size mod chunk_size;
          io = (if new_size \<noteq> io_size io then snd (mg_iobuf_resize malloc new_size io) else io);
          d = (if new_size \<noteq> io_size io then [] else d)
      in (length d, io\<lparr>io_mem := store_bytes (io_mem io) (io_len io) d, io_len := io_len io + length d\<rparr>))"

definition mg_iobuf_delete :: "nat \<Rightarrow> iobuf \<Rightarrow> iobuf" where
  "mg_iobuf_delete len io =
     (let len = (if io_len io < len then 0 else len);
          rest = take (io_len io - len) (drop len (io_mem io))
      in io\<lparr>io_mem := store_bytes (io_mem io) 0 rest, io_len := io_len io - len\<rparr>)"

section \<open>Chunked bodies\<close>

text \<open>
  The two loops of \<open>get_chunk_length\<close>; both test the index, not the character, against a line feed.
  Sizes are taken modulo \<open>2 ^ W\<close>.
\<close>

function chunk_digits :: "string \<Rightarrow> nat \<Rightarrow> nat" where
  "chunk_digits buf i = (if i < length buf \<and> buf ! i \<noteq> CR \<and> i \<noteq> 10 then chunk_digits buf (i + 1) else i)"
  by pat_completeness auto
termination by (relation "measure (\<lambda>(buf, i). length buf - i)") auto

function chunk_line :: "string \<Rightarrow> nat \<Rightarrow> nat" where
  "chunk_line buf i = (if i < length buf \<and> (buf ! i = CR \<or> i = 10) then chunk_line buf (i + 1) else i)"
  by pat_completeness auto
termination by (relation "measure (\<lambda>(buf, i). length buf - i)") auto

declare chunk_digits.simps [simp del] chunk_line.simps [simp del]

definition get_chunk_length :: "nat \<Rightarrow> string \<Rightarrow> nat \<times> nat" where
  "get_chunk_length W buf =
     (let i = chunk_digits buf 0; n = mg_unhexn W (take i buf); i = chunk_line buf i
      in (if i < length buf \<and> (i + n + 2) mod 2 ^ W < length buf then (i + n + 3) mod 2 ^ W else 0, i + 1))"

text \<open>
  \<open>walkchunks\<close> on the bytes behind the header: whether the last chunk is there, and then the body
  moved together in place.  The handler of the program does nothing on a chunk event.
\<close>

lemma get_chunk_length_bound: "fst (get_chunk_length W buf) \<le> length buf"
proof -
  have "Suc m mod 2 ^ W \<le> Suc (m mod 2 ^ W)" for m :: nat by (simp add: mod_Suc)
  from this [of "chunk_line buf (chunk_digits buf 0) + mg_unhexn W (take (chunk_digits buf 0) buf) + 2"]
  show ?thesis by (auto simp: get_chunk_length_def Let_def eval_nat_numeral)
qed

function last_chunk :: "nat \<Rightarrow> string \<Rightarrow> bool" where
  "last_chunk W s =
     (if s = [] then False
      else let cl = fst (get_chunk_length W s) in
        if cl = 0 then False else if cl \<le> 5 then True else last_chunk W (drop cl s))"
  by pat_completeness auto
termination by (relation "measure (\<lambda>(W, s). length s)") auto

function join_chunks :: "nat \<Rightarrow> nat \<Rightarrow> string \<Rightarrow> nat \<Rightarrow> nat \<Rightarrow> string \<times> nat" where
  "join_chunks W body_size body off bl =
     (if off < body_size then
        let (cl, ll) = get_chunk_length W (take (body_size - off) (drop off body));
            n = (if cl < ll + 2 then 0 else cl - ll - 2)
        in if cl \<le> 5 then (body, bl)
           else join_chunks W body_size (store_bytes body bl (take n (drop (off + ll) body))) (off + cl) (bl + n)
      else (body, bl))"
  by pat_completeness auto
termination by (relation "measure (\<lambda>(W, body_size, body, off, bl). body_size - off)") auto

declare last_chunk.simps [simp del] join_chunks.simps [simp del]

definition walkchunks :: "nat \<Rightarrow> nat \<Rightarrow> string \<Rightarrow> http_message \<Rightarrow> string \<times> http_message" where
  "walkchunks W reqlen buf hm =
     (let body = drop reqlen buf in
      if last_chunk W body then
        (let (body, bl) = join_chunks W (length body) body 0 0
         in (take reqlen buf @ body, hm\<lparr>hm_message_len := bl + reqlen, hm_body_len := bl\<rparr>))
      else (buf, hm))"

definition mg_is_chunked :: "http_message \<Rightarrow> bool" where
  "mg_is_chunked hm =
     (case mg_http_get_header (hm_headers hm) ''Transfer-Encoding'' of
        None \<Rightarrow> False | Some te \<Rightarrow> mg_strstr te ''chunked'' \<noteq> None)"

section \<open>A connection\<close>

text \<open>
  \<open>serving\<close> is the rest of the file that \<open>static_cb\<close> is sending; without one the protocol handler is
  \<open>http_cb\<close>.
\<close>

record http_conn =
  recv :: iobuf
  send :: iobuf
  is_closing :: bool
  serving :: "string option"

definition MG_IO_SIZE :: nat where "MG_IO_SIZE = 512"
definition MG_MAX_RECV_BUF_SIZE :: nat where "MG_MAX_RECV_BUF_SIZE = 3 * 1024 * 1024"

definition mg_send :: "(nat \<Rightarrow> string option) \<Rightarrow> string \<Rightarrow> http_conn \<Rightarrow> http_conn" where
  "mg_send malloc d c = c\<lparr>send := snd (mg_iobuf_append malloc MG_IO_SIZE d (send c))\<rparr>"

text \<open>
  A request handler gets the message and the bytes of its body and gives back its new state, what it
  sends and the contents of a file it starts to send.  A body that reaches behind the received bytes
  goes on with what memory holds there (\<open>beyond\<close>).
\<close>

type_synonym 's http_handler = "http_message \<Rightarrow> string \<Rightarrow> 's \<Rightarrow> ('s \<times> string list \<times> string option) option"

definition body_text :: "(nat \<Rightarrow> char) \<Rightarrow> string \<Rightarrow> http_message \<Rightarrow> string" where
  "body_text beyond buf hm =
     map (\<lambda>i. if i < length buf then buf ! i else beyond (i - length buf)) [hm_head hm..<hm_head hm + hm_body_len hm]"

definition answer :: "(nat \<Rightarrow> string option) \<Rightarrow> string list \<Rightarrow> string option \<Rightarrow> http_conn \<Rightarrow> http_conn" where
  "answer malloc out f c =
     (let c = fold (mg_send malloc) out c in case f of None \<Rightarrow> c | Some content \<Rightarrow> c\<lparr>serving := Some content\<rparr>)"

text \<open>
  \<open>http_cb\<close> on MG_EV_READ and, with \<open>close\<close>, on MG_EV_CLOSE.  The loop goes on after each complete
  message, so it need not end; then the result is \<open>None\<close>, as it is when the handler or the parser is
  undefined.
\<close>

definition http_message_of :: "nat \<Rightarrow> bool \<Rightarrow> string \<Rightarrow> int \<Rightarrow> http_message \<Rightarrow> string \<times> http_message" where
  "http_message_of W close buf n hm =
     (if close then (buf, hm\<lparr>hm_message_len := length buf, hm_body_len := length buf - hm_head hm\<rparr>)
      else if 0 < n \<and> mg_is_chunked hm then walkchunks W (nat n) buf hm
      else (buf, hm))"

definition set_text :: "string \<Rightarrow> iobuf \<Rightarrow> iobuf" where
  "set_text buf io = io\<lparr>io_mem := store_bytes (io_mem io) 0 buf\<rparr>"

partial_function (option) http_cb ::
  "nat \<Rightarrow> (nat \<Rightarrow> string option) \<Rightarrow> (nat \<Rightarrow> char) \<Rightarrow> 's http_handler \<Rightarrow> bool \<Rightarrow> http_conn \<Rightarrow> 's \<Rightarrow> (http_conn \<times> 's) option" where
  "http_cb W malloc beyond handle close c st =
     Option.bind (mg_http_parse W (io_text (recv c))) (\<lambda>(n, hm).
       let (buf, hm) = http_message_of W close (io_text (recv c)) n hm;
           c = c\<lparr>recv := set_text buf (recv c)\<rparr>
       in if n < 0 \<and> \<not> close then Some (c\<lparr>is_closing := True\<rparr>, st)
          else if 0 < n \<and> hm_message_len hm \<le> io_len (recv c) then
            Option.bind (handle hm (body_text beyond buf hm) st) (\<lambda>(st, out, f).
              let c = answer malloc out f c
              in http_cb W malloc beyond handle close (c\<lparr>recv := mg_iobuf_delete (hm_message_len hm) (recv c)\<rparr>) st)
          else Some (c, st))"

section \<open>Reading, sock.c\<close>

text \<open>What \<open>recv\<close> gives: some bytes, or none with the failure flag.\<close>

datatype sock_result = Bytes string | No_bytes bool

text \<open>\<open>mg_call (c, MG_EV_READ)\<close>; while a file is being sent \<open>static_cb\<close> ignores the event.\<close>

definition call_read ::
  "nat \<Rightarrow> (nat \<Rightarrow> string option) \<Rightarrow> (nat \<Rightarrow> char) \<Rightarrow> 's http_handler \<Rightarrow> http_conn \<Rightarrow> 's \<Rightarrow> (http_conn \<times> 's) option" where
  "call_read W malloc beyond handle c st =
     (if serving c = None then http_cb W malloc beyond handle False c st else Some (c, st))"

definition read_conn ::
  "nat \<Rightarrow> (nat \<Rightarrow> string option) \<Rightarrow> (nat \<Rightarrow> char) \<Rightarrow> 's http_handler \<Rightarrow> sock_result \<Rightarrow> http_conn \<Rightarrow> 's \<Rightarrow> (http_conn \<times> 's) option" where
  "read_conn W malloc beyond handle rc c st =
     (let c = (if io_size (recv c) - io_len (recv c) < MG_IO_SIZE \<and> io_size (recv c) < MG_MAX_RECV_BUF_SIZE then
                 let (ok, io) = mg_iobuf_resize malloc (io_size (recv c) + MG_IO_SIZE) (recv c)
                 in c\<lparr>recv := io, is_closing := is_closing c \<or> \<not> ok\<rparr>
               else c);
          len = io_size (recv c) - io_len (recv c)
      in case rc of
           Bytes d \<Rightarrow>
             if len < length d then None
             else call_read W malloc beyond handle
                    (c\<lparr>recv := (recv c)\<lparr>io_mem := store_bytes (io_mem (recv c)) (io_len (recv c)) d,
                                        io_len := io_len (recv c) + length d\<rparr>\<rparr>) st
         | No_bytes fail \<Rightarrow> Some (c\<lparr>is_closing := is_closing c \<or> fail\<rparr>, st))"

section \<open>Buffers as text\<close>

definition io_ok :: "iobuf \<Rightarrow> bool" where "io_ok io \<longleftrightarrow> io_len io \<le> io_size io"

lemma io_text_length [simp]: "io_ok io \<Longrightarrow> length (io_text io) = io_len io"
  by (simp add: io_ok_def io_text_def io_size_def)

lemma set_text_same: "io_ok io \<Longrightarrow> set_text (io_text io) io = io"
  by (simp add: io_ok_def io_text_def io_size_def set_text_def store_bytes_def)

lemma io_len_set_text [simp]: "io_len (set_text buf io) = io_len io"
  by (simp add: set_text_def)

lemma mg_iobuf_delete_text:
  assumes "io_ok io" "n \<le> io_len io"
  shows "io_text (mg_iobuf_delete n io) = drop n (io_text io)" "io_ok (mg_iobuf_delete n io)"
    "io_size (mg_iobuf_delete n io) = io_size io"
  using assms by (simp_all add: mg_iobuf_delete_def io_ok_def io_text_def io_size_def store_bytes_def drop_take min_def)

lemma mg_iobuf_resize_text:
  assumes "io_ok io" "io_size io \<le> n" "0 < n" "malloc n = Some p" "length p = n"
  shows "fst (mg_iobuf_resize malloc n io)" "io_text (snd (mg_iobuf_resize malloc n io)) = io_text io"
    "io_ok (snd (mg_iobuf_resize malloc n io))" "io_size (snd (mg_iobuf_resize malloc n io)) = n"
  using assms by (simp_all add: mg_iobuf_resize_def io_ok_def io_text_def io_size_def Let_def)

text \<open>An append puts all of its bytes behind the text, or none when there is no memory.\<close>

lemma appended:
  assumes "io_ok io" "io_len io + length d \<le> io_size io"
  shows "io_text (io\<lparr>io_mem := store_bytes (io_mem io) (io_len io) d, io_len := io_len io + length d\<rparr>) = io_text io @ d"
    "io_ok (io\<lparr>io_mem := store_bytes (io_mem io) (io_len io) d, io_len := io_len io + length d\<rparr>)"
    "io_size (io\<lparr>io_mem := store_bytes (io_mem io) (io_len io) d, io_len := io_len io + length d\<rparr>) = io_size io"
  using assms by (simp_all add: io_ok_def io_text_def io_size_def store_bytes_def)

lemma mg_iobuf_append_text:
  assumes ok: "io_ok io" and malloc: "\<And>n p. malloc n = Some p \<Longrightarrow> length p = n"
  shows "(\<exists>n. malloc n = None) \<and> mg_iobuf_append malloc MG_IO_SIZE d io = (0, io) \<or>
    (\<exists>io2. mg_iobuf_append malloc MG_IO_SIZE d io = (length d, io2) \<and> io_text io2 = io_text io @ d \<and> io_ok io2)"
proof -
  define n where "n = (io_len io + length d + MG_IO_SIZE) - (io_len io + length d + MG_IO_SIZE) mod MG_IO_SIZE"
  have "(io_len io + length d + MG_IO_SIZE) mod MG_IO_SIZE < MG_IO_SIZE" by (simp add: MG_IO_SIZE_def)
  then have n: "io_len io + length d < n" unfolding n_def by linarith
  define io1 where "io1 = (if n \<noteq> io_size io then snd (mg_iobuf_resize malloc n io) else io)"
  have app: "mg_iobuf_append malloc MG_IO_SIZE d io =
      (let d = (if n \<noteq> io_size io1 then [] else d)
       in (length d, io1\<lparr>io_mem := store_bytes (io_mem io1) (io_len io1) d, io_len := io_len io1 + length d\<rparr>))"
    unfolding mg_iobuf_append_def n_def [symmetric] Let_def io1_def [symmetric] ..
  consider "n = io_size io" | "n \<noteq> io_size io" "malloc n = None" | p where "n \<noteq> io_size io" "malloc n = Some p"
    by (cases "malloc n") auto
  then show ?thesis
  proof cases
    case 1
    then have "io1 = io" by (simp add: io1_def)
    with 1 n appended [OF ok, of d] show ?thesis by (auto simp: app)
  next
    case 2
    with n have "io1 = io" by (simp add: io1_def mg_iobuf_resize_def)
    with 2 show ?thesis by (auto simp: app store_bytes_def)
  next
    case 3
    then have l: "length p = n" using malloc by blast
    let ?io = "io\<lparr>io_mem := take (min (io_size io) n) (io_mem io) @ drop (min (io_size io) n) p\<rparr>"
    have io1: "io1 = ?io" using 3 n by (simp add: io1_def mg_iobuf_resize_def Let_def)
    have sz: "io_size ?io = n" using l by (simp add: io_size_def min_def)
    have len: "io_len ?io = io_len io" and ok1: "io_ok ?io" using n sz by (simp_all add: io_ok_def)
    have same_text: "io_text ?io = io_text io" using ok n by (simp add: io_text_def io_ok_def io_size_def min_def)
    have "io_len ?io + length d \<le> io_size ?io" using n sz len by simp
    note a = appended [OF ok1 this]
    show ?thesis using sz io1 a(1,2) same_text unfolding app io1 sz by auto
  qed
qed

section \<open>Complete messages and waiting text\<close>

text \<open>The text of one message with a body of known length, and text that has to wait for more.\<close>

definition message_text :: "nat \<Rightarrow> string \<Rightarrow> http_message \<Rightarrow> bool" where
  "message_text W r hm \<longleftrightarrow> 0 < hm_head hm \<and> mg_http_parse W r = Some (int (hm_head hm), hm) \<and>
     \<not> mg_is_chunked hm \<and> hm_message_len hm = length r \<and> hm_head hm + hm_body_len hm = length r"

definition waits :: "nat \<Rightarrow> string \<Rightarrow> bool" where
  "waits W p \<longleftrightarrow> mg_http_get_request_len p = 0 \<or>
     (\<exists>n hm. mg_http_parse W p = Some (n, hm) \<and> 0 < n \<and> \<not> mg_is_chunked hm \<and> length p < hm_message_len hm)"

definition message_body :: "string \<Rightarrow> http_message \<Rightarrow> string" where
  "message_body r hm = drop (hm_head hm) r"

lemma waits_Nil [simp]: "waits W []"
  by (simp add: waits_def mg_http_get_request_len_def request_len_from.simps)

lemma message_text_append: "message_text W r hm \<Longrightarrow> mg_http_parse W (r @ s) = Some (int (hm_head hm), hm)"
proof -
  assume m: "message_text W r hm"
  then have "mg_http_get_request_len r \<noteq> 0" using parse_0_iff [of W r] by (auto simp: message_text_def parse_0)
  with m show ?thesis by (simp add: mg_http_parse_append message_text_def)
qed

lemma waits_prefix:
  assumes "waits W (p @ s)"
  shows "waits W p"
proof (cases "mg_http_get_request_len p = 0")
  case False
  then have "mg_http_parse W (p @ s) = mg_http_parse W p" "mg_http_get_request_len (p @ s) \<noteq> 0"
    by (simp_all add: mg_http_parse_append request_len_append)
  with assms show ?thesis by (fastforce simp: waits_def)
qed (simp add: waits_def)

lemma message_prefix_waits:
  assumes "message_text W (p @ s) hm" "s \<noteq> []"
  shows "waits W p"
proof (cases "mg_http_get_request_len p = 0")
  case False
  then have "mg_http_parse W (p @ s) = mg_http_parse W p" by (simp add: mg_http_parse_append)
  with assms show ?thesis by (auto simp: waits_def message_text_def)
qed (simp add: waits_def)

lemma body_text_inside:
  assumes "hm_head hm + hm_body_len hm = length r"
  shows "body_text beyond (r @ s) hm = message_body r hm"
  using assms by (intro nth_equalityI) (auto simp: body_text_def message_body_def nth_append)

section \<open>One call of the protocol handler\<close>

text \<open>What the loop does in each case.\<close>

lemma http_cb_waits:
  assumes "io_ok (recv c)" "waits W (io_text (recv c))"
  shows "http_cb W malloc beyond handle False c st = Some (c, st)"
proof -
  have same: "c\<lparr>recv := set_text (io_text (recv c)) (recv c)\<rparr> = c" using assms(1) by (simp add: set_text_same)
  from assms(2) consider "mg_http_get_request_len (io_text (recv c)) = 0"
    | n hm where "mg_http_parse W (io_text (recv c)) = Some (n, hm)" "0 < n" "\<not> mg_is_chunked hm"
        "io_len (recv c) < hm_message_len hm"
    using assms(1) by (auto simp: waits_def)
  then show ?thesis
  proof cases
    case 1
    then show ?thesis by (subst http_cb.simps) (simp add: parse_0 http_message_of_def same)
  next
    case 2
    then show ?thesis by (subst http_cb.simps) (simp add: http_message_of_def same)
  qed
qed

lemma http_cb_message:
  assumes "io_ok (recv c)" "io_text (recv c) = r @ s" "message_text W r hm"
  shows "http_cb W malloc beyond handle False c st =
    Option.bind (handle hm (message_body r hm) st) (\<lambda>(st, out, f).
      let c = answer malloc out f c
      in http_cb W malloc beyond handle False (c\<lparr>recv := mg_iobuf_delete (length r) (recv c)\<rparr>) st)"
proof -
  have same: "c\<lparr>recv := set_text (r @ s) (recv c)\<rparr> = c"
    using assms(1) set_text_same [of "recv c"] by (simp add: assms(2))
  have l: "io_len (recv c) = length r + length s" using io_text_length [OF assms(1)] by (simp add: assms(2))
  from assms(3) have hm: "0 < hm_head hm" "\<not> mg_is_chunked hm" "hm_message_len hm = length r"
    "hm_head hm + hm_body_len hm = length r"
    by (simp_all add: message_text_def)
  show ?thesis
    by (subst http_cb.simps)
       (simp add: assms(2) message_text_append [OF assms(3)] http_message_of_def hm same l body_text_inside [OF hm(4)])
qed

section \<open>Writing\<close>

text \<open>
  \<open>static_cb\<close> on MG_EV_WRITE and MG_EV_POLL: it fills the send buffer from the file and gives the
  connection back to \<open>http_cb\<close> once the file did not fill it.
\<close>

definition static_cb :: "(nat \<Rightarrow> string option) \<Rightarrow> http_conn \<Rightarrow> http_conn" where
  "static_cb malloc c =
     (case serving c of
        None \<Rightarrow> c
      | Some f \<Rightarrow>
          let limit = 2 * MG_IO_SIZE;
              io = (if io_size (send c) < limit then snd (mg_iobuf_resize malloc limit (send c)) else send c)
          in if io_size io \<le> io_len io then c\<lparr>send := io\<rparr>
             else
               let n = min (io_size io - io_len io) (length f);
                   io = io\<lparr>io_mem := store_bytes (io_mem io) (io_len io) (take n f), io_len := io_len io + n\<rparr>
               in c\<lparr>send := io, serving := (if io_len io < io_size io then None else Some (drop n f))\<rparr>)"

text \<open>What \<open>send\<close> makes of the buffer: so many bytes accepted, or none with the failure flag.\<close>

datatype write_result = Wrote nat | Not_written bool

definition write_conn ::
  "(nat \<Rightarrow> string option) \<Rightarrow> write_result \<Rightarrow> http_conn \<Rightarrow> string \<times> http_conn" where
  "write_conn malloc rc c =
     (case rc of
        Wrote n \<Rightarrow>
          let io = mg_iobuf_delete n (send c);
              io = (if io_len io = 0 then snd (mg_iobuf_resize malloc 0 io) else io)
          in (take n (io_text (send c)), static_cb malloc (c\<lparr>send := io\<rparr>))
      | Not_written fail \<Rightarrow> ([], c\<lparr>is_closing := is_closing c \<or> fail\<rparr>))"

text \<open>
  One round of \<open>mg_mgr_poll\<close> for an accepted connection: the poll event, a read when the socket is
  readable, a write when it is writable, and the end of a connection that is closing.  The result has
  the bytes put on the wire and, while it stays open, the connection.
\<close>

definition call_poll :: "(nat \<Rightarrow> string option) \<Rightarrow> http_conn \<Rightarrow> http_conn" where
  "call_poll malloc c = static_cb malloc c"

definition call_close ::
  "nat \<Rightarrow> (nat \<Rightarrow> string option) \<Rightarrow> (nat \<Rightarrow> char) \<Rightarrow> 's http_handler \<Rightarrow> http_conn \<Rightarrow> 's \<Rightarrow> 's option" where
  "call_close W malloc beyond handle c st =
     (if serving c = None then map_option snd (http_cb W malloc beyond handle True c st) else Some st)"

definition poll_conn ::
  "nat \<Rightarrow> (nat \<Rightarrow> string option) \<Rightarrow> (nat \<Rightarrow> char) \<Rightarrow> 's http_handler \<Rightarrow> sock_result option \<Rightarrow> (string \<Rightarrow> write_result) option \<Rightarrow>
    http_conn \<Rightarrow> 's \<Rightarrow> (string \<times> http_conn option \<times> 's) option" where
  "poll_conn W malloc beyond handle readable writable c st =
     Option.bind
       (let c = call_poll malloc c in
        if is_closing c then Some ([], c, st)
        else Option.bind (case readable of None \<Rightarrow> Some (c, st) | Some rc \<Rightarrow> read_conn W malloc beyond handle rc c st)
          (\<lambda>(c, st). case writable of
             None \<Rightarrow> Some ([], c, st)
           | Some f \<Rightarrow> (let (out, c) = write_conn malloc (f (io_text (send c))) c in Some (out, c, st))))
       (\<lambda>(out, c, st).
          if is_closing c then map_option (\<lambda>st. (out, None, st)) (call_close W malloc beyond handle c st)
          else Some (out, Some c, st))"

section \<open>Everything sent goes out in order\<close>

definition pending :: "http_conn \<Rightarrow> string" where
  "pending c = io_text (send c) @ (case serving c of None \<Rightarrow> [] | Some f \<Rightarrow> f)"

definition blocks_ok :: "(nat \<Rightarrow> string option) \<Rightarrow> bool" where
  "blocks_ok malloc \<longleftrightarrow> (\<forall>n p. malloc n = Some p \<longrightarrow> length p = n)"

lemma resize_grows:
  assumes "blocks_ok malloc" "io_ok io" "io_size io \<le> n" "0 < n"
  shows "io_ok (snd (mg_iobuf_resize malloc n io)) \<and> io_text (snd (mg_iobuf_resize malloc n io)) = io_text io"
proof (cases "malloc n")
  case None
  with assms show ?thesis by (simp add: mg_iobuf_resize_def)
next
  case (Some p)
  then have "length p = n" using assms(1) by (auto simp: blocks_ok_def)
  with mg_iobuf_resize_text [where malloc = malloc and io = io and n = n, OF assms(2-4) Some] show ?thesis
    by simp
qed

lemma static_cb_pending:
  assumes "blocks_ok malloc" "io_ok (send c)"
  shows "pending (static_cb malloc c) = pending c \<and> io_ok (send (static_cb malloc c)) \<and>
    recv (static_cb malloc c) = recv c \<and> is_closing (static_cb malloc c) = is_closing c"
proof (cases "serving c")
  case (Some f)
  define io where "io = (if io_size (send c) < 2 * MG_IO_SIZE then snd (mg_iobuf_resize malloc (2 * MG_IO_SIZE) (send c)) else send c)"
  have io: "io_ok io" "io_text io = io_text (send c)"
    using resize_grows [OF assms, of "2 * MG_IO_SIZE"] assms(2) by (simp_all add: io_def MG_IO_SIZE_def)
  show ?thesis
  proof (cases "io_size io \<le> io_len io")
    case True
    then have "static_cb malloc c = c\<lparr>send := io\<rparr>" by (simp add: static_cb_def Some io_def [symmetric])
    with io Some show ?thesis by (simp add: pending_def)
  next
    case False
    define n where "n = min (io_size io - io_len io) (length f)"
    define io1 where "io1 = io\<lparr>io_mem := store_bytes (io_mem io) (io_len io) (take n f), io_len := io_len io + n\<rparr>"
    have c: "static_cb malloc c = c\<lparr>send := io1, serving := (if io_len io1 < io_size io1 then None else Some (drop n f))\<rparr>"
      unfolding static_cb_def Some option.case Let_def io_def [symmetric] n_def [symmetric] io1_def [symmetric]
      using False by simp
    have l: "length (take n f) = n" by (simp add: n_def)
    have "io_len io + length (take n f) \<le> io_size io" using False l by (simp add: n_def)
    note app = appended [OF io(1) this, unfolded l, folded io1_def]
    have "drop n f = []" if "io_len io1 < io_size io1"
    proof -
      have "io_len io1 = io_len io + n" by (simp add: io1_def)
      with that False app(3) show ?thesis by (simp add: n_def min_def split: if_splits)
    qed
    with app io(2) Some show ?thesis
      using append_take_drop_id [of n f] by (auto simp: c pending_def)
  qed
qed (use assms in \<open>simp add: static_cb_def\<close>)

lemma write_conn_pending:
  assumes "blocks_ok malloc" "io_ok (send c)" "\<forall>n. rc = Wrote n \<longrightarrow> n \<le> io_len (send c)"
  shows "fst (write_conn malloc rc c) @ pending (snd (write_conn malloc rc c)) = pending c \<and> io_ok (send (snd (write_conn malloc rc c)))"
proof (cases rc)
  case (Wrote n)
  let ?io = "mg_iobuf_delete n (send c)"
  note del = mg_iobuf_delete_text [OF assms(2) assms(3) [rule_format, OF Wrote]]
  define io where "io = (if io_len ?io = 0 then snd (mg_iobuf_resize malloc 0 ?io) else ?io)"
  have io: "io_ok io" "io_text io = drop n (io_text (send c))"
    using del io_text_length [OF del(2)] by (auto simp: io_def mg_iobuf_resize_def io_ok_def io_text_def)
  have w: "write_conn malloc rc c = (take n (io_text (send c)), static_cb malloc (c\<lparr>send := io\<rparr>))"
    by (simp add: write_conn_def Wrote io_def Let_def)
  have "io_ok (send (c\<lparr>send := io\<rparr>))" using io by simp
  from static_cb_pending [OF assms(1) this] show ?thesis by (simp add: w pending_def io(2))
next
  case (Not_written fail)
  with assms(2) show ?thesis by (simp add: write_conn_def pending_def)
qed

text \<open>Rounds without a read.\<close>

fun write_rounds ::
  "(nat \<Rightarrow> string option) \<Rightarrow> (string \<Rightarrow> write_result) option list \<Rightarrow> http_conn \<Rightarrow> string \<times> http_conn" where
  "write_rounds malloc [] c = ([], c)"
| "write_rounds malloc (w # ws) c =
     (let c = call_poll malloc c;
          (out, c) = (case w of None \<Rightarrow> ([], c) | Some f \<Rightarrow> write_conn malloc (f (io_text (send c))) c);
          (rest, c) = write_rounds malloc ws c
      in (out @ rest, c))"

definition takes_bytes :: "(string \<Rightarrow> write_result) option \<Rightarrow> bool" where
  "takes_bytes w \<longleftrightarrow> (\<forall>f text n. w = Some f \<and> f text = Wrote n \<longrightarrow> 0 < n \<and> n \<le> length text)"

lemma write_rounds_pending:
  assumes "blocks_ok malloc" "\<forall>w \<in> set ws. takes_bytes w" "io_ok (send c)"
  shows "fst (write_rounds malloc ws c) @ pending (snd (write_rounds malloc ws c)) = pending c"
  using assms(2,3)
proof (induction ws arbitrary: c)
  case (Cons w ws)
  let ?c = "call_poll malloc c"
  have c: "pending ?c = pending c" "io_ok (send ?c)"
    using static_cb_pending [OF assms(1) Cons.prems(2)] by (simp_all add: call_poll_def)
  show ?case
  proof (cases w)
    case None
    with Cons.IH [of ?c] Cons.prems(1) c show ?thesis by (simp add: Let_def split_def)
  next
    case (Some f)
    have acc: "\<forall>text n. f text = Wrote n \<longrightarrow> n \<le> length text" using Cons.prems(1) by (auto simp: Some takes_bytes_def)
    have "\<forall>n. f (io_text (send ?c)) = Wrote n \<longrightarrow> n \<le> io_len (send ?c)"
      using acc io_text_length [OF c(2)] by metis
    note wr = write_conn_pending [OF assms(1) c(2) this]
    show ?thesis
      using Cons.IH [of "snd (write_conn malloc (f (io_text (send ?c))) ?c)"] wr Cons.prems(1) c(1)
      by (simp add: Some Let_def split_def)
  qed
qed simp

text \<open>Memory does not run out.\<close>

definition malloc_ok :: "(nat \<Rightarrow> string option) \<Rightarrow> bool" where
  "malloc_ok malloc \<longleftrightarrow> (\<forall>n. \<exists>p. malloc n = Some p \<and> length p = n)"

text \<open>A socket that always takes something.\<close>

definition eager :: "(string \<Rightarrow> write_result) option \<Rightarrow> bool" where
  "eager w \<longleftrightarrow> (\<exists>f. w = Some f \<and> f [] = Not_written False \<and>
     (\<forall>text. text \<noteq> [] \<longrightarrow> (\<exists>n. f text = Wrote n \<and> 0 < n \<and> n \<le> length text)))"

lemma eager_takes_bytes: "eager w \<Longrightarrow> takes_bytes w"
  unfolding eager_def takes_bytes_def by (metis option.inject write_result.distinct(1) write_result.inject(1))

lemma static_cb_fills:
  assumes "malloc_ok malloc" "io_ok (send c)"
  shows "io_text (send (static_cb malloc c)) = [] \<Longrightarrow> serving (static_cb malloc c) = None"
proof (cases "serving c")
  case (Some f)
  obtain p where p: "malloc (2 * MG_IO_SIZE) = Some p" "length p = 2 * MG_IO_SIZE"
    using assms(1) unfolding malloc_ok_def by blast
  define io where "io = (if io_size (send c) < 2 * MG_IO_SIZE then snd (mg_iobuf_resize malloc (2 * MG_IO_SIZE) (send c)) else send c)"
  have io: "io_ok io \<and> 0 < io_size io"
  proof (cases "io_size (send c) < 2 * MG_IO_SIZE")
    case True
    then have "io_size (send c) \<le> 2 * MG_IO_SIZE" "0 < 2 * MG_IO_SIZE" by (simp_all add: MG_IO_SIZE_def)
    from mg_iobuf_resize_text [where malloc = malloc, OF assms(2) this p] True show ?thesis by (simp add: io_def MG_IO_SIZE_def)
  next
    case False
    with assms(2) show ?thesis by (simp add: io_def MG_IO_SIZE_def)
  qed
  assume empty: "io_text (send (static_cb malloc c)) = []"
  show ?thesis
  proof (cases "io_size io \<le> io_len io")
    case True
    then have "static_cb malloc c = c\<lparr>send := io\<rparr>" by (simp add: static_cb_def Some io_def [symmetric])
    with empty io_text_length [of io] io True show ?thesis by simp
  next
    case False
    define n where "n = min (io_size io - io_len io) (length f)"
    define io1 where "io1 = io\<lparr>io_mem := store_bytes (io_mem io) (io_len io) (take n f), io_len := io_len io + n\<rparr>"
    have c: "static_cb malloc c = c\<lparr>send := io1, serving := (if io_len io1 < io_size io1 then None else Some (drop n f))\<rparr>"
      unfolding static_cb_def Some option.case Let_def io_def [symmetric] n_def [symmetric] io1_def [symmetric]
      using False by simp
    have l: "length (take n f) = n" by (simp add: n_def)
    have "io_len io + length (take n f) \<le> io_size io" using False l by (simp add: n_def)
    note app = appended [OF conjunct1 [OF io] this, unfolded l, folded io1_def]
    from empty app(2) io_text_length [of io1] have "io_len io1 = 0" by (simp add: c)
    with app(3) io show ?thesis by (simp add: c)
  qed
qed (simp add: static_cb_def)

lemma write_rounds_idle:
  "serving c = None \<Longrightarrow> io_text (send c) = [] \<Longrightarrow> \<forall>w \<in> set ws. eager w \<Longrightarrow> write_rounds malloc ws c = ([], c)"
proof (induction ws)
  case (Cons w ws)
  then have "call_poll malloc c = c" by (simp add: call_poll_def static_cb_def)
  moreover obtain f where "w = Some f" "f [] = Not_written False" using Cons.prems(3) by (auto simp: eager_def)
  ultimately show ?case using Cons by (simp add: write_conn_def Let_def)
qed simp

lemma malloc_ok_blocks: "malloc_ok malloc \<Longrightarrow> blocks_ok malloc"
  unfolding malloc_ok_def blocks_ok_def by (metis option.inject)

text \<open>So a reply and the file behind it go out completely, in order, and nothing else does.\<close>

lemma write_rounds_complete:
  assumes "malloc_ok malloc" "\<forall>w \<in> set ws. eager w" "io_ok (send c)" "length (pending c) < length ws"
  shows "fst (write_rounds malloc ws c) = pending c \<and> serving (snd (write_rounds malloc ws c)) = None"
  using assms(2-4)
proof (induction ws arbitrary: c)
  case (Cons w ws)
  let ?c = "call_poll malloc c"
  note blocks = malloc_ok_blocks [OF assms(1)]
  have c: "pending ?c = pending c" "io_ok (send ?c)" "io_text (send ?c) = [] \<Longrightarrow> serving ?c = None"
    using static_cb_pending [OF blocks Cons.prems(2)] static_cb_fills [OF assms(1) Cons.prems(2)] by (simp_all add: call_poll_def)
  obtain f where w: "w = Some f" "f [] = Not_written False"
    "\<And>text. text \<noteq> [] \<Longrightarrow> \<exists>n. f text = Wrote n \<and> 0 < n \<and> n \<le> length text"
    using Cons.prems(1) unfolding eager_def by (metis list.set_intros(1))
  let ?wr = "write_conn malloc (f (io_text (send ?c))) ?c"
  have step: "write_rounds malloc (w # ws) c = (fst ?wr @ fst (write_rounds malloc ws (snd ?wr)), snd (write_rounds malloc ws (snd ?wr)))"
    by (simp add: w(1) Let_def split_def)
  show ?case
  proof (cases "io_text (send ?c) = []")
    case True
    then have "?wr = ([], ?c)" by (simp add: w(2) write_conn_def)
    moreover have "pending ?c = []" using True c(3) by (simp add: pending_def)
    moreover have "\<forall>w \<in> set ws. takes_bytes w" using Cons.prems(1) eager_takes_bytes by simp
    ultimately show ?thesis
      using write_rounds_pending [OF blocks _ c(2), of ws] write_rounds_idle [where malloc = malloc and c = ?c and ws = ws] c Cons.prems(1) True
      unfolding step by simp
  next
    case False
    from w(3) [OF False] obtain n where n: "f (io_text (send ?c)) = Wrote n" "0 < n" "n \<le> length (io_text (send ?c))" by blast
    have "\<forall>m. f (io_text (send ?c)) = Wrote m \<longrightarrow> m \<le> io_len (send ?c)" using n io_text_length [OF c(2)] by simp
    note wr = write_conn_pending [OF blocks c(2) this]
    have "fst ?wr = take n (io_text (send ?c))" by (simp add: n(1) write_conn_def Let_def)
    with n have pos: "0 < length (fst ?wr)" by simp
    have "length (fst ?wr) + length (pending (snd ?wr)) = length (pending c)"
      using arg_cong [OF conjunct1 [OF wr], of length] c(1) by simp
    moreover have "length (pending c) < length ws + 1" using Cons.prems(3) by simp
    ultimately have "length (pending (snd ?wr)) < length ws" using pos by linarith
    with Cons.IH [of "snd ?wr"] wr Cons.prems(1) c(1) show ?thesis unfolding step by simp
  qed
qed simp

section \<open>A stream of messages\<close>

text \<open>The messages one after the other, and the receive buffer after them.\<close>

fun serve_all ::
  "(nat \<Rightarrow> string option) \<Rightarrow> 's http_handler \<Rightarrow> (http_message \<times> string) list \<Rightarrow> http_conn \<Rightarrow> 's \<Rightarrow> (http_conn \<times> 's) option" where
  "serve_all malloc handle [] c st = Some (c, st)"
| "serve_all malloc handle ((hm, body) # ms) c st =
     Option.bind (handle hm body st) (\<lambda>(st, out, f). serve_all malloc handle ms (answer malloc out f c) st)"

definition messages :: "(string \<times> http_message) list \<Rightarrow> (http_message \<times> string) list" where
  "messages rs = map (\<lambda>(r, hm). (hm, message_body r hm)) rs"

definition stream :: "(string \<times> http_message) list \<Rightarrow> string" where
  "stream rs = concat (map fst rs)"

fun consumed :: "(string \<times> http_message) list \<Rightarrow> iobuf \<Rightarrow> iobuf" where
  "consumed [] io = io"
| "consumed ((r, hm) # rs) io = consumed rs (mg_iobuf_delete (length r) io)"

lemma stream_simps [simp]: "stream [] = []" "stream ((r, hm) # rs) = r @ stream rs" "stream (rs @ rs') = stream rs @ stream rs'"
  by (simp_all add: stream_def)

lemma messages_simps [simp]: "messages [] = []" "messages ((r, hm) # rs) = (hm, message_body r hm) # messages rs"
  "messages (rs @ rs') = messages rs @ messages rs'"
  by (simp_all add: messages_def)

lemma consumed_text:
  assumes "io_ok io" "io_text io = stream rs @ p"
  shows "io_text (consumed rs io) = p \<and> io_ok (consumed rs io) \<and> io_size (consumed rs io) = io_size io"
  using assms
proof (induction rs arbitrary: io)
  case (Cons rhm rs)
  obtain r hm where rhm: "rhm = (r, hm)" by (cases rhm)
  have "length r \<le> io_len io" using Cons.prems io_text_length [OF Cons.prems(1)] by (simp add: rhm)
  from mg_iobuf_delete_text [OF Cons.prems(1) this] Cons.prems Cons.IH [of "mg_iobuf_delete (length r) io"]
  show ?case by (simp add: rhm)
qed simp

lemma mg_send_recv [simp]: "mg_send malloc d (c\<lparr>recv := io\<rparr>) = (mg_send malloc d c)\<lparr>recv := io\<rparr>"
  "recv (mg_send malloc d c) = recv c" "serving (mg_send malloc d c) = serving c" "is_closing (mg_send malloc d c) = is_closing c"
  by (simp_all add: mg_send_def)

lemma sends_recv [simp]: "fold (mg_send malloc) out (c\<lparr>recv := io\<rparr>) = (fold (mg_send malloc) out c)\<lparr>recv := io\<rparr>"
  "recv (fold (mg_send malloc) out c) = recv c" "serving (fold (mg_send malloc) out c) = serving c"
  "is_closing (fold (mg_send malloc) out c) = is_closing c"
  by (induction out arbitrary: c) simp_all

lemma answer_recv [simp]: "answer malloc out f (c\<lparr>recv := io\<rparr>) = (answer malloc out f c)\<lparr>recv := io\<rparr>"
  "recv (answer malloc out f c) = recv c" "serving (answer malloc out None c) = serving c"
  "is_closing (answer malloc out f c) = is_closing c"
  by (simp_all add: answer_def Let_def split: option.splits)

lemma serve_all_recv:
  "serve_all malloc handle ms (c\<lparr>recv := io\<rparr>) st = map_option (\<lambda>(c, st). (c\<lparr>recv := io\<rparr>, st)) (serve_all malloc handle ms c st)"
proof (induction ms arbitrary: c st)
  case (Cons m ms)
  then show ?case by (cases m; cases "handle (fst m) (snd m) st") auto
qed simp

lemma serve_all_append:
  "serve_all malloc handle (ms @ ms') c st =
    Option.bind (serve_all malloc handle ms c st) (\<lambda>(c, st). serve_all malloc handle ms' c st)"
proof (induction ms arbitrary: c st)
  case (Cons m ms)
  then show ?case by (cases m; cases "handle (fst m) (snd m) st") auto
qed simp

lemma serve_all_keeps_recv: "serve_all malloc handle ms c st = Some (c', st') \<Longrightarrow> recv c' = recv c \<and> is_closing c' = is_closing c"
proof (induction ms arbitrary: c st)
  case (Cons m ms)
  then show ?case by (cases m; cases "handle (fst m) (snd m) st") (auto dest!: Cons.IH)
qed simp

text \<open>The loop hands over the complete messages in order and stops at the waiting rest.\<close>

lemma http_cb_stream:
  assumes "io_ok (recv c)" "io_text (recv c) = stream rs @ p" "\<forall>(r, hm) \<in> set rs. message_text W r hm" "waits W p"
  shows "http_cb W malloc beyond handle False c st =
    map_option (\<lambda>(c', st'). (c'\<lparr>recv := consumed rs (recv c)\<rparr>, st')) (serve_all malloc handle (messages rs) c st)"
  using assms(1-3)
proof (induction rs arbitrary: c st)
  case Nil
  then show ?case using http_cb_waits [of c W] assms(4) by simp
next
  case (Cons rhm rs)
  obtain r hm where rhm: "rhm = (r, hm)" by (cases rhm)
  let ?d = "mg_iobuf_delete (length r) (recv c)"
  have t: "io_text (recv c) = r @ (stream rs @ p)" and m: "message_text W r hm" using Cons.prems by (simp_all add: rhm)
  have "length r \<le> io_len (recv c)" using t io_text_length [OF Cons.prems(1)] by simp
  note del = mg_iobuf_delete_text [OF Cons.prems(1) this]
  have rest: "http_cb W malloc beyond handle False (c1\<lparr>recv := ?d\<rparr>) st1 =
      map_option (\<lambda>(c', st'). (c'\<lparr>recv := consumed rs ?d\<rparr>, st')) (serve_all malloc handle (messages rs) c1 st1)" for c1 st1
    using Cons.IH [of "c1\<lparr>recv := ?d\<rparr>" st1] Cons.prems(3) del t
    by (simp add: rhm serve_all_recv option.map_comp comp_def split_def)
  show ?case
    unfolding http_cb_message [OF Cons.prems(1) t m]
    by (cases "handle hm (message_body r hm) st") (auto simp: rhm rest Let_def)
qed

section \<open>Cutting the stream into reads\<close>

fun reads ::
  "nat \<Rightarrow> (nat \<Rightarrow> string option) \<Rightarrow> (nat \<Rightarrow> char) \<Rightarrow> 's http_handler \<Rightarrow> string list \<Rightarrow> http_conn \<Rightarrow> 's \<Rightarrow> (http_conn \<times> 's) option" where
  "reads W malloc beyond handle [] c st = Some (c, st)"
| "reads W malloc beyond handle (d # ds) c st =
     Option.bind (read_conn W malloc beyond handle (Bytes d) c st) (\<lambda>(c, st). reads W malloc beyond handle ds c st)"

lemma stream_prefix:
  assumes "xs @ ys = stream rs @ p" "\<forall>(r, hm) \<in> set rs. message_text W r hm" "waits W p"
  shows "\<exists>rs1 rs2 q. rs = rs1 @ rs2 \<and> xs = stream rs1 @ q \<and> q @ ys = stream rs2 @ p \<and> waits W q"
  using assms(1,2)
proof (induction rs arbitrary: xs)
  case Nil
  then have "xs = stream [] @ xs \<and> xs @ ys = stream [] @ p \<and> waits W xs" using assms(3) waits_prefix [of W xs ys] by simp
  then show ?case by blast
next
  case (Cons rhm rs)
  obtain r hm where rhm: "rhm = (r, hm)" by (cases rhm)
  show ?case
  proof (cases "length xs < length r")
    case True
    from Cons.prems(1) have "xs @ ys = r @ (stream rs @ p)" by (simp add: rhm)
    then have "take (length xs) (xs @ ys) = take (length xs) (r @ (stream rs @ p))" by simp
    with True have xs: "xs = take (length xs) r" by simp
    then have "r = xs @ drop (length xs) r" by (metis append_take_drop_id)
    then have "waits W xs"
      using True Cons.prems(2) message_prefix_waits [of W xs "drop (length xs) r" hm] by (simp add: rhm)
    then have "rhm # rs = [] @ (rhm # rs) \<and> xs = stream [] @ xs \<and> xs @ ys = stream (rhm # rs) @ p \<and> waits W xs"
      using Cons.prems(1) by simp
    then show ?thesis by blast
  next
    case False
    from Cons.prems(1) have "xs @ ys = r @ (stream rs @ p)" by (simp add: rhm)
    then have "take (length r) (xs @ ys) = r" "drop (length r) (xs @ ys) = stream rs @ p" by simp_all
    with False have z: "xs = r @ drop (length r) xs" "drop (length r) xs @ ys = stream rs @ p"
      by (metis append_take_drop_id take_append diff_is_0_eq leI take_0 append_Nil2, simp)
    with Cons.IH [of "drop (length r) xs"] Cons.prems(2) obtain rs1 rs2 q where
      "rs = rs1 @ rs2" "drop (length r) xs = stream rs1 @ q" "q @ ys = stream rs2 @ p" "waits W q"
      by auto
    then have "rhm # rs = (rhm # rs1) @ rs2 \<and> xs = stream (rhm # rs1) @ q \<and> q @ ys = stream rs2 @ p \<and> waits W q"
      using z(1) by (simp add: rhm)
    then show ?thesis by blast
  qed
qed

text \<open>An application that serves no file for the messages it calls dynamic.\<close>

locale http_app =
  fixes handle :: "'s http_handler" and dynamic :: "http_message \<Rightarrow> bool"
  assumes no_file: "dynamic hm \<Longrightarrow> handle hm body st = Some (st', out, f) \<Longrightarrow> f = None"
begin

lemma serve_all_keeps_cb:
  assumes "\<forall>(hm, body) \<in> set ms. dynamic hm" "serve_all malloc handle ms c st = Some (c', st')" "serving c = None"
  shows "serving c' = None"
  using assms
proof (induction ms arbitrary: c st)
  case (Cons m ms)
  obtain hm body where m: "m = (hm, body)" by (cases m)
  with Cons.prems(2) obtain st1 out f where h: "handle hm body st = Some (st1, out, f)"
    "serve_all malloc handle ms (answer malloc out f c) st1 = Some (c', st')"
    by (auto simp: bind_Some_iff)
  from no_file [OF _ h(1)] Cons.prems(1) m have "f = None" by auto
  with Cons.IH [OF _ h(2)] Cons.prems show ?case by simp
qed simp

end

section \<open>Reads of any size\<close>

lemma read_conn_bytes:
  assumes "io_ok (recv c)" "serving c = None" "malloc_ok malloc" "length d \<le> MG_IO_SIZE"
    "io_len (recv c) + MG_IO_SIZE \<le> MG_MAX_RECV_BUF_SIZE"
  shows "\<exists>io. io_ok io \<and> io_text io = io_text (recv c) @ d \<and>
    read_conn W malloc beyond handle (Bytes d) c st = http_cb W malloc beyond handle False (c\<lparr>recv := io\<rparr>) st"
proof -
  define grow where "grow \<longleftrightarrow> io_size (recv c) - io_len (recv c) < MG_IO_SIZE \<and> io_size (recv c) < MG_MAX_RECV_BUF_SIZE"
  define io1 where "io1 = (if grow then snd (mg_iobuf_resize malloc (io_size (recv c) + MG_IO_SIZE) (recv c)) else recv c)"
  obtain p where p: "malloc (io_size (recv c) + MG_IO_SIZE) = Some p" "length p = io_size (recv c) + MG_IO_SIZE"
    using assms(3) unfolding malloc_ok_def by blast
  have "io_size (recv c) \<le> io_size (recv c) + MG_IO_SIZE" "0 < io_size (recv c) + MG_IO_SIZE"
    by (simp_all add: MG_IO_SIZE_def)
  note grown = mg_iobuf_resize_text [where io = "recv c" and malloc = malloc, OF assms(1) this p]
  have len: "io_len io1 = io_len (recv c)" if "io_ok io1" "io_text io1 = io_text (recv c)"
    using io_text_length [OF that(1)] io_text_length [OF assms(1)] that(2) by simp
  have io1: "io_ok io1" "io_text io1 = io_text (recv c)" using grown assms(1) by (simp_all add: io1_def)
  have room: "io_len io1 + length d \<le> io_size io1"
  proof (cases grow)
    case True
    then have "io_size io1 = io_size (recv c) + MG_IO_SIZE" using grown by (simp add: io1_def)
    with len [OF io1] assms(1,4) show ?thesis by (simp add: io_ok_def)
  next
    case False
    then have "io1 = recv c" by (simp add: io1_def)
    with False assms(1,4,5) show ?thesis by (auto simp: grow_def io_ok_def)
  qed
  let ?c1 = "(if grow then
                let (ok, io) = mg_iobuf_resize malloc (io_size (recv c) + MG_IO_SIZE) (recv c)
                in c\<lparr>recv := io, is_closing := is_closing c \<or> \<not> ok\<rparr>
              else c)"
  have c1: "?c1 = c\<lparr>recv := io1\<rparr>" using grown(1) by (simp add: io1_def split_def)
  let ?io = "io1\<lparr>io_mem := store_bytes (io_mem io1) (io_len io1) d, io_len := io_len io1 + length d\<rparr>"
  have "\<not> io_size io1 - io_len io1 < length d" using room by linarith
  then have "read_conn W malloc beyond handle (Bytes d) c st = http_cb W malloc beyond handle False (c\<lparr>recv := ?io\<rparr>) st"
    using assms(2) unfolding read_conn_def grow_def [symmetric] c1 by (simp add: call_read_def)
  moreover note appended(1,2) [OF io1(1) room]
  ultimately show ?thesis using io1(2) by (intro exI [of _ ?io]) simp
qed

context http_app
begin

text \<open>
  However the text of a sequence of messages, with the beginning of another one behind it, is cut
  into reads, the messages are handed over one after the other and the beginning stays.
\<close>

lemma reads_stream:
  assumes "malloc_ok malloc" "\<forall>(r, hm) \<in> set rs. message_text W r hm \<and> dynamic hm" "waits W p"
    "io_ok (recv c)" "serving c = None" "waits W (io_text (recv c))" "\<forall>d \<in> set ds. length d \<le> MG_IO_SIZE"
    "io_text (recv c) @ concat ds = stream rs @ p" "length (stream rs @ p) + MG_IO_SIZE \<le> MG_MAX_RECV_BUF_SIZE"
  shows "case serve_all malloc handle (messages rs) c st of
      None \<Rightarrow> reads W malloc beyond handle ds c st = None
    | Some (c', st') \<Rightarrow> \<exists>io. io_ok io \<and> io_text io = p \<and> reads W malloc beyond handle ds c st = Some (c'\<lparr>recv := io\<rparr>, st')"
  using assms(2,4-9)
proof (induction ds arbitrary: rs c st)
  case Nil
  have "rs = []"
  proof (cases rs)
    case (Cons rhm rs')
    obtain r hm where rhm: "rhm = (r, hm)" by (cases rhm)
    then have m: "message_text W r hm" using Cons Nil.prems(1) by simp
    have "waits W (r @ (stream rs' @ p))" using Nil.prems(4,6) by (simp add: Cons rhm)
    then have "waits W r" by (rule waits_prefix)
    with m show ?thesis using parse_0 [of r W] by (auto simp: waits_def message_text_def)
  qed
  moreover have "c\<lparr>recv := recv c\<rparr> = c" by simp
  ultimately show ?case using Nil.prems(2,6) by (auto intro: exI [of _ "recv c"])
next
  case (Cons d ds)
  from Cons.prems(6) have "(io_text (recv c) @ d) @ concat ds = stream rs @ p" by simp
  moreover have "\<forall>(r, hm) \<in> set rs. message_text W r hm" using Cons.prems(1) by blast
  ultimately obtain rs1 rs2 q where
    split: "rs = rs1 @ rs2" "io_text (recv c) @ d = stream rs1 @ q" "q @ concat ds = stream rs2 @ p" "waits W q"
    using stream_prefix [OF _ _ assms(3)] by blast
  have "length (io_text (recv c)) \<le> length (stream rs @ p)"
    using arg_cong [OF Cons.prems(6), of length] by simp
  then have "io_len (recv c) + MG_IO_SIZE \<le> MG_MAX_RECV_BUF_SIZE"
    using Cons.prems(7) io_text_length [OF Cons.prems(2)] by simp
  from read_conn_bytes [OF Cons.prems(2,3) assms(1) _ this, of d W beyond handle st] Cons.prems(5)
  obtain io where io: "io_ok io" "io_text io = stream rs1 @ q"
    "read_conn W malloc beyond handle (Bytes d) c st = http_cb W malloc beyond handle False (c\<lparr>recv := io\<rparr>) st"
    using split(2) by auto
  have cb: "http_cb W malloc beyond handle False (c\<lparr>recv := io\<rparr>) st =
      map_option (\<lambda>(c', st'). (c'\<lparr>recv := consumed rs1 io\<rparr>, st')) (serve_all malloc handle (messages rs1) c st)"
    using http_cb_stream [of "c\<lparr>recv := io\<rparr>" rs1 q W malloc beyond handle st] io(1,2) split(1,4) Cons.prems(1)
    by (auto simp: serve_all_recv option.map_comp comp_def split_def)
  show ?case
  proof (cases "serve_all malloc handle (messages rs1) c st")
    case None
    then show ?thesis by (simp add: split(1) serve_all_append io(3) cb)
  next
    case (Some cst)
    obtain c1 st1 where c1: "cst = (c1, st1)" by (cases cst)
    let ?c = "c1\<lparr>recv := consumed rs1 io\<rparr>"
    have "serving c1 = None"
      by (rule serve_all_keeps_cb [OF _ Some [unfolded c1] Cons.prems(3)])
         (use Cons.prems(1) split(1) in \<open>auto simp: messages_def\<close>)
    moreover note consumed_text [OF io(1,2)]
    moreover have "length (stream rs2 @ p) + MG_IO_SIZE \<le> MG_MAX_RECV_BUF_SIZE" using Cons.prems(7) split(1) by simp
    ultimately have "case serve_all malloc handle (messages rs2) ?c st1 of
        None \<Rightarrow> reads W malloc beyond handle ds ?c st1 = None
      | Some (c', st') \<Rightarrow> \<exists>io. io_ok io \<and> io_text io = p \<and> reads W malloc beyond handle ds ?c st1 = Some (c'\<lparr>recv := io\<rparr>, st')"
      using Cons.IH [of rs2 ?c st1] Cons.prems(1,5) split by auto
    then show ?thesis
      using Some by (auto simp: split(1) serve_all_append io(3) cb c1 serve_all_recv split: option.splits)
  qed
qed

end

section \<open>A message of length zero\<close>

text \<open>Nothing is removed for it, so the loop parses the same text again for ever.\<close>

definition endless :: "nat \<Rightarrow> string \<Rightarrow> bool" where
  "endless W s \<longleftrightarrow> (\<exists>n hm. mg_http_parse W s = Some (n, hm) \<and> 0 < n \<and> \<not> mg_is_chunked hm \<and> hm_message_len hm = 0)"

lemma endless_round:
  assumes "endless W (io_text (recv c))" "io_ok (recv c)"
  obtains n hm where "mg_http_parse W (io_text (recv c)) = Some (n, hm)" "0 < n" "hm_message_len hm = 0"
    "http_message_of W False (io_text (recv c)) n hm = (io_text (recv c), hm)"
    "c\<lparr>recv := set_text (io_text (recv c)) (recv c)\<rparr> = c"
  using assms by (auto simp: endless_def http_message_of_def set_text_same)

lemma delete_0: "io_ok io \<Longrightarrow> mg_iobuf_delete 0 io = io"
  by (simp add: mg_iobuf_delete_def io_ok_def io_size_def store_bytes_def)

lemma http_cb_no_result:
  "http_cb W malloc beyond handle close c st = Some y \<Longrightarrow>
    \<not> (\<not> close \<and> io_ok (recv c) \<and> endless W (io_text (recv c)))"
proof (rule http_cb.raw_induct [where P = "\<lambda>W malloc beyond handle close c st y.
    \<not> (\<not> close \<and> io_ok (recv c) \<and> endless W (io_text (recv c)))"])
  fix cb W malloc beyond handle close and c :: http_conn and st and y :: "http_conn \<times> 'b"
  assume IH: "\<And>W malloc beyond handle close c st y. cb W malloc beyond handle close c st = Some y \<Longrightarrow>
      \<not> (\<not> close \<and> io_ok (recv c) \<and> endless W (io_text (recv c)))"
    and body: "Option.bind (mg_http_parse W (io_text (recv c))) (\<lambda>(n, hm).
       let (buf, hm) = http_message_of W close (io_text (recv c)) n hm;
           c = c\<lparr>recv := set_text buf (recv c)\<rparr>
       in if n < 0 \<and> \<not> close then Some (c\<lparr>is_closing := True\<rparr>, st)
          else if 0 < n \<and> hm_message_len hm \<le> io_len (recv c) then
            Option.bind (handle hm (body_text beyond buf hm) st) (\<lambda>(st, out, f).
              let c = answer malloc out f c
              in cb W malloc beyond handle close (c\<lparr>recv := mg_iobuf_delete (hm_message_len hm) (recv c)\<rparr>) st)
          else Some (c, st)) = Some y"
  show "\<not> (\<not> close \<and> io_ok (recv c) \<and> endless W (io_text (recv c)))"
  proof
    assume a: "\<not> close \<and> io_ok (recv c) \<and> endless W (io_text (recv c))"
    then obtain n hm where "mg_http_parse W (io_text (recv c)) = Some (n, hm)" "0 < n" "hm_message_len hm = 0"
      "http_message_of W False (io_text (recv c)) n hm = (io_text (recv c), hm)"
      "c\<lparr>recv := set_text (io_text (recv c)) (recv c)\<rparr> = c"
      by (elim conjE endless_round)
    with body a obtain st1 out f where
      "cb W malloc beyond handle close ((answer malloc out f c)\<lparr>recv := mg_iobuf_delete 0 (recv c)\<rparr>) st1 = Some y"
      by (auto simp: bind_Some_iff Let_def)
    from IH [OF this] a show False by (simp add: delete_0)
  qed
qed

text \<open>One round on such a message changes nothing but what the handler does.\<close>

definition endless_call :: "nat \<Rightarrow> (nat \<Rightarrow> char) \<Rightarrow> string \<Rightarrow> http_message \<times> string" where
  "endless_call W beyond buf =
     (case mg_http_parse W buf of Some (n, hm) \<Rightarrow> (hm, body_text beyond buf hm) | None \<Rightarrow> (empty_message, []))"

lemma endless_step:
  assumes "io_ok (recv c)" "endless W (io_text (recv c))"
  shows "http_cb W malloc beyond handle False c st =
    (case endless_call W beyond (io_text (recv c)) of (hm, body) \<Rightarrow>
      Option.bind (handle hm body st) (\<lambda>(st, out, f). http_cb W malloc beyond handle False (answer malloc out f c) st))"
proof -
  obtain n hm where hm: "mg_http_parse W (io_text (recv c)) = Some (n, hm)" "0 < n" "hm_message_len hm = 0"
    "http_message_of W False (io_text (recv c)) n hm = (io_text (recv c), hm)"
    "c\<lparr>recv := set_text (io_text (recv c)) (recv c)\<rparr> = c"
    using endless_round [OF assms(2,1)] by blast
  have same: "(answer malloc out f c)\<lparr>recv := recv c\<rparr> = answer malloc out f c" for out f
    using answer_recv(2) [of malloc out f c] by (metis http_conn.surjective http_conn.update_convs(1))
  show ?thesis
    using hm(2) by (subst http_cb.simps) (simp add: hm(1,3,4,5) endless_call_def delete_0 [OF assms(1)] same Let_def)
qed

lemma endless_rounds:
  assumes "io_ok (recv c)" "endless W (io_text (recv c))"
  shows "http_cb W malloc beyond handle False c st =
    Option.bind (serve_all malloc handle (replicate k (endless_call W beyond (io_text (recv c)))) c st)
      (\<lambda>(c, st). http_cb W malloc beyond handle False c st)"
  using assms
proof (induction k arbitrary: c st)
  case (Suc k)
  obtain hm body where e: "endless_call W beyond (io_text (recv c)) = (hm, body)"
    by (cases "endless_call W beyond (io_text (recv c))")
  have "http_cb W malloc beyond handle False (answer malloc out f c) st1 =
      Option.bind (serve_all malloc handle (replicate k (hm, body)) (answer malloc out f c) st1)
        (\<lambda>(c, st). http_cb W malloc beyond handle False c st)" for out f st1
    using Suc.IH [of "answer malloc out f c" st1] Suc.prems e by simp
  then show ?case
    using endless_step [OF Suc.prems, of malloc beyond handle st] e
    by (cases "handle hm body st") auto
qed simp

lemma cancelled_endless:
  assumes "token meth" "path_ok uri" "token proto" "headers_ok hs"
    "mg_http_get_header hs ''Content-Length'' = Some v" "mg_to64 v = Some (- int (length (head_text meth uri proto hs)))"
    "length (head_text meth uri proto hs) < 2 ^ W" "mg_http_get_header hs ''Transfer-Encoding'' = None"
  shows "endless W (head_text meth uri proto hs @ rest)"
proof -
  have "\<not> mg_is_chunked ((head_message meth uri proto hs 0)\<lparr>hm_body_len := b, hm_message_len := m\<rparr>)" for b m
    using assms(8) by (simp add: mg_is_chunked_def head_message_def Let_def get_header_padded [OF assms(4)])
  moreover have "head_text meth uri proto hs \<noteq> []" by (simp add: head_text_def)
  ultimately show ?thesis
    using parse_cancelled_length [OF assms(1-7), of rest] by (simp add: endless_def)
qed

text \<open>
  C25: A request whose content length is minus the length of its head stops the server for good: whatever
  handler is installed, the protocol handler never returns from it but runs the request handler on the
  same message again and again.
\<close>
theorem cancelled_length_never_returns:
  assumes "token meth" "path_ok uri" "token proto" "headers_ok hs"
    "mg_http_get_header hs ''Content-Length'' = Some v" "mg_to64 v = Some (- int (length (head_text meth uri proto hs)))"
    "length (head_text meth uri proto hs) < 2 ^ W" "mg_http_get_header hs ''Transfer-Encoding'' = None"
    "io_ok (recv c)" "io_text (recv c) = head_text meth uri proto hs @ rest"
  shows "http_cb W malloc beyond handle False c st = None \<and>
    (\<forall>k. http_cb W malloc beyond handle False c st =
      Option.bind (serve_all malloc handle (replicate k (endless_call W beyond (io_text (recv c)))) c st)
        (\<lambda>(c, st). http_cb W malloc beyond handle False c st))"
proof -
  have e: "endless W (io_text (recv c))" unfolding assms(10) by (rule cancelled_endless [OF assms(1-8)])
  have none: "http_cb W malloc beyond handle False c st = None"
    using http_cb_no_result [of W malloc beyond handle False c st] e assms(9) by (cases "http_cb W malloc beyond handle False c st") auto
  show ?thesis by (intro conjI allI none) (rule endless_rounds [OF assms(9) e])
qed

theorem cancelled_length_never_returns_witness:
  "http_cb 32 (\<lambda>n. None) (\<lambda>i. CHR 0x00) (\<lambda>hm body n. Some (n + 1, [], None)) False
    \<lparr>recv = \<lparr>io_mem = head_text ''GET'' ''/load'' ''HTTP/1.1'' [(''Content-Length'', ''-43'')], io_len = 43\<rparr>,
     send = \<lparr>io_mem = [], io_len = 0\<rparr>, is_closing = False, serving = None\<rparr> (0 :: nat) = None"
proof -
  let ?hs = "[(''Content-Length'', ''-43'')]"
  let ?head = "head_text ''GET'' ''/load'' ''HTTP/1.1'' ?hs"
  have w: "token ''GET''" "path_ok ''/load''" "token ''HTTP/1.1''" "headers_ok ?hs"
    by (simp_all add: token_def path_ok_def is_print_def headers_ok_def header_ok_def MG_MAX_HTTP_HEADERS_def)
  have h: "mg_http_get_header ?hs ''Content-Length'' = Some ''-43''" "mg_http_get_header ?hs ''Transfer-Encoding'' = None"
    using mg_ncasecmp_self [of "''Content-Length''" "[]" "[]"] by (simp_all add: mg_http_get_header_def MG_MAX_HTTP_HEADERS_def)
  have l: "length ?head = 43" by (simp add: head_text_def header_text_def)
  have n: "mg_to64 ''-43'' = Some (- int (length ?head))"
    unfolding l by (simp add: mg_to64_def is_digit_def int64_ok_def)
  from l have "length ?head < 2 ^ 32" by simp
  note never = cancelled_length_never_returns [OF w h(1) n this h(2)]
  show ?thesis by (rule never [where rest = "[]", THEN conjunct1]) (simp_all add: io_ok_def io_size_def io_text_def l)
qed

section \<open>The end of a connection\<close>

text \<open>
  When the peer closes, whatever has arrived of a message is handed over as if it were the whole: a
  body that is cut short is not recognised as such.
\<close>

lemma http_cb_close:
  assumes "io_ok (recv c)" "mg_http_parse W (io_text (recv c)) = Some (n, hm)" "0 < n"
  shows "http_cb W malloc beyond handle True c st =
    Option.bind (handle (hm\<lparr>hm_message_len := io_len (recv c), hm_body_len := io_len (recv c) - hm_head hm\<rparr>)
                   (drop (hm_head hm) (io_text (recv c))) st)
      (\<lambda>(st, out, f). Some ((answer malloc out f c)\<lparr>recv := mg_iobuf_delete (io_len (recv c)) (recv c)\<rparr>, st))"
proof -
  let ?io = "mg_iobuf_delete (io_len (recv c)) (recv c)"
  have "0 < mg_http_get_request_len (io_text (recv c))"
    using assms(2,3) by (cases "0 < mg_http_get_request_len (io_text (recv c))") (auto simp: parse_nonpos)
  with parse_SomeD [OF assms(2)] assms(1,3) have head: "hm_head hm \<le> io_len (recv c)" by auto
  note del = mg_iobuf_delete_text [OF assms(1) order_refl]
  have "mg_http_get_request_len [] = 0" by (simp add: mg_http_get_request_len_def request_len_from.simps)
  then have last: "http_cb W malloc beyond handle True (c1\<lparr>recv := ?io\<rparr>) st1 = Some (c1\<lparr>recv := ?io\<rparr>, st1)" for c1 st1
    using set_text_same [OF del(2)] del(1) assms(1)
    by (subst http_cb.simps) (simp add: parse_0 http_message_of_def)
  let ?hm = "hm\<lparr>hm_message_len := io_len (recv c), hm_body_len := io_len (recv c) - hm_head hm\<rparr>"
  have "body_text beyond (io_text (recv c) @ []) ?hm = message_body (io_text (recv c)) ?hm"
    by (rule body_text_inside) (use head assms(1) in simp)
  then have body: "body_text beyond (io_text (recv c)) ?hm = drop (hm_head hm) (io_text (recv c))"
    by (simp add: message_body_def)
  have same: "c\<lparr>recv := set_text (io_text (recv c)) (recv c)\<rparr> = c" using assms(1) by (simp add: set_text_same)
  show ?thesis
    by (subst http_cb.simps)
       (use assms same body last in \<open>simp add: http_message_of_def Let_def\<close>)
qed

end
