(* ===== verification/MgCodec.thy ===== *)
theory MgCodec
  imports MgConn MgServe
begin

text \<open>
  The encodings of the web server library and what is sent in them: base64, the % encoding of URLs, the variables of a
  query, and the user name and password of basic authentication, which a client adds with \<open>mg_http_bauth\<close> and a
  server reads with \<open>mg_http_creds\<close>.  The camera server uses none of it.  \<open>None\<close> is a store or an access
  outside the object.
\<close>

unbundle bit_operations_syntax

section \<open>Base64\<close>

definition mg_b64idx :: "nat \<Rightarrow> char" where
  "mg_b64idx c =
     (if c < 26 then char_of (c + 65)
      else if c < 52 then char_of (c - 26 + 97)
      else if c < 62 then char_of (c - 52 + 48)
      else if c = 62 then CHR ''+'' else CHR ''/'')"

definition mg_b64rev :: "char \<Rightarrow> int" where
  "mg_b64rev ch =
     (let c = of_char ch in
      if 65 \<le> c \<and> c \<le> 90 then c - 65
      else if 97 \<le> c \<and> c \<le> 122 then c + 26 - 97
      else if 48 \<le> c \<and> c \<le> 57 then c + 52 - 48
      else if ch = CHR ''+'' then 62
      else if ch = CHR ''/'' then 63
      else if ch = CHR ''='' then 64
      else - 1)"

definition store_char :: "nat \<Rightarrow> char \<Rightarrow> string \<Rightarrow> string option" where
  "store_char i ch b = (if i < length b then Some (b[i := ch]) else None)"

text \<open>\<open>to\<close> has the bits left over from the last byte in \<open>to[n]\<close>.\<close>

definition mg_base64_update :: "nat \<Rightarrow> string \<Rightarrow> nat \<Rightarrow> (nat \<times> string) option" where
  "mg_base64_update ch to n =
     (let rem = n mod 4 mod 3 in
      if rem = 0 then do {
        to \<leftarrow> store_char n (mg_b64idx (ch div 4)) to;
        to \<leftarrow> store_char (n + 1) (char_of (ch mod 4 * 16)) to;
        Some (n + 1, to)
      } else if rem = 1 then do {
        to \<leftarrow> store_char n (mg_b64idx (of_char (to ! n) OR ch div 16)) to;
        to \<leftarrow> store_char (n + 1) (char_of (ch mod 16 * 4)) to;
        Some (n + 1, to)
      } else do {
        to \<leftarrow> store_char n (mg_b64idx (of_char (to ! n) OR ch div 64)) to;
        to \<leftarrow> store_char (n + 1) (mg_b64idx (ch mod 64)) to;
        Some (n + 2, to)
      })"

fun pad_loop :: "nat \<Rightarrow> nat \<Rightarrow> string \<Rightarrow> (nat \<times> string) option" where
  "pad_loop 0 n to = Some (n, to)"
| "pad_loop (Suc k) n to = do { to \<leftarrow> store_char n CHR ''='' to; pad_loop k (n + 1) to }"

text \<open>The loop \<open>while (n & 3)\<close> runs \<open>(4 - n mod 4) mod 4\<close> times.\<close>

definition mg_base64_final :: "string \<Rightarrow> nat \<Rightarrow> (nat \<times> string) option" where
  "mg_base64_final to n = do {
     let saved = n;
     (n, to) \<leftarrow> (if n mod 4 \<noteq> 0 then mg_base64_update 0 to n else Some (n, to));
     let n = (if saved mod 4 = 2 then n - 1 else n);
     (n, to) \<leftarrow> pad_loop ((4 - n mod 4) mod 4) n to;
     to \<leftarrow> store_char n CHR 0x00 to;
     Some (n, to)
   }"

fun base64_loop :: "string \<Rightarrow> nat \<Rightarrow> string \<Rightarrow> (nat \<times> string) option" where
  "base64_loop [] len to = Some (len, to)"
| "base64_loop (c # p) len to = do { (len, to) \<leftarrow> mg_base64_update (of_char c) to len; base64_loop p len to }"

definition mg_base64_encode :: "string \<Rightarrow> string \<Rightarrow> (nat \<times> string) option" where
  "mg_base64_encode p to = do { (len, to) \<leftarrow> base64_loop p 0 to; mg_base64_final to len }"

text \<open>The bytes of \<open>dst\<close> keep the low eight bits of what is stored.\<close>

fun base64_decode_loop :: "string \<Rightarrow> nat \<Rightarrow> string \<Rightarrow> (nat \<times> string) option" where
  "base64_decode_loop (s0 # s1 # s2 # s3 # src) len dst =
     (let a = mg_b64rev s0; b = mg_b64rev s1; c = mg_b64rev s2; d = mg_b64rev s3 in
      if a = 64 \<or> a < 0 \<or> b = 64 \<or> b < 0 \<or> c < 0 \<or> d < 0 then Some (0, dst)
      else do {
        dst \<leftarrow> store_char len (char_of (nat (a * 4 OR b div 16))) dst;
        (len, dst) \<leftarrow> (if s2 \<noteq> CHR ''='' then do {
            dst \<leftarrow> store_char (len + 1) (char_of (nat (b * 16 OR c div 4))) dst;
            if s3 \<noteq> CHR ''='' then do {
              dst \<leftarrow> store_char (len + 2) (char_of (nat (c * 64 OR d))) dst;
              Some (len + 3, dst)
            } else Some (len + 2, dst)
          } else Some (len + 1, dst));
        base64_decode_loop src len dst
      })"
| "base64_decode_loop src len dst = do { dst \<leftarrow> store_char len CHR 0x00 dst; Some (len, dst) }"

definition mg_base64_decode :: "string \<Rightarrow> string \<Rightarrow> (nat \<times> string) option" where
  "mg_base64_decode src dst = base64_decode_loop src 0 dst"

section \<open>URLs and queries\<close>

definition mg_is_url_safe :: "char \<Rightarrow> bool" where
  "mg_is_url_safe ch \<longleftrightarrow>
     (let c = of_char ch :: nat in 48 \<le> c \<and> c \<le> 57 \<or> 97 \<le> c \<and> c \<le> 122 \<or> 65 \<le> c \<and> c \<le> 90) \<or>
     ch = CHR ''.'' \<or> ch = CHR ''_'' \<or> ch = CHR ''-'' \<or> ch = CHR ''~''"

definition hex_of :: "nat \<Rightarrow> char" where
  "hex_of n = ''0123456789abcdef'' ! n"

text \<open>The digits; the NUL that the code stores behind them is overwritten or behind the text that is counted.\<close>

fun mg_hex :: "string \<Rightarrow> string" where
  "mg_hex [] = []"
| "mg_hex (p # s) = hex_of (of_char p div 16) # hex_of (of_char p mod 16) # mg_hex s"

text \<open>What is written to a buffer of \<open>len\<close> bytes, \<open>buf\<close> being there already, and the result.\<close>

fun mg_url_encode :: "string \<Rightarrow> string \<Rightarrow> nat \<Rightarrow> string \<times> nat" where
  "mg_url_encode [] buf len = (buf, length buf)"
| "mg_url_encode (c # s) buf len =
     (if length buf + 4 \<ge> len then (buf, 0)
      else if mg_is_url_safe c then mg_url_encode s (buf @ [c]) len
      else mg_url_encode s (buf @ CHR ''%'' # mg_hex [c]) len)"

text \<open>
  The value of a variable: the bytes written to \<open>dst\<close>, whether a NUL follows them, and the result.  \<open>first\<close> is
  \<open>p == buf->ptr || p[-1] == '&'\<close>.
\<close>

fun get_var_loop :: "string \<Rightarrow> bool \<Rightarrow> string \<Rightarrow> nat \<Rightarrow> string \<times> bool \<times> int" where
  "get_var_loop name first [] dst_len = ([], True, - 4)"
| "get_var_loop name first (x # p) dst_len =
     (if \<not> length name < length (x # p) then ([], True, - 4)
      else if first \<and> (x # p) ! length name = CHR ''='' \<and> mg_ncasecmp name (x # p) (length name) = 0
      then let v = takeWhile (\<lambda>ch. ch \<noteq> CHR ''&'') (drop (length name + 1) (x # p));
               (dst, terminated, len) = mg_url_decode v [] dst_len True
           in (dst, terminated \<or> dst = [], if len < 0 then - 3 else len)
      else get_var_loop name (x = CHR ''&'') p dst_len)"

definition mg_http_get_var :: "string \<Rightarrow> string \<Rightarrow> nat \<Rightarrow> string \<times> bool \<times> int" where
  "mg_http_get_var buf name dst_len =
     (if dst_len = 0 then ([], False, - 2)
      else if buf = [] then ([], True, - 1)
      else get_var_loop name True buf dst_len)"

section \<open>Credentials\<close>

text \<open>The header line that a client adds to its send buffer; without memory nothing is added.\<close>

definition mg_http_bauth :: "(nat \<Rightarrow> string option) \<Rightarrow> string \<Rightarrow> string \<Rightarrow> iobuf \<Rightarrow> iobuf option" where
  "mg_http_bauth malloc user pass io =
     (let need = io_len io + 36 + (length user + length pass) * 2;
          io = (if io_size io < need then snd (mg_iobuf_resize malloc need io) else io)
      in if io_size io \<ge> need then do {
           let m = take (io_len io) (io_mem io) @ ''Authorization: Basic '';
           (n, to) \<leftarrow> base64_loop user 0 (drop (length m) (io_mem io));
           (n, to) \<leftarrow> (if pass \<noteq> [] then base64_loop (CHR '':'' # pass) n to else Some (n, to));
           (n, to) \<leftarrow> mg_base64_final to n;
           let m = m @ to;
           let l = io_len io + 21 + n + 2;
           Some (io\<lparr>io_mem := take (l - 2) m @ CRLF @ drop l m, io_len := l\<rparr>)
         } else Some io)"

text \<open>
  \<open>snprintf\<close> of a string with a precision: the string ends at a NUL and is cut to the buffer.  In a cookie shorter than
  13 bytes the bound of the loop wraps around and the search goes on behind the value.
\<close>

definition print_part :: "nat \<Rightarrow> string \<Rightarrow> string" where
  "print_part cap s = take (cap - 1) (cstr s)"

fun cookie_token :: "string \<Rightarrow> string option" where
  "cookie_token [] = None"
| "cookie_token (x # s) =
     (if \<not> 13 < length (x # s) then None
      else if take 13 (x # s) = ''access_token='' then Some (takeWhile (\<lambda>ch. ch \<noteq> CHR '';'' \<and> ch \<noteq> CHR '' '') (drop 13 (x # s)))
      else cookie_token s)"

definition starts_with :: "string \<Rightarrow> string \<Rightarrow> bool" where
  "starts_with s v \<longleftrightarrow> length v > length s \<and> take (length s) v = s"

definition creds_of_cookie :: "string \<Rightarrow> http_message \<Rightarrow> string option \<Rightarrow> nat \<Rightarrow> (string \<times> string) option" where
  "creds_of_cookie rest hm cookie passlen =
     (case cookie of
        Some v \<Rightarrow>
          if length v < 13 then None
          else Some ([], case cookie_token v of None \<Rightarrow> [] | Some t \<Rightarrow> print_part passlen t)
      | None \<Rightarrow>
          let (dst, terminated, n) = mg_http_get_var (hm_query hm) ''access_token'' passlen
          in Some ([], cstr (dst @ (if terminated then [] else rest))))"

text \<open>User and password; \<open>junk\<close> is what the array of 256 bytes held before, \<open>rest\<close> what is in \<open>pass\<close> behind an unterminated value.\<close>

definition mg_http_creds :: "string \<Rightarrow> string \<Rightarrow> http_message \<Rightarrow> nat \<Rightarrow> nat \<Rightarrow> (string \<times> string) option" where
  "mg_http_creds junk rest hm userlen passlen =
     (let auth = mg_http_get_header (hm_headers hm) ''Authorization'';
          cookie = mg_http_get_header (hm_headers hm) ''Cookie''
      in case auth of
        Some v \<Rightarrow>
          if starts_with ''Basic '' v then do {
            (n, buf) \<leftarrow> mg_base64_decode (drop 6 v) junk;
            let s = take n buf;
            let u = takeWhile (\<lambda>ch. ch \<noteq> CHR '':'') s;
            Some (if CHR '':'' \<in> set s
                  then (print_part userlen u, print_part passlen (drop (length u + 1) s)) else ([], []))
          }
          else if starts_with ''Bearer '' v then Some ([], print_part passlen (drop 7 v))
          else creds_of_cookie rest hm cookie passlen
      | None \<Rightarrow> creds_of_cookie rest hm cookie passlen)"

section \<open>What base64 computes\<close>

fun b64 :: "nat list \<Rightarrow> string" where
  "b64 [] = []"
| "b64 [a] = [mg_b64idx (a div 4), mg_b64idx (a mod 4 * 16), CHR ''='', CHR ''='']"
| "b64 [a, b] = [mg_b64idx (a div 4), mg_b64idx (a mod 4 * 16 + b div 16), mg_b64idx (b mod 16 * 4), CHR ''='']"
| "b64 (a # b # c # p) =
     mg_b64idx (a div 4) # mg_b64idx (a mod 4 * 16 + b div 16) # mg_b64idx (b mod 16 * 4 + c div 64) # mg_b64idx (c mod 64) # b64 p"

abbreviation octets_of :: "string \<Rightarrow> nat list" where "octets_of \<equiv> map of_char"

lemma b64_length: "length (b64 p) = 4 * ((length p + 2) div 3)"
proof (induction p rule: b64.induct)
  case (4 a b c p)
  have "(length p + 5) div 3 = (length p + 2) div 3 + 1" by presburger
  with 4 show ?case by (simp add: add.commute)
qed auto

lemma or_disjoint: "y < 2 ^ k \<Longrightarrow> x * 2 ^ k OR y = x * 2 ^ k + (y :: nat)"
proof -
  assume "y < 2 ^ k"
  then have "y = take_bit k y" by (simp add: take_bit_nat_eq_self)
  then have "push_bit k x AND y = 0"
    by (intro bit_eqI) (metis bit_and_iff bit_push_bit_iff_nat bit_take_bit_iff bit_0_eq bot_apply bot_bool_def not_le)
  then show ?thesis by (metis disjunctive_add_eq_or push_bit_eq_mult)
qed

lemma b64_bits:
  "b < 256 \<Longrightarrow> a mod 4 * 16 OR b div 16 = a mod 4 * 16 + (b div 16 :: nat)"
  "c < 256 \<Longrightarrow> b mod 16 * 4 OR c div 64 = b mod 16 * 4 + (c div 64 :: nat)"
  using or_disjoint [of "b div 16" 4 "a mod 4"] or_disjoint [of "c div 64" 2 "b mod 16"] by auto

lemma octet: "of_char c < (256 :: nat)"
  by (simp add: of_char_def)

lemma of_char_small: "n < 256 \<Longrightarrow> of_char (char_of n) = (n :: nat)"
  by simp

lemma mod4: "n mod 4 = 0 \<Longrightarrow> (n + 1) mod 4 = 1 \<and> (n + 2) mod 4 = 2 \<and> (n + 3) mod 4 = (3 :: nat)"
  by presburger

lemma store_at: "store_char (length x) ch (x @ y # z) = Some (x @ ch # z)"
  by (simp add: store_char_def)

lemma update_0:
  assumes "length x mod 4 = 0"
  shows "mg_base64_update ch (x @ y0 # y1 # z) (length x) =
    Some (length x + 1, x @ mg_b64idx (ch div 4) # char_of (ch mod 4 * 16) # z)"
  using assms store_at [of "x @ [mg_b64idx (ch div 4)]"] by (simp add: mg_base64_update_def store_at)

lemma update_1:
  assumes "length x mod 4 = 0" "ch < 256"
  shows "mg_base64_update ch (x @ y0 # char_of (a mod 4 * 16) # y2 # z) (length x + 1) =
    Some (length x + 2, x @ y0 # mg_b64idx (a mod 4 * 16 + ch div 16) # char_of (ch mod 16 * 4) # z)"
proof -
  have "a mod 4 * 16 < 256" by (rule le_less_trans [of _ "3 * 16"]) auto
  then show ?thesis
    using assms mod4 [OF assms(1)] store_at [of "x @ [y0]"] store_at [of "x @ [y0, u]" for u]
    by (simp add: mg_base64_update_def nth_append b64_bits)
qed

lemma update_2:
  assumes "length x mod 4 = 0" "ch < 256"
  shows "mg_base64_update ch (x @ y0 # y1 # char_of (b mod 16 * 4) # y3 # z) (length x + 2) =
    Some (length x + 4, x @ y0 # y1 # mg_b64idx (b mod 16 * 4 + ch div 64) # mg_b64idx (ch mod 64) # z)"
proof -
  have "b mod 16 * 4 < 256" by (rule le_less_trans [of _ "15 * 4"]) auto
  then show ?thesis
    using assms mod4 [OF assms(1)] store_at [of "x @ [y0, y1]"] store_at [of "x @ [y0, y1, u]" for u]
    by (simp add: mg_base64_update_def nth_append b64_bits)
qed

lemma pad_2: "pad_loop 2 (length x) (x @ y0 # y1 # z) = Some (length x + 2, x @ CHR ''='' # CHR ''='' # z)"
  using store_at [of "x @ ''=''"] by (simp add: store_at numeral_2_eq_2)

lemma final_0: "length x mod 4 = 0 \<Longrightarrow> mg_base64_final (x @ y0 # z) (length x) = Some (length x, x @ CHR 0x00 # z)"
  by (simp add: mg_base64_final_def store_at)

lemma final_1:
  assumes "length x mod 4 = 0"
  shows "mg_base64_final (x @ y0 # char_of (a mod 4 * 16) # y2 # y3 # y4 # z) (length x + 1) =
    Some (length x + 4, x @ y0 # mg_b64idx (a mod 4 * 16) # CHR ''='' # CHR ''='' # CHR 0x00 # z)"
proof -
  let ?l = "x @ [y0, mg_b64idx (a mod 4 * 16)]"
  have u: "mg_base64_update 0 (x @ y0 # char_of (a mod 4 * 16) # y2 # y3 # y4 # z) (length x + 1) = 
      Some (length ?l, ?l @ char_of (0 :: nat) # y3 # y4 # z)"
    using update_1 [OF assms, of 0 y0 a y2 "y3 # y4 # z"] by simp
  have p: "pad_loop 2 (length ?l) (?l @ char_of (0 :: nat) # y3 # y4 # z) = Some (length ?l + 2, ?l @ CHR ''='' # CHR ''='' # y4 # z)"
    by (rule pad_2)
  have t: "store_char (length ?l + 2) CHR 0x00 (?l @ CHR ''='' # CHR ''='' # y4 # z) =
      Some (?l @ CHR ''='' # CHR ''='' # CHR 0x00 # z)"
    using store_at [of "?l @ ''==''"] by simp
  have m: "(length x + 1) mod 4 = 1" "length ?l mod 4 = 2" using mod4 [OF assms] by auto
  show ?thesis
    unfolding mg_base64_final_def Let_def u m
    using m(2) p t by simp
qed

lemma final_2:
  assumes "length x mod 4 = 0"
  shows "mg_base64_final (x @ y0 # y1 # char_of (b mod 16 * 4) # y3 # y4 # z) (length x + 2) =
    Some (length x + 4, x @ y0 # y1 # mg_b64idx (b mod 16 * 4) # CHR ''='' # CHR 0x00 # z)"
proof -
  let ?l = "x @ [y0, y1, mg_b64idx (b mod 16 * 4)]"
  have u: "mg_base64_update 0 (x @ y0 # y1 # char_of (b mod 16 * 4) # y3 # y4 # z) (length x + 2) =
      Some (length ?l + 1, ?l @ mg_b64idx 0 # y4 # z)"
    using update_2 [OF assms, of 0 y0 y1 b y3 "y4 # z"] by simp
  have p: "store_char (length ?l) CHR ''='' (?l @ mg_b64idx 0 # y4 # z) = Some (?l @ CHR ''='' # y4 # z)"
    by (rule store_at)
  have t: "store_char (length ?l + 1) CHR 0x00 (?l @ CHR ''='' # y4 # z) = Some (?l @ CHR ''='' # CHR 0x00 # z)"
    using store_at [of "?l @ ''=''"] by simp
  have m: "(length x + 2) mod 4 = 2" "length ?l mod 4 = 3" using mod4 [OF assms] by (simp_all add: add.commute)
  show ?thesis
    unfolding mg_base64_final_def Let_def u m
    using m(2) p t by simp
qed

text \<open>The code writes the encoding and a NUL, and nothing behind them, when there is room.\<close>

lemma room:
  assumes "Suc n \<le> length y"
  obtains y0 z where "y = y0 # z" "n \<le> length z"
  using assms by (cases y) auto

lemma encode_from:
  assumes "length x mod 4 = 0" "length y > length (b64 (octets_of p))"
  shows "base64_loop p (length x) (x @ y) \<bind> (\<lambda>(n, to). mg_base64_final to n) =
    Some (length x + length (b64 (octets_of p)), x @ b64 (octets_of p) @ CHR 0x00 # drop (length (b64 (octets_of p)) + 1) y)"
  using assms
proof (induction "octets_of p" arbitrary: p x y rule: b64.induct)
  case 1
  then obtain y0 z where "y = y0 # z" by (cases y) auto
  with 1 show ?case by (simp add: final_0)
next
  case (2 a)
  then obtain c where p: "p = [c]" by auto
  from 2 have "Suc (Suc (Suc (Suc (Suc 0)))) \<le> length y" by (simp add: p)
  then obtain y0 y1 y2 y3 y4 z where y: "y = y0 # y1 # y2 # y3 # y4 # z" by (metis room)
  show ?case
    using final_1 [OF 2(2), of _ "of_char c"] by (simp add: p y update_0 [OF 2(2), simplified])
next
  case (3 a b)
  then obtain c d where p: "p = [c, d]" by auto
  from 3 have "Suc (Suc (Suc (Suc (Suc 0)))) \<le> length y" by (simp add: p)
  then obtain y0 y1 y2 y3 y4 z where y: "y = y0 # y1 # y2 # y3 # y4 # z" by (metis room)
  show ?case
    using final_2 [OF 3(2), of _ _ "of_char d"] update_1 [OF 3(2) octet, of d _ "of_char c"]
    by (simp add: p y update_0 [OF 3(2), simplified])
next
  case (4 a b c r)
  then obtain c0 c1 c2 q where p: "p = c0 # c1 # c2 # q" "r = octets_of q" by auto
  from 4 have "Suc (Suc (Suc (Suc (length (b64 r))))) < length y" by (simp add: p)
  then have "Suc (Suc (Suc (Suc (Suc (length (b64 r)))))) \<le> length y" by simp
  then obtain y0 y1 y2 y3 z where y: "y = y0 # y1 # y2 # y3 # z" "length z > length (b64 r)" by (metis room Suc_le_eq)
  let ?w = "[mg_b64idx (of_char c0 div 4), mg_b64idx (of_char c0 mod 4 * 16 + of_char c1 div 16),
    mg_b64idx (of_char c1 mod 16 * 4 + of_char c2 div 64), mg_b64idx (of_char c2 mod 64)]"
  have "base64_loop p (length x) (x @ y) = base64_loop q (length x + 4) ((x @ ?w) @ z)"
    using update_1 [OF 4(3) octet, of c1 _ "of_char c0"] update_2 [OF 4(3) octet, of c2 _ _ "of_char c1"]
    by (simp add: p y update_0 [OF 4(3), simplified])
  moreover have l: "length (x @ ?w) = length x + 4" by simp
  moreover have "length (x @ ?w) mod 4 = 0" unfolding l using 4(3) by simp
  ultimately have "base64_loop p (length x) (x @ y) \<bind> (\<lambda>(n, to). mg_base64_final to n) =
      Some (length (x @ ?w) + length (b64 r), (x @ ?w) @ b64 r @ CHR 0x00 # drop (length (b64 r) + 1) z)"
    using 4(1) [of q "x @ ?w" z] y(2) p(2) by metis
  then show ?case by (simp add: p y(1))
qed

theorem base64_encodes:
  assumes "length to > 4 * ((length p + 2) div 3)"
  shows "mg_base64_encode p to =
    Some (length (b64 (octets_of p)), b64 (octets_of p) @ CHR 0x00 # drop (length (b64 (octets_of p)) + 1) to)"
  using encode_from [where x = "[]" and y = to and p = p] assms by (simp add: mg_base64_encode_def b64_length)

lemma rev_range:
  assumes "of_char ch = int n"
  shows "65 \<le> n \<Longrightarrow> n \<le> 90 \<Longrightarrow> mg_b64rev ch = int n - 65" "97 \<le> n \<Longrightarrow> n \<le> 122 \<Longrightarrow> mg_b64rev ch = int n - 71"
    "48 \<le> n \<Longrightarrow> n \<le> 57 \<Longrightarrow> mg_b64rev ch = int n + 4"
  using assms by (simp_all add: mg_b64rev_def)

lemma of_char_int: "n < 256 \<Longrightarrow> of_char (char_of n) = int n"
  by (metis of_char_small of_nat_of_char)

lemma rev_idx:
  assumes "n < 64"
  shows "mg_b64rev (mg_b64idx n) = int n"
proof -
  consider "n < 26" | "26 \<le> n" "n < 52" | "52 \<le> n" "n < 62" | "n = 62" | "n = 63" using assms by linarith
  then show ?thesis
  proof cases
    case 1
    then have "mg_b64idx n = char_of (n + 65)" by (simp add: mg_b64idx_def)
    then show ?thesis using rev_range(1) [OF of_char_int, of "n + 65"] 1 by simp
  next
    case 2
    then have "mg_b64idx n = char_of (n - 26 + 97)" by (simp add: mg_b64idx_def)
    then show ?thesis using rev_range(2) [OF of_char_int, of "n - 26 + 97"] 2 by simp
  next
    case 3
    then have "mg_b64idx n = char_of (n - 52 + 48)" by (simp add: mg_b64idx_def)
    then show ?thesis using rev_range(3) [OF of_char_int, of "n - 52 + 48"] 3 by simp
  qed (simp_all add: mg_b64idx_def mg_b64rev_def)
qed

lemma idx_pad: "n < 64 \<Longrightarrow> mg_b64idx n \<noteq> CHR ''=''"
  using rev_idx [of n] by (auto simp: mg_b64rev_def)

lemma nat_or: "nat (int a * k OR int b div m) = a * nat k OR b div nat m" if "0 \<le> k" "0 \<le> m"
proof -
  have "int a * k OR int b div m = int (a * nat k OR b div nat m)"
    using that by (simp add: of_nat_or_eq zdiv_int)
  then show ?thesis by simp
qed

lemma char_of_high: "char_of (h * 256 + n) = char_of (n :: nat)"
  by (metis char_of_mod_256 mod_mult_self3)

lemma decoded_bits:
  assumes "a < 256" "b < 256" "c < (256 :: nat)"
  shows "nat (int (a div 4) * 4 OR int (a mod 4 * 16 + b div 16) div 16) = a"
    "char_of (nat (int (a mod 4 * 16 + b div 16) * 16 OR int (b mod 16 * 4 + c div 64) div 4)) = char_of b"
    "char_of (nat (int (b mod 16 * 4 + c div 64) * 64 OR int (c mod 64))) = char_of c"
proof -
  have q: "(a mod 4 * 16 + b div 16) div 16 = a mod 4" "(b mod 16 * 4 + c div 64) div 4 = b mod 16"
    using assms by (simp_all add: div_add1_eq)
  show "nat (int (a div 4) * 4 OR int (a mod 4 * 16 + b div 16) div 16) = a"
    using nat_or [of 4 16 "a div 4" "a mod 4 * 16 + b div 16"] or_disjoint [of "a mod 4" 2 "a div 4"] q(1) by simp
  let ?b = "a mod 4 * 16 + b div 16" and ?c = "b mod 16 * 4 + c div 64"
  have "nat (int ?b * 16 OR int ?c div 4) = ?b * 16 OR b mod 16"
    using nat_or [of 16 4 ?b ?c, OF zero_le_numeral zero_le_numeral] unfolding q(2) nat_numeral .
  also have "\<dots> = a mod 4 * 256 + b"
    using or_disjoint [of "b mod 16" 4 ?b] by simp
  finally have "nat (int ?b * 16 OR int ?c div 4) = a mod 4 * 256 + b" .
  then show "char_of (nat (int (a mod 4 * 16 + b div 16) * 16 OR int (b mod 16 * 4 + c div 64) div 4)) = char_of b"
    by (simp only: char_of_high)
  have "nat (int ?c * 64 OR int (c mod 64)) = ?c * 64 OR c mod 64"
    using nat_or [of 64 1 ?c "c mod 64", OF zero_le_numeral zero_le_one] unfolding nat_numeral div_by_1
    by (simp only: nat_1 One_nat_def [symmetric] div_by_1)
  also have "\<dots> = b mod 16 * 256 + c"
    using or_disjoint [of "c mod 64" 6 ?c] by simp
  finally have "nat (int ?c * 64 OR int (c mod 64)) = b mod 16 * 256 + c" .
  then show "char_of (nat (int (b mod 16 * 4 + c div 64) * 64 OR int (c mod 64))) = char_of c"
    by (simp only: char_of_high)
qed

lemma b64_range:
  "a < 256 \<Longrightarrow> a div 4 < (64 :: nat)" "b < 256 \<Longrightarrow> a mod 4 * 16 + b div 16 < (64 :: nat)"
  "c < 256 \<Longrightarrow> b mod 16 * 4 + c div 64 < (64 :: nat)" "c mod 64 < (64 :: nat)" 
  by auto

lemma rev_pad: "mg_b64rev CHR ''='' = 64"
  by (simp add: mg_b64rev_def)

text \<open>A quadruple of letters that gives one, two or three bytes.\<close>

lemma quad_one:
  assumes "k < 64" "l < 64"
  shows "base64_decode_loop [mg_b64idx k, mg_b64idx l, CHR ''='', CHR ''=''] (length x) (x @ y0 # y1 # z) =
    Some (length x + 1, x @ char_of (nat (int k * 4 OR int l div 16)) # CHR 0x00 # z)"
  using assms store_at [of "x @ [u]" for u] by (simp add: rev_idx rev_pad store_at Let_def)

lemma quad_two:
  assumes "k < 64" "l < 64" "m < 64"
  shows "base64_decode_loop [mg_b64idx k, mg_b64idx l, mg_b64idx m, CHR ''=''] (length x) (x @ y0 # y1 # y2 # z) =
    Some (length x + 2, x @ char_of (nat (int k * 4 OR int l div 16)) # char_of (nat (int l * 16 OR int m div 4)) # CHR 0x00 # z)"
  using assms store_at [of "x @ [u]" for u] store_at [of "x @ [u, v]" for u v]
  by (simp add: rev_idx rev_pad store_at Let_def idx_pad)

lemma quad_three:
  assumes "k < 64" "l < 64" "m < 64" "n < 64"
  shows "base64_decode_loop (mg_b64idx k # mg_b64idx l # mg_b64idx m # mg_b64idx n # r) (length x) (x @ y0 # y1 # y2 # z) =
    base64_decode_loop r (length x + 3) (x @ char_of (nat (int k * 4 OR int l div 16)) #
      char_of (nat (int l * 16 OR int m div 4)) # char_of (nat (int m * 64 OR int n)) # z)"
  using assms store_at [of "x @ [u]" for u] store_at [of "x @ [u, v]" for u v]
  by (simp add: rev_idx store_at Let_def idx_pad)

lemma decode_one:
  assumes "a < 256"
  shows "base64_decode_loop (b64 [a]) (length x) (x @ y0 # y1 # z) = Some (length x + 1, x @ char_of a # CHR 0x00 # z)"
proof -
  have r: "a mod 4 * 16 < 64" by auto
  have q: "nat (int (a div 4) * 4 OR int (a mod 4 * 16) div 16) = a"
    using decoded_bits(1) [of a 0 0, OF assms] by (simp only: div_0 add_0_right)
  show ?thesis unfolding b64.simps quad_one [OF b64_range(1) [OF assms] r] q ..
qed

lemma decode_two:
  assumes "a < 256" "b < 256"
  shows "base64_decode_loop (b64 [a, b]) (length x) (x @ y0 # y1 # y2 # z) =
    Some (length x + 2, x @ char_of a # char_of b # CHR 0x00 # z)"
proof -
  have r: "b mod 16 * 4 < 64" by auto
  have q: "char_of (nat (int (a mod 4 * 16 + b div 16) * 16 OR int (b mod 16 * 4) div 4)) = char_of b"
    using decoded_bits(2) [of a b 0, OF assms] by (simp only: div_0 add_0_right)
  show ?thesis
    unfolding b64.simps quad_two [OF b64_range(1) [OF assms(1)] b64_range(2) [OF assms(2)] r] q
      decoded_bits(1) [of a b 0, OF assms zero_less_numeral] ..
qed

lemma decode_three:
  assumes "a < 256" "b < 256" "c < 256"
  shows "base64_decode_loop (b64 (a # b # c # p)) (length x) (x @ y0 # y1 # y2 # z) =
    base64_decode_loop (b64 p) (length x + 3) (x @ char_of a # char_of b # char_of c # z)"
  unfolding b64.simps quad_three [OF b64_range(1) [OF assms(1)] b64_range(2) [OF assms(2)] b64_range(3) [OF assms(3)] b64_range(4)]
    decoded_bits [OF assms] ..

lemma decode_from:
  assumes "length y > length p" "\<forall>a \<in> set p. a < 256"
  shows "base64_decode_loop (b64 p) (length x) (x @ y) =
    Some (length x + length p, x @ map char_of p @ CHR 0x00 # drop (length p + 1) y)"
  using assms
proof (induction p arbitrary: x y rule: b64.induct)
  case 1
  then obtain y0 z where "y = y0 # z" by (cases y) auto
  then show ?case by (simp add: store_at)
next
  case (2 a)
  then have "Suc (Suc 0) \<le> length y" by simp
  then obtain y0 y1 z where "y = y0 # y1 # z" by (metis room)
  with 2 show ?case by (simp add: decode_one del: b64.simps)
next
  case (3 a b)
  then have "Suc (Suc (Suc 0)) \<le> length y" by simp
  then obtain y0 y1 y2 z where "y = y0 # y1 # y2 # z" by (metis room)
  with 3 show ?case by (simp add: decode_two del: b64.simps)
next
  case (4 a b c p)
  then have "Suc (Suc (Suc (Suc (length p)))) \<le> length y" by simp
  then obtain y0 y1 y2 z where y: "y = y0 # y1 # y2 # z" "length z > length p" by (metis room Suc_le_eq)
  let ?w = "[char_of a, char_of b, char_of c]"
  have l: "length (x @ ?w) = length x + 3" by simp
  have "base64_decode_loop (b64 (a # b # c # p)) (length x) (x @ y) =
      base64_decode_loop (b64 p) (length (x @ ?w)) ((x @ ?w) @ z)"
    using 4(3) decode_three [of a b c p x y0 y1 y2 z] unfolding l by (simp add: y(1) del: b64.simps)
  also have "\<dots> = Some (length (x @ ?w) + length p, (x @ ?w) @ map char_of p @ CHR 0x00 # drop (length p + 1) z)"
    by (rule 4(1) [OF y(2)]) (use 4(3) in simp)
  finally show ?case by (simp add: y(1))
qed

text \<open>What is encoded is decoded again, and never behind a buffer with room for it.\<close>

theorem base64_roundtrip:
  assumes "length to > 4 * ((length p + 2) div 3)" "length dst > length p"
  obtains n e where "mg_base64_encode p to = Some (n, e)" "mg_base64_decode (take n e) dst = Some (length p, p @ CHR 0x00 # drop (length p + 1) dst)"
proof
  show "mg_base64_encode p to = Some (length (b64 (octets_of p)), b64 (octets_of p) @ CHR 0x00 # drop (length (b64 (octets_of p)) + 1) to)"
    using assms(1) by (rule base64_encodes)
  have "map char_of (octets_of p) = p" by (simp add: comp_def)
  then show "mg_base64_decode (take (length (b64 (octets_of p))) (b64 (octets_of p) @ CHR 0x00 # drop (length (b64 (octets_of p)) + 1) to)) dst =
      Some (length p, p @ CHR 0x00 # drop (length p + 1) dst)"
    using decode_from [of "octets_of p" dst "[]"] assms(2) octet by (simp add: mg_base64_decode_def)
qed

section \<open>What URLs and queries carry\<close>

lemma hex_of_nibble: "n < 16 \<Longrightarrow> is_xdigit (hex_of n) \<and> 0 \<le> unhex_digit (hex_of n) \<and> unhex_digit (hex_of n) = int n"
proof -
  have "list_all (\<lambda>n. is_xdigit (hex_of n) \<and> 0 \<le> unhex_digit (hex_of n) \<and> unhex_digit (hex_of n) = int n) [0..<16]"
    by (simp add: upt_rec [of _ 16] hex_of_def is_xdigit_def unhex_digit_def)
  then show "n < 16 \<Longrightarrow> ?thesis" by (simp add: list_all_iff)
qed

lemma unhex_two:
  assumes "h < 16" "l < 16"
  shows "mg_unhexn 8 [hex_of h, hex_of l] = h * 16 + l"
proof -
  have "int h * 16 OR int l = int (h * 16 OR l)" by (simp add: of_nat_or_eq)
  also have "h * 16 OR l = h * 16 + l" using or_disjoint [of l 4 h] assms(2) by simp
  finally have o: "int h * 16 OR int l = int (h * 16 + l)" .
  have "take_bit 8 (int h) = int h" "take_bit 8 (int l) = int l" "take_bit 8 (int h * 16) = int h * 16"
    using assms by (auto simp: take_bit_int_eq_self_iff)
  then show ?thesis
    using hex_of_nibble [OF assms(1)] hex_of_nibble [OF assms(2)] o
    by (simp add: mg_unhexn_def assms del: of_nat_add of_nat_mult)
qed

definition url_escaped :: "char \<Rightarrow> string" where
  "url_escaped c = (if mg_is_url_safe c then [c] else CHR ''%'' # mg_hex [c])"

lemma encode_escapes:
  "mg_url_encode s buf len = (e, n) \<Longrightarrow> n \<noteq> 0 \<or> s = [] \<Longrightarrow> e = buf @ concat (map url_escaped s)"
proof (induction s arbitrary: buf)
  case (Cons c s)
  have "mg_url_encode s (buf @ url_escaped c) len = (e, n)" "n \<noteq> 0"
    using Cons.prems by (auto simp: url_escaped_def split: if_splits)
  with Cons.IH show ?case by fastforce
qed simp

lemma decode_escaped:
  "length dst + length s < dst_len \<Longrightarrow>
   mg_url_decode (concat (map url_escaped s)) dst dst_len form = (dst @ s, True, int (length dst + length s))"
proof (induction s arbitrary: dst)
  case Nil
  then show ?case by (simp add: mg_url_decode.simps)
next
  case (Cons c s)
  have room: "length dst + 1 < dst_len" "length (dst @ [c]) + length s < dst_len" using Cons.prems by auto
  show ?case
  proof (cases "mg_is_url_safe c")
    case True
    then have "c \<noteq> CHR ''%''" "c \<noteq> CHR ''+''" by (auto simp: mg_is_url_safe_def)
    then show ?thesis
      using Cons.IH [OF room(2)] room(1) True by (subst mg_url_decode.simps) (simp add: url_escaped_def [of c])
  next
    case False
    have n: "of_char c div 16 < (16 :: nat)" "of_char c mod 16 < (16 :: nat)"
      using octet [of c] by (simp_all add: less_mult_imp_div_less)
    have "char_of (mg_unhexn 8 [hex_of (of_char c div 16), hex_of (of_char c mod 16)]) = c"
      by (simp add: unhex_two [OF n])
    then show ?thesis
      using Cons.IH [OF room(2)] room(1) False hex_of_nibble [OF n(1)] hex_of_nibble [OF n(2)]
      by (subst mg_url_decode.simps) (simp add: url_escaped_def [of c])
  qed
qed

text \<open>An encoded string, as part of a path or of a form, is decoded to what it was.\<close>

theorem url_roundtrip:
  assumes "mg_url_encode s [] len = (e, n)" "n \<noteq> 0 \<or> s = []" "length s < dst_len"
  shows "mg_url_decode e [] dst_len form = (s, True, int (length s))"
  using decode_escaped [of "[]" s dst_len form] encode_escapes [OF assms(1,2)] assms(3) by simp

text \<open>A form field whose value was encoded is read back from the front of a query, whatever follows it.\<close>

lemma escaped_no_amp: "CHR ''&'' \<notin> set (url_escaped c)"
proof -
  have n: "of_char c div 16 < (16 :: nat)" "of_char c mod 16 < (16 :: nat)"
    using octet [of c] by (simp_all add: less_mult_imp_div_less)
  have "\<not> is_xdigit CHR ''&''" by (simp add: is_xdigit_def)
  then have "hex_of (of_char c div 16) \<noteq> CHR ''&''" "hex_of (of_char c mod 16) \<noteq> CHR ''&''"
    using hex_of_nibble [OF n(1)] hex_of_nibble [OF n(2)] by metis+
  then show ?thesis by (auto simp: url_escaped_def mg_is_url_safe_def)
qed

lemma get_var_first:
  assumes "rest = [] \<or> hd rest = CHR ''&''" "length v < dst_len"
  shows "mg_http_get_var (name @ CHR ''='' # concat (map url_escaped v) @ rest) name dst_len = (v, True, int (length v))"
proof -
  let ?e = "concat (map url_escaped v)"
  have "CHR ''&'' \<notin> set ?e" using escaped_no_amp by auto
  then have w: "takeWhile (\<lambda>ch. ch \<noteq> CHR ''&'') (?e @ rest) = ?e"
    using assms(1) by (cases rest) (auto simp: takeWhile_append)
  obtain x p where xp: "name @ CHR ''='' # ?e @ rest = x # p" by (cases "name @ CHR ''='' # ?e @ rest") auto
  have eq: "length name < length (x # p)" "(x # p) ! length name = CHR ''=''" "drop (length name + 1) (x # p) = ?e @ rest"
    unfolding xp [symmetric] by (simp_all add: nth_append)
  have "mg_ncasecmp name (x # p) (length name) = 0"
    using mg_ncasecmp_self [of name "[]" "CHR ''='' # ?e @ rest"] xp by simp
  then show ?thesis
    using eq assms(2) w decode_escaped [of "[]" v dst_len True] xp
    by (simp only: mg_http_get_var_def get_var_loop.simps) simp
qed

section \<open>User and password\<close>

lemma base64_loop_append:
  "base64_loop (p @ q) n to = base64_loop p n to \<bind> (\<lambda>(n, to). base64_loop q n to)"
  by (induction p arbitrary: n to) (auto simp: bind_assoc split: bind_split)

lemma encode_parts:
  assumes "length to > length (b64 (octets_of (p @ q)))"
  shows "base64_loop p 0 to \<bind> (\<lambda>(n, to). base64_loop q n to \<bind> (\<lambda>(n, to). mg_base64_final to n)) =
    Some (length (b64 (octets_of (p @ q))), b64 (octets_of (p @ q)) @ CHR 0x00 # drop (length (b64 (octets_of (p @ q))) + 1) to)"
proof -
  have "base64_loop p 0 to \<bind> (\<lambda>(n, to). base64_loop q n to \<bind> (\<lambda>(n, to). mg_base64_final to n)) =
      base64_loop (p @ q) 0 to \<bind> (\<lambda>(n, to). mg_base64_final to n)"
    by (simp add: base64_loop_append bind_assoc split_def)
  then show ?thesis using encode_from [where x = "[]" and y = to and p = "p @ q"] assms by simp
qed

lemma b64_Nil: "b64 p = [] \<longleftrightarrow> p = []"
  by (cases p rule: b64.cases) auto

lemma b64_bound: "length (b64 p) \<le> 2 * length p + 4"
  unfolding b64_length by presburger

definition auth_value :: "string \<Rightarrow> string \<Rightarrow> string" where
  "auth_value user pass = ''Basic '' @ b64 (octets_of (user @ (if pass = [] then [] else CHR '':'' # pass)))"

text \<open>A client with memory adds exactly the header line.\<close>

lemma bauth_adds:
  assumes "io_len io \<le> io_size io" "io_len io + 36 + (length user + length pass) * 2 \<le> io_size io"
  shows "\<exists>io'. mg_http_bauth malloc user pass io = Some io' \<and>
    io_text io' = io_text io @ ''Authorization: '' @ auth_value user pass @ CRLF"
proof -
  define m where "m = take (io_len io) (io_mem io) @ ''Authorization: Basic ''"
  define q where "q = (if pass = [] then [] else CHR '':'' # pass)"
  define to where "to = drop (length m) (io_mem io)"
  define e where "e = b64 (octets_of (user @ q))"
  have l: "length m = io_len io + 21" using assms(1) by (simp add: m_def io_size_def)
  have "length e \<le> 2 * (length user + length q) + 4" using b64_bound [of "octets_of (user @ q)"] by (simp add: e_def)
  moreover have "length q \<le> length pass + 1" by (simp add: q_def)
  ultimately have to: "length to > length e"
    using assms(2) unfolding to_def length_drop l io_size_def less_diff_conv by arith
  have c: "\<not> io_size io < io_len io + 36 + (length user + length pass) * 2" using assms(2) by simp
  have parts: "(if pass \<noteq> [] then base64_loop (CHR '':'' # pass) n to else Some (n, to)) = base64_loop q n to" for n to
    by (simp add: q_def)
  define t where "t = m @ e @ CHR 0x00 # drop (length e + 1) to"
  define n where "n = io_len io + 21 + length e + 2"
  have "mg_http_bauth malloc user pass io =
      (base64_loop user 0 to \<bind> (\<lambda>(n, to). base64_loop q n to \<bind> (\<lambda>(n, to). mg_base64_final to n))) \<bind>
      (\<lambda>(n, to). let m = m @ to; l = io_len io + 21 + n + 2 in Some (io\<lparr>io_mem := take (l - 2) m @ CRLF @ drop l m, io_len := l\<rparr>))"
    unfolding mg_http_bauth_def Let_def if_not_P [OF c] if_P [OF assms(2)] m_def [symmetric] parts to_def [symmetric]
    by (simp add: bind_assoc split_def)
  also have "\<dots> = Some (io\<lparr>io_mem := take (n - 2) t @ CRLF @ drop n t, io_len := n\<rparr>)"
    unfolding encode_parts [of user q to, folded e_def, OF to] by (simp only: Option.bind_lunit prod.case Let_def n_def t_def)
  finally have r: "mg_http_bauth malloc user pass io = Some (io\<lparr>io_mem := take (n - 2) t @ CRLF @ drop n t, io_len := n\<rparr>)" .
  have "take (n - 2) t = m @ e" "n = length (m @ e) + 2" using l by (simp_all add: n_def t_def)
  then have "io_text (io\<lparr>io_mem := take (n - 2) t @ CRLF @ drop n t, io_len := n\<rparr>) = m @ e @ CRLF"
    by (simp add: io_text_def)
  then show ?thesis using r by (auto simp: m_def e_def q_def io_text_def auth_value_def)
qed

text \<open>Decoding into an array without room for the text and its NUL leaves the array.\<close>

lemma decode_full:
  assumes "length y \<le> length p" "\<forall>a \<in> set p. a < 256"
  shows "base64_decode_loop (b64 p) (length x) (x @ y) = None"
  using assms
proof (induction p arbitrary: x y rule: b64.induct)
  case 1
  then show ?case by (simp add: store_char_def)
next
  case (2 a)
  then show ?case
    using b64_range(1) [of a] mod_less_divisor [of 4 a]
    by (cases y) (auto simp: store_char_def rev_idx rev_pad Let_def)
next
  case (3 a b)
  then show ?case
    using b64_range(1) [of a] b64_range(2) [of b a] b64_range(3) [of 0 b] idx_pad [of "b mod 16 * 4"]
    by (cases y; cases "tl y") (auto simp: store_char_def rev_idx rev_pad Let_def bind_eq_None_conv)
next
  case (4 a b c p)
  have ok: "a < 256" "b < 256" "c < 256" "\<forall>a \<in> set p. a < 256" using 4(3) by auto
  show ?case
  proof (cases "length y \<ge> 3")
    case True
    then obtain y0 y1 y2 z where y: "y = y0 # y1 # y2 # z" by (metis room numeral_3_eq_3)
    let ?w = "[char_of a, char_of b, char_of c]"
    have l: "length (x @ ?w) = length x + 3" by simp
    have "base64_decode_loop (b64 p) (length (x @ ?w)) ((x @ ?w) @ z) = None"
      by (rule 4(1)) (use 4(2) ok y in simp_all)
    then show ?thesis unfolding y decode_three [OF ok(1-3)] l by simp
  next
    case False
    then have "length y < 3" by simp
    then show ?thesis
      using b64_range(1) [OF ok(1)] b64_range(2) [OF ok(2), of a] b64_range(3) [OF ok(3), of b] b64_range(4) [of c]
        idx_pad [OF b64_range(3) [OF ok(3), of b]] idx_pad [OF b64_range(4) [of c]]
      by (auto simp: store_char_def rev_idx Let_def bind_eq_None_conv)
  qed
qed

text \<open>
  The server reads what the client sent: with room in its arrays user and password when the password is not empty,
  nothing without one; and what is longer than the array of 256 bytes runs over it.
\<close>

theorem credentials_roundtrip:
  assumes "mg_http_get_header (hm_headers hm) ''Authorization'' = Some (auth_value user pass)" "length junk = 256"
    and "CHR '':'' \<notin> set user" "CHR 0x00 \<notin> set user" "CHR 0x00 \<notin> set pass" "length user < userlen" "length pass < passlen" "user \<noteq> [] \<or> pass \<noteq> []"
  shows "mg_http_creds junk rest hm userlen passlen =
    (if pass = [] then if length user < 256 then Some ([], []) else None
     else if length user + length pass + 1 < 256 then Some (user, pass) else None)"
proof -
  let ?p = "user @ (if pass = [] then [] else CHR '':'' # pass)"
  have "b64 (octets_of ?p) \<noteq> []" using assms(8) by (simp add: b64_Nil)
  then have v: "starts_with ''Basic '' (auth_value user pass)" "drop 6 (auth_value user pass) = b64 (octets_of ?p)"
    by (auto simp: starts_with_def auth_value_def)
  have o: "\<forall>a \<in> set (octets_of ?p). a < 256" using octet by auto
  have m: "map char_of (octets_of ?p) = ?p" by (simp add: comp_def)
  have d: "mg_base64_decode (b64 (octets_of ?p)) junk =
      (if length ?p < 256 then Some (length ?p, ?p @ CHR 0x00 # drop (length ?p + 1) junk) else None)"
    using decode_from [of "octets_of ?p" junk "[]", OF _ o] decode_full [of junk "octets_of ?p" "[]", OF _ o] assms(2)
    unfolding m by (simp add: mg_base64_decode_def)
  have "takeWhile (\<lambda>ch. ch \<noteq> CHR '':'') (user @ CHR '':'' # pass) = user" using assms(3) by (induction user) auto
  moreover have "mg_http_creds junk rest hm userlen passlen = mg_base64_decode (b64 (octets_of ?p)) junk \<bind> (\<lambda>(n, buf).
      let s = take n buf; u = takeWhile (\<lambda>ch. ch \<noteq> CHR '':'') s
      in Some (if CHR '':'' \<in> set s then (print_part userlen u, print_part passlen (drop (length u + 1) s)) else ([], [])))"
    unfolding mg_http_creds_def Let_def assms(1) option.case v(2) if_P [OF v(1)] ..
  ultimately show ?thesis
    unfolding d using assms(3-7) by (auto simp: print_part_def cstr_no_NUL)
qed

end
