(* ===== verification/MgTimer.thy ===== *)
theory MgTimer
  imports CText "HOL-Library.Monad_Syntax"
begin

text \<open>
  The timers of the web server library, package/evsoc_camera/src/mongoose.c: registration and the poll that
  runs the callbacks which are due, with the clock and the times at its width.
\<close>

unbundle bit_operations_syntax

section \<open>Timers, timer.c\<close>

text \<open>
  \<open>timer_fn\<close> is the function a timer calls, with its argument, on the state of the program; it does not
  touch the list of timers.  \<open>timer_at\<close> is the address of the structure.
\<close>

record 's timer =
  timer_at :: nat
  period_ms :: int
  timer_flags :: int
  timer_fn :: "'s \<Rightarrow> 's option"
  expire :: nat

definition MG_TIMER_REPEAT :: int where "MG_TIMER_REPEAT = 1"
definition MG_TIMER_RUN_NOW :: int where "MG_TIMER_RUN_NOW = 2"

text \<open>The list \<open>g_timers\<close>; a structure is registered at most once.\<close>

definition mg_timer_init ::
  "nat \<Rightarrow> int \<Rightarrow> int \<Rightarrow> ('s \<Rightarrow> 's option) \<Rightarrow> 's timer list \<Rightarrow> 's \<Rightarrow> ('s timer list \<times> 's) option" where
  "mg_timer_init t ms flags fn g_timers st =
     (let g_timers = \<lparr>timer_at = t, period_ms = ms, timer_flags = flags, timer_fn = fn, expire = 0\<rparr> # g_timers in
      if flags AND MG_TIMER_RUN_NOW \<noteq> 0 then map_option (Pair g_timers) (fn st) else Some (g_timers, st))"

fun mg_timer_free :: "nat \<Rightarrow> 's timer list \<Rightarrow> 's timer list" where
  "mg_timer_free t [] = []"
| "mg_timer_free t (x # xs) = (if timer_at x = t then xs else x # mg_timer_free t xs)"

text \<open>
  The loop of \<open>mg_timer_poll\<close>; times are numbers below \<open>2 ^ W\<close>.  The next element is read before the
  timer runs, so freeing it takes it out of what the loop leaves behind.
\<close>

definition next_expire :: "nat \<Rightarrow> nat \<Rightarrow> 's timer \<Rightarrow> nat" where
  "next_expire W now t =
     (let period = nat (period_ms t mod 2 ^ W) in
      if now - expire t > period then (now + period) mod 2 ^ W else (expire t + period) mod 2 ^ W)"

fun timer_loop :: "nat \<Rightarrow> nat \<Rightarrow> 's timer list \<Rightarrow> 's \<Rightarrow> ('s timer list \<times> 's) option" where
  "timer_loop W now [] st = Some ([], st)"
| "timer_loop W now (t # ts) st =
     (let t = (if expire t = 0 then t\<lparr>expire := (now + nat (period_ms t mod 2 ^ W)) mod 2 ^ W\<rparr> else t) in
      if expire t > now then map_option (\<lambda>(ts, st). (t # ts, st)) (timer_loop W now ts st)
      else do {
        st \<leftarrow> timer_fn t st;
        (ts, st) \<leftarrow> timer_loop W now ts st;
        Some (if timer_flags t AND MG_TIMER_REPEAT = 0 then ts else t\<lparr>expire := next_expire W now t\<rparr> # ts, st)
      })"

definition mg_timer_poll :: "nat \<Rightarrow> nat \<Rightarrow> nat \<Rightarrow> 's timer list \<Rightarrow> 's \<Rightarrow> (nat \<times> 's timer list \<times> 's) option" where
  "mg_timer_poll W now oldnow g_timers st =
     (let g_timers = (if oldnow > now then map (\<lambda>t. t\<lparr>expire := 0\<rparr>) g_timers else g_timers)
      in map_option (Pair now) (timer_loop W now g_timers st))"

section \<open>How often a timer runs\<close>

text \<open>Polling at the given times.\<close>

fun timer_polls :: "nat \<Rightarrow> nat list \<Rightarrow> nat \<Rightarrow> 's timer list \<Rightarrow> 's \<Rightarrow> (nat \<times> 's timer list \<times> 's) option" where
  "timer_polls W [] oldnow ts st = Some (oldnow, ts, st)"
| "timer_polls W (now # ns) oldnow ts st =
     Option.bind (mg_timer_poll W now oldnow ts st) (\<lambda>(oldnow, ts, st). timer_polls W ns oldnow ts st)"

fun ticks :: "nat \<Rightarrow> ('s \<Rightarrow> 's option) \<Rightarrow> 's \<Rightarrow> 's option" where
  "ticks 0 fn st = Some st"
| "ticks (Suc k) fn st = Option.bind (fn st) (ticks k fn)"

lemma ticks_add: "ticks (j + k) fn st = Option.bind (ticks j fn st) (ticks k fn)"
  by (induction j arbitrary: st) (auto split: bind_splits)

text \<open>A running timer with the positive period \<open>p\<close>, away from the wrap of the clock.\<close>

definition repeats :: "nat \<Rightarrow> 's timer \<Rightarrow> bool" where
  "repeats p t \<longleftrightarrow> 0 < p \<and> period_ms t = int p \<and> timer_flags t AND MG_TIMER_REPEAT \<noteq> 0"

lemma repeats_expire [simp]: "repeats p (t\<lparr>expire := e\<rparr>) = repeats p t"
  by (simp add: repeats_def)

lemma period_word: "repeats p t \<Longrightarrow> p < 2 ^ W \<Longrightarrow> nat (period_ms t mod 2 ^ W) = p"
proof -
  assume "repeats p t" "p < 2 ^ W"
  then have "period_ms t = int p" "int p < 2 ^ W" by (simp_all add: repeats_def)
  then show ?thesis by simp
qed

lemma poll_running:
  assumes "repeats p t" "now + p < 2 ^ W" "oldnow \<le> now" "0 < expire t"
  shows "mg_timer_poll W now oldnow [t] st =
    (if expire t > now then Some (now, [t], st)
     else map_option (\<lambda>st. (now, [t\<lparr>expire := (if now - expire t > p then now + p else expire t + p)\<rparr>], st)) (timer_fn t st))"
proof -
  have p: "nat (period_ms t mod 2 ^ W) = p" using assms(1,2) by (simp add: period_word)
  have "expire t + p < 2 ^ W" if "\<not> expire t > now" using assms(2) that by simp
  with assms p show ?thesis
    by (cases "timer_fn t st") (auto simp: mg_timer_poll_def repeats_def next_expire_def Let_def)
qed

lemma poll_starting:
  assumes "repeats p t" "now + p < 2 ^ W" "oldnow \<le> now" "expire t = 0"
  shows "mg_timer_poll W now oldnow [t] st = Some (now, [t\<lparr>expire := now + p\<rparr>], st)"
proof -
  have "nat (period_ms t mod 2 ^ W) = p" using assms(1,2) by (simp add: period_word)
  with assms show ?thesis by (simp add: mg_timer_poll_def repeats_def Let_def)
qed

fun gaps :: "nat \<Rightarrow> nat list \<Rightarrow> nat \<Rightarrow> bool" where
  "gaps t [] p = True"
| "gaps t (u # us) p = (t \<le> u \<and> u - t \<le> p \<and> gaps u us p)"

lemma gaps_sorted: "gaps t us p \<Longrightarrow> sorted (t # us)"
  by (induction us arbitrary: t) fastforce+

lemma sorted_last: "sorted (t # us) \<Longrightarrow> t \<le> last (t # us)" for t :: nat
  by (induction us arbitrary: t) fastforce+

lemma polls_close:
  assumes "repeats p t" "gaps now us p" "last (now # us) + p < 2 ^ W"
    "expire t = t0 + p * (k + 1)" "t0 + p * k \<le> now" "now < expire t"
  shows "timer_polls W us now [t] st =
    map_option (\<lambda>st. (last (now # us), [t\<lparr>expire := t0 + p * ((last (now # us) - t0) div p + 1)\<rparr>], st))
      (ticks ((last (now # us) - t0) div p - k) (timer_fn t) st)"
  using assms
proof (induction us arbitrary: now t k st)
  case Nil
  have "(now - t0) div p = k"
    using Nil.prems(1,4-6) by (intro div_nat_eqI) (auto simp: repeats_def algebra_simps)
  with Nil.prems(4) show ?case by simp
next
  case (Cons u us)
  have p: "0 < p" using Cons.prems(1) by (simp add: repeats_def)
  have u: "now \<le> u" "u - now \<le> p" "gaps u us p" using Cons.prems(2) by simp_all
  have lst: "last (now # u # us) = last (u # us)" by simp
  have le: "u \<le> last (u # us)" by (rule sorted_last [OF gaps_sorted [OF u(3)]])
  have w: "u + p < 2 ^ W" using le Cons.prems(3) by simp
  have pos: "0 < expire t" using Cons.prems(6) by simp
  show ?case
  proof (cases "expire t > u")
    case True
    then have "mg_timer_poll W u now [t] st = Some (u, [t], st)"
      using poll_running [OF Cons.prems(1) w u(1) pos] by simp
    then show ?thesis
      using Cons.IH [OF Cons.prems(1) u(3) _ Cons.prems(4) _ True] Cons.prems(3,5) u(1) by simp
  next
    case False
    let ?t = "t\<lparr>expire := expire t + p\<rparr>"
    have "\<not> u - expire t > p" using u(1,2) Cons.prems(6) by simp
    then have poll: "mg_timer_poll W u now [t] st = map_option (\<lambda>st. (u, [?t], st)) (timer_fn t st)"
      using poll_running [OF Cons.prems(1) w u(1) pos, of st] False by simp
    have e: "expire ?t = t0 + p * (Suc k + 1)" "t0 + p * Suc k \<le> u" "u < expire ?t"
      using Cons.prems(4,6) False u(1,2) by simp_all
    have "Suc k \<le> (last (u # us) - t0) div p"
    proof -
      have "p * Suc k \<le> last (u # us) - t0" using e(2) le by linarith
      then show ?thesis using p by (metis div_le_mono nonzero_mult_div_cancel_left not_gr_zero)
    qed
    then have k: "(last (u # us) - t0) div p - k = Suc ((last (u # us) - t0) div p - Suc k)" by simp
    have "repeats p ?t" using Cons.prems(1) by simp
    from Cons.IH [OF this u(3) _ e] Cons.prems(3) show ?thesis
      unfolding timer_polls.simps poll lst k by (cases "timer_fn t st") simp_all
  qed
qed

lemma polls_late:
  assumes "repeats p t" "sorted (now # us)" "last (now # us) + p < 2 ^ W" "t0 + p * (k + 1) \<le> expire t" "t0 + p * k \<le> now"
  shows "\<exists>j e. t0 + p * (k + j) \<le> last (now # us) \<and> timer_polls W us now [t] st =
    map_option (\<lambda>st. (last (now # us), [t\<lparr>expire := e\<rparr>], st)) (ticks j (timer_fn t) st)"
  using assms
proof (induction us arbitrary: now t k st)
  case Nil
  then show ?case by (intro exI [of _ 0] exI [of _ "expire t"]) simp
next
  case (Cons u us)
  have u: "now \<le> u" "sorted (u # us)" and lst: "last (now # u # us) = last (u # us)" using Cons.prems(2) by simp_all
  have w: "u + p < 2 ^ W" using sorted_last [OF u(2)] Cons.prems(3) by simp
  have pos: "0 < expire t" using Cons.prems(1,4) by (simp add: repeats_def)
  show ?case
  proof (cases "expire t > u")
    case True
    then have "mg_timer_poll W u now [t] st = Some (u, [t], st)"
      using poll_running [OF Cons.prems(1) w u(1) pos] by simp
    then show ?thesis
      using Cons.IH [OF Cons.prems(1) u(2) _ Cons.prems(4), of st] Cons.prems(3,5) u(1) by simp
  next
    case False
    define t' where "t' = t\<lparr>expire := (if u - expire t > p then u + p else expire t + p)\<rparr>"
    have poll: "mg_timer_poll W u now [t] st = map_option (\<lambda>st. (u, [t'], st)) (timer_fn t st)"
      using poll_running [OF Cons.prems(1) w u(1) pos, of st] False by (simp add: t'_def)
    have e: "t0 + p * (Suc k + 1) \<le> expire t'" "t0 + p * Suc k \<le> u"
      using Cons.prems(4) False by (simp_all add: t'_def)
    have t': "repeats p t'" "timer_fn t' = timer_fn t" "\<And>x. t'\<lparr>expire := x\<rparr> = t\<lparr>expire := x\<rparr>"
      using Cons.prems(1) by (simp_all add: t'_def)
    show ?thesis
    proof (cases "timer_fn t st")
      case None
      then show ?thesis
        using sorted_last [OF u(2)] e(2) unfolding timer_polls.simps poll lst by (intro exI [of _ 1]) simp
    next
      case (Some st')
      from Cons.IH [OF t'(1) u(2) _ e, of st'] Cons.prems(3) obtain j x where
        "t0 + p * (Suc k + j) \<le> last (u # us)" "timer_polls W us u [t'] st' =
          map_option (\<lambda>st. (last (u # us), [t\<lparr>expire := x\<rparr>], st)) (ticks j (timer_fn t) st')"
        unfolding t'(2,3) by auto
      then show ?thesis
        unfolding timer_polls.simps poll lst by (intro exI [of _ "Suc j"] exI [of _ x]) (simp add: Some)
    qed
  qed
qed

text \<open>
  C24: A repeating timer with period p neither drifts nor runs too often: whatever the times of the polls,
  t milliseconds after the first it has run at most t / p times, and exactly that often, rounded down,
  when no two polls are more than p apart.
\<close>
theorem timer_keeps_time:
  assumes "repeats p t" "expire t = 0" "oldnow \<le> t0" "sorted (t0 # us)" "last (t0 # us) + p < 2 ^ W"
  shows "\<exists>k e. p * k \<le> last (t0 # us) - t0 \<and> (gaps t0 us p \<longrightarrow> k = (last (t0 # us) - t0) div p) \<and>
    timer_polls W (t0 # us) oldnow [t] st = map_option (\<lambda>st. (last (t0 # us), [t\<lparr>expire := e\<rparr>], st)) (ticks k (timer_fn t) st)"
proof -
  let ?t = "t\<lparr>expire := t0 + p\<rparr>" and ?d = "last (t0 # us) - t0"
  have w: "t0 + p < 2 ^ W" using sorted_last [OF assms(4)] assms(5) by simp
  have poll: "mg_timer_poll W t0 oldnow [t] st = Some (t0, [?t], st)"
    by (rule poll_starting [OF assms(1) w assms(3,2)])
  have r: "repeats p ?t" "0 < p" using assms(1) by (simp_all add: repeats_def)
  show ?thesis
  proof (cases "gaps t0 us p")
    case True
    have "timer_polls W us t0 [?t] st =
        map_option (\<lambda>st. (last (t0 # us), [t\<lparr>expire := t0 + p * (?d div p + 1)\<rparr>], st)) (ticks (?d div p) (timer_fn t) st)"
      using polls_close [OF r(1) True assms(5), of t0 0 st] r(2) by simp
    then show ?thesis
      using True unfolding timer_polls.simps poll
      by (intro exI [of _ "?d div p"] exI [of _ "t0 + p * (?d div p + 1)"]) (simp add: mult.commute [of p])
  next
    case False
    from polls_late [OF r(1) assms(4,5), of t0 0 st] obtain j e where
      "t0 + p * j \<le> last (t0 # us)"
      "timer_polls W us t0 [?t] st = map_option (\<lambda>st. (last (t0 # us), [t\<lparr>expire := e\<rparr>], st)) (ticks j (timer_fn t) st)"
      by auto
    with False show ?thesis
      unfolding timer_polls.simps poll by (intro exI [of _ j] exI [of _ e]) simp
  qed
qed

definition demo_timer :: "nat timer" where
  "demo_timer = \<lparr>timer_at = 1, period_ms = 10, timer_flags = MG_TIMER_REPEAT, timer_fn = Some o Suc, expire = 0\<rparr>"

theorem timer_keeps_time_witness:
  "\<exists>e. timer_polls 32 [1000, 1004, 1013, 1022, 1031, 1035] 0 [demo_timer] 0 =
    Some (1035, [demo_timer\<lparr>expire := e\<rparr>], 3)"
proof -
  have "repeats 10 demo_timer" "expire demo_timer = 0"
    by (simp_all add: repeats_def demo_timer_def MG_TIMER_REPEAT_def)
  from timer_keeps_time [OF this, where oldnow = 0 and us = "[1004, 1013, 1022, 1031, 1035]" and W = 32 and st = 0 and ?t0.0 = 1000]
  obtain k e where "k = 3" "timer_polls 32 [1000, 1004, 1013, 1022, 1031, 1035] 0 [demo_timer] 0 =
      map_option (\<lambda>st. (1035, [demo_timer\<lparr>expire := e\<rparr>], st)) (ticks k (timer_fn demo_timer) 0)"
    by (auto simp del: timer_polls.simps)
  moreover have "ticks 3 (timer_fn demo_timer) 0 = Some 3" by (simp add: demo_timer_def numeral_3_eq_3)
  ultimately show ?thesis by (intro exI [of _ e]) (simp del: timer_polls.simps)
qed

text \<open>
  Before the clock wraps the new time of a timer wraps first, and until the clock does the timer runs at
  every poll.
\<close>

lemma timer_near_wrap:
  assumes "repeats p t" "p < 2 ^ W" "expire t < now" "0 < expire t" "now < 2 ^ W" "2 ^ W < now + p" "oldnow \<le> now"
  shows "mg_timer_poll W now oldnow [t] st =
    map_option (\<lambda>st. (now, [t\<lparr>expire := (if now - expire t > p then now + p - 2 ^ W else (expire t + p) mod 2 ^ W)\<rparr>], st)) (timer_fn t st)"
proof -
  have "(now + p) mod 2 ^ W = now + p - 2 ^ W"
    using assms(2,5,6) by (subst le_mod_geq) simp_all
  moreover have "nat (period_ms t mod 2 ^ W) = p" using assms(1,2) by (rule period_word)
  ultimately show ?thesis
    using assms by (cases "timer_fn t st") (auto simp: mg_timer_poll_def repeats_def next_expire_def Let_def)
qed

end
