(* ===== verification/MgNet.thy ===== *)
theory MgNet
  imports MgServe
begin

text \<open>
  Addresses in the web server library (package/evsoc_camera/src/mongoose.c, url.c and net.c of the amalgamation):
  the parts of a URL, IPv4 and IPv6 addresses from text and back, and the listening socket.
\<close>

unbundle bit_operations_syntax

section \<open>URLs, url.c\<close>

record url =
  u_user :: nat
  u_pass :: nat
  u_host :: nat
  u_port :: nat
  u_uri :: nat
  u_end :: nat

definition url_char :: "string \<Rightarrow> nat \<Rightarrow> url \<Rightarrow> url" where
  "url_char url i u =
     (if 0 < i \<and> url ! (i - 1) = CHR ''/'' \<and> url ! i = CHR ''/'' then u\<lparr>u_host := i + 1, u_port := 0\<rparr>
      else if url ! i = CHR '']'' then u\<lparr>u_port := 0\<rparr>
      else if url ! i = CHR '':'' then u\<lparr>u_port := i + 1\<rparr>
      else if url ! i = CHR 0x40 then u\<lparr>u_user := u_host u, u_pass := u_port u, u_host := i + 1, u_port := 0\<rparr>
      else if u_host u \<noteq> 0 \<and> u_uri u = 0 \<and> url ! i = CHR ''/'' then u\<lparr>u_uri := i\<rparr>
      else u)"

definition urlparse :: "string \<Rightarrow> url" where
  "urlparse url =
     (fold (url_char url) [0..<length url] \<lparr>u_user = 0, u_pass = 0, u_host = 0, u_port = 0, u_uri = 0, u_end = 0\<rparr>)
       \<lparr>u_end := length url\<rparr>"

definition mg_url_host :: "string \<Rightarrow> string" where
  "mg_url_host url =
     (let u = urlparse url;
          n = (if u_port u \<noteq> 0 then u_port u - u_host u - 1 else if u_uri u \<noteq> 0 then u_uri u - u_host u else u_end u - u_host u);
          s = take n (drop (u_host u) url)
      in if 2 < length s \<and> hd s = CHR ''['' \<and> last s = CHR '']'' then butlast (tl s) else s)"

definition mg_url_port :: "string \<Rightarrow> nat" where
  "mg_url_port url =
     (let u = urlparse url; port = 0 :: nat;
          port = (if take 5 url = ''http:'' \<or> take 3 url = ''ws:'' then 80 else port);
          port = (if take 4 url = ''wss:'' \<or> take 6 url = ''https:'' then 443 else port);
          port = (if take 5 url = ''mqtt:'' then 1883 else port);
          port = (if take 6 url = ''mqtts:'' then 8883 else port)
      in if u_port u \<noteq> 0 then nat (atoi (drop (u_port u) url) mod 2 ^ 16) else port)"

definition mg_url_uri :: "string \<Rightarrow> string" where
  "mg_url_uri url = (let u = urlparse url in if u_uri u \<noteq> 0 then drop (u_uri u) url else ''/'')"

definition mg_url_user :: "string \<Rightarrow> string" where
  "mg_url_user url =
     (let u = urlparse url in
      if u_user u \<noteq> 0 \<and> (u_pass u \<noteq> 0 \<or> u_host u \<noteq> 0)
      then take (if u_pass u \<noteq> 0 then u_pass u - u_user u - 1 else u_host u - u_user u - 1) (drop (u_user u) url)
      else [])"

definition mg_url_pass :: "string \<Rightarrow> string" where
  "mg_url_pass url =
     (let u = urlparse url in
      if u_pass u \<noteq> 0 \<and> u_host u \<noteq> 0 then take (u_host u - u_pass u - 1) (drop (u_pass u) url) else [])"

definition mg_url_is_ssl :: "string \<Rightarrow> bool" where
  "mg_url_is_ssl url \<longleftrightarrow> strncmp url ''wss:'' 4 = 0 \<or> strncmp url ''https:'' 6 = 0 \<or> strncmp url ''mqtts:'' 6 = 0 \<or>
     strncmp url ''ssl:'' 4 = 0 \<or> strncmp url ''tls:'' 4 = 0"

section \<open>Addresses, net.c\<close>

text \<open>\<open>struct mg_addr\<close> without the port; the addresses are the bytes in memory, which is network order.\<close>

record mg_addr =
  ad_ip :: "nat list"
  ad_ip6 :: "nat list"
  is_ip6 :: bool

definition no_addr :: mg_addr where
  "no_addr = \<lparr>ad_ip = [0, 0, 0, 0], ad_ip6 = replicate 16 0, is_ip6 = False\<rparr>"

definition ip6_group :: "nat list \<Rightarrow> nat \<Rightarrow> nat" where
  "ip6_group ip k = ip ! (2 * k) * 256 + ip ! (2 * k + 1)"

definition mg_ntoa :: "mg_addr \<Rightarrow> string" where
  "mg_ntoa a =
     (if is_ip6 a then
        hex_lower (ip6_group (ad_ip6 a) 0) @ concat (map (\<lambda>k. CHR '':'' # hex_lower (ip6_group (ad_ip6 a) k)) [1..<8])
      else
        decimal (int (ad_ip a ! 0)) @ ''.'' @ decimal (int (ad_ip a ! 1)) @ ''.'' @
        decimal (int (ad_ip a ! 2)) @ ''.'' @ decimal (int (ad_ip a ! 3)))"

definition mg_atonl :: "string \<Rightarrow> mg_addr \<Rightarrow> mg_addr option" where
  "mg_atonl str a = (if mg_vcasecmp str ''localhost'' \<noteq> 0 then None else Some (a\<lparr>ad_ip := [127, 0, 0, 1], is_ip6 := False\<rparr>))"

text \<open>The loop of \<open>mg_aton4\<close>; \<open>prev\<close> is the character before.\<close>

fun aton4_loop :: "string \<Rightarrow> char option \<Rightarrow> nat list \<Rightarrow> nat \<Rightarrow> (char option \<times> nat list \<times> nat) option" where
  "aton4_loop [] prev data num_dots = Some (prev, data, num_dots)"
| "aton4_loop (c # str) prev data num_dots =
     (if is_digit c then
        (let octet = data ! num_dots * 10 + (of_char c - 48) in
         if 255 < octet then None else aton4_loop str (Some c) (data[num_dots := octet]) num_dots)
      else if c = CHR ''.'' then
        (if 3 \<le> num_dots \<or> prev = None \<or> prev = Some (CHR ''.'') then None
         else aton4_loop str (Some c) data (num_dots + 1))
      else None)"

definition mg_aton4 :: "string \<Rightarrow> mg_addr \<Rightarrow> mg_addr option" where
  "mg_aton4 str a =
     (case aton4_loop str None [0, 0, 0, 0] 0 of
        None \<Rightarrow> None
      | Some (prev, data, num_dots) \<Rightarrow>
          if num_dots \<noteq> 3 \<or> prev = Some (CHR ''.'') then None else Some (a\<lparr>ad_ip := data, is_ip6 := False\<rparr>))"

definition store_group :: "nat \<Rightarrow> nat \<Rightarrow> nat list \<Rightarrow> nat list" where
  "store_group n val ip = ip[n := val div 256 mod 256, n + 1 := val mod 256]"

function aton6_loop :: "string \<Rightarrow> nat \<Rightarrow> nat \<Rightarrow> nat \<Rightarrow> nat \<Rightarrow> nat list \<Rightarrow> (nat \<times> nat \<times> nat list) option" where
  "aton6_loop str i j n dc ip =
     (if \<not> i < length str then Some (n, dc, ip)
      else if is_xdigit (str ! i) then
        (if j + 3 < i then None
         else aton6_loop str (i + 1) j n dc (store_group n (mg_unhexn 32 (take (i - j + 1) (drop j str))) ip))
      else if str ! i = CHR '':'' then
        (let double = 0 < i \<and> str ! (i - 1) = CHR '':'';
             n' = (if double then n else if 0 < i then n + 2 else n)
         in if double \<and> 1 < i \<and> str ! (i - 2) = CHR '':'' then None
            else if 14 < n' then None
            else aton6_loop str (i + 1) (i + 1) n' (if double then n else dc) (store_group n' 0 ip))
      else None)"
  by pat_completeness auto
termination by (relation "measure (\<lambda>(str, i, j, n, dc, ip). length str - i)") auto

declare aton6_loop.simps [simp del]

definition mg_aton6 :: "string \<Rightarrow> mg_addr \<Rightarrow> mg_addr option" where
  "mg_aton6 str a =
     (case aton6_loop str 0 0 0 42 (ad_ip6 a) of
        None \<Rightarrow> None
      | Some (n, dc, ip) \<Rightarrow>
          if n < 14 \<and> dc = 42 then None
          else Some (a\<lparr>ad_ip6 :=
                 (if n < 14 then take dc ip @ replicate (14 - n) 0 @ take (n - dc + 2) (drop dc ip) else ip), is_ip6 := True\<rparr>))"

definition mg_aton :: "string \<Rightarrow> mg_addr \<Rightarrow> mg_addr option" where
  "mg_aton str a =
     (case mg_atonl str a of Some a \<Rightarrow> Some a
      | None \<Rightarrow> (case mg_aton4 str a of Some a \<Rightarrow> Some a | None \<Rightarrow> mg_aton6 str a))"

section \<open>Listening, sock.c\<close>

datatype sock_call = Socket bool | Reuse_address | Bind "nat list" nat | Listen nat | Nonblocking | Close_socket

text \<open>
  \<open>answers\<close> says which calls succeed.  The build is without IPv6, so the address bound is always the
  four bytes of \<open>ad_ip\<close>.
\<close>

definition mg_open_listener :: "(sock_call \<Rightarrow> bool) \<Rightarrow> string \<Rightarrow> sock_call list \<times> bool" where
  "mg_open_listener answers url =
     (case mg_aton (mg_url_host url) no_addr of
        None \<Rightarrow> ([], False)
      | Some a \<Rightarrow>
          let udp = strncmp url ''udp:'' 4 = 0;
              bind = Bind (ad_ip a) (mg_url_port url);
              calls = [Reuse_address, bind] @ (if udp then [] else [Listen 128]);
              tried = takeWhile answers calls @ take 1 (dropWhile answers calls)
          in if \<not> answers (Socket udp) then ([Socket udp], False)
             else if list_all answers calls then (Socket udp # calls @ [Nonblocking], True)
             else (Socket udp # tried @ [Close_socket], False))"

lemma listen_on_8000:
  "mg_url_host ''0.0.0.0:8000'' = ''0.0.0.0''" "mg_url_port ''0.0.0.0:8000'' = 8000"
  by (simp_all add: mg_url_host_def mg_url_port_def urlparse_def url_char_def upt_rec atoi_def is_space_def is_digit_def)

lemma any_address: "mg_aton ''0.0.0.0'' a = Some (a\<lparr>ad_ip := [0, 0, 0, 0], is_ip6 := False\<rparr>)"
  by (simp add: mg_aton_def mg_atonl_def mg_vcasecmp_def mg_lower_def first_char_def mg_aton4_def is_digit_def)

lemma server_listens:
  "mg_open_listener (\<lambda>c. True) ''0.0.0.0:8000'' =
     ([Socket False, Reuse_address, Bind [0, 0, 0, 0] 8000, Listen 128, Nonblocking], True)"
proof -
  have "strncmp ''0.0.0.0:8000'' ''udp:'' 4 \<noteq> 0" by (simp add: numeral_eq_Suc first_char_def)
  then show ?thesis by (simp add: mg_open_listener_def listen_on_8000 any_address no_addr_def Let_def)
qed

text \<open>An IPv6 address is accepted, but what is bound then is every IPv4 address.\<close>

lemma listens_everywhere:
  "fst (mg_open_listener (\<lambda>c. True) ''http://[::1]:80'') =
     [Socket False, Reuse_address, Bind [0, 0, 0, 0] 80, Listen 128, Nonblocking]"
proof -
  have "mg_url_host ''http://[::1]:80'' = ''::1''" "mg_url_port ''http://[::1]:80'' = 80"
    by (simp_all add: mg_url_host_def mg_url_port_def urlparse_def url_char_def upt_rec atoi_def is_space_def is_digit_def)
  moreover have "\<exists>a. mg_aton ''::1'' no_addr = Some a \<and> ad_ip a = [0, 0, 0, 0]"
    by (simp add: mg_aton_def mg_atonl_def mg_vcasecmp_def mg_lower_def first_char_def mg_aton4_def is_digit_def mg_aton6_def
        aton6_loop.simps is_xdigit_def no_addr_def store_group_def)
  moreover have "strncmp ''http://[::1]:80'' ''udp:'' 4 \<noteq> 0" by (simp add: numeral_eq_Suc first_char_def)
  ultimately show ?thesis by (auto simp: mg_open_listener_def Let_def)
qed

section \<open>Addresses are read back\<close>

lemma aton4_digits:
  assumes "n \<le> 255" "k < length data" "data ! k = 0"
  shows "aton4_loop (digits n @ s) prev data k = aton4_loop s (Some (char_of (48 + n mod 10))) (data[k := n]) k"
  using assms
proof (induction n arbitrary: s prev rule: digits.induct)
  case (1 n)
  have dig: "is_digit (char_of (48 + n mod 10))" "of_char (char_of (48 + n mod 10)) = 48 + n mod 10"
    by (simp_all add: is_digit_def)
  show ?case
  proof (cases "n < 10")
    case True
    with 1 dig show ?thesis by (simp add: digits.simps [of n])
  next
    case False
    have "aton4_loop (digits (n div 10) @ char_of (48 + n mod 10) # s) prev data k =
        aton4_loop (char_of (48 + n mod 10) # s) (Some (char_of (48 + n div 10 mod 10))) (data[k := n div 10]) k"
      by (rule "1.IH") (use False "1.prems" in auto)
    with False "1.prems" dig show ?thesis by (simp add: digits.simps [of n])
  qed
qed

lemma dots_char: "char_of (48 + n mod 10) \<noteq> CHR ''.''" for n :: nat
proof
  assume "char_of (48 + n mod 10) = CHR ''.''"
  then have "(of_char (char_of (48 + n mod 10)) :: nat) = of_char CHR ''.''" by simp
  then show False by simp
qed

definition ip4_ok :: "mg_addr \<Rightarrow> bool" where
  "ip4_ok a \<longleftrightarrow> \<not> is_ip6 a \<and> length (ad_ip a) = 4 \<and> list_all (\<lambda>b. b \<le> 255) (ad_ip a)"

lemma aton4_text:
  assumes "p \<le> 255" "q \<le> 255" "r \<le> 255" "s \<le> 255"
  shows "mg_aton4 (digits p @ ''.'' @ digits q @ ''.'' @ digits r @ ''.'' @ digits s) a = Some (a\<lparr>ad_ip := [p, q, r, s], is_ip6 := False\<rparr>)"
proof -
  have nd: "\<not> is_digit CHR ''.''" by (simp add: is_digit_def)
  have lst: "aton4_loop (digits s) (Some CHR ''.'') [p, q, r, 0] 3 = Some (Some (char_of (48 + s mod 10)), [p, q, r, s], 3)"
    using aton4_digits [of s 3 "[p, q, r, 0]" "[]"] assms(4) by simp
  show ?thesis
    using aton4_digits [OF assms(1), of 0 "[0, 0, 0, 0]"] aton4_digits [OF assms(2), of 1 "[p, 0, 0, 0]"]
      aton4_digits [OF assms(3), of 2 "[p, q, 0, 0]"] lst nd dots_char
    by (simp add: mg_aton4_def numeral_2_eq_2 numeral_3_eq_3)
qed

text \<open>Text with a colon is no IPv4 address, text with a dot or colon is not localhost.\<close>

lemma aton4_colon: "CHR '':'' \<in> set str \<Longrightarrow> aton4_loop str prev data k = None"
  by (induction str prev data k rule: aton4_loop.induct) (auto simp: is_digit_def Let_def)

lemma mg_vcasecmp_mem:
  assumes "mg_vcasecmp str t = 0" "CHR 0x00 \<notin> set str"
  shows "map mg_lower str = map mg_lower t"
proof -
  have cmp: "mg_ncasecmp s u n = 0 \<Longrightarrow> n \<le> length s \<Longrightarrow> n \<le> length u \<Longrightarrow> CHR 0x00 \<notin> set s \<Longrightarrow>
      map mg_lower (take n s) = map mg_lower (take n u)" for s u n
  proof (induction n arbitrary: s u)
    case (Suc n)
    then obtain x s' y u' where [simp]: "s = x # s'" "u = y # u'" by (cases s; cases u) auto
    show ?case
    proof (cases "n = 0")
      case True
      with Suc.prems show ?thesis by (simp add: first_char_def Let_def split: if_splits)
    next
      case False
      with Suc.prems Suc.IH [of s' u'] show ?thesis by (auto simp: first_char_def Let_def split: if_splits)
    qed
  qed simp
  let ?n = "min (length str) (length t)"
  from assms have n: "mg_ncasecmp str t ?n = 0" "length str = length t"
    by (auto simp: mg_vcasecmp_def Let_def split: if_splits)
  from cmp [OF n(1)] n(2) assms(2) show ?thesis by simp
qed

lemma int_or_nibble:
  assumes "0 \<le> d" "d < 16"
  shows "v * 16 OR d = v * 16 + (d :: int)"
proof -
  have d: "take_bit 4 d = d" using assms by (simp add: take_bit_int_eq_self)
  have "\<not> bit (v * 16) n \<or> \<not> bit d n" for n
  proof (cases "n < 4")
    case True
    have "v * 16 = push_bit 4 v" by (simp add: push_bit_eq_mult)
    with True show ?thesis by (simp add: bit_push_bit_iff)
  next
    case False
    then show ?thesis by (subst d [symmetric]) (simp add: bit_take_bit_iff)
  qed
  then show ?thesis by (simp add: disjunctive_add)
qed

lemma unhex_append:
  assumes "mg_unhexn 32 s < 2 ^ 28" "0 \<le> unhex_digit c" "unhex_digit c < 16"
  shows "mg_unhexn 32 (s @ [c]) = mg_unhexn 32 s * 16 + nat (unhex_digit c)"
proof -
  let ?v = "foldl (\<lambda>v c. take_bit 32 (take_bit 32 (v * 16) OR unhex_digit c)) (0 :: int) s"
  have v: "0 \<le> ?v" by (cases s rule: rev_cases) simp_all
  have "?v < 2 ^ 28" using assms(1) v by (simp add: mg_unhexn_def)
  then have t: "take_bit 32 (?v * 16) = ?v * 16" "take_bit 32 (?v * 16 + unhex_digit c) = ?v * 16 + unhex_digit c"
    using v assms(2,3) by (auto intro!: take_bit_int_eq_self simp del: take_bit_or)
  have "mg_unhexn 32 (s @ [c]) = nat (take_bit 32 (take_bit 32 (?v * 16) OR unhex_digit c))"
    unfolding mg_unhexn_def by (simp only: foldl_append foldl.simps)
  also have "\<dots> = nat (?v * 16 + unhex_digit c)"
    by (simp only: t int_or_nibble [OF assms(2,3)])
  also have "\<dots> = nat ?v * 16 + nat (unhex_digit c)"
    using v assms(2) by (simp only: nat_add_distrib nat_mult_distrib mult_nonneg_nonneg zero_le_numeral) simp
  finally show ?thesis by (simp only: mg_unhexn_def)
qed

definition hex_char :: "char \<Rightarrow> bool" where
  "hex_char c \<longleftrightarrow> is_xdigit c \<and> c \<noteq> CHR '':'' \<and> 0 \<le> unhex_digit c \<and> unhex_digit c < 16"

lemma hex_nibble:
  assumes "n < 16"
  shows "\<exists>c. hex_lower n = [c] \<and> hex_char c \<and> nat (unhex_digit c) = n"
proof (cases "n < 10")
  case True
  then have nat_eq: "(of_char (char_of (48 + n) :: char) :: nat) = 48 + n" by (simp add: take_bit_eq_mod)
  moreover have "(of_char (char_of (48 + n) :: char) :: int) = 48 + int n"
    using arg_cong [OF nat_eq, of int] by (simp only: of_nat_of_char of_nat_add of_nat_numeral)
  moreover have "char_of (48 + n) \<noteq> CHR '':''" using True by (simp add: char_of_eq_iff take_bit_eq_mod)
  ultimately show ?thesis
    using True by (simp add: hex_lower.simps [of n] hex_char_def is_xdigit_def unhex_digit_def Let_def)
next
  case False
  then have nat_eq: "(of_char (char_of (87 + n) :: char) :: nat) = 87 + n" using assms by (simp add: take_bit_eq_mod)
  moreover have "(of_char (char_of (87 + n) :: char) :: int) = 87 + int n"
    using arg_cong [OF nat_eq, of int] by (simp only: of_nat_of_char of_nat_add of_nat_numeral)
  moreover have "char_of (87 + n) \<noteq> CHR '':''" using assms by (simp add: char_of_eq_iff take_bit_eq_mod)
  ultimately show ?thesis
    using False assms by (simp add: hex_lower.simps [of n] hex_char_def is_xdigit_def unhex_digit_def Let_def)
qed

lemma hex_lower_ok:
  "list_all hex_char (hex_lower n) \<and> hex_lower n \<noteq> [] \<and> (n < 2 ^ 16 \<longrightarrow> mg_unhexn 32 (hex_lower n) = n \<and> length (hex_lower n) \<le> 4)"
proof -
  have ok: "list_all hex_char (hex_lower n) \<and> hex_lower n \<noteq> [] \<and> (n < 2 ^ 28 \<longrightarrow> mg_unhexn 32 (hex_lower n) = n)" for n
  proof (induction n rule: less_induct)
    case (less n)
    obtain c where c: "hex_lower (n mod 16) = [c]" "hex_char c" "nat (unhex_digit c) = n mod 16" using hex_nibble [of "n mod 16"] by auto
    show ?case
    proof (cases "n < 16")
      case True
      with c have h: "hex_lower n = [c]" "nat (unhex_digit c) = n" by simp_all
      have "mg_unhexn 32 ([] @ [c]) = mg_unhexn 32 [] * 16 + nat (unhex_digit c)"
        by (rule unhex_append) (use c in \<open>simp_all add: mg_unhexn_def hex_char_def\<close>)
      with h c(2) show ?thesis by (simp add: mg_unhexn_def)
    next
      case False
      then have h: "hex_lower n = hex_lower (n div 16) @ [c]" using c(1) by (simp add: hex_lower.simps [of n])
      have ih: "list_all hex_char (hex_lower (n div 16))" "n < 2 ^ 28 \<Longrightarrow> mg_unhexn 32 (hex_lower (n div 16)) = n div 16"
        using less [of "n div 16"] False by auto
      have "mg_unhexn 32 (hex_lower n) = n" if "n < 2 ^ 28"
      proof -
        have "mg_unhexn 32 (hex_lower n) = n div 16 * 16 + n mod 16"
          unfolding h using unhex_append [of "hex_lower (n div 16)" c] ih(2) [OF that] that c(2,3) by (simp add: hex_char_def)
        then show ?thesis by simp
      qed
      with h ih(1) c(2) show ?thesis by simp
    qed
  qed
  have len: "n < 16 ^ Suc k \<Longrightarrow> length (hex_lower n) \<le> Suc k" for k
  proof (induction k arbitrary: n)
    case 0
    then show ?case using hex_nibble [of n] by auto
  next
    case (Suc k)
    then have "n div 16 < 16 ^ Suc k" by (simp add: div_less_iff_less_mult mult.commute)
    with Suc.IH [of "n div 16"] hex_nibble [of "n mod 16"] show ?case by (subst hex_lower.simps) auto
  qed
  from ok [of n] len [of 3] show ?thesis by auto
qed

text \<open>One group of an IPv6 address.\<close>

lemma aton6_digits:
  assumes "list_all hex_char h" "length h \<le> 4" "k < length h" "h \<noteq> []" "n + 1 < length ip"
  shows "aton6_loop (pre @ h @ post) (length pre + k) (length pre) n dc ip =
    aton6_loop (pre @ h @ post) (length pre + length h) (length pre) n dc (store_group n (mg_unhexn 32 h) ip)"
  using assms(3,5)
proof (induction "length h - k" arbitrary: k ip)
  case (Suc m)
  let ?s = "pre @ h @ post" and ?v = "mg_unhexn 32 (take (k + 1) h)"
  have hex: "is_xdigit ((h @ post) ! k)" using assms(1) Suc.prems(1) by (auto simp: nth_append list_all_length hex_char_def)
  have "\<not> length pre + 3 < length pre + k" using assms(2) Suc.prems(1) by simp
  then have step: "aton6_loop ?s (length pre + k) (length pre) n dc ip = aton6_loop ?s (length pre + (k + 1)) (length pre) n dc (store_group n ?v ip)"
    using Suc.prems(1) by (subst aton6_loop.simps) (simp add: hex)
  show ?case
  proof (cases "k + 1 < length h")
    case True
    have "store_group n w (store_group n ?v ip) = store_group n w ip" for w
      using Suc.prems(2) by (simp add: store_group_def list_update_swap)
    with Suc.hyps(1) [of "k + 1" "store_group n ?v ip"] Suc.hyps(2) Suc.prems(2) True step show ?thesis
      by (simp add: store_group_def)
  next
    case False
    with Suc.prems(1) have len: "length h = k + 1" by simp
    then have "take (k + 1) h = h" by simp
    with step show ?thesis by (simp add: len)
  qed
qed simp

lemma aton6_group:
  assumes "g < 2 ^ 16" "n + 1 < length ip"
  shows "aton6_loop (pre @ hex_lower g @ post) (length pre) (length pre) n dc ip =
    aton6_loop (pre @ hex_lower g @ post) (length pre + length (hex_lower g)) (length pre) n dc (store_group n g ip)"
  using aton6_digits [of "hex_lower g" 0 n ip pre post dc] hex_lower_ok [of g] assms by simp

lemma aton6_colon:
  assumes "pre \<noteq> []" "last pre \<noteq> CHR '':''" "n + 2 \<le> 14"
  shows "aton6_loop (pre @ CHR '':'' # post) (length pre) j n dc ip =
    aton6_loop (pre @ CHR '':'' # post) (length pre + 1) (length pre + 1) (n + 2) dc (store_group (n + 2) 0 ip)"
proof -
  have "(pre @ CHR '':'' # post) ! (length pre - 1) = last pre" using assms(1) by (simp add: nth_append last_conv_nth)
  moreover have "\<not> is_xdigit CHR '':''" by (simp add: is_xdigit_def)
  ultimately show ?thesis using assms by (subst aton6_loop.simps) (simp add: Let_def)
qed

text \<open>What the text holds from group \<open>k\<close> on.\<close>

definition groups_text :: "(nat \<Rightarrow> nat) \<Rightarrow> nat \<Rightarrow> string" where
  "groups_text g k = concat (map (\<lambda>k. CHR '':'' # hex_lower (g k)) [k..<8])"

lemma groups_text_Suc: "k < 8 \<Longrightarrow> groups_text g k = CHR '':'' # hex_lower (g k) @ groups_text g (k + 1)"
  by (simp add: groups_text_def upt_conv_Cons)

fun store_groups :: "(nat \<Rightarrow> nat) \<Rightarrow> nat \<Rightarrow> nat \<Rightarrow> nat list \<Rightarrow> nat list" where
  "store_groups g k 0 ip = ip"
| "store_groups g k (Suc m) ip = store_groups g (k + 1) m (store_group (2 * k) (g k) ip)"

lemma store_group_length [simp]: "length (store_group n v ip) = length ip"
  by (simp add: store_group_def)

lemma store_group_twice: "n + 1 < length ip \<Longrightarrow> store_group n w (store_group n v ip) = store_group n w ip"
  by (simp add: store_group_def list_update_swap)

lemma aton6_groups:
  assumes "\<And>i. g i < 2 ^ 16" "pre \<noteq> []" "last pre \<noteq> CHR '':''" "length ip = 16" "k + m = 8" "0 < k"
  shows "aton6_loop (pre @ groups_text g k) (length pre) j (2 * (k - 1)) dc ip = Some (14, dc, store_groups g k m ip)"
  using assms(2-6)
proof (induction m arbitrary: k pre j ip)
  case 0
  then show ?case by (subst aton6_loop.simps) (simp add: groups_text_def)
next
  case (Suc m)
  have k: "k < 8" "2 * (k - 1) + 2 = 2 * k" using Suc.prems(4,5) by simp_all
  let ?h = "hex_lower (g k)" and ?pre = "pre @ [CHR '':'']"
  have h: "?h \<noteq> []" "last (?pre @ ?h) \<noteq> CHR '':''"
    using hex_lower_ok [of "g k"] by (auto simp: list_all_iff hex_char_def)
  have "aton6_loop (pre @ groups_text g k) (length pre) j (2 * (k - 1)) dc ip =
      aton6_loop (?pre @ ?h @ groups_text g (k + 1)) (length ?pre) (length ?pre) (2 * k) dc (store_group (2 * k) 0 ip)"
    using aton6_colon [OF Suc.prems(1,2), of "2 * (k - 1)"] k by (simp add: groups_text_Suc)
  also have "\<dots> = aton6_loop ((?pre @ ?h) @ groups_text g (k + 1)) (length (?pre @ ?h)) (length ?pre) (2 * k) dc (store_group (2 * k) (g k) ip)"
    using aton6_group [OF assms(1), of "2 * k" "store_group (2 * k) 0 ip" ?pre k] k(1) Suc.prems(3)
    by (simp add: store_group_twice)
  also have "\<dots> = Some (14, dc, store_groups g k (Suc m) ip)"
    using Suc.IH [of "?pre @ ?h" "store_group (2 * k) (g k) ip" "k + 1" "length ?pre"] h Suc.prems(3,4) by simp
  finally show ?case .
qed

lemma store_groups_nth:
  assumes "length ip = 16" "k + m = 8" "i < 16"
  shows "store_groups g k m ip ! i =
    (if 2 * k \<le> i then (if even i then g (i div 2) div 256 mod 256 else g (i div 2) mod 256) else ip ! i)"
  using assms
proof (induction m arbitrary: k ip)
  case (Suc m)
  have "store_groups g k (Suc m) ip ! i =
      (if 2 * (k + 1) \<le> i then (if even i then g (i div 2) div 256 mod 256 else g (i div 2) mod 256)
       else store_group (2 * k) (g k) ip ! i)"
    using Suc.IH [of "store_group (2 * k) (g k) ip" "k + 1"] Suc.prems by simp
  moreover have "store_group (2 * k) (g k) ip ! i =
      (if i = 2 * k then g k div 256 mod 256 else if i = 2 * k + 1 then g k mod 256 else ip ! i)"
    using Suc.prems by (simp add: store_group_def nth_list_update)
  moreover have "i < 2 * (k + 1) \<Longrightarrow> 2 * k \<le> i \<Longrightarrow> i = 2 * k \<or> i = 2 * k + 1 \<and> i div 2 = k" by presburger
  ultimately show ?case by auto
qed simp

lemma store_groups_length [simp]: "length (store_groups g k m ip) = length ip"
  by (induction m arbitrary: k ip) simp_all

definition ip6_ok :: "mg_addr \<Rightarrow> bool" where
  "ip6_ok a \<longleftrightarrow> is_ip6 a \<and> length (ad_ip6 a) = 16 \<and> list_all (\<lambda>b. b \<le> 255) (ad_ip6 a)"

lemma groups_back:
  assumes "length ip = 16" "length a = 16" "list_all (\<lambda>b. b \<le> 255) a"
  shows "store_groups (ip6_group a) 0 8 ip = a"
proof (rule nth_equalityI)
  fix i assume "i < length (store_groups (ip6_group a) 0 8 ip)"
  then have i: "i < 16" using assms(1) by simp
  have b: "a ! j \<le> 255" if "j < 16" for j using assms(2,3) that by (simp add: list_all_length)
  show "store_groups (ip6_group a) 0 8 ip ! i = a ! i"
  proof (cases "even i")
    case True
    then have "2 * (i div 2) = i" "i + 1 < 16" using i by auto
    with True i b [of i] b [of "i + 1"] show ?thesis
      by (subst store_groups_nth [OF assms(1) _ i]) (simp_all add: ip6_group_def div_mult_self1 mod_less)
  next
    case False
    then have "2 * (i div 2) + 1 = i" by simp
    with False i b [of i] show ?thesis
      by (subst store_groups_nth [OF assms(1) _ i]) (simp_all add: ip6_group_def)
  qed
qed (use assms in simp)

lemma aton6_text:
  assumes "length ip = 16" "length a = 16" "list_all (\<lambda>b. b \<le> 255) a"
  shows "aton6_loop (hex_lower (ip6_group a 0) @ groups_text (ip6_group a) 1) 0 0 0 dc ip = Some (14, dc, a)"
proof -
  let ?h = "hex_lower (ip6_group a 0)" and ?t = "groups_text (ip6_group a) 1"
  define g where "g i = (if i < 8 then ip6_group a i else 0)" for i
  have b: "a ! j \<le> 255" if "j < 16" for j using assms(2,3) that by (simp add: list_all_length)
  have g: "g i < 2 ^ 16" for i using b [of "2 * i"] b [of "2 * i + 1"] by (auto simp: g_def ip6_group_def)
  have t: "?t = groups_text g 1"
    unfolding groups_text_def by (intro arg_cong [of _ _ concat] map_cong) (simp_all add: g_def)
  have g0: "g 0 = ip6_group a 0" by (simp add: g_def)
  have sg: "store_groups (ip6_group a) k m y = store_groups g k m y" if "k + m \<le> 8" for k m y
    using that by (induction m arbitrary: k y) (simp_all add: g_def)
  have h: "?h \<noteq> []" "last ?h \<noteq> CHR '':''" using hex_lower_ok [of "ip6_group a 0"] by (auto simp: list_all_iff hex_char_def)
  have "aton6_loop (?h @ ?t) 0 0 0 dc ip = aton6_loop (?h @ groups_text g 1) (length ?h) 0 (2 * (1 - 1)) dc (store_group 0 (g 0) ip)"
    unfolding t using aton6_group [OF g [of 0], of 0 ip "[]" "groups_text g 1" dc] assms(1) by (simp add: g0)
  also have "\<dots> = Some (14, dc, store_groups g 1 7 (store_group 0 (g 0) ip))"
    using aton6_groups [OF g h, of "store_group 0 (g 0) ip" 1 7] assms(1) by simp
  also have "store_groups g 1 7 (store_group 0 (g 0) ip) = store_groups g 0 (Suc 7) ip" by (simp del: One_nat_def Suc_numeral)
  also have "\<dots> = a" using sg [of 0 "Suc 7" ip] groups_back [OF assms] by simp
  finally show ?thesis .
qed

lemma digits_are_digits: "list_all is_digit (digits n)"
proof (induction n rule: digits.induct)
  case (1 n)
  have "is_digit (char_of (48 + n mod 10))" by (simp add: is_digit_def)
  then show ?case
  proof (cases "n < 10")
    case True
    with \<open>is_digit _\<close> show ?thesis by (simp add: digits.simps [of n])
  next
    case False
    with \<open>is_digit _\<close> 1 show ?thesis by (simp add: digits.simps [of n])
  qed
qed

lemma digits_no_NUL: "CHR 0x00 \<notin> set (digits n)"
  using digits_are_digits [of n] by (auto simp: list_all_iff is_digit_def)

lemma groups_no_NUL: "CHR 0x00 \<notin> set (hex_lower n @ groups_text g k)"
proof -
  have "\<not> hex_char CHR 0x00" by (simp add: hex_char_def is_xdigit_def)
  moreover have "\<forall>c \<in> set (hex_lower m). hex_char c" for m
    using hex_lower_ok [of m] unfolding list_all_iff by (rule conjunct1)
  ultimately have "CHR 0x00 \<notin> set (hex_lower m)" for m by metis
  then show ?thesis by (simp add: groups_text_def)
qed

text \<open>
  C28: An address that was printed is read back: whatever was in the structure before, \<open>mg_aton\<close> takes
  what \<open>mg_ntoa\<close> makes of an IPv4 or IPv6 address as that address.
\<close>
theorem address_roundtrip:
  assumes "ip4_ok a \<or> ip6_ok a" "length (ad_ip6 b) = 16"
  shows "\<exists>r. mg_aton (mg_ntoa a) b = Some r \<and> is_ip6 r = is_ip6 a \<and>
    (if is_ip6 a then ad_ip6 r = ad_ip6 a else ad_ip r = ad_ip a)"
proof (cases "is_ip6 a")
  case False
  with assms(1) have "length (ad_ip a) = 4" "list_all (\<lambda>b. b \<le> 255) (ad_ip a)" by (auto simp: ip4_ok_def ip6_ok_def)
  then obtain p q r s where ip: "ad_ip a = [p, q, r, s]" "p \<le> 255" "q \<le> 255" "r \<le> 255" "s \<le> 255"
    by (auto simp: length_Suc_conv eval_nat_numeral)
  let ?t = "digits p @ ''.'' @ digits q @ ''.'' @ digits r @ ''.'' @ digits s"
  have t: "mg_ntoa a = ?t" using False by (simp add: mg_ntoa_def ip(1) decimal_def numeral_2_eq_2 numeral_3_eq_3)
  have "mg_aton4 ?t b = Some (b\<lparr>ad_ip := [p, q, r, s], is_ip6 := False\<rparr>)" by (rule aton4_text [OF ip(2-5)])
  moreover have "mg_vcasecmp ?t ''localhost'' \<noteq> 0"
  proof
    assume "mg_vcasecmp ?t ''localhost'' = 0"
    then have "map mg_lower ?t = map mg_lower ''localhost''"
      by (rule mg_vcasecmp_mem) (simp add: digits_no_NUL)
    then have "mg_lower CHR ''.'' \<in> set (map mg_lower ''localhost'')" by (metis (no_types, lifting) in_set_conv_decomp list.set_map imageI append_Cons append_Nil)
    then show False by (simp add: mg_lower_def)
  qed
  ultimately show ?thesis using False by (simp add: mg_aton_def mg_atonl_def t ip(1))
next
  case True
  with assms(1) have a: "length (ad_ip6 a) = 16" "list_all (\<lambda>b. b \<le> 255) (ad_ip6 a)" by (auto simp: ip4_ok_def ip6_ok_def)
  let ?t = "hex_lower (ip6_group (ad_ip6 a) 0) @ groups_text (ip6_group (ad_ip6 a)) 1"
  have t: "mg_ntoa a = ?t" using True by (simp add: mg_ntoa_def groups_text_def)
  have colon: "CHR '':'' \<in> set ?t" using groups_text_Suc [of 1] by simp
  have "aton6_loop ?t 0 0 0 42 (ad_ip6 b) = Some (14, 42, ad_ip6 a)" by (rule aton6_text [OF assms(2) a])
  then have "mg_aton6 ?t b = Some (b\<lparr>ad_ip6 := ad_ip6 a, is_ip6 := True\<rparr>)" by (simp add: mg_aton6_def)
  moreover have "mg_aton4 ?t b = None" using aton4_colon [OF colon] by (simp add: mg_aton4_def)
  moreover have "mg_vcasecmp ?t ''localhost'' \<noteq> 0"
  proof
    assume "mg_vcasecmp ?t ''localhost'' = 0"
    then have "map mg_lower ?t = map mg_lower ''localhost''"
      by (rule mg_vcasecmp_mem) (rule groups_no_NUL)
    then have "mg_lower CHR '':'' \<in> set (map mg_lower ''localhost'')" using colon by (metis imageI list.set_map)
    then show False by (simp add: mg_lower_def)
  qed
  ultimately show ?thesis using True by (simp add: mg_aton_def mg_atonl_def t)
qed

definition demo_ip :: mg_addr where
  "demo_ip = no_addr\<lparr>ad_ip6 := [32, 1, 72, 96, 72, 96, 0, 0, 0, 0, 0, 0, 0, 0, 136, 136], is_ip6 := True\<rparr>"

theorem address_roundtrip_witness:
  "\<exists>r. mg_aton (mg_ntoa demo_ip) no_addr = Some r \<and> is_ip6 r \<and>
     ad_ip6 r = [32, 1, 72, 96, 72, 96, 0, 0, 0, 0, 0, 0, 0, 0, 136, 136]"
  using address_roundtrip [of demo_ip no_addr] by (simp add: demo_ip_def no_addr_def ip6_ok_def)

end
