(* ===== verification/WebWire.thy ===== *)
theory WebWire
  imports CamServer MgServe MgConn
begin

text \<open>
  The camera web server on its connections: the request handler of package/evsoc_camera/src/main.c as the handler
  of the web server library, requests as the text of a connection, and the pages and files that go out on it.
\<close>

unbundle bit_operations_syntax

section \<open>The handler of the camera server on a connection\<close>

text \<open>\<open>streaming\<close> is the label 'S' of the connection, \<open>effects\<close> what the handler did, in order.\<close>

record web_conn =
  web :: web_dev
  streaming :: bool
  effects :: "web_effect list"

definition stream_header :: string where
  "stream_header =
     ''HTTP/1.0 200 OK'' @ CRLF @ ''Cache-Control: no-cache'' @ CRLF @ ''Pragma: no-cache'' @ CRLF
     @ ''Expires: Thu, 01 Dec 2023 00:00:00 GMT'' @ [CHR 0x5C, CHR ''r'', LF]
     @ ''Content-Type: multipart/x-mixed-replace; boundary=--foo'' @ CRLF @ CRLF"

definition hello_chunked :: "string list" where
  "hello_chunked = (''HTTP/1.1 200 OK'' @ CRLF @ ''Transfer-Encoding: chunked'' @ CRLF @ CRLF)
     # mg_http_write_chunk (''Hello, client!'' @ [CHR 0x00]) @ mg_http_write_chunk []"

text \<open>What an effect of the handler sends, and the file it starts to send.\<close>

definition effect_output ::
  "file_system \<Rightarrow> string \<Rightarrow> http_message \<Rightarrow> web_effect \<Rightarrow> string list \<times> string option" where
  "effect_output fs stale hm e =
     (case e of
        Reply r \<Rightarrow> (mg_http_reply 200 [] (r @ [LF]), None)
      | StreamHeader \<Rightarrow> ([stream_header], None)
      | HelloChunk \<Rightarrow> (hello_chunked, None)
      | ServeDir \<Rightarrow> mg_http_serve_dir fs stale web_root hm
      | _ \<Rightarrow> ([], None))"

definition camera_handle ::
  "file_system \<Rightarrow> string \<Rightarrow> string list \<Rightarrow> web_conn http_handler" where
  "camera_handle fs stale files hm body w =
     Option.bind (handle_request files (hm_uri hm) (hm_method hm) body (web w)) (\<lambda>(dev, eff).
       let outs = map (effect_output fs stale hm) eff
       in Some (w\<lparr>web := dev, streaming := streaming w \<or> StreamHeader \<in> set eff, effects := effects w @ eff\<rparr>,
                concat (map fst outs), fold (\<lambda>x f. if snd x = None then f else snd x) outs None))"

text \<open>
  The tests of the handler are \<open>mg_http_match_uri\<close> and \<open>mg_vcmp\<close> against fixed strings, which is equality.
\<close>

lemma handler_tests:
  "mg_globmatch (length ''/api/camera'' + 1) ''/api/camera'' uri = Some (uri = ''/api/camera'')"
  "t \<in> {''/load'', ''/btn_capture'', ''/btn_normal'', ''/btn_sw_grayscale'', ''/btn_erosion'', ''POST'', ''/digital_gain'',
     ''/exposure'', ''/btn_next'', ''/btn_prev''} \<Longrightarrow> mg_vcmp uri t = 0 \<longleftrightarrow> uri = t"
proof -
  have "literal ''/api/camera''" by (simp add: literal_def)
  from mg_globmatch_literal [OF this] show "mg_globmatch (length ''/api/camera'' + 1) ''/api/camera'' uri = Some (uri = ''/api/camera'')"
    by auto
qed (rule mg_vcmp_eq, auto)

text \<open>The requests that are answered without a file.\<close>

definition api_paths :: "string set" where
  "api_paths = {''/api/camera'', ''/load'', ''/btn_capture'', ''/btn_normal'', ''/btn_sw_grayscale'', ''/btn_erosion''}"

definition api_message :: "http_message \<Rightarrow> bool" where
  "api_message hm \<longleftrightarrow> hm_uri hm \<in> api_paths \<or> hm_method hm = ''POST''"

definition no_dir :: "(web_dev \<times> web_effect list) option \<Rightarrow> bool" where
  "no_dir x \<longleftrightarrow> (\<forall>dev eff. x = Some (dev, eff) \<longrightarrow> ServeDir \<notin> set eff)"

lemma no_dir_intros:
  "(b \<Longrightarrow> no_dir x) \<Longrightarrow> (\<not> b \<Longrightarrow> no_dir y) \<Longrightarrow> no_dir (if b then x else y)"
  "ServeDir \<notin> set eff \<Longrightarrow> no_dir (Some (dev, eff))"
  "(\<And>num. no_dir (f num)) \<Longrightarrow> no_dir (with_num body f)"
  "(\<And>r. no_dir (g r)) \<Longrightarrow> no_dir (Option.bind m g)"
  by (auto simp: no_dir_def with_num_def bind_Some_iff)

lemma api_no_ServeDir:
  assumes "handle_request files uri meth body dev = Some (dev', eff)" "uri \<in> api_paths \<or> meth = ''POST''"
  shows "ServeDir \<notin> set eff"
proof -
  have "no_dir (on_load files body dev)"
    unfolding on_load_def Let_def by (intro no_dir_intros) simp_all
  moreover have False if "uri \<noteq> ''/api/camera''" "uri \<noteq> ''/load''" "uri \<noteq> ''/btn_capture''" "uri \<noteq> ''/btn_normal''"
      "uri \<noteq> ''/btn_sw_grayscale''" "uri \<noteq> ''/btn_erosion''" "meth \<noteq> ''POST''"
    using assms(2) that by (simp add: api_paths_def)
  ultimately have "no_dir (handle_request files uri meth body dev)"
    unfolding handle_request_def by (intro no_dir_intros) (assumption | simp)+
  with assms(1) show ?thesis unfolding no_dir_def by blast
qed

lemma no_file_fold: "\<forall>x \<in> set outs. snd x = None \<Longrightarrow> fold (\<lambda>x f. if snd x = None then f else snd x) outs None = None"
  by (induction outs) simp_all

interpretation camera: http_app "camera_handle fs stale files" api_message
proof
  fix hm body st st' out f
  assume api: "api_message hm" and h: "camera_handle fs stale files hm body st = Some (st', out, f)"
  then obtain dev eff where r: "handle_request files (hm_uri hm) (hm_method hm) body (web st) = Some (dev, eff)"
    "f = fold (\<lambda>x f. if snd x = None then f else snd x) (map (effect_output fs stale hm) eff) None"
    by (auto simp: camera_handle_def bind_Some_iff Let_def)
  have "ServeDir \<notin> set eff" using api_no_ServeDir [OF r(1)] api by (simp add: api_message_def)
  then have "\<forall>x \<in> set (map (effect_output fs stale hm) eff). snd x = None"
    by (auto simp: effect_output_def split: web_effect.splits)
  from no_file_fold [OF this] r(2) show "f = None" by simp
qed

section \<open>A session of requests\<close>

record page_request =
  pr_method :: string
  pr_uri :: string
  pr_headers :: "http_header list"
  pr_body :: string

definition pr_path :: "page_request \<Rightarrow> string" where
  "pr_path r = takeWhile (\<lambda>c. c \<noteq> CHR ''?'') (pr_uri r)"

definition pr_text :: "page_request \<Rightarrow> string" where
  "pr_text r = request_text (pr_method r) (pr_uri r) (pr_headers r) (pr_body r)"

text \<open>A well-formed request with a declared length, and one that is answered without a file.\<close>

definition request_ok :: "nat \<Rightarrow> page_request \<Rightarrow> bool" where
  "request_ok W r \<longleftrightarrow> token (pr_method r) \<and> path_ok (pr_uri r) \<and> headers_ok (pr_headers r) \<and>
     declares (pr_method r) (pr_headers r) (length (pr_body r)) \<and>
     mg_http_get_header (pr_headers r) ''Transfer-Encoding'' = None \<and>
     length (pr_text r) < 2 ^ W - 1 \<and> length (pr_body r) < 2 ^ 63"

definition api_request :: "page_request \<Rightarrow> bool" where
  "api_request r \<longleftrightarrow> pr_path r \<in> api_paths \<or> pr_method r = ''POST''"

text \<open>What the requests ask for, one after the other, by the handler alone.\<close>

fun api_session ::
  "string list \<Rightarrow> page_request list \<Rightarrow> web_conn \<Rightarrow> (web_conn \<times> string list) option" where
  "api_session files [] w = Some (w, [])"
| "api_session files (r # rs) w = do {
     (dev, eff) \<leftarrow> handle_request files (pr_path r) (pr_method r) (pr_body r) (web w);
     (w', out) \<leftarrow> api_session files rs
        (w\<lparr>web := dev, streaming := streaming w \<or> StreamHeader \<in> set eff, effects := effects w @ eff\<rparr>);
     Some (w', concat (map (\<lambda>e. case e of Reply r \<Rightarrow> mg_http_reply 200 [] (r @ [LF]) | StreamHeader \<Rightarrow> [stream_header]
                                        | HelloChunk \<Rightarrow> hello_chunked | _ \<Rightarrow> []) eff) @ out)
   }"

definition pr_message :: "page_request \<Rightarrow> http_message" where
  "pr_message r = head_message (pr_method r) (pr_uri r) ''HTTP/1.1'' (pr_headers r) (length (pr_body r))"

lemma pr_message_simps [simp]: "hm_uri (pr_message r) = pr_path r" "hm_method (pr_message r) = pr_method r"
  by (simp_all add: pr_message_def head_message_def pr_path_def Let_def)

lemma pr_message_text:
  assumes "request_ok W r"
  shows "message_text W (pr_text r) (pr_message r)" "message_body (pr_text r) (pr_message r) = pr_body r"
proof -
  have ok: "token (pr_method r)" "path_ok (pr_uri r)" "headers_ok (pr_headers r)"
    "declares (pr_method r) (pr_headers r) (length (pr_body r))"
    "mg_http_get_header (pr_headers r) ''Transfer-Encoding'' = None"
    "length (request_text (pr_method r) (pr_uri r) (pr_headers r) (pr_body r)) < 2 ^ W - 1" "length (pr_body r) < 2 ^ 63"
    using assms by (simp_all add: request_ok_def pr_text_def)
  let ?head = "head_text (pr_method r) (pr_uri r) ''HTTP/1.1'' (pr_headers r)"
  have hm: "hm_head (pr_message r) = length ?head" "hm_body_len (pr_message r) = length (pr_body r)"
    "hm_message_len (pr_message r) = length ?head + length (pr_body r)"
    "hm_headers (pr_message r) = pr_headers r @ replicate (MG_MAX_HTTP_HEADERS - length (pr_headers r)) ([], [])"
    by (simp_all add: pr_message_def head_message_def Let_def)
  have "\<not> mg_is_chunked (pr_message r)"
    using ok(5) by (simp add: mg_is_chunked_def hm get_header_padded [OF ok(3)])
  then show "message_text W (pr_text r) (pr_message r)"
    using request_message_text [OF ok(1-4,6,7)] hm
    by (simp add: message_text_def pr_text_def pr_message_def request_text_def) (simp add: head_text_def)
  show "message_body (pr_text r) (pr_message r) = pr_body r"
    by (simp add: message_body_def hm pr_text_def request_text_def)
qed

lemma api_request_message [simp]: "api_message (pr_message r) = api_request r"
  by (simp add: api_message_def api_request_def)

lemma effect_outputs:
  "ServeDir \<notin> set eff \<Longrightarrow>
    concat (map fst (map (effect_output fs stale hm) eff)) =
      concat (map (\<lambda>e. case e of Reply r \<Rightarrow> mg_http_reply 200 [] (r @ [LF]) | StreamHeader \<Rightarrow> [stream_header]
                                | HelloChunk \<Rightarrow> hello_chunked | _ \<Rightarrow> []) eff) \<and>
    fold (\<lambda>x f. if snd x = None then f else snd x) (map (effect_output fs stale hm) eff) None = None"
proof
  assume d: "ServeDir \<notin> set eff"
  show "concat (map fst (map (effect_output fs stale hm) eff)) =
      concat (map (\<lambda>e. case e of Reply r \<Rightarrow> mg_http_reply 200 [] (r @ [LF]) | StreamHeader \<Rightarrow> [stream_header]
                                | HelloChunk \<Rightarrow> hello_chunked | _ \<Rightarrow> []) eff)"
    using d by (induction eff) (auto simp: effect_output_def split: web_effect.splits)
  show "fold (\<lambda>x f. if snd x = None then f else snd x) (map (effect_output fs stale hm) eff) None = None"
    by (rule no_file_fold) (use d in \<open>auto simp: effect_output_def split: web_effect.splits\<close>)
qed

lemma serve_all_session:
  assumes "\<forall>r \<in> set rs. request_ok W r \<and> api_request r"
  shows "serve_all malloc (camera_handle fs stale files) (messages (map (\<lambda>r. (pr_text r, pr_message r)) rs)) c w =
    map_option (\<lambda>(w', out). (fold (mg_send malloc) out c, w')) (api_session files rs w)"
  using assms
proof (induction rs arbitrary: c w)
  case (Cons r rs)
  have ok: "request_ok W r" and api: "api_request r" using Cons.prems by simp_all
  note m = pr_message_text [OF ok]
  show ?case
  proof (cases "handle_request files (pr_path r) (pr_method r) (pr_body r) (web w)")
    case None
    then show ?thesis by (simp add: m(2) camera_handle_def)
  next
    case (Some de)
    obtain dev eff where de: "de = (dev, eff)" by (cases de)
    have "ServeDir \<notin> set eff"
      using api_no_ServeDir [OF Some [unfolded de]] api by (simp add: api_request_def)
    note out = effect_outputs [OF this, of fs stale "pr_message r"]
    let ?w = "w\<lparr>web := dev, streaming := streaming w \<or> StreamHeader \<in> set eff, effects := effects w @ eff\<rparr>"
    have "camera_handle fs stale files (pr_message r) (pr_body r) w =
        Some (?w, concat (map fst (map (effect_output fs stale (pr_message r)) eff)), None)"
      using Some out by (simp add: camera_handle_def de Let_def)
    then show ?thesis
      using Cons.IH [of _ ?w] Cons.prems Some out
      by (cases "api_session files rs ?w") (auto simp: m(2) de answer_def Let_def)
  qed
qed simp


definition demo_request :: page_request where
  "demo_request = \<lparr>pr_method = ''POST'', pr_uri = ''/btn_sw_grayscale'', pr_headers = [(''Content-Length'', ''5'')], pr_body = ''{a:1}''\<rparr>"

definition demo_conn :: http_conn where
  "demo_conn = \<lparr>recv = \<lparr>io_mem = [], io_len = 0\<rparr>, send = \<lparr>io_mem = [], io_len = 0\<rparr>, is_closing = False, serving = None\<rparr>"

definition demo_web :: web_conn where
  "demo_web = \<lparr>web = \<lparr>hw_cmd = HW_ACCEL_NONE, hw_enable = True, sw_grayscale = 0, capture = 0, img_list = []\<rparr>,
     streaming = False, effects = []\<rparr>"

definition demo_malloc :: "nat \<Rightarrow> string option" where "demo_malloc n = Some (replicate n CHR 0x00)"

lemma demo_length: "decimal 5 = ''5''"
  by (simp add: decimal_def digits.simps char_of_eq_iff take_bit_eq_mod)

lemma demo_header:
  "mg_http_get_header [(''Content-Length'', ''5'')] ''Content-Length'' = Some ''5''"
  "mg_http_get_header [(''Content-Length'', ''5'')] ''Transfer-Encoding'' = None"
  using mg_ncasecmp_self [of "''Content-Length''" "[]" "[]"] by (simp_all add: mg_http_get_header_def MG_MAX_HTTP_HEADERS_def)

lemma demo_request_ok: "request_ok 32 demo_request \<and> api_request demo_request"
proof -
  have "token ''POST''" "token ''Content-Length''" "token ''/btn_sw_grayscale''" "is_print CHR ''5''"
    by (simp_all add: token_def is_print_def)
  then have "headers_ok [(''Content-Length'', ''5'')]" "path_ok ''/btn_sw_grayscale''"
    by (simp_all add: headers_ok_def header_ok_def MG_MAX_HTTP_HEADERS_def path_ok_def)
  with \<open>token ''POST''\<close> demo_header demo_length show ?thesis
    by (simp add: request_ok_def api_request_def demo_request_def declares_def pr_text_def request_text_def head_text_def header_text_def)
qed

lemma demo_api_session:
  "api_session [] [demo_request] demo_web =
    Some (demo_web\<lparr>web := (web demo_web)\<lparr>sw_grayscale := 1\<rparr>\<rparr>, [])"
proof -
  have "request_int 256 ''{a:1}'' = Some 1"
    using request_int_exact_eq [of "''{a:1}''" 256]
    by (simp add: unquote_def atoi_def is_space_def is_digit_def int_range_def VALUE_SIZE_def)
  then show ?thesis
    by (simp add: demo_request_def demo_web_def pr_path_def handle_request_def with_num_def)
qed


section \<open>Pages and files\<close>

lemma mg_send_text:
  assumes "malloc_ok malloc" "io_ok (send c)"
  shows "io_text (send (mg_send malloc d c)) = io_text (send c) @ d \<and> io_ok (send (mg_send malloc d c))"
proof -
  have "\<And>n p. malloc n = Some p \<Longrightarrow> length p = n" "\<not> (\<exists>n. malloc n = None)"
    using malloc_ok_blocks [OF assms(1)] assms(1) by (auto simp: blocks_ok_def malloc_ok_def)
  with mg_iobuf_append_text [OF assms(2), of malloc d] show ?thesis by (auto simp: mg_send_def)
qed

lemma answer_pending:
  assumes "malloc_ok malloc" "io_ok (send c)"
  shows "io_ok (send (answer malloc out f c)) \<and>
    (serving c = None \<longrightarrow> pending (answer malloc out f c) = io_text (send c) @ concat out @ (case f of None \<Rightarrow> [] | Some d \<Rightarrow> d))"
proof -
  have "io_text (send (fold (mg_send malloc) out c)) = io_text (send c) @ concat out \<and> io_ok (send (fold (mg_send malloc) out c))"
    using assms(2)
  proof (induction out arbitrary: c)
    case (Cons d out)
    from mg_send_text [OF assms(1) Cons.prems, of d] Cons.IH [of "mg_send malloc d c"] show ?case by simp
  qed simp
  then show ?thesis by (auto simp: answer_def pending_def Let_def split: option.splits)
qed

lemma file_request_serves:
  assumes "\<not> api_request r"
  shows "camera_handle fs stale files (pr_message r) body w =
    Some (w\<lparr>effects := effects w @ [ServeDir]\<rparr>, mg_http_serve_dir fs stale web_root (pr_message r))"
proof -
  have "handle_request files (pr_path r) (pr_method r) body (web w) = Some (web w, [ServeDir])"
    using assms by (simp add: handle_request_def api_request_def api_paths_def)
  then show ?thesis by (simp add: camera_handle_def effect_output_def split_def)
qed

text \<open>
  C13: A request for anything but the interface of the program is answered with what
  \<open>mg_http_serve_dir\<close> makes of its path: once the socket has taken bytes often enough, the wire has the
  head it sends followed by the whole file, in order and complete, however few bytes go out at a time,
  and the connection is ready for the next request.
\<close>
theorem page_delivered:
  assumes "malloc_ok malloc" "request_ok W r" "\<not> api_request r"
    "io_ok (recv c)" "io_text (recv c) = pr_text r" "io_ok (send c)" "io_text (send c) = []" "serving c = None"
    "mg_http_serve_dir fs stale web_root (pr_message r) = (out, f)"
    "\<forall>w \<in> set ws. eager w" "length (concat out @ (case f of None \<Rightarrow> [] | Some d \<Rightarrow> d)) < length ws"
  shows "\<exists>c'. http_cb W malloc beyond (camera_handle fs stale files) False c w = Some (c', w\<lparr>effects := effects w @ [ServeDir]\<rparr>) \<and>
    io_text (recv c') = [] \<and>
    fst (write_rounds malloc ws c') = concat out @ (case f of None \<Rightarrow> [] | Some d \<Rightarrow> d) \<and>
    serving (snd (write_rounds malloc ws c')) = None"
proof -
  note m = pr_message_text [OF assms(2)]
  let ?a = "answer malloc out f c" and ?rs = "[(pr_text r, pr_message r)]"
  let ?io = "consumed ?rs (recv c)"
  have tx: "io_text (recv c) = stream ?rs @ []" using assms(5) by simp
  have cb: "http_cb W malloc beyond (camera_handle fs stale files) False c w =
      Some (?a\<lparr>recv := ?io\<rparr>, w\<lparr>effects := effects w @ [ServeDir]\<rparr>)"
    using http_cb_stream [OF assms(4) tx _ waits_Nil, of W malloc beyond "camera_handle fs stale files" w] m
      file_request_serves [OF assms(3), of fs stale files "pr_body r" w] assms(9)
    by simp
  note a = answer_pending [OF assms(1,6), of out f]
  have "pending (?a\<lparr>recv := ?io\<rparr>) = concat out @ (case f of None \<Rightarrow> [] | Some d \<Rightarrow> d)" "io_ok (send (?a\<lparr>recv := ?io\<rparr>))"
    using a assms(7,8) by (simp_all add: pending_def)
  with write_rounds_complete [OF assms(1,10), of "?a\<lparr>recv := ?io\<rparr>"] assms(11) cb consumed_text [OF assms(4) tx]
  show ?thesis by (intro exI [of _ "?a\<lparr>recv := ?io\<rparr>"]) simp
qed

text \<open>A style sheet under the web root, and a socket that takes one byte at a time.\<close>

definition page_fs :: file_system where
  "page_fs = \<lparr>fs_realpath = Some, fs_is_dir = (\<lambda>p. p = web_root),
     fs_file = (\<lambda>p. if p = web_root @ ''/a.css'' then Some (''p{}'', 1) else None)\<rparr>"

definition page_get :: page_request where
  "page_get = \<lparr>pr_method = ''GET'', pr_uri = ''/a.css'', pr_headers = [], pr_body = []\<rparr>"

definition one_byte :: "(string \<Rightarrow> write_result) option" where
  "one_byte = Some (\<lambda>text. if text = [] then Not_written False else Wrote 1)"

definition page_conn :: http_conn where
  "page_conn = demo_conn\<lparr>recv := \<lparr>io_mem = pr_text page_get, io_len = length (pr_text page_get)\<rparr>\<rparr>"

definition page_head :: string where
  "page_head = ''HTTP/1.1 200 OK'' @ CRLF @ ''Content-Type: text/css'' @ CRLF @ ''Etag: '' @ [CHR 0x22] @ ''1.3'' @ [CHR 0x22] @ CRLF
     @ ''Content-Length: 3'' @ CRLF @ CRLF"

lemma page_get_ok: "request_ok 32 page_get \<and> \<not> api_request page_get"
  by (simp add: request_ok_def page_get_def token_def is_print_def path_ok_def headers_ok_def declares_def mg_http_get_header_def
      mg_vcasecmp_def mg_lower_def pr_text_def request_text_def head_text_def header_text_def
      api_request_def api_paths_def pr_path_def)

lemma page_get_message: "hm_uri (pr_message page_get) = ''/a.css''" "hm_method (pr_message page_get) = ''GET''"
  "mg_http_get_header (hm_headers (pr_message page_get)) n = None"
  by (simp_all add: page_get_def pr_path_def) (simp add: pr_message_def head_message_def Let_def)

lemma page_asked: "asked_path stale web_root ''/a.css'' = web_root @ ''/a.css''"
  by (simp add: asked_path_def web_root_def mg_url_decode.simps PATH_MAX_def cstr_def strip_slashes_def)

lemma page_type: "guess_content_type (web_root @ ''/a.css'') = ''text/css''"
  by (simp add: guess_content_type_def web_root_def mime_types_def Let_def mg_lower_def)

lemma page_etag: "mg_http_etag (Suc 0) (Suc (Suc (Suc 0))) = [CHR 0x22] @ ''1.3'' @ [CHR 0x22]"
proof -
  have "hex_lower (Suc 0) = ''1''" by (simp add: hex_lower.simps char_of_eq_iff take_bit_eq_mod)
  moreover have "digits 3 = ''3''" by (simp add: digits.simps char_of_eq_iff take_bit_eq_mod)
  ultimately show ?thesis by (simp add: mg_http_etag_def decimal_def nat_add_distrib)
qed

lemma page_length: "decimal 3 = ''3''"
  by (simp add: decimal_def digits.simps char_of_eq_iff take_bit_eq_mod)

lemma page_not_head: "mg_vcasecmp ''GET'' ''HEAD'' \<noteq> 0"
  by (simp add: mg_vcasecmp_def mg_lower_def Let_def)

lemma page_served:
  "mg_http_serve_dir page_fs stale web_root (pr_message page_get) = ([page_head], Some ''p{}'')"
  using page_type page_get_message page_asked page_not_head page_etag page_length
  by (simp add: mg_http_serve_dir_def mg_http_serve_file_def page_fs_def Let_def page_head_def)

theorem page_delivered_witness:
  "\<exists>c'. http_cb 32 demo_malloc (\<lambda>i. CHR 0x00) (camera_handle page_fs [] []) False page_conn demo_web =
      Some (c', demo_web\<lparr>effects := [ServeDir]\<rparr>) \<and> io_text (recv c') = [] \<and>
    fst (write_rounds demo_malloc (replicate 100 one_byte) c') = page_head @ ''p{}'' \<and>
    serving (snd (write_rounds demo_malloc (replicate 100 one_byte) c')) = None"
proof -
  have "malloc_ok demo_malloc" by (simp add: malloc_ok_def demo_malloc_def)
  moreover have "eager one_byte" by (auto simp: eager_def one_byte_def Suc_le_eq)
  moreover have "length page_head < 90" by (simp add: page_head_def)
  moreover have "io_ok (recv page_conn)" "io_text (recv page_conn) = pr_text page_get" "io_ok (send page_conn)"
    "io_text (send page_conn) = []" "serving page_conn = None" "effects demo_web = []"
    by (simp_all add: page_conn_def demo_conn_def io_ok_def io_text_def io_size_def demo_web_def)
  ultimately show ?thesis
    using page_delivered [where malloc = demo_malloc and W = 32 and r = page_get and c = page_conn and fs = page_fs and stale = "[]"
        and f = "Some ''p{}''" and ws = "replicate 100 one_byte" and beyond = "\<lambda>i. CHR 0x00" and files = "[]" and w = demo_web]
      page_get_ok page_served
    by simp
qed

end
