(* ===== verification/WebMain.thy ===== *)
theory WebMain
  imports WebWire CamStack MgTimer MgNet
begin

text \<open>
  The main loop of the camera web server: package/evsoc_camera/src/main.c on the manager of the web server
  library, with its timer, its listening socket and its connections.  A frame of video goes from the driver of
  the camera through the timer's callback to the streaming connections; requests are answered between the
  frames.  What the sockets do in a round is the record \<open>round_io\<close>.
\<close>

unbundle bit_operations_syntax

section \<open>The server\<close>

text \<open>
  A connection the listener accepted, with its number \<open>c->id\<close> and whether its label says it is a stream.
\<close>

record peer =
  peer_id :: nat
  peer_conn :: http_conn
  peer_stream :: bool

text \<open>
  The state of the program: \<open>struct dev\<close>, the driver, the list \<open>mgr->conns\<close> (the accepted connections and,
  at its end, the listening one), the last number given out, the runs of the timer's callback and what
  handlers did besides sending.
\<close>

record web_server =
  sv_dev :: web_dev
  sv_driver :: evsoc
  sv_peers :: "peer list"
  sv_lsn :: "http_conn option"
  sv_nextid :: nat
  sv_ticks :: nat
  sv_log :: "web_effect list"

definition new_conn :: http_conn where
  "new_conn = \<lparr>recv = \<lparr>io_mem = [], io_len = 0\<rparr>, send = \<lparr>io_mem = [], io_len = 0\<rparr>, is_closing = False, serving = None\<rparr>"

definition octets :: "u8 list \<Rightarrow> string" where
  "octets bs = map (\<lambda>b. char_of (unat b)) bs"

definition send_to :: "(nat \<Rightarrow> string option) \<Rightarrow> nat \<times> u8 list \<Rightarrow> web_server \<Rightarrow> web_server" where
  "send_to malloc m s =
     s\<lparr>sv_peers := map (\<lambda>p. if peer_id p = fst m then p\<lparr>peer_conn := mg_send malloc (octets (snd m)) (peer_conn p)\<rparr> else p) (sv_peers s)\<rparr>"

text \<open>A page made after a picture goes to the first connection of the list, whatever it is.\<close>

definition send_first :: "(nat \<Rightarrow> string option) \<Rightarrow> string \<Rightarrow> web_server \<Rightarrow> web_server option" where
  "send_first malloc d s =
     (case sv_peers s of
        p # ps \<Rightarrow> Some (s\<lparr>sv_peers := p\<lparr>peer_conn := mg_send malloc d (peer_conn p)\<rparr> # ps\<rparr>)
      | [] \<Rightarrow> map_option (\<lambda>c. s\<lparr>sv_lsn := Some (mg_send malloc d c)\<rparr>) (sv_lsn s))"

fun send_all_first :: "(nat \<Rightarrow> string option) \<Rightarrow> string list \<Rightarrow> web_server \<Rightarrow> web_server option" where
  "send_all_first malloc [] s = Some s"
| "send_all_first malloc (d # ds) s = Option.bind (send_first malloc d s) (send_all_first malloc ds)"

definition replies :: "web_effect list \<Rightarrow> string list" where
  "replies eff = concat (map (\<lambda>e. case e of Reply r \<Rightarrow> mg_http_reply 200 [] (r @ [LF]) | _ \<Rightarrow> []) eff)"

definition not_reply :: "web_effect \<Rightarrow> bool" where
  "not_reply e \<longleftrightarrow> (\<forall>r. e \<noteq> Reply r)"

text \<open>
  \<open>env k\<close> says for the frame \<open>k\<close> whether the driver could be opened, whether its buffer could be mapped, and
  whether the picture directory is there.
\<close>

definition timer_callback ::
  "iomem device \<Rightarrow> 'm opencv \<Rightarrow> (nat \<Rightarrow> bool \<times> bool \<times> bool) \<Rightarrow> (nat \<Rightarrow> string option) \<Rightarrow> web_server \<Rightarrow> web_server option" where
  "timer_callback d cv env malloc s = do {
     let (opened, mapped, dir_ok) = env (sv_ticks s);
     (dev, drv, sent, eff) \<leftarrow> broadcast_mjpeg_camera_frame d cv opened mapped dir_ok
        (map (\<lambda>p. (peer_id p, if peer_stream p then CHR ''S'' else CHR 0x00)) (sv_peers s)) (sv_dev s) (sv_driver s);
     let s = fold (send_to malloc) sent s;
     s \<leftarrow> send_all_first malloc (replies eff) s;
     Some (s\<lparr>sv_dev := dev, sv_driver := drv, sv_ticks := sv_ticks s + 1, sv_log := sv_log s @ filter not_reply eff\<rparr>)
   }"

section \<open>A round\<close>

text \<open>
  What a round finds: the time, for each connection whether it can be read and written and what comes of
  it, and whether a new connection is accepted.
\<close>

record round_io =
  clock :: nat
  ready :: "nat \<Rightarrow> sock_result option \<times> (string \<Rightarrow> write_result) option"
  accepted :: bool

definition poll_peer ::
  "nat \<Rightarrow> (nat \<Rightarrow> string option) \<Rightarrow> (nat \<Rightarrow> char) \<Rightarrow> file_system \<Rightarrow> string \<Rightarrow> string list \<Rightarrow> round_io \<Rightarrow> peer \<Rightarrow> web_dev \<Rightarrow>
    (string \<times> peer option \<times> web_dev \<times> web_effect list) option" where
  "poll_peer W malloc beyond fs stale files ev p dev = do {
     (out, c, st) \<leftarrow> poll_conn W malloc beyond (camera_handle fs stale files) (fst (ready ev (peer_id p))) (snd (ready ev (peer_id p)))
        (peer_conn p) \<lparr>web = dev, streaming = peer_stream p, effects = []\<rparr>;
     Some (out, map_option (\<lambda>c. p\<lparr>peer_conn := c, peer_stream := streaming st\<rparr>) c, web st, effects st)
   }"

fun poll_peers ::
  "nat \<Rightarrow> (nat \<Rightarrow> string option) \<Rightarrow> (nat \<Rightarrow> char) \<Rightarrow> file_system \<Rightarrow> string \<Rightarrow> string list \<Rightarrow> round_io \<Rightarrow> peer list \<Rightarrow> web_dev \<Rightarrow>
    ((nat \<times> string) list \<times> peer list \<times> web_dev \<times> web_effect list) option" where
  "poll_peers W malloc beyond fs stale files ev [] dev = Some ([], [], dev, [])"
| "poll_peers W malloc beyond fs stale files ev (p # ps) dev = do {
     (out, p', dev, eff) \<leftarrow> poll_peer W malloc beyond fs stale files ev p dev;
     (outs, ps', dev, effs) \<leftarrow> poll_peers W malloc beyond fs stale files ev ps dev;
     Some ((peer_id p, out) # outs, (case p' of None \<Rightarrow> ps' | Some q \<Rightarrow> q # ps'), dev, eff @ effs)
   }"

definition accept_conn :: "bool \<Rightarrow> web_server \<Rightarrow> web_server" where
  "accept_conn ok s =
     (if ok \<and> sv_lsn s \<noteq> None
      then s\<lparr>sv_nextid := sv_nextid s + 1,
             sv_peers := \<lparr>peer_id = sv_nextid s + 1, peer_conn = new_conn, peer_stream = False\<rparr> # sv_peers s\<rparr>
      else s)"

definition mg_mgr_poll ::
  "nat \<Rightarrow> (nat \<Rightarrow> string option) \<Rightarrow> (nat \<Rightarrow> char) \<Rightarrow> file_system \<Rightarrow> string \<Rightarrow> string list \<Rightarrow> round_io \<Rightarrow>
    nat \<times> web_server timer list \<times> web_server \<Rightarrow> ((nat \<times> string) list \<times> nat \<times> web_server timer list \<times> web_server) option" where
  "mg_mgr_poll W malloc beyond fs stale files ev m = do {
     (oldnow, g_timers, s) \<leftarrow> mg_timer_poll W (clock ev) (fst m) (fst (snd m)) (snd (snd m));
     (outs, ps, dev, eff) \<leftarrow> poll_peers W malloc beyond fs stale files ev (sv_peers s) (sv_dev s);
     Some (outs, oldnow, g_timers, accept_conn (accepted ev) (s\<lparr>sv_peers := ps, sv_dev := dev, sv_log := sv_log s @ eff\<rparr>))
   }"

section \<open>The program\<close>

fun web_rounds ::
  "nat \<Rightarrow> (nat \<Rightarrow> string option) \<Rightarrow> (nat \<Rightarrow> char) \<Rightarrow> file_system \<Rightarrow> string \<Rightarrow> string list \<Rightarrow> round_io list \<Rightarrow>
    nat \<times> web_server timer list \<times> web_server \<Rightarrow> ((nat \<times> string) list \<times> nat \<times> web_server timer list \<times> web_server) option" where
  "web_rounds W malloc beyond fs stale files [] m = Some ([], m)"
| "web_rounds W malloc beyond fs stale files (ev # evs) m = do {
     (outs, m) \<leftarrow> mg_mgr_poll W malloc beyond fs stale files ev m;
     (rest, m) \<leftarrow> web_rounds W malloc beyond fs stale files evs m;
     Some (outs @ rest, m)
   }"

text \<open>\<open>mg_mgr_free\<close> marks every connection as closing and polls once.\<close>

definition mg_mgr_free ::
  "nat \<Rightarrow> (nat \<Rightarrow> string option) \<Rightarrow> (nat \<Rightarrow> char) \<Rightarrow> file_system \<Rightarrow> string \<Rightarrow> string list \<Rightarrow> round_io \<Rightarrow>
    nat \<times> web_server timer list \<times> web_server \<Rightarrow> (nat \<times> web_server timer list \<times> web_server) option" where
  "mg_mgr_free W malloc beyond fs stale files ev m =
     (let s = snd (snd m);
          s = s\<lparr>sv_peers := map (\<lambda>p. p\<lparr>peer_conn := (peer_conn p)\<lparr>is_closing := True\<rparr>\<rparr>) (sv_peers s)\<rparr>
      in map_option (\<lambda>(outs, oldnow, g_timers, s). (oldnow, g_timers, s\<lparr>sv_lsn := None\<rparr>))
           (mg_mgr_poll W malloc beyond fs stale files (ev\<lparr>accepted := False\<rparr>) (fst m, fst (snd m), s)))"

text \<open>
  \<open>get_ip_address\<close> on the names and addresses of the interfaces, \<open>None\<close> when the socket fails; the test for the loopback
  interface ends a round that has nothing left to do.
\<close>

definition get_ip_address :: "(string \<times> string) list option \<Rightarrow> int + string option" where
  "get_ip_address ifreqs =
     (case ifreqs of None \<Rightarrow> Inl 1
      | Some ifs \<Rightarrow> Inr (fold (\<lambda>(iface, addr) ip. if iface = ''lo'' then Some addr else Some addr) (take 20 ifs) None))"

text \<open>The list elements \<open>free_list\<close> frees, in order.\<close>

fun free_list :: "string list \<Rightarrow> string list" where
  "free_list [] = []"
| "free_list (temp # head) = temp # free_list head"

text \<open>
  \<open>main\<close>: the listener is opened and the timer registered (by the two threads, which end at once), rounds
  are polled until the signal, and everything is closed.  \<open>garbage\<close> is what the fields that main
  does not set hold.
\<close>

definition web_main ::
  "nat \<Rightarrow> (nat \<Rightarrow> string option) \<Rightarrow> (nat \<Rightarrow> char) \<Rightarrow> file_system \<Rightarrow> string \<Rightarrow> string list \<Rightarrow> iomem device \<Rightarrow> 'm opencv \<Rightarrow>
    (nat \<Rightarrow> bool \<times> bool \<times> bool) \<Rightarrow> (string \<times> string) list option \<Rightarrow> (sock_call \<Rightarrow> bool) \<Rightarrow> int \<times> int \<Rightarrow> evsoc \<Rightarrow> round_io list \<Rightarrow> round_io \<Rightarrow>
    (int + (nat \<times> string) list \<times> web_server \<times> string list) option" where
  "web_main W malloc beyond fs stale files d cv env ifreqs answers garbage drv evs end_ev =
    (case get_ip_address ifreqs of Inl r \<Rightarrow> Some (Inl r) | Inr ip_address \<Rightarrow> do {
     let listening = snd (mg_open_listener answers ''0.0.0.0:8000'');
     let dev = \<lparr>hw_cmd = HW_ACCEL_NONE, hw_enable = True, sw_grayscale = fst garbage, capture = snd garbage, img_list = []\<rparr>;
     let s = \<lparr>sv_dev = dev, sv_driver = drv, sv_peers = [], sv_lsn = (if listening then Some new_conn else None),
              sv_nextid = (if listening then 1 else 0), sv_ticks = 0, sv_log = []\<rparr>;
     (g_timers, s) \<leftarrow> mg_timer_init 0 10 MG_TIMER_REPEAT (timer_callback d cv env malloc) [] s;
     (outs, m) \<leftarrow> web_rounds W malloc beyond fs stale files evs (0, g_timers, s);
     (oldnow, g_timers, s) \<leftarrow> mg_mgr_free W malloc beyond fs stale files end_ev m;
     Some (Inr (outs, s, free_list (img_list (sv_dev s))))
   })"

section \<open>What reaches a streaming connection\<close>

lemma chars_bytes [simp]: "octets (bytes_of s) = s"
proof -
  have "char_of (unat (of_char c :: u8)) = c" for c
  proof -
    have "(of_char c :: u8) = of_nat (of_char c)" by (rule of_nat_of_char [symmetric])
    moreover have "of_char c \<in> {0 :: nat..<256}" unfolding range_nat_of_char [symmetric] by (rule rangeI)
    ultimately have "unat (of_char c :: u8) = of_char c" by (simp add: unsigned_of_nat take_bit_nat_eq_self del: of_nat_of_char)
    then show ?thesis by simp
  qed
  then show ?thesis by (simp add: octets_def bytes_of_def comp_def)
qed

definition peer_of :: "nat \<Rightarrow> peer list \<Rightarrow> peer option" where
  "peer_of i ps = List.find (\<lambda>p. peer_id p = i) ps"

lemma peer_of_simps [simp]:
  "peer_of i [] = None"
  "peer_of i (p # ps) = (if peer_id p = i then Some p else peer_of i ps)"
  by (simp_all add: peer_of_def)

lemma peer_of_None: "peer_of i ps = None \<longleftrightarrow> i \<notin> set (map peer_id ps)"
  by (induction ps) auto

lemma peer_of_id: "peer_of i ps = Some p \<Longrightarrow> peer_id p = i"
  by (induction ps) (auto split: if_splits)

lemma peer_of_map: "(\<And>p. peer_id (f p) = peer_id p) \<Longrightarrow> peer_of i (map f ps) = map_option f (peer_of i ps)"
  by (induction ps) simp_all

text \<open>Connection \<open>i\<close> gets \<open>d\<close> to send, and nothing else about it changes.\<close>

definition gains :: "nat \<Rightarrow> string \<Rightarrow> web_server \<Rightarrow> web_server \<Rightarrow> bool" where
  "gains i d s s' \<longleftrightarrow> map peer_id (sv_peers s') = map peer_id (sv_peers s) \<and> sv_nextid s' = sv_nextid s \<and> sv_ticks s' = sv_ticks s \<and>
     sv_log s' = sv_log s \<and>
     (\<forall>p. peer_of i (sv_peers s) = Some p \<longrightarrow> io_ok (send (peer_conn p)) \<longrightarrow>
        (\<exists>p'. peer_of i (sv_peers s') = Some p' \<and> peer_stream p' = peer_stream p \<and> serving (peer_conn p') = serving (peer_conn p) \<and>
           is_closing (peer_conn p') = is_closing (peer_conn p) \<and>
           io_ok (send (peer_conn p')) \<and> io_text (send (peer_conn p')) = io_text (send (peer_conn p)) @ d))"

lemma gains_refl: "gains i [] s s"
  by (simp add: gains_def)

lemma gains_trans:
  assumes "gains i d s s1" "gains i e s1 s2"
  shows "gains i (d @ e) s s2"
proof -
  have "\<exists>p2. peer_of i (sv_peers s2) = Some p2 \<and> peer_stream p2 = peer_stream p \<and> serving (peer_conn p2) = serving (peer_conn p) \<and>
      is_closing (peer_conn p2) = is_closing (peer_conn p) \<and>
      io_ok (send (peer_conn p2)) \<and> io_text (send (peer_conn p2)) = io_text (send (peer_conn p)) @ d @ e"
    if "peer_of i (sv_peers s) = Some p" "io_ok (send (peer_conn p))" for p
  proof -
    from assms(1) that obtain p1 where p1: "peer_of i (sv_peers s1) = Some p1" "peer_stream p1 = peer_stream p"
      "serving (peer_conn p1) = serving (peer_conn p)" "is_closing (peer_conn p1) = is_closing (peer_conn p)"
      "io_ok (send (peer_conn p1))" "io_text (send (peer_conn p1)) = io_text (send (peer_conn p)) @ d"
      unfolding gains_def by blast
    with assms(2) show ?thesis unfolding gains_def by fastforce
  qed
  with assms show ?thesis by (simp add: gains_def)
qed

lemma mg_send_keeps [simp]:
  "serving (mg_send malloc d c) = serving c" "is_closing (mg_send malloc d c) = is_closing c"
  by (simp_all add: mg_send_def)

lemma gains_send_to:
  assumes "malloc_ok malloc"
  shows "gains i (if fst m = i then octets (snd m) else []) s (send_to malloc m s)"
  unfolding gains_def send_to_def
  by (auto simp: peer_of_map comp_def mg_send_text [OF assms] dest: peer_of_id intro!: map_cong)

definition sent_to :: "nat \<Rightarrow> (nat \<times> u8 list) list \<Rightarrow> string" where
  "sent_to i sent = concat (map (\<lambda>m. if fst m = i then octets (snd m) else []) sent)"

lemma gains_sent: "malloc_ok malloc \<Longrightarrow> gains i (sent_to i sent) s (fold (send_to malloc) sent s)"
proof (induction sent arbitrary: s)
  case Nil
  then show ?case by (simp add: sent_to_def gains_refl)
next
  case (Cons m sent)
  from gains_trans [OF gains_send_to [OF Cons.prems, of i m s] Cons.IH [OF Cons.prems]] show ?case
    by (simp add: sent_to_def)
qed

definition first_is :: "nat \<Rightarrow> web_server \<Rightarrow> bool" where
  "first_is i s \<longleftrightarrow> (\<exists>ids. map peer_id (sv_peers s) = i # ids)"

lemma gains_first:
  assumes "malloc_ok malloc" "send_first malloc d s = Some s'"
  shows "gains i (if first_is i s then d else []) s s' \<and> map peer_id (sv_peers s') = map peer_id (sv_peers s)"
proof (cases "sv_peers s")
  case Nil
  with assms(2) show ?thesis by (auto simp: send_first_def gains_def first_is_def)
next
  case (Cons p ps)
  with assms(2) show ?thesis by (auto simp: send_first_def gains_def first_is_def mg_send_text [OF assms(1)])
qed

lemma gains_all_first:
  assumes "malloc_ok malloc" "send_all_first malloc ds s = Some s'"
  shows "gains i (if first_is i s then concat ds else []) s s'"
  using assms(2)
proof (induction ds arbitrary: s)
  case Nil
  then show ?case by (simp add: gains_refl)
next
  case (Cons d ds)
  then obtain s1 where s1: "send_first malloc d s = Some s1" "send_all_first malloc ds s1 = Some s'" by (auto simp: bind_eq_Some_conv)
  note f = gains_first [OF assms(1) s1(1), of i]
  have "first_is i s1 = first_is i s" using f by (simp add: first_is_def)
  with gains_trans [OF conjunct1 [OF f] Cons.IH [OF s1(2)]] show ?case by (simp split: if_split_asm)
qed

text \<open>The pieces of a stream: pictures, and pages made for the first connection of the list.\<close>

datatype stream_item = Picture "u8 list" | Page string

definition item_text :: "stream_item \<Rightarrow> string" where
  "item_text it =
     (case it of Picture jpg \<Rightarrow> part_header (length jpg) @ octets jpg @ CRLF | Page r \<Rightarrow> concat (mg_http_reply 200 [] (r @ [LF])))"

fun is_picture :: "stream_item \<Rightarrow> bool" where
  "is_picture (Picture jpg) = True"
| "is_picture (Page r) = False"

lemma sent_to_append [simp]: "sent_to i (xs @ ys) = sent_to i xs @ sent_to i ys" "sent_to i [] = []"
  by (simp_all add: sent_to_def)

definition labels :: "peer list \<Rightarrow> connection list" where
  "labels ps = map (\<lambda>p. (peer_id p, if peer_stream p then CHR ''S'' else CHR 0x00)) ps"

lemma chars_CRLF: "octets [0x0D, 0x0A] = CRLF"
proof -
  have "bytes_of CRLF = [0x0D, 0x0A]" by (simp add: bytes_of_def)
  then show ?thesis by (metis chars_bytes)
qed

lemma sent_part:
  "sent_to i (stream_parts jpg (j, if b then CHR ''S'' else CHR 0x00)) = (if j = i \<and> b then item_text (Picture jpg) else [])"
  by (cases "j = i"; cases b) (simp_all add: stream_parts_def sent_to_def item_text_def chars_CRLF)

lemma sent_none: "i \<notin> set (map peer_id ps) \<Longrightarrow> sent_to i (concat (map (stream_parts jpg) (labels ps))) = []"
  by (induction ps) (simp_all add: labels_def sent_part)

lemma sent_parts:
  assumes "peer_of i ps = Some p" "peer_stream p" "distinct (map peer_id ps)"
  shows "sent_to i (concat (map (stream_parts jpg) (labels ps))) = item_text (Picture jpg)"
  using assms
proof (induction ps)
  case (Cons q ps)
  have l: "labels (q # ps) = (peer_id q, if peer_stream q then CHR ''S'' else CHR 0x00) # labels ps" by (simp add: labels_def)
  show ?case
  proof (cases "peer_id q = i")
    case True
    with Cons.prems have "peer_stream q" "i \<notin> set (map peer_id ps)" by auto
    with True show ?thesis using sent_none [of i ps jpg] unfolding l by (simp only: list.map concat.simps sent_to_append sent_part) simp
  next
    case False
    with Cons.prems have "sent_to i (concat (map (stream_parts jpg) (labels ps))) = item_text (Picture jpg)"
      by (intro Cons.IH) auto
    with False show ?thesis unfolding l by (simp only: list.map concat.simps sent_to_append sent_part) simp
  qed
qed simp

lemma broadcast_result:
  assumes "broadcast_mjpeg_camera_frame d cv opened mapped dir_ok conns dev drv = Some (dev', drv', sent, eff)"
  shows "\<exists>jpg. sent = concat (map (stream_parts jpg) conns) \<and> (eff = [] \<or> (\<exists>x r. eff = [Saved x, Reply r]))"
  using assms
  by (auto simp: broadcast_mjpeg_camera_frame_def bind_eq_Some_conv send_frame_parts check_and_capture_photo_def capture_photo_def
      Let_def split: if_splits)

definition saved :: "web_effect list \<Rightarrow> nat" where
  "saved eff = length (filter (\<lambda>e. case e of Saved x \<Rightarrow> True | _ \<Rightarrow> False) eff)"

lemma saved_append [simp]: "saved (xs @ ys) = saved xs + saved ys" "saved [] = 0"
  by (simp_all add: saved_def)

text \<open>What a streaming connection is sent by one run of the callback: the picture, and perhaps a page.\<close>

definition pages_only :: "stream_item list \<Rightarrow> bool" where
  "pages_only ps \<longleftrightarrow> list_all (\<lambda>it. \<not> is_picture it) ps"

definition receives :: "nat \<Rightarrow> stream_item list \<Rightarrow> web_server \<Rightarrow> web_server \<Rightarrow> bool" where
  "receives i items s s' \<longleftrightarrow> map peer_id (sv_peers s') = map peer_id (sv_peers s) \<and> sv_nextid s' = sv_nextid s \<and>
     sv_ticks s' = sv_ticks s + length (filter is_picture items) \<and>
     saved (sv_log s) + length (filter (Not o is_picture) items) \<le> saved (sv_log s') \<and>
     (\<forall>p. peer_of i (sv_peers s) = Some p \<longrightarrow> io_ok (send (peer_conn p)) \<longrightarrow>
        (\<exists>p'. peer_of i (sv_peers s') = Some p' \<and> peer_stream p' = peer_stream p \<and> serving (peer_conn p') = serving (peer_conn p) \<and>
           is_closing (peer_conn p') = is_closing (peer_conn p) \<and> io_ok (send (peer_conn p')) \<and>
           io_text (send (peer_conn p')) = io_text (send (peer_conn p)) @ concat (map item_text items)))"

lemma receives_refl: "receives i [] s s"
  by (simp add: receives_def)

lemma timer_callback_stream:
  assumes "malloc_ok malloc" "timer_callback d cv env malloc s = Some s'" "distinct (map peer_id (sv_peers s))"
    "peer_of i (sv_peers s) = Some p" "peer_stream p"
  shows "\<exists>items. receives i items s s'"
proof -
  obtain opened mapped dir_ok where env: "env (sv_ticks s) = (opened, mapped, dir_ok)" by (cases "env (sv_ticks s)")
  from assms(2) obtain dev drv sent eff s1 where
    b: "broadcast_mjpeg_camera_frame d cv opened mapped dir_ok (labels (sv_peers s)) (sv_dev s) (sv_driver s) = Some (dev, drv, sent, eff)" and
    f: "send_all_first malloc (replies eff) (fold (send_to malloc) sent s) = Some s1" and
    s': "s' = s1\<lparr>sv_dev := dev, sv_driver := drv, sv_ticks := sv_ticks s1 + 1, sv_log := sv_log s1 @ filter not_reply eff\<rparr>"
    by (auto simp: timer_callback_def env labels_def bind_eq_Some_conv Let_def)
  from broadcast_result [OF b] obtain jpg where jpg: "sent = concat (map (stream_parts jpg) (labels (sv_peers s)))"
    and eff: "eff = [] \<or> (\<exists>x r. eff = [Saved x, Reply r])" by blast
  have sent: "sent_to i sent = item_text (Picture jpg)" unfolding jpg by (rule sent_parts [OF assms(4,5,3)])
  let ?s0 = "fold (send_to malloc) sent s"
  note g0 = gains_sent [OF assms(1), of i sent s, unfolded sent]
  have "first_is i ?s0 = first_is i s" using g0 by (simp add: gains_def first_is_def)
  with gains_all_first [OF assms(1) f, of i] have g1: "gains i (if first_is i s then concat (replies eff) else []) ?s0 s1"
    by (simp add: first_is_def)
  obtain pages where pages: "(if first_is i s then concat (replies eff) else []) = concat (map item_text pages)"
    "list_all (\<lambda>it. \<not> is_picture it) pages" "length pages \<le> saved (filter not_reply eff)"
  proof (cases "eff = [] \<or> \<not> first_is i s")
    case True
    then show ?thesis by (intro that [of "[]"]) (auto simp: replies_def)
  next
    case False
    with eff obtain x r where "eff = [Saved x, Reply r]" "first_is i s" by auto
    then show ?thesis by (intro that [of "[Page r]"]) (simp_all add: replies_def item_text_def saved_def not_reply_def)
  qed
  from gains_trans [OF g0 g1 [unfolded pages(1)]] have g: "gains i (concat (map item_text (Picture jpg # pages))) s s1" by simp
  have n: "filter is_picture (Picture jpg # pages) = [Picture jpg]" "filter (Not o is_picture) (Picture jpg # pages) = pages"
    using pages(2) by (simp_all add: list_all_iff filter_empty_conv filter_id_conv)
  have "receives i (Picture jpg # pages) s s'"
    using g pages(3) unfolding receives_def gains_def n by (simp add: s')
  then show ?thesis ..
qed

lemma timer_poll_one:
  assumes "mg_timer_poll W now oldnow [t] s = Some (oldnow', g_timers, s')" "timer_flags t AND MG_TIMER_REPEAT \<noteq> 0"
  shows "(\<exists>e. g_timers = [t\<lparr>expire := e\<rparr>]) \<and> (s' = s \<or> timer_fn t s = Some s')"
proof -
  have self: "\<exists>e. u = u\<lparr>expire := e\<rparr>" "\<exists>e. u\<lparr>expire := x\<rparr> = u\<lparr>expire := e\<rparr>" for u :: "'a timer" and x
    by (rule exI [of _ "expire u"], simp) blast
  from assms self show ?thesis
    by (auto simp: mg_timer_poll_def Let_def bind_eq_Some_conv split: if_splits)
qed

section \<open>Connections in a round\<close>

text \<open>The bytes on the wire of connection \<open>i\<close>.\<close>

definition wire :: "nat \<Rightarrow> (nat \<times> string) list \<Rightarrow> string" where
  "wire i outs = concat (map (\<lambda>m. if fst m = i then snd m else []) outs)"

lemma wire_simps [simp]:
  "wire i [] = []" "wire i (xs @ ys) = wire i xs @ wire i ys" "wire i (m # ms) = (if fst m = i then snd m else []) @ wire i ms"
  by (simp_all add: wire_def)

lemma poll_peer_stream:
  assumes "malloc_ok malloc" "poll_peer W malloc beyond fs stale files ev p dev = Some (out, Some p', dev', eff)"
    "fst (ready ev (peer_id p)) = None" "takes_bytes (snd (ready ev (peer_id p)))"
    "serving (peer_conn p) = None" "io_ok (send (peer_conn p))"
  shows "peer_id p' = peer_id p \<and> peer_stream p' = peer_stream p \<and> serving (peer_conn p') = None \<and> io_ok (send (peer_conn p')) \<and>
    out @ pending (peer_conn p') = pending (peer_conn p)"
proof -
  let ?c = "peer_conn p"
  have idle: "call_poll malloc ?c = ?c" using assms(5) by (simp add: call_poll_def static_cb_def)
  have idle': "static_cb malloc c = c" if "serving c = None" for c using that by (simp add: static_cb_def)
  show ?thesis
  proof (cases "snd (ready ev (peer_id p))")
    case None
    with assms(2,3,5,6) idle show ?thesis
      by (auto simp: poll_peer_def poll_conn_def bind_eq_Some_conv Let_def split: if_splits)
  next
    case (Some f)
    let ?w = "write_conn malloc (f (io_text (send ?c))) ?c"
    have "\<forall>n. f (io_text (send ?c)) = Wrote n \<longrightarrow> n \<le> io_len (send ?c)"
      using assms(4) io_text_length [OF assms(6)] by (auto simp: Some takes_bytes_def) (metis le_refl)
    note wr = write_conn_pending [OF malloc_ok_blocks [OF assms(1)] assms(6) this]
    have srv: "serving (snd ?w) = None" using assms(5) idle' by (auto simp: write_conn_def Let_def split: write_result.splits)
    from assms(2,3) idle Some have "out = fst ?w" "peer_conn p' = snd ?w" "peer_id p' = peer_id p" "peer_stream p' = peer_stream p"
      by (auto simp: poll_peer_def poll_conn_def bind_eq_Some_conv Let_def split_def split: if_splits)
    with wr srv show ?thesis by simp
  qed
qed

lemma poll_peers_ids:
  "poll_peers W malloc beyond fs stale files ev ps dev = Some (outs, ps', dev', eff) \<Longrightarrow>
    set (map peer_id ps') \<subseteq> set (map peer_id ps) \<and> (distinct (map peer_id ps) \<longrightarrow> distinct (map peer_id ps')) \<and>
    map fst outs = map peer_id ps"
proof (induction ps arbitrary: dev outs ps' dev' eff)
  case (Cons p ps)
  then obtain out p' dev1 eff1 outs2 ps2 eff2 where
    p: "poll_peer W malloc beyond fs stale files ev p dev = Some (out, p', dev1, eff1)" and
    ps: "poll_peers W malloc beyond fs stale files ev ps dev1 = Some (outs2, ps2, dev', eff2)" and
    r: "outs = (peer_id p, out) # outs2" "ps' = (case p' of None \<Rightarrow> ps2 | Some q \<Rightarrow> q # ps2)"
    by (auto simp: bind_eq_Some_conv)
  have id: "peer_id q = peer_id p" if "p' = Some q" for q
    using p that by (auto simp: poll_peer_def bind_eq_Some_conv)
  show ?case
  proof (cases p')
    case None
    with Cons.IH [OF ps] show ?thesis by (auto simp: r)
  next
    case (Some q)
    with id have "peer_id q = peer_id p" by blast
    with Cons.IH [OF ps] Some show ?thesis by (auto simp: r)
  qed
qed simp

lemma wire_none: "i \<notin> set (map fst outs) \<Longrightarrow> wire i outs = []"
  by (induction outs) auto

lemma poll_peers_stream:
  assumes "malloc_ok malloc" "poll_peers W malloc beyond fs stale files ev ps dev = Some (outs, ps', dev', eff)" "distinct (map peer_id ps)"
    "peer_of i ps = Some p" "peer_of i ps' = Some p'" "fst (ready ev i) = None" "takes_bytes (snd (ready ev i))"
    "serving (peer_conn p) = None" "io_ok (send (peer_conn p))"
  shows "peer_stream p' = peer_stream p \<and> serving (peer_conn p') = None \<and> io_ok (send (peer_conn p')) \<and>
    wire i outs @ pending (peer_conn p') = pending (peer_conn p)"
  using assms(2-5)
proof (induction ps arbitrary: dev outs ps' dev' eff)
  case (Cons q ps)
  then obtain out q' dev1 eff1 outs2 ps2 eff2 where
    q: "poll_peer W malloc beyond fs stale files ev q dev = Some (out, q', dev1, eff1)" and
    ps: "poll_peers W malloc beyond fs stale files ev ps dev1 = Some (outs2, ps2, dev', eff2)" and
    r: "outs = (peer_id q, out) # outs2" "ps' = (case q' of None \<Rightarrow> ps2 | Some q \<Rightarrow> q # ps2)"
    by (auto simp: bind_eq_Some_conv)
  have id: "peer_id x = peer_id q" if "q' = Some x" for x
    using q that by (auto simp: poll_peer_def bind_eq_Some_conv)
  note ids = poll_peers_ids [OF ps]
  show ?case
  proof (cases "peer_id q = i")
    case True
    then have p: "p = q" and i: "i \<notin> set (map peer_id ps)" using Cons.prems(2,3) by auto
    with ids have none: "peer_of i ps2 = None" "wire i outs2 = []" by (auto simp: peer_of_None intro!: wire_none)
    have q2: "q' = Some p'"
    proof (cases q')
      case None
      with Cons.prems(4) none show ?thesis by (simp add: r)
    next
      case (Some x)
      then have "peer_id x = i" using id True by blast
      with Some Cons.prems(4) show ?thesis by (simp add: r)
    qed
    from poll_peer_stream [OF assms(1) q [unfolded q2]] assms(6-9) True p none(2) show ?thesis by (simp add: r)
  next
    case False
    have p2: "peer_of i ps2 = Some p'"
    proof (cases q')
      case None
      with Cons.prems(4) show ?thesis by (simp add: r)
    next
      case (Some x)
      then have "peer_id x \<noteq> i" "ps' = x # ps2" using id [of x] False r(2) by simp_all
      with Cons.prems(4) show ?thesis by (simp only: peer_of_simps if_False)
    qed
    have p1: "peer_of i ps = Some p" "distinct (map peer_id ps)" using Cons.prems(2,3) False by simp_all
    from Cons.IH [OF ps p1(2,1) p2] False show ?thesis unfolding r(1) by (simp only: wire_simps fst_conv if_False append_Nil)
  qed
qed simp

section \<open>Streams\<close>

definition ids_ok :: "web_server \<Rightarrow> bool" where
  "ids_ok s \<longleftrightarrow> distinct (map peer_id (sv_peers s)) \<and> (\<forall>j \<in> set (map peer_id (sv_peers s)). j \<le> sv_nextid s)"

lemma accept_conn_peers:
  "i \<le> sv_nextid s \<Longrightarrow> peer_of i (sv_peers (accept_conn ok s)) = peer_of i (sv_peers s)"
  "sv_ticks (accept_conn ok s) = sv_ticks s" "sv_log (accept_conn ok s) = sv_log s" "sv_nextid s \<le> sv_nextid (accept_conn ok s)"
  "ids_ok s \<Longrightarrow> ids_ok (accept_conn ok s)"
  by (fastforce simp: accept_conn_def ids_ok_def)+

lemma gains_first_ids: "send_first malloc d s = Some s' \<Longrightarrow> map peer_id (sv_peers s') = map peer_id (sv_peers s) \<and> sv_nextid s' = sv_nextid s"
  by (auto simp: send_first_def split: list.splits)

lemma callback_ids:
  assumes "timer_callback d cv env malloc s = Some s'"
  shows "map peer_id (sv_peers s') = map peer_id (sv_peers s) \<and> sv_nextid s' = sv_nextid s"
proof -
  have 1: "map peer_id (sv_peers (fold (send_to malloc) sent s)) = map peer_id (sv_peers s) \<and>
      sv_nextid (fold (send_to malloc) sent s) = sv_nextid s" for sent s
    by (induction sent arbitrary: s) (auto simp: send_to_def comp_def cong: map_cong)
  have 2: "send_all_first malloc ds s = Some s' \<Longrightarrow>
      map peer_id (sv_peers s') = map peer_id (sv_peers s) \<and> sv_nextid s' = sv_nextid s" for ds s s'
    by (induction ds arbitrary: s) (auto simp: bind_eq_Some_conv dest: gains_first_ids)
  from assms show ?thesis
    by (auto simp: timer_callback_def bind_eq_Some_conv Let_def 1 dest!: 2 split: prod.splits)
qed

text \<open>A round of the server, taken apart.\<close>

lemma mg_mgr_poll_cases:
  assumes "mg_mgr_poll W malloc beyond fs stale files ev (oldnow, [t], s) = Some (outs, oldnow', g_timers, s')"
    "timer_flags t AND MG_TIMER_REPEAT \<noteq> 0" "timer_fn t = timer_callback d cv env malloc"
  obtains e s1 ps dev eff where "g_timers = [t\<lparr>expire := e\<rparr>]" "s1 = s \<or> timer_callback d cv env malloc s = Some s1"
    "poll_peers W malloc beyond fs stale files ev (sv_peers s1) (sv_dev s1) = Some (outs, ps, dev, eff)"
    "s' = accept_conn (accepted ev) (s1\<lparr>sv_peers := ps, sv_dev := dev, sv_log := sv_log s1 @ eff\<rparr>)"
proof -
  from assms(1) obtain o1 ts s1 ps dev eff where
    r: "mg_timer_poll W (clock ev) oldnow [t] s = Some (o1, ts, s1)" "poll_peers W malloc beyond fs stale files ev (sv_peers s1) (sv_dev s1) = Some (outs, ps, dev, eff)"
    "g_timers = ts" "s' = accept_conn (accepted ev) (s1\<lparr>sv_peers := ps, sv_dev := dev, sv_log := sv_log s1 @ eff\<rparr>)"
    by (auto simp: mg_mgr_poll_def bind_eq_Some_conv)
  from timer_poll_one [OF r(1) assms(2)] obtain e where "ts = [t\<lparr>expire := e\<rparr>]" "s1 = s \<or> timer_callback d cv env malloc s = Some s1"
    unfolding assms(3) by blast
  with r that show thesis by blast
qed

lemma round_ids:
  assumes "mg_mgr_poll W malloc beyond fs stale files ev (oldnow, [t], s) = Some (outs, oldnow', g_timers, s')"
    "timer_flags t AND MG_TIMER_REPEAT \<noteq> 0" "timer_fn t = timer_callback d cv env malloc" "ids_ok s"
  shows "ids_ok s' \<and> sv_nextid s \<le> sv_nextid s' \<and> (\<exists>e. g_timers = [t\<lparr>expire := e\<rparr>]) \<and>
    (\<forall>i \<le> sv_nextid s. peer_of i (sv_peers s) = None \<longrightarrow> peer_of i (sv_peers s') = None)"
proof -
  from mg_mgr_poll_cases [OF assms(1-3)] obtain e s1 ps dev eff where r: "g_timers = [t\<lparr>expire := e\<rparr>]"
    "s1 = s \<or> timer_callback d cv env malloc s = Some s1"
    "poll_peers W malloc beyond fs stale files ev (sv_peers s1) (sv_dev s1) = Some (outs, ps, dev, eff)"
    "s' = accept_conn (accepted ev) (s1\<lparr>sv_peers := ps, sv_dev := dev, sv_log := sv_log s1 @ eff\<rparr>)" .
  let ?s2 = "s1\<lparr>sv_peers := ps, sv_dev := dev, sv_log := sv_log s1 @ eff\<rparr>"
  have s1: "map peer_id (sv_peers s1) = map peer_id (sv_peers s)" "sv_nextid s1 = sv_nextid s"
    using r(2) callback_ids by blast+
  note ids = poll_peers_ids [OF r(3), unfolded s1]
  have ok2: "ids_ok ?s2" using ids assms(4) by (auto simp: ids_ok_def s1)
  have "peer_of i (sv_peers s') = None" if "i \<le> sv_nextid s" "peer_of i (sv_peers s) = None" for i
  proof -
    have "i \<notin> set (map peer_id ps)" using ids that(2) unfolding peer_of_None by blast
    then have "peer_of i (sv_peers ?s2) = None" by (simp add: peer_of_None)
    with that(1) s1 show ?thesis unfolding r(4) by (subst accept_conn_peers(1)) simp_all
  qed
  moreover have "sv_nextid s \<le> sv_nextid s'" unfolding r(4) using accept_conn_peers(4) [of ?s2 "accepted ev"] s1 by simp
  ultimately show ?thesis unfolding r(1,4) using accept_conn_peers(5) [OF ok2] by blast
qed

lemma round_stream:
  assumes "malloc_ok malloc"
    "mg_mgr_poll W malloc beyond fs stale files ev (oldnow, [t], s) = Some (outs, oldnow', g_timers, s')"
    "timer_flags t AND MG_TIMER_REPEAT \<noteq> 0" "timer_fn t = timer_callback d cv env malloc" "ids_ok s"
    "peer_of i (sv_peers s) = Some p" "peer_stream p" "serving (peer_conn p) = None" "io_ok (send (peer_conn p))"
    "fst (ready ev i) = None" "takes_bytes (snd (ready ev i))" "peer_of i (sv_peers s') = Some p'"
  shows "\<exists>items. wire i outs @ pending (peer_conn p') = pending (peer_conn p) @ concat (map item_text items) \<and>
    sv_ticks s' = sv_ticks s + length (filter is_picture items) \<and>
    saved (sv_log s) + length (filter (Not o is_picture) items) \<le> saved (sv_log s') \<and>
    peer_stream p' \<and> serving (peer_conn p') = None \<and> io_ok (send (peer_conn p'))"
proof -
  from mg_mgr_poll_cases [OF assms(2-4)] obtain e s1 ps dev eff where r:
    "s1 = s \<or> timer_callback d cv env malloc s = Some s1"
    "poll_peers W malloc beyond fs stale files ev (sv_peers s1) (sv_dev s1) = Some (outs, ps, dev, eff)"
    "s' = accept_conn (accepted ev) (s1\<lparr>sv_peers := ps, sv_dev := dev, sv_log := sv_log s1 @ eff\<rparr>)" .
  have dist: "distinct (map peer_id (sv_peers s))" using assms(5) by (simp add: ids_ok_def)
  have i: "i \<le> sv_nextid s"
    using assms(5,6) peer_of_None [of i "sv_peers s"] by (auto simp: ids_ok_def)
  obtain items where it: "receives i items s s1"
    using r(1) receives_refl timer_callback_stream [OF assms(1) _ dist assms(6,7)] by blast
  with assms(6,9) obtain p1 where p1: "peer_of i (sv_peers s1) = Some p1" "peer_stream p1 = peer_stream p"
    "serving (peer_conn p1) = serving (peer_conn p)" "io_ok (send (peer_conn p1))"
    "io_text (send (peer_conn p1)) = io_text (send (peer_conn p)) @ concat (map item_text items)"
    "map peer_id (sv_peers s1) = map peer_id (sv_peers s)" "sv_nextid s1 = sv_nextid s"
    unfolding receives_def by blast
  have "peer_of i ps = Some p'" using assms(12) i p1(7) unfolding r(3) by (subst (asm) accept_conn_peers(1)) simp_all
  from poll_peers_stream [OF assms(1) r(2) _ p1(1) this assms(10,11)] p1 dist assms(8)
  have pp: "peer_stream p' = peer_stream p1" "serving (peer_conn p') = None" "io_ok (send (peer_conn p'))"
    "wire i outs @ pending (peer_conn p') = pending (peer_conn p1)" by simp_all
  have "pending (peer_conn p1) = pending (peer_conn p) @ concat (map item_text items)"
    using p1(3,5) assms(8) by (simp add: pending_def)
  with pp p1(2) assms(7) it show ?thesis
    by (intro exI [of _ items]) (auto simp: r(3) accept_conn_peers receives_def)
qed

lemma rounds_closed:
  assumes "web_rounds W malloc beyond fs stale files evs (oldnow, [t], s) = Some (outs, oldnow', g_timers, s')"
    "timer_flags t AND MG_TIMER_REPEAT \<noteq> 0" "timer_fn t = timer_callback d cv env malloc" "ids_ok s" "i \<le> sv_nextid s"
    "peer_of i (sv_peers s) = None"
  shows "peer_of i (sv_peers s') = None"
  using assms
proof (induction evs arbitrary: oldnow t s outs)
  case (Cons ev evs)
  then obtain outs1 o1 ts1 s1 outs2 where r: "mg_mgr_poll W malloc beyond fs stale files ev (oldnow, [t], s) = Some (outs1, o1, ts1, s1)"
    "web_rounds W malloc beyond fs stale files evs (o1, ts1, s1) = Some (outs2, oldnow', g_timers, s')"
    by (auto simp: bind_eq_Some_conv)
  from round_ids [OF r(1) Cons.prems(2-4)] Cons.prems(5,6) obtain e where
    "ts1 = [t\<lparr>expire := e\<rparr>]" "ids_ok s1" "i \<le> sv_nextid s1" "peer_of i (sv_peers s1) = None" by auto
  with Cons.IH [of o1 "t\<lparr>expire := e\<rparr>" s1 outs2] r(2) Cons.prems(2,3) show ?case by simp
qed simp

lemma rounds_stream:
  assumes "malloc_ok malloc" "timer_flags t AND MG_TIMER_REPEAT \<noteq> 0" "timer_fn t = timer_callback d cv env malloc" "ids_ok s"
    "peer_of i (sv_peers s) = Some p" "peer_stream p" "serving (peer_conn p) = None" "io_ok (send (peer_conn p))"
    "\<forall>ev \<in> set evs. fst (ready ev i) = None \<and> takes_bytes (snd (ready ev i))"
    "web_rounds W malloc beyond fs stale files evs (oldnow, [t], s) = Some (outs, oldnow', g_timers, s')"
    "peer_of i (sv_peers s') = Some p'"
  shows "\<exists>items. wire i outs @ pending (peer_conn p') = pending (peer_conn p) @ concat (map item_text items) \<and>
    sv_ticks s' = sv_ticks s + length (filter is_picture items) \<and>
    saved (sv_log s) + length (filter (Not o is_picture) items) \<le> saved (sv_log s')"
  using assms(2-11)
proof (induction evs arbitrary: oldnow t s p outs)
  case Nil
  then show ?case by (intro exI [of _ "[]"]) simp
next
  case (Cons ev evs)
  then obtain outs1 o1 ts1 s1 outs2 where r: "mg_mgr_poll W malloc beyond fs stale files ev (oldnow, [t], s) = Some (outs1, o1, ts1, s1)"
    "web_rounds W malloc beyond fs stale files evs (o1, ts1, s1) = Some (outs2, oldnow', g_timers, s')" "outs = outs1 @ outs2"
    by (auto simp: bind_eq_Some_conv)
  have i: "i \<le> sv_nextid s"
    using Cons.prems(3,4) peer_of_None [of i "sv_peers s"] by (auto simp: ids_ok_def)
  from round_ids [OF r(1) Cons.prems(1-3)] i obtain e where
    t1: "ts1 = [t\<lparr>expire := e\<rparr>]" "ids_ok s1" "i \<le> sv_nextid s1" by auto
  have f: "timer_flags (t\<lparr>expire := e\<rparr>) AND MG_TIMER_REPEAT \<noteq> 0" "timer_fn (t\<lparr>expire := e\<rparr>) = timer_callback d cv env malloc"
    using Cons.prems(1,2) by simp_all
  from rounds_closed [OF r(2) [unfolded t1(1)] f t1(2,3)] Cons.prems(10) obtain p1 where p1: "peer_of i (sv_peers s1) = Some p1"
    by (cases "peer_of i (sv_peers s1)") auto
  from round_stream [OF assms(1) r(1) Cons.prems(1-7) _ _ p1] Cons.prems(8) obtain items where
    it: "wire i outs1 @ pending (peer_conn p1) = pending (peer_conn p) @ concat (map item_text items)"
    "sv_ticks s1 = sv_ticks s + length (filter is_picture items)"
    "saved (sv_log s) + length (filter (Not o is_picture) items) \<le> saved (sv_log s1)"
    "peer_stream p1" "serving (peer_conn p1) = None" "io_ok (send (peer_conn p1))" by auto
  have evs: "\<forall>ev \<in> set evs. fst (ready ev i) = None \<and> takes_bytes (snd (ready ev i))" using Cons.prems(8) by simp
  from Cons.IH [OF f t1(2) p1 it(4-6) evs r(2) [unfolded t1(1)] Cons.prems(10)] obtain items2 where
    it2: "wire i outs2 @ pending (peer_conn p') = pending (peer_conn p1) @ concat (map item_text items2)"
    "sv_ticks s' = sv_ticks s1 + length (filter is_picture items2)"
    "saved (sv_log s1) + length (filter (Not o is_picture) items2) \<le> saved (sv_log s')" by blast
  have "wire i outs @ pending (peer_conn p') = pending (peer_conn p) @ concat (map item_text (items @ items2))"
    using it(1) it2(1) by (simp add: r(3))
  moreover have "sv_ticks s' = sv_ticks s + length (filter is_picture (items @ items2))" using it(2) it2(2) by simp
  moreover have "saved (sv_log s) + length (filter (Not o is_picture) (items @ items2)) \<le> saved (sv_log s')"
    using it(3) it2(3) by (simp only: filter_append length_append)
  ultimately show ?case by blast
qed

text \<open>
  C12: A video stream is whole and in order.  Over any rounds of the server, whatever the other
  connections ask for and however few bytes the socket takes, what a streaming connection put on the
  wire and has still to send is what it had to send before, followed by whole parts: the header with the
  length of the picture, the picture and a line end, one for each run of the timer, in order, and
  between them only whole pages, at most one for each picture that was saved.
\<close>
theorem stream_in_order:
  assumes "malloc_ok malloc" "timer_flags t AND MG_TIMER_REPEAT \<noteq> 0" "timer_fn t = timer_callback d cv env malloc" "ids_ok s"
    "peer_of i (sv_peers s) = Some p" "peer_stream p" "serving (peer_conn p) = None" "io_ok (send (peer_conn p))"
    "\<forall>ev \<in> set evs. fst (ready ev i) = None \<and> takes_bytes (snd (ready ev i))"
    "web_rounds W malloc beyond fs stale files evs (oldnow, [t], s) = Some (outs, oldnow', g_timers, s')"
    "peer_of i (sv_peers s') = Some p'"
  shows "\<exists>items. wire i outs @ pending (peer_conn p') = pending (peer_conn p) @ concat (map item_text items) \<and>
    sv_ticks s' = sv_ticks s + length (filter is_picture items) \<and>
    saved (sv_log s) + length (filter (Not o is_picture) items) \<le> saved (sv_log s')"
  by (rule rounds_stream [OF assms])

definition demo_cv :: "pixels opencv" where
  "demo_cv = \<lparr>mat_of = (\<lambda>p. p), bgr_to_gray = (\<lambda>p. p), blur_by = (\<lambda>a b p. p), canny_by = (\<lambda>a b p. p), encode_jpg = (\<lambda>q p. [7])\<rparr>"

definition demo_env :: "nat \<Rightarrow> bool \<times> bool \<times> bool" where "demo_env k = (True, True, True)"

definition stream_peer :: peer where "stream_peer = \<lparr>peer_id = 2, peer_conn = new_conn, peer_stream = True\<rparr>"

definition demo_server :: web_server where
  "demo_server = \<lparr>sv_dev = \<lparr>hw_cmd = HW_ACCEL_NONE, hw_enable = True, sw_grayscale = 0, capture = 0, img_list = []\<rparr>,
     sv_driver = demo_evsoc, sv_peers = [stream_peer], sv_lsn = Some new_conn, sv_nextid = 2, sv_ticks = 0, sv_log = []\<rparr>"

definition frame_timer :: "web_server timer" where
  "frame_timer = \<lparr>timer_at = 0, period_ms = 10, timer_flags = MG_TIMER_REPEAT,
     timer_fn = timer_callback (\<lambda>h a. 0) demo_cv demo_env demo_malloc, expire = 5\<rparr>"

definition demo_event :: round_io where
  "demo_event = \<lparr>clock = 10, ready = (\<lambda>i. (None, one_byte)), accepted = False\<rparr>"

lemma demo_callback:
  "\<exists>dev drv c. timer_callback (\<lambda>h a. 0) demo_cv demo_env demo_malloc demo_server =
    Some (demo_server\<lparr>sv_dev := dev, sv_driver := drv, sv_peers := [stream_peer\<lparr>peer_conn := c\<rparr>], sv_ticks := 1\<rparr>) \<and>
    serving c = None \<and> \<not> is_closing c"
proof -
  have "cam_dma_cpu_arry demo_evsoc CAPTURE_IDX = Some (words CAPTURE_IDX demo_evsoc)"
    by (rule allocatedD [OF demo_evsoc_ok(1)]) (rule idx_bounds)
  from broadcast_frame_result [OF this, of "sv_dev demo_server" "\<lambda>h a. 0" demo_cv True "[(2, CHR ''S'')]"]
  obtain dev drv jpg where b: "broadcast_mjpeg_camera_frame (\<lambda>h a. 0) demo_cv True True True [(2, CHR ''S'')] (sv_dev demo_server) demo_evsoc =
      Some (dev, drv, [(2, bytes_of (part_header (length jpg))), (2, jpg), (2, [0x0D, 0x0A])], [])"
    by (auto simp: demo_server_def stream_parts_def)
  let ?c = "mg_send demo_malloc (octets [0x0D, 0x0A]) (mg_send demo_malloc (octets jpg) (mg_send demo_malloc (part_header (length jpg)) new_conn))"
  have "timer_callback (\<lambda>h a. 0) demo_cv demo_env demo_malloc demo_server =
      Some (demo_server\<lparr>sv_dev := dev, sv_driver := drv, sv_peers := [stream_peer\<lparr>peer_conn := ?c\<rparr>], sv_ticks := 1\<rparr>)"
    using b by (simp add: timer_callback_def demo_env_def demo_server_def stream_peer_def replies_def send_to_def)
  moreover have "serving ?c = None" "\<not> is_closing ?c" by (simp_all add: new_conn_def)
  ultimately show ?thesis by blast
qed

theorem stream_in_order_witness:
  "\<exists>outs oldnow g_timers s p items.
    web_rounds 32 demo_malloc (\<lambda>i. CHR 0x00) demo_fs [] [] [demo_event] (0, [frame_timer], demo_server) = Some (outs, oldnow, g_timers, s) \<and>
    peer_of 2 (sv_peers s) = Some p \<and> wire 2 outs @ pending (peer_conn p) = concat (map item_text items) \<and>
    length (filter is_picture items) = 1"
proof -
  from demo_callback obtain dev drv c where cb:
    "timer_callback (\<lambda>h a. 0) demo_cv demo_env demo_malloc demo_server =
      Some (demo_server\<lparr>sv_dev := dev, sv_driver := drv, sv_peers := [stream_peer\<lparr>peer_conn := c\<rparr>], sv_ticks := 1\<rparr>)"
    "serving c = None" "\<not> is_closing c" by blast
  obtain out c' where wr: "write_conn demo_malloc (if io_text (send c) = [] then Not_written False else Wrote 1) c = (out, c')" by fastforce
  then have c': "serving c' = None" "\<not> is_closing c'"
    using cb(2,3) by (auto simp: write_conn_def static_cb_def Let_def split: if_splits)
  let ?s = "demo_server\<lparr>sv_dev := dev, sv_driver := drv, sv_peers := [stream_peer\<lparr>peer_conn := c'\<rparr>], sv_ticks := 1\<rparr>"
  have "mg_timer_poll 32 10 0 [frame_timer] demo_server =
      Some (10, [frame_timer\<lparr>expire := 15\<rparr>], demo_server\<lparr>sv_dev := dev, sv_driver := drv, sv_peers := [stream_peer\<lparr>peer_conn := c\<rparr>], sv_ticks := 1\<rparr>)"
    using cb(1) by (simp add: mg_timer_poll_def frame_timer_def MG_TIMER_REPEAT_def next_expire_def)
  moreover have "poll_peers 32 demo_malloc (\<lambda>i. CHR 0x00) demo_fs [] [] demo_event [stream_peer\<lparr>peer_conn := c\<rparr>] dev =
      Some ([(2, out)], [stream_peer\<lparr>peer_conn := c'\<rparr>], dev, [])"
    using cb(2,3) c' wr by (simp add: poll_peer_def poll_conn_def call_poll_def static_cb_def demo_event_def stream_peer_def one_byte_def)
  ultimately have run: "web_rounds 32 demo_malloc (\<lambda>i. CHR 0x00) demo_fs [] [] [demo_event] (0, [frame_timer], demo_server) =
      Some ([(2, out)], 10, [frame_timer\<lparr>expire := 15\<rparr>], ?s)"
    by (simp add: mg_mgr_poll_def demo_event_def accept_conn_def demo_server_def)
  have hyps: "malloc_ok demo_malloc" "timer_flags frame_timer AND MG_TIMER_REPEAT \<noteq> 0"
    "timer_fn frame_timer = timer_callback (\<lambda>h a. 0) demo_cv demo_env demo_malloc" "ids_ok demo_server"
    "peer_of 2 (sv_peers demo_server) = Some stream_peer" "peer_stream stream_peer" "serving (peer_conn stream_peer) = None"
    "io_ok (send (peer_conn stream_peer))"
    by (simp_all add: malloc_ok_def demo_malloc_def frame_timer_def MG_TIMER_REPEAT_def ids_ok_def demo_server_def stream_peer_def new_conn_def io_ok_def)
  have "takes_bytes one_byte" by (auto simp: takes_bytes_def one_byte_def Suc_le_eq split: if_splits)
  then have evs: "\<forall>ev \<in> set [demo_event]. fst (ready ev 2) = None \<and> takes_bytes (snd (ready ev 2))" by (simp add: demo_event_def)
  have "peer_of 2 (sv_peers ?s) = Some (stream_peer\<lparr>peer_conn := c'\<rparr>)" by (simp add: stream_peer_def)
  note peer = this
  from stream_in_order [OF hyps evs run peer] obtain items where
    it: "wire 2 [(2, out)] @ pending (peer_conn (stream_peer\<lparr>peer_conn := c'\<rparr>)) = pending (peer_conn stream_peer) @ concat (map item_text items)"
    "sv_ticks ?s = sv_ticks demo_server + length (filter is_picture items)" by blast
  have "pending (peer_conn stream_peer) = []" "sv_ticks ?s = 1" "sv_ticks demo_server = 0"
    by (simp_all add: stream_peer_def new_conn_def pending_def io_text_def demo_server_def)
  with it have "wire 2 [(2, out)] @ pending (peer_conn (stream_peer\<lparr>peer_conn := c'\<rparr>)) = concat (map item_text items)"
    "length (filter is_picture items) = 1" by simp_all
  with run peer show ?thesis by blast
qed

text \<open>Before the program ends every connection is closed.\<close>

lemma callback_closing:
  assumes "timer_callback d cv env malloc s = Some s'" "list_all (\<lambda>p. is_closing (peer_conn p)) (sv_peers s)"
  shows "list_all (\<lambda>p. is_closing (peer_conn p)) (sv_peers s')"
proof -
  let ?all = "\<lambda>s. list_all (\<lambda>p. is_closing (peer_conn p)) (sv_peers s)"
  have one: "?all s \<Longrightarrow> ?all (send_to malloc m s)" for m s
    by (auto simp: send_to_def list_all_iff)
  have 1: "?all s \<Longrightarrow> ?all (fold (send_to malloc) sent s)" for sent s
    by (induction sent arbitrary: s) (simp_all add: one)
  have "send_first malloc d s = Some s' \<Longrightarrow> ?all s \<Longrightarrow> ?all s'" for d s s'
    by (auto simp: send_first_def split: list.splits)
  then have 2: "send_all_first malloc ds s = Some s' \<Longrightarrow> ?all s \<Longrightarrow> ?all s'" for ds s s'
    by (induction ds arbitrary: s) (auto simp: bind_eq_Some_conv)
  from assms 1 2 show ?thesis
    by (auto simp: timer_callback_def bind_eq_Some_conv Let_def split: prod.splits)
qed

lemma closing_peers_end:
  assumes "poll_peers W malloc beyond fs stale files ev ps dev = Some (outs, ps', dev', eff)"
    "list_all (\<lambda>p. is_closing (peer_conn p)) ps"
  shows "ps' = []"
proof -
  have closing: "is_closing (call_poll malloc c) = is_closing c" for c
    by (auto simp: call_poll_def static_cb_def Let_def split: option.splits)
  from assms show ?thesis
    by (induction ps arbitrary: dev outs ps' dev' eff)
      (auto simp: bind_eq_Some_conv poll_peer_def poll_conn_def closing Let_def)
qed

lemma free_closes_all:
  assumes "mg_mgr_free W malloc beyond fs stale files ev (oldnow, [t], s) = Some (oldnow', g_timers, s')"
    "timer_flags t AND MG_TIMER_REPEAT \<noteq> 0" "timer_fn t = timer_callback d cv env malloc"
  shows "sv_peers s' = [] \<and> sv_lsn s' = None"
proof -
  let ?s = "s\<lparr>sv_peers := map (\<lambda>p. p\<lparr>peer_conn := (peer_conn p)\<lparr>is_closing := True\<rparr>\<rparr>) (sv_peers s)\<rparr>"
  from assms(1) obtain outs s1 where r: "mg_mgr_poll W malloc beyond fs stale files (ev\<lparr>accepted := False\<rparr>) (oldnow, [t], ?s) = Some (outs, oldnow', g_timers, s1)"
    "s' = s1\<lparr>sv_lsn := None\<rparr>" by (auto simp: mg_mgr_free_def)
  from mg_mgr_poll_cases [OF r(1) assms(2,3)] obtain e s2 ps dev eff where q: "s2 = ?s \<or> timer_callback d cv env malloc ?s = Some s2"
    "poll_peers W malloc beyond fs stale files (ev\<lparr>accepted := False\<rparr>) (sv_peers s2) (sv_dev s2) = Some (outs, ps, dev, eff)"
    "s1 = accept_conn (accepted (ev\<lparr>accepted := False\<rparr>)) (s2\<lparr>sv_peers := ps, sv_dev := dev, sv_log := sv_log s2 @ eff\<rparr>)" .
  have all: "list_all (\<lambda>p. is_closing (peer_conn p)) (sv_peers ?s)" by (simp add: list_all_iff)
  with q(1) callback_closing have "list_all (\<lambda>p. is_closing (peer_conn p)) (sv_peers s2)" by blast
  from closing_peers_end [OF q(2) this] show ?thesis by (simp add: r(2) q(3) accept_conn_def)
qed

lemma rounds_timer:
  assumes "web_rounds W malloc beyond fs stale files evs (oldnow, [t], s) = Some (outs, oldnow', g_timers, s')"
    "timer_flags t AND MG_TIMER_REPEAT \<noteq> 0" "timer_fn t = timer_callback d cv env malloc" "ids_ok s"
  shows "\<exists>e. g_timers = [t\<lparr>expire := e\<rparr>]"
  using assms
proof (induction evs arbitrary: oldnow t s outs)
  case Nil
  then show ?case by (intro exI [of _ "expire t"]) simp
next
  case (Cons ev evs)
  then obtain outs1 o1 ts1 s1 outs2 where r: "mg_mgr_poll W malloc beyond fs stale files ev (oldnow, [t], s) = Some (outs1, o1, ts1, s1)"
    "web_rounds W malloc beyond fs stale files evs (o1, ts1, s1) = Some (outs2, oldnow', g_timers, s')"
    by (auto simp: bind_eq_Some_conv)
  from round_ids [OF r(1) Cons.prems(2-4)] obtain e where "ts1 = [t\<lparr>expire := e\<rparr>]" "ids_ok s1" by auto
  with Cons.IH [of o1 "t\<lparr>expire := e\<rparr>" s1 outs2] r(2) Cons.prems(2,3) show ?case by auto
qed

text \<open>When \<open>main\<close> returns, every connection and the listener are closed.\<close>

lemma main_closes_all:
  assumes "web_main W malloc beyond fs stale files d cv env ifreqs answers garbage drv evs end_ev = Some (Inr (outs, s, freed))"
  shows "sv_peers s = [] \<and> sv_lsn s = None"
proof -
  let ?lsn = "snd (mg_open_listener answers ''0.0.0.0:8000'')"
  let ?s = "\<lparr>sv_dev = \<lparr>hw_cmd = HW_ACCEL_NONE, hw_enable = True, sw_grayscale = fst garbage, capture = snd garbage, img_list = []\<rparr>,
    sv_driver = drv, sv_peers = [], sv_lsn = (if ?lsn then Some new_conn else None),
    sv_nextid = (if ?lsn then 1 else 0), sv_ticks = 0, sv_log = []\<rparr>"
  let ?t = "\<lparr>timer_at = 0, period_ms = 10, timer_flags = MG_TIMER_REPEAT, timer_fn = timer_callback d cv env malloc, expire = 0\<rparr>"
  have "mg_timer_init 0 10 MG_TIMER_REPEAT (timer_callback d cv env malloc) [] ?s = Some ([?t], ?s)"
    by (simp add: mg_timer_init_def MG_TIMER_REPEAT_def MG_TIMER_RUN_NOW_def)
  with assms obtain o1 ts s1 o2 ts2 where r: "web_rounds W malloc beyond fs stale files evs (0, [?t], ?s) = Some (outs, o1, ts, s1)"
    "mg_mgr_free W malloc beyond fs stale files end_ev (o1, ts, s1) = Some (o2, ts2, s)"
    by (auto simp: web_main_def Let_def bind_eq_Some_conv split: sum.splits)
  have t: "timer_flags ?t AND MG_TIMER_REPEAT \<noteq> 0" "timer_fn ?t = timer_callback d cv env malloc" "ids_ok ?s"
    by (simp_all add: MG_TIMER_REPEAT_def ids_ok_def)
  from rounds_timer [OF r(1) t] obtain e where "ts = [?t\<lparr>expire := e\<rparr>]" by blast
  with free_closes_all [of W malloc beyond fs stale files end_ev o1 "?t\<lparr>expire := e\<rparr>" s1 o2 ts2 s d cv env] r(2) t show ?thesis by simp
qed

end
