(* ===== verification/EvsocI2cFull.thy ===== *)
theory EvsocI2cFull
  imports EvsocI2c
begin

text \<open>
  The transfers of kernel_modules/evsoc/src/i2c.h that a build with I2C_FULL_FT has: interrupts, and writing and
  reading data at 8 and 16 bit register addresses.
\<close>

unbundle bit_operations_syntax

section \<open>Interrupts\<close>

definition i2c_enableInterrupt :: "iomem device \<Rightarrow> u32 \<Rightarrow> u32 \<Rightarrow> iolog \<Rightarrow> iolog" where
  "i2c_enableInterrupt d reg v h =
     (let (old, h) = read_u32 d (reg + I2C_INTERRUPT_ENABLE) h in write_u32 (v OR old) (reg + I2C_INTERRUPT_ENABLE) h)"

definition i2c_disableInterrupt :: "iomem device \<Rightarrow> u32 \<Rightarrow> u32 \<Rightarrow> iolog \<Rightarrow> iolog" where
  "i2c_disableInterrupt d reg v h =
     (let (old, h) = read_u32 d (reg + I2C_INTERRUPT_ENABLE) h in write_u32 (NOT v AND old) (reg + I2C_INTERRUPT_ENABLE) h)"

definition i2c_clearInterruptFlag :: "u32 \<Rightarrow> u32 \<Rightarrow> iolog \<Rightarrow> iolog" where
  "i2c_clearInterruptFlag reg v h = write_u32 v (reg + I2C_INTERRUPT_FLAG) h"

section \<open>Transfers\<close>

text \<open>
  The data is a list of bytes; a length of 0 reads or writes \<open>data[-1]\<close>, and a length beyond the end of the buffer
  leaves it: both are \<open>None\<close>.
\<close>

definition tx_nacked :: "iomem device \<Rightarrow> u32 \<Rightarrow> u8 \<Rightarrow> iolog \<Rightarrow> iolog option" where
  "tx_nacked d reg b h = i2c_txNackBlocking d reg (i2c_txByte reg b h)"

definition write_addr :: "u8 \<Rightarrow> u8" where "write_addr slaveAddr = ucast (ucast slaveAddr OR I2C_WRITE)"
definition read_addr :: "u8 \<Rightarrow> u8" where "read_addr slaveAddr = ucast (ucast slaveAddr OR I2C_READ)"

definition write_bytes :: "iomem device \<Rightarrow> u32 \<Rightarrow> u8 list \<Rightarrow> nat \<Rightarrow> iolog \<Rightarrow> iolog option" where
  "write_bytes d reg data len h =
     (if len = 0 \<or> length data < len then None
      else do {
        h \<leftarrow> send_all (tx_nacked d reg) (take (len - 1) data) h;
        tx_nacked d reg (data ! (len - 1)) h
      })"

definition i2c_writeData_b :: "iomem device \<Rightarrow> u32 \<Rightarrow> u8 \<Rightarrow> u8 \<Rightarrow> u8 list \<Rightarrow> nat \<Rightarrow> iolog \<Rightarrow> iolog option" where
  "i2c_writeData_b d reg slaveAddr regAddr data len h = do {
     h \<leftarrow> i2c_masterStartBlocking d reg h;
     h \<leftarrow> tx_nacked d reg (write_addr slaveAddr) h;
     h \<leftarrow> tx_nacked d reg regAddr h;
     h \<leftarrow> write_bytes d reg data len h;
     i2c_masterStopBlocking d reg h
   }"

definition i2c_writeData_w :: "iomem device \<Rightarrow> u32 \<Rightarrow> u8 \<Rightarrow> u16 \<Rightarrow> u8 list \<Rightarrow> nat \<Rightarrow> iolog \<Rightarrow> iolog option" where
  "i2c_writeData_w d reg slaveAddr regAddr data len h = do {
     h \<leftarrow> i2c_masterStartBlocking d reg h;
     h \<leftarrow> tx_nacked d reg (write_addr slaveAddr) h;
     h \<leftarrow> tx_nacked d reg (ucast (drop_bit 8 regAddr AND 0xFF)) h;
     h \<leftarrow> tx_nacked d reg (ucast (regAddr AND 0xFF)) h;
     h \<leftarrow> write_bytes d reg data len h;
     i2c_masterStopBlocking d reg h
   }"

fun read_acked :: "iomem device \<Rightarrow> u32 \<Rightarrow> nat \<Rightarrow> iolog \<Rightarrow> (u8 list \<times> iolog) option" where
  "read_acked d reg 0 h = Some ([], h)"
| "read_acked d reg (Suc n) h = do {
     h \<leftarrow> i2c_txAckBlocking d reg (i2c_txByte reg 0xFF h);
     let (v, h) = i2c_rxData d reg h;
     (vs, h) \<leftarrow> read_acked d reg n h;
     Some (ucast v # vs, h)
   }"

definition read_bytes :: "iomem device \<Rightarrow> u32 \<Rightarrow> u8 list \<Rightarrow> nat \<Rightarrow> iolog \<Rightarrow> (u8 list \<times> iolog) option" where
  "read_bytes d reg data len h =
     (if len = 0 \<or> length data < len then None
      else do {
        (vs, h) \<leftarrow> read_acked d reg (len - 1) h;
        h \<leftarrow> tx_nacked d reg 0xFF h;
        let (v, h) = i2c_rxData d reg h;
        Some (vs @ [ucast v] @ drop len data, h)
      })"

definition i2c_readData_b ::
  "iomem device \<Rightarrow> u32 \<Rightarrow> u8 \<Rightarrow> u8 \<Rightarrow> u8 list \<Rightarrow> nat \<Rightarrow> iolog \<Rightarrow> (u8 list \<times> iolog) option" where
  "i2c_readData_b d reg slaveAddr regAddr data len h = do {
     h \<leftarrow> i2c_masterStartBlocking d reg h;
     h \<leftarrow> tx_nacked d reg (write_addr slaveAddr) h;
     h \<leftarrow> tx_nacked d reg regAddr h;
     h \<leftarrow> i2c_masterRestartBlocking d reg h;
     h \<leftarrow> tx_nacked d reg (read_addr slaveAddr) h;
     (data, h) \<leftarrow> read_bytes d reg data len h;
     h \<leftarrow> i2c_masterStopBlocking d reg h;
     Some (data, h)
   }"

definition i2c_readData_w ::
  "iomem device \<Rightarrow> u32 \<Rightarrow> u8 \<Rightarrow> u16 \<Rightarrow> u8 list \<Rightarrow> nat \<Rightarrow> iolog \<Rightarrow> (u8 list \<times> iolog) option" where
  "i2c_readData_w d reg slaveAddr regAddr data len h = do {
     h \<leftarrow> i2c_masterStartBlocking d reg h;
     h \<leftarrow> tx_nacked d reg (write_addr slaveAddr) h;
     h \<leftarrow> tx_nacked d reg (ucast (drop_bit 8 regAddr AND 0xFF)) h;
     h \<leftarrow> tx_nacked d reg (ucast (regAddr AND 0xFF)) h;
     h \<leftarrow> i2c_masterRestartBlocking d reg h;
     h \<leftarrow> tx_nacked d reg (read_addr slaveAddr) h;
     (data, h) \<leftarrow> read_bytes d reg data len h;
     h \<leftarrow> i2c_masterStopBlocking d reg h;
     Some (data, h)
   }"

section \<open>What they put on the bus\<close>

lemma ack_blocking_view: "i2c_txAckBlocking d I2C_CTRL_MIPI h = Some h' \<Longrightarrow> bus h' = bus h"
  by (auto simp: i2c_txAckBlocking_def i2c_txAckWait_def i2c_txAck_def write_u32_def writel_def dest: wait_clear_view)

lemma ack_blocking_live: "responsive d \<Longrightarrow> \<exists>h'. i2c_txAckBlocking d I2C_CTRL_MIPI h = Some h'"
  unfolding i2c_txAckBlocking_def i2c_txAckWait_def by (rule wait_clear_live) (simp add: responsive_def)

text \<open>The same bus as for the sensor drivers, without the look at the answer.\<close>

interpretation plain: bus_master "i2c_masterStartBlocking d I2C_CTRL_MIPI"
  "i2c_masterStopBlocking d I2C_CTRL_MIPI" "tx_nacked d I2C_CTRL_MIPI" bus "responsive d" for d
proof unfold_locales
  fix h h' :: iolog and b :: u8
  show "tx_nacked d I2C_CTRL_MIPI b h = Some h' \<Longrightarrow> bus h' = bus h @ [BByte b]"
    by (auto simp: tx_nacked_def tx_bus dest!: nack_blocking_view)
  show "responsive d \<Longrightarrow> \<exists>h'. tx_nacked d I2C_CTRL_MIPI b h = Some h'"
    using nack_blocking_live by (simp add: tx_nacked_def)
qed (use mipi.start_view mipi.start_live mipi.stop_view mipi.stop_live in blast)+

lemma write_bytes_all:
  assumes "0 < len" "len \<le> length data"
  shows "write_bytes d reg data len h = send_all (tx_nacked d reg) (take len data) h"
proof -
  obtain n where n: "len = Suc n" using assms(1) by (cases len) auto
  have app: "send_all f (xs @ [x]) h = Option.bind (send_all f xs h) (f x)" for f :: "u8 \<Rightarrow> iolog \<Rightarrow> iolog option" and xs x h
    by (induction xs arbitrary: h) (auto simp: Let_def split: Option.bind_split)
  have "take (Suc n) data = take n data @ [data ! n]" using assms n by (simp add: take_Suc_conv_app_nth)
  then show ?thesis using assms n by (simp add: write_bytes_def app)
qed

text \<open>A write is one frame: the address, the register with its high byte first, and the data.\<close>

lemma write_data_frame:
  assumes "0 < len" "len \<le> length data"
  shows "i2c_writeData_b d reg slaveAddr r8 data len h = bus_frame (i2c_masterStartBlocking d reg) (tx_nacked d reg) (i2c_masterStopBlocking d reg)
      ([write_addr slaveAddr, r8] @ take len data) h"
    "i2c_writeData_w d reg slaveAddr r16 data len h = bus_frame (i2c_masterStartBlocking d reg) (tx_nacked d reg) (i2c_masterStopBlocking d reg)
      ([write_addr slaveAddr, ucast (drop_bit 8 r16 AND 0xFF), ucast (r16 AND 0xFF)] @ take len data) h"
  by (simp_all add: i2c_writeData_b_def i2c_writeData_w_def bus_frame_def write_bytes_all [OF assms])

lemma write_data_sent:
  assumes "responsive d" "0 < len" "len \<le> length data"
  shows "\<exists>h'. i2c_writeData_w d I2C_CTRL_MIPI slaveAddr r16 data len h = Some h' \<and>
    bus h' = bus h @ frame ([write_addr slaveAddr, ucast (drop_bit 8 r16 AND 0xFF), ucast (r16 AND 0xFF)] @ take len data)"
  using plain.frame_live [OF assms(1)] plain.frame_view unfolding write_data_frame(2) [OF assms(2,3)] by blast

lemma read_acked_sent:
  assumes "responsive d"
  shows "\<exists>vs h'. read_acked d I2C_CTRL_MIPI n h = Some (vs, h') \<and> length vs = n \<and> bus h' = bus h @ replicate n (BByte 0xFF)"
proof (induction n arbitrary: h)
  case (Suc n)
  obtain h1 where 1: "i2c_txAckBlocking d I2C_CTRL_MIPI (i2c_txByte I2C_CTRL_MIPI 0xFF h) = Some h1" using ack_blocking_live [OF assms] by blast
  have b1: "bus h1 = bus h @ [BByte 0xFF]" using ack_blocking_view [OF 1] by (simp add: tx_bus)
  obtain v h2 where 2: "i2c_rxData d I2C_CTRL_MIPI h1 = (v, h2)" by fastforce
  have b2: "bus h2 = bus h1" using rx_bus(3) [of d h1] 2 by simp
  obtain vs h' where "read_acked d I2C_CTRL_MIPI n h2 = Some (vs, h')" "length vs = n" "bus h' = bus h2 @ replicate n (BByte 0xFF)"
    using Suc.IH by blast
  then show ?case using 1 2 b1 b2 by simp
qed simp

text \<open>
  A read is a frame with the register, a second start, the read address and a clock byte for each byte read; it fills the first bytes
  of the buffer and leaves the rest.
\<close>
lemma read_data_sent:
  assumes "responsive d" "0 < len" "len \<le> length data"
  shows "\<exists>vs h'. i2c_readData_w d I2C_CTRL_MIPI slaveAddr r16 data len h = Some (vs @ drop len data, h') \<and> length vs = len \<and>
    bus h' = bus h @ [BStart] @ map BByte [write_addr slaveAddr, ucast (drop_bit 8 r16 AND 0xFF), ucast (r16 AND 0xFF)] @
      [BStart, BByte (read_addr slaveAddr)] @ replicate len (BByte 0xFF) @ [BStop]"
proof -
  note start = mipi.start_live [OF assms(1)] mipi.start_view
  note send = plain.send_live [OF assms(1)] plain.send_view
  note stop = mipi.stop_live [OF assms(1)] mipi.stop_view
  let ?c = "I2C_CTRL_MIPI"
  obtain h1 where 1: "i2c_masterStartBlocking d ?c h = Some h1" using start(1) by blast
  obtain h2 where 2: "tx_nacked d ?c (write_addr slaveAddr) h1 = Some h2" using send(1) by blast
  obtain h3 where 3: "tx_nacked d ?c (ucast (drop_bit 8 r16 AND 0xFF)) h2 = Some h3" using send(1) by blast
  obtain h4 where 4: "tx_nacked d ?c (ucast (r16 AND 0xFF)) h3 = Some h4" using send(1) by blast
  obtain h5 where 5: "i2c_masterStartBlocking d ?c h4 = Some h5" using start(1) by blast
  obtain h6 where 6: "tx_nacked d ?c (read_addr slaveAddr) h5 = Some h6" using send(1) by blast
  obtain vs h7 where 7: "read_acked d ?c (len - 1) h6 = Some (vs, h7)" "length vs = len - 1" "bus h7 = bus h6 @ replicate (len - 1) (BByte 0xFF)"
    using read_acked_sent [OF assms(1)] by blast
  obtain h8 where 8: "tx_nacked d ?c 0xFF h7 = Some h8" using send(1) by blast
  obtain v h9 where 9: "i2c_rxData d ?c h8 = (v, h9)" by fastforce
  obtain h10 where 10: "i2c_masterStopBlocking d ?c h9 = Some h10" using stop(1) by blast
  have b9: "bus h9 = bus h8" using rx_bus(3) [of d h8] 9 by simp
  have "i2c_readData_w d ?c slaveAddr r16 data len h = Some ((vs @ [ucast v]) @ drop len data, h10)"
    using assms(2,3) 1 2 3 4 5 6 7(1) 8 9 10 by (simp add: i2c_readData_w_def read_bytes_def i2c_masterRestartBlocking_def)
  moreover have "length (vs @ [ucast v]) = len" using 7(2) assms(2) by simp
  moreover have "replicate len (BByte 0xFF) = replicate (len - 1) (BByte 0xFF) @ [BByte 0xFF]"
    using assms(2) by (cases len) (simp_all add: replicate_append_same)
  then have "bus h10 = bus h @ [BStart] @ map BByte [write_addr slaveAddr, ucast (drop_bit 8 r16 AND 0xFF), ucast (r16 AND 0xFF)] @
      [BStart, BByte (read_addr slaveAddr)] @ replicate len (BByte 0xFF) @ [BStop]"
    by (simp add: start(2) [OF 1] send(2) [OF 2] send(2) [OF 3] send(2) [OF 4] start(2) [OF 5] send(2) [OF 6] 7(3) send(2) [OF 8] b9 stop(2) [OF 10])
  ultimately show ?thesis by blast
qed

end
