(* ===== verification/BootChain.thy ===== *)
theory BootChain
  imports SpiFlash
begin

text \<open>
  From flash to the first instruction of OpenSBI: the boot loader of boards/efinix/common/bootloaderConfig.h,
  which copies OpenSBI and U-Boot from the flash to memory, on the flash the tool of package/spi_app writes.
  The flash and the function that copies from it are parameters.
\<close>

unbundle bit_operations_syntax

section \<open>The first boot loader\<close>

text \<open>
  The macros have one value for RV64 and one for RV32.
\<close>

definition OPENSBI_MEMORY :: "bool \<Rightarrow> nat" where "OPENSBI_MEMORY rv64 = (if rv64 then 0x802000000 else 0x02000000)"
definition OPENSBI_FLASH :: nat where "OPENSBI_FLASH = 0x00600000"
definition OPENSBI_SIZE :: nat where "OPENSBI_SIZE = 0x040000"
definition UBOOT_MEMORY :: "bool \<Rightarrow> nat" where "UBOOT_MEMORY rv64 = (if rv64 then 0x802040000 else 0x02040000)"
definition UBOOT_SBI_FLASH :: nat where "UBOOT_SBI_FLASH = 0x00680000"
definition UBOOT_SIZE :: nat where "UBOOT_SIZE = 0x0C0000"
definition UART_0_SAMPLE_PER_BAUD :: int where "UART_0_SAMPLE_PER_BAUD = 8"
definition UART_0_BAUD_RATE :: int where "UART_0_BAUD_RATE = 115200"

text \<open>What the boot loader does, in order; flash and console are functions of the board support package.\<close>

datatype boot_step = Say string | Uart_clock u32 | Flash_probe | Flash_init nat | Flash_wake nat
  | Flash_copy nat nat nat | Smp_unlock nat | Call nat nat nat nat

definition configure_uart :: "int \<Rightarrow> boot_step list" where
  "configure_uart hz = [Uart_clock (word_of_int (hz div (UART_0_BAUD_RATE * UART_0_SAMPLE_PER_BAUD) - 1))]"

definition bspMain :: "bool \<Rightarrow> bool \<Rightarrow> int \<Rightarrow> string \<Rightarrow> boot_step list" where
  "bspMain rv64 smp hz stamp =
     [Say (''Built on '' @ stamp)] @
     (if rv64 then
        [Say ''RISC-V: 64 bit'', Flash_probe, Say ''OpenSBI copy'',
         Flash_copy OPENSBI_FLASH (OPENSBI_MEMORY rv64) OPENSBI_SIZE, Say ''U-Boot copy'',
         Flash_copy UBOOT_SBI_FLASH (UBOOT_MEMORY rv64) UBOOT_SIZE, Say ''Payload boot'']
      else
        configure_uart hz @
        [Say ''RISC-V: 32 bit'', Flash_init 0, Flash_wake 0, Say ''OpenSBI copy'',
         Flash_copy OPENSBI_FLASH (OPENSBI_MEMORY rv64) OPENSBI_SIZE, Say ''U-Boot copy'',
         Flash_copy UBOOT_SBI_FLASH (UBOOT_MEMORY rv64) UBOOT_SIZE, Say ''Payload boot'']) @
     (if smp then [Smp_unlock (OPENSBI_MEMORY rv64)] else []) @
     [Say ''Starting OpenSBI'', Call (OPENSBI_MEMORY rv64) 0 0 0]"

section \<open>The contents of flash and memory\<close>

text \<open>
  \<open>f2m\<close> copies from the flash to memory; \<open>effect\<close> is what a message does to the flash.  The hypotheses are what
  the data sheets say: a copy writes what it was asked to copy and nothing else; of the commands the tool
  sends only erase and program change the flash, inside the sector of 4096 bytes of their address.
\<close>

type_synonym bytes_at = "nat \<Rightarrow> u8"

definition copies :: "(bytes_at \<Rightarrow> nat \<Rightarrow> nat \<Rightarrow> nat \<Rightarrow> bytes_at \<Rightarrow> bytes_at) \<Rightarrow> bool" where
  "copies f2m \<longleftrightarrow> (\<forall>flash src dst n mem i. f2m flash src dst n mem i =
     (if dst \<le> i \<and> i < dst + n then flash (src + (i - dst)) else mem i))"

definition flash_like :: "(u8 list \<times> int \<Rightarrow> bytes_at \<Rightarrow> bytes_at) \<Rightarrow> bool" where
  "flash_like effect \<longleftrightarrow>
     (\<forall>tx r flash. hd tx \<in> {WRITE_ENABLE_CMD, GLOBAL_LOCK, GLOBAL_UNLOCK, READ_STATUS_REG, SPI_ID, READ_CMD} \<longrightarrow>
        effect (tx, r) flash = flash) \<and>
     (\<forall>tx r flash a. hd tx \<in> {SECTOR_ERASE, WRITE_CMD} \<and> a div 4096 \<noteq> flash_addr tx div 4096 \<longrightarrow>
        effect (tx, r) flash a = flash a)"

definition boot_memory ::
  "(bytes_at \<Rightarrow> nat \<Rightarrow> nat \<Rightarrow> nat \<Rightarrow> bytes_at \<Rightarrow> bytes_at) \<Rightarrow> bytes_at \<Rightarrow> boot_step list \<Rightarrow> bytes_at \<Rightarrow> bytes_at" where
  "boot_memory f2m flash steps mem =
     fold (\<lambda>st mem. case st of Flash_copy src dst n \<Rightarrow> f2m flash src dst n mem | _ \<Rightarrow> mem) steps mem"

definition flash_after :: "(u8 list \<times> int \<Rightarrow> bytes_at \<Rightarrow> bytes_at) \<Rightarrow> (u8 list \<times> int) list \<Rightarrow> bytes_at \<Rightarrow> bytes_at" where
  "flash_after effect ms flash = fold effect ms flash"

lemma boot_memory_images:
  assumes "copies f2m"
  shows "i < OPENSBI_SIZE \<Longrightarrow> boot_memory f2m flash (bspMain rv64 smp hz stamp) mem (OPENSBI_MEMORY rv64 + i) = flash (OPENSBI_FLASH + i)"
    "i < UBOOT_SIZE \<Longrightarrow> boot_memory f2m flash (bspMain rv64 smp hz stamp) mem (UBOOT_MEMORY rv64 + i) = flash (UBOOT_SBI_FLASH + i)"
proof -
  have "boot_memory f2m flash (bspMain rv64 smp hz stamp) mem =
      f2m flash UBOOT_SBI_FLASH (UBOOT_MEMORY rv64) UBOOT_SIZE (f2m flash OPENSBI_FLASH (OPENSBI_MEMORY rv64) OPENSBI_SIZE mem)"
    by (cases smp; cases rv64) (simp_all add: boot_memory_def bspMain_def configure_uart_def)
  note m = this and c = assms [unfolded copies_def, rule_format]
  show "i < OPENSBI_SIZE \<Longrightarrow> boot_memory f2m flash (bspMain rv64 smp hz stamp) mem (OPENSBI_MEMORY rv64 + i) = flash (OPENSBI_FLASH + i)"
    by (simp add: m c) (simp add: OPENSBI_SIZE_def OPENSBI_MEMORY_def UBOOT_MEMORY_def split: if_splits)
  show "i < UBOOT_SIZE \<Longrightarrow> boot_memory f2m flash (bspMain rv64 smp hz stamp) mem (UBOOT_MEMORY rv64 + i) = flash (UBOOT_SBI_FLASH + i)"
    by (simp add: m c)
qed

lemma effect_above:
  assumes "flash_like effect" "at_sector addr tx" "0x800000 \<le> unat addr mod 16777216" "a < 0x800000"
  shows "effect (tx, r) flash a = flash a"
proof (cases "hd tx \<in> {SECTOR_ERASE, WRITE_CMD}")
  case True
  with assms(2) obtain d where "tx = addr_header (hd tx) addr @ d" by (auto simp: at_sector_def spi)
  then have "flash_addr tx = unat addr mod 16777216" by (metis flash_addr_header)
  with assms(3) have "2048 \<le> flash_addr tx div 4096" by (simp add: less_eq_div_iff_mult_less_eq)
  moreover have "a div 4096 < 2048" using assms(4) by (simp add: div_less_iff_less_mult)
  ultimately have "a div 4096 \<noteq> flash_addr tx div 4096" by linarith
  with assms(1) True show ?thesis by (simp add: flash_like_def)
next
  case False
  with assms(2) have "hd tx \<in> {WRITE_ENABLE_CMD, GLOBAL_LOCK, GLOBAL_UNLOCK, READ_STATUS_REG, SPI_ID, READ_CMD}"
    by (auto simp: at_sector_def)
  with assms(1) show ?thesis unfolding flash_like_def by metis
qed

lemma flash_after_above:
  assumes "flash_like effect" "0x800000 \<le> unat addr mod 16777216" "a < 0x800000"
  shows "list_all (\<lambda>m. at_sector addr (fst m)) ms \<Longrightarrow> flash_after effect ms flash a = flash a"
proof (induction ms arbitrary: flash)
  case (Cons m ms)
  then have "flash_after effect (m # ms) flash a = effect m flash a" by (simp add: flash_after_def)
  also have "\<dots> = flash a"
    using effect_above [OF assms(1) _ assms(2,3), of "fst m" "snd m"] Cons.prems by simp
  finally show ?case .
qed (simp add: flash_after_def)


text \<open>A flash that erases to ones and programs by clearing bits, with the address wrapping in the page.\<close>

definition nor_effect :: "u8 list \<times> int \<Rightarrow> bytes_at \<Rightarrow> bytes_at" where
  "nor_effect m flash a =
     (let tx = fst m; b = flash_addr tx; k = (a + 256 - b mod 256) mod 256
      in if hd tx = SECTOR_ERASE \<and> a div 4096 = b div 4096 then 0xFF
         else if hd tx = WRITE_CMD \<and> a div 256 = b div 256 \<and> k < length tx - 4 then flash a AND tx ! (4 + k)
         else flash a)"

lemma nor_flash_like: "flash_like nor_effect"
  unfolding flash_like_def
proof (intro conjI allI impI)
  fix tx r flash
  assume "hd tx \<in> {WRITE_ENABLE_CMD, GLOBAL_LOCK, GLOBAL_UNLOCK, READ_STATUS_REG, SPI_ID, READ_CMD}"
  then have "hd tx \<noteq> SECTOR_ERASE" "hd tx \<noteq> WRITE_CMD" by (auto simp: spi)
  then show "nor_effect (tx, r) flash = flash" by (simp add: nor_effect_def Let_def fun_eq_iff)
next
  fix tx r flash and a :: nat
  assume "hd tx \<in> {SECTOR_ERASE, WRITE_CMD} \<and> a div 4096 \<noteq> flash_addr tx div 4096"
  then have "a div 4096 \<noteq> flash_addr tx div 4096" by blast
  moreover have "b div 4096 = b div 256 div 16" for b :: nat by (simp flip: div_mult2_eq)
  ultimately have "a div 4096 \<noteq> flash_addr tx div 4096" "a div 256 \<noteq> flash_addr tx div 256" by auto
  then show "nor_effect (tx, r) flash a = flash a" by (simp add: nor_effect_def Let_def)
qed

definition plain_copy :: "bytes_at \<Rightarrow> nat \<Rightarrow> nat \<Rightarrow> nat \<Rightarrow> bytes_at \<Rightarrow> bytes_at" where
  "plain_copy flash src dst n mem = (\<lambda>i. if dst \<le> i \<and> i < dst + n then flash (src + (i - dst)) else mem i)"


text \<open>With a wider address the tool erases a sector of OpenSBI.\<close>

lemma wide_address_erases:
  assumes "o_addr opts = 0x1600000"
  shows "at_sector (guarded_addr opts) (addr_header SECTOR_ERASE (guarded_addr opts)) \<and>
    nor_effect (addr_header SECTOR_ERASE (guarded_addr opts), 1) flash OPENSBI_FLASH = 0xFF"
proof -
  have g: "guarded_addr opts = 0x1600000" using assms by (simp add: guarded_addr_def)
  show ?thesis
    using flash_addr_header [of SECTOR_ERASE "0x1600000" "[]"]
    by (simp add: g nor_effect_def Let_def OPENSBI_FLASH_def)
qed

end
