(* ===== verification/ApbDemo.thy ===== *)
theory ApbDemo
  imports CharDev
begin

text \<open>
  The APB3 demo, package/apb3app/src/apb3app.c, on the driver it runs on (CharDev): the numbers it shows and what
  its two lines do to the register.
\<close>

unbundle bit_operations_syntax

section \<open>The APB3 demo\<close>

text \<open>
  The buffer \<open>msg\<close> has 32 characters; \<open>None\<close> is printing it when no NUL ends it.  Reading through a
  descriptor that could not be opened fails and leaves the buffer alone.
\<close>

definition apb_show :: "u32 device \<Rightarrow> string \<times> char_dev \<Rightarrow> (string \<times> string \<times> char_dev) option" where
  "apb_show d st = do {
     let (msg, s) = st;
     let (fd, s) = apb3_open s;
     (msg, s) \<leftarrow> (if fd < 0 then Some (msg, s)
       else do { (user, n, offset, s) \<leftarrow> apb3_read d 32 0 s; Some (user @ drop (length user) msg, s) });
     if CHR 0x00 \<notin> set msg then None
     else Some (cstr msg, replicate 32 CHR 0x00, if fd < 0 then s else snd (apb3_release s))
   }"

fun apb_shows :: "nat \<Rightarrow> u32 device \<Rightarrow> string \<times> char_dev \<Rightarrow> (string list \<times> string \<times> char_dev) option" where
  "apb_shows 0 d st = Some ([], st)"
| "apb_shows (Suc n) d st = do {
     (shown, st) \<leftarrow> apb_show d st;
     (rest, st) \<leftarrow> apb_shows n d st;
     Some (shown # rest, st)
   }"

definition apb_put :: "(string \<Rightarrow> u32) \<Rightarrow> string \<Rightarrow> string \<times> char_dev \<Rightarrow> (string \<times> char_dev) option" where
  "apb_put strtol line st = do {
     let (msg, s) = st;
     let msg = line @ [CHR 0x00] @ drop (length line + 1) msg;
     let (fd, s) = apb3_open s;
     if fd < 0 then Some (msg, s)
     else do {
       (rc, offset, s) \<leftarrow> apb3_write strtol (take (length line + 1) msg) 0 s;
       Some (msg, snd (apb3_release s))
     }
   }"

definition apb_main :: "u32 device \<Rightarrow> (string \<Rightarrow> u32) \<Rightarrow> string \<Rightarrow> char_dev \<Rightarrow> (string list \<times> char_dev) option" where
  "apb_main d strtol junk s = do {
     (before, st) \<leftarrow> apb_shows 3 d (junk, s);
     st \<leftarrow> apb_put strtol (''0x01'' @ [CHR 0x0A]) st;
     (stopped, st) \<leftarrow> apb_shows 3 d st;
     st \<leftarrow> apb_put strtol (''0x00'' @ [CHR 0x0A]) st;
     (again, st) \<leftarrow> apb_shows 3 d st;
     Some (before @ stopped @ again, snd st)
   }"

section \<open>What the demo shows\<close>

definition number_text :: "u32 \<Rightarrow> string" where
  "number_text v = ''random number :'' @ decimal (sint v)"

lemma number_text_facts: "length (number_text v) \<le> 26" "15 \<le> length (number_text v)" "CHR 0x00 \<notin> set (number_text v)"
  using decimal_length [of v] by (simp_all add: number_text_def decimal_clean)

lemma cstr_text: "CHR 0x00 \<notin> set t \<Longrightarrow> cstr (t @ u) = t @ cstr u"
  by (induction t) (auto simp: cstr_def)

lemma cstr_NUL [simp]: "cstr (CHR 0x00 # u) = []"
  by (simp add: cstr_def)

lemma apb_show_result:
  assumes "is_open s = 0" "CHR 0x00 \<in> set (drop (length (number_text (d (clog s) 0))) msg)"
  shows "apb_show d (msg, s) =
    (let v = d (clog s) 0 in
     Some (number_text v @ cstr (drop (length (number_text v)) msg), replicate 32 CHR 0x00, s\<lparr>clog := clog s @ [Rd 0 v]\<rparr>))"
proof -
  let ?s = "s\<lparr>is_open := 1, module_refs := module_refs s + 1\<rparr>"
  let ?v = "d (clog s) 0"
  have "take 32 (number_text ?v) = number_text ?v" using number_text_facts(1) [of ?v] by simp
  then have "apb3_read d 32 0 ?s = Some (number_text ?v, length (number_text ?v), int (length (number_text ?v)),
      ?s\<lparr>clog := clog s @ [Rd 0 ?v]\<rparr>)"
    using conjunct1 [OF cdev_read_text [of d 32 0 ?s]] by (simp add: number_text_def Let_def)
  then show ?thesis
    using assms by (simp add: apb_show_def apb3_open_def apb3_release_def Let_def cstr_text number_text_facts(3))
qed

text \<open>The answers to the next reads of the register.\<close>

fun numbers :: "u32 device \<Rightarrow> nat \<Rightarrow> u32 log \<Rightarrow> u32 list" where
  "numbers d 0 h = []"
| "numbers d (Suc n) h = d h 0 # numbers d n (h @ [Rd 0 (d h 0)])"

text \<open>With a clean buffer, or one that starts with a line and is clean behind it.\<close>

lemma apb_shows_clean:
  assumes "is_open s = 0" "length line \<le> 15"
  shows "apb_shows n d (line @ replicate (32 - length line) CHR 0x00, s) =
      Some (map number_text (numbers d n (clog s)),
        (if n = 0 then line @ replicate (32 - length line) CHR 0x00 else replicate 32 CHR 0x00),
        s\<lparr>clog := clog s @ map (Rd 0) (numbers d n (clog s))\<rparr>)"
  using assms
proof (induction n arbitrary: s line)
  case (Suc n)
  let ?v = "d (clog s) 0"
  let ?s = "s\<lparr>clog := clog s @ [Rd 0 ?v]\<rparr>"
  have "drop (length (number_text ?v)) (line @ replicate (32 - length line) CHR 0x00) =
      replicate (32 - length (number_text ?v)) CHR 0x00"
    using number_text_facts(1,2) [of ?v] Suc.prems(2) by simp
  moreover obtain k where "32 - length (number_text ?v) = Suc k"
    using number_text_facts(1) [of ?v] by (cases "32 - length (number_text ?v)") auto
  ultimately have "apb_show d (line @ replicate (32 - length line) CHR 0x00, s) = Some (number_text ?v, replicate 32 CHR 0x00, ?s)"
    using apb_show_result [of s d "line @ replicate (32 - length line) CHR 0x00"] Suc.prems(1) by (simp add: Let_def)
  with Suc.IH [of ?s "[]"] Suc.prems(1) show ?case by simp
qed simp

lemma apb_put_result:
  assumes "is_open s = 0" "length msg = 32" "length line \<le> 30" "CHR 0x0A \<notin> set line"
  shows "apb_put strtol (line @ [CHR 0x0A]) (msg, s) =
    Some (line @ [CHR 0x0A] @ [CHR 0x00] @ drop (length line + 2) msg, s\<lparr>clog := clog s @ [Wr 4 (strtol line)]\<rparr>)"
proof -
  have split: "split_lines l (line @ [CHR 0x0A, CHR 0x00]) = ([l @ line], [CHR 0x00])" for l
    using assms(4) by (induction line arbitrary: l) auto
  have "apb3_write strtol (line @ [CHR 0x0A, CHR 0x00]) 0 (s\<lparr>is_open := 1, module_refs := module_refs s + 1\<rparr>) =
      Some (0, int (length line) + 2, s\<lparr>is_open := 1, module_refs := module_refs s + 1, clog := clog s @ [Wr 4 (strtol line)]\<rparr>)"
    using write_loop_lines [of "[]" strtol 4 "line @ [CHR 0x0A, CHR 0x00]" 0 "clog s"] assms(3)
    by (simp add: apb3_write_def split lines_fit_def)
  then show ?thesis
    using assms(1) by (simp add: apb_put_def apb3_open_def apb3_release_def Let_def)
qed

text \<open>
  C39: When the device is free the demo shows nine numbers read from the register and writes the values of
  0x01 and 0x00 after the third and the sixth; the device is free again at the end and the module count is what
  it was.  The texts are exact except the first: behind it comes what the buffer happened to hold.
\<close>
theorem apb_demo_shows:
  assumes "is_open s = 0" "length junk = 32" "CHR 0x00 \<in> set (drop 26 junk)"
  shows "let vs = numbers d 3 (clog s); h1 = clog s @ map (Rd 0) vs @ [Wr 4 (strtol ''0x01'')];
      ws = numbers d 3 h1; h2 = h1 @ map (Rd 0) ws @ [Wr 4 (strtol ''0x00'')]; us = numbers d 3 h2
    in apb_main d strtol junk s =
      Some ((number_text (hd vs) @ cstr (drop (length (number_text (hd vs))) junk)) # map number_text (tl vs @ ws @ us),
        s\<lparr>clog := h2 @ map (Rd 0) us\<rparr>)"
proof -
  let ?v = "d (clog s) 0" and ?z = "replicate 32 CHR 0x00"
  let ?s1 = "s\<lparr>clog := clog s @ [Rd 0 ?v]\<rparr>" and ?vs = "numbers d 3 (clog s)"
  let ?first = "number_text ?v @ cstr (drop (length (number_text ?v)) junk)"
  have three: "numbers d 3 h = d h 0 # numbers d 2 (h @ [Rd 0 (d h 0)])" for h
    using numbers.simps(2) [of d 2 h] by (simp del: numbers.simps)
  have "drop 26 junk = drop (26 - length (number_text ?v)) (drop (length (number_text ?v)) junk)"
    using number_text_facts(1) [of ?v] by simp
  then have "CHR 0x00 \<in> set (drop (length (number_text ?v)) junk)" using assms(3) by (metis in_set_dropD)
  from apb_show_result [of s d junk, OF assms(1) this]
  have 1: "apb_show d (junk, s) = Some (?first, ?z, ?s1)"
    by (simp add: Let_def)
  have clean: "is_open t = 0 \<Longrightarrow> length l \<le> 15 \<Longrightarrow> 0 < n \<Longrightarrow> apb_shows n d (l @ replicate (32 - length l) CHR 0x00, t) =
      Some (map number_text (numbers d n (clog t)), ?z, t\<lparr>clog := clog t @ map (Rd 0) (numbers d n (clog t))\<rparr>)" for t l n
    using apb_shows_clean [of t l n d] by simp
  have 2: "apb_shows 2 d (?z, ?s1) = Some (map number_text (tl ?vs), ?z, s\<lparr>clog := clog s @ map (Rd 0) ?vs\<rparr>)"
    using clean [of ?s1 "[]" 2] assms(1) by (simp add: three del: numbers.simps apb_shows.simps)
  have 3: "apb_shows 3 d (junk, s) = Some (?first # map number_text (tl ?vs), ?z, s\<lparr>clog := clog s @ map (Rd 0) ?vs\<rparr>)"
    using apb_shows.simps(2) [of 2 d "(junk, s)"] 1 2 by (simp del: numbers.simps apb_shows.simps)
  have put: "apb_put strtol (l @ [CHR 0x0A]) (?z, t) =
      Some ((l @ [CHR 0x0A]) @ replicate (32 - length (l @ [CHR 0x0A])) CHR 0x00, t\<lparr>clog := clog t @ [Wr 4 (strtol l)]\<rparr>)"
    if "is_open t = 0" "l = ''0x01'' \<or> l = ''0x00''" for t l
    using apb_put_result [of t ?z l strtol] that by (auto simp: numeral_eq_Suc)
  have after: "apb_shows 3 d ((l @ [CHR 0x0A]) @ replicate (32 - length (l @ [CHR 0x0A])) CHR 0x00, t) =
      Some (map number_text (numbers d 3 (clog t)), ?z, t\<lparr>clog := clog t @ map (Rd 0) (numbers d 3 (clog t))\<rparr>)"
    if "is_open t = 0" "l = ''0x01'' \<or> l = ''0x00''" for t l
    using clean [of t "l @ [CHR 0x0A]" 3] that by auto
  let ?t1 = "s\<lparr>clog := clog s @ map (Rd 0) ?vs\<rparr>"
  let ?t2 = "?t1\<lparr>clog := clog ?t1 @ [Wr 4 (strtol ''0x01'')]\<rparr>"
  let ?t3 = "?t2\<lparr>clog := clog ?t2 @ map (Rd 0) (numbers d 3 (clog ?t2))\<rparr>"
  let ?t4 = "?t3\<lparr>clog := clog ?t3 @ [Wr 4 (strtol ''0x00'')]\<rparr>"
  have open_: "is_open ?t1 = 0" "is_open ?t2 = 0" "is_open ?t3 = 0" "is_open ?t4 = 0" using assms(1) by simp_all
  have "apb_main d strtol junk s =
      Some ((?first # map number_text (tl ?vs)) @ map number_text (numbers d 3 (clog ?t2)) @ map number_text (numbers d 3 (clog ?t4)),
        ?t4\<lparr>clog := clog ?t4 @ map (Rd 0) (numbers d 3 (clog ?t4))\<rparr>)"
    by (simp only: apb_main_def 3 Option.bind.simps prod.case snd_conv
        put [OF open_(1) disjI1 [OF refl]] after [OF open_(2) disjI1 [OF refl]] put [OF open_(3) disjI2 [OF refl]] after [OF open_(4) disjI2 [OF refl]])
  then show ?thesis by (simp add: Let_def three del: numbers.simps)
qed

theorem apb_demo_shows_witness:
  "\<exists>s. apb_main (\<lambda>h a. 5) (\<lambda>l. 1) (replicate 32 CHR 0x00) (closed_dev []) =
      Some (replicate 9 (number_text 5), s) \<and> is_open s = 0 \<and> module_refs s = 0"
proof -
  have n: "numbers (\<lambda>h a. 5) 3 h = [5, 5, 5]" for h by (simp add: numeral_3_eq_3)
  have c: "cstr (replicate k CHR 0x00) = []" for k by (cases k) (simp_all add: cstr_def)
  have nine: "replicate 9 x = [x, x, x, x, x, x, x, x, x]" for x :: string by (simp add: numeral_eq_Suc)
  from apb_demo_shows [of "closed_dev []" "replicate 32 CHR 0x00" "\<lambda>h a. 5" "\<lambda>l. 1"]
  show ?thesis by (simp add: closed_dev_def n Let_def c nine)
qed

end
