(* ===== verification/GpioLines.thy ===== *)
theory GpioLines
  imports Prelude
begin

text \<open>
  The libgpiod demo, package/gpiod/src/gpiod.c: the calls it makes and the levels its lines show over time.
\<close>

unbundle bit_operations_syntax

section \<open>The program\<close>

definition MAX_GPIO :: nat where "MAX_GPIO = 3"
definition period_us :: nat where "period_us = 200000"
definition pulse :: nat where "pulse = 20"

text \<open>
  The calls of libgpiod and of the C library, in order.  A line is named by its offset on the chip.  \<open>gpio_lib\<close> says
  which calls succeed.
\<close>

datatype line_call = Chip_open string | Chip_close | Get_line nat | Request_output nat int | Set_line nat int | Usleep nat

record gpio_lib =
  chip_opens :: bool
  line_there :: "nat \<Rightarrow> bool"
  line_free :: "nat \<Rightarrow> bool"

fun configure_loop :: "gpio_lib \<Rightarrow> nat \<Rightarrow> nat \<Rightarrow> nat list \<Rightarrow> line_call list \<times> nat list \<times> int" where
  "configure_loop g 0 line_offset lines = ([], lines, 0)"
| "configure_loop g (Suc left) line_offset lines =
     (if \<not> line_there g line_offset then ([Get_line line_offset], lines, 1)
      else if \<not> line_free g line_offset then ([Get_line line_offset, Request_output line_offset 1], lines @ [line_offset], 1)
      else
        let (calls, lines, ret) = configure_loop g left (line_offset + 1) (lines @ [line_offset])
        in (Get_line line_offset # Request_output line_offset 1 # calls, lines, ret))"

definition configure_gpio_lines :: "gpio_lib \<Rightarrow> nat \<Rightarrow> line_call list \<times> nat list \<times> int" where
  "configure_gpio_lines g line_offset = configure_loop g MAX_GPIO line_offset []"

definition blinky :: "nat list \<Rightarrow> line_call list" where
  "blinky lines = concat (map (\<lambda>j.
     map (\<lambda>i. Set_line (lines ! i) 0) [0..<MAX_GPIO] @ [Usleep (period_us div 2)] @
     map (\<lambda>i. Set_line (lines ! i) 1) [0..<MAX_GPIO] @ [Usleep (period_us div 2)]) [0..<pulse])"

definition running_light :: "nat list \<Rightarrow> line_call list" where
  "running_light lines = concat (map (\<lambda>j.
     concat (map (\<lambda>i. [Set_line (lines ! i) 0, Usleep (period_us div 2)]) [0..<MAX_GPIO]) @
     concat (map (\<lambda>i. [Set_line (lines ! i) 1, Usleep (period_us div 2)]) (rev [0..<MAX_GPIO]))) [0..<pulse])"

definition gpiod_main :: "gpio_lib \<Rightarrow> line_call list \<times> int" where
  "gpiod_main g =
     (if \<not> chip_opens g then ([Chip_open ''/dev/gpiochip0''], 1)
      else
        let (calls, lines, ret) = configure_gpio_lines g 1
        in if ret \<noteq> 0 then (Chip_open ''/dev/gpiochip0'' # calls @ [Chip_close], ret)
           else (Chip_open ''/dev/gpiochip0'' # calls @ blinky lines @ running_light lines @ [Chip_close], 0))"

section \<open>What the lines show\<close>

text \<open>The levels over time: each call of \<open>usleep\<close> shows the levels of the three lines for that long.\<close>

fun shown :: "(nat \<Rightarrow> int) \<Rightarrow> line_call list \<Rightarrow> (int list \<times> nat) list" where
  "shown v [] = []"
| "shown v (Usleep t # cs) = ([v 1, v 2, v 3], t) # shown v cs"
| "shown v (Set_line i x # cs) = shown (v(i := x)) cs"
| "shown v (Request_output i x # cs) = shown (v(i := x)) cs"
| "shown v (c # cs) = shown v cs"

fun levels :: "(nat \<Rightarrow> int) \<Rightarrow> line_call list \<Rightarrow> nat \<Rightarrow> int" where
  "levels v [] = v"
| "levels v (Set_line i x # cs) = levels (v(i := x)) cs"
| "levels v (Request_output i x # cs) = levels (v(i := x)) cs"
| "levels v (c # cs) = levels v cs"

lemma shown_append: "shown v (as @ bs) = shown v as @ shown (levels v as) bs"
  by (induction v as rule: shown.induct) (auto simp: fun_upd_def)

lemma levels_append: "levels v (as @ bs) = levels (levels v as) bs"
  by (induction v as rule: levels.induct) (auto simp: fun_upd_def)

definition blink :: "(int list \<times> nat) list" where
  "blink = [([0, 0, 0], 100000), ([1, 1, 1], 100000)]"

definition sweep :: "(int list \<times> nat) list" where
  "sweep = map (\<lambda>l. (l, 100000)) [[0, 1, 1], [0, 0, 1], [0, 0, 0], [0, 0, 1], [0, 1, 1], [1, 1, 1]]"

definition all_high :: "(nat \<Rightarrow> int) \<Rightarrow> bool" where
  "all_high v \<longleftrightarrow> v 1 = 1 \<and> v 2 = 1 \<and> v 3 = 1"

lemma three_lines: "[0..<3] = [0, 1, 2 :: nat]"
  by (simp add: upt_rec)

text \<open>One pass of either loop, from all lines high.\<close>

lemma blink_pass:
  assumes "all_high v"
  shows "shown v (map (\<lambda>i. Set_line ([1, 2, 3] ! i) 0) [0..<3] @ [Usleep 100000] @ map (\<lambda>i. Set_line ([1, 2, 3] ! i) 1) [0..<3] @ [Usleep 100000]) = blink"
    "all_high (levels v (map (\<lambda>i. Set_line ([1, 2, 3] ! i) 0) [0..<3] @ [Usleep 100000] @ map (\<lambda>i. Set_line ([1, 2, 3] ! i) 1) [0..<3] @ [Usleep 100000]))"
  using assms by (simp_all add: three_lines blink_def all_high_def)

lemma sweep_pass:
  assumes "all_high v"
  shows "shown v (concat (map (\<lambda>i. [Set_line ([1, 2, 3] ! i) 0, Usleep 100000]) [0..<3]) @
      concat (map (\<lambda>i. [Set_line ([1, 2, 3] ! i) 1, Usleep 100000]) (rev [0..<3]))) = sweep"
    "all_high (levels v (concat (map (\<lambda>i. [Set_line ([1, 2, 3] ! i) 0, Usleep 100000]) [0..<3]) @
      concat (map (\<lambda>i. [Set_line ([1, 2, 3] ! i) 1, Usleep 100000]) (rev [0..<3]))))"
  using assms by (simp_all add: three_lines sweep_def all_high_def)

lemma repeated:
  assumes "\<And>v. P v \<Longrightarrow> shown v cs = ps \<and> P (levels v cs)" "P v"
  shows "shown v (concat (map (\<lambda>j. cs) [0..<n])) = concat (replicate n ps) \<and> P (levels v (concat (map (\<lambda>j. cs) [0..<n])))"
  using assms(2)
proof (induction n arbitrary: v)
  case (Suc n)
  have "map (\<lambda>j. cs) [0..<Suc n] = cs # map (\<lambda>j. cs) [0..<n]" by (simp add: map_replicate_const)
  with Suc assms(1) [OF Suc.prems] show ?case by (simp add: shown_append levels_append del: upt_Suc)
qed simp

lemma configured:
  "line_there g 1 \<Longrightarrow> line_there g 2 \<Longrightarrow> line_there g 3 \<Longrightarrow> line_free g 1 \<Longrightarrow> line_free g 2 \<Longrightarrow> line_free g 3 \<Longrightarrow>
     configure_gpio_lines g 1 = ([Get_line 1, Request_output 1 1, Get_line 2, Request_output 2 1, Get_line 3, Request_output 3 1], [1, 2, 3], 0)"
  by (simp add: configure_gpio_lines_def MAX_GPIO_def numeral_3_eq_3 numeral_2_eq_2)

text \<open>
  The demo shows twenty blinks of the three lines and twenty runs of the light when the chip opens and its lines 1, 2 and 3 are there
  and free, and returns 0; otherwise it returns 1 and shows nothing.  In either case the chip is closed at the end exactly when
  it was opened.
\<close>
theorem gpiod_shows:
  "let ok = chip_opens g \<and> list_all (\<lambda>i. line_there g i \<and> line_free g i) [1, 2, 3] in
    snd (gpiod_main g) = (if ok then 0 else 1) \<and>
    shown v (fst (gpiod_main g)) = (if ok then concat (replicate 20 blink) @ concat (replicate 20 sweep) else []) \<and>
    (last (fst (gpiod_main g)) = Chip_close \<longleftrightarrow> chip_opens g)"
proof (cases "chip_opens g \<and> list_all (\<lambda>i. line_there g i \<and> line_free g i) [1, 2, 3]")
  case True
  then have c: "configure_gpio_lines g 1 =
      ([Get_line 1, Request_output 1 1, Get_line 2, Request_output 2 1, Get_line 3, Request_output 3 1], [1, 2, 3], 0)"
    by (intro configured) simp_all
  let ?v = "v(1 := 1, 2 := 1, 3 := 1)"
  have "all_high ?v" by (simp add: all_high_def)
  from repeated [of all_high, OF _ this, of _ blink 20] blink_pass
  have 1: "shown ?v (blinky [1, 2, 3]) = concat (replicate 20 blink)" "all_high (levels ?v (blinky [1, 2, 3]))"
    unfolding blinky_def MAX_GPIO_def pulse_def period_us_def by simp_all
  from repeated [of all_high, OF _ 1(2), of _ sweep 20] sweep_pass
  have 2: "shown (levels ?v (blinky [1, 2, 3])) (running_light [1, 2, 3]) = concat (replicate 20 sweep)"
    unfolding running_light_def MAX_GPIO_def pulse_def period_us_def by simp
  from True show ?thesis
    by (simp add: gpiod_main_def c Let_def shown_append 1(1) 2 del: One_nat_def)
next
  case False
  then show ?thesis
    by (auto simp: gpiod_main_def configure_gpio_lines_def MAX_GPIO_def numeral_3_eq_3 numeral_2_eq_2 Let_def)
qed

end
