(* ===== verification/NetDemos.thy ===== *)
theory NetDemos
  imports CText "HOL-Library.Monad_Syntax"
begin

text \<open>
  The network samples package/socket_hello_world and package/tcp: what they send and receive, and what is wrong with
  the buffers they send.  The network is a parameter.
\<close>

unbundle bit_operations_syntax

section \<open>What the network answers\<close>

text \<open>
  \<open>succeeds\<close> says which calls succeed and \<open>incoming\<close> what a read or receive delivers, \<open>None\<close> for an error.  A
  buffer is a list of characters; \<open>None\<close> as a result is an access outside one, or printing one that has no NUL.
\<close>

datatype net_call = Make_socket bool | Set_reuse | Bind_to int | Listen_on nat | Accept_one | Resolve string | Connect_to string int
  | Send_bytes string | Receive_bytes nat | Shut_down | Close_one

record network =
  succeeds :: "net_call \<Rightarrow> bool"
  incoming :: "string option"

definition received :: "network \<Rightarrow> string \<Rightarrow> string" where
  "received w buf = (case incoming w of None \<Rightarrow> buf | Some s \<Rightarrow> take (length buf) s @ drop (length s) buf)"

definition print_str :: "string \<Rightarrow> string option" where
  "print_str buf = (if CHR 0x00 \<in> set buf then Some (cstr buf) else None)"

text \<open>A run: the calls made, the texts that came from the network, the result.\<close>

type_synonym net_run = "net_call list \<times> string list \<times> int"

text \<open>The calls up to the first one that fails, which ends the program with the result \<open>r\<close>.\<close>

fun attempt :: "network \<Rightarrow> int \<Rightarrow> net_call list \<Rightarrow> net_run option \<Rightarrow> net_run option" where
  "attempt w r [] k = k"
| "attempt w r (c # cs) k =
     (if succeeds w c then map_option (\<lambda>(calls, out, ret). (c # calls, out, ret)) (attempt w r cs k)
      else Some ([c], [], r))"

section \<open>socket_hello_world\<close>

definition client_mode :: "network \<Rightarrow> string \<Rightarrow> int \<Rightarrow> int \<Rightarrow> string \<Rightarrow> net_run option" where
  "client_mode w ipaddr port proto msg =
     attempt w (-1) [Make_socket (proto = 1), Resolve ipaddr, Connect_to ipaddr (port mod 65536)]
       (if proto = 1 then do {
          data \<leftarrow> (if length msg < 1000 then None else Some (take 1000 msg));
          text \<leftarrow> print_str (received w (replicate 1024 CHR 0x00));
          Some ([Send_bytes data, Receive_bytes 1024, Close_one], [text], 0)
        } else do {
          data \<leftarrow> print_str msg;
          text \<leftarrow> print_str (received w (replicate 1024 CHR 0x00));
          Some ([Send_bytes data, Receive_bytes 1024, Close_one], [text], 0)
        })"

definition server_reply :: string where
  "server_reply = ''Hello from server''"

text \<open>
  A port goes through \<open>htons\<close>.  Over UDP the NUL goes to the index the receive returned, \<open>-1\<close> for an error, and 1000 bytes are sent of the literal.
\<close>

definition server_mode :: "network \<Rightarrow> int \<Rightarrow> int \<Rightarrow> net_run option" where
  "server_mode w port proto =
     (let buffer = received w (replicate 1024 CHR 0x00);
          n = (case incoming w of None \<Rightarrow> -1 | Some s \<Rightarrow> int (min 1024 (length s)))
      in attempt w (-1) [Make_socket (proto = 1), Bind_to (port mod 65536)]
        (if proto = 1 then do {
           buffer \<leftarrow> (if n < 0 \<or> int (length buffer) \<le> n then None else Some (buffer[nat n := CHR 0x00]));
           text \<leftarrow> print_str buffer;
           data \<leftarrow> (if length (server_reply @ [CHR 0x00]) < 1000 then None else Some (take 1000 server_reply));
           Some ([Receive_bytes 1024, Send_bytes data, Shut_down], [text], 0)
         } else
           attempt w (-1) [Listen_on 3, Accept_one] (do {
             text \<leftarrow> print_str buffer;
             Some ([Receive_bytes 1024, Send_bytes server_reply, Close_one, Shut_down], [text], 0)
           })))"

record hello_opts =
  h_ip :: string
  h_port :: int
  h_mode :: int
  h_proto :: int
  h_msg :: string

definition store_str :: "nat \<Rightarrow> string \<Rightarrow> string \<Rightarrow> string option" where
  "store_str n arg buf = (if length arg < n then Some (arg @ [CHR 0x00] @ drop (length arg + 1) buf) else None)"

definition hello_init :: hello_opts where
  "hello_init = \<lparr>h_ip = replicate 50 CHR 0x00, h_port = 9123, h_mode = 0, h_proto = 0,
     h_msg = ''hello from client'' @ replicate 1007 CHR 0x00\<rparr>"

text \<open>The options in order; \<open>Inl\<close> ends the program.\<close>

fun hello_opt :: "char \<times> string \<Rightarrow> hello_opts \<Rightarrow> (int + hello_opts) option" where
  "hello_opt (opt, arg) h =
     (if opt = CHR ''a'' then map_option (\<lambda>b. Inr (h\<lparr>h_ip := b\<rparr>)) (store_str 50 arg (h_ip h))
      else if opt = CHR ''c'' then Some (Inr (h\<lparr>h_mode := 1\<rparr>))
      else if opt = CHR ''m'' then map_option (\<lambda>b. Inr (h\<lparr>h_msg := b\<rparr>)) (store_str 1024 arg (h_msg h))
      else if opt = CHR ''s'' then Some (Inr (h\<lparr>h_mode := 2\<rparr>))
      else if opt = CHR ''p'' then Some (Inr (h\<lparr>h_port := atoi arg\<rparr>))
      else if opt = CHR ''u'' then Some (Inr (h\<lparr>h_proto := 1\<rparr>))
      else if opt = CHR ''h'' then Some (Inl 0)
      else Some (Inl 1))"

fun hello_getopt :: "(char \<times> string) list \<Rightarrow> hello_opts \<Rightarrow> (int + hello_opts) option" where
  "hello_getopt [] h = Some (Inr h)"
| "hello_getopt (x # xs) h = do {
     r \<leftarrow> hello_opt x h;
     case r of Inl ret \<Rightarrow> Some (Inl ret) | Inr h \<Rightarrow> hello_getopt xs h
   }"

definition hello_main :: "network \<Rightarrow> (char \<times> string) list \<Rightarrow> net_run option" where
  "hello_main w args = do {
     r \<leftarrow> hello_getopt args hello_init;
     case r of
       Inl ret \<Rightarrow> Some ([], [], ret)
     | Inr h \<Rightarrow>
         if h_mode h = 1 then
           (if hd (h_ip h) = CHR 0x00 then Some ([], [], -1)
            else do {
              (calls, out, ret) \<leftarrow> client_mode w (cstr (h_ip h)) (h_port h) (h_proto h) (h_msg h);
              Some (calls, out, if ret \<noteq> 0 then -1 else 0)
            })
         else if h_mode h = 2 then do {
           (calls, out, ret) \<leftarrow> server_mode w (h_port h) (h_proto h);
           Some (calls, out, if ret \<noteq> 0 then -1 else 0)
         }
         else Some ([], [], -1)
   }"

section \<open>tcp\<close>

definition MAXDATASIZE :: nat where "MAXDATASIZE = 5 * 1024"
definition SERVPORT :: int where "SERVPORT = 3333"
definition SEVPORT :: int where "SEVPORT = 3333"

text \<open>\<open>junk\<close> is what the stack holds under \<open>buf\<close>.  The server prints the number of bytes and the third one.\<close>

definition tcp_server :: "network \<Rightarrow> string \<Rightarrow> net_run option" where
  "tcp_server w junk =
     attempt w 1 [Make_socket False]
       (let k = attempt w 1 [Bind_to SERVPORT, Listen_on 10, Accept_one]
          (case incoming w of None \<Rightarrow> Some ([Receive_bytes MAXDATASIZE], [], 1)
           | Some s \<Rightarrow> map_option (\<lambda>(calls, out, ret). (Receive_bytes MAXDATASIZE # calls, [received w junk ! 2] # out, ret))
               (attempt w 1 [Send_bytes (received w junk)] (Some ([Close_one], [], 0))))
        in map_option (\<lambda>(calls, out, ret). (Set_reuse # calls, out, ret)) k)"

definition tcp_client :: "network \<Rightarrow> string list \<Rightarrow> net_run option" where
  "tcp_client w argv =
     (if length argv < 2 then Some ([], [], 1)
      else attempt w 1 [Resolve (argv ! 1), Make_socket False, Connect_to (argv ! 1) SEVPORT, Send_bytes (replicate MAXDATASIZE CHR 0x15)]
        (case incoming w of None \<Rightarrow> Some ([Receive_bytes MAXDATASIZE, Close_one], [], 1)
         | Some s \<Rightarrow> Some ([Receive_bytes MAXDATASIZE, Close_one], [take MAXDATASIZE s], 0)))"

section \<open>What the samples exchange\<close>

lemma attempt_all: "\<forall>c \<in> set cs. succeeds w c \<Longrightarrow>
    attempt w r cs k = map_option (\<lambda>(calls, out, ret). (cs @ calls, out, ret)) k"
  by (induction cs) (cases k; auto)+

lemma print_clean: "CHR 0x00 \<notin> set s \<Longrightarrow> length s < n \<Longrightarrow> print_str (s @ replicate (n - length s) CHR 0x00) = Some s"
  by (cases "n - length s") (auto simp: print_str_def cstr_no_NUL)

lemma received_text: "incoming w = Some s \<Longrightarrow> length s \<le> n \<Longrightarrow>
    received w (replicate n c) = s @ replicate (n - length s) c"
  by (simp add: received_def)

text \<open>A message over TCP arrives, and the reply comes back.\<close>

lemma hello_tcp:
  assumes "\<forall>c. succeeds client c \<and> succeeds server c" "CHR 0x00 \<notin> set m" "length m < 1024" "CHR 0x00 \<notin> set ip" "ip \<noteq> []" "length ip < 50"
    "incoming server = Some m" "incoming client = Some server_reply"
  shows "hello_main client [(CHR ''c'', []), (CHR ''a'', ip), (CHR ''m'', m)] =
      Some ([Make_socket False, Resolve ip, Connect_to ip 9123, Send_bytes m, Receive_bytes 1024, Close_one], [server_reply], 0)"
    "hello_main server [(CHR ''s'', [])] =
      Some ([Make_socket False, Bind_to 9123, Listen_on 3, Accept_one, Receive_bytes 1024, Send_bytes server_reply, Close_one, Shut_down], [m], 0)"
proof -
  have p: "print_str (received client (replicate 1024 CHR 0x00)) = Some server_reply"
    using received_text [OF assms(8), of 1024] print_clean [of server_reply 1024] by (simp add: server_reply_def)
  have q: "print_str (received server (replicate 1024 CHR 0x00)) = Some m"
    using received_text [OF assms(7), of 1024] print_clean [of m 1024] assms(2,3) by simp
  have m: "print_str (m @ CHR 0x00 # r) = Some m" for r using assms(2) by (simp add: print_str_def cstr_no_NUL)
  have "hd ip \<noteq> CHR 0x00" using assms(4,5) hd_in_set by metis
  then have ip: "cstr (ip @ CHR 0x00 # r) = ip" "hd (ip @ CHR 0x00 # r) \<noteq> CHR 0x00" for r
    using assms(4,5) by (simp_all add: cstr_no_NUL)
  show "hello_main client [(CHR ''c'', []), (CHR ''a'', ip), (CHR ''m'', m)] =
      Some ([Make_socket False, Resolve ip, Connect_to ip 9123, Send_bytes m, Receive_bytes 1024, Close_one], [server_reply], 0)"
    using assms(1,3,6) by (simp add: hello_main_def hello_init_def store_str_def client_mode_def attempt_all p m ip cstr_no_NUL [OF assms(4)])
  show "hello_main server [(CHR ''s'', [])] =
      Some ([Make_socket False, Bind_to 9123, Listen_on 3, Accept_one, Receive_bytes 1024, Send_bytes server_reply, Close_one, Shut_down], [m], 0)"
    using assms(1) by (simp add: hello_main_def hello_init_def server_mode_def attempt_all q Let_def)
qed

text \<open>Over UDP the server never answers: it reads behind its 18 byte literal, or stores its NUL outside the buffer.\<close>

lemma hello_udp_server:
  assumes "\<forall>c. succeeds w c"
  shows "hello_main w [(CHR ''s'', []), (CHR ''u'', [])] = None"
  using assms by (cases "incoming w")
    (auto simp: hello_main_def hello_init_def server_mode_def attempt_all Let_def server_reply_def bind_eq_None_conv)

text \<open>The TCP server sends the bytes it received and behind them what its stack held.\<close>

lemma tcp_server_leaks:
  assumes "\<forall>c. succeeds w c" "incoming w = Some s" "length s \<le> MAXDATASIZE" "length junk = MAXDATASIZE"
  shows "\<exists>cs out. tcp_server w junk = Some (cs @ [Send_bytes (s @ drop (length s) junk), Close_one], out, 0)"
  using assms by (simp add: tcp_server_def attempt_all received_def Let_def)

end
