(* ===== verification/SbiPlatform.thy ===== *)
theory SbiPlatform
  imports Prelude
begin

text \<open>
  The OpenSBI platforms, boards/efinix/*/opensbi/platform.c with the values they take from soc.h: the tables and the
  steps they hand to OpenSBI, whose header constants are parameters.
\<close>

unbundle bit_operations_syntax

section \<open>The boards\<close>

text \<open>
  What the platform file takes from a board's soc.h; \<open>zicbom\<close> is whether SYSTEM_RISCV_ISA_EXT_ZICBOM is set, which no board
  does.  The four platform files differ in the name only.
\<close>

record soc_map =
  cores_count :: "nat option"
  clint_hz :: nat
  uart_0_ctrl :: nat
  clint_ctrl :: nat
  zicbom :: bool
  board_name :: string

definition T120F324 :: soc_map where
  "T120F324 = \<lparr>cores_count = None, clint_hz = 50000000, uart_0_ctrl = 0xf8010000, clint_ctrl = 0xf8b00000, zicbom = False,
     board_name = ''Efinix Titanium T120F324''\<rparr>"

definition Ti180J484 :: soc_map where
  "Ti180J484 = \<lparr>cores_count = None, clint_hz = 80000000, uart_0_ctrl = 0xf8010000, clint_ctrl = 0xf8b00000, zicbom = False,
     board_name = ''Efinix Titanium Ti180J484''\<rparr>"

definition Ti375C529 :: soc_map where
  "Ti375C529 = \<lparr>cores_count = Some 4, clint_hz = 250000000, uart_0_ctrl = 0xe8010000, clint_ctrl = 0xf8b00000, zicbom = False,
     board_name = ''Efinix Titanium Ti375C529''\<rparr>"

definition Ti375N1156 :: soc_map where
  "Ti375N1156 = \<lparr>cores_count = Some 4, clint_hz = 250000000, uart_0_ctrl = 0xe8010000, clint_ctrl = 0xf8b00000, zicbom = False,
     board_name = ''Efinix Titanium Ti375N1156''\<rparr>"

definition boards :: "soc_map list" where
  "boards = [T120F324, Ti180J484, Ti375C529, Ti375N1156]"

section \<open>The platform\<close>

text \<open>Constants of OpenSBI's headers.\<close>

record sbi_header =
  CLINT_MSWI_OFFSET :: nat
  ACLINT_MSWI_SIZE :: nat
  MTIME_SIZE :: nat
  MTIMECMP_SIZE :: nat
  ENVCFG_CBCFE :: u64
  ENVCFG_CBIE_INV :: u64
  ENVCFG_CBIE_SHIFT :: nat

definition VEX_HART_COUNT :: "soc_map \<Rightarrow> nat" where
  "VEX_HART_COUNT b = (case cores_count b of None \<Rightarrow> 1 | Some n \<Rightarrow> n)"

definition VEX_CLINT_MTIME_LO :: nat where "VEX_CLINT_MTIME_LO = 0xbff8"
definition VEX_CLINT_MTIME_HI :: nat where "VEX_CLINT_MTIME_HI = 0xbffc"
definition VEX_CLINT_MTIMECMP_LO :: nat where "VEX_CLINT_MTIMECMP_LO = 0x4000"
definition VEX_CLINT_MTIMECMP_HI :: nat where "VEX_CLINT_MTIMECMP_HI = 0x4004"

definition VEX_UART_ADDR :: "soc_map \<Rightarrow> nat" where "VEX_UART_ADDR b = uart_0_ctrl b"
definition VEX_CLINT_MSWI_ADDR :: "sbi_header \<Rightarrow> soc_map \<Rightarrow> nat" where
  "VEX_CLINT_MSWI_ADDR k b = clint_ctrl b + CLINT_MSWI_OFFSET k"
definition VEX_CLINT_MTIMER_ADDR :: "soc_map \<Rightarrow> nat" where "VEX_CLINT_MTIMER_ADDR b = clint_ctrl b + VEX_CLINT_MTIME_LO"
definition VEX_CLINT_MTIMECMP_ADDR :: "soc_map \<Rightarrow> nat" where "VEX_CLINT_MTIMECMP_ADDR b = clint_ctrl b + VEX_CLINT_MTIMECMP_LO"

record aclint_mswi =
  ms_addr :: nat
  ms_size :: nat
  ms_first_hartid :: nat
  ms_hart_count :: nat

record aclint_mtimer =
  mtime_freq :: nat
  mtime_addr :: nat
  mtime_size :: nat
  mtimecmp_addr :: nat
  mtimecmp_size :: nat
  mt_first_hartid :: nat
  mt_hart_count :: nat
  has_64bit_mmio :: bool

definition mswi :: "sbi_header \<Rightarrow> soc_map \<Rightarrow> aclint_mswi" where
  "mswi k b = \<lparr>ms_addr = VEX_CLINT_MSWI_ADDR k b, ms_size = ACLINT_MSWI_SIZE k, ms_first_hartid = 0, ms_hart_count = VEX_HART_COUNT b\<rparr>"

definition mtimer :: "sbi_header \<Rightarrow> bool \<Rightarrow> soc_map \<Rightarrow> aclint_mtimer" where
  "mtimer k rv64 b = \<lparr>mtime_freq = clint_hz b, mtime_addr = VEX_CLINT_MTIMER_ADDR b, mtime_size = MTIME_SIZE k,
     mtimecmp_addr = VEX_CLINT_MTIMECMP_ADDR b, mtimecmp_size = MTIMECMP_SIZE k, mt_first_hartid = 0,
     mt_hart_count = VEX_HART_COUNT b, has_64bit_mmio = rv64\<rparr>"

text \<open>What the platform asks OpenSBI to do; \<open>answer\<close> is what it returns.\<close>

datatype sbi_task = Write_menvcfg u64 | Uart_init nat | Mswi_cold_init aclint_mswi | Mtimer_cold_init aclint_mtimer

definition vex_enable_cbo :: "sbi_header \<Rightarrow> u64 \<Rightarrow> sbi_task list" where
  "vex_enable_cbo k menvcfg = [Write_menvcfg (menvcfg OR ENVCFG_CBCFE k OR push_bit (ENVCFG_CBIE_SHIFT k) (ENVCFG_CBIE_INV k))]"

definition vex_early_init :: "sbi_header \<Rightarrow> bool \<Rightarrow> soc_map \<Rightarrow> u64 \<Rightarrow> (sbi_task \<Rightarrow> int) \<Rightarrow> bool \<Rightarrow> sbi_task list \<times> int" where
  "vex_early_init k rv64 b menvcfg answer cold_boot =
     (let cbo = (if rv64 \<and> zicbom b then vex_enable_cbo k menvcfg else [])
      in if \<not> cold_boot then (cbo, 0)
         else (cbo @ [Uart_init (VEX_UART_ADDR b)], answer (Uart_init (VEX_UART_ADDR b))))"

definition vex_final_init :: "bool \<Rightarrow> sbi_task list \<times> int" where "vex_final_init cold_boot = ([], 0)"

definition vex_irqchip_init :: "sbi_task list \<times> int" where "vex_irqchip_init = ([], 0)"

definition vex_ipi_init :: "sbi_header \<Rightarrow> soc_map \<Rightarrow> (sbi_task \<Rightarrow> int) \<Rightarrow> sbi_task list \<times> int" where
  "vex_ipi_init k b answer = ([Mswi_cold_init (mswi k b)], answer (Mswi_cold_init (mswi k b)))"

definition vex_timer_init :: "sbi_header \<Rightarrow> bool \<Rightarrow> soc_map \<Rightarrow> (sbi_task \<Rightarrow> int) \<Rightarrow> sbi_task list \<times> int" where
  "vex_timer_init k rv64 b answer = ([Mtimer_cold_init (mtimer k rv64 b)], answer (Mtimer_cold_init (mtimer k rv64 b)))"

section \<open>The blocks of the CLINT\<close>

text \<open>A block with registers for every hart: four bytes for a software interrupt, eight for a compare register.\<close>

definition inside :: "nat \<times> nat \<Rightarrow> nat \<times> nat \<Rightarrow> bool" where
  "inside r w \<longleftrightarrow> fst w \<le> fst r \<and> fst r + snd r \<le> fst w + snd w"

definition apart :: "nat \<times> nat \<Rightarrow> nat \<times> nat \<Rightarrow> bool" where
  "apart r s \<longleftrightarrow> fst r + snd r \<le> fst s \<or> fst s + snd s \<le> fst r"

text \<open>
  On every board, with the sizes of the specification of the ACLINT, the three blocks lie inside the window of the CLINT and apart from
  each other, the blocks of the harts have room for all of them, and so every hart has its own registers.
\<close>
lemma clint_blocks:
  assumes "b \<in> set boards" "CLINT_MSWI_OFFSET k = 0" "ACLINT_MSWI_SIZE k = 0x4000" "MTIME_SIZE k = 8" "MTIMECMP_SIZE k = 0x7ff8"
  shows "let ms = (ms_addr (mswi k b), ms_size (mswi k b)); t = (mtime_addr (mtimer k rv64 b), mtime_size (mtimer k rv64 b));
      c = (mtimecmp_addr (mtimer k rv64 b), mtimecmp_size (mtimer k rv64 b)); w = (clint_ctrl b, 0x10000)
    in inside ms w \<and> inside t w \<and> inside c w \<and> apart ms t \<and> apart ms c \<and> apart t c \<and>
       4 * ms_hart_count (mswi k b) \<le> snd ms \<and> 8 * mt_hart_count (mtimer k rv64 b) \<le> snd c"
  using assms by (auto simp: boards_def Let_def inside_def apart_def mswi_def mtimer_def VEX_CLINT_MSWI_ADDR_def VEX_CLINT_MTIMER_ADDR_def
      VEX_CLINT_MTIMECMP_ADDR_def VEX_CLINT_MTIME_LO_def VEX_CLINT_MTIMECMP_LO_def VEX_HART_COUNT_def
      T120F324_def Ti180J484_def Ti375C529_def Ti375N1156_def)

text \<open>No board turns on the cache block operations; a cold boot starts the console, a warm one does nothing.\<close>

lemma early_init_boards:
  assumes "b \<in> set boards"
  shows "vex_early_init k rv64 b menvcfg answer cold_boot =
    (if cold_boot then ([Uart_init (uart_0_ctrl b)], answer (Uart_init (uart_0_ctrl b))) else ([], 0))"
  using assms by (auto simp: boards_def vex_early_init_def VEX_UART_ADDR_def Let_def
      T120F324_def Ti180J484_def Ti375C529_def Ti375N1156_def)

end
